(* ===== verification/Hive_Prelude.thy ===== *)
theory Hive_Prelude
  imports Complex_Main "HOL-Library.AList" "HOL-Library.Sublist" "HOL-Library.While_Combinator"
begin

text \<open>
  Shared vocabulary of the development: results that carry an error (the exceptions of the
  Python code), ordered dictionaries, first-occurrence de-duplication (Python's
  \<^theory_text>\<open>dict.fromkeys\<close>), and the two interfaces that several components rely on: a
  status table with terminal statuses, and a keyed log in which an entry is never overwritten.
\<close>

named_theorems machine_simps "unfolding of guards and tables of the state machines"
named_theorems decide "characterisations of decision functions, one per outcome"

section \<open>Results\<close>

text \<open>A Python function that may raise returns a sum: \<^term>\<open>Inl e\<close> for the exception.\<close>

type_synonym ('e, 'a) res = "'e + 'a"

fun bind_res :: "('e, 'a) res \<Rightarrow> ('a \<Rightarrow> ('e, 'b) res) \<Rightarrow> ('e, 'b) res" where
  "bind_res (Inl e) f = Inl e"
| "bind_res (Inr x) f = f x"

abbreviation require :: "bool \<Rightarrow> 'e \<Rightarrow> ('e, unit) res" where
  "require b e \<equiv> (if b then Inr () else Inl e)"

text \<open>\<open>for x in xs: check(x)\<close>: the first exception ends the loop.\<close>

fun each_res :: "('a \<Rightarrow> ('e, unit) res) \<Rightarrow> 'a list \<Rightarrow> ('e, unit) res" where
  "each_res f [] = Inr ()"
| "each_res f (x # xs) = bind_res (f x) (\<lambda>_. each_res f xs)"

text \<open>\<open>for x in xs: s = step(s, x)\<close> with a body that may raise.\<close>

fun fold_res :: "('s \<Rightarrow> 'a \<Rightarrow> ('e, 's) res) \<Rightarrow> 's \<Rightarrow> 'a list \<Rightarrow> ('e, 's) res" where
  "fold_res f s [] = Inr s"
| "fold_res f s (x # xs) = bind_res (f s x) (\<lambda>s'. fold_res f s' xs)"

lemma bind_res_Inr [simp]: "bind_res m f = Inr y \<longleftrightarrow> (\<exists>x. m = Inr x \<and> f x = Inr y)"
  by (cases m) auto

lemma bind_res_Inl: "bind_res m f = Inl e \<longleftrightarrow> m = Inl e \<or> (\<exists>x. m = Inr x \<and> f x = Inl e)"
  by (cases m) auto

lemma require_Inr [simp]: "require b e = Inr u \<longleftrightarrow> b"
  by simp

lemma require_Inl [simp]: "require b e = Inl e' \<longleftrightarrow> \<not> b \<and> e' = e"
  by auto

lemma each_res_Inr: "each_res f xs = Inr u \<longleftrightarrow> (\<forall>x \<in> set xs. f x = Inr ())"
  by (induction xs) auto

lemma each_res_append: "each_res f (xs @ ys) = bind_res (each_res f xs) (\<lambda>_. each_res f ys)"
proof (induction xs)
  case Nil
  then show ?case by simp
next
  case (Cons x xs)
  then show ?case by (cases "f x") auto
qed

lemma fold_res_append:
  "fold_res f s (xs @ ys) = bind_res (fold_res f s xs) (\<lambda>s'. fold_res f s' ys)"
proof (induction xs arbitrary: s)
  case Nil
  then show ?case by simp
next
  case (Cons x xs)
  then show ?case by (cases "f s x") auto
qed

lemma fold_res_invariant:
  assumes "fold_res f s xs = Inr t" and "P s"
    and "\<And>s x s'. P s \<Longrightarrow> x \<in> set xs \<Longrightarrow> f s x = Inr s' \<Longrightarrow> P s'"
  shows "P t"
  using assms
proof (induction xs arbitrary: s)
  case Nil
  then show ?case by simp
next
  case (Cons x xs)
  from Cons.prems(1) obtain s' where s': "f s x = Inr s'" and t: "fold_res f s' xs = Inr t"
    by auto
  show ?case
  proof (rule Cons.IH [OF t])
    show "P s'" by (rule Cons.prems(3) [OF Cons.prems(2) _ s']) simp
  next
    fix u y u'
    assume "P u" and "y \<in> set xs" and "f u y = Inr u'"
    then show "P u'" by (blast intro: Cons.prems(3) list.set_intros(2))
  qed
qed

section \<open>Ordered de-duplication\<close>

text \<open>\<open>list(dict.fromkeys(xs))\<close> keeps the first occurrence of each element, in order.\<close>

fun py_unique :: "'a list \<Rightarrow> 'a list" where
  "py_unique [] = []"
| "py_unique (x # xs) = x # removeAll x (py_unique xs)"

lemma set_py_unique [simp]: "set (py_unique xs) = set xs"
  by (induction xs) auto

lemma distinct_removeAll_pres: "distinct ys \<Longrightarrow> distinct (removeAll x ys)"
  by (induction ys) auto

lemma distinct_py_unique [simp]: "distinct (py_unique xs)"
  by (induction xs) (auto simp: distinct_removeAll_pres)

lemma py_unique_Nil [simp]: "py_unique xs = [] \<longleftrightarrow> xs = []"
  by (cases xs) auto

lemma py_unique_id: "distinct xs \<Longrightarrow> py_unique xs = xs"
  by (induction xs) auto

lemma py_unique_idem [simp]: "py_unique (py_unique xs) = py_unique xs"
  by (simp add: py_unique_id)

section \<open>First match\<close>

lemma find_append_Some: "find P xs = Some x \<Longrightarrow> find P (xs @ ys) = Some x"
  by (induction xs) auto

lemma find_append_None: "find P xs = None \<Longrightarrow> find P (xs @ ys) = find P ys"
  by (induction xs) auto

section \<open>Ordered dictionaries\<close>

text \<open>
  A Python dict is an association list in insertion order; assignment to an existing key
  keeps its position, assignment to a new key appends (\<^const>\<open>AList.update\<close>).
\<close>

lemma map_of_AList_update [simp]: "map_of (AList.update k v d) = (map_of d)(k \<mapsto> v)"
  by (rule update_conv')

lemma keys_AList_update [simp]: "fst ` set (AList.update k v d) = insert k (fst ` set d)"
  by (induction d) auto

section \<open>Interface: a status table\<close>

text \<open>
  A status machine is a transition relation with terminal statuses that no transition
  leaves. Its clients need that a terminal status is absorbing for whole runs.
\<close>

locale status_table =
  fixes edge :: "'s \<Rightarrow> 's \<Rightarrow> bool"
    and final :: "'s \<Rightarrow> bool"
  assumes final_stuck: "final s \<Longrightarrow> \<not> edge s t"
begin

lemma final_absorbing:
  assumes "edge\<^sup>*\<^sup>* s t" and "final s"
  shows "t = s"
  using assms(1)
proof (cases rule: converse_rtranclpE)
  case base
  then show ?thesis by simp
next
  case (step u)
  with final_stuck assms(2) show ?thesis by blast
qed

lemma run_before_final:
  assumes "edge\<^sup>*\<^sup>* s t" and "edge t u"
  shows "\<not> final s \<and> \<not> final t"
  using assms final_absorbing final_stuck by blast

end

section \<open>Interface: an append-only log\<close>

text \<open>
  Several components record an operation in a log and answer a later call from the first
  matching entry (an idempotency key, a reservation key). The provider promises that no
  operation removes or reorders entries; a client may rely on what it found once.
\<close>

locale append_log =
  fixes entries :: "'s \<Rightarrow> 'e list"
    and step :: "'c \<Rightarrow> 's \<Rightarrow> 's"
  assumes step_appends: "prefix (entries s) (entries (step c s))"
begin

definition run_steps :: "'c list \<Rightarrow> 's \<Rightarrow> 's" where
  "run_steps cs s = foldl (\<lambda>s c. step c s) s cs"

lemma run_appends: "prefix (entries s) (entries (run_steps cs s))"
proof (induction cs rule: rev_induct)
  case Nil
  then show ?case by (simp add: run_steps_def)
next
  case (snoc c cs)
  with step_appends [of "run_steps cs s" c] show ?case
    by (auto simp: run_steps_def intro: prefix_order.trans)
qed

text \<open>The first entry that matches stays the first one.\<close>

lemma found_kept: "find P (entries s) = Some e \<Longrightarrow> find P (entries (run_steps cs s)) = Some e"
proof -
  assume f: "find P (entries s) = Some e"
  obtain zs where "entries (run_steps cs s) = entries s @ zs"
    using run_appends [of s cs] by (auto elim: prefixE)
  with f show ?thesis by (simp add: find_append_Some)
qed

lemma entry_kept: "e \<in> set (entries s) \<Longrightarrow> e \<in> set (entries (run_steps cs s))"
  using run_appends [of s cs] by (auto elim: prefixE)

end

end
