(* ===== verification/Py_Value.thy ===== *)
theory Py_Value
  imports Hive_Prelude
begin

text \<open>
  The Python values and string operations the modelled code uses. A \<^theory_text>\<open>pyval\<close> is a value of
  JSON shape (what reaches the code from requests, model output and JSONB columns). Strings
  range over the code points U+0000 to U+00FF, one \<^typ>\<open>char\<close> each; \<open>strip\<close>, \<open>lower\<close>,
  \<open>split\<close>, \<open>isdigit\<close> and \<open>repr\<close> are Python's on those code points. A float is
  represented by the text \<open>repr(x)\<close> prints, which determines a finite double.
\<close>

section \<open>Strings\<close>

abbreviation code_point :: "char \<Rightarrow> nat" where
  "code_point \<equiv> of_char"

text \<open>\<open>str.isspace\<close> on U+0000..U+00FF.\<close>

definition py_space :: "char \<Rightarrow> bool" where
  "py_space c = (let n = code_point c in
     (9 \<le> n \<and> n \<le> 13) \<or> (28 \<le> n \<and> n \<le> 32) \<or> n = 133 \<or> n = 160)"

definition py_lstrip :: "string \<Rightarrow> string" where
  "py_lstrip s = dropWhile py_space s"

definition py_strip :: "string \<Rightarrow> string" where
  "py_strip s = rev (dropWhile py_space (rev (py_lstrip s)))"

text \<open>\<open>str.lower\<close>: ASCII letters and the Latin-1 capitals U+00C0..U+00DE except U+00D7.\<close>

definition py_lower_char :: "char \<Rightarrow> char" where
  "py_lower_char c = (let n = code_point c in
     if (65 \<le> n \<and> n \<le> 90) \<or> (192 \<le> n \<and> n \<le> 222 \<and> n \<noteq> 215) then char_of (n + 32) else c)"

definition py_lower :: "string \<Rightarrow> string" where
  "py_lower = map py_lower_char"

text \<open>\<open>s.split(sep)\<close> with a one-character separator.\<close>

fun py_split_on :: "char \<Rightarrow> string \<Rightarrow> string list" where
  "py_split_on sep [] = [[]]"
| "py_split_on sep (c # cs) =
     (if c = sep then [] # py_split_on sep cs
      else (case py_split_on sep cs of [] \<Rightarrow> [[c]] | w # ws \<Rightarrow> (c # w) # ws))"

text \<open>\<open>s.split()\<close>: the maximal runs of non-space characters.\<close>

function py_words :: "string \<Rightarrow> string list" where
  "py_words s =
     (case py_lstrip s of [] \<Rightarrow> []
      | t \<Rightarrow> takeWhile (\<lambda>c. \<not> py_space c) t # py_words (dropWhile (\<lambda>c. \<not> py_space c) t))"
  by pat_completeness auto
termination
proof (relation "measure length")
  fix s :: string and c and cs
  assume eq: "py_lstrip s = c # cs"
  have "\<not> py_space c" using eq hd_dropWhile [of py_space s] by (simp add: py_lstrip_def)
  then have "length (dropWhile (\<lambda>c. \<not> py_space c) (c # cs)) \<le> length cs"
    by (simp add: length_dropWhile_le)
  moreover have "length (c # cs) \<le> length s"
    using eq by (metis py_lstrip_def length_dropWhile_le)
  ultimately show "(dropWhile (\<lambda>c. \<not> py_space c) (c # cs), s) \<in> measure length" by simp
qed simp

declare py_words.simps [simp del]

fun py_join :: "string \<Rightarrow> string list \<Rightarrow> string" where
  "py_join sep [] = []"
| "py_join sep [w] = w"
| "py_join sep (w # ws) = w @ sep @ py_join sep ws"

text \<open>\<open>str.isdigit\<close>: ASCII digits and the superscripts U+00B2, U+00B3 and U+00B9.\<close>

definition ascii_digit :: "char \<Rightarrow> bool" where
  "ascii_digit c = (48 \<le> code_point c \<and> code_point c \<le> 57)"

definition py_isdigit :: "string \<Rightarrow> bool" where
  "py_isdigit s = (s \<noteq> [] \<and>
     list_all (\<lambda>c. ascii_digit c \<or> code_point c \<in> {178, 179, 185}) s)"

text \<open>The decimal rendering of an integer, and its inverse on digit strings.\<close>

fun digits_of_nat :: "nat \<Rightarrow> string" where
  "digits_of_nat n =
     (if n < 10 then [char_of (48 + n)] else digits_of_nat (n div 10) @ [char_of (48 + n mod 10)])"

declare digits_of_nat.simps [simp del]

definition str_of_int :: "int \<Rightarrow> string" where
  "str_of_int i = (if i < 0 then CHR ''-'' # digits_of_nat (nat (- i)) else digits_of_nat (nat i))"

definition nat_of_digits :: "string \<Rightarrow> nat" where
  "nat_of_digits s = foldl (\<lambda>n c. 10 * n + (code_point c - 48)) 0 s"

lemma nat_of_digits_snoc: "nat_of_digits (s @ [c]) = 10 * nat_of_digits s + (code_point c - 48)"
  by (simp add: nat_of_digits_def)

lemma nat_of_digits_of_nat [simp]: "nat_of_digits (digits_of_nat n) = n"
proof (induction n rule: digits_of_nat.induct)
  case (1 n)
  show ?case
  proof (cases "n < 10")
    case True
    then show ?thesis by (subst digits_of_nat.simps) (simp add: nat_of_digits_def)
  next
    case False
    then show ?thesis using 1
      by (subst digits_of_nat.simps) (simp add: nat_of_digits_snoc)
  qed
qed

lemma digits_of_nat_digits: "list_all ascii_digit (digits_of_nat n)"
proof (induction n rule: digits_of_nat.induct)
  case (1 n)
  have "n mod 10 \<le> 9" by arith
  with 1 show ?case by (subst digits_of_nat.simps) (simp add: ascii_digit_def [of "char_of _"])
qed

lemma digits_of_nat_inj [simp]: "digits_of_nat m = digits_of_nat n \<longleftrightarrow> m = n"
  by (metis nat_of_digits_of_nat)

subsection \<open>Facts about stripping and splitting\<close>

lemma py_strip_Nil [simp]: "py_strip [] = []"
  by (simp add: py_strip_def py_lstrip_def)

lemma py_strip_edges:
  assumes "py_strip s \<noteq> []"
  shows "\<not> py_space (hd (py_strip s))" and "\<not> py_space (last (py_strip s))"
proof -
  let ?t = "py_lstrip s" and ?r = "rev (py_strip s)"
  have r: "?r = dropWhile py_space (rev ?t)" by (simp add: py_strip_def)
  from assms have "?r \<noteq> []" by simp
  with r show "\<not> py_space (last (py_strip s))"
    by (metis hd_dropWhile hd_rev rev_rev_ident)
  obtain u where u: "rev ?t = u @ ?r"
    using r by (metis takeWhile_dropWhile_id)
  then have "?t = py_strip s @ rev u" by (metis rev_append rev_rev_ident)
  with assms have "?t \<noteq> []" and "hd ?t = hd (py_strip s)" by auto
  then show "\<not> py_space (hd (py_strip s))"
    unfolding py_lstrip_def by (metis hd_dropWhile)
qed

lemma py_strip_id:
  assumes "s \<noteq> [] \<Longrightarrow> \<not> py_space (hd s)" and "s \<noteq> [] \<Longrightarrow> \<not> py_space (last s)"
  shows "py_strip s = s"
proof -
  have "dropWhile py_space (rev s) = rev s"
    using assms(2) by (auto simp: dropWhile_eq_self_iff hd_rev)
  moreover have "py_lstrip s = s"
    using assms(1) by (auto simp: py_lstrip_def dropWhile_eq_self_iff)
  ultimately show ?thesis by (simp add: py_strip_def)
qed

lemma py_strip_idem [simp]: "py_strip (py_strip s) = py_strip s"
  by (rule py_strip_id) (auto dest: py_strip_edges)

lemma py_strip_empty: "py_strip s = [] \<longleftrightarrow> (\<forall>c \<in> set s. py_space c)"
proof -
  have "py_strip s = [] \<longleftrightarrow> (\<forall>c \<in> set (py_lstrip s). py_space c)"
    by (simp add: py_strip_def)
  also have "\<dots> \<longleftrightarrow> (\<forall>c \<in> set s. py_space c)"
    unfolding py_lstrip_def
    by (induction s) auto
  finally show ?thesis .
qed

lemma py_split_on_ne [simp]: "py_split_on sep s \<noteq> []"
  by (induction s) (auto split: list.splits)

lemma py_split_on_join: "py_join [sep] (py_split_on sep s) = s"
proof (induction s)
  case (Cons c cs)
  obtain w ws where ws: "py_split_on sep cs = w # ws"
    by (cases "py_split_on sep cs") auto
  with Cons show ?case by (cases ws) auto
qed simp

lemma py_split_on_pieces: "w \<in> set (py_split_on sep s) \<Longrightarrow> sep \<notin> set w"
  by (induction s arbitrary: w) (fastforce split: list.splits if_splits)+

section \<open>Values\<close>

datatype pyval =
    PNone
  | PBool bool
  | PInt int
  | PFloat string
  | PStr string
  | PList "pyval list"
  | PDict "(string \<times> pyval) list"

fun truthy :: "pyval \<Rightarrow> bool" where
  "truthy PNone = False"
| "truthy (PBool b) = b"
| "truthy (PInt i) = (i \<noteq> 0)"
| "truthy (PFloat f) = (f \<noteq> ''0.0'' \<and> f \<noteq> ''-0.0'')"
| "truthy (PStr s) = (s \<noteq> [])"
| "truthy (PList vs) = (vs \<noteq> [])"
| "truthy (PDict d) = (d \<noteq> [])"

definition py_or :: "pyval \<Rightarrow> pyval \<Rightarrow> pyval" where
  "py_or v w = (if truthy v then v else w)"

text \<open>\<open>d.get(k)\<close> and \<open>k in d\<close>; a value that is no dict has no keys.\<close>

definition dget :: "(string \<times> pyval) list \<Rightarrow> string \<Rightarrow> pyval" where
  "dget d k = (case map_of d k of None \<Rightarrow> PNone | Some v \<Rightarrow> v)"

definition has_key :: "(string \<times> pyval) list \<Rightarrow> string \<Rightarrow> bool" where
  "has_key d k = (map_of d k \<noteq> None)"

fun as_dict :: "pyval \<Rightarrow> (string \<times> pyval) list option" where
  "as_dict (PDict d) = Some d"
| "as_dict _ = None"

fun as_list :: "pyval \<Rightarrow> pyval list option" where
  "as_list (PList vs) = Some vs"
| "as_list _ = None"

fun is_str :: "pyval \<Rightarrow> bool" where
  "is_str (PStr s) = True"
| "is_str _ = False"

text \<open>\<open>v == ''s''\<close>: only an equal string equals a string.\<close>

fun eq_str :: "pyval \<Rightarrow> string \<Rightarrow> bool" where
  "eq_str (PStr t) s = (t = s)"
| "eq_str _ s = False"

text \<open>\<open>v == n\<close> for an int \<open>n\<close>: Python compares bools and floats numerically.\<close>

fun eq_int :: "pyval \<Rightarrow> int \<Rightarrow> bool" where
  "eq_int (PInt i) n = (i = n)"
| "eq_int (PBool b) n = ((if b then 1 else 0) = n)"
| "eq_int (PFloat f) n = (f = str_of_int n @ ''.0'' \<or> n = 0 \<and> f = ''-0.0'')"
| "eq_int _ n = False"

text \<open>\<open>repr\<close> of a string: the quote, the escapes, and \<open>\xNN\<close> for what does not print.\<close>

definition hex_digit :: "nat \<Rightarrow> char" where
  "hex_digit n = (if n < 10 then char_of (48 + n) else char_of (87 + n))"

definition repr_char :: "char \<Rightarrow> char \<Rightarrow> string" where
  "repr_char q c = (let n = code_point c in
     if c = q \<or> n = 92 then [CHR 0x5C, c]
     else if n = 9 then [CHR 0x5C, CHR ''t'']
     else if n = 10 then [CHR 0x5C, CHR ''n'']
     else if n = 13 then [CHR 0x5C, CHR ''r'']
     else if n < 32 \<or> (127 \<le> n \<and> n \<le> 160) \<or> n = 173
       then [CHR 0x5C, CHR ''x'', hex_digit (n div 16), hex_digit (n mod 16)]
     else [c])"

definition repr_str :: "string \<Rightarrow> string" where
  "repr_str s = (let q = (if CHR 0x27 \<in> set s \<and> CHR 0x22 \<notin> set s then CHR 0x22 else CHR 0x27)
     in q # concat (map (repr_char q) s) @ [q])"

fun py_repr :: "pyval \<Rightarrow> string" where
  "py_repr PNone = ''None''"
| "py_repr (PBool b) = (if b then ''True'' else ''False'')"
| "py_repr (PInt i) = str_of_int i"
| "py_repr (PFloat f) = f"
| "py_repr (PStr s) = repr_str s"
| "py_repr (PList vs) = ''['' @ py_join '', '' (map py_repr vs) @ '']''"
| "py_repr (PDict d) =
     ''{'' @ py_join '', '' (map (\<lambda>kv. repr_str (fst kv) @ '': '' @ py_repr (snd kv)) d) @ ''}''"

definition py_str :: "pyval \<Rightarrow> string" where
  "py_str v = (case v of PStr s \<Rightarrow> s | _ \<Rightarrow> py_repr v)"

lemma py_str_PStr [simp]: "py_str (PStr s) = s"
  by (simp add: py_str_def)

text \<open>The ubiquitous \<open>str(v or "").strip()\<close>.\<close>

definition clean_text :: "pyval \<Rightarrow> string" where
  "clean_text v = py_strip (py_str (py_or v (PStr [])))"

lemma clean_text_simps [simp]:
  "clean_text PNone = []" "clean_text (PStr s) = py_strip s" "clean_text (PBool False) = []"
  by (auto simp: clean_text_def py_or_def)

lemma clean_text_idem [simp]: "py_strip (clean_text v) = clean_text v"
  by (simp add: clean_text_def)

lemma dget_update [simp]: "dget (AList.update k v d) k' = (if k' = k then v else dget d k')"
  by (simp add: dget_def)

lemma has_key_update [simp]: "has_key (AList.update k v d) k' \<longleftrightarrow> k' = k \<or> has_key d k'"
  by (simp add: has_key_def)

lemma dget_missing: "\<not> has_key d k \<Longrightarrow> dget d k = PNone"
  by (auto simp: dget_def has_key_def split: option.splits)

end
