(* ===== verification/Py_Std.thy ===== *)
theory Py_Std
  imports Py_Value "HOL-Library.Word" "HOL-Library.Code_Target_Numeral" "HOL-Library.Char_ord" "HOL-Library.List_Lexorder"
begin

text \<open>
  The parts of Python's standard library the plan and budget services use: \<open>int(s, base)\<close>,
  \<open>uuid.UUID\<close>, \<open>json.dumps\<close> with sorted keys, and the ISO form of a UTC datetime. A UUID is
  its 128 bits; a datetime is the number of microseconds since the epoch, in UTC.
\<close>

section \<open>Integers from text\<close>

definition digit_value :: "char \<Rightarrow> nat option" where
  "digit_value c = (let n = code_point c in
     if 48 \<le> n \<and> n \<le> 57 then Some (n - 48)
     else if 97 \<le> n \<and> n \<le> 122 then Some (n - 87)
     else if 65 \<le> n \<and> n \<le> 90 then Some (n - 55)
     else None)"

definition base_digit :: "nat \<Rightarrow> char \<Rightarrow> nat option" where
  "base_digit b c = (case digit_value c of Some v \<Rightarrow> if v < b then Some v else None | None \<Rightarrow> None)"

text \<open>Digits with single underscores between them.\<close>

fun int_rest :: "nat \<Rightarrow> nat \<Rightarrow> string \<Rightarrow> nat option" where
  "int_rest b acc [] = Some acc"
| "int_rest b acc (c # cs) =
     (case base_digit b c of
        Some v \<Rightarrow> int_rest b (b * acc + v) cs
      | None \<Rightarrow>
          if c = CHR ''_'' then
            (case cs of
               [] \<Rightarrow> None
             | d # ds \<Rightarrow>
                 (case base_digit b d of None \<Rightarrow> None | Some v \<Rightarrow> int_rest b (b * acc + v) ds))
          else None)"

fun int_body :: "nat \<Rightarrow> string \<Rightarrow> nat option" where
  "int_body b [] = None"
| "int_body b (c # cs) =
     (case base_digit b c of None \<Rightarrow> None | Some v \<Rightarrow> int_rest b v cs)"

text \<open>The prefix \<open>0x\<close>, with an underscore allowed after it, is skipped for base 16.\<close>

definition skip_base_prefix :: "nat \<Rightarrow> string \<Rightarrow> string" where
  "skip_base_prefix b s =
     (if b = 16 \<and> take 2 s \<in> {''0x'', ''0X''}
      then (if take 1 (drop 2 s) = ''_'' then drop 3 s else drop 2 s) else s)"

definition py_int_of_text :: "nat \<Rightarrow> string \<Rightarrow> int option" where
  "py_int_of_text b s =
     (case py_strip s of
        [] \<Rightarrow> None
      | c # cs \<Rightarrow>
          if c = CHR ''-'' then map_option (\<lambda>n. - int n) (int_body b (skip_base_prefix b cs))
          else if c = CHR ''+'' then map_option int (int_body b (skip_base_prefix b cs))
          else map_option int (int_body b (skip_base_prefix b (c # cs))))"

text \<open>
  \<open>int(v)\<close> of a value. A string of more than 4300 digits is refused. A float is truncated; its
  text has no exponent below 10^16, where its integer part is exact, and beyond that the
  result is the printed decimal.
\<close>

definition split_at_char :: "char \<Rightarrow> string \<Rightarrow> string \<times> string" where
  "split_at_char c s = (takeWhile (\<lambda>x. x \<noteq> c) s, drop 1 (dropWhile (\<lambda>x. x \<noteq> c) s))"

definition float_trunc :: "string \<Rightarrow> (string, int) res" where
  "float_trunc f =
     (if f = ''nan'' then Inl ''ValueError''
      else if f \<in> {''inf'', ''-inf''} then Inl ''OverflowError''
      else let neg = (take 1 f = ''-'');
               body = (if neg then drop 1 f else f);
               (mant, ex) = split_at_char (CHR ''e'') body;
               (ip, fp) = split_at_char (CHR ''.'') mant;
               m = nat_of_digits (ip @ fp);
               e = (if ex = [] then 0 else case py_int_of_text 10 ex of None \<Rightarrow> 0 | Some i \<Rightarrow> i)
                   - int (length fp);
               n = (if 0 \<le> e then m * 10 ^ nat e else m div 10 ^ nat (- e))
           in Inr (if neg then - int n else int n))"

fun py_int :: "pyval \<Rightarrow> (string, int) res" where
  "py_int (PInt i) = Inr i"
| "py_int (PBool b) = Inr (if b then 1 else 0)"
| "py_int (PFloat f) = float_trunc f"
| "py_int (PStr s) =
     (if 4300 < length (filter (\<lambda>c. base_digit 10 c \<noteq> None) s) then Inl ''ValueError''
      else case py_int_of_text 10 s of None \<Rightarrow> Inl ''ValueError'' | Some i \<Rightarrow> Inr i)"
| "py_int _ = Inl ''TypeError''"

text \<open>The integer nearest to \<open>p / q\<close>, ties to even.\<close>

definition round_half_even :: "int \<Rightarrow> int \<Rightarrow> int" where
  "round_half_even p q =
     (let d = p div q; r = p mod q in
      if 2 * r < q then d else if q < 2 * r then d + 1 else if even d then d else d + 1)"

section \<open>UUIDs\<close>

type_synonym uuid = "128 word"

primrec hex_digits :: "nat \<Rightarrow> nat \<Rightarrow> string" where
  "hex_digits 0 n = []"
| "hex_digits (Suc k) n = hex_digits k (n div 16) @ [hex_digit (n mod 16)]"

definition uuid_str :: "uuid \<Rightarrow> string" where
  "uuid_str u = (let h = hex_digits 32 (unat u) in
     take 8 h @ ''-'' @ take 4 (drop 8 h) @ ''-'' @ take 4 (drop 12 h) @ ''-''
       @ take 4 (drop 16 h) @ ''-'' @ drop 20 h)"

text \<open>\<open>s.replace(pat, '''')\<close>.\<close>

function py_delete :: "string \<Rightarrow> string \<Rightarrow> string" where
  "py_delete pat s =
     (case s of
        [] \<Rightarrow> []
      | c # cs \<Rightarrow>
          if pat \<noteq> [] \<and> take (length pat) s = pat then py_delete pat (drop (length pat) s)
          else c # py_delete pat cs)"
  by pat_completeness auto
termination by (relation "measure (\<lambda>(p, s). length s)") auto

declare py_delete.simps [simp del]

definition strip_chars :: "char list \<Rightarrow> string \<Rightarrow> string" where
  "strip_chars bad s =
     rev (dropWhile (\<lambda>c. c \<in> set bad) (rev (dropWhile (\<lambda>c. c \<in> set bad) s)))"

definition uuid_of_text :: "string \<Rightarrow> uuid option" where
  "uuid_of_text s =
     (let hex = filter (\<lambda>c. c \<noteq> CHR ''-'')
                  (strip_chars ''{}'' (py_delete ''uuid:'' (py_delete ''urn:'' s))) in
      if length hex \<noteq> 32 then None
      else (case py_int_of_text 16 hex of
              None \<Rightarrow> None
            | Some i \<Rightarrow> if 0 \<le> i \<and> i < 2 ^ 128 then Some (word_of_int i) else None))"

subsection \<open>A UUID is read back from its text\<close>

lemma hex_digit_value [simp]: "n < 16 \<Longrightarrow> base_digit 16 (hex_digit n) = Some n"
  by (auto simp: base_digit_def digit_value_def hex_digit_def Let_def)

lemma hex_digit_code: "n < 16 \<Longrightarrow> code_point (hex_digit n) \<in> {48..57} \<union> {97..102}"
  by (auto simp: hex_digit_def)

lemma length_hex_digits [simp]: "length (hex_digits k n) = k"
  by (induction k arbitrary: n) auto

lemma hex_digits_code:
  "c \<in> set (hex_digits k n) \<Longrightarrow> code_point c \<in> {48..57} \<union> {97..102}"
proof (induction k arbitrary: n)
  case (Suc k)
  have "n mod 16 < 16" by simp
  with Suc hex_digit_code show ?case by fastforce
qed simp

lemma hex_code_not:
  "code_point c \<in> {48..57} \<union> {97..102} \<Longrightarrow> c \<notin> {CHR ''-'', CHR ''+'', CHR ''x'', CHR ''X'',
     CHR '':'', CHR ''{'', CHR ''}''} \<and> \<not> py_space c"
  by (auto simp: py_space_def)

lemma int_rest_append:
  "\<forall>c \<in> set xs. base_digit b c \<noteq> None \<Longrightarrow>
     int_rest b acc (xs @ ys) = int_rest b (foldl (\<lambda>a c. b * a + the (base_digit b c)) acc xs) ys"
  by (induction xs arbitrary: acc) auto

lemma hex_code_digit: "code_point c \<in> {48..57} \<union> {97..102} \<Longrightarrow> base_digit 16 c \<noteq> None"
  by (auto simp: base_digit_def digit_value_def Let_def)

lemma fold_hex_digits:
  "foldl (\<lambda>a c. 16 * a + the (base_digit 16 c)) 0 (hex_digits k n) = n mod 16 ^ k"
proof (induction k arbitrary: n)
  case (Suc k)
  have "n mod (16 * 16 ^ k) = 16 * (n div 16 mod 16 ^ k) + n mod 16"
    by (simp add: mod_mult2_eq)
  with Suc show ?case by simp
qed simp

lemma int_body_hex_digits: "int_body 16 (hex_digits (Suc k) n) = Some (n mod 16 ^ Suc k)"
proof -
  let ?h = "hex_digits (Suc k) n"
  have "int_body 16 s = int_rest 16 0 s" if "s \<noteq> []" "base_digit 16 (hd s) \<noteq> None" for s
    using that by (cases s) (auto split: option.splits)
  moreover have "?h \<noteq> []" by simp
  moreover have all: "\<forall>c \<in> set ?h. base_digit 16 c \<noteq> None"
    using hex_digits_code hex_code_digit by blast
  ultimately have "int_body 16 ?h = int_rest 16 0 (?h @ [])"
    by (metis append_Nil2 hd_in_set)
  also have "\<dots> = Some (n mod 16 ^ Suc k)"
    by (subst int_rest_append [OF all]) (simp only: fold_hex_digits int_rest.simps)
  finally show ?thesis .
qed

lemma py_int_hex_digits: "py_int_of_text 16 (hex_digits (Suc k) n) = Some (int (n mod 16 ^ Suc k))"
proof -
  let ?h = "hex_digits (Suc k) n"
  have code: "c \<notin> {CHR ''-'', CHR ''+'', CHR ''x'', CHR ''X''} \<and> \<not> py_space c" if "c \<in> set ?h" for c
    using hex_code_not [OF hex_digits_code [OF that]] by blast
  have ne: "?h \<noteq> []" by simp
  have strip: "py_strip ?h = ?h"
    by (rule py_strip_id) (use code ne hd_in_set last_in_set in blast)+
  have "take 2 ?h \<noteq> ''0x''" "take 2 ?h \<noteq> ''0X''"
    using code by (metis in_set_takeD insertCI list.set_intros)+
  then have skip: "skip_base_prefix 16 ?h = ?h" by (simp add: skip_base_prefix_def)
  obtain c cs where h: "?h = c # cs" using ne by (cases ?h) auto
  have "c \<in> set ?h" unfolding h by simp
  from code [OF this] have "c \<noteq> CHR ''-''" "c \<noteq> CHR ''+''" by auto
  then show ?thesis
    using strip skip h int_body_hex_digits [of k n] unfolding py_int_of_text_def
    by (simp del: int_body.simps hex_digits.simps)
qed

lemma py_delete_id: "c \<in> set pat \<Longrightarrow> c \<notin> set s \<Longrightarrow> py_delete pat s = s"
proof (induction s)
  case Nil
  then show ?case by (simp add: py_delete.simps)
next
  case (Cons d s)
  then have "take (length pat) (d # s) \<noteq> pat"
    by (metis in_set_takeD)
  with Cons show ?case by (subst py_delete.simps) auto
qed

lemma strip_chars_id: "\<forall>c \<in> set s. c \<notin> set bad \<Longrightarrow> strip_chars bad s = s"
proof -
  assume a: "\<forall>c \<in> set s. c \<notin> set bad"
  have "dropWhile (\<lambda>c. c \<in> set bad) t = t" if "set t \<subseteq> set s" for t
    using that a by (cases t) auto
  then show ?thesis by (simp add: strip_chars_def)
qed

lemma uuid_str_set:
  "c \<in> set (uuid_str u) \<Longrightarrow> c = CHR ''-'' \<or> c \<in> set (hex_digits 32 (unat u))"
  by (auto simp: uuid_str_def Let_def dest: in_set_takeD in_set_dropD simp del: hex_digits.simps)

lemma take_drop_join: "take n (drop m h) @ drop (n + m) h = drop m h"
  by (metis append_take_drop_id drop_drop)

lemma hyphens_away:
  assumes "CHR ''-'' \<notin> set h"
  shows "filter (\<lambda>c. c \<noteq> CHR ''-'')
     (take 8 h @ ''-'' @ take 4 (drop 8 h) @ ''-'' @ take 4 (drop 12 h) @ ''-''
       @ take 4 (drop 16 h) @ ''-'' @ drop 20 h) = h"
proof -
  have keep: "filter (\<lambda>c. c \<noteq> CHR ''-'') t = t" if "set t \<subseteq> set h" for t
    using that assms by (auto simp: filter_id_conv)
  have "set (take n (drop m h)) \<subseteq> set h" "set (take n h) \<subseteq> set h" "set (drop m h) \<subseteq> set h" for n m
    by (auto dest: in_set_takeD in_set_dropD)
  then have "filter (\<lambda>c. c \<noteq> CHR ''-'')
     (take 8 h @ ''-'' @ take 4 (drop 8 h) @ ''-'' @ take 4 (drop 12 h) @ ''-''
       @ take 4 (drop 16 h) @ ''-'' @ drop 20 h)
     = take 8 h @ take 4 (drop 8 h) @ take 4 (drop 12 h) @ take 4 (drop 16 h) @ drop 20 h"
    by (simp add: keep)
  also have "\<dots> = h"
    using take_drop_join [of 4 8 h] take_drop_join [of 4 12 h] take_drop_join [of 4 16 h]
    by simp
  finally show ?thesis .
qed

lemma uuid_of_text_str [simp]: "uuid_of_text (uuid_str u) = Some u"
proof -
  let ?h = "hex_digits 32 (unat u)"
  have code: "c \<notin> {CHR ''-'', CHR '':'', CHR ''{'', CHR ''}''}" if "c \<in> set ?h" for c
    using hex_code_not [OF hex_digits_code [OF that]] by blast
  then have code': "c \<notin> {CHR '':'', CHR ''{'', CHR ''}''}" if "c \<in> set (uuid_str u)" for c
    using uuid_str_set [OF that] by auto
  have "py_delete ''urn:'' (uuid_str u) = uuid_str u" "py_delete ''uuid:'' (uuid_str u) = uuid_str u"
    using code' by (auto intro!: py_delete_id [of "CHR '':''"])
  moreover have "strip_chars ''{}'' (uuid_str u) = uuid_str u"
    using code' by (intro strip_chars_id) auto
  moreover have "filter (\<lambda>c. c \<noteq> CHR ''-'') (uuid_str u) = ?h"
    unfolding uuid_str_def Let_def by (rule hyphens_away) (use code in blast)
  moreover have "py_int_of_text 16 ?h = Some (int (unat u))"
  proof -
    have "Suc 31 = 32" by simp
    moreover have "unat u < 16 ^ 32" using unsigned_less [of u] by simp
    ultimately show ?thesis using py_int_hex_digits [of 31 "unat u"] by (metis mod_less)
  qed
  moreover have "int (unat u) < 2 ^ 128" using unsigned_less [of u] by (simp add: nat_less_iff flip: of_nat_less_iff)
  ultimately show ?thesis by (simp add: uuid_of_text_def del: hex_digits.simps)
qed

lemma uuid_str_inj [simp]: "uuid_str u = uuid_str v \<longleftrightarrow> u = v"
  by (metis option.inject uuid_of_text_str)

lemma uuid_text_some: "uuid_str u \<noteq> []"
  by (simp add: uuid_str_def Let_def)

lemma uuid_text_code: "c \<in> set (uuid_str u) \<Longrightarrow> \<not> py_space c"
  using uuid_str_set [of c u] hex_digits_code [of c 32 "unat u"] by (auto simp: py_space_def)

lemma uuid_text_strip: "py_strip (uuid_str u) = uuid_str u"
  using uuid_text_code [OF hd_in_set [OF uuid_text_some]] uuid_text_code [OF last_in_set [OF uuid_text_some]]
  by (intro py_strip_id) blast+

text \<open>
  An identifier as it reaches a service: missing, a UUID, or a text still to be parsed.
\<close>

datatype idval = IdNone | IdUuid uuid | IdText string

fun id_of_pyval :: "pyval \<Rightarrow> idval" where
  "id_of_pyval PNone = IdNone"
| "id_of_pyval v = IdText (py_str v)"

fun id_str :: "idval \<Rightarrow> string" where
  "id_str IdNone = ''None''"
| "id_str (IdUuid u) = uuid_str u"
| "id_str (IdText s) = s"

definition id_opt :: "uuid option \<Rightarrow> idval" where
  "id_opt x = (case x of None \<Rightarrow> IdNone | Some u \<Rightarrow> IdUuid u)"

fun parse_id :: "idval \<Rightarrow> uuid option" where
  "parse_id IdNone = None"
| "parse_id (IdUuid u) = Some u"
| "parse_id (IdText s) = uuid_of_text s"

lemma id_opt_simps [simp]: "id_opt None = IdNone" "id_opt (Some u) = IdUuid u"
  by (simp_all add: id_opt_def)

section \<open>JSON\<close>

text \<open>
  \<open>json.dumps(v, ensure_ascii=False, sort_keys=True, separators=(",", ":"))\<close>, the canonical form
  that the services hash.
\<close>

definition json_escape :: "char \<Rightarrow> string" where
  "json_escape c = (let n = code_point c in
     if n = 34 \<or> n = 92 then [CHR 0x5C, c]
     else if n = 8 then [CHR 0x5C, CHR ''b'']
     else if n = 9 then [CHR 0x5C, CHR ''t'']
     else if n = 10 then [CHR 0x5C, CHR ''n'']
     else if n = 12 then [CHR 0x5C, CHR ''f'']
     else if n = 13 then [CHR 0x5C, CHR ''r'']
     else if n < 32 then [CHR 0x5C] @ ''u00'' @ [hex_digit (n div 16), hex_digit (n mod 16)]
     else [c])"

definition json_string :: "string \<Rightarrow> string" where
  "json_string s = [CHR 0x22] @ concat (map json_escape s) @ [CHR 0x22]"

definition json_float :: "string \<Rightarrow> string" where
  "json_float f = (if f = ''nan'' then ''NaN'' else if f = ''inf'' then ''Infinity''
     else if f = ''-inf'' then ''-Infinity'' else f)"

fun canonical_json :: "pyval \<Rightarrow> string" where
  "canonical_json PNone = ''null''"
| "canonical_json (PBool b) = (if b then ''true'' else ''false'')"
| "canonical_json (PInt i) = str_of_int i"
| "canonical_json (PFloat f) = json_float f"
| "canonical_json (PStr s) = json_string s"
| "canonical_json (PList vs) = ''['' @ py_join '','' (map canonical_json vs) @ '']''"
| "canonical_json (PDict d) =
     ''{'' @ py_join '','' (map (\<lambda>kt. json_string (fst kt) @ '':'' @ snd kt)
        (sort_key fst (map (\<lambda>kv. (fst kv, canonical_json (snd kv))) d))) @ ''}''"

text \<open>The order in which a dict was built does not change its canonical form.\<close>

lemma sort_key_distinct_eq:
  fixes xs ys :: "(string \<times> 'a) list"
  assumes "set xs = set ys" and "distinct (map fst xs)" and "distinct (map fst ys)"
  shows "sort_key fst xs = sort_key fst ys"
proof (rule map_sorted_distinct_set_unique [of fst])
  have "inj_on fst (set xs)" using assms(2) by (simp add: distinct_map)
  then show "inj_on fst (set (sort_key fst xs) \<union> set (sort_key fst ys))"
    using assms(1) by simp
qed (use assms in \<open>simp_all add: distinct_map\<close>)

lemma canonical_json_key_order:
  assumes "set d = set e" and "distinct (map fst d)" and "distinct (map fst e)"
  shows "canonical_json (PDict d) = canonical_json (PDict e)"
proof -
  let ?t = "\<lambda>kv. (fst kv, canonical_json (snd kv))"
  have fst_t: "map fst (map ?t xs) = map fst xs" for xs by simp
  have "sort_key fst (map ?t d) = sort_key fst (map ?t e)"
    by (rule sort_key_distinct_eq) (use assms fst_t in \<open>simp_all add: comp_def\<close>)
  then show ?thesis by simp
qed

section \<open>Datetimes\<close>

text \<open>\<open>datetime.isoformat()\<close> of an aware UTC datetime, with the civil date of its day number.\<close>

definition pad_left :: "nat \<Rightarrow> int \<Rightarrow> string" where
  "pad_left k i = (let s = str_of_int i in replicate (k - length s) (CHR ''0'') @ s)"

definition civil_date :: "int \<Rightarrow> int \<times> int \<times> int" where
  "civil_date day = (let
     z = day + 719468;
     era = z div 146097;
     doe = z mod 146097;
     yoe = (doe - doe div 1460 + doe div 36524 - doe div 146096) div 365;
     doy = doe - (365 * yoe + yoe div 4 - yoe div 100);
     mp = (5 * doy + 2) div 153;
     d = doy - (153 * mp + 2) div 5 + 1;
     m = (if mp < 10 then mp + 3 else mp - 9);
     y = yoe + era * 400 + (if m \<le> 2 then 1 else 0)
   in (y, m, d))"

definition isoformat :: "int \<Rightarrow> string" where
  "isoformat t = (let
     (y, m, d) = civil_date (t div 86400000000);
     us = t mod 86400000000;
     secs = us div 1000000;
     frac = us mod 1000000
   in pad_left 4 y @ ''-'' @ pad_left 2 m @ ''-'' @ pad_left 2 d @ ''T''
      @ pad_left 2 (secs div 3600) @ '':'' @ pad_left 2 (secs div 60 mod 60) @ '':''
      @ pad_left 2 (secs mod 60)
      @ (if frac = 0 then [] else ''.'' @ pad_left 6 frac) @ ''+00:00'')"

end
