(* ===== verification/Agent_Lifecycle.thy ===== *)
theory Agent_Lifecycle
  imports Py_Value "HOL-Library.Char_ord" "HOL-Library.List_Lexorder"
begin

text \<open>
  The agent lifecycle of \<open>backend/app/domain/agent_lifecycle.py\<close>: the status enumeration, the
  adjacency table, the four guards in their order, and the public operations
  \<open>transition\<close>, \<open>can_transition\<close> and \<open>available_transitions\<close>. The specification is the
  step relation \<open>agent_step\<close>, one rule per authority a step needs; \<open>transition\<close> is shown to
  decide exactly that relation.
\<close>

section \<open>The model\<close>

datatype agent_status =
  DRAFT | CREATING | IDLE | RUNNING | PAUSED | STOPPED | ERROR | EXPIRED | ARCHIVED

fun status_value :: "agent_status \<Rightarrow> string" where
  "status_value DRAFT = ''draft''"
| "status_value CREATING = ''creating''"
| "status_value IDLE = ''idle''"
| "status_value RUNNING = ''running''"
| "status_value PAUSED = ''paused''"
| "status_value STOPPED = ''stopped''"
| "status_value ERROR = ''error''"
| "status_value EXPIRED = ''expired''"
| "status_value ARCHIVED = ''archived''"

definition all_statuses :: "agent_status list" where
  "all_statuses = [DRAFT, CREATING, IDLE, RUNNING, PAUSED, STOPPED, ERROR, EXPIRED, ARCHIVED]"

record transition_context =
  is_creator :: bool
  is_admin :: bool
  is_system :: bool
  force :: bool

text \<open>
  The reason of an \<open>InvalidTransitionError\<close>: the sorted allowed targets, or a guard's text.
\<close>

datatype refusal = AllowedTargets "string list" | Reason string

record invalid_transition =
  err_current :: string
  err_target :: string
  err_reason :: refusal

fun VALID_TRANSITIONS :: "agent_status \<Rightarrow> agent_status list" where
  "VALID_TRANSITIONS DRAFT = [CREATING]"
| "VALID_TRANSITIONS CREATING = [IDLE, ERROR]"
| "VALID_TRANSITIONS IDLE = [RUNNING, PAUSED, STOPPED, EXPIRED]"
| "VALID_TRANSITIONS RUNNING = [IDLE, ERROR, STOPPED, EXPIRED]"
| "VALID_TRANSITIONS PAUSED = [IDLE, STOPPED, EXPIRED]"
| "VALID_TRANSITIONS STOPPED = [IDLE, ARCHIVED]"
| "VALID_TRANSITIONS ERROR = [IDLE, STOPPED]"
| "VALID_TRANSITIONS EXPIRED = [IDLE, ARCHIVED]"
| "VALID_TRANSITIONS ARCHIVED = []"

text \<open>\<open>VALID_TRANSITIONS.get(current, set())\<close> on the string keys of the dict.\<close>

definition allowed_targets :: "string \<Rightarrow> string list" where
  "allowed_targets current =
     (case find (\<lambda>s. status_value s = current) all_statuses of
        None \<Rightarrow> []
      | Some s \<Rightarrow> map status_value (VALID_TRANSITIONS s))"

definition guard_requires_privilege :: "string \<Rightarrow> string \<Rightarrow> transition_context \<Rightarrow> string option" where
  "guard_requires_privilege current target ctx =
     (if target \<in> {status_value PAUSED, status_value STOPPED, status_value ARCHIVED}
         \<and> \<not> (is_creator ctx \<or> is_admin ctx)
      then Some ''requires creator or admin'' else None)"

definition guard_force_stop_running :: "string \<Rightarrow> string \<Rightarrow> transition_context \<Rightarrow> string option" where
  "guard_force_stop_running current target ctx =
     (if current = status_value RUNNING \<and> target = status_value STOPPED \<and> \<not> force ctx
      then Some ''force=True required to stop a running agent'' else None)"

definition guard_resume_from_expired :: "string \<Rightarrow> string \<Rightarrow> transition_context \<Rightarrow> string option" where
  "guard_resume_from_expired current target ctx =
     (if current = status_value EXPIRED \<and> target = status_value IDLE \<and> \<not> is_admin ctx
      then Some ''only admin can resume expired agents'' else None)"

definition system_transitions :: "(agent_status \<times> agent_status) list" where
  "system_transitions =
     [(IDLE, RUNNING), (RUNNING, IDLE), (IDLE, EXPIRED), (RUNNING, EXPIRED),
      (RUNNING, ERROR), (CREATING, IDLE), (CREATING, ERROR), (DRAFT, CREATING)]"

definition guard_system_transitions :: "string \<Rightarrow> string \<Rightarrow> transition_context \<Rightarrow> string option" where
  "guard_system_transitions current target ctx =
     (if (current, target) \<in> (\<lambda>(s, t). (status_value s, status_value t)) ` set system_transitions
         \<and> \<not> (is_system ctx \<or> is_creator ctx \<or> is_admin ctx)
      then Some ''requires system, creator, or admin context'' else None)"

definition GUARDS :: "(string \<Rightarrow> string \<Rightarrow> transition_context \<Rightarrow> string option) list" where
  "GUARDS = [guard_requires_privilege, guard_force_stop_running,
             guard_resume_from_expired, guard_system_transitions]"

text \<open>The loop over \<open>_GUARDS\<close>: the first reason stops the transition.\<close>

fun first_reason ::
  "(string \<Rightarrow> string \<Rightarrow> transition_context \<Rightarrow> string option) list \<Rightarrow>
   string \<Rightarrow> string \<Rightarrow> transition_context \<Rightarrow> string option" where
  "first_reason [] current target ctx = None"
| "first_reason (g # gs) current target ctx =
     (case g current target ctx of
        Some reason \<Rightarrow> Some reason
      | None \<Rightarrow> first_reason gs current target ctx)"

definition default_context :: transition_context where
  "default_context = \<lparr>is_creator = False, is_admin = False, is_system = True, force = False\<rparr>"

definition transition ::
  "string \<Rightarrow> string \<Rightarrow> transition_context option \<Rightarrow> (invalid_transition, string) res" where
  "transition current target ctx_opt =
     (let ctx = (case ctx_opt of None \<Rightarrow> default_context | Some c \<Rightarrow> c);
          current = py_lower current;
          target = py_lower target;
          allowed = allowed_targets current in
      if target \<notin> set allowed
      then Inl \<lparr>err_current = current, err_target = target, err_reason = AllowedTargets (sort allowed)\<rparr>
      else (case first_reason GUARDS current target ctx of
              Some reason \<Rightarrow>
                Inl \<lparr>err_current = current, err_target = target, err_reason = Reason reason\<rparr>
            | None \<Rightarrow> Inr target))"

definition can_transition :: "string \<Rightarrow> string \<Rightarrow> transition_context option \<Rightarrow> bool" where
  "can_transition current target ctx =
     (case transition current target ctx of Inr _ \<Rightarrow> True | Inl _ \<Rightarrow> False)"

text \<open>The code iterates over a set here, so the order of its result is unspecified.\<close>

definition available_transitions :: "string \<Rightarrow> transition_context option \<Rightarrow> string list" where
  "available_transitions current ctx =
     filter (\<lambda>t. can_transition (py_lower current) t ctx) (allowed_targets (py_lower current))"

section \<open>The specification: who may take which step\<close>

definition privileged :: "transition_context \<Rightarrow> bool" where
  "privileged ctx \<longleftrightarrow> is_creator ctx \<or> is_admin ctx"

definition known_actor :: "transition_context \<Rightarrow> bool" where
  "known_actor ctx \<longleftrightarrow> is_system ctx \<or> privileged ctx"

inductive agent_step :: "transition_context \<Rightarrow> agent_status \<Rightarrow> agent_status \<Rightarrow> bool"
  for ctx :: transition_context where
  provision: "known_actor ctx \<Longrightarrow> agent_step ctx DRAFT CREATING"
| provisioned: "known_actor ctx \<Longrightarrow> t \<in> {IDLE, ERROR} \<Longrightarrow> agent_step ctx CREATING t"
| work: "known_actor ctx \<Longrightarrow> agent_step ctx IDLE RUNNING"
| work_done: "known_actor ctx \<Longrightarrow> t \<in> {IDLE, ERROR} \<Longrightarrow> agent_step ctx RUNNING t"
| ttl_over: "known_actor ctx \<Longrightarrow> s \<in> {IDLE, RUNNING} \<Longrightarrow> agent_step ctx s EXPIRED"
| ttl_over_paused: "agent_step ctx PAUSED EXPIRED"
| pause: "privileged ctx \<Longrightarrow> agent_step ctx IDLE PAUSED"
| stop: "privileged ctx \<Longrightarrow> s \<in> {IDLE, PAUSED, ERROR} \<Longrightarrow> agent_step ctx s STOPPED"
| force_stop: "privileged ctx \<Longrightarrow> force ctx \<Longrightarrow> agent_step ctx RUNNING STOPPED"
| resume: "s \<in> {PAUSED, STOPPED, ERROR} \<Longrightarrow> agent_step ctx s IDLE"
| revive: "is_admin ctx \<Longrightarrow> agent_step ctx EXPIRED IDLE"
| archive: "privileged ctx \<Longrightarrow> s \<in> {STOPPED, EXPIRED} \<Longrightarrow> agent_step ctx s ARCHIVED"

inductive_simps agent_step_to_simps [machine_simps]:
  "agent_step ctx s CREATING" "agent_step ctx s IDLE" "agent_step ctx s RUNNING"
  "agent_step ctx s PAUSED" "agent_step ctx s STOPPED" "agent_step ctx s ERROR"
  "agent_step ctx s EXPIRED" "agent_step ctx s ARCHIVED" "agent_step ctx s DRAFT"

inductive_cases agent_step_from_archived: "agent_step ctx ARCHIVED t"

code_pred agent_step .

section \<open>Correctness\<close>

lemma archived_value [simp]:
  "status_value s = ''archived'' \<longleftrightarrow> s = ARCHIVED" "''archived'' = status_value s \<longleftrightarrow> s = ARCHIVED"
  by (cases s; simp)+

lemma set_all_statuses: "s \<in> set all_statuses"
  by (cases s) (simp_all add: all_statuses_def)

lemma status_value_inj [simp]: "status_value s = status_value t \<longleftrightarrow> s = t"
  by (cases s; cases t) simp_all

lemma find_status [simp]: "find (\<lambda>s. s = t) all_statuses = Some t"
  by (cases t) (simp_all add: all_statuses_def)

lemma find_status_Some: "find (\<lambda>s. status_value s = v) all_statuses = Some s \<Longrightarrow> v = status_value s"
  by (auto simp: find_Some_iff)

lemma status_value_lower [simp]: "py_lower (status_value s) = status_value s"
  by (cases s) (simp_all add: py_lower_def py_lower_char_def)

lemma allowed_targets_value [simp]:
  "allowed_targets (status_value s) = map status_value (VALID_TRANSITIONS s)"
  by (simp add: allowed_targets_def)

lemma allowed_targets_iff:
  "v \<in> set (allowed_targets c) \<longleftrightarrow>
     (\<exists>s t. c = status_value s \<and> v = status_value t \<and> t \<in> set (VALID_TRANSITIONS s))"
proof (cases "find (\<lambda>s. status_value s = c) all_statuses")
  case None
  then have "c \<noteq> status_value s" for s
    using set_all_statuses [of s] by (auto simp: find_None_iff)
  with None show ?thesis by (auto simp: allowed_targets_def)
next
  case (Some s)
  then have "c = status_value s" by (rule find_status_Some)
  then show ?thesis by auto
qed

lemma first_reason_None:
  "first_reason gs c t ctx = None \<longleftrightarrow> (\<forall>g \<in> set gs. g c t ctx = None)"
  by (induction gs) (auto split: option.splits)

lemma system_pair [simp]:
  "(status_value s, status_value t) \<in> (\<lambda>(s, t). (status_value s, status_value t)) ` set xs
     \<longleftrightarrow> (s, t) \<in> set xs"
  by auto

lemma guards_None:
  "first_reason GUARDS (status_value s) (status_value t) ctx = None \<longleftrightarrow>
     (t \<in> {PAUSED, STOPPED, ARCHIVED} \<longrightarrow> privileged ctx)
   \<and> (s = RUNNING \<and> t = STOPPED \<longrightarrow> force ctx)
   \<and> (s = EXPIRED \<and> t = IDLE \<longrightarrow> is_admin ctx)
   \<and> ((s, t) \<in> set system_transitions \<longrightarrow> known_actor ctx)"
  by (auto simp: first_reason_None GUARDS_def guard_requires_privilege_def
      guard_force_stop_running_def guard_resume_from_expired_def guard_system_transitions_def
      privileged_def known_actor_def simp del: status_value.simps)

text \<open>The table with its guards is exactly the step relation.\<close>

lemma agent_step_iff:
  "agent_step ctx s t \<longleftrightarrow>
     t \<in> set (VALID_TRANSITIONS s) \<and>
     first_reason GUARDS (status_value s) (status_value t) ctx = None"
  unfolding guards_None
  by (cases s; cases t) (simp_all add: machine_simps system_transitions_def)

lemma transition_Inr:
  "transition c t (Some ctx) = Inr r \<longleftrightarrow>
     (\<exists>s u. py_lower c = status_value s \<and> py_lower t = status_value u
        \<and> r = status_value u \<and> agent_step ctx s u)"
  unfolding agent_step_iff
  by (auto simp: transition_def Let_def allowed_targets_iff split: option.splits)

interpretation agent: status_table "agent_step ctx" "\<lambda>s. s = ARCHIVED" for ctx
  by unfold_locales (auto elim: agent_step_from_archived)

section \<open>Properties\<close>

lemma agent_step_target_privileged:
  "agent_step ctx s t \<Longrightarrow> \<not> privileged ctx \<Longrightarrow> t \<notin> {PAUSED, STOPPED, ARCHIVED}"
  by (auto simp: machine_simps)

lemma transition_run_steps:
  "fold_res (\<lambda>c t. transition c t (Some ctx)) (status_value s) ts = Inr r \<Longrightarrow>
     \<exists>u. r = status_value u \<and> (agent_step ctx)\<^sup>*\<^sup>* s u"
proof (induction ts arbitrary: s)
  case Nil
  then show ?case by auto
next
  case (Cons t ts)
  then obtain u where "agent_step ctx s u"
    and "fold_res (\<lambda>c t. transition c t (Some ctx)) (status_value u) ts = Inr r"
    by (auto simp: transition_Inr)
  with Cons.IH show ?case by (blast intro: converse_rtranclp_into_rtranclp)
qed

lemma unprivileged_reach:
  assumes "(agent_step ctx)\<^sup>*\<^sup>* s u" and "\<not> privileged ctx" and "u \<in> {PAUSED, STOPPED, ARCHIVED}"
  shows "u = s"
  using assms agent_step_target_privileged by (auto elim: rtranclp.cases)

text \<open>
  Claim C40. \<open>transition\<close> accepts a pair of status names, in any letter case, exactly when the
  step relation allows that step to the caller: the table and the four guards together
  implement one authority rule per kind of step, and the accepted result is the lower-case
  target.
\<close>

theorem transition_decides_agent_step:
  "transition current target (Some ctx) = Inr r \<longleftrightarrow>
     (\<exists>s t. py_lower current = status_value s \<and> py_lower target = status_value t
        \<and> r = status_value t \<and> agent_step ctx s t)"
  by (rule transition_Inr)

text \<open>
  No sequence of \<open>transition\<close> calls by an actor that is neither creator nor admin
  brings an agent into a halted status (paused, stopped, archived) it was not in already.
\<close>

theorem unprivileged_runs_never_halt:
  assumes "fold_res (\<lambda>c t. transition c t (Some ctx)) (status_value s) ts = Inr r"
    and "\<not> privileged ctx" and "r \<noteq> status_value s"
  shows "r \<notin> {status_value PAUSED, status_value STOPPED, status_value ARCHIVED}"
  using transition_run_steps [OF assms(1)] unprivileged_reach [OF _ assms(2)] assms(3)
  by (auto simp del: status_value.simps)

theorem unprivileged_runs_never_halt_witness:
  "fold_res (\<lambda>c t. transition c t (Some default_context)) (status_value CREATING)
     [''idle'', ''Running'', ''ERROR''] = Inr ''error''
   \<and> ''error'' \<notin> {status_value PAUSED, status_value STOPPED, status_value ARCHIVED}"
proof -
  have run: "fold_res (\<lambda>c t. transition c t (Some default_context)) (status_value CREATING)
     [''idle'', ''Running'', ''ERROR''] = Inr ''error''" by code_simp
  have "\<not> privileged default_context" by (simp add: privileged_def default_context_def)
  moreover have "''error'' \<noteq> status_value CREATING" by simp
  ultimately show ?thesis using run unprivileged_runs_never_halt by blast
qed

text \<open>
  Every status other than archived can be brought to archived by a sequence of
  accepted \<open>transition\<close> calls of an admin who forces, and archived itself accepts no further
  transition from anybody.
\<close>

theorem admin_can_archive_and_archived_is_final:
  assumes "is_admin ctx" and "force ctx"
  shows "(\<exists>ts. fold_res (\<lambda>c t. transition c t (Some ctx)) (status_value s) ts = Inr ''archived'')
    \<and> (\<forall>ctx' t. \<not> can_transition ''archived'' t (Some ctx'))"
proof
  let ?run = "\<lambda>s ts. fold_res (\<lambda>c t. transition c t (Some ctx)) (status_value s) ts"
  have p: "privileged ctx" "known_actor ctx" using assms by (auto simp: privileged_def known_actor_def)
  have one: "transition (status_value s) (status_value t) (Some ctx) = Inr (status_value t)"
    if "agent_step ctx s t" for s t
    using that by (auto simp: transition_Inr simp del: status_value.simps)
  have "\<exists>ts. ?run s ts = Inr (status_value ARCHIVED)"
  proof (cases s)
    case DRAFT
    have "?run s (map status_value [CREATING, IDLE, STOPPED, ARCHIVED]) = Inr (status_value ARCHIVED)"
      using p assms DRAFT by (simp add: one machine_simps del: status_value.simps)
    then show ?thesis ..
  next
    case CREATING
    have "?run s (map status_value [IDLE, STOPPED, ARCHIVED]) = Inr (status_value ARCHIVED)"
      using p assms CREATING by (simp add: one machine_simps del: status_value.simps)
    then show ?thesis ..
  next
    case ARCHIVED
    then have "?run s [] = Inr (status_value ARCHIVED)" by simp
    then show ?thesis ..
  next
    case STOPPED
    have "?run s (map status_value [ARCHIVED]) = Inr (status_value ARCHIVED)"
      using p assms STOPPED by (simp add: one machine_simps del: status_value.simps)
    then show ?thesis ..
  next
    case EXPIRED
    have "?run s (map status_value [ARCHIVED]) = Inr (status_value ARCHIVED)"
      using p assms EXPIRED by (simp add: one machine_simps del: status_value.simps)
    then show ?thesis ..
  qed (rule exI [of _ "map status_value [STOPPED, ARCHIVED]"],
       use p assms in \<open>simp add: one machine_simps del: status_value.simps\<close>)+
  then show "\<exists>ts. ?run s ts = Inr ''archived''" by simp
  have "transition ''archived'' t (Some ctx') \<noteq> Inr r" for ctx' t r
    using agent.final_stuck [of ARCHIVED] status_value_lower [of ARCHIVED]
    by (auto simp: transition_Inr)
  then show "\<forall>ctx' t. \<not> can_transition ''archived'' t (Some ctx')"
    by (auto simp: can_transition_def split: sum.splits)
qed

theorem admin_can_archive_and_archived_is_final_witness:
  "\<exists>ts. fold_res (\<lambda>c t. transition c t
       (Some \<lparr>is_creator = False, is_admin = True, is_system = False, force = True\<rparr>))
     (status_value RUNNING) ts = Inr ''archived''"
  using admin_can_archive_and_archived_is_final
    [of "\<lparr>is_creator = False, is_admin = True, is_system = False, force = True\<rparr>" RUNNING]
  by simp

end
