(* ===== verification/Plan_Mode.thy ===== *)
theory Plan_Mode
  imports Py_Std
begin

text \<open>
  The functional core of Plan Mode, \<open>backend/app/services/plan_mode_core.py\<close>: the intents and
  gate actions, the plan status machine, the checks of a confirmation and of a handoff, the
  exemptions of the backstop layer, and the response envelopes. Plan and user ids appear here
  as the texts \<open>str(id)\<close> the code compares and renders.
\<close>

section \<open>Vocabulary\<close>

definition INTENT_TYPES :: "string list" where
  "INTENT_TYPES = [''autonomous_wake'', ''in_session_execution'', ''delegation'']"

definition ACTION_KINDS :: "string list" where
  "ACTION_KINDS = [''create_enabled_trigger'', ''enable_autonomous_wake'', ''start_long_task'',
     ''start_delegation'', ''start_workflow'']"

definition ACTION_INTENT :: "(string \<times> string) list" where
  "ACTION_INTENT =
     [(''create_enabled_trigger'', ''autonomous_wake''),
      (''enable_autonomous_wake'', ''autonomous_wake''),
      (''start_long_task'', ''in_session_execution''),
      (''start_delegation'', ''delegation''),
      (''start_workflow'', ''in_session_execution'')]"

text \<open>\<open>repr\<close> of a tuple of strings, and the message of the \<open>ValueError\<close>.\<close>

definition repr_tuple :: "string list \<Rightarrow> string" where
  "repr_tuple xs = ''('' @ py_join '', '' (map repr_str xs)
     @ (if length xs = 1 then '','' else []) @ '')''"

definition intent_type_for_action :: "string \<Rightarrow> (string, string) res" where
  "intent_type_for_action action_kind =
     (case map_of ACTION_INTENT action_kind of
        Some i \<Rightarrow> Inr i
      | None \<Rightarrow> Inl (''unknown action_kind '' @ repr_str action_kind @ ''; expected one of ''
                       @ repr_tuple ACTION_KINDS))"

definition PLAN_EXEMPT_CONFIRMED_HR_BLUEPRINT :: string where
  "PLAN_EXEMPT_CONFIRMED_HR_BLUEPRINT = ''confirmed_hr_blueprint''"

definition PLAN_EXEMPT_USER_DECLINED :: string where
  "PLAN_EXEMPT_USER_DECLINED = ''user_declined_plan_mode''"

definition PLAN_MODE_DECLINE_VALUES :: "string list" where
  "PLAN_MODE_DECLINE_VALUES = [''declined'', ''skip'', ''skipped'', ''not_needed'', ''no_plan'']"

text \<open>\<open>str(x or "")\<close> of an optional string.\<close>

definition opt_text :: "string option \<Rightarrow> string" where
  "opt_text x = (case x of None \<Rightarrow> [] | Some s \<Rightarrow> s)"

definition plan_mode_user_declined :: "string option \<Rightarrow> bool" where
  "plan_mode_user_declined decision \<longleftrightarrow>
     py_lower (py_strip (opt_text decision)) \<in> set PLAN_MODE_DECLINE_VALUES"

text \<open>
  \<open>dict(v or {})\<close>: every falsy value counts as empty, a dict is copied, a list must hold pairs
  (lists or strings of length two, dicts of two keys) with string keys; anything else raises.
\<close>

fun pair_of :: "pyval \<Rightarrow> (string \<times> pyval) option" where
  "pair_of (PList [PStr k, v]) = Some (k, v)"
| "pair_of (PStr [a, b]) = Some ([a], PStr [b])"
| "pair_of (PDict [(a, _), (b, _)]) = Some (a, PStr b)"
| "pair_of _ = None"

fun put_pairs :: "(string \<times> pyval) list \<Rightarrow> pyval list \<Rightarrow> (string, (string \<times> pyval) list) res" where
  "put_pairs d [] = Inr d"
| "put_pairs d (v # vs) =
     (case pair_of v of None \<Rightarrow> Inl ''not a pair'' | Some (k, w) \<Rightarrow> put_pairs (AList.update k w d) vs)"

definition dict_of :: "pyval \<Rightarrow> (string, (string \<times> pyval) list) res" where
  "dict_of v =
     (if \<not> truthy v then Inr []
      else (case v of
              PDict d \<Rightarrow> Inr d
            | PList vs \<Rightarrow> put_pairs [] vs
            | _ \<Rightarrow> Inl ''not a mapping''))"

definition stamp_user_declined_plan_exemption ::
  "(string \<times> pyval) list option \<Rightarrow> (string, (string \<times> pyval) list) res" where
  "stamp_user_declined_plan_exemption config =
     (let stamped = (case config of None \<Rightarrow> [] | Some d \<Rightarrow> d) in
      bind_res (dict_of (dget stamped ''metadata'')) (\<lambda>metadata.
        Inr (AList.update ''metadata''
          (PDict (AList.update ''plan_exempt_reason'' (PStr PLAN_EXEMPT_USER_DECLINED) metadata))
          stamped)))"

section \<open>The status machine\<close>

definition PLAN_STATUSES :: "string list" where
  "PLAN_STATUSES = [''draft'', ''planning'', ''planning_failed'', ''awaiting_confirmation'',
     ''confirmed'', ''rejected'', ''superseded'', ''expired'']"

definition TERMINAL_STATUSES :: "string list" where
  "TERMINAL_STATUSES = [''confirmed'', ''rejected'', ''superseded'', ''expired'']"

definition PLAN_TRANSITIONS :: "(string \<times> string list) list" where
  "PLAN_TRANSITIONS =
     [(''draft'', [''planning'']),
      (''planning'', [''awaiting_confirmation'', ''planning_failed'']),
      (''planning_failed'', [''planning'', ''rejected'']),
      (''awaiting_confirmation'',
         [''confirmed'', ''planning'', ''rejected'', ''expired'', ''superseded'']),
      (''confirmed'', []), (''rejected'', []), (''superseded'', []), (''expired'', [])]"

definition plan_can_transition :: "string \<Rightarrow> string \<Rightarrow> bool" where
  "plan_can_transition src dst \<longleftrightarrow>
     dst \<in> set (case map_of PLAN_TRANSITIONS src of None \<Rightarrow> [] | Some ts \<Rightarrow> ts)"

section \<open>Confirmation and handoff checks\<close>

record plan_check =
  check_ok :: bool
  error_code :: "string option"
  check_message :: "string option"

definition check_passed :: plan_check where
  "check_passed = \<lparr>check_ok = True, error_code = None, check_message = None\<rparr>"

definition check_failed :: "string \<Rightarrow> string \<Rightarrow> plan_check" where
  "check_failed code msg = \<lparr>check_ok = False, error_code = Some code, check_message = Some msg\<rparr>"

definition OVERRIDE_SOURCES :: "string list" where
  "OVERRIDE_SOURCES = [''session_owner'', ''delegated_approver'', ''manager_override'']"

definition validate_confirmation ::
  "string \<Rightarrow> int \<Rightarrow> string \<Rightarrow> string option \<Rightarrow> int \<Rightarrow> string option \<Rightarrow> string option \<Rightarrow>
   string option \<Rightarrow> plan_check" where
  "validate_confirmation status stored_version stored_hash requested_by_user_id
       submitted_version confirming_user_id submitted_hash authorization_source =
     (if status \<noteq> ''awaiting_confirmation''
      then check_failed ''not_confirmable''
             (''plan in status '' @ repr_str status @ '' cannot be confirmed'')
      else case confirming_user_id of
        None \<Rightarrow> check_failed ''missing_confirming_user''
                  ''confirmation requires an authenticated user action''
      | Some confirmer \<Rightarrow>
          if (case requested_by_user_id of None \<Rightarrow> False | Some r \<Rightarrow> r \<noteq> confirmer)
             \<and> authorization_source \<notin> Some ` set OVERRIDE_SOURCES
          then check_failed ''unauthorized_confirmer''
                 ''confirmation actor is not authorized for this plan''
          else if submitted_version \<noteq> stored_version
          then check_failed ''version_mismatch''
                 (''submitted plan_version '' @ str_of_int submitted_version
                  @ '' does not match current version '' @ str_of_int stored_version)
          else check_passed)"

definition validate_plan_handoff ::
  "string \<Rightarrow> int \<Rightarrow> string \<Rightarrow> int option \<Rightarrow> string option \<Rightarrow> plan_check" where
  "validate_plan_handoff status stored_version stored_hash submitted_version submitted_hash =
     (if status \<noteq> ''confirmed''
      then check_failed ''plan_not_confirmed''
             (''referenced plan is in status '' @ repr_str status @ '', not '' @ repr_str ''confirmed'')
      else case submitted_version of
        None \<Rightarrow> check_failed ''missing_plan_version'' ''confirmed plan handoff requires plan_version''
      | Some v \<Rightarrow>
          if v \<noteq> stored_version
          then check_failed ''version_mismatch''
                 (''submitted plan_version '' @ str_of_int v
                  @ '' does not match confirmed version '' @ str_of_int stored_version)
          else check_passed)"

section \<open>Exemptions of the backstop layer\<close>

fun nested :: "pyval \<Rightarrow> string list \<Rightarrow> pyval" where
  "nested v [] = v"
| "nested v (k # ks) =
     (case as_dict v of None \<Rightarrow> PNone | Some d \<Rightarrow> nested (dget d k) ks)"

text \<open>A candidate counts when it is a string with something besides white space in it.\<close>

fun nonblank :: "pyval \<Rightarrow> string option" where
  "nonblank (PStr s) = (if py_strip s = [] then None else Some (py_strip s))"
| "nonblank _ = None"

fun first_some :: "'a option list \<Rightarrow> 'a option" where
  "first_some [] = None"
| "first_some (Some x # _) = Some x"
| "first_some (None # xs) = first_some xs"

definition extract_plan_exempt_reason :: "pyval \<Rightarrow> string option" where
  "extract_plan_exempt_reason artifact =
     (case as_dict artifact of
        None \<Rightarrow> None
      | Some _ \<Rightarrow> first_some
          [nonblank (nested artifact [''metadata'', ''plan_exempt_reason'']),
           nonblank (nested artifact [''metadata_json'', ''plan_exempt_reason'']),
           nonblank (nested artifact [''config'', ''metadata'', ''plan_exempt_reason''])])"

definition PLATFORM_INTERNAL_AUTONOMY_CLASSES :: "string list" where
  "PLATFORM_INTERNAL_AUTONOMY_CLASSES = [''internal_self_improvement'']"

definition PLAN_EXEMPT_AUTONOMY_CLASSES :: "string list" where
  "PLAN_EXEMPT_AUTONOMY_CLASSES = [PLAN_EXEMPT_CONFIRMED_HR_BLUEPRINT]"

definition AUTONOMOUS_TRIGGER_TYPES :: "string list" where
  "AUTONOMOUS_TRIGGER_TYPES = [''cron'', ''interval'', ''once'', ''poll'']"

definition PLATFORM_INTERNAL_TRIGGER_CLASSES :: "string list" where
  "PLATFORM_INTERNAL_TRIGGER_CLASSES = [''event_wait'', ''system_maintenance'']"

definition objective_wake_exempt_reason :: "pyval \<Rightarrow> string option \<Rightarrow> string option" where
  "objective_wake_exempt_reason objective_metadata autonomy_class =
     (let metadata = (case as_dict objective_metadata of None \<Rightarrow> [] | Some d \<Rightarrow> d);
          plan_id = dget metadata ''plan_id'' in
      if is_str plan_id \<and> py_strip (py_str plan_id) \<noteq> [] then Some ''confirmed_plan''
      else if plan_id \<noteq> PNone \<and> \<not> is_str plan_id \<and> py_strip (py_str plan_id) \<noteq> []
      then Some ''confirmed_plan''
      else case nonblank (dget metadata ''plan_exempt_reason'') of
        Some r \<Rightarrow> Some r
      | None \<Rightarrow>
          (case extract_plan_exempt_reason (PDict metadata) of
             Some r \<Rightarrow> Some r
           | None \<Rightarrow>
               (let autonomy = py_strip (opt_text autonomy_class) in
                if autonomy \<in> set PLAN_EXEMPT_AUTONOMY_CLASSES then Some autonomy
                else if autonomy \<in> set PLATFORM_INTERNAL_AUTONOMY_CLASSES
                then Some ''platform_internal''
                else None)))"

definition trigger_is_autonomous :: "string option \<Rightarrow> string option \<Rightarrow> bool" where
  "trigger_is_autonomous trigger_type trigger_class \<longleftrightarrow>
     (if py_strip (opt_text trigger_class) \<in> set PLATFORM_INTERNAL_TRIGGER_CLASSES then False
      else py_strip (opt_text trigger_type) \<in> set AUTONOMOUS_TRIGGER_TYPES)"

section \<open>Response envelopes and provenance\<close>

definition NEEDS_PLAN_SUMMARY :: string where
  "NEEDS_PLAN_SUMMARY =
     ''Confirm a plan before starting this autonomous action. Present the plan to the user and collect their ''
   @ ''explicit approval first; preference memory or prior authorization may prefill the plan but is NOT approval.''"

definition NEEDS_PLAN_NEXT_ACTION :: string where
  "NEEDS_PLAN_NEXT_ACTION =
     ''STOP and create/show a plan, then WAIT for the user to confirm it in a new message. Do not enable triggers, ''
   @ ''start long tasks, or delegate until a confirmed plan exists. Never self-confirm on the user''
   @ [CHR 0x27] @ ''s behalf.''"

definition default_needs_plan_summary :: string where
  "default_needs_plan_summary = NEEDS_PLAN_SUMMARY"

text \<open>\<open>x or default\<close> for an optional string, and a key that is only set when present.\<close>

definition or_default :: "string option \<Rightarrow> string \<Rightarrow> string" where
  "or_default x d = (case x of None \<Rightarrow> d | Some s \<Rightarrow> if s = [] then d else s)"

definition put_opt :: "string \<Rightarrow> ('a \<Rightarrow> pyval) \<Rightarrow> 'a option \<Rightarrow>
    (string \<times> pyval) list \<Rightarrow> (string \<times> pyval) list" where
  "put_opt k f x d = (case x of None \<Rightarrow> d | Some v \<Rightarrow> AList.update k (f v) d)"

definition build_needs_plan_payload ::
  "string option \<Rightarrow> int option \<Rightarrow> string option \<Rightarrow> (string \<times> pyval) list option \<Rightarrow> string option \<Rightarrow>
   (string \<times> pyval) list" where
  "build_needs_plan_payload plan_id plan_version summary plan_preview next_action =
     put_opt ''plan_preview'' PDict plan_preview
       (put_opt ''plan_version'' PInt plan_version
         (put_opt ''plan_id'' PStr plan_id
           [(''ok'', PBool False), (''status'', PStr ''needs_plan''),
            (''summary'', PStr (or_default summary NEEDS_PLAN_SUMMARY)),
            (''next_action'', PStr (or_default next_action NEEDS_PLAN_NEXT_ACTION))]))"

definition build_confirmation_required_payload ::
  "string option \<Rightarrow> int option \<Rightarrow> string option \<Rightarrow> (string \<times> pyval) list option \<Rightarrow> string option \<Rightarrow>
   (string \<times> pyval) list" where
  "build_confirmation_required_payload plan_id plan_version summary plan_preview next_action =
     AList.update ''requires_confirmation'' (PBool True)
       (AList.update ''status'' (PStr ''requires_confirmation'')
         (build_needs_plan_payload plan_id plan_version summary plan_preview next_action))"

text \<open>
  Provenance of a confirmed plan on a durable artifact. The identifiers are the texts of the
  ids the callers pass, the version an integer.
\<close>

definition opt_pstr :: "string option \<Rightarrow> pyval" where
  "opt_pstr x = (case x of None \<Rightarrow> PNone | Some s \<Rightarrow> PStr s)"

definition stamp_confirmed_plan_provenance ::
  "(string \<times> pyval) list option \<Rightarrow> string option \<Rightarrow> int option \<Rightarrow> string option \<Rightarrow>
   string option \<Rightarrow> string option \<Rightarrow> string option \<Rightarrow> string option \<Rightarrow> string option \<Rightarrow>
   string option \<Rightarrow> string option \<Rightarrow> (string \<times> pyval) list" where
  "stamp_confirmed_plan_provenance artifact plan_id plan_version plan_hash
       authorization_lease_id canonical_args_hash target_ref requester_user_id
       session_id runtime_task_id evidence_id =
     (let stamped = (case artifact of None \<Rightarrow> [] | Some d \<Rightarrow> d) in
      case (plan_id, plan_version, plan_hash) of
        (Some p, Some v, Some h) \<Rightarrow>
          (let stamped = AList.update ''plan_hash'' (PStr h)
                 (AList.update ''plan_version'' (PInt v) (AList.update ''plan_id'' (PStr p) stamped)) in
           if list_all (\<lambda>x. py_strip (opt_text x) \<noteq> [])
                [authorization_lease_id, canonical_args_hash, target_ref, requester_user_id]
           then AList.update ''plan_authorization'' (PDict
                 [(''schema'', PStr ''hive.plan_authorization_evidence.v1''),
                  (''lease_id'', PStr (opt_text authorization_lease_id)),
                  (''canonical_args_hash'', PStr (opt_text canonical_args_hash)),
                  (''target_ref'', PStr (opt_text target_ref)),
                  (''requester_user_id'', PStr (opt_text requester_user_id)),
                  (''session_id'', opt_pstr session_id),
                  (''runtime_task_id'', if session_id = None then opt_pstr runtime_task_id else PNone),
                  (''evidence_id'', opt_pstr evidence_id)]) stamped
           else stamped)
      | _ \<Rightarrow> stamped)"

section \<open>Correctness of the core\<close>

lemma check_simps [simp]:
  "check_ok check_passed" "error_code check_passed = None"
  "\<not> check_ok (check_failed c m)" "error_code (check_failed c m) = Some c"
  "check_message (check_failed c m) = Some m"
  by (simp_all add: check_passed_def check_failed_def)

lemma validate_confirmation_ok [decide]:
  "check_ok (validate_confirmation st sv sh rq v cu h src) \<longleftrightarrow>
     st = ''awaiting_confirmation'' \<and> v = sv
     \<and> (\<exists>c. cu = Some c \<and> (rq = None \<or> rq = Some c \<or> src \<in> Some ` set OVERRIDE_SOURCES))"
  by (auto simp: validate_confirmation_def split: option.splits)

lemma validate_plan_handoff_ok [decide]:
  "check_ok (validate_plan_handoff st sv sh v h) \<longleftrightarrow> st = ''confirmed'' \<and> v = Some sv"
  by (auto simp: validate_plan_handoff_def split: option.splits)

lemma plan_edges [machine_simps]:
  "plan_can_transition s t \<longleftrightarrow>
     (s, t) \<in> {(''draft'', ''planning''), (''planning'', ''awaiting_confirmation''),
       (''planning'', ''planning_failed''), (''planning_failed'', ''planning''),
       (''planning_failed'', ''rejected''), (''awaiting_confirmation'', ''confirmed''),
       (''awaiting_confirmation'', ''planning''), (''awaiting_confirmation'', ''rejected''),
       (''awaiting_confirmation'', ''expired''), (''awaiting_confirmation'', ''superseded'')}"
  by (auto simp: plan_can_transition_def PLAN_TRANSITIONS_def split: if_splits)

interpretation plan: status_table plan_can_transition "\<lambda>s. s \<in> set TERMINAL_STATUSES"
  by unfold_locales (auto simp: plan_edges TERMINAL_STATUSES_def)

lemma plan_run_confirmed:
  assumes "plan_can_transition\<^sup>*\<^sup>* s t" and "plan_can_transition t ''confirmed''"
  shows "t = ''awaiting_confirmation'' \<and> s \<notin> set TERMINAL_STATUSES"
  using plan.run_before_final [OF assms] assms(2) by (simp add: plan_edges)

text \<open>
  A confirmation passes exactly when the plan awaits confirmation, an authenticated
  user confirms it who is the requester (or the plan has none) or acts under one of the three
  override sources, and the submitted version is the stored one. The hashes play no part. A
  passed check coincides with the only edge of the status machine into \<open>confirmed\<close>, and a
  failed one always names its error.
\<close>

theorem confirmation_check_exact:
  "(check_ok (validate_confirmation st sv sh rq v cu h src) \<longleftrightarrow>
     plan_can_transition st ''confirmed'' \<and> v = sv
     \<and> (\<exists>c. cu = Some c \<and> (rq \<in> {None, Some c} \<or>
          src \<in> {Some ''session_owner'', Some ''delegated_approver'', Some ''manager_override''})))
   \<and> validate_confirmation st sv sh rq v cu h src = validate_confirmation st sv sh' rq v cu h' src
   \<and> (error_code (validate_confirmation st sv sh rq v cu h src) = None \<longleftrightarrow>
        check_ok (validate_confirmation st sv sh rq v cu h src))"
proof (intro conjI)
  show "validate_confirmation st sv sh rq v cu h src = validate_confirmation st sv sh' rq v cu h' src"
    by (simp add: validate_confirmation_def)
  show "error_code (validate_confirmation st sv sh rq v cu h src) = None \<longleftrightarrow>
        check_ok (validate_confirmation st sv sh rq v cu h src)"
    by (auto simp: validate_confirmation_def split: option.splits)
qed (auto simp: validate_confirmation_ok plan_edges OVERRIDE_SOURCES_def)

subsection \<open>Wake exemptions\<close>

lemma nonblank_eq: "nonblank v = Some r \<longleftrightarrow> (\<exists>s. v = PStr s \<and> r = py_strip s \<and> r \<noteq> [])"
  by (cases v) auto

lemma first_some_None: "first_some xs = None \<longleftrightarrow> set xs \<subseteq> {None}"
  by (induction xs rule: first_some.induct) auto

lemma first_some_in: "first_some xs = Some x \<Longrightarrow> Some x \<in> set xs"
  by (induction xs rule: first_some.induct) auto

lemma extract_reason_stripped:
  assumes "extract_plan_exempt_reason a = Some r"
  shows "r \<noteq> [] \<and> py_strip r = r"
proof -
  from assms obtain v where "nonblank v = Some r"
    by (auto simp: extract_plan_exempt_reason_def simp del: nested.simps
        dest!: first_some_in split: option.splits)
  then show ?thesis by (auto simp: nonblank_eq)
qed

text \<open>Where an exemption may be written on an objective, besides its plan id.\<close>

definition exemption_places :: "string list list" where
  "exemption_places = [[], [''metadata''], [''metadata_json''], [''config'', ''metadata'']]"

definition blank_plan_id :: "pyval \<Rightarrow> bool" where
  "blank_plan_id v \<longleftrightarrow> v = PNone \<or> py_strip (py_str v) = []"

lemma plan_id_blank_iff:
  "(is_str v \<and> py_strip (py_str v) \<noteq> [] \<or> v \<noteq> PNone \<and> \<not> is_str v \<and> py_strip (py_str v) \<noteq> [])
     \<longleftrightarrow> \<not> blank_plan_id v"
  by (cases v) (auto simp: blank_plan_id_def)

lemma wake_plan_id: "\<not> blank_plan_id (dget d ''plan_id'') \<Longrightarrow>
    objective_wake_exempt_reason (PDict d) ac = Some ''confirmed_plan''"
  using plan_id_blank_iff [of "dget d ''plan_id''"]
  by (auto simp: objective_wake_exempt_reason_def)

text \<open>
  An objective wakes without a fresh plan exactly when its metadata carries a plan id
  with a visible text, or a non-blank exemption text in one of four places, or its autonomy
  class is one of the two internal ones; with none of these, the answer is \<open>None\<close>.
\<close>

theorem wake_needs_plan_or_exemption:
  "objective_wake_exempt_reason (PDict d) ac = None \<longleftrightarrow>
     blank_plan_id (dget d ''plan_id'')
     \<and> list_all (\<lambda>ks. nonblank (nested (PDict d) (ks @ [''plan_exempt_reason''])) = None)
          exemption_places
     \<and> py_strip (opt_text ac) \<notin> {''confirmed_hr_blueprint'', ''internal_self_improvement''}"
proof (cases "blank_plan_id (dget d ''plan_id'')")
  case False
  then show ?thesis by (simp add: wake_plan_id)
next
  case True
  with plan_id_blank_iff [of "dget d ''plan_id''"]
  have "objective_wake_exempt_reason (PDict d) ac =
      (case nonblank (dget d ''plan_exempt_reason'') of
        Some r \<Rightarrow> Some r
      | None \<Rightarrow>
          (case extract_plan_exempt_reason (PDict d) of
             Some r \<Rightarrow> Some r
           | None \<Rightarrow>
               (let autonomy = py_strip (opt_text ac) in
                if autonomy \<in> set PLAN_EXEMPT_AUTONOMY_CLASSES then Some autonomy
                else if autonomy \<in> set PLATFORM_INTERNAL_AUTONOMY_CLASSES
                then Some ''platform_internal''
                else None)))"
    by (auto simp: objective_wake_exempt_reason_def)
  with True show ?thesis
    by (auto simp: exemption_places_def extract_plan_exempt_reason_def first_some_None Let_def
        PLAN_EXEMPT_AUTONOMY_CLASSES_def PLATFORM_INTERNAL_AUTONOMY_CLASSES_def
        PLAN_EXEMPT_CONFIRMED_HR_BLUEPRINT_def simp del: nested.simps(2)
        split: option.splits if_splits) (auto)
qed

end
