(* ===== verification/Plan_Lease.thy ===== *)
theory Plan_Lease
  imports Plan_Mode
begin

text \<open>
  The single-use authorization leases of \<open>backend/app/services/plan_authorization_lease.py\<close> on
  the approval ledger. A plan row and an approval row carry the columns the code reads or
  writes; the database is the map of plan rows and the list of approval rows in the order of
  insertion. \<open>sha\<close> stands for \<open>hashlib.sha256(text.encode("utf-8")).hexdigest()\<close> and \<open>mint\<close> for
  the \<open>uuid4()\<close> default of a new row's id (an id in use violates the primary key). A row is locked (\<open>FOR UPDATE\<close>) from its lookup to the
  commit, so each operation is one step on the database.
\<close>

section \<open>Rows\<close>

record plan_row =
  p_id :: uuid
  p_tenant :: "uuid option"
  p_agent :: uuid
  p_session :: "string option"
  p_task :: "uuid option"
  p_requested_by :: "uuid option"
  p_intent :: string
  p_status :: string
  p_version :: int
  p_hash :: "string option"
  p_json :: "(string \<times> pyval) list"
  p_markdown :: "string option"
  p_handoff_payload :: "(string \<times> pyval) list option"
  p_handoff_status :: "string option"
  p_confirmed_by :: "uuid option"
  p_confirmed_at :: "int option"
  p_rejected_by :: "uuid option"
  p_rejected_at :: "int option"
  p_expires_at :: "int option"
  p_metadata :: "(string \<times> pyval) list"

record approval_row =
  ar_id :: uuid
  ar_tenant :: uuid
  ar_agent :: uuid
  ar_action_type :: string
  ar_details :: "(string \<times> pyval) list"
  ar_status :: string
  ar_resolved_at :: "int option"
  ar_resolved_by :: "uuid option"
  ar_requested_by :: "uuid option"
  ar_decision_id :: "string option"
  ar_tool_name :: "string option"
  ar_arguments :: "(string \<times> pyval) list"
  ar_input_hash :: "string option"
  ar_snapshot :: "(string \<times> pyval) list"
  ar_snapshot_hash :: "string option"
  ar_expires_at :: "int option"
  ar_consumed_at :: "int option"
  ar_execution_status :: string
  ar_key :: "string option"
  ar_receipt :: "(string \<times> pyval) list"

record plan_db =
  plans :: "uuid \<Rightarrow> plan_row option"
  approvals :: "approval_row list"

section \<open>Errors\<close>

datatype lease_exn = LeaseError string string | OtherError string

definition lift_py :: "(string, 'a) res \<Rightarrow> (lease_exn, 'a) res" where
  "lift_py m = (case m of Inl e \<Rightarrow> Inl (OtherError e) | Inr x \<Rightarrow> Inr x)"

definition need_uuid :: "string \<Rightarrow> idval \<Rightarrow> (lease_exn, uuid) res" where
  "need_uuid field v =
     (case parse_id v of
        Some u \<Rightarrow> Inr u
      | None \<Rightarrow> Inl (LeaseError (''missing_'' @ field) (field @ '' must be a UUID'')))"

section \<open>Canonical actions\<close>

definition LEASE_SCHEMA :: string where
  "LEASE_SCHEMA = ''hive.plan_authorization_lease.v1''"

definition LEASE_ACTION_TYPE :: string where
  "LEASE_ACTION_TYPE = ''plan_authorization''"

definition EVIDENCE_SCHEMA :: string where
  "EVIDENCE_SCHEMA = ''hive.plan_authorization_evidence.v1''"

definition DEFAULT_LEASE_TTL :: int where
  "DEFAULT_LEASE_TTL = 24 * 3600 * 1000000"

definition PROOF_FIELDS :: "string list" where
  "PROOF_FIELDS =
     [''confirmed_plan_id'', ''confirmed_plan_version'', ''confirmed_plan_hash'',
      ''confirmed_plan_session_id'', ''plan_id'', ''plan_version'', ''plan_hash'',
      ''plan_authorization'', ''_plan_authorization'', ''plan_authorization_lease_id'',
      ''plan_authorization_hash'', ''plan_exempt_reason'', ''plan_mode_decision'',
      ''plan_recommendation_id'']"

fun canonical_action_artifact :: "pyval \<Rightarrow> pyval" where
  "canonical_action_artifact (PDict d) =
     PDict (filter (\<lambda>kv. fst kv \<notin> set PROOF_FIELDS)
       (sort_key fst (map (\<lambda>kv. (fst kv, canonical_action_artifact (snd kv))) d)))"
| "canonical_action_artifact (PList vs) = PList (map canonical_action_artifact vs)"
| "canonical_action_artifact v = v"

definition require_active_plan_authorization ::
  "(string \<times> pyval) list option \<Rightarrow> (lease_exn, (string \<times> pyval) list) res" where
  "require_active_plan_authorization metadata =
     (let evidence = (case metadata of None \<Rightarrow> PNone | Some m \<Rightarrow> dget m ''active_plan_authorization'');
          missing = Inl (LeaseError ''active_evidence_missing''
                      ''confirmed plan handoff has no consumed authorization evidence'') in
      case as_dict evidence of
        None \<Rightarrow> missing
      | Some e \<Rightarrow>
          if \<not> eq_str (dget e ''schema'') EVIDENCE_SCHEMA
             \<or> list_ex (\<lambda>k. clean_text (dget e k) = [])
                 [''lease_id'', ''canonical_args_hash'', ''target_ref'', ''requester_user_id'', ''evidence_id'']
          then missing else Inr e)"

section \<open>Bindings\<close>

record lease_binding =
  b_tenant :: uuid
  b_agent :: uuid
  b_plan :: uuid
  b_version :: int
  b_hash :: string
  b_requester :: uuid
  b_confirmer :: uuid
  b_session :: "string option"
  b_task :: "uuid option"
  b_context_type :: string
  b_context_ref :: string
  b_kind :: string
  b_target :: string
  b_artifact :: "(string \<times> pyval) list"
  b_args_hash :: string
  b_key :: string

definition execution_context :: "uuid \<Rightarrow> string option \<Rightarrow> uuid option \<Rightarrow> string \<times> string" where
  "execution_context plan_id session_id runtime_task_id =
     (let s = py_strip (opt_text session_id) in
      if s \<noteq> [] then (''session'', s)
      else case runtime_task_id of
        Some t \<Rightarrow> (''runtime_task'', uuid_str t)
      | None \<Rightarrow> (''plan'', uuid_str plan_id))"

definition opt_uuid :: "uuid option \<Rightarrow> pyval" where
  "opt_uuid x = (case x of None \<Rightarrow> PNone | Some u \<Rightarrow> PStr (uuid_str u))"

definition binding_payload :: "lease_binding \<Rightarrow> (string \<times> pyval) list" where
  "binding_payload b =
     [(''schema'', PStr LEASE_SCHEMA),
      (''tenant_id'', PStr (uuid_str (b_tenant b))),
      (''agent_id'', PStr (uuid_str (b_agent b))),
      (''plan_id'', PStr (uuid_str (b_plan b))),
      (''plan_version'', PInt (b_version b)),
      (''plan_hash'', PStr (b_hash b)),
      (''requester_user_id'', PStr (uuid_str (b_requester b))),
      (''confirmed_by_user_id'', PStr (uuid_str (b_confirmer b))),
      (''session_id'', opt_pstr (b_session b)),
      (''runtime_task_id'', opt_uuid (b_task b)),
      (''execution_context_type'', PStr (b_context_type b)),
      (''execution_context_ref'', PStr (b_context_ref b)),
      (''action_kind'', PStr (b_kind b)),
      (''target_ref'', PStr (b_target b)),
      (''canonical_args_hash'', PStr (b_args_hash b))]"

definition lease_preimage ::
  "uuid \<Rightarrow> uuid \<Rightarrow> uuid \<Rightarrow> int \<Rightarrow> string \<Rightarrow> uuid \<Rightarrow> uuid \<Rightarrow> string \<times> string \<Rightarrow> string \<Rightarrow> string \<Rightarrow>
   string \<Rightarrow> (string \<times> pyval) list" where
  "lease_preimage tenant agent plan version hash requester confirmer ctx kind target args_hash =
     [(''schema'', PStr LEASE_SCHEMA),
      (''tenant_id'', PStr (uuid_str tenant)),
      (''agent_id'', PStr (uuid_str agent)),
      (''plan_id'', PStr (uuid_str plan)),
      (''plan_version'', PInt version),
      (''plan_hash'', PStr hash),
      (''requester_user_id'', PStr (uuid_str requester)),
      (''confirmed_by_user_id'', PStr (uuid_str confirmer)),
      (''execution_context_type'', PStr (fst ctx)),
      (''execution_context_ref'', PStr (snd ctx)),
      (''action_kind'', PStr kind),
      (''target_ref'', PStr target),
      (''canonical_args_hash'', PStr args_hash)]"

definition build_plan_authorization_binding ::
  "(string \<Rightarrow> string) \<Rightarrow> idval \<Rightarrow> idval \<Rightarrow> idval \<Rightarrow> int \<Rightarrow> string \<Rightarrow> idval \<Rightarrow> idval \<Rightarrow>
   string option \<Rightarrow> idval \<Rightarrow> string \<Rightarrow> string \<Rightarrow> pyval \<Rightarrow> (lease_exn, lease_binding) res" where
  "build_plan_authorization_binding sha tenant_id agent_id plan_id plan_version plan_hash
       requester_user_id confirmed_by_user_id session_id runtime_task_id action_kind target_ref
       action_artifact =
     bind_res (need_uuid ''tenant_id'' tenant_id) (\<lambda>tenant.
     bind_res (need_uuid ''agent_id'' agent_id) (\<lambda>agent.
     bind_res (need_uuid ''plan_id'' plan_id) (\<lambda>plan.
     bind_res (need_uuid ''requester_user_id'' requester_user_id) (\<lambda>requester.
     bind_res (need_uuid ''confirmed_by_user_id'' confirmed_by_user_id) (\<lambda>confirmer.
     let session = (let s = py_strip (opt_text session_id) in if s = [] then None else Some s) in
     bind_res (if runtime_task_id \<noteq> IdNone \<and> session = None
               then map_sum id Some (need_uuid ''runtime_task_id'' runtime_task_id)
               else Inr None) (\<lambda>task.
     let kind = py_strip action_kind; target = py_strip target_ref; hash = py_strip plan_hash in
     bind_res (require (kind \<noteq> [])
       (LeaseError ''missing_action_kind'' ''plan authorization scope requires action_kind'')) (\<lambda>_.
     bind_res (require (target \<noteq> [])
       (LeaseError ''missing_target_ref'' ''plan authorization scope requires target_ref'')) (\<lambda>_.
     bind_res (require (hash \<noteq> [])
       (LeaseError ''missing_plan_hash'' ''confirmed plan requires a canonical hash'')) (\<lambda>_.
     (case as_dict (canonical_action_artifact action_artifact) of
        None \<Rightarrow> Inl (LeaseError ''invalid_arguments'' ''plan authorization arguments must be an object'')
      | Some artifact \<Rightarrow>
          (let args_hash = sha (canonical_json (PDict artifact));
               ctx = execution_context plan session task;
               digest = sha (canonical_json (PDict (lease_preimage tenant agent plan plan_version
                          hash requester confirmer ctx kind target args_hash)))
           in Inr \<lparr>b_tenant = tenant, b_agent = agent, b_plan = plan, b_version = plan_version,
                   b_hash = hash, b_requester = requester, b_confirmer = confirmer,
                   b_session = session, b_task = task, b_context_type = fst ctx,
                   b_context_ref = snd ctx, b_kind = kind, b_target = target,
                   b_artifact = artifact, b_args_hash = args_hash,
                   b_key = ''plan-lease:'' @ digest\<rparr>)))))))))))"

section \<open>Specifications of the leases of a plan\<close>

definition HANDOFF_ACTION_BY_TARGET :: "(string \<times> string) list" where
  "HANDOFF_ACTION_BY_TARGET =
     [(''continue_current_session'', ''continue_plan_session''),
      (''scheduled_trigger'', ''create_enabled_trigger''),
      (''detached'', ''create_enabled_trigger''),
      (''detached_runtime_task'', ''create_enabled_trigger''),
      (''delegation'', ''start_delegation''),
      (''agent_team'', ''start_agent_team''),
      (''workflow'', ''start_workflow'')]"

record lease_scope =
  sc_kind :: string
  sc_target :: string
  sc_arguments :: "(string \<times> pyval) list"
  sc_summary :: string

definition handoff_target_of :: "plan_row \<Rightarrow> string" where
  "handoff_target_of plan =
     (let handoff = (case as_dict (dget (p_json plan) ''handoff'') of None \<Rightarrow> [] | Some d \<Rightarrow> d);
          t = py_strip (py_str (py_or (dget handoff ''target'') (PStr ''continue_current_session'')))
      in if t = [] then ''continue_current_session'' else t)"

definition handoff_scope :: "plan_row \<Rightarrow> lease_scope" where
  "handoff_scope plan =
     (let target = handoff_target_of plan in
      \<lparr>sc_kind = (case map_of HANDOFF_ACTION_BY_TARGET target of
                   Some k \<Rightarrow> k | None \<Rightarrow> ''handoff:'' @ target),
       sc_target = ''plan:'' @ uuid_str (p_id plan) @ '':handoff:'' @ target,
       sc_arguments =
         [(''approved_plan_id'', PStr (uuid_str (p_id plan))),
          (''approved_plan_version'', PInt (p_version plan)),
          (''approved_plan_hash'', PStr (opt_text (p_hash plan))),
          (''handoff_target'', PStr target),
          (''execution_contract'',
             PDict (case as_dict (dget (p_json plan) ''execution_contract'') of None \<Rightarrow> [] | Some d \<Rightarrow> d))],
       sc_summary = ''Execute the confirmed plan through its '' @ target @ '' handoff''\<rparr>)"

definition scope_value :: "lease_scope \<Rightarrow> pyval" where
  "scope_value sc = PDict
     [(''action_kind'', PStr (sc_kind sc)), (''target_ref'', PStr (sc_target sc)),
      (''arguments'', PDict (sc_arguments sc)), (''summary'', PStr (sc_summary sc)),
      (''max_uses'', PInt 1)]"

record lease_spec =
  sp_binding :: lease_binding
  sp_summary :: string
  sp_expires :: int

text \<open>The plan's own scopes; absent or empty, the one handoff scope.\<close>

definition plan_scopes :: "plan_row \<Rightarrow> (lease_exn, pyval list) res" where
  "plan_scopes plan =
     (case dget (p_json plan) ''authorization_scopes'' of
        PNone \<Rightarrow> Inr [scope_value (handoff_scope plan)]
      | PList vs \<Rightarrow> Inr (if vs = [] then [scope_value (handoff_scope plan)] else vs)
      | _ \<Rightarrow> Inl (LeaseError ''invalid_authorization_scopes''
               ''plan authorization_scopes must be an array''))"

definition spec_of_scope ::
  "(string \<Rightarrow> string) \<Rightarrow> plan_row \<Rightarrow> idval \<Rightarrow> int \<Rightarrow> pyval \<Rightarrow> (lease_exn, lease_spec) res" where
  "spec_of_scope sha plan confirming_user_id expires_at raw =
     (case as_dict raw of
        None \<Rightarrow> Inl (LeaseError ''invalid_scope'' ''each plan authorization scope must be an object'')
      | Some sc \<Rightarrow>
        let kind = clean_text (dget sc ''action_kind'');
            target = clean_text (dget sc ''target_ref'');
            arguments = dget sc ''arguments'';
            summary = clean_text (dget sc ''summary'') in
        bind_res (require (kind \<noteq> [])
          (LeaseError ''missing_action_kind'' ''plan authorization scope requires action_kind'')) (\<lambda>_.
        bind_res (require (target \<noteq> [])
          (LeaseError ''missing_target_ref'' ''plan authorization scope requires target_ref'')) (\<lambda>_.
        bind_res (require (as_dict arguments \<noteq> None)
          (LeaseError ''invalid_arguments'' ''plan authorization arguments must be an object'')) (\<lambda>_.
        bind_res (lift_py (py_int (py_or (if has_key sc ''max_uses'' then dget sc ''max_uses'' else PInt 1)
                    (PInt 1)))) (\<lambda>max_uses.
        bind_res (require (max_uses = 1)
          (LeaseError ''invalid_max_uses''
            ''each plan authorization scope is single-use; duplicate actions require separate scopes'')) (\<lambda>_.
        bind_res (require (summary \<noteq> [])
          (LeaseError ''missing_summary'' ''plan authorization scope requires a user-facing summary'')) (\<lambda>_.
        bind_res (build_plan_authorization_binding sha (id_opt (p_tenant plan)) (IdUuid (p_agent plan))
            (IdUuid (p_id plan)) (p_version plan) (opt_text (p_hash plan)) (id_opt (p_requested_by plan))
            confirming_user_id (p_session plan) (id_opt (p_task plan)) kind target arguments) (\<lambda>b.
        Inr \<lparr>sp_binding = b, sp_summary = summary, sp_expires = expires_at\<rparr>))))))))"

text \<open>The loop over the scopes refuses a second scope with the same key.\<close>

definition add_spec :: "lease_spec list \<Rightarrow> lease_spec \<Rightarrow> (lease_exn, lease_spec list) res" where
  "add_spec specs s =
     (if b_key (sp_binding s) \<in> (\<lambda>t. b_key (sp_binding t)) ` set specs
      then Inl (LeaseError ''duplicate_scope'' ''duplicate plan authorization scope'')
      else Inr (specs @ [s]))"

definition build_plan_authorization_specs ::
  "(string \<Rightarrow> string) \<Rightarrow> plan_row \<Rightarrow> idval \<Rightarrow> int \<Rightarrow> (lease_exn, lease_spec list) res" where
  "build_plan_authorization_specs sha plan confirming_user_id now =
     bind_res (require (p_status plan = ''confirmed'')
       (LeaseError ''plan_not_confirmed'' ''only a confirmed plan can issue authorization'')) (\<lambda>_.
     let expires_at = (case p_expires_at plan of Some t \<Rightarrow> t | None \<Rightarrow> now + DEFAULT_LEASE_TTL) in
     bind_res (require (now < expires_at)
       (LeaseError ''expired'' ''confirmed plan authorization has expired'')) (\<lambda>_.
     bind_res (plan_scopes plan) (\<lambda>scopes.
     fold_res (\<lambda>specs raw.
         bind_res (spec_of_scope sha plan confirming_user_id expires_at raw) (add_spec specs))
       [] scopes)))"

section \<open>Tickets\<close>

definition normalized_ticket_arguments :: "lease_binding \<Rightarrow> (string \<times> pyval) list" where
  "normalized_ticket_arguments b =
     [(''binding'', PDict (binding_payload b)), (''action_artifact'', PDict (b_artifact b))]"

definition ticket_policy_snapshot :: "lease_binding \<Rightarrow> (string \<times> pyval) list" where
  "ticket_policy_snapshot b =
     [(''schema'', PStr ''hive.plan_authorization_policy_snapshot.v1''),
      (''plan_id'', PStr (uuid_str (b_plan b))),
      (''plan_version'', PInt (b_version b)),
      (''plan_hash'', PStr (b_hash b)),
      (''confirmed_by_user_id'', PStr (uuid_str (b_confirmer b))),
      (''execution_context_type'', PStr (b_context_type b)),
      (''execution_context_ref'', PStr (b_context_ref b)),
      (''action_kind'', PStr (b_kind b)),
      (''target_ref'', PStr (b_target b)),
      (''canonical_args_hash'', PStr (b_args_hash b))]"

text \<open>\<open>hash_tool_input\<close> and \<open>hash_policy_snapshot\<close> of \<open>approval_ticket.py\<close>.\<close>

definition hash_tool_input :: "(string \<Rightarrow> string) \<Rightarrow> string \<Rightarrow> (string \<times> pyval) list \<Rightarrow> string" where
  "hash_tool_input sha tool_name arguments =
     sha (canonical_json (PDict [(''tool_name'', PStr (py_strip tool_name)), (''arguments'', PDict arguments)]))"

definition hash_policy_snapshot :: "(string \<Rightarrow> string) \<Rightarrow> (string \<times> pyval) list \<Rightarrow> string" where
  "hash_policy_snapshot sha snapshot = sha (canonical_json (PDict snapshot))"

definition ticket_hash :: "(string \<Rightarrow> string) \<Rightarrow> lease_binding \<Rightarrow> string" where
  "ticket_hash sha b =
     hash_tool_input sha (''plan:'' @ b_kind b) (normalized_ticket_arguments b)"

record lease =
  l_id :: uuid
  l_binding :: lease_binding
  l_expires :: "int option"
  l_consumed :: "int option"
  l_evidence :: "string option"

definition lease_from_row :: "approval_row \<Rightarrow> lease_binding \<Rightarrow> lease" where
  "lease_from_row row b =
     (let ev = py_str (py_or (dget (ar_receipt row) ''evidence_id'') (PStr [])) in
      \<lparr>l_id = ar_id row, l_binding = b, l_expires = ar_expires_at row,
       l_consumed = ar_consumed_at row, l_evidence = (if ev = [] then None else Some ev)\<rparr>)"

definition find_by_key :: "approval_row list \<Rightarrow> string \<Rightarrow> approval_row option" where
  "find_by_key rows k = find (\<lambda>r. ar_key r = Some k) rows"

section \<open>Issuing\<close>

definition new_ticket :: "(string \<Rightarrow> string) \<Rightarrow> uuid \<Rightarrow> int \<Rightarrow> lease_spec \<Rightarrow> approval_row" where
  "new_ticket sha rid now spec =
     (let b = sp_binding spec in
      \<lparr>ar_id = rid, ar_tenant = b_tenant b, ar_agent = b_agent b, ar_action_type = LEASE_ACTION_TYPE,
       ar_details = AList.update ''use_count'' (PInt 0) (AList.update ''max_uses'' (PInt 1)
          (AList.update ''summary'' (PStr (sp_summary spec)) (binding_payload b))),
       ar_status = ''approved'', ar_resolved_at = Some now, ar_resolved_by = Some (b_confirmer b),
       ar_requested_by = Some (b_requester b),
       ar_decision_id = Some (''plan:'' @ uuid_str (b_plan b) @ '':'' @ b_kind b),
       ar_tool_name = Some (''plan:'' @ b_kind b),
       ar_arguments = normalized_ticket_arguments b,
       ar_input_hash = Some (ticket_hash sha b),
       ar_snapshot = ticket_policy_snapshot b,
       ar_snapshot_hash = Some (hash_policy_snapshot sha (ticket_policy_snapshot b)),
       ar_expires_at = Some (sp_expires spec), ar_consumed_at = None,
       ar_execution_status = ''approved'', ar_key = Some (b_key b),
       ar_receipt = [(''schema'', PStr LEASE_SCHEMA), (''status'', PStr ''issued'')]\<rparr>)"

definition issue_one ::
  "(string \<Rightarrow> string) \<Rightarrow> (approval_row list \<Rightarrow> uuid) \<Rightarrow> int \<Rightarrow> approval_row list \<times> lease list \<Rightarrow>
   lease_spec \<Rightarrow> (lease_exn, approval_row list \<times> lease list) res" where
  "issue_one sha mint now = (\<lambda>(rows, leases) spec.
     let b = sp_binding spec in
     case find_by_key rows (b_key b) of
       Some row \<Rightarrow>
         if ar_action_type row \<noteq> LEASE_ACTION_TYPE \<or> ar_input_hash row \<noteq> Some (ticket_hash sha b)
         then Inl (LeaseError ''lease_key_conflict'' ''plan lease idempotency key conflict'')
         else Inr (rows, leases @ [lease_from_row row b])
     | None \<Rightarrow>
         (let row = new_ticket sha (mint rows) now spec in
          if ar_id row \<in> ar_id ` set rows then Inl (OtherError ''IntegrityError'')
          else Inr (rows @ [row], leases @ [lease_from_row row b])))"

definition issue_plan_authorization_leases ::
  "(string \<Rightarrow> string) \<Rightarrow> (approval_row list \<Rightarrow> uuid) \<Rightarrow> plan_db \<Rightarrow> plan_row \<Rightarrow> idval \<Rightarrow> int \<Rightarrow>
   (lease_exn, plan_db \<times> lease list) res" where
  "issue_plan_authorization_leases sha mint db plan confirming_user_id now =
     bind_res (build_plan_authorization_specs sha plan confirming_user_id now) (\<lambda>specs.
     bind_res (fold_res (issue_one sha mint now) (approvals db, []) specs) (\<lambda>(rows, leases).
     Inr (db\<lparr>approvals := rows\<rparr>, leases)))"

section \<open>Consuming\<close>

record consume_request =
  c_tenant :: idval
  c_agent :: idval
  c_plan :: idval
  c_requester :: idval
  c_session :: "string option"
  c_task :: idval
  c_kind :: string
  c_target :: string
  c_artifact :: pyval
  c_evidence :: string
  c_confirmer :: idval
  c_version :: "int option"
  c_hash :: "string option"
  c_resume :: bool

definition candidate_plan_leases :: "approval_row list \<Rightarrow> uuid \<Rightarrow> uuid \<Rightarrow> approval_row list" where
  "candidate_plan_leases rows agent plan =
     filter (\<lambda>r. ar_agent r = agent \<and> ar_action_type r = LEASE_ACTION_TYPE
                 \<and> eq_str (dget (ar_details r) ''plan_id'') (uuid_str plan)) rows"

text \<open>\<open>str(v or "")\<close> of a stored detail.\<close>

definition raw_text :: "pyval \<Rightarrow> string" where
  "raw_text v = py_str (py_or v (PStr []))"

fun diagnose_binding_mismatch :: "approval_row list \<Rightarrow> lease_binding \<Rightarrow> lease_exn" where
  "diagnose_binding_mismatch [] b =
     LeaseError ''lease_not_found'' ''no exact plan authorization lease matches this action''"
| "diagnose_binding_mismatch (r # rs) b =
     (let d = ar_details r in
      if raw_text (dget d ''action_kind'') \<noteq> b_kind b then diagnose_binding_mismatch rs b
      else if raw_text (dget d ''requester_user_id'') \<noteq> uuid_str (b_requester b)
      then LeaseError ''requester_mismatch'' ''plan authorization requester mismatch''
      else if raw_text (dget d ''session_id'') \<noteq> opt_text (b_session b)
      then LeaseError ''session_mismatch'' ''plan authorization session mismatch''
      else if raw_text (dget d ''runtime_task_id'') \<noteq> (case b_task b of None \<Rightarrow> [] | Some t \<Rightarrow> uuid_str t)
      then LeaseError ''runtime_task_mismatch'' ''plan authorization runtime task mismatch''
      else diagnose_binding_mismatch rs b)"

text \<open>The checks on the plan row, which give the stored version and hash and the confirmer.\<close>

definition check_consumed_plan ::
  "plan_db \<Rightarrow> consume_request \<Rightarrow> uuid \<Rightarrow> uuid \<Rightarrow> int \<Rightarrow> (lease_exn, int \<times> string \<times> idval) res" where
  "check_consumed_plan db rq agent plan_id now =
     (case plans db plan_id of
        None \<Rightarrow> Inl (LeaseError ''plan_not_found'' ''confirmed plan not found in tenant'')
      | Some plan \<Rightarrow>
        bind_res (require (p_agent plan = agent)
          (LeaseError ''agent_mismatch'' ''plan authorization agent mismatch'')) (\<lambda>_.
        bind_res (require (p_status plan = ''confirmed'')
          (LeaseError ''plan_not_confirmed'' ''plan is no longer confirmed'')) (\<lambda>_.
        bind_res (require (case p_expires_at plan of None \<Rightarrow> True | Some t \<Rightarrow> now < t)
          (LeaseError ''expired'' ''confirmed plan authorization has expired'')) (\<lambda>_.
        bind_res (require (c_version rq \<in> {None, Some (p_version plan)})
          (LeaseError ''version_mismatch'' ''plan authorization version mismatch'')) (\<lambda>_.
        bind_res (require (c_hash rq \<in> {None, Some (opt_text (p_hash plan))})
          (LeaseError ''hash_mismatch'' ''plan authorization hash mismatch'')) (\<lambda>_.
        let confirmer = (if c_confirmer rq \<in> {IdNone, IdText []} then id_opt (p_confirmed_by plan)
                         else c_confirmer rq) in
        bind_res (require (confirmer \<noteq> IdNone)
          (LeaseError ''missing_confirmer'' ''confirmed plan has no confirmer'')) (\<lambda>_.
        Inr (p_version plan, opt_text (p_hash plan), confirmer))))))))"

text \<open>The checks on the ticket row; the result tells whether the call resumes a consumed one.\<close>

definition check_ticket ::
  "(string \<Rightarrow> string) \<Rightarrow> approval_row \<Rightarrow> lease_binding \<Rightarrow> uuid \<Rightarrow> uuid \<Rightarrow> uuid \<Rightarrow> string \<Rightarrow> int \<Rightarrow> bool \<Rightarrow>
   (lease_exn, bool) res" where
  "check_ticket sha row b tenant agent requester evidence now allow_resume =
     (let details = ar_details row;
          receipt = ar_receipt row;
          resuming = (ar_consumed_at row \<noteq> None) in
      bind_res (require (ar_tenant row = tenant \<and> ar_agent row = agent)
        (LeaseError ''authority_mismatch'' ''plan lease authority mismatch'')) (\<lambda>_.
      bind_res (require (ar_requested_by row = Some requester)
        (LeaseError ''requester_mismatch'' ''plan authorization requester mismatch'')) (\<lambda>_.
      bind_res (require (ar_resolved_by row = Some (b_confirmer b))
        (LeaseError ''confirmer_mismatch'' ''plan authorization confirmer mismatch'')) (\<lambda>_.
      bind_res (require (ar_status row = ''approved'')
        (LeaseError ''not_approved'' ''plan authorization is not approved'')) (\<lambda>_.
      bind_res (require (case ar_expires_at row of None \<Rightarrow> False | Some t \<Rightarrow> now < t)
        (LeaseError ''expired'' ''plan authorization lease expired'')) (\<lambda>_.
      bind_res (require (\<not> resuming \<or> (allow_resume \<and> raw_text (dget receipt ''evidence_id'') = evidence
                          \<and> raw_text (dget receipt ''status'') = ''consumed''))
        (LeaseError ''already_consumed'' ''plan authorization lease already consumed'')) (\<lambda>_.
      bind_res (lift_py (py_int (py_or (dget details ''max_uses'') (PInt 0)))) (\<lambda>max_uses.
      bind_res (if max_uses \<noteq> 1 then Inr False
                else bind_res (lift_py (py_int (py_or (dget details ''use_count'') (PInt 0))))
                       (\<lambda>use_count. Inr (use_count = (if resuming then 1 else 0)))) (\<lambda>use_ok.
      bind_res (require use_ok
        (LeaseError ''invalid_use_state'' ''plan authorization use state is invalid'')) (\<lambda>_.
      bind_res (require (ar_input_hash row = Some (ticket_hash sha b))
        (LeaseError ''input_hash_mismatch'' ''plan authorization input hash mismatch'')) (\<lambda>_.
      bind_res (require (ar_snapshot_hash row = Some (hash_policy_snapshot sha (ticket_policy_snapshot b)))
        (LeaseError ''policy_snapshot_mismatch'' ''plan authorization snapshot mismatch'')) (\<lambda>_.
      Inr resuming))))))))))))"

definition consumed_row :: "approval_row \<Rightarrow> lease_binding \<Rightarrow> string \<Rightarrow> int \<Rightarrow> approval_row" where
  "consumed_row row b evidence now =
     row\<lparr>ar_consumed_at := Some now,
         ar_execution_status := ''succeeded'',
         ar_details := AList.update ''use_count'' (PInt 1) (ar_details row),
         ar_receipt :=
           [(''schema'', PStr LEASE_SCHEMA), (''status'', PStr ''consumed''),
            (''evidence_id'', PStr evidence), (''consumed_at'', PStr (isoformat now)),
            (''action_kind'', PStr (b_kind b)), (''target_ref'', PStr (b_target b)),
            (''canonical_args_hash'', PStr (b_args_hash b))]\<rparr>"

text \<open>The update of the locked row, found by its unique key.\<close>

definition put_row :: "string \<Rightarrow> approval_row \<Rightarrow> approval_row list \<Rightarrow> approval_row list" where
  "put_row k row rows = map (\<lambda>r. if ar_key r = Some k then row else r) rows"

definition consume_plan_authorization_lease ::
  "(string \<Rightarrow> string) \<Rightarrow> plan_db \<Rightarrow> consume_request \<Rightarrow> int \<Rightarrow> (lease_exn, plan_db \<times> lease) res" where
  "consume_plan_authorization_lease sha db rq now =
     bind_res (need_uuid ''tenant_id'' (c_tenant rq)) (\<lambda>tenant.
     bind_res (need_uuid ''agent_id'' (c_agent rq)) (\<lambda>agent.
     bind_res (need_uuid ''plan_id'' (c_plan rq)) (\<lambda>plan_id.
     bind_res (need_uuid ''requester_user_id'' (c_requester rq)) (\<lambda>requester.
     bind_res (check_consumed_plan db rq agent plan_id now) (\<lambda>(version, hash, confirmer).
     bind_res (build_plan_authorization_binding sha (IdUuid tenant) (IdUuid agent) (IdUuid plan_id)
        version hash (IdUuid requester) confirmer (c_session rq) (c_task rq) (c_kind rq) (c_target rq)
        (c_artifact rq)) (\<lambda>b.
     case find_by_key (approvals db) (b_key b) of
       None \<Rightarrow> Inl (diagnose_binding_mismatch (candidate_plan_leases (approvals db) agent plan_id) b)
     | Some row \<Rightarrow>
         bind_res (check_ticket sha row b tenant agent requester (c_evidence rq) now (c_resume rq)) (\<lambda>resuming.
         if resuming then Inr (db, lease_from_row row b)
         else let row' = consumed_row row b (c_evidence rq) now in
              Inr (db\<lparr>approvals := put_row (b_key b) row' (approvals db)\<rparr>, lease_from_row row' b))))))))"

section \<open>Verifying a consumed lease\<close>

definition binding_from_ticket :: "(string \<Rightarrow> string) \<Rightarrow> approval_row \<Rightarrow> (lease_exn, lease_binding) res" where
  "binding_from_ticket sha row =
     (case (as_dict (dget (ar_arguments row) ''binding''), dget (ar_arguments row) ''action_artifact'') of
        (Some st, PDict artifact) \<Rightarrow>
          bind_res (lift_py (py_int (py_or (dget st ''plan_version'') (PInt 0)))) (\<lambda>version.
          build_plan_authorization_binding sha (id_of_pyval (dget st ''tenant_id''))
            (id_of_pyval (dget st ''agent_id'')) (id_of_pyval (dget st ''plan_id'')) version
            (raw_text (dget st ''plan_hash'')) (id_of_pyval (dget st ''requester_user_id''))
            (id_of_pyval (dget st ''confirmed_by_user_id''))
            (case dget st ''session_id'' of PNone \<Rightarrow> None | v \<Rightarrow> Some (raw_text v))
            (id_of_pyval (dget st ''runtime_task_id''))
            (raw_text (dget st ''action_kind'')) (raw_text (dget st ''target_ref'')) (PDict artifact))
      | _ \<Rightarrow> Inl (LeaseError ''corrupt_lease'' ''plan authorization ticket payload is corrupt''))"

definition opt_str_of :: "pyval \<Rightarrow> string option" where
  "opt_str_of v = (if v = PNone then None else Some (py_str v))"

definition verify_consumed_plan_authorization_lease ::
  "(string \<Rightarrow> string) \<Rightarrow> plan_db \<Rightarrow> idval \<Rightarrow> idval \<Rightarrow> idval \<Rightarrow> pyval \<Rightarrow> (lease_exn, lease) res" where
  "verify_consumed_plan_authorization_lease sha db tenant_id agent_id plan_id evidence =
     (case as_dict evidence of
        None \<Rightarrow> Inl (LeaseError ''invalid_evidence'' ''plan authorization evidence is missing or malformed'')
      | Some ev \<Rightarrow>
        bind_res (require (eq_str (dget ev ''schema'') EVIDENCE_SCHEMA)
          (LeaseError ''invalid_evidence'' ''plan authorization evidence is missing or malformed'')) (\<lambda>_.
        bind_res (need_uuid ''tenant_id'' tenant_id) (\<lambda>tenant.
        bind_res (need_uuid ''agent_id'' agent_id) (\<lambda>agent.
        bind_res (need_uuid ''plan_id'' plan_id) (\<lambda>plan.
        bind_res (need_uuid ''lease_id'' (id_of_pyval (dget ev ''lease_id''))) (\<lambda>lease_id.
        case find (\<lambda>r. ar_id r = lease_id) (approvals db) of
          None \<Rightarrow> Inl (LeaseError ''lease_not_found'' ''plan authorization lease not found'')
        | Some row \<Rightarrow>
          bind_res (require (ar_action_type row = LEASE_ACTION_TYPE)
            (LeaseError ''lease_not_found'' ''plan authorization lease not found'')) (\<lambda>_.
          bind_res (require (ar_tenant row = tenant \<and> ar_agent row = agent)
            (LeaseError ''authority_mismatch'' ''plan authorization authority mismatch'')) (\<lambda>_.
          bind_res (require (ar_status row = ''approved'' \<and> ar_consumed_at row \<noteq> None
                \<and> ar_execution_status row = ''succeeded'')
            (LeaseError ''not_consumed'' ''plan authorization lease is not consumed'')) (\<lambda>_.
          bind_res (binding_from_ticket sha row) (\<lambda>b.
          bind_res (require (b_plan b = plan)
            (LeaseError ''plan_mismatch'' ''plan authorization plan mismatch'')) (\<lambda>_.
          bind_res (each_res (\<lambda>(k, v). require (opt_str_of (dget ev k) = v)
                (LeaseError ''evidence_mismatch'' (''plan authorization '' @ k @ '' mismatch'')))
              [(''canonical_args_hash'', Some (b_args_hash b)), (''target_ref'', Some (b_target b)),
               (''requester_user_id'', Some (uuid_str (b_requester b))), (''session_id'', b_session b),
               (''runtime_task_id'', map_option uuid_str (b_task b))]) (\<lambda>_.
          bind_res (require (raw_text (dget (ar_receipt row) ''evidence_id'') = raw_text (dget ev ''evidence_id''))
            (LeaseError ''evidence_mismatch'' ''plan authorization evidence id mismatch'')) (\<lambda>_.
          bind_res (require (raw_text (dget (ar_receipt row) ''canonical_args_hash'') = b_args_hash b)
            (LeaseError ''corrupt_receipt'' ''plan authorization receipt hash mismatch'')) (\<lambda>_.
          bind_res (require (case plans db plan of None \<Rightarrow> False | Some p \<Rightarrow> p_status p = ''confirmed'')
            (LeaseError ''plan_not_confirmed'' ''plan authorization source is not confirmed'')) (\<lambda>_.
          bind_res (require (case plans db plan of None \<Rightarrow> False
                | Some p \<Rightarrow> p_version p = b_version b \<and> opt_text (p_hash p) = b_hash b)
            (LeaseError ''plan_drift'' ''plan authorization source has drifted'')) (\<lambda>_.
          Inr (lease_from_row row b)))))))))))))))))"

section \<open>Canonical actions ignore proofs\<close>

lemma filter_update_proof:
  "k \<in> set PROOF_FIELDS \<Longrightarrow>
     filter (\<lambda>kv. fst kv \<notin> set PROOF_FIELDS) (AList.update k v d)
       = filter (\<lambda>kv. fst kv \<notin> set PROOF_FIELDS) d"
  by (induction d) auto

lemma canonical_dict_eq:
  "canonical_action_artifact (PDict d) = PDict (sort_key fst (map
     (\<lambda>kv. (fst kv, canonical_action_artifact (snd kv))) (filter (\<lambda>kv. fst kv \<notin> set PROOF_FIELDS) d)))"
  by (simp add: filter_sort filter_map comp_def)

lemma canonical_update_proof:
  "k \<in> set PROOF_FIELDS \<Longrightarrow>
     canonical_action_artifact (PDict (AList.update k v d)) = canonical_action_artifact (PDict d)"
  unfolding canonical_dict_eq by (simp add: filter_update_proof)

lemma canonical_idem [simp]:
  "canonical_action_artifact (canonical_action_artifact v) = canonical_action_artifact v"
proof (induction v rule: canonical_action_artifact.induct)
  case (1 d)
  let ?f = "\<lambda>kv. (fst kv, canonical_action_artifact (snd kv))"
  let ?xs = "filter (\<lambda>kv. fst kv \<notin> set PROOF_FIELDS) (sort_key fst (map ?f d))"
  have "map ?f ?xs = ?xs"
    using 1 by (intro map_idI) auto
  moreover have "sort_key fst ?xs = ?xs"
    by (rule sort_key_id_if_sorted) (simp add: sorted_filter)
  ultimately have "filter (\<lambda>kv. fst kv \<notin> set PROOF_FIELDS) (sort_key fst (map ?f ?xs)) = ?xs"
    by (simp only: filter_filter conj_absorb)
  then show ?case by (simp only: canonical_action_artifact.simps)
qed simp_all

text \<open>
  Stamping the provenance of a confirmed plan, with or without its authorization
  evidence, onto an artifact leaves its canonical action unchanged: the stamped artifact is
  still exactly the action the lease was issued for. Canonicalising is idempotent.
\<close>

theorem stamp_keeps_canonical_action:
  "canonical_action_artifact (PDict (stamp_confirmed_plan_provenance (Some d) pid ver h lid ah tr ru sid tid ev))
     = canonical_action_artifact (PDict d)
   \<and> canonical_action_artifact (canonical_action_artifact v) = canonical_action_artifact v"
proof -
  have "{''plan_id'', ''plan_version'', ''plan_hash'', ''plan_authorization''} \<subseteq> set PROOF_FIELDS"
    by (simp add: PROOF_FIELDS_def)
  then show ?thesis
    by (simp add: stamp_confirmed_plan_provenance_def Let_def canonical_update_proof
        del: canonical_action_artifact.simps split: option.splits)
qed

section \<open>Well-formed bindings\<close>

declare canonical_json.simps [simp del] canonical_action_artifact.simps [simp del]

definition wf_binding :: "(string \<Rightarrow> string) \<Rightarrow> lease_binding \<Rightarrow> bool" where
  "wf_binding sha b \<longleftrightarrow>
     py_strip (b_kind b) = b_kind b \<and> b_kind b \<noteq> []
   \<and> py_strip (b_target b) = b_target b \<and> b_target b \<noteq> []
   \<and> py_strip (b_hash b) = b_hash b \<and> b_hash b \<noteq> []
   \<and> (\<forall>s. b_session b = Some s \<longrightarrow> py_strip s = s \<and> s \<noteq> [] \<and> b_task b = None)
   \<and> canonical_action_artifact (PDict (b_artifact b)) = PDict (b_artifact b)
   \<and> b_args_hash b = sha (canonical_json (PDict (b_artifact b)))
   \<and> (b_context_type b, b_context_ref b) = execution_context (b_plan b) (b_session b) (b_task b)
   \<and> b_key b = ''plan-lease:'' @ sha (canonical_json (PDict (lease_preimage (b_tenant b) (b_agent b)
        (b_plan b) (b_version b) (b_hash b) (b_requester b) (b_confirmer b)
        (b_context_type b, b_context_ref b) (b_kind b) (b_target b) (b_args_hash b))))"

lemma need_uuid_Inr [simp]: "need_uuid f v = Inr u \<longleftrightarrow> parse_id v = Some u"
  by (auto simp: need_uuid_def split: option.splits)

lemma as_dict_Some [simp]: "as_dict v = Some d \<longleftrightarrow> v = PDict d"
  by (cases v) auto

lemma lift_py_Inr [simp]: "lift_py m = Inr x \<longleftrightarrow> m = Inr x"
  by (auto simp: lift_py_def split: sum.splits)

definition clean_session :: "string option \<Rightarrow> string option" where
  "clean_session sid = (let s = py_strip (opt_text sid) in if s = [] then None else Some s)"

lemma build_binding_fields:
  assumes "build_plan_authorization_binding sha t a p v h r c sid tid k tr art = Inr b"
  shows "parse_id t = Some (b_tenant b)" "parse_id a = Some (b_agent b)" "parse_id p = Some (b_plan b)"
    "parse_id r = Some (b_requester b)" "parse_id c = Some (b_confirmer b)"
    "b_version b = v" "b_hash b = py_strip h" "b_session b = clean_session sid"
    "b_kind b = py_strip k" "b_target b = py_strip tr"
    "canonical_action_artifact art = PDict (b_artifact b)"
  using assms
  by (auto simp: build_plan_authorization_binding_def Let_def clean_session_def
      split: option.splits if_splits)

lemma build_binding_wf:
  assumes "build_plan_authorization_binding sha t a p v h r c sid tid k tr art = Inr b"
  shows "wf_binding sha b"
proof -
  have "canonical_action_artifact (PDict (b_artifact b)) = PDict (b_artifact b)"
    using build_binding_fields(11) [OF assms] canonical_idem by metis
  then show ?thesis
    using assms unfolding wf_binding_def
    by (auto simp: build_plan_authorization_binding_def Let_def
        split: option.splits if_splits)
qed

lemma rebuild_binding:
  assumes wf: "wf_binding sha b"
    and ids: "parse_id t = Some (b_tenant b)" "parse_id a = Some (b_agent b)" "parse_id p = Some (b_plan b)"
      "parse_id r = Some (b_requester b)" "parse_id c = Some (b_confirmer b)"
      "tid = IdNone \<and> b_task b = None \<or> tid \<noteq> IdNone \<and> b_session b = None \<and> b_task b \<noteq> None \<and> parse_id tid = b_task b
        \<or> b_session b \<noteq> None"
    and "clean_session sid = b_session b"
    and "canonical_action_artifact art = PDict (b_artifact b)"
  shows "build_plan_authorization_binding sha t a p (b_version b) (b_hash b) r c sid tid (b_kind b) (b_target b) art
     = Inr b"
proof -
  have need: "need_uuid f t = Inr (b_tenant b)" "need_uuid f a = Inr (b_agent b)" "need_uuid f p = Inr (b_plan b)"
    "need_uuid f r = Inr (b_requester b)" "need_uuid f c = Inr (b_confirmer b)" for f
    using ids by simp_all
  have session: "(let s = py_strip (opt_text sid) in if s = [] then None else Some s) = b_session b"
    using assms(8) by (simp add: clean_session_def)
  have task: "(if tid \<noteq> IdNone \<and> b_session b = None
      then map_sum id Some (need_uuid ''runtime_task_id'' tid) else Inr None)
      = (Inr (b_task b) :: (lease_exn, uuid option) res)"
    using ids(6) wf by (auto simp: wf_binding_def need_uuid_def split: option.splits)
  have strip: "py_strip (b_kind b) = b_kind b" "py_strip (b_target b) = b_target b" "py_strip (b_hash b) = b_hash b"
    and ne: "b_kind b \<noteq> []" "b_target b \<noteq> []" "b_hash b \<noteq> []"
    using wf by (simp_all add: wf_binding_def)
  have ctx: "execution_context (b_plan b) (b_session b) (b_task b) = (b_context_type b, b_context_ref b)"
    and args: "sha (canonical_json (PDict (b_artifact b))) = b_args_hash b"
    and key: "''plan-lease:'' @ sha (canonical_json (PDict (lease_preimage (b_tenant b) (b_agent b)
        (b_plan b) (b_version b) (b_hash b) (b_requester b) (b_confirmer b)
        (b_context_type b, b_context_ref b) (b_kind b) (b_target b) (b_args_hash b)))) = b_key b"
    using wf by (simp_all add: wf_binding_def)
  show ?thesis
    unfolding build_plan_authorization_binding_def Let_def session [unfolded Let_def]
    by (simp add: need task strip ne assms(9) ctx args key [simplified]
        del: need_uuid_Inr)
qed

section \<open>Consumption fails closed\<close>

lemma check_plan_Inr [decide]:
  "check_consumed_plan db rq agent plan_id now = Inr (v, h, c) \<longleftrightarrow>
     (\<exists>plan. plans db plan_id = Some plan \<and> p_agent plan = agent \<and> p_status plan = ''confirmed''
        \<and> (\<forall>t. p_expires_at plan = Some t \<longrightarrow> now < t)
        \<and> c_version rq \<in> {None, Some (p_version plan)}
        \<and> c_hash rq \<in> {None, Some (opt_text (p_hash plan))}
        \<and> v = p_version plan \<and> h = opt_text (p_hash plan)
        \<and> c = (if c_confirmer rq \<in> {IdNone, IdText []} then id_opt (p_confirmed_by plan)
                else c_confirmer rq) \<and> c \<noteq> IdNone)"
  by (auto simp: check_consumed_plan_def Let_def split: option.splits if_splits)

definition ticket_open ::
  "(string \<Rightarrow> string) \<Rightarrow> approval_row \<Rightarrow> lease_binding \<Rightarrow> int \<Rightarrow> bool" where
  "ticket_open sha row b now \<longleftrightarrow>
     ar_tenant row = b_tenant b \<and> ar_agent row = b_agent b
   \<and> ar_requested_by row = Some (b_requester b) \<and> ar_resolved_by row = Some (b_confirmer b)
   \<and> ar_status row = ''approved'' \<and> (\<exists>t. ar_expires_at row = Some t \<and> now < t)
   \<and> ar_consumed_at row = None
   \<and> py_int (py_or (dget (ar_details row) ''max_uses'') (PInt 0)) = Inr 1
   \<and> py_int (py_or (dget (ar_details row) ''use_count'') (PInt 0)) = Inr 0
   \<and> ar_input_hash row = Some (ticket_hash sha b)
   \<and> ar_snapshot_hash row = Some (hash_policy_snapshot sha (ticket_policy_snapshot b))"

lemma case_some: "(case x of None \<Rightarrow> False | Some t \<Rightarrow> P t) \<longleftrightarrow> (\<exists>t. x = Some t \<and> P t)"
  by (cases x) auto

lemma use_count_checked:
  "(\<exists>m. M = Inr m \<and> (\<exists>u. (if m \<noteq> 1 then Inr False else bind_res (lift_py U) (\<lambda>c. Inr (c = n))) = Inr u \<and> u \<and> P))
     \<longleftrightarrow> M = Inr (1::int) \<and> U = Inr (n::int) \<and> P"
  by auto

lemma check_ticket_Inr:
  "check_ticket sha row b t a r e now res = Inr x \<longleftrightarrow>
     x = (ar_consumed_at row \<noteq> None)
   \<and> ar_tenant row = t \<and> ar_agent row = a \<and> ar_requested_by row = Some r
   \<and> ar_resolved_by row = Some (b_confirmer b) \<and> ar_status row = ''approved''
   \<and> (\<exists>t. ar_expires_at row = Some t \<and> now < t)
   \<and> (ar_consumed_at row = None \<or> res \<and> raw_text (dget (ar_receipt row) ''evidence_id'') = e
        \<and> raw_text (dget (ar_receipt row) ''status'') = ''consumed'')
   \<and> py_int (py_or (dget (ar_details row) ''max_uses'') (PInt 0)) = Inr 1
   \<and> py_int (py_or (dget (ar_details row) ''use_count'') (PInt 0))
        = Inr (if ar_consumed_at row \<noteq> None then 1 else 0)
   \<and> ar_input_hash row = Some (ticket_hash sha b)
   \<and> ar_snapshot_hash row = Some (hash_policy_snapshot sha (ticket_policy_snapshot b))"
  unfolding check_ticket_def Let_def bind_res_Inr require_Inr lift_py_Inr case_some use_count_checked
  by (simp only: sum.inject simp_thms ex_simps use_count_checked) blast

lemma check_ticket_no_resume:
  "check_ticket sha row b t a r e now False = Inr x \<Longrightarrow> \<not> x"
  by (simp add: check_ticket_Inr)

lemma check_ticket_open [decide]:
  "check_ticket sha row b (b_tenant b) (b_agent b) (b_requester b) e now res = Inr False
     \<longleftrightarrow> ticket_open sha row b now"
  unfolding check_ticket_Inr ticket_open_def by auto

text \<open>What a consumption that does not resume amounts to.\<close>

lemma consume_iff:
  assumes "\<not> c_resume rq"
  shows "consume_plan_authorization_lease sha db rq now = Inr (db', l) \<longleftrightarrow>
    (\<exists>b v h c row. check_consumed_plan db rq (b_agent b) (b_plan b) now = Inr (v, h, c)
       \<and> parse_id (c_tenant rq) = Some (b_tenant b) \<and> parse_id (c_agent rq) = Some (b_agent b)
       \<and> parse_id (c_plan rq) = Some (b_plan b) \<and> parse_id (c_requester rq) = Some (b_requester b)
       \<and> build_plan_authorization_binding sha (IdUuid (b_tenant b)) (IdUuid (b_agent b))
           (IdUuid (b_plan b)) v h (IdUuid (b_requester b)) c (c_session rq) (c_task rq) (c_kind rq)
           (c_target rq) (c_artifact rq) = Inr b
       \<and> find_by_key (approvals db) (b_key b) = Some row \<and> ticket_open sha row b now
       \<and> db' = db\<lparr>approvals := put_row (b_key b) (consumed_row row b (c_evidence rq) now) (approvals db)\<rparr>
       \<and> l = lease_from_row (consumed_row row b (c_evidence rq) now) b)"
    (is "?lhs \<longleftrightarrow> ?rhs")
proof
  assume ?lhs
  with assms obtain t a p r v h c b row x where
    ids: "parse_id (c_tenant rq) = Some t" "parse_id (c_agent rq) = Some a"
      "parse_id (c_plan rq) = Some p" "parse_id (c_requester rq) = Some r"
    and plan: "check_consumed_plan db rq a p now = Inr (v, h, c)"
    and b: "build_plan_authorization_binding sha (IdUuid t) (IdUuid a) (IdUuid p) v h (IdUuid r) c
        (c_session rq) (c_task rq) (c_kind rq) (c_target rq) (c_artifact rq) = Inr b"
    and row: "find_by_key (approvals db) (b_key b) = Some row"
    and x: "check_ticket sha row b t a r (c_evidence rq) now False = Inr x"
    and out: "(if x then Inr (db, lease_from_row row b) else
        Inr (db\<lparr>approvals := put_row (b_key b) (consumed_row row b (c_evidence rq) now) (approvals db)\<rparr>,
          lease_from_row (consumed_row row b (c_evidence rq) now) b)) = (Inr (db', l) :: (lease_exn, plan_db \<times> lease) res)"
    unfolding consume_plan_authorization_lease_def Let_def by (auto split: option.splits)
  have eqs: "t = b_tenant b" "a = b_agent b" "p = b_plan b" "r = b_requester b"
    using build_binding_fields(1-4) [OF b] by simp_all
  have "\<not> x" using check_ticket_no_resume [OF x] .
  with x eqs have "ticket_open sha row b now"
    using check_ticket_open [of sha row b "c_evidence rq" now False] by simp
  with ids plan b row out \<open>\<not> x\<close> eqs show ?rhs
    by (intro exI [of _ b] exI [of _ v] exI [of _ h] exI [of _ c] exI [of _ row]) simp
next
  assume ?rhs
  then show ?lhs using assms
    by (auto simp: consume_plan_authorization_lease_def check_ticket_open Let_def)
qed

text \<open>
  Claim C5. Consumption fails closed. When a call consumes a lease, the plan it names is
  stored, belongs to the calling agent, is confirmed and unexpired, has the submitted version
  and hash where those were submitted; the ticket under the recomputed key is approved,
  unexpired, never used before, requested and confirmed by the bound users, and carries the
  digest of exactly this action. Only that ticket changes, and it is marked consumed.
\<close>

theorem consume_fails_closed:
  assumes "consume_plan_authorization_lease sha db rq now = Inr (db', l)" and "\<not> c_resume rq"
  shows "\<exists>plan row. let b = l_binding l in
      plans db (b_plan b) = Some plan \<and> parse_id (c_plan rq) = Some (b_plan b)
    \<and> parse_id (c_agent rq) = Some (p_agent plan) \<and> parse_id (c_requester rq) = Some (b_requester b)
    \<and> p_status plan = ''confirmed'' \<and> p_expires_at plan \<notin> Some ` {..now}
    \<and> b_version b = p_version plan \<and> c_version rq \<in> {None, Some (p_version plan)}
    \<and> c_hash rq \<in> {None, Some (opt_text (p_hash plan))}
    \<and> canonical_action_artifact (c_artifact rq) = PDict (b_artifact b)
    \<and> b_kind b = py_strip (c_kind rq) \<and> b_target b = py_strip (c_target rq)
    \<and> find_by_key (approvals db) (b_key b) = Some row \<and> ticket_open sha row b now
    \<and> db' = db\<lparr>approvals := put_row (b_key b) (consumed_row row b (c_evidence rq) now) (approvals db)\<rparr>
    \<and> l_consumed l = Some now"
proof -
  from assms obtain b v h c row where
    plan: "check_consumed_plan db rq (b_agent b) (b_plan b) now = Inr (v, h, c)"
    and ids: "parse_id (c_agent rq) = Some (b_agent b)" "parse_id (c_plan rq) = Some (b_plan b)"
      "parse_id (c_requester rq) = Some (b_requester b)"
    and b: "build_plan_authorization_binding sha (IdUuid (b_tenant b)) (IdUuid (b_agent b))
           (IdUuid (b_plan b)) v h (IdUuid (b_requester b)) c (c_session rq) (c_task rq) (c_kind rq)
           (c_target rq) (c_artifact rq) = Inr b"
    and row: "find_by_key (approvals db) (b_key b) = Some row" "ticket_open sha row b now"
    and out: "db' = db\<lparr>approvals := put_row (b_key b) (consumed_row row b (c_evidence rq) now) (approvals db)\<rparr>"
      "l = lease_from_row (consumed_row row b (c_evidence rq) now) b"
    by (auto simp: consume_iff)
  have l: "l_binding l = b" "l_consumed l = Some now"
    by (simp_all add: out lease_from_row_def consumed_row_def Let_def)
  from plan obtain pl where "plans db (b_plan b) = Some pl" "p_agent pl = b_agent b"
    "p_status pl = ''confirmed''" "\<forall>t. p_expires_at pl = Some t \<longrightarrow> now < t" "v = p_version pl"
    "c_version rq \<in> {None, Some (p_version pl)}" "c_hash rq \<in> {None, Some (opt_text (p_hash pl))}"
    unfolding check_plan_Inr by blast
  then show ?thesis
    using ids row out(1) l build_binding_fields(6,9,10,11) [OF b]
    unfolding Let_def by (intro exI [of _ pl] exI [of _ row]) fastforce
qed

section \<open>A lease is used at most once\<close>

text \<open>The unique id and the unique execution key of the approval table.\<close>

definition unique_rows :: "approval_row list \<Rightarrow> bool" where
  "unique_rows rows \<longleftrightarrow> distinct (map ar_id rows)
     \<and> distinct (filter (\<lambda>k. k \<noteq> None) (map ar_key rows))"

definition used_ids :: "approval_row list \<Rightarrow> uuid set" where
  "used_ids rows = ar_id ` {r \<in> set rows. ar_consumed_at r \<noteq> None}"

lemma find_by_key_in: "find_by_key rows k = Some r \<Longrightarrow> r \<in> set rows \<and> ar_key r = Some k"
  by (auto simp: find_by_key_def find_Some_iff)

lemma unique_key:
  assumes "unique_rows rows" "r \<in> set rows" "r' \<in> set rows" "ar_key r = Some k" "ar_key r' = Some k"
  shows "r = r'"
proof -
  have "distinct (filter (\<lambda>k. k \<noteq> None) (map ar_key rows))" using assms(1) by (simp add: unique_rows_def)
  then show ?thesis using assms(2-5)
  proof (induction rows)
    case (Cons x rows)
    have mem: "Some k \<in> set (filter (\<lambda>k. k \<noteq> None) (map ar_key rows))" if "y \<in> set rows" "ar_key y = Some k" for y
      using that by force
    from Cons.prems(1) have d: "distinct (filter (\<lambda>k. k \<noteq> None) (map ar_key rows))"
      by (auto split: if_splits)
    from Cons.prems(1) mem have x: "y \<notin> set rows" if "ar_key x = Some k" "ar_key y = Some k" for y
      using that by (auto split: if_splits)
    show ?case
      using Cons.prems(2-5) x Cons.IH [OF d] by auto
  qed simp
qed

lemma unique_id:
  "unique_rows rows \<Longrightarrow> r \<in> set rows \<Longrightarrow> r' \<in> set rows \<Longrightarrow> ar_id r = ar_id r' \<Longrightarrow> r = r'"
  by (auto simp: unique_rows_def distinct_map dest: inj_onD)

lemma put_row_found:
  assumes "unique_rows rows" and "find_by_key rows k = Some row"
    and "ar_id row' = ar_id row" and "ar_key row' = ar_key row"
  shows "put_row k row' rows = map (\<lambda>r. if r = row then row' else r) rows"
    and "unique_rows (put_row k row' rows)"
proof -
  have row: "row \<in> set rows" "ar_key row = Some k" using find_by_key_in [OF assms(2)] by simp_all
  then show eq: "put_row k row' rows = map (\<lambda>r. if r = row then row' else r) rows"
    using unique_key [OF assms(1)] by (auto simp: put_row_def)
  have "map ar_id (put_row k row' rows) = map ar_id rows" "map ar_key (put_row k row' rows) = map ar_key rows"
    unfolding eq using assms(3,4) by auto
  then show "unique_rows (put_row k row' rows)" using assms(1) by (simp add: unique_rows_def)
qed

lemma used_ids_consumed:
  assumes "unique_rows rows" and "find_by_key rows k = Some row" and "ar_consumed_at row = None"
  shows "used_ids (put_row k (consumed_row row b ev now) rows) = insert (ar_id row) (used_ids rows)"
    and "ar_id row \<notin> used_ids rows"
proof -
  have row: "row \<in> set rows" using find_by_key_in [OF assms(2)] by simp
  have eq: "put_row k (consumed_row row b ev now) rows
      = map (\<lambda>r. if r = row then consumed_row row b ev now else r) rows"
    by (rule put_row_found(1) [OF assms(1,2)]) (simp_all add: consumed_row_def)
  have "{r \<in> set (map (\<lambda>r. if r = row then consumed_row row b ev now else r) rows). ar_consumed_at r \<noteq> None}
      = insert (consumed_row row b ev now) {r \<in> set rows. ar_consumed_at r \<noteq> None}"
    using row assms(3) by (auto simp: consumed_row_def)
  then show "used_ids (put_row k (consumed_row row b ev now) rows) = insert (ar_id row) (used_ids rows)"
    unfolding eq used_ids_def by (simp add: consumed_row_def)
  show "ar_id row \<notin> used_ids rows"
    using unique_id [OF assms(1) row] assms(3) by (auto simp: used_ids_def)
qed

lemma consume_step:
  assumes "consume_plan_authorization_lease sha db rq now = Inr (db', l)" and "\<not> c_resume rq"
    and "unique_rows (approvals db)"
  shows "l_id l \<notin> used_ids (approvals db)"
    and "used_ids (approvals db') = insert (l_id l) (used_ids (approvals db))"
    and "unique_rows (approvals db')"
proof -
  from assms(1,2) obtain b row where row: "find_by_key (approvals db) (b_key b) = Some row"
      "ar_consumed_at row = None"
    and out: "db' = db\<lparr>approvals := put_row (b_key b) (consumed_row row b (c_evidence rq) now) (approvals db)\<rparr>"
      "l = lease_from_row (consumed_row row b (c_evidence rq) now) b"
    by (auto simp: consume_iff ticket_open_def)
  have l: "l_id l = ar_id row" by (simp add: out lease_from_row_def consumed_row_def Let_def)
  show "l_id l \<notin> used_ids (approvals db)"
    "used_ids (approvals db') = insert (l_id l) (used_ids (approvals db))"
    using used_ids_consumed [OF assms(3) row] by (simp_all add: l out(1))
  show "unique_rows (approvals db')"
    using put_row_found(2) [OF assms(3) row(1)] by (simp add: out(1) consumed_row_def)
qed

lemma issue_one_step:
  assumes "issue_one sha mint now (rows, ls) spec = Inr (rows', ls')"
  shows "rows' = rows \<or> find_by_key rows (b_key (sp_binding spec)) = None
           \<and> mint rows \<notin> ar_id ` set rows
           \<and> rows' = rows @ [new_ticket sha (mint rows) now spec]"
  using assms by (auto simp: issue_one_def new_ticket_def Let_def split: option.splits if_splits)

lemma new_ticket_keeps:
  assumes "unique_rows rows" and "mint rows \<notin> ar_id ` set rows"
    and "find_by_key rows (b_key (sp_binding spec)) = None"
  shows "unique_rows (rows @ [new_ticket sha (mint rows) now spec])"
    and "used_ids (rows @ [new_ticket sha (mint rows) now spec]) = used_ids rows"
proof -
  have "Some (b_key (sp_binding spec)) \<notin> ar_key ` set rows"
    using assms(3) by (force simp: find_by_key_def find_None_iff)
  then show "unique_rows (rows @ [new_ticket sha (mint rows) now spec])"
    using assms(1,2) by (auto simp: unique_rows_def new_ticket_def Let_def)
  show "used_ids (rows @ [new_ticket sha (mint rows) now spec]) = used_ids rows"
    by (auto simp: used_ids_def new_ticket_def Let_def)
qed

lemma issue_step:
  assumes "issue_plan_authorization_leases sha mint db plan u now = Inr (db', ls)"
    and "unique_rows (approvals db)"
  shows "unique_rows (approvals db') \<and> used_ids (approvals db') = used_ids (approvals db)"
proof -
  from assms(1) obtain specs rows ls' where
    "fold_res (issue_one sha mint now) (approvals db, []) specs = Inr (rows, ls')"
    and db': "db' = db\<lparr>approvals := rows\<rparr>"
    by (auto simp: issue_plan_authorization_leases_def)
  from this(1) have "unique_rows (fst (rows, ls')) \<and> used_ids (fst (rows, ls')) = used_ids (approvals db)"
  proof (rule fold_res_invariant)
    fix s spec s'
    assume s: "unique_rows (fst s) \<and> used_ids (fst s) = used_ids (approvals db)"
      and step: "issue_one sha mint now s spec = Inr s'"
    have "issue_one sha mint now (fst s, snd s) spec = Inr (fst s', snd s')" using step by simp
    from issue_one_step [OF this]
    show "unique_rows (fst s') \<and> used_ids (fst s') = used_ids (approvals db)"
      using s new_ticket_keeps [of "fst s" mint spec sha now] by auto
  qed (simp add: assms(2))
  then show ?thesis by (simp add: db')
qed

text \<open>Requests in any order: issuing for a plan, and consuming without resuming.\<close>

datatype lease_call =
    Issue plan_row idval int
  | Consume consume_request int

fun lease_run ::
  "(string \<Rightarrow> string) \<Rightarrow> (approval_row list \<Rightarrow> uuid) \<Rightarrow> plan_db \<Rightarrow> lease_call list \<Rightarrow> uuid list" where
  "lease_run sha mint db [] = []"
| "lease_run sha mint db (Issue plan u now # cs) =
     (case issue_plan_authorization_leases sha mint db plan u now of
        Inl _ \<Rightarrow> lease_run sha mint db cs
      | Inr (db', _) \<Rightarrow> lease_run sha mint db' cs)"
| "lease_run sha mint db (Consume rq now # cs) =
     (case consume_plan_authorization_lease sha db (rq\<lparr>c_resume := False\<rparr>) now of
        Inl _ \<Rightarrow> lease_run sha mint db cs
      | Inr (db', l) \<Rightarrow> l_id l # lease_run sha mint db' cs)"

text \<open>
  Claim C1. In any sequence of issuing and consuming calls, from any ledger whose ids and keys
  are unique, every lease is consumed at most once, and none that was already used.
\<close>

theorem leases_are_single_use:
  assumes "unique_rows (approvals db)"
  shows "distinct (lease_run sha mint db calls)
     \<and> set (lease_run sha mint db calls) \<inter> used_ids (approvals db) = {}"
  using assms
proof (induction calls arbitrary: db)
  case (Cons c cs)
  show ?case
  proof (cases c)
    case (Issue plan u now)
    show ?thesis
    proof (cases "issue_plan_authorization_leases sha mint db plan u now")
      case (Inr r)
      obtain db' ls where r: "r = (db', ls)" by (cases r)
      show ?thesis
        using issue_step [OF Inr [unfolded r] Cons.prems] Cons.IH [of db'] Inr r Issue by simp
    qed (use Cons Issue in simp)
  next
    case (Consume rq now)
    let ?c = "consume_plan_authorization_lease sha db (rq\<lparr>c_resume := False\<rparr>) now"
    show ?thesis
    proof (cases ?c)
      case (Inr r)
      obtain db' l where r: "r = (db', l)" by (cases r)
      have "\<not> c_resume (rq\<lparr>c_resume := False\<rparr>)" by simp
      from consume_step [OF Inr [unfolded r] this Cons.prems] Cons.IH [of db'] show ?thesis
        using Inr r Consume by simp
    qed (use Cons Consume in simp)
  qed
qed simp

section \<open>Issue, consume, verify\<close>

text \<open>The call of \<open>handoff_confirmed_plan\<close> that consumes the plan's own handoff lease.\<close>

definition handoff_request :: "plan_row \<Rightarrow> string \<Rightarrow> bool \<Rightarrow> consume_request" where
  "handoff_request plan evidence_id resume =
     (let sc = handoff_scope plan in
      \<lparr>c_tenant = id_opt (p_tenant plan), c_agent = IdUuid (p_agent plan), c_plan = IdUuid (p_id plan),
       c_requester = id_opt (p_requested_by plan), c_session = p_session plan, c_task = id_opt (p_task plan),
       c_kind = sc_kind sc, c_target = sc_target sc, c_artifact = PDict (sc_arguments sc),
       c_evidence = evidence_id, c_confirmer = id_opt (p_confirmed_by plan),
       c_version = Some (p_version plan), c_hash = p_hash plan, c_resume = resume\<rparr>)"

text \<open>The evidence \<open>handoff_confirmed_plan\<close> stamps on the plan after consuming a lease.\<close>

definition active_evidence :: "lease \<Rightarrow> string \<Rightarrow> (string \<times> pyval) list" where
  "active_evidence l evidence_id =
     [(''schema'', PStr EVIDENCE_SCHEMA),
      (''lease_id'', PStr (uuid_str (l_id l))),
      (''canonical_args_hash'', PStr (b_args_hash (l_binding l))),
      (''target_ref'', PStr (b_target (l_binding l))),
      (''requester_user_id'', PStr (uuid_str (b_requester (l_binding l)))),
      (''session_id'', opt_pstr (b_session (l_binding l))),
      (''runtime_task_id'', opt_uuid (b_task (l_binding l))),
      (''evidence_id'', PStr evidence_id)]"

definition handoff_binding :: "(string \<Rightarrow> string) \<Rightarrow> plan_row \<Rightarrow> (lease_exn, lease_binding) res" where
  "handoff_binding sha plan =
     (let sc = handoff_scope plan in
      build_plan_authorization_binding sha (id_opt (p_tenant plan)) (IdUuid (p_agent plan)) (IdUuid (p_id plan))
        (p_version plan) (opt_text (p_hash plan)) (id_opt (p_requested_by plan)) (id_opt (p_confirmed_by plan))
        (p_session plan) (id_opt (p_task plan)) (sc_kind sc) (sc_target sc) (PDict (sc_arguments sc)))"

lemma build_strip:
  "build_plan_authorization_binding sha t a p v h r c sid tid (py_strip k) (py_strip tr) art
     = build_plan_authorization_binding sha t a p v h r c sid tid k tr art"
  by (simp add: build_plan_authorization_binding_def Let_def)

lemma py_or_PStr [simp]: "py_or (PStr s) (PStr []) = PStr s"
  by (simp add: py_or_def)

lemma raw_text_simps [simp]: "raw_text (PStr s) = s" "raw_text PNone = []"
  by (simp_all add: raw_text_def py_or_def)

lemma strip_visible: "c \<in> set s \<Longrightarrow> \<not> py_space c \<Longrightarrow> py_strip s \<noteq> []"
  by (auto simp: py_strip_empty)

lemma handoff_scope_visible:
  "py_strip (sc_kind (handoff_scope plan)) \<noteq> []" "py_strip (sc_target (handoff_scope plan)) \<noteq> []"
  "py_strip (sc_summary (handoff_scope plan)) \<noteq> []"
proof -
  have "CHR ''a'' \<in> set (sc_kind (handoff_scope plan)) \<or> CHR ''n'' \<in> set (sc_kind (handoff_scope plan))"
    by (auto simp: handoff_scope_def HANDOFF_ACTION_BY_TARGET_def Let_def split: if_splits option.splits)
  moreover have "\<not> py_space (CHR ''a'')" "\<not> py_space (CHR ''n'')" "\<not> py_space (CHR ''p'')" "\<not> py_space (CHR ''E'')"
    by (simp_all add: py_space_def)
  moreover have "CHR ''p'' \<in> set (sc_target (handoff_scope plan))" "CHR ''E'' \<in> set (sc_summary (handoff_scope plan))"
    by (simp_all add: handoff_scope_def Let_def)
  ultimately show "py_strip (sc_kind (handoff_scope plan)) \<noteq> []" "py_strip (sc_target (handoff_scope plan)) \<noteq> []"
    "py_strip (sc_summary (handoff_scope plan)) \<noteq> []"
    using strip_visible by blast+
qed

lemma canonical_dict_is_dict: "\<exists>d'. canonical_action_artifact (PDict d) = PDict d'"
  by (simp add: canonical_dict_eq)

lemma handoff_binding_built:
  assumes "p_tenant plan = Some t" "p_requested_by plan = Some r" "p_confirmed_by plan = Some u"
    and "py_strip (opt_text (p_hash plan)) \<noteq> []"
  shows "\<exists>b. handoff_binding sha plan = Inr b"
  using assms handoff_scope_visible [of plan] canonical_dict_is_dict [of "sc_arguments (handoff_scope plan)"]
  by (cases "p_task plan")
    (auto simp: handoff_binding_def build_plan_authorization_binding_def need_uuid_def Let_def)

lemma scope_spec:
  assumes "p_confirmed_by plan = Some u"
  shows "spec_of_scope sha plan (IdUuid u) e (scope_value (handoff_scope plan))
    = bind_res (handoff_binding sha plan) (\<lambda>b. Inr \<lparr>sp_binding = b,
        sp_summary = py_strip (sc_summary (handoff_scope plan)), sp_expires = e\<rparr>)"
  using assms handoff_scope_visible [of plan]
  by (simp add: spec_of_scope_def scope_value_def dget_def has_key_def handoff_binding_def build_strip
      py_or_def lift_py_def Let_def)

definition lease_deadline :: "plan_row \<Rightarrow> int \<Rightarrow> int" where
  "lease_deadline plan now = (case p_expires_at plan of Some t \<Rightarrow> t | None \<Rightarrow> now + DEFAULT_LEASE_TTL)"

lemma issue_handoff_lease:
  assumes "p_status plan = ''confirmed''" "p_confirmed_by plan = Some u"
    and "dget (p_json plan) ''authorization_scopes'' = PNone"
    and "handoff_binding sha plan = Inr b" and "now < lease_deadline plan now"
    and "find_by_key (approvals db) (b_key b) = None" and "mint (approvals db) \<notin> ar_id ` set (approvals db)"
  defines "row \<equiv> new_ticket sha (mint (approvals db)) now \<lparr>sp_binding = b,
      sp_summary = py_strip (sc_summary (handoff_scope plan)), sp_expires = lease_deadline plan now\<rparr>"
  shows "issue_plan_authorization_leases sha mint db plan (IdUuid u) now
     = Inr (db\<lparr>approvals := approvals db @ [row]\<rparr>, [lease_from_row row b])"
  using assms(1,3-7) scope_spec [OF assms(2), of sha]
  by (simp add: issue_plan_authorization_leases_def build_plan_authorization_specs_def plan_scopes_def
      add_spec_def issue_one_def row_def lease_deadline_def [symmetric] Let_def)
     (simp add: new_ticket_def Let_def)

lemma binding_from_ticket_wf:
  assumes "wf_binding sha b" and "ar_arguments row = normalized_ticket_arguments b"
  shows "binding_from_ticket sha row = Inr b"
proof -
  have args: "dget (ar_arguments row) ''binding'' = PDict (binding_payload b)"
    "dget (ar_arguments row) ''action_artifact'' = PDict (b_artifact b)"
    by (simp_all add: assms(2) normalized_ticket_arguments_def dget_def)
  have pay: "dget (binding_payload b) ''tenant_id'' = PStr (uuid_str (b_tenant b))"
    "dget (binding_payload b) ''agent_id'' = PStr (uuid_str (b_agent b))"
    "dget (binding_payload b) ''plan_id'' = PStr (uuid_str (b_plan b))"
    "dget (binding_payload b) ''plan_version'' = PInt (b_version b)"
    "dget (binding_payload b) ''plan_hash'' = PStr (b_hash b)"
    "dget (binding_payload b) ''requester_user_id'' = PStr (uuid_str (b_requester b))"
    "dget (binding_payload b) ''confirmed_by_user_id'' = PStr (uuid_str (b_confirmer b))"
    "dget (binding_payload b) ''session_id'' = opt_pstr (b_session b)"
    "dget (binding_payload b) ''runtime_task_id'' = opt_uuid (b_task b)"
    "dget (binding_payload b) ''action_kind'' = PStr (b_kind b)"
    "dget (binding_payload b) ''target_ref'' = PStr (b_target b)"
    by (simp_all add: binding_payload_def dget_def)
  have int: "py_int (py_or (PInt i) (PInt 0)) = Inr i" for i
    by (simp add: py_or_def)
  have session: "(case opt_pstr (b_session b) of PNone \<Rightarrow> None | v \<Rightarrow> Some (raw_text v)) = b_session b"
    by (simp add: opt_pstr_def split: option.splits)
  have clean: "clean_session (b_session b) = b_session b"
    using assms(1) by (cases "b_session b") (auto simp: clean_session_def wf_binding_def opt_text_def)
  have task: "id_of_pyval (opt_uuid (b_task b)) = IdNone \<and> b_task b = None
      \<or> id_of_pyval (opt_uuid (b_task b)) \<noteq> IdNone \<and> b_session b = None \<and> b_task b \<noteq> None
          \<and> parse_id (id_of_pyval (opt_uuid (b_task b))) = b_task b
      \<or> b_session b \<noteq> None"
    by (cases "b_task b"; cases "b_session b") (auto simp: opt_uuid_def)
  have "build_plan_authorization_binding sha (IdText (uuid_str (b_tenant b))) (IdText (uuid_str (b_agent b)))
     (IdText (uuid_str (b_plan b))) (b_version b) (b_hash b) (IdText (uuid_str (b_requester b)))
     (IdText (uuid_str (b_confirmer b))) (b_session b) (id_of_pyval (opt_uuid (b_task b)))
     (b_kind b) (b_target b) (PDict (b_artifact b)) = Inr b"
    by (rule rebuild_binding [OF assms(1)]) (use task clean assms(1) in \<open>simp_all add: wf_binding_def\<close>)
  then show ?thesis
    unfolding binding_from_ticket_def args
    by (simp add: pay int lift_py_def session)
qed

lemma verify_consumed_row:
  assumes wf: "wf_binding sha b" and row: "find (\<lambda>r. ar_id r = ar_id row) (approvals db) = Some row"
    and "ar_action_type row = LEASE_ACTION_TYPE" "ar_arguments row = normalized_ticket_arguments b"
    and "ar_tenant row = b_tenant b" "ar_agent row = b_agent b" "ar_status row = ''approved''"
    and "ar_consumed_at row \<noteq> None" "ar_execution_status row = ''succeeded''"
    and "dget (ar_receipt row) ''evidence_id'' = PStr ev"
    and "dget (ar_receipt row) ''canonical_args_hash'' = PStr (b_args_hash b)"
    and "plans db (b_plan b) = Some plan" "p_status plan = ''confirmed''" "p_version plan = b_version b"
      "opt_text (p_hash plan) = b_hash b"
  shows "verify_consumed_plan_authorization_lease sha db (IdUuid (b_tenant b)) (IdUuid (b_agent b))
     (IdUuid (b_plan b)) (PDict (active_evidence (lease_from_row row b) ev)) = Inr (lease_from_row row b)"
proof -
  let ?l = "lease_from_row row b"
  have l: "l_id ?l = ar_id row" "l_binding ?l = b" by (simp_all add: lease_from_row_def Let_def)
  have e: "dget (active_evidence ?l ev) ''schema'' = PStr EVIDENCE_SCHEMA"
    "dget (active_evidence ?l ev) ''lease_id'' = PStr (uuid_str (ar_id row))"
    "dget (active_evidence ?l ev) ''canonical_args_hash'' = PStr (b_args_hash b)"
    "dget (active_evidence ?l ev) ''target_ref'' = PStr (b_target b)"
    "dget (active_evidence ?l ev) ''requester_user_id'' = PStr (uuid_str (b_requester b))"
    "dget (active_evidence ?l ev) ''session_id'' = opt_pstr (b_session b)"
    "dget (active_evidence ?l ev) ''runtime_task_id'' = opt_uuid (b_task b)"
    "dget (active_evidence ?l ev) ''evidence_id'' = PStr ev"
    by (simp_all add: active_evidence_def dget_def l)
  have opts: "opt_str_of (PStr s) = Some s" "opt_str_of (opt_pstr x) = x"
    "opt_str_of (opt_uuid y) = map_option uuid_str y" for s x y
    by (cases x; cases y; simp add: opt_str_of_def opt_pstr_def opt_uuid_def)+
  show ?thesis
    using assms(3,5-15) row binding_from_ticket_wf [OF wf assms(4)]
    by (simp add: verify_consumed_plan_authorization_lease_def e opts need_uuid_def)
qed

lemma find_fresh_key:
  assumes "find_by_key rows k = None" and "ar_key r = Some k"
  shows "find_by_key (rows @ [r]) k = Some r" and "put_row k r' (rows @ [r]) = rows @ [r']"
proof -
  have none: "\<forall>x \<in> set rows. ar_key x \<noteq> Some k"
    using assms(1) by (auto simp: find_by_key_def find_None_iff)
  then show "put_row k r' (rows @ [r]) = rows @ [r']"
    using assms(2) by (simp add: put_row_def map_idI)
  have "find P (xs @ ys) = (case find P xs of None \<Rightarrow> find P ys | s \<Rightarrow> s)" for P and xs ys :: "approval_row list"
    by (induction xs) auto
  with assms show "find_by_key (rows @ [r]) k = Some r"
    by (simp add: find_by_key_def)
qed

lemma find_fresh_id: "ar_id r \<notin> ar_id ` set rows \<Longrightarrow> find (\<lambda>x. ar_id x = ar_id r) (rows @ [r]) = Some r"
  by (induction rows) auto

lemma new_ticket_open:
  "now < sp_expires spec \<Longrightarrow> ticket_open sha (new_ticket sha rid t0 spec) (sp_binding spec) now"
  by (simp add: ticket_open_def new_ticket_def py_or_def dget_def Let_def)

lemma handoff_consumes:
  assumes "plans db (p_id plan) = Some plan" and "p_status plan = ''confirmed''"
    and "p_tenant plan = Some t" "p_requested_by plan = Some r" "p_confirmed_by plan = Some u"
    and "p_hash plan = Some h" "now < lease_deadline plan t0" "t0 \<le> now"
    and "handoff_binding sha plan = Inr b" and "find_by_key (approvals db) (b_key b) = Some row"
    and "ticket_open sha row b now"
  shows "consume_plan_authorization_lease sha db (handoff_request plan ev False) now
     = Inr (db\<lparr>approvals := put_row (b_key b) (consumed_row row b ev now) (approvals db)\<rparr>,
            lease_from_row (consumed_row row b ev now) b)"
proof -
  note build = assms(9) [unfolded handoff_binding_def Let_def]
  have fields: "b_tenant b = t" "b_agent b = p_agent plan" "b_plan b = p_id plan" "b_requester b = r"
    using build_binding_fields(1-4) [OF build] assms(3-6) by (simp_all add: opt_text_def)
  have ck: "check_consumed_plan db (handoff_request plan ev False) (b_agent b) (b_plan b) now
      = Inr (p_version plan, h, IdUuid u)"
    unfolding check_plan_Inr using assms(1-8) fields
    by (auto simp: handoff_request_def lease_deadline_def opt_text_def Let_def split: option.splits)
  have res: "\<not> c_resume (handoff_request plan ev False)" by (simp add: handoff_request_def Let_def)
  show ?thesis
    using ck build assms(10,11) fields assms(3-6)
    unfolding consume_iff [OF res]
    by (intro exI [of _ b] exI [of _ "p_version plan"] exI [of _ h] exI [of _ "IdUuid u"] exI [of _ row])
      (simp add: handoff_request_def Let_def opt_text_def)
qed

text \<open>
  Claim C7. A confirmed plan without own scopes, with tenant, requester, confirmer and a clean
  hash, whose handoff key is unused, is issued one lease; up to its deadline the handoff of
  \<open>plan_mode_service\<close> consumes that lease, and the evidence it stamps on the plan then verifies
  against the ledger.
\<close>

theorem handoff_lease_roundtrip:
  assumes "plans db (p_id plan) = Some plan" and "p_status plan = ''confirmed''"
    and "p_tenant plan = Some t" "p_requested_by plan = Some r" "p_confirmed_by plan = Some u"
    and "p_hash plan = Some h" "h \<noteq> []" "py_strip h = h"
    and "dget (p_json plan) ''authorization_scopes'' = PNone"
    and "now \<le> now'" "now' < lease_deadline plan now"
    and "handoff_binding sha plan = Inr b" "find_by_key (approvals db) (b_key b) = None"
    and "mint (approvals db) \<notin> ar_id ` set (approvals db)"
  shows "\<exists>db1 l0 db2 l.
      issue_plan_authorization_leases sha mint db plan (IdUuid u) now = Inr (db1, [l0])
    \<and> l_consumed l0 = None
    \<and> consume_plan_authorization_lease sha db1 (handoff_request plan ev False) now' = Inr (db2, l)
    \<and> l_id l = l_id l0 \<and> l_consumed l = Some now'
    \<and> verify_consumed_plan_authorization_lease sha db2 (IdUuid t) (IdUuid (p_agent plan)) (IdUuid (p_id plan))
        (PDict (active_evidence l ev)) = Inr l"
proof -
  define row where "row = new_ticket sha (mint (approvals db)) now \<lparr>sp_binding = b,
      sp_summary = py_strip (sc_summary (handoff_scope plan)), sp_expires = lease_deadline plan now\<rparr>"
  define row' where "row' = consumed_row row b ev now'"
  let ?db1 = "db\<lparr>approvals := approvals db @ [row]\<rparr>" and ?db2 = "db\<lparr>approvals := approvals db @ [row']\<rparr>"
  have issued: "issue_plan_authorization_leases sha mint db plan (IdUuid u) now
     = Inr (?db1, [lease_from_row row b])"
    unfolding row_def using assms by (intro issue_handoff_lease) simp_all
  note build = assms(12) [unfolded handoff_binding_def Let_def]
  note wf = build_binding_wf [OF build]
  have fields: "b_tenant b = t" "b_agent b = p_agent plan" "b_plan b = p_id plan" "b_requester b = r"
    "b_confirmer b = u" "b_version b = p_version plan" "b_hash b = h"
    using build_binding_fields(1-7) [OF build] assms(3-6,8) by (simp_all add: opt_text_def)
  have row: "ar_key row = Some (b_key b)" "ar_id row = mint (approvals db)" "ar_id row' = mint (approvals db)"
    by (simp_all add: row_def row'_def new_ticket_def consumed_row_def Let_def)
  have open_t: "ticket_open sha row b now'"
    using new_ticket_open [of now' "\<lparr>sp_binding = b, sp_summary = _, sp_expires = lease_deadline plan now\<rparr>"] assms(11)
    by (simp add: row_def)
  have consumed: "consume_plan_authorization_lease sha ?db1 (handoff_request plan ev False) now'
      = Inr (?db2, lease_from_row row' b)"
    using handoff_consumes [of ?db1 plan t r u h now' now sha b row ev] assms(1-6,10-12) open_t
      find_fresh_key(1) [OF assms(13) row(1)] find_fresh_key(2) [OF assms(13) row(1)]
    by (simp add: row'_def)
  have "verify_consumed_plan_authorization_lease sha ?db2 (IdUuid (b_tenant b)) (IdUuid (b_agent b))
     (IdUuid (b_plan b)) (PDict (active_evidence (lease_from_row row' b) ev)) = Inr (lease_from_row row' b)"
  proof (rule verify_consumed_row [OF wf, where plan = plan])
    show "find (\<lambda>r. ar_id r = ar_id row') (approvals ?db2) = Some row'"
      using assms(14) row(3) find_fresh_id [of row' "approvals db"] by simp
  qed (use assms(1,2,6) fields in \<open>simp_all add: row'_def row_def consumed_row_def new_ticket_def dget_def
        opt_text_def Let_def\<close>)
  with issued consumed fields row show ?thesis
    by (intro exI [of _ ?db1] exI [of _ "lease_from_row row b"] exI [of _ ?db2] exI [of _ "lease_from_row row' b"])
      (simp add: lease_from_row_def row_def row'_def new_ticket_def consumed_row_def Let_def)
qed

section \<open>A concrete ledger\<close>

definition sample_plan :: plan_row where
  "sample_plan = \<lparr>p_id = 1, p_tenant = Some 2, p_agent = 3, p_session = Some '' s1 '', p_task = None,
     p_requested_by = Some 4, p_intent = ''delegation'', p_status = ''confirmed'', p_version = 5,
     p_hash = Some ''sha256:ab'',
     p_json = [(''handoff'', PDict [(''target'', PStr ''delegation'')])],
     p_markdown = None, p_handoff_payload = None, p_handoff_status = Some ''not_started'',
     p_confirmed_by = Some 6, p_confirmed_at = Some 10, p_rejected_by = None, p_rejected_at = None,
     p_expires_at = None, p_metadata = []\<rparr>"

definition sample_db :: plan_db where
  "sample_db = \<lparr>plans = (\<lambda>u. if u = 1 then Some sample_plan else None), approvals = []\<rparr>"

theorem handoff_lease_roundtrip_witness:
  "\<exists>db1 l0 db2 l.
      issue_plan_authorization_leases id (\<lambda>_. 7) sample_db sample_plan (IdUuid 6) 10 = Inr (db1, [l0])
    \<and> consume_plan_authorization_lease id db1 (handoff_request sample_plan ''ev'' False) 20 = Inr (db2, l)
    \<and> verify_consumed_plan_authorization_lease id db2 (IdUuid 2) (IdUuid 3) (IdUuid 1)
        (PDict (active_evidence l ''ev'')) = Inr l"
proof -
  have strip: "py_strip ''sha256:ab'' = ''sha256:ab''" by code_simp
  obtain b where b: "handoff_binding id sample_plan = Inr b"
    using handoff_binding_built [of sample_plan 2 4 6 id] strip by (auto simp: sample_plan_def opt_text_def)
  have "\<exists>db1 l0 db2 l.
      issue_plan_authorization_leases id (\<lambda>_. 7) sample_db sample_plan (IdUuid 6) 10 = Inr (db1, [l0])
    \<and> l_consumed l0 = None
    \<and> consume_plan_authorization_lease id db1 (handoff_request sample_plan ''ev'' False) 20 = Inr (db2, l)
    \<and> l_id l = l_id l0 \<and> l_consumed l = Some 20
    \<and> verify_consumed_plan_authorization_lease id db2 (IdUuid 2) (IdUuid (p_agent sample_plan))
        (IdUuid (p_id sample_plan)) (PDict (active_evidence l ''ev'')) = Inr l"
    by (rule handoff_lease_roundtrip [where h = "''sha256:ab''" and b = b])
      (use b strip in \<open>simp_all add: sample_plan_def sample_db_def dget_def lease_deadline_def
        DEFAULT_LEASE_TTL_def find_by_key_def\<close>)
  then show ?thesis by (simp add: sample_plan_def) blast
qed

text \<open>A run in which the sample plan's lease is issued and consumed once.\<close>

definition sample_binding :: lease_binding where
  "sample_binding = (case handoff_binding id sample_plan of Inr b \<Rightarrow> b)"

definition sample_ticket :: approval_row where
  "sample_ticket = new_ticket id 7 10 \<lparr>sp_binding = sample_binding, sp_summary = ''s'', sp_expires = 100\<rparr>"

definition sample_issued :: plan_db where
  "sample_issued = sample_db\<lparr>approvals := [sample_ticket]\<rparr>"

lemma sample_consumed:
  "\<exists>db' l. consume_plan_authorization_lease id sample_issued (handoff_request sample_plan ''ev'' False) 20
     = Inr (db', l) \<and> l_id l = 7"
proof -
  have strip: "py_strip ''sha256:ab'' = ''sha256:ab''" by code_simp
  obtain b where "handoff_binding id sample_plan = Inr b"
    using handoff_binding_built [of sample_plan 2 4 6 id] strip by (auto simp: sample_plan_def opt_text_def)
  then have b: "handoff_binding id sample_plan = Inr sample_binding" by (simp add: sample_binding_def)
  have open_t: "ticket_open id sample_ticket sample_binding 20"
    using new_ticket_open [of 20 "\<lparr>sp_binding = sample_binding, sp_summary = ''s'', sp_expires = 100\<rparr>" id 7 10]
    by (simp add: sample_ticket_def)
  have "find_by_key (approvals sample_issued) (b_key sample_binding) = Some sample_ticket"
    by (simp add: sample_issued_def find_by_key_def sample_ticket_def new_ticket_def Let_def)
  from handoff_consumes [OF _ _ _ _ _ _ _ _ b this open_t, of 2 4 6 "''sha256:ab''" 10 "''ev''"]
  show ?thesis
    by (simp add: sample_plan_def sample_issued_def sample_db_def lease_deadline_def DEFAULT_LEASE_TTL_def
        lease_from_row_def consumed_row_def sample_ticket_def new_ticket_def Let_def)
qed

theorem consume_fails_closed_witness:
  "\<exists>db' l. consume_plan_authorization_lease id sample_issued (handoff_request sample_plan ''ev'' False) 20
     = Inr (db', l) \<and> l_consumed l = Some 20"
proof -
  obtain db' l where c: "consume_plan_authorization_lease id sample_issued (handoff_request sample_plan ''ev'' False) 20
     = Inr (db', l)" using sample_consumed by blast
  have "\<not> c_resume (handoff_request sample_plan ''ev'' False)" by (simp add: handoff_request_def Let_def)
  from consume_fails_closed [OF c this] c show ?thesis by (auto simp: Let_def)
qed

theorem leases_are_single_use_witness:
  "let run = lease_run id (\<lambda>_. 8) sample_issued [Consume (handoff_request sample_plan ''ev'' False) 20,
       Consume (handoff_request sample_plan ''ev'' False) 30]
   in hd run = 7 \<and> distinct run"
proof -
  have "unique_rows (approvals sample_issued)"
    by (simp add: unique_rows_def sample_issued_def sample_ticket_def new_ticket_def Let_def)
  note d = leases_are_single_use [OF this, of id "\<lambda>_. 8"
    "[Consume (handoff_request sample_plan ''ev'' False) 20, Consume (handoff_request sample_plan ''ev'' False) 30]"]
  have "handoff_request sample_plan ''ev'' False\<lparr>c_resume := False\<rparr> = handoff_request sample_plan ''ev'' False"
    by (simp add: handoff_request_def Let_def)
  then have "hd (lease_run id (\<lambda>_. 8) sample_issued [Consume (handoff_request sample_plan ''ev'' False) 20,
      Consume (handoff_request sample_plan ''ev'' False) 30]) = 7"
    using sample_consumed by auto
  with d show ?thesis by (simp add: Let_def del: lease_run.simps)
qed

end
