(* ===== verification/Plan_Gate.thy ===== *)
theory Plan_Gate
  imports Plan_Lease
begin

text \<open>
  The Plan Mode gate of \<open>backend/app/services/plan_mode_gate.py\<close> and the operations of
  \<open>backend/app/services/plan_mode_service.py\<close> that confirm, reject and hand off a plan. The gate
  consumes leases of the ledger of \<open>Plan_Lease\<close>. A service operation that raises rolls its
  transaction back, so its result is the error alone. The artifact resolver, the handoff
  handlers, the reconciliation of a queued native handoff and the writing of the markdown file
  are arguments.
\<close>

section \<open>The gate\<close>

record gate_decision =
  d_allowed :: bool
  d_reason :: string
  d_payload :: "(string \<times> pyval) list option"
  d_exempt_reason :: "string option"
  d_lease_id :: "string option"
  d_args_hash :: "string option"
  d_target_ref :: "string option"
  d_plan_id :: "string option"
  d_plan_version :: "int option"
  d_plan_hash :: "string option"

record gate_request =
  g_agent :: uuid
  g_requester :: idval
  g_session :: "string option"
  g_task :: idval
  g_kind :: string
  g_target :: "string option"
  g_ref :: pyval
  g_plan :: idval
  g_version :: "int option"
  g_hash :: "string option"
  g_artifact :: pyval
  g_evidence :: "string option"
  g_resolver :: "(pyval \<Rightarrow> pyval) option"

definition needs_plan :: "gate_decision \<Rightarrow> bool" where
  "needs_plan d = (\<not> d_allowed d)"

definition blocked :: "string \<Rightarrow> (string \<times> pyval) list \<Rightarrow> gate_decision" where
  "blocked reason payload =
     \<lparr>d_allowed = False, d_reason = reason, d_payload = Some payload, d_exempt_reason = None,
      d_lease_id = None, d_args_hash = None, d_target_ref = None, d_plan_id = None,
      d_plan_version = None, d_plan_hash = None\<rparr>"

definition blocked_for :: "plan_row \<Rightarrow> string \<Rightarrow> string \<Rightarrow> gate_decision" where
  "blocked_for plan reason summary =
     blocked reason (build_confirmation_required_payload (Some (uuid_str (p_id plan)))
       (Some (p_version plan)) (Some summary) None None)"

definition resolve_exempt_reason :: "gate_request \<Rightarrow> string option" where
  "resolve_exempt_reason rq =
     (case extract_plan_exempt_reason (g_artifact rq) of
        Some r \<Rightarrow> Some r
      | None \<Rightarrow>
          (case g_resolver rq of
             None \<Rightarrow> None
           | Some f \<Rightarrow> if g_ref rq = PNone then None else extract_plan_exempt_reason (f (g_ref rq))))"

definition gate_consume_request :: "gate_request \<Rightarrow> plan_row \<Rightarrow> consume_request" where
  "gate_consume_request rq plan =
     \<lparr>c_tenant = id_opt (p_tenant plan), c_agent = IdUuid (g_agent rq), c_plan = IdUuid (p_id plan),
      c_requester = g_requester rq, c_session = g_session rq, c_task = g_task rq,
      c_kind = g_kind rq, c_target = opt_text (g_target rq), c_artifact = g_artifact rq,
      c_evidence = or_default (g_evidence rq)
        (''plan-gate:'' @ uuid_str (p_id plan) @ '':'' @ g_kind rq),
      c_confirmer = id_opt (p_confirmed_by plan), c_version = Some (p_version plan),
      c_hash = p_hash plan, c_resume = False\<rparr>"

definition allowed_by_lease :: "lease \<Rightarrow> gate_decision" where
  "allowed_by_lease l =
     \<lparr>d_allowed = True, d_reason = ''confirmed_plan_lease_consumed'', d_payload = None,
      d_exempt_reason = None, d_lease_id = Some (uuid_str (l_id l)),
      d_args_hash = Some (b_args_hash (l_binding l)), d_target_ref = Some (b_target (l_binding l)),
      d_plan_id = Some (uuid_str (b_plan (l_binding l))),
      d_plan_version = Some (b_version (l_binding l)), d_plan_hash = Some (b_hash (l_binding l))\<rparr>"

text \<open>The branch of a handoff check that passed: the bindings, then the lease.\<close>

definition consume_for_gate ::
  "(string \<Rightarrow> string) \<Rightarrow> plan_db \<Rightarrow> gate_request \<Rightarrow> plan_row \<Rightarrow> int \<Rightarrow> (string, plan_db \<times> gate_decision) res" where
  "consume_for_gate sha db rq plan now =
     (if g_requester rq = IdNone
      then Inr (db, blocked_for plan ''plan_authorization_requester_missing''
             ''The confirmed plan is not bound to an authenticated requester for this action.'')
      else if py_strip (opt_text (g_target rq)) = []
      then Inr (db, blocked_for plan ''plan_authorization_target_missing''
             ''The confirmed plan action has no concrete target binding.'')
      else if as_dict (g_artifact rq) = None
      then Inr (db, blocked_for plan ''plan_authorization_arguments_missing''
             ''The confirmed plan action has no canonical argument binding.'')
      else if p_tenant plan = None
      then Inr (db, blocked_for plan ''plan_authorization_tenant_missing''
             ''The confirmed plan has no tenant authority and cannot authorize execution.'')
      else case consume_plan_authorization_lease sha db (gate_consume_request rq plan) now of
        Inl (LeaseError code msg) \<Rightarrow> Inr (db, blocked_for plan (''plan_authorization_'' @ code) msg)
      | Inl (OtherError e) \<Rightarrow> Inl e
      | Inr (db', l) \<Rightarrow> Inr (db', allowed_by_lease l))"

definition check_confirmed_plan ::
  "(string \<Rightarrow> string) \<Rightarrow> plan_db \<Rightarrow> gate_request \<Rightarrow> string \<Rightarrow> int \<Rightarrow> (string, plan_db \<times> gate_decision) res" where
  "check_confirmed_plan sha db rq intent now =
     (case Option.bind (parse_id (g_plan rq)) (plans db) of
        None \<Rightarrow> Inr (db, blocked ''plan_not_found'' (build_confirmation_required_payload None None
          (Some (''The referenced plan was not found. Create a plan and have the user confirm it before ''
               @ ''starting this autonomous action.'')) None None))
      | Some plan \<Rightarrow>
          if p_agent plan \<noteq> g_agent rq
          then Inr (db, blocked_for plan ''plan_agent_mismatch''
                 ''The referenced plan belongs to a different agent. Confirm a plan for this agent first.'')
          else if p_intent plan \<noteq> intent
          then Inr (db, blocked_for plan ''plan_intent_mismatch''
                 (''The referenced plan is for '' @ repr_str (p_intent plan)
                  @ '', but this action requires '' @ repr_str intent @ ''.''))
          else
            let check = validate_plan_handoff (p_status plan) (p_version plan) (opt_text (p_hash plan))
                          (g_version rq) (g_hash rq) in
            if check_ok check then consume_for_gate sha db rq plan now
            else Inr (db, blocked_for plan (or_default (error_code check) ''plan_not_confirmed'')
                   (or_default (check_message check) default_needs_plan_summary)))"

definition gate_check ::
  "(string \<Rightarrow> string) \<Rightarrow> plan_db \<Rightarrow> gate_request \<Rightarrow> int \<Rightarrow> (string, plan_db \<times> gate_decision) res" where
  "gate_check sha db rq now =
     bind_res (intent_type_for_action (g_kind rq)) (\<lambda>intent.
     if g_plan rq \<noteq> IdNone then check_confirmed_plan sha db rq intent now
     else case resolve_exempt_reason rq of
       Some r \<Rightarrow> Inr (db, \<lparr>d_allowed = True, d_reason = ''plan_exempt'', d_payload = None,
           d_exempt_reason = Some r, d_lease_id = None, d_args_hash = None, d_target_ref = None,
           d_plan_id = None, d_plan_version = None, d_plan_hash = None\<rparr>)
     | None \<Rightarrow> Inr (db, blocked ''no_confirmed_plan''
           (build_confirmation_required_payload None None None None None)))"

section \<open>The plan service\<close>

datatype service_error =
    LookupFailed string
  | PermissionDenied string
  | PlanConflict string string
  | ServiceFailed string

definition raise_confirmation_error :: "plan_check \<Rightarrow> service_error" where
  "raise_confirmation_error check =
     (let code = or_default (error_code check) ''not_confirmable'';
          msg = or_default (check_message check) ''plan cannot be confirmed'' in
      if code \<in> {''missing_confirming_user'', ''unauthorized_confirmer''} then PermissionDenied msg
      else PlanConflict code msg)"

definition plan_missing :: "uuid \<Rightarrow> service_error" where
  "plan_missing plan_id = LookupFailed (''plan '' @ uuid_str plan_id @ '' not found'')"

definition put_plan :: "plan_row \<Rightarrow> plan_db \<Rightarrow> plan_db" where
  "put_plan plan db = db\<lparr>plans := (plans db)(p_id plan \<mapsto> plan)\<rparr>"

definition note_reason :: "string \<Rightarrow> string option \<Rightarrow> (string \<times> pyval) list \<Rightarrow> (string \<times> pyval) list" where
  "note_reason key reason metadata =
     (if opt_text reason = [] then metadata else AList.update key (PStr (opt_text reason)) metadata)"

definition confirm_plan ::
  "(string \<Rightarrow> string) \<Rightarrow> (approval_row list \<Rightarrow> uuid) \<Rightarrow> (plan_row \<Rightarrow> (string, string) res) \<Rightarrow>
   plan_db \<Rightarrow> uuid option \<Rightarrow> uuid \<Rightarrow> uuid option \<Rightarrow> int \<Rightarrow> string option \<Rightarrow> string option \<Rightarrow>
   string option \<Rightarrow> int \<Rightarrow> (service_error, plan_db \<times> plan_row) res" where
  "confirm_plan sha mint write_markdown db tenant plan_id confirming_user_id plan_version plan_hash
       reason authorization_source now =
     (case plans db plan_id of
        None \<Rightarrow> Inl (plan_missing plan_id)
      | Some plan \<Rightarrow>
        let check = validate_confirmation (p_status plan) (p_version plan) (opt_text (p_hash plan))
              (map_option uuid_str (p_requested_by plan)) plan_version
              (map_option uuid_str confirming_user_id) plan_hash authorization_source in
        if \<not> check_ok check then Inl (raise_confirmation_error check)
        else
          let plan = plan\<lparr>p_status := ''confirmed'', p_confirmed_by := confirming_user_id,
                p_confirmed_at := Some now, p_handoff_status := Some ''not_started'',
                p_tenant := (if p_tenant plan = None then tenant else p_tenant plan),
                p_metadata := note_reason ''confirm_reason'' reason (p_metadata plan)\<rparr> in
          case issue_plan_authorization_leases sha mint db plan (id_opt confirming_user_id) now of
            Inl (LeaseError code msg) \<Rightarrow> Inl (PlanConflict code msg)
          | Inl (OtherError e) \<Rightarrow> Inl (ServiceFailed e)
          | Inr (db', leases) \<Rightarrow>
              let plan = plan\<lparr>p_metadata := AList.update ''plan_authorization'' (PDict
                    [(''schema'', PStr ''hive.plan_authorization_lease_set.v1''),
                     (''lease_ids'', PList (map (\<lambda>l. PStr (uuid_str (l_id l))) leases)),
                     (''scope_count'', PInt (int (length leases))),
                     (''issued_at'', PStr (isoformat now))]) (p_metadata plan)\<rparr> in
              (case write_markdown plan of
                 Inl e \<Rightarrow> Inl (ServiceFailed e)
               | Inr path \<Rightarrow> (let plan = plan\<lparr>p_markdown := Some path\<rparr> in Inr (put_plan plan db', plan))))"

definition reject_plan ::
  "plan_db \<Rightarrow> uuid \<Rightarrow> uuid option \<Rightarrow> string option \<Rightarrow> int \<Rightarrow> (service_error, plan_db \<times> plan_row) res" where
  "reject_plan db plan_id rejecting_user_id reason now =
     (case plans db plan_id of
        None \<Rightarrow> Inl (plan_missing plan_id)
      | Some plan \<Rightarrow>
        if \<not> plan_can_transition (p_status plan) ''rejected''
        then Inl (PlanConflict ''illegal_transition''
               (''cannot reject a plan in status '' @ repr_str (p_status plan)))
        else
          let plan = plan\<lparr>p_status := ''rejected'', p_rejected_by := rejecting_user_id,
                p_rejected_at := Some now,
                p_metadata := note_reason ''reject_reason'' reason (p_metadata plan)\<rparr> in
          Inr (put_plan plan db, plan))"

subsection \<open>Handing a confirmed plan off\<close>

text \<open>
  A handler creates the execution artifact in the caller's transaction: it returns the database
  and either a payload or the text of the exception it raised. \<open>row_of\<close> rereads the plan, whose
  row the handler shares.
\<close>

type_synonym handoff_handler =
  "plan_db \<Rightarrow> plan_row \<Rightarrow> plan_db \<times> (string, (string \<times> pyval) list) res"

definition row_of :: "plan_db \<Rightarrow> plan_row \<Rightarrow> plan_row" where
  "row_of db plan = (case plans db (p_id plan) of None \<Rightarrow> plan | Some p \<Rightarrow> p)"

text \<open>\<open>plan_json.get("handoff", {}).get("target")\<close>; a handoff that is no dict raises.\<close>

definition handoff_target :: "plan_row \<Rightarrow> (service_error, pyval) res" where
  "handoff_target plan =
     (if \<not> has_key (p_json plan) ''handoff'' then Inr PNone
      else case as_dict (dget (p_json plan) ''handoff'') of
        None \<Rightarrow> Inl (ServiceFailed ''AttributeError'')
      | Some h \<Rightarrow> Inr (dget h ''target''))"

text \<open>\<open>handlers.get(target) if target else None\<close> for a target of any type.\<close>

definition find_handler ::
  "(string \<Rightarrow> handoff_handler option) \<Rightarrow> pyval \<Rightarrow> (service_error, handoff_handler option) res" where
  "find_handler handlers target =
     (if \<not> truthy target then Inr None
      else case target of
        PStr s \<Rightarrow> Inr (handlers s)
      | PList _ \<Rightarrow> Inl (ServiceFailed ''TypeError'')
      | PDict _ \<Rightarrow> Inl (ServiceFailed ''TypeError'')
      | _ \<Rightarrow> Inr None)"

definition run_handoff ::
  "(string \<Rightarrow> handoff_handler option) \<Rightarrow> plan_db \<Rightarrow> plan_row \<Rightarrow> int \<Rightarrow> (service_error, plan_db \<times> plan_row) res" where
  "run_handoff handlers db plan now =
     bind_res (handoff_target plan) (\<lambda>target.
     bind_res (find_handler handlers target) (\<lambda>handler.
     case handler of
       None \<Rightarrow>
         let plan = plan\<lparr>p_handoff_status := Some ''skipped'',
               p_handoff_payload := Some [(''reason'', PStr ''no_handler_registered''), (''target'', target),
                 (''skipped_at'', PStr (isoformat now))]\<rparr> in
         Inr (put_plan plan db, plan)
     | Some f \<Rightarrow>
         (case f (put_plan plan db) plan of
            (db', Inl e) \<Rightarrow>
              let plan = (row_of db' plan)\<lparr>p_handoff_status := Some ''failed'',
                    p_handoff_payload := Some [(''error'', PStr e), (''target'', target),
                      (''failed_at'', PStr (isoformat now))]\<rparr> in
              Inr (put_plan plan db', plan)
          | (db', Inr payload) \<Rightarrow>
              let status = py_str (py_or (dget payload ''handoff_status'') (PStr ''completed''));
                  stamp = (if status = ''completed'' then ''completed_at'' else ''updated_at'');
                  plan = (row_of db' plan)\<lparr>p_handoff_status := Some status,
                    p_handoff_payload := Some (AList.update stamp (PStr (isoformat now))
                      (AList.update ''target'' target (AList.delete ''handoff_status'' payload)))\<rparr> in
              Inr (put_plan plan db', plan))))"

definition handoff_confirmed_plan ::
  "(string \<Rightarrow> string) \<Rightarrow> (string \<Rightarrow> handoff_handler option) \<Rightarrow> (plan_db \<Rightarrow> plan_row \<Rightarrow> plan_db) \<Rightarrow>
   plan_db \<Rightarrow> uuid \<Rightarrow> int \<Rightarrow> (service_error, plan_db \<times> plan_row) res" where
  "handoff_confirmed_plan sha handlers reconcile db plan_id now =
     (case plans db plan_id of
        None \<Rightarrow> Inl (plan_missing plan_id)
      | Some plan \<Rightarrow>
        if p_status plan \<noteq> ''confirmed''
        then Inl (PlanConflict ''not_confirmed''
               (''only confirmed plans can be handed off (status='' @ repr_str (p_status plan) @ '')''))
        else if p_handoff_status plan = Some ''completed'' then Inr (db, plan)
        else if p_handoff_status plan = Some ''queued''
          \<and> (case p_handoff_payload plan of None \<Rightarrow> False
             | Some d \<Rightarrow> eq_str (dget d ''reason'') ''native_input_queued'')
        then (let db' = reconcile db plan in Inr (db', row_of db' plan))
        else
          bind_res (handoff_target plan) (\<lambda>raw.
          let target = py_str (py_or raw (PStr [])) in
          if target = [] \<or> handlers target = None then run_handoff handlers db plan now
          else
            let evidence_id = ''plan-handoff:'' @ uuid_str (p_id plan) @ '':'' @ target in
            case consume_plan_authorization_lease sha db
                (handoff_request plan evidence_id (p_handoff_status plan = Some ''failed'')) now of
              Inl (LeaseError code msg) \<Rightarrow>
                let plan = plan\<lparr>p_handoff_status := Some ''failed'',
                      p_handoff_payload := Some [(''error'', PStr msg),
                        (''error_code'', PStr (''plan_authorization_'' @ code)), (''target'', PStr target),
                        (''failed_at'', PStr (isoformat now))]\<rparr> in
                Inr (put_plan plan db, plan)
            | Inl (OtherError e) \<Rightarrow> Inl (ServiceFailed e)
            | Inr (db', l) \<Rightarrow>
                run_handoff handlers db' (plan\<lparr>p_metadata := AList.update ''active_plan_authorization''
                  (PDict (active_evidence l evidence_id)) (p_metadata plan)\<rparr>) now))"

section \<open>What the gate lets through\<close>

lemma blocked_simps [simp]:
  "\<not> d_allowed (blocked r p)" "d_payload (blocked r p) = Some p" "d_reason (blocked r p) = r"
  "\<not> d_allowed (blocked_for pl r t)" "d_reason (blocked_for pl r t) = r"
  by (simp_all add: blocked_def blocked_for_def)

lemma consume_for_gate_allowed:
  assumes "consume_for_gate sha db rq plan now = Inr (db', d)" and "d_allowed d"
  shows "\<exists>l. consume_plan_authorization_lease sha db (gate_consume_request rq plan) now = Inr (db', l)
     \<and> d = allowed_by_lease l"
  using assms by (auto simp: consume_for_gate_def split: if_splits sum.splits lease_exn.splits)


lemma check_confirmed_allowed:
  assumes "check_confirmed_plan sha db rq intent now = Inr (db', d)" and "d_allowed d"
  shows "\<exists>pid plan l. parse_id (g_plan rq) = Some pid \<and> plans db pid = Some plan
     \<and> p_agent plan = g_agent rq \<and> p_intent plan = intent \<and> p_status plan = ''confirmed''
     \<and> g_version rq = Some (p_version plan)
     \<and> consume_plan_authorization_lease sha db (gate_consume_request rq plan) now = Inr (db', l)
     \<and> d = allowed_by_lease l"
  using assms consume_for_gate_allowed [of sha db rq _ now db' d]
  by (auto simp: check_confirmed_plan_def validate_plan_handoff_ok Let_def bind_eq_Some_conv
      split: option.splits if_splits)




lemma find_put_row:
  "find_by_key rows k = Some row \<Longrightarrow> ar_key row' = Some k \<Longrightarrow> find_by_key (put_row k row' rows) k = Some row'"
  unfolding find_by_key_def put_row_def by (induction rows) (auto split: if_splits)

lemma consume_twice:
  assumes "consume_plan_authorization_lease sha db rq now = Inr (db1, l)" and "\<not> c_resume rq"
  shows "consume_plan_authorization_lease sha db1 rq now' \<noteq> Inr (db2, l')"
proof
  assume "consume_plan_authorization_lease sha db1 rq now' = Inr (db2, l')"
  then obtain b' v' h' c' row' where second:
    "check_consumed_plan db1 rq (b_agent b') (b_plan b') now' = Inr (v', h', c')"
    "parse_id (c_tenant rq) = Some (b_tenant b')" "parse_id (c_agent rq) = Some (b_agent b')"
    "parse_id (c_plan rq) = Some (b_plan b')" "parse_id (c_requester rq) = Some (b_requester b')"
    "build_plan_authorization_binding sha (IdUuid (b_tenant b')) (IdUuid (b_agent b'))
       (IdUuid (b_plan b')) v' h' (IdUuid (b_requester b')) c' (c_session rq) (c_task rq) (c_kind rq)
       (c_target rq) (c_artifact rq) = Inr b'"
    "find_by_key (approvals db1) (b_key b') = Some row'" "ticket_open sha row' b' now'"
    unfolding consume_iff [OF assms(2)] by blast
  from assms(1) obtain b v h c row where first:
    "check_consumed_plan db rq (b_agent b) (b_plan b) now = Inr (v, h, c)"
    "parse_id (c_tenant rq) = Some (b_tenant b)" "parse_id (c_agent rq) = Some (b_agent b)"
    "parse_id (c_plan rq) = Some (b_plan b)" "parse_id (c_requester rq) = Some (b_requester b)"
    "build_plan_authorization_binding sha (IdUuid (b_tenant b)) (IdUuid (b_agent b))
       (IdUuid (b_plan b)) v h (IdUuid (b_requester b)) c (c_session rq) (c_task rq) (c_kind rq)
       (c_target rq) (c_artifact rq) = Inr b"
    "find_by_key (approvals db) (b_key b) = Some row"
    and db1: "db1 = db\<lparr>approvals := put_row (b_key b) (consumed_row row b (c_evidence rq) now) (approvals db)\<rparr>"
    unfolding consume_iff [OF assms(2)] by blast
  have ids: "b_tenant b' = b_tenant b" "b_agent b' = b_agent b" "b_plan b' = b_plan b"
    "b_requester b' = b_requester b" using first second by simp_all
  have "plans db1 = plans db" by (simp add: db1)
  then have "v' = v \<and> h' = h \<and> c' = c"
    using first(1) second(1) ids unfolding check_plan_Inr by auto
  with first(6) second(6) ids have "b' = b" by simp
  with second(7) first(7) have "row' = consumed_row row b (c_evidence rq) now"
    using find_put_row [OF first(7), of "consumed_row row b (c_evidence rq) now"] find_by_key_in [OF first(7)]
    by (simp add: db1 consumed_row_def)
  with second(8) show False by (simp add: ticket_open_def consumed_row_def)
qed

text \<open>
  A plan handoff the gate allowed cannot be replayed: on the resulting database the
  same request is never allowed again, at any later time.
\<close>

theorem gate_replay_is_blocked:
  assumes "gate_check sha db rq now = Inr (db', d)" and "d_allowed d" and "g_plan rq \<noteq> IdNone"
  shows "\<not> (\<exists>now' db'' d'. gate_check sha db' rq now' = Inr (db'', d') \<and> d_allowed d')"
proof clarify
  fix now' db'' d'
  assume again: "gate_check sha db' rq now' = Inr (db'', d')" and ok: "d_allowed d'"
  from assms obtain intent where c: "check_confirmed_plan sha db rq intent now = Inr (db', d)"
    by (auto simp: gate_check_def)
  from again assms(3) obtain intent' where c': "check_confirmed_plan sha db' rq intent' now' = Inr (db'', d')"
    by (auto simp: gate_check_def)
  from check_confirmed_allowed [OF c assms(2)] obtain pid plan l where
    first: "parse_id (g_plan rq) = Some pid" "plans db pid = Some plan"
      "consume_plan_authorization_lease sha db (gate_consume_request rq plan) now = Inr (db', l)" by blast
  from check_confirmed_allowed [OF c' ok] obtain plan' l' where
    second: "plans db' pid = Some plan'"
      "consume_plan_authorization_lease sha db' (gate_consume_request rq plan') now' = Inr (db'', l')"
    using first(1) by auto
  have res: "\<not> c_resume (gate_consume_request rq plan)" by (simp add: gate_consume_request_def)
  have "plans db' = plans db" using first(3) unfolding consume_iff [OF res] by auto
  with first(2) second have "consume_plan_authorization_lease sha db' (gate_consume_request rq plan) now' = Inr (db'', l')"
    by simp
  with consume_twice [OF first(3) res] show False by blast
qed

section \<open>The service follows the status machine\<close>

datatype plan_call =
    CallConfirm uuid "uuid option" int "string option" "string option" int
  | CallReject uuid "uuid option" "string option" int

fun plan_calls ::
  "(string \<Rightarrow> string) \<Rightarrow> (approval_row list \<Rightarrow> uuid) \<Rightarrow> (plan_row \<Rightarrow> (string, string) res) \<Rightarrow> uuid option \<Rightarrow>
   plan_db \<Rightarrow> plan_call list \<Rightarrow> plan_db" where
  "plan_calls sha mint wm tenant db [] = db"
| "plan_calls sha mint wm tenant db (CallConfirm pid u v reason src now # cs) =
     (case confirm_plan sha mint wm db tenant pid u v None reason src now of
        Inl _ \<Rightarrow> plan_calls sha mint wm tenant db cs
      | Inr (db', _) \<Rightarrow> plan_calls sha mint wm tenant db' cs)"
| "plan_calls sha mint wm tenant db (CallReject pid u reason now # cs) =
     (case reject_plan db pid u reason now of
        Inl _ \<Rightarrow> plan_calls sha mint wm tenant db cs
      | Inr (db', _) \<Rightarrow> plan_calls sha mint wm tenant db' cs)"

definition keyed_plans :: "plan_db \<Rightarrow> bool" where
  "keyed_plans db \<longleftrightarrow> (\<forall>k p. plans db k = Some p \<longrightarrow> p_id p = k)"

lemma issue_rows:
  "issue_plan_authorization_leases sha mint db plan u now = Inr (db', ls) \<Longrightarrow> \<exists>rows. db' = db\<lparr>approvals := rows\<rparr>"
  by (auto simp: issue_plan_authorization_leases_def)

lemma confirm_plan_step:
  assumes "confirm_plan sha mint wm db tenant pid u v h reason src now = Inr (db', p')"
  shows "\<exists>p c rows. plans db pid = Some p \<and> u = Some c \<and> p_status p = ''awaiting_confirmation''
     \<and> v = p_version p \<and> p_status p' = ''confirmed'' \<and> p_confirmed_by p' = Some c \<and> p_id p' = p_id p
     \<and> db' = put_plan p' (db\<lparr>approvals := rows\<rparr>)"
proof -
  from assms obtain p where p: "plans db pid = Some p"
    by (cases "plans db pid") (simp_all add: confirm_plan_def)
  let ?check = "validate_confirmation (p_status p) (p_version p) (opt_text (p_hash p))
      (map_option uuid_str (p_requested_by p)) v (map_option uuid_str u) h src"
  let ?plan = "p\<lparr>p_status := ''confirmed'', p_confirmed_by := u,
                p_confirmed_at := Some now, p_handoff_status := Some ''not_started'',
                p_tenant := (if p_tenant p = None then tenant else p_tenant p),
                p_metadata := note_reason ''confirm_reason'' reason (p_metadata p)\<rparr>"
  have ok: "check_ok ?check"
    using assms p by (cases "check_ok ?check") (simp_all add: confirm_plan_def Let_def)
  then obtain c where c: "u = Some c" "p_status p = ''awaiting_confirmation''" "v = p_version p"
    unfolding validate_confirmation_ok by (cases u) auto
  obtain db1 ls where issued: "issue_plan_authorization_leases sha mint db ?plan (id_opt u) now = Inr (db1, ls)"
    using assms p ok
    by (cases "issue_plan_authorization_leases sha mint db ?plan (id_opt u) now")
      (auto simp: confirm_plan_def Let_def split: lease_exn.splits)
  then obtain rows where "db1 = db\<lparr>approvals := rows\<rparr>" using issue_rows by blast
  with assms p ok issued c show ?thesis
    by (auto simp: confirm_plan_def Let_def split: sum.splits)
qed

lemma reject_plan_step:
  assumes "reject_plan db pid u reason now = Inr (db', p')"
  shows "\<exists>p. plans db pid = Some p \<and> plan_can_transition (p_status p) ''rejected''
     \<and> p_status p' = ''rejected'' \<and> p_id p' = p_id p \<and> db' = put_plan p' db"
  using assms by (auto simp: reject_plan_def Let_def split: option.splits if_splits)

text \<open>Where a plan may have come to from the row \<open>r\<close> it had once.\<close>

definition came_from :: "plan_row \<Rightarrow> uuid \<Rightarrow> plan_db \<Rightarrow> bool" where
  "came_from r q db \<longleftrightarrow> keyed_plans db \<and> (\<exists>r'. plans db q = Some r'
     \<and> plan_can_transition\<^sup>*\<^sup>* (p_status r) (p_status r')
     \<and> (p_status r' = ''confirmed'' \<longrightarrow> p_status r = ''confirmed'' \<or> p_confirmed_by r' \<noteq> None))"

lemma put_plan_came_from:
  assumes cf: "came_from r q db" and p: "plans db pid = Some p" "p_id p' = p_id p"
    and edge: "plan_can_transition (p_status p) (p_status p')"
    and who: "p_status p' = ''confirmed'' \<longrightarrow> p_confirmed_by p' \<noteq> None"
  shows "came_from r q (put_plan p' (db\<lparr>approvals := rows\<rparr>))"
proof -
  have pid: "p_id p' = pid" using cf p by (simp add: came_from_def keyed_plans_def)
  have keyed: "keyed_plans (put_plan p' (db\<lparr>approvals := rows\<rparr>))"
    using cf by (simp add: came_from_def keyed_plans_def put_plan_def)
  show ?thesis
  proof (cases "q = pid")
    case True
    then have "plan_can_transition\<^sup>*\<^sup>* (p_status r) (p_status p)" using cf p by (auto simp: came_from_def)
    then have "plan_can_transition\<^sup>*\<^sup>* (p_status r) (p_status p')" using edge by (rule rtranclp.rtrancl_into_rtrancl)
    then show ?thesis using keyed True who pid by (simp add: came_from_def put_plan_def)
  next
    case False
    then show ?thesis using keyed cf pid by (simp add: came_from_def put_plan_def)
  qed
qed

lemma plan_calls_came_from: "came_from r q db \<Longrightarrow> came_from r q (plan_calls sha mint wm tenant db cs)"
proof (induction cs arbitrary: db)
  case (Cons c cs)
  show ?case
  proof (cases c)
    case (CallConfirm pid u v reason src now)
    show ?thesis
    proof (cases "confirm_plan sha mint wm db tenant pid u v None reason src now")
      case (Inr res)
      obtain db' p' where res: "res = (db', p')" by (cases res)
      from confirm_plan_step [OF Inr [unfolded res]] obtain p rows where
        "plans db pid = Some p" "p_id p' = p_id p" "p_status p = ''awaiting_confirmation''"
        "p_status p' = ''confirmed''" "p_confirmed_by p' \<noteq> None" and db': "db' = put_plan p' (db\<lparr>approvals := rows\<rparr>)"
        by blast
      then have "came_from r q db'"
        unfolding db' by (intro put_plan_came_from [OF Cons.prems]) (simp_all add: plan_edges)
      then show ?thesis using Cons.IH Inr res CallConfirm by simp
    qed (use Cons CallConfirm in simp)
  next
    case (CallReject pid u reason now)
    show ?thesis
    proof (cases "reject_plan db pid u reason now")
      case (Inr res)
      obtain db' p' where res: "res = (db', p')" by (cases res)
      from reject_plan_step [OF Inr [unfolded res]] obtain p where
        "plans db pid = Some p" "p_id p' = p_id p" "plan_can_transition (p_status p) ''rejected''"
        "p_status p' = ''rejected''" and db': "db' = put_plan p' db"
        by blast
      then have "came_from r q (put_plan p' (db\<lparr>approvals := approvals db\<rparr>))"
        by (intro put_plan_came_from [OF Cons.prems]) simp_all
      then show ?thesis using Cons.IH Inr res CallReject db' by simp
    qed (use Cons CallReject in simp)
  qed
qed simp

text \<open>
  Under any sequence of confirm and reject calls, failing ones included, a stored
  plan only moves along the status machine: a plan in a terminal status keeps it for ever, and
  a plan that becomes confirmed was awaiting confirmation on the way and names its confirmer.
\<close>

theorem service_follows_status_machine:
  assumes "keyed_plans db" and "plans db q = Some r"
  shows "\<exists>r'. plans (plan_calls sha mint wm tenant db calls) q = Some r'
     \<and> plan_can_transition\<^sup>*\<^sup>* (p_status r) (p_status r')
     \<and> (p_status r \<in> set TERMINAL_STATUSES \<longrightarrow> p_status r' = p_status r)
     \<and> (p_status r' = ''confirmed'' \<and> p_status r \<noteq> ''confirmed'' \<longrightarrow> p_confirmed_by r' \<noteq> None
          \<and> plan_can_transition\<^sup>*\<^sup>* (p_status r) ''awaiting_confirmation'')"
proof -
  have "came_from r q db" using assms by (auto simp: came_from_def)
  from plan_calls_came_from [OF this, of sha mint wm tenant calls] obtain r' where
    r': "plans (plan_calls sha mint wm tenant db calls) q = Some r'"
    and run: "plan_can_transition\<^sup>*\<^sup>* (p_status r) (p_status r')"
    and who: "p_status r' = ''confirmed'' \<longrightarrow> p_status r = ''confirmed'' \<or> p_confirmed_by r' \<noteq> None"
    by (auto simp: came_from_def)
  have "plan_can_transition\<^sup>*\<^sup>* (p_status r) ''awaiting_confirmation''"
    if "p_status r' = ''confirmed''" "p_status r \<noteq> ''confirmed''"
    using run that
  proof (cases rule: rtranclp.cases)
    case (rtrancl_into_rtrancl u)
    then show ?thesis using that by (auto simp: plan_edges)
  qed simp
  then show ?thesis using r' run who plan.final_absorbing [OF run] by auto
qed

section \<open>From confirmation to execution\<close>

text \<open>The handoff status that the outcome of a handler stands for.\<close>

definition outcome_status :: "(string, (string \<times> pyval) list) res \<Rightarrow> string" where
  "outcome_status out = (case out of Inl e \<Rightarrow> ''failed''
     | Inr payload \<Rightarrow> let v = dget payload ''handoff_status'' in if truthy v then py_str v else ''completed'')"

lemma run_handoff_calls:
  assumes "handoff_target plan = Inr (PStr tgt)" "tgt \<noteq> []" "handlers tgt = Some f"
    and "f (put_plan plan db) plan = (d, out)"
  shows "\<exists>p2. run_handoff handlers db plan now = Inr (put_plan p2 d, p2)
     \<and> p_handoff_status p2 = Some (outcome_status out) \<and> p_id p2 = p_id (row_of d plan)
     \<and> p_status p2 = p_status (row_of d plan) \<and> p_metadata p2 = p_metadata (row_of d plan)
     \<and> p_confirmed_by p2 = p_confirmed_by (row_of d plan)"
proof (cases out)
  case (Inl e)
  with assms show ?thesis by (simp add: run_handoff_def find_handler_def outcome_status_def Let_def)
next
  case (Inr payload)
  have "py_str (py_or (dget payload ''handoff_status'') (PStr ''completed'')) = outcome_status out"
    by (simp add: Inr outcome_status_def py_or_def Let_def)
  with assms Inr show ?thesis by (simp add: run_handoff_def find_handler_def Let_def)
qed

lemma handoff_target_cong: "p_json p = p_json q \<Longrightarrow> handoff_target p = handoff_target q"
  by (simp add: handoff_target_def)

text \<open>The row a confirmation by \<open>r\<close> writes before it issues the leases.\<close>

definition confirmed_row :: "plan_row \<Rightarrow> uuid \<Rightarrow> string option \<Rightarrow> int \<Rightarrow> plan_row" where
  "confirmed_row p r reason now = p\<lparr>p_status := ''confirmed'', p_confirmed_by := Some r,
     p_confirmed_at := Some now, p_handoff_status := Some ''not_started'',
     p_metadata := note_reason ''confirm_reason'' reason (p_metadata p)\<rparr>"

lemma confirm_plan_succeeds:
  assumes "plans db (p_id p) = Some p" and "p_status p = ''awaiting_confirmation''"
    and "p_tenant p = Some t" "p_requested_by p = Some r" "wm = (\<lambda>q. Inr (path q))"
    and "issue_plan_authorization_leases sha mint db (confirmed_row p r reason now) (IdUuid r) now = Inr (db', ls)"
  shows "\<exists>m md. confirm_plan sha mint wm db tenant (p_id p) (Some r) (p_version p) hash reason src now
     = (let p1 = (confirmed_row p r reason now)\<lparr>p_metadata := m, p_markdown := Some md\<rparr>
        in Inr (put_plan p1 db', p1))"
proof -
  have "p\<lparr>p_status := ''confirmed'', p_confirmed_by := Some r,
                p_confirmed_at := Some now, p_handoff_status := Some ''not_started'',
                p_tenant := (if p_tenant p = None then tenant else p_tenant p),
                p_metadata := note_reason ''confirm_reason'' reason (p_metadata p)\<rparr> = confirmed_row p r reason now"
    using assms(3) by (simp add: confirmed_row_def)
  then show ?thesis
    using assms(1,2,4-6) unfolding confirm_plan_def by (auto simp: validate_confirmation_ok Let_def)
qed

lemma handoff_binding_cong:
  assumes "p_id p = p_id q" "p_version p = p_version q" "p_hash p = p_hash q" "p_json p = p_json q"
    "p_tenant p = p_tenant q" "p_agent p = p_agent q" "p_requested_by p = p_requested_by q"
    "p_confirmed_by p = p_confirmed_by q" "p_session p = p_session q" "p_task p = p_task q"
  shows "handoff_binding sha p = handoff_binding sha q"
  using assms by (simp add: handoff_binding_def handoff_scope_def handoff_target_of_def Let_def)

text \<open>
  Claim C10. A plan that awaits confirmation and is confirmed by its requester reaches its handler: the
  confirmation issues the handoff lease, and a handoff before the deadline of the lease consumes it and
  calls the registered handler with the confirmed plan, on which the evidence of that lease is stamped; the
  handoff status is then the one the handler answers (completed, queued, or another one it names), or failed
  when it raises, and a handler that leaves the row alone leaves the plan confirmed with its evidence. The
  plan names its target and has no authorization scopes of its own, its hash is clean, the lease key was not
  used before, and the file of the plan can be written.
\<close>

theorem confirmed_plan_reaches_execution:
  assumes "plans db (p_id p) = Some p" and "p_status p = ''awaiting_confirmation''"
    and "p_tenant p = Some t" "p_requested_by p = Some r"
    and "p_hash p = Some h" "h \<noteq> []" "py_strip h = h"
    and "dget (p_json p) ''authorization_scopes'' = PNone"
    and "handoff_target p = Inr (PStr tgt)" "tgt \<noteq> []" "handlers tgt = Some f"
    and "now \<le> now'" "now' < lease_deadline p now"
    and "handoff_binding sha (p\<lparr>p_confirmed_by := Some r\<rparr>) = Inr b"
    and "find_by_key (approvals db) (b_key b) = None" "mint (approvals db) \<notin> ar_id ` set (approvals db)"
  shows "\<exists>db1 p1 db2 p2 dbc pa l ticket d out.
      confirm_plan sha mint (\<lambda>q. Inr (path q)) db tenant (p_id p) (Some r) (p_version p) hash reason src now = Inr (db1, p1)
    \<and> handoff_confirmed_plan sha handlers reconcile db1 (p_id p) now' = Inr (db2, p2)
    \<and> f dbc pa = (d, out) \<and> db2 = put_plan p2 d \<and> p_handoff_status p2 = Some (outcome_status out)
    \<and> plans dbc (p_id p) = Some pa \<and> p_status pa = ''confirmed'' \<and> p_confirmed_by pa = Some r \<and> p_json pa = p_json p
    \<and> dget (p_metadata pa) ''active_plan_authorization''
        = PDict (active_evidence l (''plan-handoff:'' @ uuid_str (p_id p) @ '':'' @ tgt))
    \<and> ticket \<in> set (approvals dbc) \<and> ar_key ticket = Some (b_key b) \<and> ar_consumed_at ticket = Some now'
    \<and> l = lease_from_row ticket b
    \<and> (plans d (p_id p) = Some pa \<longrightarrow> p_status p2 = ''confirmed'' \<and> p_confirmed_by p2 = Some r \<and> p_metadata p2 = p_metadata pa)"
proof -
  let ?q = "confirmed_row p r reason now"
  have q: "handoff_binding sha ?q = Inr b"
    using assms(14) handoff_binding_cong [of ?q "p\<lparr>p_confirmed_by := Some r\<rparr>" sha]
    by (simp add: confirmed_row_def)
  have dl: "lease_deadline ?q now = lease_deadline p now" by (simp add: lease_deadline_def confirmed_row_def)
  define row where "row = new_ticket sha (mint (approvals db)) now \<lparr>sp_binding = b,
      sp_summary = py_strip (sc_summary (handoff_scope ?q)), sp_expires = lease_deadline ?q now\<rparr>"
  let ?dbi = "db\<lparr>approvals := approvals db @ [row]\<rparr>"
  have "issue_plan_authorization_leases sha mint db ?q (IdUuid r) now = Inr (?dbi, [lease_from_row row b])"
    unfolding row_def using assms(8,12,13,15,16) q dl
    by (intro issue_handoff_lease) (simp_all add: confirmed_row_def)
  from confirm_plan_succeeds [OF assms(1-4) refl this, where path = path and tenant = tenant
      and hash = hash and src = src] obtain m md p1 where
    p1: "p1 = ?q\<lparr>p_metadata := m, p_markdown := Some md\<rparr>"
    and confirmed: "confirm_plan sha mint (\<lambda>q. Inr (path q)) db tenant (p_id p) (Some r) (p_version p) hash reason src now
      = Inr (put_plan p1 ?dbi, p1)"
    by (auto simp: Let_def)
  let ?db1 = "put_plan p1 ?dbi"
  let ?ev = "''plan-handoff:'' @ uuid_str (p_id p1) @ '':'' @ tgt"
  have p1f: "p_id p1 = p_id p" "p_status p1 = ''confirmed''" "p_tenant p1 = Some t" "p_requested_by p1 = Some r"
    "p_confirmed_by p1 = Some r" "p_hash p1 = Some h" "p_handoff_status p1 = Some ''not_started''"
    "handoff_target p1 = Inr (PStr tgt)" "lease_deadline p1 now = lease_deadline p now"
    using assms(3-5,9) handoff_target_cong [of p1 p]
    by (simp_all add: p1 confirmed_row_def lease_deadline_def)
  have b1: "handoff_binding sha p1 = Inr b"
    using q handoff_binding_cong [of p1 ?q sha] by (simp add: p1)
  have stored: "plans ?db1 (p_id p) = Some p1" by (simp add: put_plan_def p1f)
  have key: "find_by_key (approvals ?db1) (b_key b) = Some row"
    using find_fresh_key(1) [OF assms(15)] by (simp add: put_plan_def row_def new_ticket_def Let_def)
  have open_t: "ticket_open sha row b now'"
    using new_ticket_open [of now' "\<lparr>sp_binding = b, sp_summary = _, sp_expires = lease_deadline ?q now\<rparr>"] assms(13) dl
    by (simp add: row_def)
  define ticket where "ticket = consumed_row row b ?ev now'"
  define l where "l = lease_from_row ticket b"
  define dbc where "dbc = ?db1\<lparr>approvals := put_row (b_key b) ticket (approvals ?db1)\<rparr>"
  have consumed: "consume_plan_authorization_lease sha ?db1 (handoff_request p1 ?ev False) now' = Inr (dbc, l)"
    unfolding dbc_def l_def ticket_def
    by (rule handoff_consumes [OF _ p1f(2-6) _ assms(12) b1 key open_t]) (use stored assms(13) p1f in simp_all)
  have "row \<in> set (approvals ?db1)" "ar_key row = Some (b_key b)" using find_by_key_in [OF key] by simp_all
  then have ticket: "ticket \<in> set (approvals dbc)" "ar_key ticket = Some (b_key b)" "ar_consumed_at ticket = Some now'"
    by (auto simp: dbc_def ticket_def put_row_def consumed_row_def image_iff intro!: bexI [of _ row])
  define pa where "pa = p1\<lparr>p_metadata :=
      AList.update ''active_plan_authorization'' (PDict (active_evidence l ?ev)) (p_metadata p1)\<rparr>"
  have paf: "handoff_target pa = Inr (PStr tgt)" "p_status pa = ''confirmed''" "p_confirmed_by pa = Some r"
    "dget (p_metadata pa) ''active_plan_authorization'' = PDict (active_evidence l ?ev)"
    "p_id pa = p_id p" "p_json pa = p_json p"
    using p1f(1,2,5,8) handoff_target_cong [of pa p1] by (simp_all add: pa_def p1 confirmed_row_def)
  obtain d out where fr: "f (put_plan pa dbc) pa = (d, out)" by force
  from run_handoff_calls [of pa tgt handlers f dbc d out now', OF paf(1) assms(10,11) fr] obtain p2 where
    run: "run_handoff handlers dbc pa now' = Inr (put_plan p2 d, p2)" "p_handoff_status p2 = Some (outcome_status out)"
    and p2: "p_status p2 = p_status (row_of d pa)" "p_metadata p2 = p_metadata (row_of d pa)"
      "p_confirmed_by p2 = p_confirmed_by (row_of d pa)" by blast
  have "handoff_confirmed_plan sha handlers reconcile ?db1 (p_id p) now' = run_handoff handlers dbc pa now'"
    using stored p1f consumed assms(10,11)
    by (simp add: handoff_confirmed_plan_def py_or_def Let_def pa_def)
  moreover have "plans d (p_id p) = Some pa \<longrightarrow> row_of d pa = pa" by (simp add: row_of_def paf(5))
  moreover have "plans (put_plan pa dbc) (p_id p) = Some pa" "approvals (put_plan pa dbc) = approvals dbc"
    by (simp_all add: put_plan_def paf(5))
  ultimately show ?thesis
    using confirmed run p2 paf ticket fr p1f(1) l_def
    by (intro exI [of _ ?db1] exI [of _ p1] exI [of _ "put_plan p2 d"] exI [of _ p2] exI [of _ "put_plan pa dbc"]
        exI [of _ pa] exI [of _ l] exI [of _ ticket] exI [of _ d] exI [of _ out]) simp
qed

section \<open>Concrete runs\<close>

definition sample_gate :: gate_request where
  "sample_gate =
     (let sc = handoff_scope sample_plan in
      \<lparr>g_agent = 3, g_requester = IdUuid 4, g_session = Some '' s1 '', g_task = IdNone,
       g_kind = ''start_delegation'', g_target = Some (sc_target sc), g_ref = PNone, g_plan = IdUuid 1,
       g_version = Some 5, g_hash = None, g_artifact = PDict (sc_arguments sc),
       g_evidence = Some ''ev'', g_resolver = None\<rparr>)"

lemma sample_gate_allowed:
  "\<exists>db' d. gate_check id sample_issued sample_gate 20 = Inr (db', d) \<and> d_allowed d"
proof -
  obtain db' l where c: "consume_plan_authorization_lease id sample_issued (handoff_request sample_plan ''ev'' False) 20
     = Inr (db', l)" using sample_consumed by blast
  have eq: "gate_consume_request sample_gate sample_plan = handoff_request sample_plan ''ev'' False"
    by (simp add: gate_consume_request_def handoff_request_def sample_gate_def sample_plan_def opt_text_def
        or_default_def handoff_scope_def handoff_target_of_def HANDOFF_ACTION_BY_TARGET_def dget_def py_or_def
        py_strip_def py_lstrip_def py_space_def Let_def)
  have p: "p_id sample_plan = 1" "p_agent sample_plan = 3" "p_status sample_plan = ''confirmed''"
    "p_intent sample_plan = ''delegation''" "p_version sample_plan = 5" "p_tenant sample_plan = Some 2"
    by (simp_all add: sample_plan_def)
  have tgt: "py_strip (sc_target (handoff_scope sample_plan)) \<noteq> []" by (rule handoff_scope_visible)
  have db: "plans sample_issued 1 = Some sample_plan" by (simp add: sample_issued_def sample_db_def)
  have g: "g_agent sample_gate = 3" "g_plan sample_gate = IdUuid 1" "g_version sample_gate = Some 5"
    "g_kind sample_gate = ''start_delegation''" "g_requester sample_gate = IdUuid 4"
    "opt_text (g_target sample_gate) = sc_target (handoff_scope sample_plan)"
    "g_artifact sample_gate = PDict (sc_arguments (handoff_scope sample_plan))"
    by (simp_all add: sample_gate_def opt_text_def Let_def)
  have "check_ok (validate_plan_handoff ''confirmed'' 5 h (Some 5) h')" for h h'
    by (simp add: validate_plan_handoff_ok)
  then have "gate_check id sample_issued sample_gate 20 = Inr (db', allowed_by_lease l)"
    using c eq tgt by (simp add: gate_check_def intent_type_for_action_def ACTION_INTENT_def
        check_confirmed_plan_def consume_for_gate_def g p db Let_def)
  then show ?thesis by (simp add: allowed_by_lease_def)
qed


theorem gate_replay_is_blocked_witness:
  "\<exists>db' d. gate_check id sample_issued sample_gate 20 = Inr (db', d) \<and> d_allowed d
     \<and> \<not> (\<exists>db'' d'. gate_check id db' sample_gate 30 = Inr (db'', d') \<and> d_allowed d')"
proof -
  obtain db' d where g: "gate_check id sample_issued sample_gate 20 = Inr (db', d)" "d_allowed d"
    using sample_gate_allowed by blast
  have "g_plan sample_gate \<noteq> IdNone" by (simp add: sample_gate_def Let_def)
  from gate_replay_is_blocked [OF g this] g show ?thesis by blast
qed

definition waiting_plan :: plan_row where
  "waiting_plan = sample_plan\<lparr>p_status := ''awaiting_confirmation'', p_confirmed_by := None,
     p_confirmed_at := None\<rparr>"

definition waiting_db :: plan_db where
  "waiting_db = \<lparr>plans = (\<lambda>u. if u = 1 then Some waiting_plan else None), approvals = []\<rparr>"

definition rejected_db :: plan_db where
  "rejected_db = waiting_db\<lparr>plans := (\<lambda>u. if u = 1 then Some (waiting_plan\<lparr>p_status := ''rejected''\<rparr>) else None)\<rparr>"

theorem service_follows_status_machine_witness:
  "\<exists>r'. plans (plan_calls id (\<lambda>_. 7) (\<lambda>_. Inr ''p.md'') None rejected_db
       [CallConfirm 1 (Some 4) 5 None None 40, CallReject 1 (Some 4) None 50]) 1 = Some r'
     \<and> p_status r' = ''rejected''"
proof -
  have "keyed_plans rejected_db" "plans rejected_db 1 = Some (waiting_plan\<lparr>p_status := ''rejected''\<rparr>)"
    by (simp_all add: keyed_plans_def rejected_db_def waiting_plan_def sample_plan_def)
  from service_follows_status_machine [OF this, of id "\<lambda>_. 7" "\<lambda>_. Inr ''p.md''" None
    "[CallConfirm 1 (Some 4) 5 None None 40, CallReject 1 (Some 4) None 50]"]
  show ?thesis by (auto simp: TERMINAL_STATUSES_def simp del: plan_calls.simps)
qed

theorem confirmed_plan_reaches_execution_witness:
  "\<exists>db1 p1 db2 p2.
      confirm_plan id (\<lambda>_. 7) (\<lambda>_. Inr ''p.md'') waiting_db None 1 (Some 4) 5 None None None 10 = Inr (db1, p1)
    \<and> handoff_confirmed_plan id (\<lambda>t. Some (\<lambda>d q. (d, Inr [(''handoff_status'', PStr ''queued'')])))
        (\<lambda>d q. d) db1 1 20 = Inr (db2, p2)
    \<and> p_handoff_status p2 = Some ''queued''"
proof -
  have strip: "py_strip ''sha256:ab'' = ''sha256:ab''" by code_simp
  have p: "p_id waiting_plan = 1" "p_status waiting_plan = ''awaiting_confirmation''" "p_tenant waiting_plan = Some 2"
    "p_requested_by waiting_plan = Some 4" "p_hash waiting_plan = Some ''sha256:ab''" "p_version waiting_plan = 5"
    "dget (p_json waiting_plan) ''authorization_scopes'' = PNone"
    "handoff_target waiting_plan = Inr (PStr ''delegation'')" "20 < lease_deadline waiting_plan 10"
    by (simp_all add: waiting_plan_def sample_plan_def dget_def handoff_target_def has_key_def lease_deadline_def
        DEFAULT_LEASE_TTL_def)
  obtain b where b: "handoff_binding id (waiting_plan\<lparr>p_confirmed_by := Some 4\<rparr>) = Inr b"
    using handoff_binding_built [of "waiting_plan\<lparr>p_confirmed_by := Some 4\<rparr>" 2 4 4 id] strip p
    by (auto simp: opt_text_def)
  have "plans waiting_db (p_id waiting_plan) = Some waiting_plan" by (simp add: waiting_db_def p)
  from confirmed_plan_reaches_execution [OF this p(2-5) _ strip p(7,8) _ _ _ p(9) b, where mint = "\<lambda>_. 7"
      and handlers = "\<lambda>t. Some (\<lambda>d q. (d, Inr [(''handoff_status'', PStr ''queued'')]))"
      and f = "\<lambda>d q. (d, Inr [(''handoff_status'', PStr ''queued'')])"
      and path = "\<lambda>q. ''p.md''" and tenant = None and hash = None and reason = None and src = None
      and reconcile = "\<lambda>d q. d"] p
  obtain db1 p1 db2 p2 where r: "confirm_plan id (\<lambda>_. 7) (\<lambda>_. Inr ''p.md'') waiting_db None 1 (Some 4) 5 None None None 10
        = Inr (db1, p1)"
      "handoff_confirmed_plan id (\<lambda>t. Some (\<lambda>d q. (d, Inr [(''handoff_status'', PStr ''queued'')]))) (\<lambda>d q. d) db1 1 20
        = Inr (db2, p2)"
      "p_handoff_status p2 = Some (outcome_status (Inr [(''handoff_status'', PStr ''queued'')]))"
    by (auto simp: waiting_db_def find_by_key_def)
  then show ?thesis by (auto simp: outcome_status_def dget_def)
qed

end
