(* ===== verification/Budget_Ledger.thy ===== *)
theory Budget_Ledger
  imports Py_Std "HOL-Library.Multiset"
begin

text \<open>
  The rows and the pure decisions of the runtime budget,
  \<open>backend/app/services/runtime_budget_service.py\<close>: the eight dimensions, the run, its
  append-only events and the waiting tasks, the amounts arithmetic, the circuit breaker and
  the policy defaults. A ledger holds the rows of one budget run; every operation of the
  service locks one run and touches only rows that carry its id.
\<close>

section \<open>Dimensions\<close>

datatype dim = Tokens | CacheMissTokens | Subagents | TeamSessions | Delegations
  | BackgroundTasks | ContinuationWakes | ProviderCalls

fun dim_name :: "dim \<Rightarrow> string" where
  "dim_name Tokens = ''tokens''"
| "dim_name CacheMissTokens = ''cache_miss_tokens''"
| "dim_name Subagents = ''subagents''"
| "dim_name TeamSessions = ''team_sessions''"
| "dim_name Delegations = ''delegations''"
| "dim_name BackgroundTasks = ''background_tasks''"
| "dim_name ContinuationWakes = ''continuation_wakes''"
| "dim_name ProviderCalls = ''provider_calls''"

definition DIMENSIONS :: "dim list" where
  "DIMENSIONS = [Tokens, CacheMissTokens, Subagents, TeamSessions, Delegations,
     BackgroundTasks, ContinuationWakes, ProviderCalls]"

lemma UNIV_dim: "UNIV = set DIMENSIONS"
  by (auto simp: DIMENSIONS_def intro: dim.exhaust)

text \<open>Amounts per dimension are finite maps: the class \<open>enum\<close> makes their equality executable.\<close>

instantiation dim :: enum
begin

definition enum_dim :: "dim list" where
  "enum_dim = DIMENSIONS"

definition enum_all_dim :: "(dim \<Rightarrow> bool) \<Rightarrow> bool" where
  "enum_all_dim P = list_all P DIMENSIONS"

definition enum_ex_dim :: "(dim \<Rightarrow> bool) \<Rightarrow> bool" where
  "enum_ex_dim P = list_ex P DIMENSIONS"

instance
proof
  show "(UNIV :: dim set) = set enum_class.enum" by (simp add: enum_dim_def UNIV_dim)
  show "distinct (enum_class.enum :: dim list)" by (simp add: enum_dim_def DIMENSIONS_def)
  fix P :: "dim \<Rightarrow> bool"
  have all: "list_all P DIMENSIONS \<longleftrightarrow> (\<forall>d \<in> UNIV. P d)"
    unfolding UNIV_dim by (simp add: list_all_iff)
  have ex: "list_ex P DIMENSIONS \<longleftrightarrow> (\<exists>d \<in> UNIV. P d)"
    unfolding UNIV_dim by (simp add: list_ex_iff)
  show "enum_class.enum_all P = Ball UNIV P" "enum_class.enum_ex P = Bex UNIV P"
    by (simp_all add: enum_all_dim_def enum_ex_dim_def all ex)
qed

end

type_synonym amounts = "dim \<Rightarrow> int"

definition no_amounts :: amounts where
  "no_amounts = (\<lambda>_. 0)"

text \<open>\<open>{key: max(0, int(value or 0)) for key, value in values.items()}\<close>.\<close>

definition positive_amounts :: "amounts \<Rightarrow> amounts" where
  "positive_amounts a = (\<lambda>d. max 0 (a d))"

definition work_amplifying :: "amounts \<Rightarrow> bool" where
  "work_amplifying a =
     list_ex (\<lambda>d. 0 < a d) [Subagents, TeamSessions, Delegations, BackgroundTasks, ContinuationWakes]"

section \<open>Rows\<close>

record budget_run =
  r_id :: uuid
  r_tenant :: uuid
  r_status :: string
  r_enforcement :: string
  r_fail_mode :: string
  r_terminal_reason :: "string option"
  r_max :: "dim \<Rightarrow> int option"
  r_max_failures :: "int option"
  r_max_needs :: "int option"
  r_max_ratio :: "(rat \<times> string) option"
  r_max_parent :: "int option"
  r_reserved :: amounts
  r_used :: amounts
  r_parent_invocations :: int
  r_metadata :: "(string \<times> pyval) list"
  r_expires :: "int option"
  r_completed :: "int option"

record budget_event =
  e_id :: uuid
  e_type :: string
  e_key :: "string option"
  e_allowed :: "bool option"
  e_would_deny :: bool
  e_reason :: "string option"
  e_amounts :: amounts
  e_metadata :: "(string \<times> pyval) list"
  e_task :: "uuid option"

record runtime_task =
  t_id :: uuid
  t_type :: string
  t_status :: string
  t_claimed_by :: "string option"
  t_claim_version :: int
  t_key :: "string option"
  t_admission :: "string option"
  t_terminal_reason :: "string option"
  t_completed :: "int option"
  t_summary :: "string option"
  t_metadata :: "(string \<times> pyval) list"

record ledger =
  the_run :: budget_run
  events :: "budget_event list"
  tasks :: "runtime_task list"

datatype budget_error =
    BudgetNotFound
  | BudgetDenied string "string list"
  | ApprovalRequired string "string list"
  | SettlementConflict string
  | StateConflict string
  | IntegrityViolation string

section \<open>Arithmetic on a run\<close>

definition denied_dimensions :: "budget_run \<Rightarrow> amounts \<Rightarrow> dim list" where
  "denied_dimensions run a =
     filter (\<lambda>d. 0 < a d \<and> (case r_max run d of None \<Rightarrow> False
                 | Some m \<Rightarrow> m < r_reserved run d + r_used run d + a d)) DIMENSIONS"

definition increment_reserved :: "amounts \<Rightarrow> budget_run \<Rightarrow> budget_run" where
  "increment_reserved a run = run\<lparr>r_reserved := (\<lambda>d. r_reserved run d + a d)\<rparr>"

definition increment_used :: "amounts \<Rightarrow> budget_run \<Rightarrow> budget_run" where
  "increment_used a run = run\<lparr>r_used := (\<lambda>d. r_used run d + a d)\<rparr>"

definition release_reserved :: "amounts \<Rightarrow> budget_run \<Rightarrow> budget_run" where
  "release_reserved a run =
     run\<lparr>r_reserved := (\<lambda>d. if 0 < a d then max 0 (r_reserved run d - a d) else r_reserved run d)\<rparr>"

definition clear_reserved :: "budget_run \<Rightarrow> budget_run" where
  "clear_reserved run = run\<lparr>r_reserved := no_amounts\<rparr>"

section \<open>The circuit breaker\<close>

text \<open>\<open>a / b\<close> of ints with \<open>0 < a \<le> b\<close>: the nearest double, ties to even.\<close>

function binary_scale :: "int \<Rightarrow> int \<Rightarrow> nat \<Rightarrow> nat" where
  "binary_scale a b e = (if a \<le> 0 \<or> b * 2 ^ 52 \<le> a * 2 ^ e then e else binary_scale a b (Suc e))"
  by pat_completeness auto
termination
proof (relation "measure (\<lambda>(a, b, e). nat (b * 2 ^ 52 - a * 2 ^ e))", simp)
  fix a b :: int and e :: nat
  assume "\<not> (a \<le> 0 \<or> b * 2 ^ 52 \<le> a * 2 ^ e)"
  then have "0 < a * 2 ^ e" "a * 2 ^ e < b * 2 ^ 52" by simp_all
  then show "((a, b, Suc e), a, b, e) \<in> measure (\<lambda>(a, b, e). nat (b * 2 ^ 52 - a * 2 ^ e))"
    by (simp add: mult.left_commute)
qed

declare binary_scale.simps [simp del]

definition ratio_double :: "int \<Rightarrow> int \<Rightarrow> rat" where
  "ratio_double a b =
     (if a \<le> 0 then 0 else let e = binary_scale a b 0 in
        Fract (round_half_even (a * 2 ^ e) b) (2 ^ e))"

text \<open>\<open>f"{x:.3f}"\<close> of a non-negative number.\<close>

definition format_3f :: "rat \<Rightarrow> string" where
  "format_3f x = (let (p, q) = quotient_of x; n = round_half_even (1000 * p) q in
     str_of_int (n div 1000) @ ''.'' @ pad_left 3 (n mod 1000))"

definition trip_text :: "string \<Rightarrow> int \<Rightarrow> int \<Rightarrow> string" where
  "trip_text name n m = name @ '':'' @ str_of_int n @ ''>='' @ str_of_int m"

definition at_cap :: "int \<Rightarrow> int option \<Rightarrow> bool" where
  "at_cap n m = (case m of None \<Rightarrow> False | Some c \<Rightarrow> 0 < n \<and> c \<le> n)"

definition consumed :: "amounts \<Rightarrow> amounts \<Rightarrow> dim \<Rightarrow> int" where
  "consumed used reserved d =
     used d + (if d \<in> {Tokens, CacheMissTokens} then reserved d else 0)"

definition MIN_CHILDREN_FOR_FAILURE_RATIO :: int where
  "MIN_CHILDREN_FOR_FAILURE_RATIO = 8"

definition evaluate_circuit_breaker ::
  "amounts \<Rightarrow> amounts \<Rightarrow> (dim \<Rightarrow> int option) \<Rightarrow> int option \<Rightarrow> int option \<Rightarrow> int option \<Rightarrow>
   (rat \<times> string) option \<Rightarrow> int \<Rightarrow> int \<Rightarrow> int \<Rightarrow> rat option \<Rightarrow> int \<Rightarrow> int \<Rightarrow> string list" where
  "evaluate_circuit_breaker used reserved maxes max_parent max_failures max_needs max_ratio
       failures needs parent_invocations ratio total_children min_children =
     map (\<lambda>d. trip_text (dim_name d) (consumed used reserved d) (the (maxes d)))
       (filter (\<lambda>d. at_cap (consumed used reserved d) (maxes d)) DIMENSIONS)
   @ (if at_cap parent_invocations max_parent
      then [trip_text ''parent_invocations'' parent_invocations (the max_parent)] else [])
   @ (if at_cap failures max_failures then [trip_text ''failures'' failures (the max_failures)] else [])
   @ (if at_cap needs max_needs then [trip_text ''needs_reconciliation'' needs (the max_needs)] else [])
   @ (case (max_ratio, ratio) of
        (Some (c, text), Some x) \<Rightarrow>
          if 0 < x \<and> min_children \<le> total_children \<and> c \<le> x
          then [''child_failure_ratio:'' @ format_3f x @ ''>='' @ text] else []
      | _ \<Rightarrow> [])"

definition breaker_tripped :: "budget_run \<Rightarrow> int \<Rightarrow> int \<Rightarrow> rat option \<Rightarrow> int \<Rightarrow> string list" where
  "breaker_tripped run failures needs ratio total_children =
     evaluate_circuit_breaker (r_used run) (r_reserved run) (r_max run) (r_max_parent run)
       (r_max_failures run) (r_max_needs run) (r_max_ratio run) failures needs
       (r_parent_invocations run) ratio total_children MIN_CHILDREN_FOR_FAILURE_RATIO"

definition breaker_status_for_fail_mode :: "string \<Rightarrow> string" where
  "breaker_status_for_fail_mode m =
     (if m = ''require_confirmation'' then ''waiting_budget_approval''
      else if m = ''summary_only'' then ''summary_only'' else ''hard_stopped'')"

section \<open>Failure of the budget service, estimates\<close>

record failure_decision =
  fail_open :: bool
  fail_closed :: bool
  disable_work_amplifying :: bool
  failure_reason :: string

definition decide_budget_service_failure :: "string \<Rightarrow> bool \<Rightarrow> bool \<Rightarrow> failure_decision" where
  "decide_budget_service_failure source interactive amplifying =
     (if interactive \<and> \<not> amplifying
      then \<lparr>fail_open = True, fail_closed = False, disable_work_amplifying = True,
            failure_reason = ''interactive_direct_response_budget_service_unavailable''\<rparr>
      else \<lparr>fail_open = False, fail_closed = True, disable_work_amplifying = True,
            failure_reason = (if source = [] then ''runtime'' else source) @ ''_budget_service_unavailable''\<rparr>)"

definition estimate_reservation_tokens :: "int option \<Rightarrow> int option \<Rightarrow> int option \<Rightarrow> int" where
  "estimate_reservation_tokens default_tokens prompt_tokens observed_floor_tokens =
     foldr max (map (\<lambda>v. max 0 v) (List.map_filter id [default_tokens, prompt_tokens, observed_floor_tokens])) 0"

end
