(* ===== verification/Budget_Service.thy ===== *)
theory Budget_Service
  imports Budget_Ledger
begin

text \<open>
  The operations of \<open>RuntimeBudgetService\<close> on one run: reserving, settling, the breaker, and
  the stops. An operation returns the committed ledger and either a value or the exception it
  raises: a denial commits its event and then raises, while an exception before the commit
  leaves the ledger as it was. Committing checks the unique constraints of the event table.
  The remote-agent journal of a task and the terminal settlement of a task (other services,
  which do not touch budget rows) are fields of the environment, as are the clock and uuid4.
\<close>

section \<open>Environment and commits\<close>

record budget_env =
  env_now :: int
  env_mint :: "budget_event list \<Rightarrow> uuid"
  env_finish :: "runtime_task \<Rightarrow> (budget_error, runtime_task) res"
  env_pause :: "string \<Rightarrow> runtime_task \<Rightarrow> runtime_task option"

type_synonym 'a outcome = "ledger \<times> (budget_error, 'a) res"

definition unique_events :: "budget_event list \<Rightarrow> bool" where
  "unique_events es \<longleftrightarrow> distinct (map e_id es)
     \<and> distinct (map (\<lambda>e. (e_key e, e_type e)) (filter (\<lambda>e. e_key e \<noteq> None) es))"

definition commit :: "ledger \<Rightarrow> ledger \<Rightarrow> (budget_error, 'a) res \<Rightarrow> 'a outcome" where
  "commit old new result =
     (if unique_events (events new) then (new, result)
      else (old, Inl (IntegrityViolation ''uq_runtime_budget_event_key_type'')))"

definition existing_event :: "ledger \<Rightarrow> string option \<Rightarrow> string \<Rightarrow> budget_event option" where
  "existing_event l key ty =
     (if key \<in> {None, Some []} then None
      else find (\<lambda>e. e_key e = key \<and> e_type e = ty) (events l))"

definition new_event ::
  "budget_env \<Rightarrow> ledger \<Rightarrow> string \<Rightarrow> string option \<Rightarrow> bool option \<Rightarrow> bool \<Rightarrow> string option \<Rightarrow> amounts \<Rightarrow>
   uuid option \<Rightarrow> (string \<times> pyval) list \<Rightarrow> budget_event" where
  "new_event env l ty key allowed would_deny reason amounts task metadata =
     \<lparr>e_id = env_mint env (events l), e_type = ty, e_key = key, e_allowed = allowed,
      e_would_deny = would_deny, e_reason = reason, e_amounts = amounts, e_metadata = metadata,
      e_task = task\<rparr>"

definition add_event :: "budget_event \<Rightarrow> ledger \<Rightarrow> ledger" where
  "add_event e l = l\<lparr>events := events l @ [e]\<rparr>"

definition bind_approval_episode :: "budget_event \<Rightarrow> ledger \<Rightarrow> ledger" where
  "bind_approval_episode e l = l\<lparr>the_run := (the_run l)\<lparr>r_metadata :=
     AList.update ''approval_episode_id'' (PStr (uuid_str (e_id e))) (r_metadata (the_run l))\<rparr>\<rparr>"

text \<open>\<open>{**d, **e}\<close>.\<close>

definition merge_dicts :: "(string \<times> pyval) list \<Rightarrow> (string \<times> pyval) list \<Rightarrow> (string \<times> pyval) list" where
  "merge_dicts d e = foldl (\<lambda>acc kv. AList.update (fst kv) (snd kv) acc) d e"

section \<open>Task evidence\<close>

definition OUTER_ACTUALS :: "(string \<times> (dim \<times> int) list) list" where
  "OUTER_ACTUALS =
     [(''subagent'', [(Subagents, 1), (BackgroundTasks, 1)]),
      (''delegation'', [(Delegations, 1), (BackgroundTasks, 1)]),
      (''remote_a2a'', [(Delegations, 1), (BackgroundTasks, 1)]),
      (''trigger'', [(BackgroundTasks, 1)]),
      (''workflow'', [(BackgroundTasks, 1)])]"

definition actuals_dict :: "(dim \<times> int) list \<Rightarrow> (string \<times> pyval) list" where
  "actuals_dict = map (\<lambda>(d, n). (dim_name d, PInt n))"

definition runtime_task_outer_budget_actuals :: "runtime_task \<Rightarrow> (string \<times> pyval) list" where
  "runtime_task_outer_budget_actuals task =
     (if (case t_key task of None \<Rightarrow> [] | Some k \<Rightarrow> py_strip k) = [] then []
      else if t_admission task \<notin> {Some ''approved'', Some ''reserved'', Some ''settled''} then []
      else case map_of OUTER_ACTUALS (t_type task) of None \<Rightarrow> [] | Some a \<Rightarrow> actuals_dict a)"

definition runtime_task_actuals_for_outer_reservation ::
  "runtime_task \<Rightarrow> amounts \<Rightarrow> (string \<times> pyval) list" where
  "runtime_task_actuals_for_outer_reservation task reserved =
     (case map_of OUTER_ACTUALS (t_type task) of
        Some a \<Rightarrow> actuals_dict a
      | None \<Rightarrow>
          if t_type task = ''team_member''
          then actuals_dict (List.map_filter (\<lambda>d. if 0 < reserved d then Some (d, reserved d) else None)
                 [TeamSessions, BackgroundTasks, ContinuationWakes])
          else [])"

text \<open>The normalised actuals of a mapping; a value \<open>int()\<close> refuses makes the stamp conflict.\<close>

fun normalize_actuals :: "(string \<times> pyval) list \<Rightarrow> dim list \<Rightarrow> (string, (string \<times> pyval) list) res" where
  "normalize_actuals a [] = Inr []"
| "normalize_actuals a (d # ds) =
     bind_res (py_int (py_or (dget a (dim_name d)) (PInt 0))) (\<lambda>n.
     bind_res (normalize_actuals a ds) (\<lambda>rest.
     Inr (if 0 < n then (dim_name d, PInt n) # rest else rest)))"

definition stamp_conflict :: "runtime_task \<Rightarrow> string \<Rightarrow> budget_error" where
  "stamp_conflict task what = SettlementConflict (what @ '' for RuntimeTask '' @ uuid_str (t_id task))"

definition stamp_runtime_task_budget_actuals ::
  "runtime_task \<Rightarrow> pyval \<Rightarrow> (budget_error, runtime_task) res" where
  "stamp_runtime_task_budget_actuals task actuals =
     (case as_dict actuals of
        None \<Rightarrow> Inl (IntegrityViolation ''AttributeError'')
      | Some a \<Rightarrow>
        (case normalize_actuals a DIMENSIONS of
           Inl _ \<Rightarrow> Inl (stamp_conflict task ''invalid runtime budget actuals'')
         | Inr normalized \<Rightarrow>
             let stamped = task\<lparr>t_metadata :=
                   AList.update ''runtime_budget_actuals'' (PDict normalized) (t_metadata task)\<rparr> in
             (case dget (t_metadata task) ''runtime_budget_actuals'' of
                PNone \<Rightarrow> Inr stamped
              | PDict old \<Rightarrow>
                  (case normalize_actuals old DIMENSIONS of
                     Inl _ \<Rightarrow> Inl (stamp_conflict task ''invalid runtime budget actuals'')
                   | Inr normalized_old \<Rightarrow>
                       if normalized_old \<noteq> normalized
                       then Inl (stamp_conflict task ''runtime budget actuals conflict'')
                       else Inr stamped)
              | _ \<Rightarrow> Inl (stamp_conflict task ''invalid runtime budget actuals''))))"

section \<open>Cancelling work that was not claimed\<close>

definition task_key :: "runtime_task \<Rightarrow> string" where
  "task_key task = (case t_key task of None \<Rightarrow> [] | Some k \<Rightarrow> py_strip k)"

definition unclaimed :: "runtime_task \<Rightarrow> bool" where
  "unclaimed task \<longleftrightarrow> t_status task \<in> {''pending'', ''resumable'', ''suspended''} \<and> t_claimed_by task = None"

definition reservation_conflict :: "ledger \<Rightarrow> string \<Rightarrow> budget_error" where
  "reservation_conflict l key = SettlementConflict (''reservation runtime task conflict for ''
     @ uuid_str (r_id (the_run l)) @ '':'' @ key)"

text \<open>The evidence of usage a cancelled task is stamped with.\<close>

definition stamp_cancelled :: "ledger \<Rightarrow> runtime_task \<Rightarrow> (budget_error, runtime_task) res" where
  "stamp_cancelled l task =
     (case dget (t_metadata task) ''runtime_budget_actuals'' of
        PNone \<Rightarrow>
          (case existing_event l (Some (task_key task)) ''reservation'' of
             None \<Rightarrow> Inr task
           | Some res \<Rightarrow>
               if e_task res = Some (t_id task)
               then (let exact = runtime_task_actuals_for_outer_reservation task (e_amounts res) in
                     if exact = [] then Inr task
                     else stamp_runtime_task_budget_actuals task (PDict exact))
               else if e_task res = None then Inr task
               else Inl (reservation_conflict l (task_key task)))
      | v \<Rightarrow> stamp_runtime_task_budget_actuals task v)"

definition cancel_task ::
  "budget_env \<Rightarrow> ledger \<Rightarrow> string \<Rightarrow> string \<Rightarrow> runtime_task \<Rightarrow> (budget_error, runtime_task) res" where
  "cancel_task env l terminal_reason summary task =
     (if \<not> unclaimed task then Inr task
      else case env_pause env terminal_reason task of
        Some paused \<Rightarrow> Inr paused
      | None \<Rightarrow>
          bind_res (stamp_cancelled l task) (\<lambda>task.
          env_finish env (task\<lparr>t_status := ''killed'', t_completed := Some (env_now env),
            t_admission := Some ''cancelled'', t_terminal_reason := Some terminal_reason,
            t_summary := Some summary, t_claim_version := t_claim_version task + 1\<rparr>)))"

fun map_res :: "('a \<Rightarrow> ('e, 'b) res) \<Rightarrow> 'a list \<Rightarrow> ('e, 'b list) res" where
  "map_res f [] = Inr []"
| "map_res f (x # xs) = bind_res (f x) (\<lambda>y. bind_res (map_res f xs) (\<lambda>ys. Inr (y # ys)))"

definition cancel_pending_unclaimed_tasks ::
  "budget_env \<Rightarrow> string \<Rightarrow> string \<Rightarrow> ledger \<Rightarrow> (budget_error, ledger) res" where
  "cancel_pending_unclaimed_tasks env terminal_reason summary l =
     bind_res (map_res (cancel_task env l terminal_reason summary) (tasks l)) (\<lambda>ts.
     Inr (l\<lparr>tasks := ts\<rparr>))"

section \<open>Applying a tripped breaker\<close>

definition freeze_task :: "ledger \<Rightarrow> string \<Rightarrow> runtime_task \<Rightarrow> (budget_error, runtime_task) res" where
  "freeze_task l reason task =
     (if \<not> unclaimed task then Inr task
      else
        bind_res
          (if task_key task \<noteq> [] then
             (case existing_event l (Some (task_key task)) ''reservation'' of
                None \<Rightarrow> Inr task
              | Some res \<Rightarrow>
                  if e_task res \<noteq> Some (t_id task) then Inl (reservation_conflict l (task_key task))
                  else stamp_runtime_task_budget_actuals task
                         (PDict (runtime_task_actuals_for_outer_reservation task (e_amounts res))))
           else Inr (task\<lparr>t_metadata := AList.update ''budget_admission_status_before_breaker''
                  (case t_admission task of None \<Rightarrow> PNone | Some a \<Rightarrow> PStr a) (t_metadata task)\<rparr>))
          (\<lambda>task. Inr (task\<lparr>t_admission := Some ''waiting_budget_approval'',
             t_terminal_reason := Some reason\<rparr>)))"

definition set_run :: "(budget_run \<Rightarrow> budget_run) \<Rightarrow> ledger \<Rightarrow> ledger" where
  "set_run f l = l\<lparr>the_run := f (the_run l)\<rparr>"

definition move_run :: "string \<Rightarrow> string option \<Rightarrow> int option \<Rightarrow> budget_run \<Rightarrow> budget_run" where
  "move_run status reason completed run =
     run\<lparr>r_status := status, r_terminal_reason := reason, r_completed := completed\<rparr>"

definition join_reasons :: "string list \<Rightarrow> string" where
  "join_reasons = py_join '',''"

definition str_list :: "string list \<Rightarrow> pyval" where
  "str_list xs = PList (map PStr xs)"

definition trip_run :: "budget_env \<Rightarrow> string \<Rightarrow> string \<Rightarrow> ledger \<Rightarrow> ledger" where
  "trip_run env target reason l =
     (let l1 = set_run (move_run target (Some reason)
            (if target = ''waiting_budget_approval'' then None else Some (env_now env))) l in
      if target = ''hard_stopped'' then set_run clear_reserved l1 else l1)"

definition trip_tasks :: "budget_env \<Rightarrow> string \<Rightarrow> string \<Rightarrow> ledger \<Rightarrow> (budget_error, ledger) res" where
  "trip_tasks env target reason l =
     (if target = ''waiting_budget_approval''
      then bind_res (map_res (freeze_task l reason) (tasks l)) (\<lambda>ts. Inr (l\<lparr>tasks := ts\<rparr>))
      else cancel_pending_unclaimed_tasks env reason
        (if target = ''summary_only''
         then ''Runtime budget circuit breaker moved this run to summary-only before this work was claimed.''
         else ''Runtime budget circuit breaker stopped this work before it was claimed.'') l)"

definition breaker_event ::
  "budget_env \<Rightarrow> ledger \<Rightarrow> string \<Rightarrow> string \<Rightarrow> string list \<Rightarrow> string \<Rightarrow> string option \<Rightarrow> budget_event" where
  "breaker_event env l target reason tripped actor source =
     new_event env l ''circuit_break'' None (Some False) True (Some reason) no_amounts None
       [(''actor'', PStr actor), (''source'', case source of None \<Rightarrow> PNone | Some t \<Rightarrow> PStr t),
        (''fail_mode'', PStr (r_fail_mode (the_run l))), (''target_status'', PStr target),
        (''tripped_dimensions'', str_list tripped)]"

definition apply_breaker ::
  "budget_env \<Rightarrow> string list \<Rightarrow> string \<Rightarrow> string option \<Rightarrow> ledger \<Rightarrow> (budget_error, ledger) res" where
  "apply_breaker env tripped actor source l =
     (if r_status (the_run l) \<noteq> ''active'' then Inr l
      else
        let target = breaker_status_for_fail_mode (r_fail_mode (the_run l));
            reason = ''runtime_budget_circuit_break:'' @ join_reasons tripped in
        bind_res (trip_tasks env target reason (trip_run env target reason l)) (\<lambda>l1.
        let e = breaker_event env l1 target reason tripped actor source in
        Inr (add_event e (if target = ''waiting_budget_approval'' then bind_approval_episode e l1 else l1))))"

section \<open>Reserving\<close>

record reservation =
  q_key :: string
  q_amounts :: amounts
  q_reason :: "string option"
  q_task :: "uuid option"
  q_metadata :: "(string \<times> pyval) list"

record reserve_result =
  res_allowed :: bool
  res_would_deny :: bool
  res_idempotent :: bool
  res_denied :: "dim list"

definition text_or :: "string option \<Rightarrow> string \<Rightarrow> string" where
  "text_or x d = (case x of None \<Rightarrow> d | Some s \<Rightarrow> if s = [] then d else s)"

text \<open>The message and the dimensions a recorded denial is replayed with.\<close>

definition denial_message :: "budget_event \<Rightarrow> string \<Rightarrow> string" where
  "denial_message e d =
     py_str (py_or (dget (e_metadata e) ''denial_message'')
       (py_or (case e_reason e of None \<Rightarrow> PNone | Some r \<Rightarrow> PStr r) (PStr d)))"

definition denial_dimensions :: "budget_event \<Rightarrow> string list" where
  "denial_dimensions e =
     (case dget (e_metadata e) ''denied_dimensions'' of PList vs \<Rightarrow> map py_str vs | _ \<Rightarrow> [])"

definition key_conflict :: "string \<Rightarrow> ledger \<Rightarrow> string \<Rightarrow> budget_error" where
  "key_conflict what l key =
     SettlementConflict (what @ '' conflict for '' @ uuid_str (r_id (the_run l)) @ '':'' @ key)"

definition is_summary_turn :: "reservation \<Rightarrow> bool" where
  "is_summary_turn q = truthy (dget (q_metadata q) ''budget_summary_turn'')"

definition reservation_event :: "budget_env \<Rightarrow> ledger \<Rightarrow> reservation \<Rightarrow> bool \<Rightarrow> string option \<Rightarrow>
    (string \<times> pyval) list \<Rightarrow> budget_event" where
  "reservation_event env l q would_deny reason metadata =
     new_event env l ''reservation'' (Some (q_key q)) (Some True) would_deny reason
       (positive_amounts (q_amounts q)) (q_task q) metadata"

definition denial_event :: "budget_env \<Rightarrow> ledger \<Rightarrow> reservation \<Rightarrow> string option \<Rightarrow>
    (string \<times> pyval) list \<Rightarrow> budget_event" where
  "denial_event env l q reason metadata =
     new_event env l ''denial'' (Some (q_key q)) (Some False) True reason
       (positive_amounts (q_amounts q)) (q_task q) metadata"

text \<open>A key that was seen before: the replay of a reservation, or of a pending denial.\<close>

definition replay_reservation :: "ledger \<Rightarrow> reservation \<Rightarrow> budget_event \<Rightarrow> (budget_error, reserve_result) res" where
  "replay_reservation l q e =
     (if e_task e \<noteq> q_task q then Inl (key_conflict ''reservation runtime task'' l (q_key q))
      else if positive_amounts (e_amounts e) \<noteq> positive_amounts (q_amounts q)
      then Inl (key_conflict ''reservation amounts'' l (q_key q))
      else Inr \<lparr>res_allowed = (e_allowed e = Some True), res_would_deny = e_would_deny e,
                res_idempotent = True, res_denied = []\<rparr>)"

definition replay_denial :: "ledger \<Rightarrow> reservation \<Rightarrow> budget_event \<Rightarrow> (budget_error, unit) res" where
  "replay_denial l q e =
     (let status = r_status (the_run l) in
      if e_task e \<noteq> q_task q then Inl (key_conflict ''denial runtime task'' l (q_key q))
      else if positive_amounts (e_amounts e) \<noteq> positive_amounts (q_amounts q)
      then Inl (key_conflict ''denial amounts'' l (q_key q))
      else if status = ''waiting_budget_approval''
      then Inl (ApprovalRequired (denial_message e ''runtime budget approval required'') (denial_dimensions e))
      else if status \<noteq> ''active''
      then Inl (BudgetDenied (denial_message e (''budget run is '' @ status)) (denial_dimensions e))
      else Inr ())"

text \<open>A fresh denial on an active run moves the run by its fail mode.\<close>

definition mark_waiting_task :: "reservation \<Rightarrow> string \<Rightarrow> runtime_task \<Rightarrow> runtime_task" where
  "mark_waiting_task q reason task =
     (if q_task q = Some (t_id task) \<and> t_status task \<in> {''pending'', ''resumable''} \<and> t_claimed_by task = None
      then task\<lparr>t_admission := Some ''waiting_budget_approval'', t_terminal_reason := Some reason\<rparr>
      else task)"

definition exhaust_run :: "budget_env \<Rightarrow> reservation \<Rightarrow> string \<Rightarrow> ledger \<Rightarrow> (budget_error, ledger) res" where
  "exhaust_run env q denied l =
     (if r_status (the_run l) \<noteq> ''active'' then Inr l
      else if r_fail_mode (the_run l) = ''summary_only''
      then cancel_pending_unclaimed_tasks env ''runtime_budget_summary_only''
             ''Runtime budget moved to summary-only before this work was claimed.''
             (set_run (move_run ''summary_only'' (Some (''runtime_budget_summary_only:'' @ denied))
                (Some (env_now env))) l)
      else if r_fail_mode (the_run l) = ''require_confirmation''
      then (let reason = ''runtime_budget_approval_required:'' @ denied;
                l1 = set_run (move_run ''waiting_budget_approval'' (Some reason) None) l in
            Inr (l1\<lparr>tasks := map (mark_waiting_task q reason) (tasks l1)\<rparr>))
      else cancel_pending_unclaimed_tasks env ''runtime_budget_exhausted''
             ''Runtime budget exhausted before this work was claimed.''
             (set_run (move_run ''exhausted'' (Some (''runtime_budget_exhausted:'' @ denied))
                (Some (env_now env))) l))"

definition deny_reservation ::
  "budget_env \<Rightarrow> reservation \<Rightarrow> dim list \<Rightarrow> ledger \<Rightarrow> reserve_result outcome" where
  "deny_reservation env q denied l =
     (let names = map dim_name denied;
          transitioned = (r_status (the_run l) = ''active'') in
      case exhaust_run env q (join_reasons names) l of
        Inl e \<Rightarrow> (l, Inl e)
      | Inr l1 \<Rightarrow>
        let status = r_status (the_run l1);
            waiting = (status = ''waiting_budget_approval'');
            message = (if waiting then ''runtime budget approval required: '' else ''runtime budget exhausted: '')
                        @ join_reasons names;
            e = denial_event env l1 q (Some (text_or (q_reason q) ''runtime budget exhausted''))
                  (AList.update ''denial_message'' (PStr message) (AList.update ''target_status'' (PStr status)
                    (merge_dicts [(''denied_dimensions'', str_list names)] (q_metadata q))));
            l2 = (if transitioned \<and> waiting then bind_approval_episode e l1 else l1) in
        commit l (add_event e l2)
          (Inl (if waiting then ApprovalRequired message names else BudgetDenied message names)))"

definition reserve :: "budget_env \<Rightarrow> reservation \<Rightarrow> ledger \<Rightarrow> reserve_result outcome" where
  "reserve env q l =
     (let amounts = positive_amounts (q_amounts q);
          run = the_run l;
          status = r_status run in
      case existing_event l (Some (q_key q)) ''reservation'' of
        Some e \<Rightarrow> (l, replay_reservation l q e)
      | None \<Rightarrow>
        case (case existing_event l (Some (q_key q)) ''denial'' of
                None \<Rightarrow> Inr () | Some e \<Rightarrow> replay_denial l q e) of
          Inl err \<Rightarrow> (l, Inl err)
        | Inr _ \<Rightarrow>
          if status = ''summary_only'' \<and> work_amplifying amounts
          then let m = ''summary_only_disallows_work_amplification'' in
            commit l (add_event (denial_event env l q (Some m)
                (AList.update ''denial_message'' (PStr m) (q_metadata q))) l)
              (Inl (BudgetDenied m []))
          else if status \<notin> {''active'', ''summary_only''}
          then let m = text_or (r_terminal_reason run) (''budget run is '' @ status) in
            commit l (add_event (denial_event env l q (Some m) (q_metadata q)) l)
              (Inl (if status = ''waiting_budget_approval'' then ApprovalRequired m [] else BudgetDenied m []))
          else if status = ''summary_only'' \<and> is_summary_turn q
          then commit l (add_event (reservation_event env l q True (Some ''budget_summary_turn_lane'')
                 (q_metadata q)) (set_run (increment_reserved amounts) l))
               (Inr \<lparr>res_allowed = True, res_would_deny = True, res_idempotent = False, res_denied = []\<rparr>)
          else
            let denied = denied_dimensions run amounts in
            if r_enforcement run \<noteq> ''observe'' \<and> denied \<noteq> [] then deny_reservation env q denied l
            else commit l (add_event (reservation_event env l q (denied \<noteq> []) (q_reason q)
                   (merge_dicts [(''denied_dimensions'', str_list (map dim_name denied))] (q_metadata q)))
                   (set_run (increment_reserved amounts) l))
                 (Inr \<lparr>res_allowed = True, res_would_deny = (denied \<noteq> []), res_idempotent = False,
                   res_denied = denied\<rparr>))"

section \<open>Settling\<close>

definition settle :: "budget_env \<Rightarrow> reservation \<Rightarrow> ledger \<Rightarrow> unit outcome" where
  "settle env q l =
     (let actual = positive_amounts (q_amounts q) in
      case existing_event l (Some (q_key q)) ''reservation'' of
        None \<Rightarrow> (l, Inl (SettlementConflict (''reservation missing for settlement ''
                  @ uuid_str (r_id (the_run l)) @ '':'' @ q_key q)))
      | Some res \<Rightarrow>
        case existing_event l (Some (q_key q)) ''settlement'' of
          Some old \<Rightarrow>
            (l, if e_task old \<noteq> q_task q then Inl (key_conflict ''settlement runtime task'' l (q_key q))
                else if e_task res \<noteq> q_task q then Inl (key_conflict ''reservation runtime task'' l (q_key q))
                else if positive_amounts (e_amounts old) \<noteq> actual
                then Inl (key_conflict ''settlement actuals'' l (q_key q))
                else Inr ())
        | None \<Rightarrow>
          if e_task res \<noteq> q_task q then (l, Inl (key_conflict ''reservation runtime task'' l (q_key q)))
          else
            let l1 = set_run (\<lambda>r. increment_used actual (release_reserved (e_amounts res) r)) l;
                l2 = add_event (new_event env l1 ''settlement'' (Some (q_key q)) (Some True) False (q_reason q)
                       actual (q_task q) (q_metadata q)) l1;
                tripped = breaker_tripped (the_run l2) 0 0 None 0 in
            (case (if tripped = [] then Inr l2
                   else apply_breaker env tripped ''settlement'' (q_reason q) l2) of
               Inl e \<Rightarrow> (l, Inl e)
             | Inr l3 \<Rightarrow> commit l l3 (Inr ())))"

end
