(* ===== verification/Budget_Control.thy ===== *)
theory Budget_Control
  imports Budget_Service
begin

text \<open>
  The control operations of \<open>RuntimeBudgetService\<close>: the wake breaker, the stops, expiry, the
  summary turn, and the human decision on an overrun. Rows of other services that a decision
  also writes (the runtime root ledger, the transition outbox, worker wake-ups) are left out;
  the validation of a budget-increase request is an argument.
\<close>

section \<open>Stops\<close>

definition stop_event :: "budget_env \<Rightarrow> ledger \<Rightarrow> string \<Rightarrow> string \<Rightarrow> (string \<times> pyval) list \<Rightarrow> budget_event" where
  "stop_event env l ty reason metadata =
     new_event env l ty None None False (Some reason) no_amounts None metadata"

definition opt_uuid_text :: "uuid option \<Rightarrow> pyval" where
  "opt_uuid_text x = (case x of None \<Rightarrow> PNone | Some u \<Rightarrow> PStr (uuid_str u))"

definition hard_stop_run :: "budget_env \<Rightarrow> uuid \<Rightarrow> string \<Rightarrow> string \<Rightarrow> ledger \<Rightarrow> (budget_run option) outcome" where
  "hard_stop_run env tenant reason actor l =
     (if r_tenant (the_run l) \<noteq> tenant then (l, Inr None)
      else if r_status (the_run l) \<notin> {''active'', ''summary_only''} then (l, Inr (Some (the_run l)))
      else
        let l1 = set_run (\<lambda>r. clear_reserved (move_run ''hard_stopped'' (Some reason) (Some (env_now env)) r)) l in
        case cancel_pending_unclaimed_tasks env ''runtime_budget_hard_stopped''
            ''Runtime budget circuit breaker stopped this work before it was claimed.'' l1 of
          Inl e \<Rightarrow> (l, Inl e)
        | Inr l2 \<Rightarrow>
            let l3 = add_event (stop_event env l2 ''hard_stopped'' reason [(''actor'', PStr actor)]) l2 in
            commit l l3 (Inr (Some (the_run l3))))"

definition cancel_run :: "budget_env \<Rightarrow> uuid \<Rightarrow> string \<Rightarrow> uuid option \<Rightarrow> ledger \<Rightarrow> (budget_run option) outcome" where
  "cancel_run env tenant reason actor l =
     (if r_tenant (the_run l) \<noteq> tenant then (l, Inr None)
      else
        let l1 = set_run (\<lambda>r. clear_reserved (move_run ''cancelled'' (Some reason) (Some (env_now env)) r)) l;
            l2 = add_event (stop_event env l1 ''cancelled'' reason
                   [(''actor_user_id'', opt_uuid_text actor), (''target_status'', PStr ''cancelled'')]) l1 in
        case cancel_pending_unclaimed_tasks env ''budget_run_cancelled''
            ''Runtime budget run was cancelled before this work was claimed.'' l2 of
          Inl e \<Rightarrow> (l, Inl e)
        | Inr l3 \<Rightarrow> commit l l3 (Inr (Some (the_run l3))))"

text \<open>Expiry of one run of the batch; the flag tells whether the query selected it.\<close>

definition expire_run :: "budget_env \<Rightarrow> ledger \<Rightarrow> bool outcome" where
  "expire_run env l =
     (let run = the_run l in
      if r_status run \<notin> {''active'', ''waiting_budget_approval''}
         \<or> (case r_expires run of None \<Rightarrow> True | Some t \<Rightarrow> env_now env < t)
      then (l, Inr False)
      else
        let l1 = set_run (\<lambda>r. clear_reserved (move_run ''expired'' (Some ''budget_run_expired'')
                   (Some (env_now env)) r)) l;
            l2 = add_event (stop_event env l1 ''expired'' ''budget_run_expired''
                   [(''target_status'', PStr ''expired'')]) l1 in
        case cancel_pending_unclaimed_tasks env ''budget_run_expired''
            ''Runtime budget expired before this work was claimed.'' l2 of
          Inl e \<Rightarrow> (l, Inl e)
        | Inr l3 \<Rightarrow> commit l l3 (Inr True))"

section \<open>The breaker at a parent wake\<close>

definition CHILD_TERMINAL_STATUSES :: "string list" where
  "CHILD_TERMINAL_STATUSES = [''completed'', ''failed'', ''killed'', ''needs_reconciliation'']"

definition child_statuses :: "ledger \<Rightarrow> string list" where
  "child_statuses l = map t_status (filter (\<lambda>t. t_type t = ''subagent''
     \<and> t_status t \<in> set CHILD_TERMINAL_STATUSES) (tasks l))"

definition count_in :: "string list \<Rightarrow> string list \<Rightarrow> int" where
  "count_in wanted statuses = int (length (filter (\<lambda>s. s \<in> set wanted) statuses))"

definition evaluate_wake_breaker :: "budget_env \<Rightarrow> uuid option \<Rightarrow> ledger \<Rightarrow> (string option) outcome" where
  "evaluate_wake_breaker env tenant l =
     (let run = the_run l in
      if tenant \<notin> {None, Some (r_tenant run)} then (l, Inr None)
      else if r_status run \<noteq> ''active''
      then (l, Inr (Some (text_or (r_terminal_reason run) (''budget run is '' @ r_status run))))
      else
        let statuses = child_statuses l;
            total = int (length statuses);
            failed = count_in [''failed'', ''killed''] statuses;
            needs = count_in [''needs_reconciliation''] statuses;
            l1 = set_run (\<lambda>r. r\<lparr>r_parent_invocations := r_parent_invocations r + 1\<rparr>) l;
            tripped = breaker_tripped (the_run l1) failed needs
                        (if total = 0 then None else Some (ratio_double failed total)) total in
        if tripped = [] then commit l l1 (Inr None)
        else case apply_breaker env tripped ''subagent_wake_consumer'' (Some ''parent_wake'') l1 of
          Inl e \<Rightarrow> (l, Inl e)
        | Inr l2 \<Rightarrow> commit l l2 (Inr (Some (''runtime_budget_circuit_break:'' @ join_reasons tripped))))"

section \<open>The summary turn\<close>

definition mark_summary_turn_state ::
  "budget_env \<Rightarrow> uuid \<Rightarrow> pyval list \<Rightarrow> string \<Rightarrow> (string \<times> pyval) list \<Rightarrow> ledger \<Rightarrow> bool outcome" where
  "mark_summary_turn_state env tenant expected_states new_state extra l =
     (if r_tenant (the_run l) \<noteq> tenant then (l, Inr False)
      else
        let metadata = r_metadata (the_run l);
            current = dget metadata ''summary_turn_state'' in
        if current \<notin> set expected_states then (l, Inr False)
        else
          let m = merge_dicts (AList.update ''summary_turn_state_at'' (PStr (isoformat (env_now env)))
                    (AList.update ''summary_turn_state'' (PStr new_state) metadata)) extra;
              l1 = set_run (\<lambda>r. r\<lparr>r_metadata := m\<rparr>) l;
              e = stop_event env l1 ''summary_turn'' (''summary_turn_state:'' @ new_state)
                    (merge_dicts [(''from'', current), (''to'', PStr new_state)] extra) in
          commit l (add_event e l1) (Inr True))"

section \<open>The decision on an overrun\<close>

record overrun_decision =
  v_reason :: string
  v_episode :: uuid
  v_actor :: "uuid option"
  v_increase :: "uuid option"
  v_enforcement :: string
  v_limits :: "dim \<Rightarrow> int option"

definition approval_episode :: "ledger \<Rightarrow> uuid option" where
  "approval_episode l =
     (let raw = dget (r_metadata (the_run l)) ''approval_episode_id'';
          bound = (if truthy raw then uuid_of_text (py_str raw) else None) in
      if bound \<noteq> None \<or> r_status (the_run l) \<noteq> ''waiting_budget_approval'' then bound
      else map_option e_id (find (\<lambda>e. e_type e \<in> {''denial'', ''circuit_break''}
             \<and> eq_str (dget (e_metadata e) ''target_status'') ''waiting_budget_approval'') (rev (events l))))"

definition limits_dict :: "(dim \<Rightarrow> int option) \<Rightarrow> (string \<times> pyval) list" where
  "limits_dict limits = List.map_filter (\<lambda>d. map_option (\<lambda>n. (''max_'' @ dim_name d, PInt n)) (limits d)) DIMENSIONS"

definition same_decision :: "overrun_decision \<Rightarrow> budget_event \<Rightarrow> bool" where
  "same_decision v e =
     (e_reason e = Some (v_reason v)
      \<and> dget (e_metadata e) ''actor_user_id'' = opt_uuid_text (v_actor v)
      \<and> dget (e_metadata e) ''approval_episode_id'' = PStr (uuid_str (v_episode v))
      \<and> dget (e_metadata e) ''increase_request_id'' = opt_uuid_text (v_increase v))"

definition last_event :: "string \<Rightarrow> ledger \<Rightarrow> budget_event option" where
  "last_event ty l = find (\<lambda>e. e_type e = ty) (rev (events l))"

definition state_conflict :: "ledger \<Rightarrow> string \<Rightarrow> budget_error" where
  "state_conflict l what = StateConflict (''runtime budget run '' @ uuid_str (r_id (the_run l)) @ '' is ''
     @ r_status (the_run l) @ ''; overrun '' @ what @ '' requires waiting_budget_approval'')"

text \<open>Raising the caps of a run so that one denied amount fits.\<close>

definition required_max :: "budget_run \<Rightarrow> amounts \<Rightarrow> dim \<Rightarrow> int" where
  "required_max run a d = r_used run d + r_reserved run d + a d"

definition cap_too_low :: "budget_run \<Rightarrow> amounts \<Rightarrow> dim \<Rightarrow> bool" where
  "cap_too_low run a d =
     (0 < a d \<and> (case r_max run d of None \<Rightarrow> False | Some m \<Rightarrow> m < required_max run a d))"

definition raise_caps :: "amounts \<Rightarrow> budget_run \<Rightarrow> budget_run" where
  "raise_caps a run =
     run\<lparr>r_max := (\<lambda>d. if cap_too_low run a d then Some (required_max run a d) else r_max run d)\<rparr>"

definition waiting_tasks :: "ledger \<Rightarrow> runtime_task list" where
  "waiting_tasks l = filter (\<lambda>t. unclaimed t \<and> t_admission t = Some ''waiting_budget_approval'') (tasks l)"

definition waiting_task_for :: "runtime_task list \<Rightarrow> string \<Rightarrow> uuid option \<Rightarrow> runtime_task option" where
  "waiting_task_for waiting key task =
     (case find (\<lambda>t. task_key t = key) (rev waiting) of
        Some t \<Rightarrow> Some t
      | None \<Rightarrow> (case task of None \<Rightarrow> None | Some u \<Rightarrow> find (\<lambda>t. t_id t = u) (rev waiting)))"

definition put_task :: "runtime_task \<Rightarrow> ledger \<Rightarrow> ledger" where
  "put_task t l = l\<lparr>tasks := map (\<lambda>x. if t_id x = t_id t then t else x) (tasks l)\<rparr>"

definition approved_task :: "runtime_task \<Rightarrow> amounts \<Rightarrow> (budget_error, runtime_task) res" where
  "approved_task t a =
     (let t1 = t\<lparr>t_admission := Some ''approved'', t_terminal_reason := None, t_completed := None\<rparr> in
      if t_type t = ''team_member''
      then stamp_runtime_task_budget_actuals t1 (PDict (runtime_task_actuals_for_outer_reservation t1 a))
      else Inr t1)"

text \<open>The waiting tasks are looked up once; each is then read and written as the rows are now.\<close>

definition task_now :: "ledger \<Rightarrow> runtime_task \<Rightarrow> runtime_task" where
  "task_now l t = (case find (\<lambda>x. t_id x = t_id t) (tasks l) of None \<Rightarrow> t | Some x \<Rightarrow> x)"

definition approve_denial ::
  "budget_env \<Rightarrow> overrun_decision \<Rightarrow> runtime_task list \<Rightarrow> ledger \<times> uuid list \<Rightarrow> budget_event \<Rightarrow>
   (budget_error, ledger \<times> uuid list) res" where
  "approve_denial env v waiting = (\<lambda>(l, resumed) denial.
     let key = py_strip (case e_key denial of None \<Rightarrow> [] | Some k \<Rightarrow> k) in
     if key = [] \<or> existing_event l (Some key) ''reservation'' \<noteq> None then Inr (l, resumed)
     else
       let a = positive_amounts (e_amounts denial) in
       if v_increase v \<noteq> None \<and> list_ex (cap_too_low (the_run l) a) DIMENSIONS
       then Inl (StateConflict ''Requested limits do not cover the current waiting work; review a new request'')
       else
         let l1 = set_run (raise_caps a) l in
         case waiting_task_for waiting key (e_task denial) of
           None \<Rightarrow> Inr (l1, resumed)
         | Some t \<Rightarrow>
             let l2 = set_run (increment_reserved a) l1;
                 e = new_event env l2 ''reservation'' (Some key) (Some True) True
                       (Some ''approved_budget_overrun_reservation'') a (Some (t_id t))
                       (AList.update ''actor_user_id'' (opt_uuid_text (v_actor v))
                         (AList.update ''approved_from_denial_event_id'' (PStr (uuid_str (e_id denial)))
                           (e_metadata denial))) in
             bind_res (approved_task (task_now l2 t) a) (\<lambda>t1.
               Inr (put_task t1 (add_event e l2), resumed @ [t_id t])))"

definition resume_task ::
  "ledger \<times> uuid list \<Rightarrow> uuid \<Rightarrow> (budget_error, ledger \<times> uuid list) res" where
  "resume_task = (\<lambda>(l, resumed) u.
     case find (\<lambda>t. t_id t = u) (tasks l) of
       None \<Rightarrow> Inr (l, resumed)
     | Some t \<Rightarrow>
       if t_admission t \<noteq> Some ''waiting_budget_approval'' then Inr (l, resumed)
       else if task_key t = [] then
         let previous = dget (t_metadata t) ''budget_admission_status_before_breaker'' in
         Inr (put_task (t\<lparr>t_metadata := AList.delete ''budget_admission_status_before_breaker'' (t_metadata t),
                t_admission := (if previous = PNone then None else Some (py_str previous)),
                t_terminal_reason := None, t_completed := None\<rparr>) l, resumed @ [u])
       else case existing_event l (Some (task_key t)) ''reservation'' of
         None \<Rightarrow> Inr (l, resumed)
       | Some res \<Rightarrow>
           if e_task res \<noteq> Some u then Inl (reservation_conflict l (task_key t))
           else bind_res (approved_task t (e_amounts res)) (\<lambda>t1. Inr (put_task t1 l, resumed @ [u])))"

text \<open>The transaction of an approval on a run that waits for it.\<close>

definition approve_waiting ::
  "budget_env \<Rightarrow> overrun_decision \<Rightarrow> ledger \<Rightarrow> (budget_error, ledger) res" where
  "approve_waiting env v l =
     (let l1 = set_run (\<lambda>r. r\<lparr>r_max := (\<lambda>d. case v_limits v d of None \<Rightarrow> r_max r d | Some n \<Rightarrow> Some n)\<rparr>) l;
          waiting = waiting_tasks l1 in
      bind_res (fold_res (approve_denial env v waiting) (l1, [])
        (filter (\<lambda>e. e_type e = ''denial'') (events l1))) (\<lambda>s.
      bind_res (fold_res resume_task s (map t_id waiting)) (\<lambda>(l2, resumed).
      let l3 = set_run (\<lambda>r. (move_run ''active'' None None r)\<lparr>r_enforcement := v_enforcement v\<rparr>) l2;
          e = new_event env l3 ''overrun_approved'' None (Some True) False (Some (v_reason v)) no_amounts None
                ([(''actor_user_id'', opt_uuid_text (v_actor v)),
                  (''approval_episode_id'', PStr (uuid_str (v_episode v))),
                  (''enforcement_mode'', PStr (v_enforcement v)),
                  (''approved_limits'', PDict (limits_dict (v_limits v)))]
                 @ (case v_increase v of None \<Rightarrow> [] | Some u \<Rightarrow> [(''increase_request_id'', PStr (uuid_str u))])
                 @ [(''transition'', str_list [''waiting_budget_approval'', ''approved'', ''resuming'', ''active'']),
                    (''target_status'', PStr ''approved''),
                    (''resumed_runtime_task_ids'', PList (map (\<lambda>u. PStr (uuid_str u)) resumed))]) in
      Inr (add_event e l3))))"

definition approve_overrun ::
  "budget_env \<Rightarrow> (budget_run \<Rightarrow> overrun_decision \<Rightarrow> (budget_error, unit) res) \<Rightarrow> uuid \<Rightarrow> overrun_decision \<Rightarrow>
   ledger \<Rightarrow> (budget_run option) outcome" where
  "approve_overrun env validate tenant v l =
     (if r_tenant (the_run l) \<noteq> tenant then (l, Inr None)
      else if approval_episode l \<noteq> Some (v_episode v)
      then (l, Inl (StateConflict (''runtime budget approval episode conflict for '' @ uuid_str (r_id (the_run l)))))
      else
        let l0 = set_run (\<lambda>r. r\<lparr>r_metadata := AList.update ''approval_episode_id''
                   (PStr (uuid_str (v_episode v))) (r_metadata r)\<rparr>) l in
        if r_status (the_run l0) \<noteq> ''waiting_budget_approval''
        then (if r_status (the_run l0) = ''active''
                \<and> (case last_event ''overrun_approved'' l0 of None \<Rightarrow> False
                   | Some e \<Rightarrow> same_decision v e
                       \<and> dget (e_metadata e) ''enforcement_mode'' = PStr (v_enforcement v)
                       \<and> dget (e_metadata e) ''approved_limits'' = PDict (limits_dict (v_limits v)))
              then commit l l0 (Inr (Some (the_run l0)))
              else (l, Inl (state_conflict l ''approval'')))
        else
          case bind_res (if v_increase v = None then Inr () else validate (the_run l0) v)
                 (\<lambda>_. approve_waiting env v l0) of
            Inl e \<Rightarrow> (l, Inl e)
          | Inr l1 \<Rightarrow> commit l l1 (Inr (Some (the_run l1))))"

definition reject_task :: "budget_env \<Rightarrow> runtime_task \<Rightarrow> (budget_error, runtime_task) res" where
  "reject_task env t =
     (if \<not> (unclaimed t \<and> t_admission t = Some ''waiting_budget_approval'') then Inr t
      else
        let actuals = (if has_key (t_metadata t) ''runtime_budget_actuals''
                       then dget (t_metadata t) ''runtime_budget_actuals'' else PDict []) in
        bind_res (stamp_runtime_task_budget_actuals t actuals) (\<lambda>t.
        env_finish env (t\<lparr>t_status := ''killed'', t_completed := Some (env_now env),
          t_admission := Some ''rejected'', t_terminal_reason := Some ''runtime_budget_approval_rejected'',
          t_summary := Some ''Runtime budget approval was rejected before this work was claimed.''\<rparr>)))"

definition reject_overrun ::
  "budget_env \<Rightarrow> (budget_run \<Rightarrow> overrun_decision \<Rightarrow> (budget_error, unit) res) \<Rightarrow> uuid \<Rightarrow> overrun_decision \<Rightarrow>
   ledger \<Rightarrow> (budget_run option) outcome" where
  "reject_overrun env validate tenant v l =
     (if r_tenant (the_run l) \<noteq> tenant then (l, Inr None)
      else if approval_episode l \<noteq> Some (v_episode v)
      then (l, Inl (StateConflict (''runtime budget approval episode conflict for '' @ uuid_str (r_id (the_run l)))))
      else
        let l0 = set_run (\<lambda>r. r\<lparr>r_metadata := AList.update ''approval_episode_id''
                   (PStr (uuid_str (v_episode v))) (r_metadata r)\<rparr>) l in
        if r_status (the_run l0) \<noteq> ''waiting_budget_approval''
        then (if r_status (the_run l0) = ''stopped''
                \<and> r_terminal_reason (the_run l0) = Some ''runtime_budget_approval_rejected''
                \<and> (case last_event ''overrun_rejected'' l0 of None \<Rightarrow> False | Some e \<Rightarrow> same_decision v e)
              then commit l l0 (Inr (Some (the_run l0)))
              else (l, Inl (state_conflict l ''rejection'')))
        else
          case bind_res (if v_increase v = None then Inr () else validate (the_run l0) v)
                 (\<lambda>_. map_res (reject_task env) (tasks l0)) of
            Inl e \<Rightarrow> (l, Inl e)
          | Inr ts \<Rightarrow>
              let l1 = set_run (\<lambda>r. clear_reserved (move_run ''stopped''
                         (Some ''runtime_budget_approval_rejected'') (Some (env_now env)) r)) (l0\<lparr>tasks := ts\<rparr>);
                  e = new_event env l1 ''overrun_rejected'' None (Some False) True (Some (v_reason v)) no_amounts None
                        ([(''actor_user_id'', opt_uuid_text (v_actor v)),
                          (''approval_episode_id'', PStr (uuid_str (v_episode v))),
                          (''target_status'', PStr ''rejected'')]
                         @ (case v_increase v of None \<Rightarrow> []
                            | Some u \<Rightarrow> [(''increase_request_id'', PStr (uuid_str u))]));
                  l2 = add_event e l1 in
              commit l l2 (Inr (Some (the_run l2))))"

section \<open>A run from its creation\<close>

text \<open>\<open>create_run\<close>: the row with its column defaults, no events and no tasks.\<close>

definition create_run ::
  "uuid \<Rightarrow> uuid \<Rightarrow> string \<Rightarrow> string \<Rightarrow> (dim \<Rightarrow> int option) \<Rightarrow> int option \<Rightarrow> int option \<Rightarrow>
   (rat \<times> string) option \<Rightarrow> int option \<Rightarrow> int option \<Rightarrow> ledger" where
  "create_run rid tenant enforcement fail_mode maxes max_failures max_needs max_ratio max_parent expires =
     \<lparr>the_run = \<lparr>r_id = rid, r_tenant = tenant, r_status = ''active'', r_enforcement = enforcement,
        r_fail_mode = fail_mode, r_terminal_reason = None, r_max = maxes, r_max_failures = max_failures,
        r_max_needs = max_needs, r_max_ratio = max_ratio, r_max_parent = max_parent,
        r_reserved = no_amounts, r_used = no_amounts, r_parent_invocations = 0, r_metadata = [],
        r_expires = expires, r_completed = None\<rparr>,
      events = [], tasks = []\<rparr>"

text \<open>The calls that change a run; tasks may be enqueued and change between them.\<close>

datatype budget_call =
    Reserve budget_env reservation
  | Settle budget_env reservation
  | HardStop budget_env uuid string string
  | Cancel budget_env uuid string "uuid option"
  | Expire budget_env
  | WakeBreaker budget_env "uuid option"
  | SummaryTurn budget_env uuid "pyval list" string "(string \<times> pyval) list"
  | Approve budget_env "budget_run \<Rightarrow> overrun_decision \<Rightarrow> (budget_error, unit) res" uuid overrun_decision
  | Reject budget_env "budget_run \<Rightarrow> overrun_decision \<Rightarrow> (budget_error, unit) res" uuid overrun_decision
  | TasksChange "runtime_task list"

fun budget_step :: "budget_call \<Rightarrow> ledger \<Rightarrow> ledger" where
  "budget_step (Reserve env q) l = fst (reserve env q l)"
| "budget_step (Settle env q) l = fst (settle env q l)"
| "budget_step (HardStop env t r a) l = fst (hard_stop_run env t r a l)"
| "budget_step (Cancel env t r a) l = fst (cancel_run env t r a l)"
| "budget_step (Expire env) l = fst (expire_run env l)"
| "budget_step (WakeBreaker env t) l = fst (evaluate_wake_breaker env t l)"
| "budget_step (SummaryTurn env t ex n m) l = fst (mark_summary_turn_state env t ex n m l)"
| "budget_step (Approve env chk t v) l = fst (approve_overrun env chk t v l)"
| "budget_step (Reject env chk t v) l = fst (reject_overrun env chk t v l)"
| "budget_step (TasksChange ts) l = l\<lparr>tasks := ts\<rparr>"

definition budget_calls :: "budget_call list \<Rightarrow> ledger \<Rightarrow> ledger" where
  "budget_calls cs l = foldl (\<lambda>l c. budget_step c l) l cs"

end
