(* ===== verification/Budget_Books.thy ===== *)
theory Budget_Books
  imports Budget_Control
begin

text \<open>
  The books of a budget run: what is reserved is the sum of the open reservations, what is used
  is the sum of the settlements, for every reachable ledger; the admission bound; replays; and
  the status machine of the run.
\<close>

section \<open>Sums over the event stream\<close>

definition settled :: "budget_event list \<Rightarrow> budget_event \<Rightarrow> bool" where
  "settled es e \<longleftrightarrow> (\<exists>s \<in> set es. e_type s = ''settlement'' \<and> e_key s = e_key e)"

definition open_sum :: "budget_event list \<Rightarrow> amounts" where
  "open_sum es d = sum_list (map (\<lambda>e. e_amounts e d)
     (filter (\<lambda>e. e_type e = ''reservation'' \<and> \<not> settled es e) es))"

definition used_sum :: "budget_event list \<Rightarrow> amounts" where
  "used_sum es d = sum_list (map (\<lambda>e. e_amounts e d) (filter (\<lambda>e. e_type e = ''settlement'') es))"

definition CLEARED :: "string set" where
  "CLEARED = {''hard_stopped'', ''expired'', ''cancelled'', ''stopped''}"

text \<open>Shape of the stream: keys and non-negative amounts; a settlement follows its reservation.\<close>

definition wf_stream :: "budget_event list \<Rightarrow> bool" where
  "wf_stream es \<longleftrightarrow> unique_events es
     \<and> (\<forall>e \<in> set es. e_type e \<in> {''reservation'', ''settlement''} \<longrightarrow> e_key e \<noteq> None \<and> (\<forall>d. 0 \<le> e_amounts e d))
     \<and> (\<forall>s \<in> set es. e_type s = ''settlement'' \<longrightarrow>
          (\<exists>r \<in> set es. e_type r = ''reservation'' \<and> e_key r = e_key s))"

definition books :: "budget_run \<Rightarrow> budget_event list \<Rightarrow> bool" where
  "books run es \<longleftrightarrow> wf_stream es \<and> r_used run = used_sum es
     \<and> r_reserved run = (if r_status run \<in> CLEARED then no_amounts else open_sum es)"

lemma settled_append_other:
  "e_type x \<noteq> ''settlement'' \<Longrightarrow> settled (es @ [x]) e \<longleftrightarrow> settled es e"
  by (auto simp: settled_def)

lemma sums_other_event:
  assumes "e_type x \<notin> {''reservation'', ''settlement''}"
  shows "open_sum (es @ [x]) = open_sum es" and "used_sum (es @ [x]) = used_sum es"
  using assms by (auto simp: open_sum_def used_sum_def settled_append_other fun_eq_iff)

lemma wf_stream_other:
  assumes "wf_stream es" and "e_type x \<notin> {''reservation'', ''settlement''}" and "unique_events (es @ [x])"
  shows "wf_stream (es @ [x])"
  using assms by (auto simp: wf_stream_def)

lemma books_other_event:
  assumes "books run es" and "e_type x \<notin> {''reservation'', ''settlement''}" and "unique_events (es @ [x])"
    and "r_used run' = r_used run"
    and "r_reserved run' = (if r_status run' \<in> CLEARED then no_amounts else r_reserved run)
      \<or> r_reserved run' = r_reserved run \<and> r_status run' = r_status run"
    and "r_status run \<in> CLEARED \<Longrightarrow> r_status run' \<in> CLEARED"
  shows "books run' (es @ [x])"
  using assms by (auto simp: books_def sums_other_event wf_stream_other)

text \<open>Two events with the same key and type are the same event.\<close>

lemma unique_events_eq:
  assumes "unique_events es" "x \<in> set es" "y \<in> set es" "e_key x = e_key y" "e_key x \<noteq> None" "e_type x = e_type y"
  shows "x = y"
proof -
  have "distinct (map (\<lambda>e. (e_key e, e_type e)) (filter (\<lambda>e. e_key e \<noteq> None) es))"
    using assms(1) by (simp add: unique_events_def)
  then have "inj_on (\<lambda>e. (e_key e, e_type e)) (set (filter (\<lambda>e. e_key e \<noteq> None) es))"
    by (simp add: distinct_map)
  with assms show ?thesis by (auto dest: inj_onD)
qed

lemma unique_events_fresh:
  assumes "unique_events (es @ [x])" and "e_key x \<noteq> None"
  shows "\<forall>y \<in> set es. \<not> (e_key y = e_key x \<and> e_type y = e_type x)"
  using assms by (auto simp: unique_events_def) (metis (mono_tags, lifting) image_eqI mem_Collect_eq)

lemma unique_events_append: "unique_events (es @ [x]) \<Longrightarrow> unique_events es"
  by (auto simp: unique_events_def)

text \<open>A reservation under a fresh key opens its amounts.\<close>

lemma books_reservation:
  assumes b: "books run es" and x: "e_type x = ''reservation''" "e_key x = Some k" "\<forall>d. 0 \<le> e_amounts x d"
    and u: "unique_events (es @ [x])" and st: "r_status run \<notin> CLEARED" "r_status run' \<notin> CLEARED"
    and r': "r_used run' = r_used run" "r_reserved run' = (\<lambda>d. r_reserved run d + e_amounts x d)"
  shows "books run' (es @ [x])"
proof -
  have fresh: "\<forall>y \<in> set es. \<not> (e_type y = ''reservation'' \<and> e_key y = Some k)"
    using unique_events_fresh [OF u] x by auto
  with b have nos: "\<not> settled es x" unfolding books_def wf_stream_def settled_def using x(2) by metis
  have "open_sum (es @ [x]) d = open_sum es d + e_amounts x d" for d
    using nos x(1) by (simp add: open_sum_def settled_append_other)
  moreover have "used_sum (es @ [x]) = used_sum es"
    using x(1) by (simp add: used_sum_def fun_eq_iff)
  moreover have "wf_stream (es @ [x])"
    using b u x by (auto simp: books_def wf_stream_def)
  ultimately show ?thesis using b st r' by (auto simp: books_def fun_eq_iff)
qed

text \<open>A settlement closes exactly its reservation.\<close>

lemma sum_list_remove:
  fixes f :: "'a \<Rightarrow> int"
  assumes "distinct xs" "r \<in> set xs" "P r"
  shows "sum_list (map f (filter P xs)) = f r + sum_list (map f (filter (\<lambda>e. P e \<and> e \<noteq> r) xs))"
  using assms
proof (induction xs)
  case (Cons a xs)
  show ?case
  proof (cases "a = r")
    case True
    then have "filter (\<lambda>e. P e \<and> e \<noteq> r) xs = filter P xs" using Cons.prems(1)
      by (auto intro: filter_cong)
    with True Cons.prems show ?thesis by simp
  next
    case False
    with Cons show ?thesis by auto
  qed
qed simp

lemma open_sum_settle:
  assumes wf: "wf_stream es" and r: "r \<in> set es" "e_type r = ''reservation''" "e_key r = Some k"
    and x: "e_type x = ''settlement''" "e_key x = Some k" and new: "\<not> settled es r"
  shows "open_sum es d = e_amounts r d + open_sum (es @ [x]) d"
    and "e_amounts r d \<le> open_sum es d"
proof -
  let ?P = "\<lambda>e. e_type e = ''reservation'' \<and> \<not> settled es e"
  have dist: "distinct es" using wf by (auto simp: wf_stream_def unique_events_def distinct_map)
  have same: "e = r" if "e \<in> set es" "e_type e = ''reservation''" "e_key e = Some k" for e
    using unique_events_eq [of es e r] wf r that by (simp add: wf_stream_def)
  have "filter (\<lambda>e. e_type e = ''reservation'' \<and> \<not> settled (es @ [x]) e) (es @ [x])
      = filter (\<lambda>e. ?P e \<and> e \<noteq> r) es"
  proof -
    have "(e_type e = ''reservation'' \<and> \<not> settled (es @ [x]) e) \<longleftrightarrow> ?P e \<and> e \<noteq> r" if "e \<in> set es" for e
      using same [OF that] r x by (auto simp: settled_def)
    then show ?thesis using x(1) by (auto intro: filter_cong)
  qed
  then have "open_sum (es @ [x]) d = sum_list (map (\<lambda>e. e_amounts e d) (filter (\<lambda>e. ?P e \<and> e \<noteq> r) es))"
    by (simp add: open_sum_def)
  then show eq: "open_sum es d = e_amounts r d + open_sum (es @ [x]) d"
    using sum_list_remove [OF dist r(1), of ?P "\<lambda>e. e_amounts e d"] r(2) new by (simp add: open_sum_def)
  have "0 \<le> open_sum (es @ [x]) d"
    unfolding open_sum_def using wf x(1) by (intro sum_list_nonneg) (auto simp: wf_stream_def)
  with eq show "e_amounts r d \<le> open_sum es d" by simp
qed

lemma books_settlement:
  assumes b: "books run es" and r: "r \<in> set es" "e_type r = ''reservation''" "e_key r = Some k"
    and x: "e_type x = ''settlement''" "e_key x = Some k" "\<forall>d. 0 \<le> e_amounts x d"
    and u: "unique_events (es @ [x])"
  shows "books (increment_used (e_amounts x) (release_reserved (e_amounts r) run)) (es @ [x])"
proof -
  let ?run = "increment_used (e_amounts x) (release_reserved (e_amounts r) run)"
  have wf: "wf_stream es" using b by (simp add: books_def)
  have new: "\<not> settled es r"
    using unique_events_fresh [OF u] x(1,2) r(3) by (auto simp: settled_def)
  have "wf_stream (es @ [x])" using wf u x r by (auto simp: wf_stream_def)
  moreover have "used_sum (es @ [x]) = (\<lambda>d. used_sum es d + e_amounts x d)"
    using x(1) by (simp add: used_sum_def fun_eq_iff)
  moreover have "r_reserved ?run = (if r_status ?run \<in> CLEARED then no_amounts else open_sum (es @ [x]))"
  proof (rule ext)
    fix d
    have nn: "0 \<le> e_amounts r d" using wf r by (auto simp: wf_stream_def)
    note os = open_sum_settle [OF wf r x(1,2) new, of d]
    show "r_reserved ?run d = (if r_status ?run \<in> CLEARED then no_amounts else open_sum (es @ [x])) d"
      using b nn os by (auto simp: books_def increment_used_def release_reserved_def no_amounts_def)
  qed
  ultimately show ?thesis using b by (simp add: books_def increment_used_def release_reserved_def)
qed

section \<open>The status machine of a run\<close>

definition RUN_EDGES :: "(string \<times> string) list" where
  "RUN_EDGES =
     [(''active'', ''summary_only''), (''active'', ''waiting_budget_approval''), (''active'', ''exhausted''),
      (''active'', ''hard_stopped''), (''active'', ''expired''),
      (''waiting_budget_approval'', ''active''), (''waiting_budget_approval'', ''stopped''),
      (''waiting_budget_approval'', ''expired''), (''summary_only'', ''hard_stopped'')]"

definition run_edge :: "string \<Rightarrow> string \<Rightarrow> bool" where
  "run_edge s t \<longleftrightarrow> (s, t) \<in> set RUN_EDGES \<or> s \<noteq> ''cancelled'' \<and> t = ''cancelled''"

interpretation budget_run: status_table run_edge "\<lambda>s. s = ''cancelled''"
  by unfold_locales (auto simp: run_edge_def RUN_EDGES_def)

definition sound_step :: "ledger \<Rightarrow> ledger \<Rightarrow> bool" where
  "sound_step l l' \<longleftrightarrow> (books (the_run l) (events l) \<longrightarrow> books (the_run l') (events l'))
     \<and> (r_status (the_run l') = r_status (the_run l) \<or> run_edge (r_status (the_run l)) (r_status (the_run l')))"

lemma sound_step_refl [simp]: "sound_step l l"
  by (simp add: sound_step_def)

lemma fst_commit:
  "(unique_events (events l') \<Longrightarrow> sound_step l l') \<Longrightarrow> sound_step l (fst (commit l l' r))"
  by (auto simp: commit_def)

text \<open>Any event but a reservation or settlement, with a move of the status.\<close>

lemma sound_move:
  assumes "events l' = events l @ [e]" and "e_type e \<notin> {''reservation'', ''settlement''}"
    and "r_used (the_run l') = r_used (the_run l)"
    and "r_reserved (the_run l')
       = (if r_status (the_run l') \<in> CLEARED then no_amounts else r_reserved (the_run l))
      \<or> r_reserved (the_run l') = r_reserved (the_run l) \<and> r_status (the_run l') = r_status (the_run l)"
    and "r_status (the_run l') = r_status (the_run l) \<or> run_edge (r_status (the_run l)) (r_status (the_run l'))"
    and "unique_events (events l')"
  shows "sound_step l l'"
proof -
  have "r_status (the_run l') \<in> CLEARED" if "r_status (the_run l) \<in> CLEARED"
    using assms(5) that by (auto simp: run_edge_def RUN_EDGES_def CLEARED_def)
  then show ?thesis
    using assms books_other_event [of "the_run l" "events l" e "the_run l'"] by (auto simp: sound_step_def)
qed

lemmas run_updates = set_run_def move_run_def clear_reserved_def increment_reserved_def increment_used_def
  add_event_def bind_approval_episode_def new_event_def

lemma cancel_pending_frame:
  "cancel_pending_unclaimed_tasks env t s l = Inr l' \<Longrightarrow> the_run l' = the_run l \<and> events l' = events l"
  by (auto simp: cancel_pending_unclaimed_tasks_def)

lemma breaker_status_cases:
  "breaker_status_for_fail_mode m \<in> {''waiting_budget_approval'', ''summary_only'', ''hard_stopped''}"
  by (simp add: breaker_status_for_fail_mode_def)

lemma trip_run_shape:
  "r_status (the_run (trip_run env t r l)) = t" "r_used (the_run (trip_run env t r l)) = r_used (the_run l)"
  "events (trip_run env t r l) = events l"
  "r_reserved (the_run (trip_run env t r l))
     = (if t = ''hard_stopped'' then no_amounts else r_reserved (the_run l))"
  by (simp_all add: trip_run_def run_updates Let_def)

lemma trip_tasks_frame:
  "trip_tasks env t r l = Inr l' \<Longrightarrow> the_run l' = the_run l \<and> events l' = events l"
  by (auto simp: trip_tasks_def dest: cancel_pending_frame split: if_splits)

lemma apply_breaker_shape:
  assumes "apply_breaker env tripped actor src l = Inr l'"
  shows "l' = l \<or> (\<exists>e. events l' = events l @ [e] \<and> e_type e = ''circuit_break'')
      \<and> r_status (the_run l) = ''active''
      \<and> r_status (the_run l') = breaker_status_for_fail_mode (r_fail_mode (the_run l))
      \<and> r_used (the_run l') = r_used (the_run l)
      \<and> r_reserved (the_run l') = (if r_status (the_run l') = ''hard_stopped'' then no_amounts else r_reserved (the_run l))"
proof (cases "r_status (the_run l) = ''active''")
  case False
  then show ?thesis using assms by (simp add: apply_breaker_def)
next
  case True
  define t where "t = breaker_status_for_fail_mode (r_fail_mode (the_run l))"
  define r where "r = ''runtime_budget_circuit_break:'' @ join_reasons tripped"
  from assms True obtain l1 where l1: "trip_tasks env t r (trip_run env t r l) = Inr l1"
    and out: "l' = add_event (breaker_event env l1 t r tripped actor src)
      (if t = ''waiting_budget_approval''
       then bind_approval_episode (breaker_event env l1 t r tripped actor src) l1 else l1)"
    unfolding apply_breaker_def t_def [symmetric] r_def [symmetric] Let_def by auto
  show ?thesis
    using trip_tasks_frame [OF l1] True unfolding out t_def [symmetric]
    by (auto simp: trip_run_shape add_event_def bind_approval_episode_def breaker_event_def new_event_def)
qed

lemma sound_apply_breaker:
  assumes "apply_breaker env tripped actor src l = Inr l'" and "unique_events (events l')"
  shows "sound_step l l'"
proof (cases "l' = l")
  case False
  with apply_breaker_shape [OF assms(1)] obtain e where
    e: "events l' = events l @ [e]" "e_type e = ''circuit_break''" and st: "r_status (the_run l) = ''active''"
      "r_status (the_run l') = breaker_status_for_fail_mode (r_fail_mode (the_run l))"
    and run: "r_used (the_run l') = r_used (the_run l)"
      "r_reserved (the_run l') = (if r_status (the_run l') = ''hard_stopped'' then no_amounts else r_reserved (the_run l))"
    by blast
  from breaker_status_cases [of "r_fail_mode (the_run l)"] st
  have t: "r_status (the_run l') \<in> {''waiting_budget_approval'', ''summary_only'', ''hard_stopped''}" by simp
  show ?thesis
    using e run st(1) t assms(2)
    by (intro sound_move [where e = e]) (auto simp: CLEARED_def run_edge_def RUN_EDGES_def)
qed simp

section \<open>Every operation is sound\<close>

lemma sound_step_after:
  assumes "sound_step l m" and "r_status (the_run m) = r_status (the_run l)" and "sound_step m l'"
  shows "sound_step l l'"
  using assms by (auto simp: sound_step_def)

lemma existing_event_Some:
  "existing_event l k ty = Some e \<Longrightarrow> e \<in> set (events l) \<and> e_key e = k \<and> e_type e = ty"
  by (auto simp: existing_event_def find_Some_iff split: if_splits)

lemma exhaust_run_shape:
  assumes "exhaust_run env q denied l = Inr l'"
  shows "events l' = events l \<and> r_used (the_run l') = r_used (the_run l)
     \<and> r_reserved (the_run l') = r_reserved (the_run l)
     \<and> (r_status (the_run l') = r_status (the_run l)
        \<or> r_status (the_run l) = ''active''
          \<and> r_status (the_run l') \<in> {''summary_only'', ''waiting_budget_approval'', ''exhausted''})"
  using assms
  by (auto simp: exhaust_run_def Let_def set_run_def move_run_def dest!: cancel_pending_frame split: if_splits)

lemma sound_add_denial:
  assumes "unique_events (events (add_event (denial_event env l' q r m) l))"
  shows "sound_step l (add_event (denial_event env l' q r m) l)"
  using assms
  by (intro sound_move [where e = "denial_event env l' q r m"])
    (auto simp: add_event_def denial_event_def new_event_def)

lemma sound_add_reservation:
  assumes "unique_events (events (add_event (reservation_event env l' q w r m) (set_run (increment_reserved
      (positive_amounts (q_amounts q))) l)))" and "r_status (the_run l) \<notin> CLEARED"
  shows "sound_step l (add_event (reservation_event env l' q w r m)
     (set_run (increment_reserved (positive_amounts (q_amounts q))) l))"
  using assms books_reservation [of "the_run l" "events l" "reservation_event env l' q w r m" "q_key q"
      "increment_reserved (positive_amounts (q_amounts q)) (the_run l)"]
  by (auto simp: sound_step_def run_updates reservation_event_def positive_amounts_def)

lemma sound_deny: "sound_step l (fst (deny_reservation env q denied l))"
proof (cases "exhaust_run env q (join_reasons (map dim_name denied)) l")
  case (Inl e)
  then show ?thesis by (simp add: deny_reservation_def Let_def)
next
  case (Inr l1)
  note shape = exhaust_run_shape [OF Inr]
  obtain res e l2 where out: "deny_reservation env q denied l = commit l (add_event e l2) res"
    and e: "e_type e = ''denial''"
    and l2: "l2 = l1 \<or> l2 = bind_approval_episode e l1"
    using Inr by (simp add: deny_reservation_def Let_def denial_event_def new_event_def)
  have st: "r_status (the_run (add_event e l2)) = r_status (the_run l1)"
    "r_used (the_run (add_event e l2)) = r_used (the_run l1)"
    "r_reserved (the_run (add_event e l2)) = r_reserved (the_run l1)"
    "events (add_event e l2) = events l @ [e]"
    using l2 shape by (auto simp: add_event_def bind_approval_episode_def)
  show ?thesis
    unfolding out
  proof (rule fst_commit)
    assume "unique_events (events (add_event e l2))"
    then show "sound_step l (add_event e l2)"
      using st e shape
      by (intro sound_move [where e = e]) (auto simp: run_edge_def RUN_EDGES_def CLEARED_def)
  qed
qed

lemma sound_reserve: "sound_step l (fst (reserve env q l))"
proof -
  let ?a = "positive_amounts (q_amounts q)"
  have den: "sound_step l (fst (commit l (add_event (denial_event env l q r m) l) res))"
    for r m and res :: "(budget_error, reserve_result) res"
    by (rule fst_commit) (use sound_add_denial in blast)
  have adm: "sound_step l (fst (commit l (add_event (reservation_event env l q w r m)
      (set_run (increment_reserved ?a) l)) res))" if "r_status (the_run l) \<notin> CLEARED"
    for w r m and res :: "(budget_error, reserve_result) res"
    by (rule fst_commit) (use sound_add_reservation that in blast)
  have st: "r_status (the_run l) \<in> {''active'', ''summary_only''} \<Longrightarrow> r_status (the_run l) \<notin> CLEARED"
    by (auto simp: CLEARED_def)
  have replay: "sound_step l (fst (l, r))" for r :: "(budget_error, reserve_result) res" by simp
  show ?thesis
    unfolding reserve_def Let_def
    by (simp only: split: option.split sum.split if_split)
      (intro allI impI conjI den adm sound_deny st replay; auto)+
qed

lemma sound_settle: "sound_step l (fst (settle env q l))"
proof (cases "existing_event l (Some (q_key q)) ''reservation''")
  case None
  then show ?thesis by (simp add: settle_def Let_def)
next
  case (Some r)
  note r = existing_event_Some [OF Some]
  let ?a = "positive_amounts (q_amounts q)"
  define l1 where "l1 = set_run (\<lambda>run. increment_used ?a (release_reserved (e_amounts r) run)) l"
  define x where "x = new_event env l1 ''settlement'' (Some (q_key q)) (Some True) False (q_reason q) ?a (q_task q) (q_metadata q)"
  let ?l2 = "add_event x l1"
  have l2: "events ?l2 = events l @ [x]" "r_status (the_run ?l2) = r_status (the_run l)"
    by (simp_all add: add_event_def l1_def set_run_def increment_used_def release_reserved_def)
  have step: "sound_step l ?l2" if u: "unique_events (events l @ [x])"
    using books_settlement [of "the_run l" "events l" r "q_key q" x, OF _ _ _ _ _ _ _ u] r l2
    by (auto simp: sound_step_def x_def new_event_def positive_amounts_def add_event_def l1_def set_run_def)
  define tripped where "tripped = breaker_tripped (the_run ?l2) 0 0 None 0"
  show ?thesis
  proof (cases "existing_event l (Some (q_key q)) ''settlement'' \<noteq> None \<or> e_task r \<noteq> q_task q")
    case True
    then show ?thesis using Some by (auto simp: settle_def Let_def split: option.splits)
  next
    case False
    then have out: "settle env q l = (case (if tripped = [] then Inr ?l2
        else apply_breaker env tripped ''settlement'' (q_reason q) ?l2) of
          Inl e \<Rightarrow> (l, Inl e) | Inr l3 \<Rightarrow> commit l l3 (Inr ()))"
      using Some by (simp add: settle_def Let_def tripped_def x_def l1_def)
    show ?thesis
    proof (cases "tripped = []")
      case True
      then have "settle env q l = commit l ?l2 (Inr ())" unfolding out by simp
      moreover have "sound_step l (fst (commit l ?l2 r))" for r :: "(budget_error, unit) res"
        by (rule fst_commit) (use step l2(1) in simp)
      ultimately show ?thesis by simp
    next
      case tr: False
      show ?thesis
      proof (cases "apply_breaker env tripped ''settlement'' (q_reason q) ?l2")
        case (Inl e)
        then show ?thesis unfolding out using tr by simp
      next
        case (Inr l3)
        have "sound_step l l3" if "unique_events (events l3)"
        proof -
          from apply_breaker_shape [OF Inr] that have "unique_events (events ?l2)"
            by (auto dest: unique_events_append)
          then show ?thesis
            using sound_step_after [OF step _ sound_apply_breaker [OF Inr that]] l2 by simp
        qed
        then have "sound_step l (fst (commit l l3 r))" for r :: "(budget_error, unit) res"
          by (rule fst_commit)
        then show ?thesis unfolding out using tr Inr by simp
      qed
    qed
  qed
qed

lemma sound_stop:
  assumes e: "e_type e \<notin> {''reservation'', ''settlement''}"
    and run: "r_status (the_run l') = s" "r_reserved (the_run l') = no_amounts" "r_used (the_run l') = r_used (the_run l)"
    and ev: "events l' = events l @ [e]" and s: "s \<in> CLEARED" and edge: "r_status (the_run l) = s \<or> run_edge (r_status (the_run l)) s"
  shows "sound_step l (fst (commit l l' r))"
  by (rule fst_commit, rule sound_move [where e = e]) (use assms in auto)

lemma sound_hard_stop: "sound_step l (fst (hard_stop_run env t r a l))"
proof -
  have "sound_step l (fst (commit l (add_event (stop_event env l2 ''hard_stopped'' r m) l2) x))"
    if "cancel_pending_unclaimed_tasks env c d (set_run (\<lambda>run. clear_reserved
          (move_run ''hard_stopped'' (Some r) (Some (env_now env)) run)) l) = Inr l2"
      and "r_status (the_run l) = ''active'' \<or> r_status (the_run l) = ''summary_only''" for l2 c d m
    and x :: "(budget_error, budget_run option) res"
    using cancel_pending_frame [OF that(1)] that(2)
    by (intro sound_stop [where s = "''hard_stopped''" and e = "stop_event env l2 ''hard_stopped'' r m"])
      (auto simp: run_updates stop_event_def CLEARED_def run_edge_def RUN_EDGES_def)
  then show ?thesis
    by (auto simp: hard_stop_run_def Let_def split: sum.splits)
qed

lemma sound_stop_first:
  assumes "cancel_pending_unclaimed_tasks env c d (add_event e (set_run (\<lambda>run. clear_reserved
          (move_run s reason cmp run)) l)) = Inr l2"
    and "e_type e \<notin> {''reservation'', ''settlement''}" and "s \<in> CLEARED"
    and "r_status (the_run l) = s \<or> run_edge (r_status (the_run l)) s"
  shows "sound_step l (fst (commit l l2 x))"
  using cancel_pending_frame [OF assms(1)] assms(2-)
  by (intro sound_stop [where s = s and e = e]) (auto simp: run_updates)

lemma sound_cancel: "sound_step l (fst (cancel_run env t r a l))"
proof -
  have ty: "e_type (stop_event env l' ''cancelled'' r m) = ''cancelled''" for l' m
    by (simp add: stop_event_def new_event_def)
  show ?thesis
    unfolding cancel_run_def Let_def
    by (auto split: sum.splits intro!: sound_stop_first [where s = "''cancelled''"] simp: ty CLEARED_def run_edge_def)
qed

lemma sound_expire: "sound_step l (fst (expire_run env l))"
proof -
  have ty: "e_type (stop_event env l' ''expired'' r m) = ''expired''" for l' r m
    by (simp add: stop_event_def new_event_def)
  show ?thesis
    unfolding expire_run_def Let_def
    by (auto split: sum.splits intro!: sound_stop_first [where s = "''expired''"]
        simp: ty CLEARED_def run_edge_def RUN_EDGES_def)
qed

text \<open>A step that changes neither the money, nor the status, nor the events.\<close>

definition same_books :: "ledger \<Rightarrow> ledger \<Rightarrow> bool" where
  "same_books l l' \<longleftrightarrow> events l' = events l \<and> r_status (the_run l') = r_status (the_run l)
     \<and> r_used (the_run l') = r_used (the_run l) \<and> r_reserved (the_run l') = r_reserved (the_run l)"

lemma same_books_sound: "same_books l l' \<Longrightarrow> sound_step l l'"
  by (auto simp: same_books_def sound_step_def books_def)

lemma sound_wake_breaker: "sound_step l (fst (evaluate_wake_breaker env t l))"
proof -
  let ?l1 = "set_run (\<lambda>r. r\<lparr>r_parent_invocations := r_parent_invocations r + 1\<rparr>) l"
  have same: "same_books l ?l1" by (simp add: same_books_def set_run_def)
  note s1 = same_books_sound [OF same]
  have st: "r_status (the_run ?l1) = r_status (the_run l)" by (simp add: set_run_def)
  have quiet: "sound_step l (fst (commit l ?l1 r))" for r :: "(budget_error, string option) res"
    by (rule fst_commit) (rule s1)
  have trip: "sound_step l (fst (commit l l2 r))"
    if "apply_breaker env tripped a src ?l1 = Inr l2" for tripped a src l2 and r :: "(budget_error, string option) res"
    by (rule fst_commit) (rule sound_step_after [OF s1 st sound_apply_breaker [OF that]])
  show ?thesis
    unfolding evaluate_wake_breaker_def Let_def
    by (auto intro: quiet trip split: sum.splits)
qed

lemma sound_summary_turn: "sound_step l (fst (mark_summary_turn_state env t ex n m l))"
proof -
  have "sound_step l (fst (commit l (add_event (stop_event env l' ''summary_turn'' r md)
      (set_run (\<lambda>r. r\<lparr>r_metadata := md'\<rparr>) l)) x))" for l' r md md' and x :: "(budget_error, bool) res"
    by (rule fst_commit, rule sound_move [where e = "stop_event env l' ''summary_turn'' r md"])
      (auto simp: run_updates stop_event_def)
  then show ?thesis by (auto simp: mark_summary_turn_state_def Let_def)
qed

text \<open>An approval opens one reservation per denied key that a waiting task carries.\<close>

definition waiting_books :: "ledger \<Rightarrow> bool" where
  "waiting_books l \<longleftrightarrow> r_status (the_run l) = ''waiting_budget_approval''
     \<and> (unique_events (events l) \<longrightarrow> books (the_run l) (events l))"

lemma waiting_books_frame:
  assumes "waiting_books l" "events l' = events l" "r_status (the_run l') = r_status (the_run l)"
    "r_used (the_run l') = r_used (the_run l)" "r_reserved (the_run l') = r_reserved (the_run l)"
  shows "waiting_books l'"
  using assms by (auto simp: waiting_books_def books_def)

lemma waiting_books_reservation:
  assumes "waiting_books l" "events l' = events l @ [e]" "e_type e = ''reservation''" "e_key e = Some k"
    "\<forall>d. 0 \<le> e_amounts e d" "r_status (the_run l') = r_status (the_run l)"
    "r_used (the_run l') = r_used (the_run l)"
    "r_reserved (the_run l') = (\<lambda>d. r_reserved (the_run l) d + e_amounts e d)"
  shows "waiting_books l'"
  using assms books_reservation [of "the_run l" "events l" e k "the_run l'"]
  by (auto simp: waiting_books_def CLEARED_def dest: unique_events_append)

lemma waiting_books_approve_denial:
  assumes "waiting_books (fst s)" and "approve_denial env v waiting s denial = Inr s'"
  shows "waiting_books (fst s')"
proof -
  obtain l resumed where s: "s = (l, resumed)" by force
  define key where "key = py_strip (case e_key denial of None \<Rightarrow> [] | Some k \<Rightarrow> k)"
  define a where "a = positive_amounts (e_amounts denial)"
  define l1 where "l1 = set_run (raise_caps a) l"
  have l1: "events l1 = events l" "r_status (the_run l1) = r_status (the_run l)"
    "r_used (the_run l1) = r_used (the_run l)" "r_reserved (the_run l1) = r_reserved (the_run l)"
    by (simp_all add: l1_def set_run_def raise_caps_def)
  from assms(2) consider "s' = s" | "s' = (l1, resumed)"
    | t1 ok w r u m us where "s' = (put_task t1 (add_event (new_event env (set_run (increment_reserved a) l1)
        ''reservation'' (Some key) ok w r a u m) (set_run (increment_reserved a) l1)), us)"
    unfolding approve_denial_def s key_def [symmetric] a_def [symmetric] Let_def l1_def [symmetric] prod.case
    by (auto split: if_splits option.splits)
  then show ?thesis
  proof cases
    case 1
    then show ?thesis using assms(1) by simp
  next
    case 2
    then show ?thesis using waiting_books_frame [OF assms(1)] l1 s by simp
  next
    case (3 t1 ok w r u m us)
    define l2 where "l2 = set_run (increment_reserved a) l1"
    define e where "e = new_event env l2 ''reservation'' (Some key) ok w r a u m"
    have e: "e_type e = ''reservation''" "e_key e = Some key" "e_amounts e = a"
      by (simp_all add: e_def new_event_def)
    have s': "fst s' = put_task t1 (add_event e l2)" using 3 by (simp add: e_def l2_def)
    have l2: "events l2 = events l" "r_status (the_run l2) = r_status (the_run l)"
      "r_used (the_run l2) = r_used (the_run l)"
      "r_reserved (the_run l2) = (\<lambda>d. r_reserved (the_run l) d + a d)"
      using l1 by (simp_all add: l2_def set_run_def increment_reserved_def)
    show ?thesis
      unfolding s' using assms(1) s l2 e
      by (rule_tac waiting_books_reservation [of l _ e key])
        (simp_all add: put_task_def add_event_def a_def positive_amounts_def)
  qed
qed

lemma waiting_books_resume_task:
  assumes "waiting_books (fst s)" and "resume_task s u = Inr s'"
  shows "waiting_books (fst s')"
proof -
  have "events (fst s') = events (fst s) \<and> the_run (fst s') = the_run (fst s)"
    using assms(2) unfolding resume_task_def Let_def
    by (auto split: prod.splits option.splits if_splits simp: put_task_def)
  then show ?thesis using waiting_books_frame [OF assms(1)] by simp
qed

definition reactivate :: "overrun_decision \<Rightarrow> ledger \<Rightarrow> ledger" where
  "reactivate v = set_run (\<lambda>r. (move_run ''active'' None None r)\<lparr>r_enforcement := v_enforcement v\<rparr>)"

lemma reactivate_shape:
  "events (reactivate v l) = events l" "r_status (the_run (reactivate v l)) = ''active''"
  "r_used (the_run (reactivate v l)) = r_used (the_run l)"
  "r_reserved (the_run (reactivate v l)) = r_reserved (the_run l)"
  by (simp_all add: reactivate_def set_run_def move_run_def)

definition raise_limits :: "overrun_decision \<Rightarrow> ledger \<Rightarrow> ledger" where
  "raise_limits v = set_run (\<lambda>r. r\<lparr>r_max := (\<lambda>d. case v_limits v d of None \<Rightarrow> r_max r d | Some n \<Rightarrow> Some n)\<rparr>)"

lemma raise_limits_shape:
  "events (raise_limits v l) = events l" "r_status (the_run (raise_limits v l)) = r_status (the_run l)"
  "r_used (the_run (raise_limits v l)) = r_used (the_run l)"
  "r_reserved (the_run (raise_limits v l)) = r_reserved (the_run l)"
  by (simp_all add: raise_limits_def set_run_def)

lemma approve_waiting_shape:
  assumes "approve_waiting env v l = Inr l'"
  obtains s l2 resumed e where
    "fold_res (approve_denial env v (waiting_tasks (raise_limits v l))) (raise_limits v l, [])
       (filter (\<lambda>e. e_type e = ''denial'') (events (raise_limits v l))) = Inr s"
    and "fold_res resume_task s (map t_id (waiting_tasks (raise_limits v l))) = Inr (l2, resumed)"
    and "e_type e = ''overrun_approved''" and "l' = add_event e (reactivate v l2)"
proof -
  from assms [unfolded approve_waiting_def Let_def raise_limits_def [symmetric] bind_res_Inr reactivate_def [symmetric]]
  obtain s s2 where
    s: "fold_res (approve_denial env v (waiting_tasks (raise_limits v l))) (raise_limits v l, [])
       (filter (\<lambda>e. e_type e = ''denial'') (events (raise_limits v l))) = Inr s"
    and s2: "fold_res resume_task s (map t_id (waiting_tasks (raise_limits v l))) = Inr s2"
    and rest: "\<exists>ok w r a u m. Inr (add_event (new_event env (reactivate v (fst s2)) ''overrun_approved'' None
        ok w r a u m) (reactivate v (fst s2))) = (Inr l' :: (budget_error, ledger) res)"
    by (elim exE conjE) (simp only: split_beta, blast)
  then obtain ok w r a u m where
    out: "l' = add_event (new_event env (reactivate v (fst s2)) ''overrun_approved'' None ok w r a u m) (reactivate v (fst s2))"
    by (auto simp only: sum.inject)
  show thesis
    by (rule that [OF s _ _ out, of "snd s2"]) (simp_all add: s2 new_event_def)
qed

lemma sound_approve_waiting:
  assumes "approve_waiting env v l = Inr l'" and st: "r_status (the_run l) = ''waiting_budget_approval''"
    and u: "unique_events (events l')"
  shows "sound_step l l'"
proof -
  let ?l1 = "raise_limits v l"
  from assms(1) obtain s l2 resumed e where
    s: "fold_res (approve_denial env v (waiting_tasks ?l1)) (?l1, []) (filter (\<lambda>e. e_type e = ''denial'') (events ?l1)) = Inr s"
    and l2: "fold_res resume_task s (map t_id (waiting_tasks ?l1)) = Inr (l2, resumed)"
    and e: "e_type e = ''overrun_approved''" and out: "l' = add_event e (reactivate v l2)"
    by (rule approve_waiting_shape)
  have u2: "unique_events (events l2 @ [e])" using u by (simp add: out add_event_def reactivate_shape)
  have "books (the_run l') (events l')" if b: "books (the_run l) (events l)"
  proof -
    have "waiting_books (fst (?l1, [] :: uuid list))"
      using b st by (simp add: waiting_books_def books_def raise_limits_shape)
    then have "waiting_books (fst s)"
      by (rule fold_res_invariant [OF s, where P = "\<lambda>s. waiting_books (fst s)"])
        (rule waiting_books_approve_denial)
    then have "waiting_books (fst (l2, resumed))"
      by (rule fold_res_invariant [OF l2, where P = "\<lambda>s. waiting_books (fst s)"])
        (rule waiting_books_resume_task)
    then have w2: "r_status (the_run l2) = ''waiting_budget_approval''" "books (the_run l2) (events l2)"
      using unique_events_append [OF u2] by (auto simp: waiting_books_def)
    have "books (the_run (reactivate v l2)) (events l2 @ [e])"
      by (rule books_other_event [OF w2(2) _ u2]) (simp_all add: e w2(1) reactivate_shape CLEARED_def)
    then show ?thesis by (simp add: out add_event_def reactivate_shape)
  qed
  then show ?thesis
    using st by (simp add: sound_step_def out add_event_def reactivate_shape run_edge_def RUN_EDGES_def)
qed

text \<open>Both decisions first bind the approval episode to the run.\<close>

definition bind_episode :: "overrun_decision \<Rightarrow> ledger \<Rightarrow> ledger" where
  "bind_episode v = set_run (\<lambda>r. r\<lparr>r_metadata := AList.update ''approval_episode_id''
     (PStr (uuid_str (v_episode v))) (r_metadata r)\<rparr>)"

lemma bind_episode_shape:
  "events (bind_episode v l) = events l" "r_status (the_run (bind_episode v l)) = r_status (the_run l)"
  "r_used (the_run (bind_episode v l)) = r_used (the_run l)"
  "r_reserved (the_run (bind_episode v l)) = r_reserved (the_run l)"
  by (simp_all add: bind_episode_def set_run_def)

lemma sound_bind_episode: "sound_step l (bind_episode v l)"
  by (rule same_books_sound) (simp add: same_books_def bind_episode_shape)

lemma sound_commit_episode: "sound_step l (fst (commit l (bind_episode v l) r))"
  by (rule fst_commit) (rule sound_bind_episode)

lemma sound_approve: "sound_step l (fst (approve_overrun env chk t v l))"
proof -
  have "sound_step l (fst (commit l l1 r))"
    if "approve_waiting env v (bind_episode v l) = Inr l1"
      and "r_status (the_run (bind_episode v l)) = ''waiting_budget_approval''"
    for l1 and r :: "(budget_error, budget_run option) res"
    by (rule fst_commit, rule sound_step_after [OF sound_bind_episode _ sound_approve_waiting [OF that]])
      (simp_all add: bind_episode_shape)
  then show ?thesis
    unfolding approve_overrun_def Let_def bind_episode_def [symmetric]
    by (auto intro: sound_commit_episode split: sum.split)
qed

lemma sound_reject: "sound_step l (fst (reject_overrun env chk t v l))"
proof -
  let ?l0 = "bind_episode v l"
  have "sound_step l (fst (commit l (add_event (new_event env l' ''overrun_rejected'' None ok w rs am u m)
      (set_run (\<lambda>r. clear_reserved (move_run ''stopped'' why cmp r)) (?l0\<lparr>tasks := ts\<rparr>))) x))"
    if "r_status (the_run ?l0) = ''waiting_budget_approval''"
    for l' ok w rs am u m why cmp ts and x :: "(budget_error, budget_run option) res"
    using that
    by (intro sound_stop [where s = "''stopped''" and e = "new_event env l' ''overrun_rejected'' None ok w rs am u m"])
      (simp_all add: run_updates bind_episode_shape CLEARED_def run_edge_def RUN_EDGES_def
        bind_episode_shape [unfolded bind_episode_def])
  then show ?thesis
    unfolding reject_overrun_def Let_def bind_episode_def [symmetric]
    by (auto intro: sound_commit_episode split: sum.split)
qed

lemma sound_budget_step: "sound_step l (budget_step c l)"
  by (cases c) (simp_all add: sound_reserve sound_settle sound_hard_stop sound_cancel sound_expire
      sound_wake_breaker sound_summary_turn sound_approve sound_reject same_books_sound same_books_def)

lemma budget_calls_Nil [simp]: "budget_calls [] l = l"
  and budget_calls_snoc: "budget_calls (cs @ [c]) l = budget_step c (budget_calls cs l)"
  and budget_calls_append: "budget_calls (cs @ ds) l = budget_calls ds (budget_calls cs l)"
  by (simp_all add: budget_calls_def)

lemma budget_calls_books:
  "books (the_run l) (events l) \<Longrightarrow> books (the_run (budget_calls cs l)) (events (budget_calls cs l))"
  by (induction cs rule: rev_induct) (use sound_budget_step in \<open>auto simp: budget_calls_snoc sound_step_def\<close>)

lemma budget_calls_path:
  "run_edge\<^sup>*\<^sup>* (r_status (the_run l)) (r_status (the_run (budget_calls cs l)))"
proof (induction cs rule: rev_induct)
  case (snoc c cs)
  from sound_budget_step [of "budget_calls cs l" c] have
    "r_status (the_run (budget_step c (budget_calls cs l))) = r_status (the_run (budget_calls cs l))
     \<or> run_edge (r_status (the_run (budget_calls cs l))) (r_status (the_run (budget_step c (budget_calls cs l))))"
    by (simp add: sound_step_def)
  with snoc show ?case by (auto simp: budget_calls_snoc intro: rtranclp.rtrancl_into_rtrancl)
qed simp

lemma books_create_run: "books (the_run (create_run i t e f ms mf mn mr mp x)) (events (create_run i t e f ms mf mn mr mp x))"
  by (simp add: books_def create_run_def wf_stream_def unique_events_def used_sum_def open_sum_def no_amounts_def
      CLEARED_def fun_eq_iff)

end
