(* ===== verification/Budget_Run.thy ===== *)
theory Budget_Run
  imports Budget_Books
begin

text \<open>
  What the runtime budget promises over whole histories: balanced books, the status machine,
  caps that an admission respects, replays that change nothing, dead runs that admit nothing.
\<close>

section \<open>The event log only grows\<close>

lemma commit_appends:
  "prefix (events l) (events l') \<Longrightarrow> prefix (events l) (events (fst (commit l l' r)))"
  by (simp add: commit_def)

lemma events_frames [simp]:
  "events (set_run f l) = events l" "events (add_event e l) = events l @ [e]"
  "events (bind_approval_episode e l) = events l" "events (put_task t l) = events l"
  by (simp_all add: set_run_def add_event_def bind_approval_episode_def put_task_def)

lemma apply_breaker_appends:
  "apply_breaker env tripped a src l = Inr l' \<Longrightarrow> prefix (events l) (events l')"
  using apply_breaker_shape [of env tripped a src l l'] by auto

lemma deny_appends: "prefix (events l) (events (fst (deny_reservation env q denied l)))"
  by (auto simp: deny_reservation_def Let_def intro!: commit_appends dest: exhaust_run_shape split: sum.splits)

lemma reserve_appends: "prefix (events l) (events (fst (reserve env q l)))"
  unfolding reserve_def Let_def
  by (auto intro!: commit_appends deny_appends split: option.splits sum.splits)

lemma settle_appends: "prefix (events l) (events (fst (settle env q l)))"
  unfolding settle_def Let_def
  by (auto intro!: commit_appends dest!: apply_breaker_appends split: option.splits sum.splits elim: prefixE)

lemma stops_append:
  "prefix (events l) (events (fst (hard_stop_run env t r a l)))"
  "prefix (events l) (events (fst (cancel_run env t r u l)))"
  "prefix (events l) (events (fst (expire_run env l)))"
  unfolding hard_stop_run_def cancel_run_def expire_run_def Let_def
  by (auto intro!: commit_appends dest!: cancel_pending_frame split: sum.splits)

lemma wake_breaker_appends: "prefix (events l) (events (fst (evaluate_wake_breaker env t l)))"
  unfolding evaluate_wake_breaker_def Let_def
  by (auto intro!: commit_appends dest!: apply_breaker_appends split: sum.splits)

lemma summary_turn_appends: "prefix (events l) (events (fst (mark_summary_turn_state env t ex n m l)))"
  unfolding mark_summary_turn_state_def Let_def by (auto intro!: commit_appends)

lemma approve_denial_appends:
  assumes "approve_denial env v waiting s denial = Inr s'" and "prefix es (events (fst s))"
  shows "prefix es (events (fst s'))"
proof -
  have "prefix (events (fst s)) (events (fst s'))"
    using assms(1) unfolding approve_denial_def Let_def
    by (auto split: prod.splits if_splits option.splits)
  with assms(2) show ?thesis by (rule prefix_order.trans)
qed

lemma resume_task_events: "resume_task s u = Inr s' \<Longrightarrow> events (fst s') = events (fst s)"
  unfolding resume_task_def Let_def by (auto split: prod.splits option.splits if_splits)

lemma approve_waiting_appends:
  assumes "approve_waiting env v l = Inr l'"
  shows "prefix (events l) (events l')"
proof -
  from assms obtain s l2 resumed e where
    s: "fold_res (approve_denial env v (waiting_tasks (raise_limits v l))) (raise_limits v l, [])
       (filter (\<lambda>e. e_type e = ''denial'') (events (raise_limits v l))) = Inr s"
    and l2: "fold_res resume_task s (map t_id (waiting_tasks (raise_limits v l))) = Inr (l2, resumed)"
    and out: "l' = add_event e (reactivate v l2)"
    by (rule approve_waiting_shape)
  have "prefix (events l) (events (fst s))"
    by (rule fold_res_invariant [OF s, where P = "\<lambda>s. prefix (events l) (events (fst s))"])
      (auto simp: raise_limits_shape intro: approve_denial_appends)
  then have "prefix (events l) (events (fst (l2, resumed)))"
    by (rule fold_res_invariant [OF l2, where P = "\<lambda>s. prefix (events l) (events (fst s))"])
      (simp add: resume_task_events)
  then show ?thesis by (simp add: out reactivate_shape)
qed

lemma decisions_append:
  "prefix (events l) (events (fst (approve_overrun env chk t v l)))"
  "prefix (events l) (events (fst (reject_overrun env chk t v l)))"
  unfolding approve_overrun_def reject_overrun_def Let_def
  by (auto intro!: commit_appends dest!: approve_waiting_appends split: sum.splits)

interpretation budget_log: append_log events budget_step
  rewrites "append_log.run_steps budget_step = budget_calls"
proof -
  show "append_log events budget_step"
  proof
    show "prefix (events l) (events (budget_step c l))" for l c
      by (cases c) (simp_all add: reserve_appends settle_appends stops_append wake_breaker_appends
          summary_turn_appends decisions_append)
  qed
  then show "append_log.run_steps budget_step = budget_calls"
    by (simp add: append_log.run_steps_def budget_calls_def fun_eq_iff)
qed

lemma existing_kept:
  "existing_event l k ty = Some e \<Longrightarrow> existing_event (budget_calls cs l) k ty = Some e"
  using budget_log.found_kept [of "\<lambda>e. e_key e = k \<and> e_type e = ty" l e cs]
  by (auto simp: existing_event_def split: if_splits)

lemma existing_added:
  assumes "existing_event l (Some k) ty = None" and "k \<noteq> []" and "e_key e = Some k" and "e_type e = ty"
    and "events l' = events l @ e # es"
  shows "existing_event l' (Some k) ty = Some e"
  using assms by (simp add: existing_event_def find_append_None)

section \<open>Balanced books and the status machine\<close>

text \<open>
  Claim C2. In every ledger that calls on a fresh run can reach, the used amounts are the sum
  of the settlements, and the reserved amounts are the sum of the reservations that were not
  settled, or nothing once the run was hard-stopped, expired, cancelled or stopped by a
  rejection. No idempotency key has two events of one type, every settlement has its
  reservation, and all amounts are non-negative.
\<close>

theorem budget_books_balance:
  "books (the_run (budget_calls cs (create_run rid tenant mode fail maxes mf mn ratio mp expires)))
     (events (budget_calls cs (create_run rid tenant mode fail maxes mf mn ratio mp expires)))"
  by (rule budget_calls_books) (rule books_create_run)

text \<open>Statuses that only a cancellation can leave.\<close>

definition DEAD :: "string list" where
  "DEAD = [''exhausted'', ''hard_stopped'', ''stopped'', ''expired'', ''cancelled'']"

lemma dead_edge: "s \<in> set DEAD \<Longrightarrow> run_edge s t \<Longrightarrow> t = ''cancelled'' \<and> s \<noteq> ''cancelled''"
  by (auto simp: DEAD_def run_edge_def RUN_EDGES_def)

lemma dead_path: "run_edge\<^sup>*\<^sup>* s t \<Longrightarrow> s \<in> set DEAD \<Longrightarrow> t = s \<or> t = ''cancelled''"
proof (induction rule: rtranclp_induct)
  case (step t u)
  then have "t \<in> set DEAD" by (auto simp: DEAD_def)
  with step dead_edge show ?case by blast
qed simp

text \<open>
  Claim C20. A run only moves along the edges of its status machine: from active by
  exhaustion, the breaker or expiry, from waiting by the decision or expiry, from summary-only
  by a hard stop, and from anywhere into cancelled. A dead run keeps its status for ever,
  unless it is cancelled, and a cancelled run stays cancelled.
\<close>

theorem budget_status_machine:
  "run_edge\<^sup>*\<^sup>* (r_status (the_run l)) (r_status (the_run (budget_calls cs l)))
   \<and> (if r_status (the_run l) = ''cancelled'' then r_status (the_run (budget_calls cs l)) = ''cancelled''
      else if r_status (the_run l) \<in> set DEAD
      then r_status (the_run (budget_calls cs l)) \<in> {r_status (the_run l), ''cancelled''}
      else True)"
  using budget_calls_path [of l cs] dead_path [OF budget_calls_path [of l cs]]
    budget_run.final_absorbing [OF budget_calls_path [of l cs]]
  by auto

section \<open>Outcomes of a reservation\<close>

lemma commit_Inr: "snd (commit l l' r) = Inr x \<longleftrightarrow> unique_events (events l') \<and> r = Inr x"
  by (auto simp: commit_def)

lemma commit_fst_Inr: "commit l l' r = (m, Inr x) \<longleftrightarrow> unique_events (events l') \<and> r = Inr x \<and> m = l'"
  by (auto simp: commit_def)

lemma commit_not_Inr: "commit l l' (Inl e) \<noteq> (m, Inr x)"
  by (auto simp: commit_def)

lemma deny_not_Inr: "deny_reservation env q denied l \<noteq> (m, Inr x)"
  by (auto simp: deny_reservation_def Let_def commit_not_Inr split: sum.splits)

lemma replay_reservation_Inr:
  "replay_reservation l q e = Inr r \<Longrightarrow> e_task e = q_task q
     \<and> positive_amounts (e_amounts e) = positive_amounts (q_amounts q) \<and> res_idempotent r
     \<and> r = \<lparr>res_allowed = (e_allowed e = Some True), res_would_deny = e_would_deny e,
            res_idempotent = True, res_denied = []\<rparr>"
  by (auto simp: replay_reservation_def split: if_splits)

text \<open>A reservation succeeds as a replay, in the summary lane, or as a fresh admission.\<close>

lemma reserve_Inr_cases:
  assumes "reserve env q l = (l', Inr r)"
  obtains (replay) e where "existing_event l (Some (q_key q)) ''reservation'' = Some e"
      and "l' = l" and "replay_reservation l q e = Inr r"
  | (fresh) e where "existing_event l (Some (q_key q)) ''reservation'' = None"
      and "r_status (the_run l) \<in> {''active'', ''summary_only''}"
      and "l' = add_event e (set_run (increment_reserved (positive_amounts (q_amounts q))) l)"
      and "e_type e = ''reservation''" and "e_key e = Some (q_key q)" and "e_task e = q_task q"
      and "e_amounts e = positive_amounts (q_amounts q)" and "e_allowed e = Some True"
      and "e_would_deny e = res_would_deny r"
      and "res_allowed r" and "\<not> res_idempotent r"
      and "r_status (the_run l) = ''summary_only'' \<Longrightarrow> \<not> work_amplifying (positive_amounts (q_amounts q))"
      and "r_status (the_run l) = ''summary_only'' \<and> is_summary_turn q \<or> r_enforcement (the_run l) = ''observe''
        \<or> denied_dimensions (the_run l) (positive_amounts (q_amounts q)) = []"
      and "unique_events (events l')"
proof (cases "existing_event l (Some (q_key q)) ''reservation''")
  case (Some e)
  with assms show ?thesis by (intro replay [of e]) (auto simp: reserve_def Let_def)
next
  case None
  let ?a = "positive_amounts (q_amounts q)"
  from assms None have live: "r_status (the_run l) \<in> {''active'', ''summary_only''}"
    and amp: "r_status (the_run l) = ''summary_only'' \<Longrightarrow> \<not> work_amplifying ?a"
    by (auto simp: reserve_def Let_def commit_not_Inr split: sum.splits if_splits)
  show ?thesis
  proof (cases "r_status (the_run l) = ''summary_only'' \<and> is_summary_turn q")
    case True
    with assms None live amp have "commit l (add_event (reservation_event env l q True
         (Some ''budget_summary_turn_lane'') (q_metadata q)) (set_run (increment_reserved ?a) l))
        (Inr \<lparr>res_allowed = True, res_would_deny = True, res_idempotent = False, res_denied = []\<rparr>) = (l', Inr r)"
      by (auto simp: reserve_def Let_def split: sum.splits)
    with True None amp show ?thesis
      by (intro fresh) (auto simp: commit_fst_Inr reservation_event_def new_event_def)
  next
    case False
    let ?d = "denied_dimensions (the_run l) ?a"
    from False assms None live amp have "r_enforcement (the_run l) = ''observe'' \<or> ?d = []"
      and "commit l (add_event (reservation_event env l q (?d \<noteq> []) (q_reason q)
          (merge_dicts [(''denied_dimensions'', str_list (map dim_name ?d))] (q_metadata q)))
          (set_run (increment_reserved ?a) l))
        (Inr \<lparr>res_allowed = True, res_would_deny = (?d \<noteq> []), res_idempotent = False, res_denied = ?d\<rparr>) = (l', Inr r)"
      by (auto simp: reserve_def Let_def deny_not_Inr split: sum.splits if_splits)
    with False None live amp show ?thesis
      by (intro fresh) (auto simp: commit_fst_Inr reservation_event_def new_event_def)
  qed
qed

section \<open>Admission\<close>

lemma denied_dimensions_Nil:
  "denied_dimensions run a = [] \<longleftrightarrow>
     (\<forall>d. 0 < a d \<longrightarrow> (case r_max run d of None \<Rightarrow> True | Some m \<Rightarrow> r_reserved run d + r_used run d + a d \<le> m))"
proof -
  have "denied_dimensions run a = [] \<longleftrightarrow> (\<forall>d \<in> set DIMENSIONS. \<not> (0 < a d \<and>
      (case r_max run d of None \<Rightarrow> False | Some m \<Rightarrow> m < r_reserved run d + r_used run d + a d)))"
    by (simp add: denied_dimensions_def filter_empty_conv)
  then show ?thesis unfolding UNIV_dim [symmetric] by (fastforce simp: not_less split: option.splits)
qed

text \<open>
  A fresh admission outside the summary-turn lane, on a run that enforces its
  budget, adds exactly the asked amounts to the reserved ones, leaves the used ones and the
  status alone, and keeps reserved plus used within the cap in every dimension it asks for; on
  a summary-only run it asks for nothing that amplifies work.
\<close>

theorem admission_respects_caps:
  assumes "reserve env q l = (l', Inr r)" and "\<not> res_idempotent r"
    and "r_enforcement (the_run l) \<noteq> ''observe''" and "\<not> is_summary_turn q"
  shows "res_allowed r \<and> r_status (the_run l) \<in> {''active'', ''summary_only''}
    \<and> the_run l' = increment_reserved (positive_amounts (q_amounts q)) (the_run l)
    \<and> (\<forall>d. 0 < q_amounts q d \<longrightarrow> (case r_max (the_run l') d of None \<Rightarrow> True
          | Some m \<Rightarrow> r_reserved (the_run l') d + r_used (the_run l') d \<le> m))
    \<and> (r_status (the_run l) = ''summary_only'' \<longrightarrow> \<not> work_amplifying (q_amounts q))"
  using assms(1)
proof (cases rule: reserve_Inr_cases)
  case (replay e)
  then show ?thesis using assms(2) replay_reservation_Inr by blast
next
  case (fresh e)
  let ?a = "positive_amounts (q_amounts q)"
  have run: "the_run l' = increment_reserved ?a (the_run l)"
    using fresh by (simp add: add_event_def set_run_def)
  have "denied_dimensions (the_run l) ?a = []" using fresh assms by simp
  then have "case r_max (the_run l') d of None \<Rightarrow> True
      | Some m \<Rightarrow> r_reserved (the_run l') d + r_used (the_run l') d \<le> m" if "0 < q_amounts q d" for d
    using that unfolding denied_dimensions_Nil run increment_reserved_def
    by (force simp: positive_amounts_def split: option.splits)
  moreover have "work_amplifying ?a \<longleftrightarrow> work_amplifying (q_amounts q)"
    by (simp add: work_amplifying_def positive_amounts_def less_max_iff_disj)
  ultimately show ?thesis using fresh run by auto
qed

definition sample_env :: budget_env where
  "sample_env = \<lparr>env_now = 0, env_mint = (\<lambda>es. of_nat (length es)), env_finish = Inr, env_pause = (\<lambda>_ _. None)\<rparr>"

definition sample_run :: ledger where
  "sample_run = create_run 1 2 ''enforce'' ''hard_stop'' (\<lambda>d. if d = Tokens then Some 10 else None)
     None None None None None"

definition sample_reserve :: "string \<Rightarrow> int \<Rightarrow> reservation" where
  "sample_reserve k n = \<lparr>q_key = k, q_amounts = (\<lambda>d. if d = Tokens then n else 0), q_reason = None,
     q_task = None, q_metadata = []\<rparr>"

lemma sample_admitted:
  "snd (reserve sample_env (sample_reserve ''k'' 7) sample_run)
     = Inr \<lparr>res_allowed = True, res_would_deny = False, res_idempotent = False, res_denied = []\<rparr>"
  by code_simp

lemma outcome_eqI: "snd x = r \<Longrightarrow> x = (fst x, r)"
  by (cases x) simp

theorem admission_respects_caps_witness:
  "r_max (the_run (fst (reserve sample_env (sample_reserve ''k'' 7) sample_run))) Tokens = Some 10
   \<and> r_reserved (the_run (fst (reserve sample_env (sample_reserve ''k'' 7) sample_run))) Tokens
     + r_used (the_run (fst (reserve sample_env (sample_reserve ''k'' 7) sample_run))) Tokens \<le> 10"
proof -
  have cap: "r_max (the_run (fst (reserve sample_env (sample_reserve ''k'' 7) sample_run))) Tokens = Some 10"
    and ask: "0 < q_amounts (sample_reserve ''k'' 7) Tokens" and enf: "r_enforcement (the_run sample_run) \<noteq> ''observe''"
    and turn: "\<not> is_summary_turn (sample_reserve ''k'' 7)"
    by code_simp+
  show ?thesis
    using admission_respects_caps [OF outcome_eqI [OF sample_admitted] _ enf turn] cap ask by fastforce
qed

text \<open>
  Once a run is dead, no call sequence gets a fresh reservation admitted: a success
  is the replay of a reservation with the same key, task and amounts that was made before the
  run died, and it changes nothing.
\<close>

theorem dead_run_admits_nothing:
  assumes "r_status (the_run l) \<in> set DEAD" and "reserve env q (budget_calls cs l) = (l', Inr r)"
  shows "l' = budget_calls cs l \<and> res_idempotent r
    \<and> (\<exists>e \<in> set (events l'). e_type e = ''reservation'' \<and> e_key e = Some (q_key q) \<and> e_task e = q_task q
        \<and> positive_amounts (e_amounts e) = positive_amounts (q_amounts q))"
  using assms(2)
proof (cases rule: reserve_Inr_cases)
  case (replay e)
  then show ?thesis using replay_reservation_Inr existing_event_Some by blast
next
  case (fresh e)
  with dead_path [OF budget_calls_path [of l cs] assms(1)] assms(1) show ?thesis
    by (auto simp: DEAD_def)
qed

definition sample_cancelled :: ledger where
  "sample_cancelled = fst (cancel_run sample_env 2 ''user'' None
     (fst (reserve sample_env (sample_reserve ''k'' 7) sample_run)))"

theorem dead_run_admits_nothing_witness:
  "fst (reserve sample_env (sample_reserve ''k'' 7) (budget_calls [Expire sample_env] sample_cancelled))
     = budget_calls [Expire sample_env] sample_cancelled"
proof -
  have "r_status (the_run sample_cancelled) \<in> set DEAD"
    and "snd (reserve sample_env (sample_reserve ''k'' 7) (budget_calls [Expire sample_env] sample_cancelled))
      = Inr \<lparr>res_allowed = True, res_would_deny = False, res_idempotent = True, res_denied = []\<rparr>"
    by code_simp+
  then show ?thesis using dead_run_admits_nothing [OF _ outcome_eqI] by blast
qed

section \<open>Replays\<close>

text \<open>
  A reservation that was admitted stays admitted: whatever calls come between, the
  same key with the same task and amounts is answered from the record as allowed, and with
  another task or other amounts it is refused as a conflict; neither changes the ledger.
\<close>

theorem reservation_replay:
  assumes "reserve env q l = (l', Inr r)" and "\<not> res_idempotent r" and "q_key q \<noteq> []"
    and "q_key q' = q_key q"
  shows "fst (reserve env' q' (budget_calls cs l')) = budget_calls cs l'
    \<and> (if q_task q' = q_task q \<and> positive_amounts (q_amounts q') = positive_amounts (q_amounts q)
       then snd (reserve env' q' (budget_calls cs l')) = Inr \<lparr>res_allowed = True,
              res_would_deny = res_would_deny r, res_idempotent = True, res_denied = []\<rparr>
       else \<exists>m. snd (reserve env' q' (budget_calls cs l')) = Inl (SettlementConflict m))"
  using assms(1)
proof (cases rule: reserve_Inr_cases)
  case (replay e)
  then show ?thesis using assms(2) replay_reservation_Inr by blast
next
  case (fresh e)
  have "existing_event l' (Some (q_key q)) ''reservation'' = Some e"
    by (rule existing_added [OF fresh(1) assms(3)]) (use fresh in simp_all)
  then have "existing_event (budget_calls cs l') (Some (q_key q')) ''reservation'' = Some e"
    using existing_kept assms(4) by simp
  moreover have "positive_amounts (positive_amounts a) = positive_amounts a" for a
    by (simp add: positive_amounts_def)
  ultimately show ?thesis
    using fresh by (auto simp: reserve_def Let_def replay_reservation_def key_conflict_def)
qed

theorem reservation_replay_witness:
  "snd (reserve sample_env (sample_reserve ''k'' 7)
     (budget_calls [HardStop sample_env 2 ''r'' ''a''] (fst (reserve sample_env (sample_reserve ''k'' 7) sample_run))))
   = Inr \<lparr>res_allowed = True, res_would_deny = False, res_idempotent = True, res_denied = []\<rparr>"
  using reservation_replay [OF outcome_eqI [OF sample_admitted], of "sample_reserve ''k'' 7" sample_env
      "[HardStop sample_env 2 ''r'' ''a'']"]
  by (simp add: sample_reserve_def)

text \<open>The outcome of a settlement that went through.\<close>

lemma settle_Inr_cases:
  assumes "settle env q l = (l', Inr ())"
  obtains (replay) e where "existing_event l (Some (q_key q)) ''settlement'' = Some e" and "l' = l"
  | (fresh) res x l2 es where "existing_event l (Some (q_key q)) ''reservation'' = Some res"
      and "existing_event l (Some (q_key q)) ''settlement'' = None" and "e_task res = q_task q"
      and "e_type x = ''settlement''" and "e_key x = Some (q_key q)" and "e_task x = q_task q"
      and "e_amounts x = positive_amounts (q_amounts q)"
      and "l2 = add_event x (set_run (\<lambda>r. increment_used (positive_amounts (q_amounts q))
             (release_reserved (e_amounts res) r)) l)"
      and "(if breaker_tripped (the_run l2) 0 0 None 0 = [] then Inr l2
            else apply_breaker env (breaker_tripped (the_run l2) 0 0 None 0) ''settlement'' (q_reason q) l2) = Inr l'"
      and "events l' = events l @ x # es"
proof (cases "existing_event l (Some (q_key q)) ''settlement''")
  case (Some e)
  with assms show ?thesis by (intro replay [of e]) (auto simp: settle_def Let_def split: option.splits)
next
  case None
  from assms None obtain res where res: "existing_event l (Some (q_key q)) ''reservation'' = Some res"
    and task: "e_task res = q_task q"
    by (auto simp: settle_def Let_def split: option.splits if_splits)
  let ?a = "positive_amounts (q_amounts q)"
  define l1 where "l1 = set_run (\<lambda>r. increment_used ?a (release_reserved (e_amounts res) r)) l"
  define x where "x = new_event env l1 ''settlement'' (Some (q_key q)) (Some True) False (q_reason q) ?a (q_task q) (q_metadata q)"
  define l2 where "l2 = add_event x l1"
  let ?t = "breaker_tripped (the_run l2) 0 0 None 0"
  have "settle env q l = (case (if ?t = [] then Inr l2 else apply_breaker env ?t ''settlement'' (q_reason q) l2) of
      Inl e \<Rightarrow> (l, Inl e) | Inr l3 \<Rightarrow> commit l l3 (Inr ()))"
    using None res task by (simp add: settle_def Let_def l1_def x_def l2_def)
  with assms have step: "(if ?t = [] then Inr l2 else apply_breaker env ?t ''settlement'' (q_reason q) l2) = Inr l'"
    by (auto simp: commit_fst_Inr split: sum.splits)
  then have "prefix (events l2) (events l')"
    using apply_breaker_appends by (auto split: if_splits)
  then obtain es where "events l' = events l @ x # es"
    by (auto simp: l2_def l1_def elim: prefixE)
  with None res task step show ?thesis
    by (intro fresh [of res x l2 es]) (simp_all add: x_def l2_def l1_def new_event_def)
qed

text \<open>
  A reservation is settled once: after a settlement went through, whatever calls
  come between, another settlement of the key changes nothing; it succeeds when task and
  actual amounts are the same, and is refused as a conflict otherwise.
\<close>

theorem settlement_exactly_once:
  assumes "settle env q l = (l', Inr ())" and "existing_event l (Some (q_key q)) ''settlement'' = None"
    and "q_key q \<noteq> []" and "q_key q' = q_key q"
  shows "fst (settle env' q' (budget_calls cs l')) = budget_calls cs l'
    \<and> (if q_task q' = q_task q \<and> positive_amounts (q_amounts q') = positive_amounts (q_amounts q)
       then snd (settle env' q' (budget_calls cs l')) = Inr ()
       else \<exists>m. snd (settle env' q' (budget_calls cs l')) = Inl (SettlementConflict m))"
  using assms(1)
proof (cases rule: settle_Inr_cases)
  case (replay e)
  then show ?thesis using assms(2) by simp
next
  case (fresh res x l2 es)
  have "existing_event l' (Some (q_key q)) ''settlement'' = Some x"
    by (rule existing_added [OF assms(2,3) fresh(5,4,10)])
  then have x: "existing_event (budget_calls cs l') (Some (q_key q')) ''settlement'' = Some x"
    using existing_kept assms(4) by simp
  have "existing_event l' (Some (q_key q)) ''reservation'' = Some res"
    using fresh(1,10) by (auto simp: existing_event_def find_append_Some split: if_splits)
  then have res: "existing_event (budget_calls cs l') (Some (q_key q')) ''reservation'' = Some res"
    using existing_kept assms(4) by simp
  have "positive_amounts (positive_amounts a) = positive_amounts a" for a
    by (simp add: positive_amounts_def)
  then show ?thesis
    using x res fresh by (auto simp: settle_def Let_def key_conflict_def)
qed

definition sample_settled :: ledger where
  "sample_settled = fst (settle sample_env (sample_reserve ''k'' 4)
     (fst (reserve sample_env (sample_reserve ''k'' 7) sample_run)))"

theorem settlement_exactly_once_witness:
  "snd (settle sample_env (sample_reserve ''k'' 4) (budget_calls [Expire sample_env] sample_settled)) = Inr ()"
proof -
  have "snd (settle sample_env (sample_reserve ''k'' 4) (fst (reserve sample_env (sample_reserve ''k'' 7) sample_run))) = Inr ()"
    and "(case existing_event (fst (reserve sample_env (sample_reserve ''k'' 7) sample_run)) (Some ''k'') ''settlement'' of
      None \<Rightarrow> True | Some _ \<Rightarrow> False)"
    by code_simp+
  then show ?thesis
    using settlement_exactly_once [OF outcome_eqI, of sample_env "sample_reserve ''k'' 4"
        "fst (reserve sample_env (sample_reserve ''k'' 7) sample_run)" "sample_reserve ''k'' 4" sample_env "[Expire sample_env]"]
    by (simp add: sample_reserve_def sample_settled_def split: option.splits)
qed

end
