(* ===== verification/Budget_Caps.thy ===== *)
theory Budget_Caps
  imports Budget_Run
begin

text \<open>
  The cap of a budget over whole histories of honest calls, from the creation of the run.
\<close>

section \<open>Steps that do not touch the money\<close>

definition quiet :: "ledger \<Rightarrow> ledger \<Rightarrow> bool" where
  "quiet l l' \<longleftrightarrow> r_max (the_run l') = r_max (the_run l) \<and> r_enforcement (the_run l') = r_enforcement (the_run l)
     \<and> (\<exists>es. events l' = events l @ es \<and> (\<forall>e \<in> set es. e_type e \<notin> {''reservation'', ''settlement''}))"

lemma quiet_refl [simp]: "quiet l l"
  by (simp add: quiet_def)

lemma quiet_commit: "quiet l l' \<Longrightarrow> quiet l (fst (commit l l' r))"
  by (simp add: commit_def)

lemma quiet_trans: "quiet l m \<Longrightarrow> quiet m n \<Longrightarrow> quiet l n"
  unfolding quiet_def by fastforce

lemma quiet_set_run:
  "(\<And>r. r_max (f r) = r_max r \<and> r_enforcement (f r) = r_enforcement r) \<Longrightarrow> quiet l (set_run f l)"
  by (simp add: quiet_def set_run_def)

lemma quiet_add: "e_type e \<notin> {''reservation'', ''settlement''} \<Longrightarrow> quiet l (add_event e l)"
  by (simp add: quiet_def add_event_def)

lemma quiet_bind: "quiet l (bind_approval_episode e l)"
  by (simp add: quiet_def bind_approval_episode_def)

lemma quiet_tasks: "quiet l (l\<lparr>tasks := ts\<rparr>)"
  by (simp add: quiet_def)

lemma quiet_cancel: "cancel_pending_unclaimed_tasks env t s l = Inr l' \<Longrightarrow> quiet l l'"
  using cancel_pending_frame by (simp add: quiet_def)

lemma run_fields_moved:
  "r_max (move_run s r c run) = r_max run \<and> r_enforcement (move_run s r c run) = r_enforcement run"
  "r_max (clear_reserved run) = r_max run \<and> r_enforcement (clear_reserved run) = r_enforcement run"
  by (simp_all add: move_run_def clear_reserved_def)

lemma quiet_trip_run: "quiet l (trip_run env t r l)"
  by (auto simp: quiet_def trip_run_def Let_def set_run_def run_fields_moved)

lemma quiet_breaker:
  assumes "apply_breaker env tripped a src l = Inr l'"
  shows "quiet l l'"
proof (cases "r_status (the_run l) = ''active''")
  case False
  then show ?thesis using assms by (simp add: apply_breaker_def)
next
  case True
  define t where "t = breaker_status_for_fail_mode (r_fail_mode (the_run l))"
  define r where "r = ''runtime_budget_circuit_break:'' @ join_reasons tripped"
  from assms True obtain l1 where l1: "trip_tasks env t r (trip_run env t r l) = Inr l1"
    and out: "l' = add_event (breaker_event env l1 t r tripped a src)
      (if t = ''waiting_budget_approval''
       then bind_approval_episode (breaker_event env l1 t r tripped a src) l1 else l1)"
    unfolding apply_breaker_def t_def [symmetric] r_def [symmetric] Let_def by auto
  have "quiet l l1" by (rule quiet_trans [OF quiet_trip_run [of l env t r]]) (use trip_tasks_frame [OF l1] in \<open>simp add: quiet_def\<close>)
  moreover have "quiet l1 l'"
    unfolding out by (rule quiet_trans [OF _ quiet_add]) (auto simp: quiet_bind breaker_event_def new_event_def)
  ultimately show ?thesis by (rule quiet_trans)
qed

lemma quiet_exhaust:
  assumes "exhaust_run env q denied l = Inr l'"
  shows "quiet l l'"
proof -
  have move: "quiet l (set_run (move_run s r c) l)" for s r c
    by (rule quiet_set_run) (simp add: run_fields_moved)
  show ?thesis
    using assms unfolding exhaust_run_def Let_def
    by (auto intro: quiet_trans [OF move quiet_cancel] quiet_trans [OF move quiet_tasks] split: if_splits)
qed

lemma quiet_deny: "quiet l (fst (deny_reservation env q denied l))"
proof (cases "exhaust_run env q (join_reasons (map dim_name denied)) l")
  case (Inl e)
  then show ?thesis by (simp add: deny_reservation_def Let_def)
next
  case (Inr l1)
  obtain res e l2 where out: "deny_reservation env q denied l = commit l (add_event e l2) res"
    and e: "e_type e = ''denial''" and l2: "l2 = l1 \<or> l2 = bind_approval_episode e l1"
    using Inr by (simp add: deny_reservation_def Let_def denial_event_def new_event_def)
  have "quiet l l2" using l2 quiet_exhaust [OF Inr] quiet_trans [OF quiet_exhaust [OF Inr] quiet_bind] by auto
  then show ?thesis
    unfolding out by (intro quiet_commit) (rule quiet_trans [OF _ quiet_add], simp_all add: e)
qed

text \<open>A refused reservation is quiet, and leaves at most one event, a denial of the key.\<close>

lemma quiet_denied_event: "quiet l (fst (commit l (add_event (denial_event env l q r m) l) x))"
  by (intro quiet_commit quiet_add) (simp add: denial_event_def new_event_def)

lemma quiet_refusal: "reserve env q l = (l', Inl err) \<Longrightarrow> quiet l l'"
proof -
  assume r: "reserve env q l = (l', Inl err)"
  have adm: "commit l m (Inr x) = (l', Inl err) \<Longrightarrow> quiet l l'" for m x
    by (auto simp: commit_def split: if_splits)
  have den: "commit l (add_event (denial_event env l q rs m) l) x = (l', Inl err) \<Longrightarrow> quiet l l'" for rs m x
    using quiet_denied_event [of l env q rs m x] by simp
  have deny: "deny_reservation env q ds l = (l', Inl err) \<Longrightarrow> quiet l l'" for ds
    using quiet_deny [of l env q ds] by simp
  show ?thesis
    using r unfolding reserve_def Let_def
    by (auto split: option.splits sum.splits if_splits dest: adm den deny)
qed

lemma quiet_stops:
  "quiet l (fst (hard_stop_run env t r a l))"
  "quiet l (fst (cancel_run env t r u l))"
  "quiet l (fst (expire_run env l))"
proof -
  have move: "quiet l (set_run (\<lambda>run. clear_reserved (move_run s r c run)) l)" for s r c
    by (rule quiet_set_run) (simp add: run_fields_moved)
  have ev: "quiet m (add_event (stop_event env m' ty rs md) m)"
    if "ty \<in> {''hard_stopped'', ''cancelled'', ''expired''}" for m m' ty rs md
    by (rule quiet_add) (use that in \<open>auto simp: stop_event_def new_event_def\<close>)
  show "quiet l (fst (hard_stop_run env t r a l))"
    unfolding hard_stop_run_def Let_def
    by (auto split: sum.splits intro!: quiet_commit intro: quiet_trans [OF quiet_trans [OF move quiet_cancel] ev])
  show "quiet l (fst (cancel_run env t r u l))" "quiet l (fst (expire_run env l))"
    unfolding cancel_run_def expire_run_def Let_def
    by (auto split: sum.splits intro!: quiet_commit intro: quiet_trans [OF quiet_trans [OF move ev] quiet_cancel])
qed

lemma quiet_wake: "quiet l (fst (evaluate_wake_breaker env t l))"
proof -
  have inc: "quiet l (set_run (\<lambda>r. r\<lparr>r_parent_invocations := r_parent_invocations r + 1\<rparr>) l)"
    by (rule quiet_set_run) simp
  show ?thesis
    unfolding evaluate_wake_breaker_def Let_def
    by (auto split: sum.splits intro!: quiet_commit intro: inc quiet_trans [OF inc quiet_breaker])
qed

lemma quiet_summary: "quiet l (fst (mark_summary_turn_state env t ex n m l))"
proof -
  have "quiet l (add_event (stop_event env l' ''summary_turn'' r md) (set_run (\<lambda>r. r\<lparr>r_metadata := md'\<rparr>) l))"
    for l' r md md'
    by (simp add: quiet_def set_run_def stop_event_def new_event_def add_event_def)
  then show ?thesis unfolding mark_summary_turn_state_def Let_def by (auto intro!: quiet_commit)
qed

lemma quiet_reject: "quiet l (fst (reject_overrun env chk t v l))"
proof -
  have ep: "quiet l (fst (commit l (bind_episode v l) r))" for r :: "(budget_error, budget_run option) res"
    unfolding bind_episode_def by (intro quiet_commit quiet_set_run) simp
  have rej: "quiet l (fst (commit l (add_event (new_event env l' ''overrun_rejected'' None ok w rs am u m)
      (set_run (\<lambda>r. clear_reserved (move_run ''stopped'' why cmp r)) ((bind_episode v l)\<lparr>tasks := ts\<rparr>))) x))"
    for l' ok w rs am u m why cmp ts and x :: "(budget_error, budget_run option) res"
    by (rule quiet_commit)
      (simp add: quiet_def bind_episode_def set_run_def add_event_def new_event_def clear_reserved_def move_run_def)
  show ?thesis
    unfolding reject_overrun_def Let_def bind_episode_def [symmetric]
    by (auto intro: ep rej split: sum.split)
qed

section \<open>The cap over whole histories\<close>

text \<open>
  Calls that cannot lift the total: no decision on an overrun, no reservation in the
  summary-turn lane, and no settlement above what was reserved.
\<close>

fun honest :: "budget_call \<Rightarrow> ledger \<Rightarrow> bool" where
  "honest (Reserve env q) l \<longleftrightarrow> \<not> is_summary_turn q"
| "honest (Settle env q) l \<longleftrightarrow> (case existing_event l (Some (q_key q)) ''reservation'' of
     None \<Rightarrow> True | Some r \<Rightarrow> (\<forall>d. q_amounts q d \<le> e_amounts r d))"
| "honest (Approve env chk t v) l \<longleftrightarrow> False"
| "honest _ l \<longleftrightarrow> True"

fun honest_calls :: "budget_call list \<Rightarrow> ledger \<Rightarrow> bool" where
  "honest_calls [] l \<longleftrightarrow> True"
| "honest_calls (c # cs) l \<longleftrightarrow> honest c l \<and> honest_calls cs (budget_step c l)"

definition capped :: "(dim \<Rightarrow> int option) \<Rightarrow> ledger \<Rightarrow> bool" where
  "capped caps l \<longleftrightarrow> r_max (the_run l) = caps \<and> books (the_run l) (events l) \<and> r_enforcement (the_run l) \<noteq> ''observe''
     \<and> (\<forall>d m. caps d = Some m \<longrightarrow> open_sum (events l) d + used_sum (events l) d \<le> max 0 m)"

lemma sums_quiet:
  assumes "\<forall>e \<in> set zs. e_type e \<notin> {''reservation'', ''settlement''}"
  shows "open_sum (es @ zs) = open_sum es \<and> used_sum (es @ zs) = used_sum es"
  using assms
proof (induction zs rule: rev_induct)
  case (snoc z zs)
  then show ?case using sums_other_event [of z "es @ zs"] by simp
qed simp

lemma capped_quiet:
  assumes "capped caps l" and "quiet l l'" and "books (the_run l') (events l')"
  shows "capped caps l'"
  using assms sums_quiet by (fastforce simp: capped_def quiet_def)

lemma books_live:
  assumes "books run es" and "r_status run \<in> {''active'', ''summary_only''}"
  shows "r_reserved run = open_sum es"
  using assms by (auto simp: books_def CLEARED_def)

lemma capped_reserve:
  assumes c: "capped caps l" and q: "\<not> is_summary_turn q"
  shows "capped caps (fst (reserve env q l))"
proof -
  obtain l' r where out: "reserve env q l = (l', r)" by force
  have b: "books (the_run l') (events l')"
    using c sound_reserve [of l env q] by (simp add: capped_def sound_step_def out)
  show ?thesis
  proof (cases r)
    case (Inl e)
    then show ?thesis using capped_quiet [OF c quiet_refusal b] out by simp
  next
    case (Inr x)
    with out have out': "reserve env q l = (l', Inr x)" by simp
    then show ?thesis
    proof (cases rule: reserve_Inr_cases)
      case (replay e)
      then show ?thesis using c out by simp
    next
      case (fresh e)
      let ?a = "positive_amounts (q_amounts q)"
      have open': "open_sum (events l') d = open_sum (events l) d + ?a d" for d
      proof -
        have "r_status (the_run l') = r_status (the_run l)" "r_reserved (the_run l') d = r_reserved (the_run l) d + ?a d"
          using fresh by (simp_all add: add_event_def set_run_def increment_reserved_def)
        then show ?thesis using books_live [of "the_run l" "events l"] books_live [OF b] fresh c by (auto simp: capped_def)
      qed
      have used': "used_sum (events l') = used_sum (events l)" using fresh by (simp add: used_sum_def fun_eq_iff)
      have run: "r_max (the_run l') = r_max (the_run l)" "r_enforcement (the_run l') = r_enforcement (the_run l)"
        using fresh by (simp_all add: add_event_def set_run_def increment_reserved_def)
      have adm: "denied_dimensions (the_run l) ?a = []" using fresh q c by (simp add: capped_def)
      have live: "r_reserved (the_run l) = open_sum (events l)" "r_used (the_run l) = used_sum (events l)"
        using books_live [of "the_run l" "events l"] fresh c by (auto simp: capped_def books_def)
      have "open_sum (events l') d + used_sum (events l') d \<le> max 0 m" if m: "caps d = Some m" for d m
      proof (cases "0 < ?a d")
        case True
        have "r_max (the_run l) d = Some m" using c m by (simp add: capped_def)
        with adm True have "open_sum (events l) d + used_sum (events l) d + ?a d \<le> m"
          unfolding denied_dimensions_Nil live by (metis option.simps(5))
        then show ?thesis unfolding open' used' by simp
      next
        case False
        then have "?a d = 0" by (simp add: positive_amounts_def)
        then show ?thesis using c m unfolding open' used' run by (simp add: capped_def)
      qed
      then show ?thesis using b c run by (simp add: capped_def out)
    qed
  qed
qed

lemma capped_settle:
  assumes c: "capped caps l" and h: "honest (Settle env q) l"
  shows "capped caps (fst (settle env q l))"
proof -
  obtain l' r where out: "settle env q l = (l', r)" by force
  have b: "books (the_run l') (events l')"
    using c sound_settle [of l env q] by (simp add: capped_def sound_step_def out)
  show ?thesis
  proof (cases r)
    case (Inl e)
    then have "l' = l" using out unfolding settle_def Let_def
      by (auto simp: commit_def split: option.splits sum.splits if_splits)
    then show ?thesis using c out by simp
  next
    case (Inr x)
    with out have out': "settle env q l = (l', Inr ())" by simp
    then show ?thesis
    proof (cases rule: settle_Inr_cases)
      case (replay e)
      then show ?thesis using c out by simp
    next
      case (fresh res y l2 es)
      let ?a = "positive_amounts (q_amounts q)"
      note res = existing_event_Some [OF fresh(1)]
      have ev2: "events l2 = events l @ [y]" using fresh by simp
      have q2: "quiet l2 l'" using fresh(9) quiet_breaker by (auto split: if_splits)
      then obtain zs where zs: "events l' = events l2 @ zs" "\<forall>e \<in> set zs. e_type e \<notin> {''reservation'', ''settlement''}"
        by (auto simp: quiet_def)
      have wf: "wf_stream (events l)" using c by (simp add: capped_def books_def)
      have new: "\<not> settled (events l) res"
      proof
        assume "settled (events l) res"
        then obtain s where "s \<in> set (events l)" "e_type s = ''settlement''" "e_key s = Some (q_key q)"
          using res by (auto simp: settled_def)
        moreover have "q_key q \<noteq> []" using fresh(1) by (auto simp: existing_event_def)
        ultimately show False using fresh(2) by (auto simp: existing_event_def find_None_iff)
      qed
      have nn: "0 \<le> e_amounts res d" for d using wf res by (auto simp: wf_stream_def)
      have pay: "?a d \<le> e_amounts res d" for d
        using h fresh(1) nn [of d] by (auto simp: positive_amounts_def)
      have open': "open_sum (events l) d = e_amounts res d + open_sum (events l @ [y]) d" for d
        using open_sum_settle(1) [OF wf _ _ _ fresh(4,5) new, of d] res by simp
      have used': "used_sum (events l @ [y]) d = used_sum (events l) d + ?a d" for d
        using fresh by (simp add: used_sum_def)
      have run: "r_max (the_run l') = r_max (the_run l)" "r_enforcement (the_run l') = r_enforcement (the_run l)"
        using q2 fresh(8) by (simp_all add: quiet_def add_event_def set_run_def increment_used_def release_reserved_def)
      have "open_sum (events l') d + used_sum (events l') d \<le> max 0 m" if m: "caps d = Some m" for d m
      proof -
        have "open_sum (events l') d + used_sum (events l') d = open_sum (events l @ [y]) d + used_sum (events l @ [y]) d"
          unfolding zs(1) ev2 using sums_quiet [OF zs(2), of "events l @ [y]"] by simp
        moreover have "open_sum (events l) d + used_sum (events l) d \<le> max 0 m"
          using c m run by (simp add: capped_def)
        ultimately show ?thesis using open' [of d] used' [of d] pay [of d] by linarith
      qed
      then show ?thesis using b c run by (simp add: capped_def out)
    qed
  qed
qed

lemma capped_step:
  assumes c: "capped caps l" and h: "honest call l"
  shows "capped caps (budget_step call l)"
proof -
  have b: "books (the_run (budget_step call l)) (events (budget_step call l))"
    using c sound_budget_step [of l call] by (simp add: capped_def sound_step_def)
  have "quiet l (budget_step call l) \<Longrightarrow> ?thesis" by (rule capped_quiet [OF c _ b])
  then show ?thesis
    using h c
    by (cases call) (simp_all add: capped_reserve capped_settle quiet_stops quiet_wake quiet_summary quiet_reject
        quiet_tasks del: honest.simps(2))
qed

lemma capped_calls: "capped caps l \<Longrightarrow> honest_calls cs l \<Longrightarrow> capped caps (budget_calls cs l)"
  by (induction cs arbitrary: l) (auto simp: budget_calls_def capped_step)

text \<open>
  Claim C4. From the creation of a run that enforces its budget, no call sequence without an
  approved overrun, summary-turn reservation or settlement above its reservation ever takes a
  capped dimension over its cap: reserved plus used stays within it, in every interleaving of
  reservations, settlements, stops, expiry, wakes and task changes.
\<close>

theorem cap_never_exceeded:
  assumes "mode \<noteq> ''observe''" and "\<forall>d m. maxes d = Some m \<longrightarrow> 0 \<le> m"
    and "honest_calls cs (create_run rid tenant mode fail maxes mf mn ratio mp expires)"
    and "maxes d = Some m"
  shows "r_reserved (the_run (budget_calls cs (create_run rid tenant mode fail maxes mf mn ratio mp expires))) d
       + r_used (the_run (budget_calls cs (create_run rid tenant mode fail maxes mf mn ratio mp expires))) d \<le> m"
proof -
  let ?start = "create_run rid tenant mode fail maxes mf mn ratio mp expires"
  let ?l = "budget_calls cs ?start"
  have c0: "capped maxes ?start"
    unfolding capped_def using assms(1) books_create_run [of rid tenant mode fail maxes mf mn ratio mp expires]
    by (auto simp: create_run_def used_sum_def open_sum_def)
  have c: "capped maxes ?l" by (rule capped_calls [OF c0 assms(3)])
  have wf: "wf_stream (events ?l)" using c by (simp add: capped_def books_def)
  have "0 \<le> open_sum (events ?l) d"
    unfolding open_sum_def by (rule sum_list_nonneg) (use wf in \<open>auto simp: wf_stream_def\<close>)
  then have "r_reserved (the_run ?l) d \<le> open_sum (events ?l) d"
    using c by (simp add: capped_def books_def no_amounts_def)
  moreover have "open_sum (events ?l) d + used_sum (events ?l) d \<le> max 0 m"
    using c assms(4) by (simp add: capped_def)
  moreover have "r_used (the_run ?l) d = used_sum (events ?l) d" using c by (simp add: capped_def books_def)
  ultimately show ?thesis using assms(2,4) by fastforce
qed

theorem cap_never_exceeded_witness:
  "r_reserved (the_run (budget_calls [Reserve sample_env (sample_reserve ''k'' 7), Settle sample_env (sample_reserve ''k'' 5),
       Reserve sample_env (sample_reserve ''j'' 6)] sample_run)) Tokens
   + r_used (the_run (budget_calls [Reserve sample_env (sample_reserve ''k'' 7), Settle sample_env (sample_reserve ''k'' 5),
       Reserve sample_env (sample_reserve ''j'' 6)] sample_run)) Tokens \<le> 10"
proof -
  have h: "honest_calls [Reserve sample_env (sample_reserve ''k'' 7), Settle sample_env (sample_reserve ''k'' 5),
       Reserve sample_env (sample_reserve ''j'' 6)] sample_run" by code_simp
  show ?thesis
    unfolding sample_run_def
    by (rule cap_never_exceeded [OF _ _ h [unfolded sample_run_def]]) simp_all
qed

end
