(* ===== verification/Budget_Decisions.thy ===== *)
theory Budget_Decisions
  imports Budget_Caps
begin

text \<open>
  What a refused reservation leaves behind, when the circuit breaker trips, what a settlement
  does to a run, and the human decisions on an overrun.
\<close>

section \<open>Refusals\<close>

definition exhausted_status :: "string \<Rightarrow> string" where
  "exhausted_status fail_mode =
     (if fail_mode = ''summary_only'' then ''summary_only''
      else if fail_mode = ''require_confirmation'' then ''waiting_budget_approval'' else ''exhausted'')"

lemma exhaust_run_status:
  assumes "exhaust_run env q denied l = Inr l'"
  shows "r_status (the_run l') = (if r_status (the_run l) = ''active''
      then exhausted_status (r_fail_mode (the_run l)) else r_status (the_run l))"
  using assms
  by (auto simp: exhaust_run_def exhausted_status_def Let_def set_run_def move_run_def
      dest!: cancel_pending_frame split: if_splits)

definition refused_with :: "reservation \<Rightarrow> ledger \<Rightarrow> budget_error \<Rightarrow> ledger \<Rightarrow> bool" where
  "refused_with q l err l' \<longleftrightarrow>
     r_used (the_run l') = r_used (the_run l) \<and> r_reserved (the_run l') = r_reserved (the_run l)
     \<and> (l' = l \<or> (\<exists>e. events l' = events l @ [e] \<and> e_type e = ''denial'' \<and> e_key e = Some (q_key q)
           \<and> e_amounts e = positive_amounts (q_amounts q) \<and> e_task e = q_task q))
     \<and> r_status (the_run l') \<in> {r_status (the_run l),
          if r_status (the_run l) = ''active'' then exhausted_status (r_fail_mode (the_run l)) else r_status (the_run l)}
     \<and> (case err of ApprovalRequired m ds \<Rightarrow> r_status (the_run l') = ''waiting_budget_approval'' | _ \<Rightarrow> True)"

lemma refused_same: "\<nexists>m ds. err = ApprovalRequired m ds \<Longrightarrow> refused_with q l err l"
  by (auto simp: refused_with_def split: budget_error.splits)

lemma refused_event:
  assumes "commit l (add_event (denial_event env l q r md) l) (Inl err) = (l', Inl err')"
    and "case err of ApprovalRequired m ds \<Rightarrow> r_status (the_run l) = ''waiting_budget_approval'' | _ \<Rightarrow> True"
  shows "refused_with q l err' l'"
  using assms
  by (auto simp: commit_def refused_with_def add_event_def denial_event_def new_event_def
      split: if_splits budget_error.splits)

lemma cancel_tasks_error:
  "cancel_pending_unclaimed_tasks env t s l = Inl e \<Longrightarrow>
     \<exists>task \<in> set (tasks l). cancel_task env l t s task = Inl e"
proof -
  have "map_res f xs = Inl e \<Longrightarrow> \<exists>x \<in> set xs. f x = Inl e" for f :: "runtime_task \<Rightarrow> (budget_error, runtime_task) res" and xs
    by (induction xs) (auto simp: bind_res_Inl)
  then show "cancel_pending_unclaimed_tasks env t s l = Inl e \<Longrightarrow> ?thesis"
    by (auto simp: cancel_pending_unclaimed_tasks_def bind_res_Inl)
qed

text \<open>The exceptions of task evidence and of the terminal settlement are never approvals.\<close>

definition plain_finish :: "budget_env \<Rightarrow> bool" where
  "plain_finish env \<longleftrightarrow> (\<forall>t m ds. env_finish env t \<noteq> Inl (ApprovalRequired m ds))"

lemma stamp_plain: "stamp_runtime_task_budget_actuals t a \<noteq> Inl (ApprovalRequired m ds)"
  by (auto simp: stamp_runtime_task_budget_actuals_def stamp_conflict_def Let_def
      split: option.splits sum.splits pyval.splits)

lemma cancel_task_plain: "plain_finish env \<Longrightarrow> cancel_task env l r s t \<noteq> Inl (ApprovalRequired m ds)"
  by (auto simp: cancel_task_def stamp_cancelled_def bind_res_Inl stamp_plain plain_finish_def Let_def
      reservation_conflict_def split: option.splits pyval.splits)

lemma exhaust_run_plain: "plain_finish env \<Longrightarrow> exhaust_run env q d l \<noteq> Inl (ApprovalRequired m ds)"
  by (auto simp: exhaust_run_def Let_def dest!: cancel_tasks_error simp: cancel_task_plain split: if_splits)

lemma refused_deny:
  assumes "deny_reservation env q denied l = (l', Inl err)" and "plain_finish env"
  shows "refused_with q l err l'"
proof (cases "exhaust_run env q (join_reasons (map dim_name denied)) l")
  case (Inl e)
  with assms exhaust_run_plain show ?thesis
    by (auto simp: deny_reservation_def Let_def intro!: refused_same)
next
  case (Inr l1)
  note shape = exhaust_run_shape [OF Inr] exhaust_run_status [OF Inr]
  obtain e l2 r where out: "deny_reservation env q denied l = commit l (add_event e l2) (Inl r)"
    and r: "case r of ApprovalRequired m ds \<Rightarrow> r_status (the_run l1) = ''waiting_budget_approval'' | _ \<Rightarrow> True"
    and e: "e_type e = ''denial''" "e_key e = Some (q_key q)" "e_amounts e = positive_amounts (q_amounts q)"
      "e_task e = q_task q"
    and l2: "l2 = l1 \<or> l2 = bind_approval_episode e l1"
    using Inr by (simp add: deny_reservation_def Let_def denial_event_def new_event_def split: if_split_asm)
  have st: "r_status (the_run (add_event e l2)) = r_status (the_run l1)"
    "r_used (the_run (add_event e l2)) = r_used (the_run l)"
    "r_reserved (the_run (add_event e l2)) = r_reserved (the_run l)"
    "events (add_event e l2) = events l @ [e]"
    using l2 shape by (auto simp: add_event_def bind_approval_episode_def)
  show ?thesis
  proof (cases "unique_events (events (add_event e l2))")
    case True
    then show ?thesis using assms(1) out st e shape r by (auto simp: commit_def refused_with_def split: budget_error.splits)
  next
    case False
    then show ?thesis using assms(1) out by (auto simp: commit_def intro!: refused_same)
  qed
qed

text \<open>
  A refused reservation moves no money: reserved and used stay as they were. The
  ledger is unchanged or gains exactly one denial event with the key, task and amounts; the
  status stays or, on an active run, moves as the fail mode says; and approval is asked for
  only while the run waits for it.
\<close>

theorem refusal_keeps_the_books:
  assumes "reserve env q l = (l', Inl err)" and "plain_finish env"
  shows "refused_with q l err l'"
proof -
  let ?a = "positive_amounts (q_amounts q)"
  have adm: "commit l m (Inr x) = (l', Inl err) \<Longrightarrow> refused_with q l err l'" for m and x :: reserve_result
    by (auto simp: commit_def intro: refused_same split: if_splits)
  have deny: "deny_reservation env q ds l = (l', Inl err) \<Longrightarrow> refused_with q l err l'" for ds
    using refused_deny assms(2) by blast
  have replay: "replay_reservation m q e = Inl err \<Longrightarrow> refused_with q m err m" for e m
    by (auto simp: replay_reservation_def key_conflict_def intro!: refused_same split: if_splits)
  have replay': "replay_denial m q e = Inl err \<Longrightarrow> refused_with q m err m" for e m
    by (auto simp: replay_denial_def key_conflict_def Let_def refused_with_def split: if_splits)
  show ?thesis
    using assms(1) unfolding reserve_def Let_def
    by (auto split: option.splits sum.splits if_splits dest: adm deny replay replay' refused_event)
qed

theorem refusal_keeps_the_books_witness:
  "\<exists>m ds. snd (reserve sample_env (sample_reserve ''k'' 11) sample_run) = Inl (BudgetDenied m ds)
     \<and> refused_with (sample_reserve ''k'' 11) sample_run (BudgetDenied m ds)
         (fst (reserve sample_env (sample_reserve ''k'' 11) sample_run))"
proof -
  have "snd (reserve sample_env (sample_reserve ''k'' 11) sample_run)
      = Inl (BudgetDenied ''runtime budget exhausted: tokens'' [''tokens''])"
    by code_simp
  moreover have "plain_finish sample_env" by (simp add: plain_finish_def sample_env_def)
  ultimately show ?thesis using refusal_keeps_the_books [OF outcome_eqI] by blast
qed

section \<open>The circuit breaker\<close>

definition reached :: "int \<Rightarrow> int option \<Rightarrow> bool" where
  "reached n cap \<longleftrightarrow> (\<exists>m. cap = Some m \<and> 0 < n \<and> m \<le> n)"

lemma at_cap_reached: "at_cap n m = reached n m"
  by (auto simp: at_cap_def reached_def split: option.splits)

text \<open>
  The breaker trips exactly when a positive counter has reached its cap: the used
  amount of a dimension, with the reserved one added for the two token dimensions, the parent
  invocations, the failures, the runs to reconcile, or a positive failure ratio over at least
  eight children. It reports one text per tripped counter and no other.
\<close>

theorem breaker_trips_exactly:
  "breaker_tripped run failures needs ratio children = [] \<longleftrightarrow>
     \<not> ((\<exists>d. reached (r_used run d + (if d \<in> {Tokens, CacheMissTokens} then r_reserved run d else 0)) (r_max run d))
        \<or> reached (r_parent_invocations run) (r_max_parent run)
        \<or> reached failures (r_max_failures run) \<or> reached needs (r_max_needs run)
        \<or> (\<exists>c t x. r_max_ratio run = Some (c, t) \<and> ratio = Some x \<and> 0 < x \<and> c \<le> x \<and> 8 \<le> children))"
proof -
  have dims: "filter (\<lambda>d. at_cap (consumed (r_used run) (r_reserved run) d) (r_max run d)) DIMENSIONS = []
      \<longleftrightarrow> \<not> (\<exists>d. reached (r_used run d + (if d \<in> {Tokens, CacheMissTokens} then r_reserved run d else 0)) (r_max run d))"
    unfolding filter_empty_conv UNIV_dim [symmetric] by (simp add: at_cap_reached consumed_def)
  show ?thesis
    unfolding breaker_tripped_def evaluate_circuit_breaker_def append_is_Nil_conv map_is_Nil_conv dims
    by (auto simp: at_cap_reached MIN_CHILDREN_FOR_FAILURE_RATIO_def split: option.splits prod.splits)
qed

text \<open>
  The first settlement of a key frees exactly what was reserved under it (to zero at
  least), adds the actual amounts to the used ones, and leaves the status alone unless the run
  was active and a used amount has reached its cap: then the breaker moves it as the fail mode
  says, and a hard stop clears all reservations.
\<close>

lemma settlement_moves_the_run:
  assumes "settle env q l = (l', Inr ())" and "existing_event l (Some (q_key q)) ''settlement'' = None"
  shows "\<exists>res tripped. existing_event l (Some (q_key q)) ''reservation'' = Some res \<and> e_task res = q_task q
     \<and> tripped = breaker_tripped (increment_used (positive_amounts (q_amounts q))
                                    (release_reserved (e_amounts res) (the_run l))) 0 0 None 0
     \<and> r_used (the_run l') = (\<lambda>d. r_used (the_run l) d + max 0 (q_amounts q d))
     \<and> r_status (the_run l') = (if r_status (the_run l) = ''active'' \<and> tripped \<noteq> []
          then breaker_status_for_fail_mode (r_fail_mode (the_run l)) else r_status (the_run l))
     \<and> r_reserved (the_run l') = (if r_status (the_run l) = ''active'' \<and> r_status (the_run l') = ''hard_stopped''
          then no_amounts
          else (\<lambda>d. if 0 < e_amounts res d then max 0 (r_reserved (the_run l) d - e_amounts res d)
                    else r_reserved (the_run l) d))"
  using assms(1)
proof (cases rule: settle_Inr_cases)
  case (replay e)
  then show ?thesis using assms(2) by simp
next
  case (fresh res x l2 es)
  let ?run = "increment_used (positive_amounts (q_amounts q)) (release_reserved (e_amounts res) (the_run l))"
  have run2: "the_run l2 = ?run" using fresh(8) by (simp add: add_event_def set_run_def)
  let ?t = "breaker_tripped ?run 0 0 None 0"
  have step: "(if ?t = [] then Inr l2 else apply_breaker env ?t ''settlement'' (q_reason q) l2) = Inr l'"
    using fresh(9) unfolding run2 .
  have "r_used (the_run l') = r_used ?run \<and> r_status (the_run l') = (if r_status (the_run l) = ''active'' \<and> ?t \<noteq> []
          then breaker_status_for_fail_mode (r_fail_mode (the_run l)) else r_status (the_run l))
     \<and> r_reserved (the_run l') = (if r_status (the_run l) = ''active'' \<and> r_status (the_run l') = ''hard_stopped''
          then no_amounts else r_reserved ?run)"
  proof (cases "r_status (the_run l) = ''active'' \<and> ?t \<noteq> []")
    case True
    have act: "r_status (the_run l2) = ''active''" "r_fail_mode (the_run l2) = r_fail_mode (the_run l)"
      using True run2 by (simp_all add: increment_used_def release_reserved_def)
    from step True have ab: "apply_breaker env ?t ''settlement'' (q_reason q) l2 = Inr l'" by simp
    have "l' \<noteq> l2"
      using ab act(1) breaker_status_cases [of "r_fail_mode (the_run l2)"]
      by (auto simp: apply_breaker_def Let_def add_event_def dest!: trip_tasks_frame)
         (auto simp: trip_run_shape dest: arg_cong [where f = events])
    then show ?thesis
      using apply_breaker_shape [OF ab] True act run2 by auto
  next
    case False
    then have "l' = l2"
      using step run2 by (auto simp: apply_breaker_def increment_used_def release_reserved_def split: if_splits)
    then show ?thesis
      using False run2 by (auto simp: increment_used_def release_reserved_def)
  qed
  then show ?thesis
    using fresh(1,3) by (intro exI [of _ res] exI [of _ ?t])
      (auto simp: increment_used_def release_reserved_def positive_amounts_def)
qed

lemma settlement_moves_the_run_witness:
  "r_used (the_run sample_settled) Tokens = 4"
proof -
  have ok: "snd (settle sample_env (sample_reserve ''k'' 4) (fst (reserve sample_env (sample_reserve ''k'' 7) sample_run))) = Inr ()"
    and none: "(case existing_event (fst (reserve sample_env (sample_reserve ''k'' 7) sample_run)) (Some ''k'') ''settlement'' of
      None \<Rightarrow> True | Some _ \<Rightarrow> False)"
    and zero: "r_used (the_run (fst (reserve sample_env (sample_reserve ''k'' 7) sample_run))) Tokens = 0"
    by code_simp+
  have "existing_event (fst (reserve sample_env (sample_reserve ''k'' 7) sample_run)) (Some (q_key (sample_reserve ''k'' 4)))
      ''settlement'' = None" using none by (simp add: sample_reserve_def split: option.splits)
  from settlement_moves_the_run [OF outcome_eqI [OF ok] this] zero show ?thesis
    by (auto simp: sample_settled_def sample_reserve_def)
qed

section \<open>Decisions on an overrun\<close>

lemma AList_update_same: "map_of d k = Some v \<Longrightarrow> AList.update k v d = d"
  by (induction d) auto

lemma approval_episode_bound:
  "map_of (r_metadata (the_run l)) ''approval_episode_id'' = Some (PStr (uuid_str u)) \<Longrightarrow> approval_episode l = Some u"
  using uuid_text_some [of u] by (simp add: approval_episode_def dget_def)

lemma opt_uuid_text_inj [simp]: "opt_uuid_text x = opt_uuid_text y \<longleftrightarrow> x = y"
  by (auto simp: opt_uuid_text_def split: option.splits)

lemma dim_name_inj [simp]: "dim_name d = dim_name e \<longleftrightarrow> d = e"
  by (cases d; cases e) simp_all

lemma map_of_limits:
  "map_of (List.map_filter (\<lambda>d. map_option (\<lambda>n. (''max_'' @ dim_name d, PInt n)) (f d)) ds) (''max_'' @ dim_name d)
     = (if d \<in> set ds then map_option PInt (f d) else None)"
proof (induction ds)
  case Nil
  then show ?case by simp
next
  case (Cons x ds)
  then show ?case by (cases "f x") (auto simp: map_filter_simps)
qed

lemma limits_dict_inj [simp]: "limits_dict f = limits_dict g \<longleftrightarrow> f = g"
proof
  assume "limits_dict f = limits_dict g"
  then have eq: "map_option PInt (f d) = map_option PInt (g d)" for d
    using map_of_limits [of f DIMENSIONS d] map_of_limits [of g DIMENSIONS d]
    by (simp add: limits_dict_def UNIV_dim [symmetric])
  have "f d = g d" for d using eq [of d] by (cases "f d"; cases "g d") simp_all
  then show "f = g" by (rule ext)
qed simp

text \<open>What an approval does not write: the tenant and the metadata of the run.\<close>

definition kept_run :: "ledger \<Rightarrow> ledger \<Rightarrow> bool" where
  "kept_run l m \<longleftrightarrow> r_tenant (the_run m) = r_tenant (the_run l) \<and> r_metadata (the_run m) = r_metadata (the_run l)"

lemma kept_run_trans: "kept_run l m \<Longrightarrow> kept_run m n \<Longrightarrow> kept_run l n"
  by (simp add: kept_run_def)

lemma kept_run_shapes:
  "kept_run l (raise_limits v l)" "kept_run l (reactivate v l)" "kept_run l (add_event e l)" "kept_run l (put_task t l)"
  "kept_run l (set_run (raise_caps a) l)" "kept_run l (set_run (increment_reserved a) l)"
  by (simp_all add: kept_run_def raise_limits_def reactivate_def move_run_def set_run_def add_event_def put_task_def
      raise_caps_def increment_reserved_def)

lemma kept_approve_denial:
  assumes "approve_denial env v w s d = Inr s'"
  shows "kept_run (fst s) (fst s')"
proof -
  have "kept_run l (set_run (raise_caps a) l)" and
    "kept_run l (put_task t (add_event e (set_run (increment_reserved a) (set_run (raise_caps a) l))))" for l a t e
    by (simp_all add: kept_run_def set_run_def add_event_def put_task_def raise_caps_def increment_reserved_def)
  then show ?thesis
    using assms unfolding approve_denial_def Let_def
    by (auto split: prod.splits if_splits option.splits simp: kept_run_def)
qed

lemma kept_resume_task: "resume_task s u = Inr s' \<Longrightarrow> kept_run (fst s) (fst s')"
  unfolding resume_task_def Let_def
  by (auto split: prod.splits option.splits if_splits simp: kept_run_def put_task_def)

definition records_decision :: "overrun_decision \<Rightarrow> budget_event \<Rightarrow> bool" where
  "records_decision v e \<longleftrightarrow> e_type e = ''overrun_approved'' \<and> same_decision v e
     \<and> dget (e_metadata e) ''enforcement_mode'' = PStr (v_enforcement v)
     \<and> dget (e_metadata e) ''approved_limits'' = PDict (limits_dict (v_limits v))"

lemma records_decision_unique: "records_decision v e \<Longrightarrow> records_decision v' e \<Longrightarrow> v' = v"
  by (cases v; cases v') (auto simp: records_decision_def same_decision_def)

lemma approve_waiting_records:
  assumes "approve_waiting env v l = Inr l'"
  shows "\<exists>e es. events l' = es @ [e] \<and> records_decision v e \<and> kept_run l l' \<and> r_status (the_run l') = ''active''"
proof -
  from assms [unfolded approve_waiting_def Let_def raise_limits_def [symmetric] bind_res_Inr reactivate_def [symmetric]]
  obtain s s2 where
    s: "fold_res (approve_denial env v (waiting_tasks (raise_limits v l))) (raise_limits v l, [])
       (filter (\<lambda>e. e_type e = ''denial'') (events (raise_limits v l))) = Inr s"
    and s2: "fold_res resume_task s (map t_id (waiting_tasks (raise_limits v l))) = Inr s2"
    and rest: "\<exists>m. Inr (add_event (new_event env (reactivate v (fst s2)) ''overrun_approved'' None
        (Some True) False (Some (v_reason v)) no_amounts None
        ([(''actor_user_id'', opt_uuid_text (v_actor v)), (''approval_episode_id'', PStr (uuid_str (v_episode v))),
          (''enforcement_mode'', PStr (v_enforcement v)), (''approved_limits'', PDict (limits_dict (v_limits v)))]
         @ (case v_increase v of None \<Rightarrow> [] | Some u \<Rightarrow> [(''increase_request_id'', PStr (uuid_str u))])
         @ [(''transition'', str_list [''waiting_budget_approval'', ''approved'', ''resuming'', ''active'']),
            (''target_status'', PStr ''approved''), (''resumed_runtime_task_ids'', m)])) (reactivate v (fst s2)))
        = (Inr l' :: (budget_error, ledger) res)"
    by (elim exE conjE) (simp only: split_beta, blast)
  have "kept_run l (fst s)"
    by (rule fold_res_invariant [OF s, where P = "\<lambda>s. kept_run l (fst s)"])
      (auto simp: kept_run_shapes intro: kept_run_trans kept_approve_denial)
  then have "kept_run l (fst s2)"
    by (rule fold_res_invariant [OF s2, where P = "\<lambda>s. kept_run l (fst s)"])
      (blast intro: kept_run_trans kept_resume_task)
  moreover from rest obtain e where "l' = add_event e (reactivate v (fst s2))" and "records_decision v e"
    by (auto simp: records_decision_def same_decision_def new_event_def dget_def opt_uuid_text_def split: option.splits)
  ultimately show ?thesis
    using kept_run_trans [of l "fst s2" "reactivate v (fst s2)"] kept_run_shapes(2)
    by (auto simp: reactivate_shape add_event_def kept_run_def)
qed

lemma last_event_snoc: "e_type e = ty \<Longrightarrow> events l = es @ [e] \<Longrightarrow> last_event ty l = Some e"
  by (simp add: last_event_def)

lemma bind_episode_id:
  "map_of (r_metadata (the_run l)) ''approval_episode_id'' = Some (PStr (uuid_str (v_episode v))) \<Longrightarrow> bind_episode v l = l"
  by (simp add: bind_episode_def set_run_def AList_update_same)

text \<open>
  An approved overrun makes the run active again, and the approval is idempotent:
  repeating the decision returns the same run and changes nothing, while a decision that
  differs in the reason, the actor, the request, the enforcement mode or a limit is refused as
  a state conflict, also without a change.
\<close>

theorem approval_is_idempotent:
  assumes "approve_overrun env chk tenant v l = (l', Inr (Some r))"
    and "r_status (the_run l) = ''waiting_budget_approval''"
  shows "r_status (the_run l') = ''active''
    \<and> approve_overrun env' chk' tenant v l' = (l', Inr (Some r))
    \<and> (if v' = v then True
       else \<exists>m. approve_overrun env' chk' tenant v' l' = (l', Inl (StateConflict m)))"
proof -
  from assms have tenant: "r_tenant (the_run l) = tenant"
    by (auto simp: approve_overrun_def split: if_splits)
  from assms tenant have "\<exists>l1. approve_waiting env v (bind_episode v l) = Inr l1
      \<and> commit l l1 (Inr (Some (the_run l1))) = (l', Inr (Some r))"
    unfolding approve_overrun_def Let_def bind_episode_def [symmetric]
    by (auto simp: bind_episode_shape split: if_splits sum.splits)
  then have aw: "approve_waiting env v (bind_episode v l) = Inr l'" and uniq: "unique_events (events l')"
    and r: "r = the_run l'"
    by (auto simp: commit_fst_Inr)
  from approve_waiting_records [OF aw] obtain e es where ev: "events l' = es @ [e]" and rec: "records_decision v e"
    and kept: "kept_run (bind_episode v l) l'" and act: "r_status (the_run l') = ''active''" by blast
  have meta: "map_of (r_metadata (the_run l')) ''approval_episode_id'' = Some (PStr (uuid_str (v_episode v)))"
    and ten: "r_tenant (the_run l') = tenant"
    using kept tenant by (simp_all add: kept_run_def bind_episode_def set_run_def)
  note ep = approval_episode_bound [OF meta]
  have last: "last_event ''overrun_approved'' l' = Some e"
    using rec by (intro last_event_snoc [OF _ ev]) (simp add: records_decision_def)
  have go: "approve_overrun env' chk' tenant w l' = (if v_episode w \<noteq> v_episode v
        then (l', Inl (StateConflict (''runtime budget approval episode conflict for '' @ uuid_str (r_id (the_run l')))))
      else if records_decision w e then commit l' l' (Inr (Some (the_run l')))
      else (l', Inl (state_conflict l' ''approval'')))" for w
    unfolding approve_overrun_def Let_def bind_episode_def [symmetric]
    using bind_episode_id [of l' w] meta rec
    by (auto simp: ten ep act last records_decision_def)
  have "approve_overrun env' chk' tenant v l' = (l', Inr (Some r))"
    by (simp add: go rec commit_def uniq r)
  moreover have "\<exists>m. approve_overrun env' chk' tenant v' l' = (l', Inl (StateConflict m))" if "v' \<noteq> v"
    using records_decision_unique [OF rec] that by (auto simp: go state_conflict_def)
  ultimately show ?thesis using act by simp
qed

definition waiting_run :: ledger where
  "waiting_run = fst (reserve sample_env (sample_reserve ''k'' 11)
     (create_run 1 2 ''enforce'' ''require_confirmation'' (\<lambda>d. if d = Tokens then Some 10 else None)
        None None None None None))"

definition sample_decision :: overrun_decision where
  "sample_decision = \<lparr>v_reason = ''ok'', v_episode = 0, v_actor = None, v_increase = None,
     v_enforcement = ''enforce'', v_limits = (\<lambda>d. if d = Tokens then Some 20 else None)\<rparr>"

text \<open>An approval of a run that no task waits for raises the limits and reactivates it.\<close>

lemma approve_denial_without_tasks:
  "v_increase v = None \<Longrightarrow> \<exists>l'. approve_denial env v [] (l, r) d = Inr (l', r) \<and> events l' = events l"
  by (auto simp: approve_denial_def waiting_task_for_def Let_def split: option.splits)

lemma approve_denials_without_tasks:
  "v_increase v = None \<Longrightarrow>
     \<exists>l'. fold_res (approve_denial env v []) (l, r) ds = Inr (l', r) \<and> events l' = events l"
proof (induction ds arbitrary: l)
  case (Cons d ds)
  from approve_denial_without_tasks [OF Cons.prems] obtain m where
    m: "approve_denial env v [] (l, r) d = Inr (m, r)" "events m = events l" by blast
  with Cons.IH [OF Cons.prems, of m] show ?case by simp
qed simp

lemma approve_without_tasks:
  assumes "r_tenant (the_run l) = t" "approval_episode l = Some (v_episode v)"
    "r_status (the_run l) = ''waiting_budget_approval''" "v_increase v = None" "tasks l = []"
    and uniq: "unique_events (events l)" and fresh: "env_mint env (events l) \<notin> e_id ` set (events l)"
  shows "\<exists>l' r. approve_overrun env chk t v l = (l', Inr (Some r))"
proof -
  let ?l0 = "bind_episode v l"
  have w: "waiting_tasks (raise_limits v ?l0) = []"
    using assms(5) by (simp add: waiting_tasks_def raise_limits_def bind_episode_def set_run_def)
  obtain l2 where l2: "fold_res (approve_denial env v []) (raise_limits v ?l0, [])
      (filter (\<lambda>e. e_type e = ''denial'') (events (raise_limits v ?l0))) = Inr (l2, [])"
    and ev2: "events l2 = events l"
    using approve_denials_without_tasks [OF assms(4)] raise_limits_shape(1) bind_episode_shape(1) by metis
  obtain l1 e where l1: "approve_waiting env v ?l0 = Inr l1" and ev: "events l1 = events l @ [e]"
    and e: "e_key e = None" "e_id e = env_mint env (events l)"
    unfolding approve_waiting_def Let_def raise_limits_def [symmetric] reactivate_def [symmetric] w
    by (simp add: l2 reactivate_shape ev2 new_event_def)
  have "unique_events (events l1)"
    using uniq fresh e by (simp add: ev unique_events_def)
  then show ?thesis
    using assms(1-4) l1
    by (simp add: approve_overrun_def Let_def bind_episode_def [symmetric] bind_episode_shape commit_def)
qed

theorem approval_is_idempotent_witness:
  "r_status (the_run (fst (approve_overrun sample_env (\<lambda>_ _. Inr ()) 2 sample_decision waiting_run))) = ''active''"
proof -
  have st: "r_status (the_run waiting_run) = ''waiting_budget_approval''"
    and "r_tenant (the_run waiting_run) = 2" "approval_episode waiting_run = Some (v_episode sample_decision)"
      "v_increase sample_decision = None" "unique_events (events waiting_run)"
      "tasks waiting_run = []" "env_mint sample_env (events waiting_run) \<notin> e_id ` set (events waiting_run)"
    by code_simp+
  then obtain l' r where ok: "approve_overrun sample_env (\<lambda>_ _. Inr ()) 2 sample_decision waiting_run = (l', Inr (Some r))"
    using approve_without_tasks by blast
  from approval_is_idempotent [OF ok st, of sample_env "\<lambda>_ _. Inr ()" sample_decision] ok show ?thesis by simp
qed

section \<open>A retry of a denied key\<close>

text \<open>
  A reservation whose key was denied before, retried on a run that is active again
  but still has no room, does not get the typed denial: the second denial event of the key
  violates the unique constraint of the event table, so the call raises an integrity error
  and the run keeps its status.
\<close>

theorem denied_retry_violates_uniqueness:
  assumes "r_status (the_run l) = ''active''" and "r_enforcement (the_run l) \<noteq> ''observe''"
    and "existing_event l (Some (q_key q)) ''reservation'' = None"
    and "existing_event l (Some (q_key q)) ''denial'' = Some d" and "e_task d = q_task q"
    and "positive_amounts (e_amounts d) = positive_amounts (q_amounts q)"
    and "denied_dimensions (the_run l) (positive_amounts (q_amounts q)) \<noteq> []"
    and "exhaust_run env q (join_reasons (map dim_name
           (denied_dimensions (the_run l) (positive_amounts (q_amounts q))))) l = Inr l1"
  shows "reserve env q l = (l, Inl (IntegrityViolation ''uq_runtime_budget_event_key_type''))"
proof -
  have d: "d \<in> set (events l)" "e_key d = Some (q_key q)" "e_type d = ''denial''"
    using existing_event_Some [OF assms(4)] by simp_all
  have "replay_denial l q d = Inr ()"
    using assms(1,5,6) by (simp add: replay_denial_def)
  then have "reserve env q l = deny_reservation env q (denied_dimensions (the_run l) (positive_amounts (q_amounts q))) l"
    using assms by (simp add: reserve_def Let_def)
  moreover have "\<not> unique_events (events l @ [e])" if "e_type e = ''denial''" "e_key e = Some (q_key q)" for e
    using unique_events_fresh [of "events l" e] d that by auto
  ultimately show ?thesis
    using assms(8) exhaust_run_shape [OF assms(8)]
    by (auto simp: deny_reservation_def Let_def commit_def denial_event_def new_event_def)
qed

text \<open>
  A call of 11 tokens is denied at a cap of 10; the run is active again with a cap of 11, as
  an approval leaves it; another call takes 5 tokens first, and the retry meets the constraint.
\<close>

definition reopened_run :: ledger where
  "reopened_run = fst (reserve sample_env (sample_reserve ''j'' 5)
     (set_run (\<lambda>r. raise_caps (q_amounts (sample_reserve ''k'' 11)) (move_run ''active'' None None r)) waiting_run))"

theorem denied_retry_violates_uniqueness_witness:
  "snd (reserve sample_env (sample_reserve ''k'' 11) reopened_run)
     = Inl (IntegrityViolation ''uq_runtime_budget_event_key_type'')"
proof -
  let ?q = "sample_reserve ''k'' 11"
  let ?d = "denied_dimensions (the_run reopened_run) (positive_amounts (q_amounts ?q))"
  have st: "r_status (the_run reopened_run) = ''active''" "r_enforcement (the_run reopened_run) \<noteq> ''observe''"
    and full: "?d \<noteq> []"
    and keys: "map (\<lambda>e. (e_key e, e_type e, e_task e)) (events reopened_run)
      = [(Some ''k'', ''denial'', None), (Some ''j'', ''reservation'', None)]"
    and am: "map (\<lambda>e. positive_amounts (e_amounts e)) (events reopened_run)
      = [positive_amounts (q_amounts ?q), positive_amounts (q_amounts (sample_reserve ''j'' 5))]"
    and mode: "r_fail_mode (the_run reopened_run) = ''require_confirmation''"
    by code_simp+
  from keys obtain d e where ev: "events reopened_run = [d, e]"
    and d: "e_key d = Some ''k''" "e_type d = ''denial''" "e_task d = None"
    and e: "e_key e = Some ''j''" "e_type e = ''reservation''"
    by (auto simp: map_eq_Cons_conv)
  have k: "q_key ?q = ''k''" "q_task ?q = None" by (simp_all add: sample_reserve_def)
  have no: "existing_event reopened_run (Some (q_key ?q)) ''reservation'' = None"
    and yes: "existing_event reopened_run (Some (q_key ?q)) ''denial'' = Some d"
    by (simp_all add: existing_event_def ev d e k)
  obtain l1 where l1: "exhaust_run sample_env ?q (join_reasons (map dim_name ?d)) reopened_run = Inr l1"
    using st mode by (simp add: exhaust_run_def Let_def)
  have "reserve sample_env ?q reopened_run = (reopened_run, Inl (IntegrityViolation ''uq_runtime_budget_event_key_type''))"
    by (rule denied_retry_violates_uniqueness [OF st no yes _ _ full l1]) (use am ev d k in simp_all)
  then show ?thesis by simp
qed

end
