(* ===== verification/Py_Compare.thy ===== *)
theory Py_Compare
  imports Py_Std "HOL-Library.Log_Nat"
begin

text \<open>
  Python's comparisons on values of JSON shape, and \<open>json.dumps\<close> with its default separators.
  A float compares by the value of the double its text denotes; ints compare exactly with
  doubles, bools are the ints 0 and 1, and an ordering between unrelated types is a TypeError.
\<close>

section \<open>The value of a float\<close>

datatype num_value = NotANumber | NegInfinity | PosInfinity | Finite rat

text \<open>The decimal a finite float text denotes, as \<open>repr\<close> prints it: \<open>d.ddd\<close> or \<open>d.ddde+xx\<close>.\<close>

definition decimal_value :: "string \<Rightarrow> rat" where
  "decimal_value f =
     (let (neg, body) = (case f of c # cs \<Rightarrow> (c = CHR ''-'', if c = CHR ''-'' then cs else f) | [] \<Rightarrow> (False, []));
          (mantissa, expo) = split_at_char (CHR ''e'') body;
          (whole, frac) = split_at_char (CHR ''.'') mantissa;
          n = rat_of_int (int (nat_of_digits (whole @ frac)));
          e = (case expo of [] \<Rightarrow> 0 | c # cs \<Rightarrow>
                 if c = CHR ''-'' then - int (nat_of_digits cs)
                 else if c = CHR ''+'' then int (nat_of_digits cs) else int (nat_of_digits expo))
              - int (length frac);
          v = (if 0 \<le> e then n * 10 ^ nat e else n / 10 ^ nat (- e)) in
      if neg then - v else v)"

text \<open>The nearest double of a positive rational, ties to even; subnormals keep 1074 bits.\<close>

definition scale_rat :: "rat \<Rightarrow> int \<Rightarrow> rat" where
  "scale_rat x e = (if 0 \<le> e then x * 2 ^ nat e else x / 2 ^ nat (- e))"

definition nearest_double :: "rat \<Rightarrow> rat" where
  "nearest_double x =
     (let (p, q) = quotient_of x;
          e0 = int (floorlog 2 (nat p)) - int (floorlog 2 (nat q)) - 53;
          e1 = (if 2 ^ 53 \<le> scale_rat x (- e0) then e0 + 1 else e0);
          e = max e1 (- 1074);
          (p', q') = quotient_of (scale_rat x (- e)) in
      scale_rat (rat_of_int (round_half_even p' q')) e)"

definition float_value :: "string \<Rightarrow> num_value" where
  "float_value f =
     (if f = ''nan'' then NotANumber else if f = ''inf'' then PosInfinity
      else if f = ''-inf'' then NegInfinity
      else let d = decimal_value f in
        Finite (if d = 0 then 0 else if d < 0 then - nearest_double (- d) else nearest_double d))"

fun number_of :: "pyval \<Rightarrow> num_value option" where
  "number_of (PBool b) = Some (Finite (if b then 1 else 0))"
| "number_of (PInt i) = Some (Finite (rat_of_int i))"
| "number_of (PFloat f) = Some (float_value f)"
| "number_of _ = None"

fun num_less :: "num_value \<Rightarrow> num_value \<Rightarrow> bool" where
  "num_less (Finite a) (Finite b) = (a < b)"
| "num_less NegInfinity (Finite b) = True"
| "num_less NegInfinity PosInfinity = True"
| "num_less (Finite a) PosInfinity = True"
| "num_less _ _ = False"

definition num_eq :: "num_value \<Rightarrow> num_value \<Rightarrow> bool" where
  "num_eq a b = (a = b \<and> a \<noteq> NotANumber)"

section \<open>Equality and order\<close>

fun py_eq :: "pyval \<Rightarrow> pyval \<Rightarrow> bool"
  and py_eqs :: "pyval list \<Rightarrow> pyval list \<Rightarrow> bool"
  and py_eqd :: "(string \<times> pyval) list \<Rightarrow> (string \<times> pyval) list \<Rightarrow> bool" where
  "py_eq (PStr s) w = (case w of PStr t \<Rightarrow> s = t | _ \<Rightarrow> False)"
| "py_eq PNone w = (w = PNone)"
| "py_eq (PList vs) w = (case w of PList ws \<Rightarrow> py_eqs vs ws | _ \<Rightarrow> False)"
| "py_eq (PDict d) w = (case w of PDict e \<Rightarrow> length d = length e \<and> py_eqd d e | _ \<Rightarrow> False)"
| "py_eq (PBool b) w = (case number_of w of None \<Rightarrow> False | Some n \<Rightarrow> num_eq (Finite (if b then 1 else 0)) n)"
| "py_eq (PInt i) w = (case number_of w of None \<Rightarrow> False | Some n \<Rightarrow> num_eq (Finite (rat_of_int i)) n)"
| "py_eq (PFloat f) w = (case number_of w of None \<Rightarrow> False | Some n \<Rightarrow> num_eq (float_value f) n)"
| "py_eqs [] ws = (ws = [])"
| "py_eqs (v # vs) ws = (case ws of [] \<Rightarrow> False | w # ws' \<Rightarrow> py_eq v w \<and> py_eqs vs ws')"
| "py_eqd [] e = True"
| "py_eqd ((k, v) # d) e = ((case map_of e k of None \<Rightarrow> False | Some w \<Rightarrow> py_eq v w) \<and> py_eqd d e)"

fun text_less :: "string \<Rightarrow> string \<Rightarrow> bool" where
  "text_less s [] = False"
| "text_less [] (c # cs) = True"
| "text_less (b # bs) (c # cs) = (code_point b < (code_point c :: nat) \<or> b = c \<and> text_less bs cs)"

text \<open>\<open>v < w\<close>; \<^term>\<open>None\<close> is a TypeError. Lists compare at their first unequal position.\<close>

fun py_less :: "pyval \<Rightarrow> pyval \<Rightarrow> bool option"
  and py_less_list :: "pyval list \<Rightarrow> pyval list \<Rightarrow> bool option" where
  "py_less (PStr s) w = (case w of PStr t \<Rightarrow> Some (text_less s t) | _ \<Rightarrow> None)"
| "py_less PNone w = None"
| "py_less (PDict d) w = None"
| "py_less (PList vs) w = (case w of PList ws \<Rightarrow> py_less_list vs ws | _ \<Rightarrow> None)"
| "py_less (PBool b) w = map_option (num_less (Finite (if b then 1 else 0))) (number_of w)"
| "py_less (PInt i) w = map_option (num_less (Finite (rat_of_int i))) (number_of w)"
| "py_less (PFloat f) w = map_option (num_less (float_value f)) (number_of w)"
| "py_less_list [] ws = Some (ws \<noteq> [])"
| "py_less_list (v # vs) ws = (case ws of [] \<Rightarrow> Some False
     | w # ws' \<Rightarrow> if py_eq v w then py_less_list vs ws' else py_less v w)"

text \<open>\<open>v <= w\<close>: on lists the first unequal position decides, on the rest it is less or equal.\<close>

fun py_le :: "pyval \<Rightarrow> pyval \<Rightarrow> bool option"
  and py_le_list :: "pyval list \<Rightarrow> pyval list \<Rightarrow> bool option" where
  "py_le (PStr s) w = (case w of PStr t \<Rightarrow> Some (text_less s t \<or> s = t) | _ \<Rightarrow> None)"
| "py_le PNone w = None"
| "py_le (PDict d) w = None"
| "py_le (PList vs) w = (case w of PList ws \<Rightarrow> py_le_list vs ws | _ \<Rightarrow> None)"
| "py_le (PBool b) w = map_option (\<lambda>n. num_less (Finite (if b then 1 else 0)) n \<or> num_eq (Finite (if b then 1 else 0)) n) (number_of w)"
| "py_le (PInt i) w = map_option (\<lambda>n. num_less (Finite (rat_of_int i)) n \<or> num_eq (Finite (rat_of_int i)) n) (number_of w)"
| "py_le (PFloat f) w = map_option (\<lambda>n. num_less (float_value f) n \<or> num_eq (float_value f) n) (number_of w)"
| "py_le_list [] ws = Some True"
| "py_le_list (v # vs) ws = (case ws of [] \<Rightarrow> Some False
     | w # ws' \<Rightarrow> if py_eq v w then py_le_list vs ws' else py_le v w)"

text \<open>\<open>x in v\<close>; \<^term>\<open>None\<close> is a TypeError. A list or dict is not hashable.\<close>

definition py_in :: "pyval \<Rightarrow> pyval \<Rightarrow> bool option" where
  "py_in x v =
     (case v of
        PStr s \<Rightarrow> (case x of PStr t \<Rightarrow> Some (sublist t s) | _ \<Rightarrow> None)
      | PList vs \<Rightarrow> Some (list_ex (py_eq x) vs)
      | PDict d \<Rightarrow> (case x of PStr k \<Rightarrow> Some (has_key d k) | PList _ \<Rightarrow> None | PDict _ \<Rightarrow> None | _ \<Rightarrow> Some False)
      | _ \<Rightarrow> None)"

section \<open>\<open>json.dumps(v, ensure_ascii=False, sort_keys=True)\<close>\<close>

fun json_dumps :: "pyval \<Rightarrow> string" where
  "json_dumps PNone = ''null''"
| "json_dumps (PBool b) = (if b then ''true'' else ''false'')"
| "json_dumps (PInt i) = str_of_int i"
| "json_dumps (PFloat f) = json_float f"
| "json_dumps (PStr s) = json_string s"
| "json_dumps (PList vs) = ''['' @ py_join '', '' (map json_dumps vs) @ '']''"
| "json_dumps (PDict d) = ''{'' @ py_join '', '' (map (\<lambda>kv. json_string (fst kv) @ '': '' @ snd kv)
     (sort_key fst (map (\<lambda>kv. (fst kv, json_dumps (snd kv))) d))) @ ''}''"

section \<open>Facts\<close>

lemma num_less_irrefl: "\<not> num_less a a"
  by (cases a) auto

lemma num_less_trans: "num_less a b \<Longrightarrow> num_less b c \<Longrightarrow> num_less a c"
  by (cases a; cases b; cases c) auto

end
