(* ===== verification/Workflow_Def.thy ===== *)
theory Workflow_Def
  imports Py_Compare
begin

text \<open>
  Workflow definitions, \<open>backend/app/runtime/workflow_definition.py\<close>: the step and condition
  datatypes with the checks the code's validators make, the argument schema and its
  normalisation, and the definition hash. Parsing a payload into these types (pydantic's
  coercions) is outside; the value constraints declared on the fields are part of the checks.
\<close>

section \<open>Data\<close>

datatype workflow_error = DefinitionError string | CompileError string | AdmissionError string
  | TemplateError string | PyError string

datatype condition_op = OpEq | OpNe | OpGt | OpLt | OpGte | OpLte | OpContains | OpExists | OpIn

record condition_predicate =
  cp_field :: string
  cp_op :: condition_op
  cp_value :: pyval

text \<open>A node holds four optional branches; the validator asks for exactly one of them.\<close>

datatype condition = Condition
  (cond_predicate: "condition_predicate option")
  (cond_all: "condition list option")
  (cond_any: "condition list option")
  (cond_not: "condition option")

datatype leaf_type = Explorer | Worker | Critic

record leaf_ref =
  lf_name :: string
  lf_type :: leaf_type
  lf_rounds :: "int option"

datatype effects_level = ReadOnly | WorkspaceWrite | External | Irreversible

text \<open>The five kinds of step with the fields of their own.\<close>

datatype step_body =
    AgentStep (ag_leaf: leaf_ref) (ag_task: string) (ag_retry: "int option")
  | FanoutStep (fo_leaf: leaf_ref) (fo_items: string) (fo_task: string) (fo_concurrency: int)
  | GateStep (gt_reason: string)
  | WaitUntilStep (wu_delay: "int option") (wu_until: "string option")
  | WaitSignalStep (ws_signal: string)

record wf_step =
  st_id :: string
  st_when :: "condition option"
  st_effects :: effects_level
  st_body :: step_body

datatype arg_type = ArgString | ArgNumber | ArgBoolean | ArgArray | ArgObject

record arg_spec =
  as_type :: arg_type
  as_required :: bool

record budget_spec =
  bs_tokens :: int
  bs_wall_clock :: "int option"

record workflow_definition =
  wd_name :: string
  wd_description :: string
  wd_args :: "(string \<times> arg_spec) list"
  wd_budget :: budget_spec
  wd_steps :: "wf_step list"

definition default_budget_spec :: budget_spec where
  "default_budget_spec = \<lparr>bs_tokens = 200000, bs_wall_clock = None\<rparr>"

section \<open>Patterns\<close>

definition alnum :: "char \<Rightarrow> bool" where
  "alnum c = (let n = code_point c in
     (48 \<le> n \<and> n \<le> (57::nat)) \<or> (65 \<le> n \<and> n \<le> 90) \<or> (97 \<le> n \<and> n \<le> 122))"

definition letter :: "char \<Rightarrow> bool" where
  "letter c = (let n = code_point c in (65 \<le> n \<and> n \<le> (90::nat)) \<or> (97 \<le> n \<and> n \<le> 122))"

definition ref_start :: "char \<Rightarrow> bool" where
  "ref_start c = (alnum c \<or> c = CHR ''_'')"

definition ref_char :: "char \<Rightarrow> bool" where
  "ref_char c = (ref_start c \<or> c = CHR ''.'' \<or> c = CHR ''-'')"

text \<open>\<open>$\<close> also matches before one final line feed.\<close>

definition before_final_newline :: "string \<Rightarrow> string" where
  "before_final_newline s = (if s \<noteq> [] \<and> last s = CHR 0x0A then butlast s else s)"

definition field_path_ok :: "string \<Rightarrow> bool" where
  "field_path_ok v =
     (let ok = (\<lambda>t. case t of [] \<Rightarrow> False | c # cs \<Rightarrow> ref_start c \<and> list_all ref_char cs);
          s = before_final_newline v in
      (take 5 s = ''args.'' \<and> ok (drop 5 s)) \<or> (take 6 s = ''steps.'' \<and> ok (drop 6 s)))"

definition step_id_ok :: "string \<Rightarrow> bool" where
  "step_id_ok v =
     (case before_final_newline v of
        [] \<Rightarrow> False
      | c # cs \<Rightarrow> letter c \<and> length cs \<le> 99 \<and> list_all (\<lambda>c. ref_start c \<or> c = CHR ''-'') cs)"

section \<open>Conditions\<close>

definition MAX_CONDITION_DEPTH :: nat where
  "MAX_CONDITION_DEPTH = 5"

primrec cond_depth :: "condition \<Rightarrow> nat" where
  "cond_depth (Condition p al an nt) =
     (if p \<noteq> None then 1
      else case map_option cond_depth nt of Some d \<Rightarrow> 1 + d
      | None \<Rightarrow> 1 + foldr max
          (case map_option (map cond_depth) al of Some ds \<Rightarrow> ds
           | None \<Rightarrow> (case map_option (map cond_depth) an of Some ds \<Rightarrow> ds | None \<Rightarrow> [])) 0)"

definition opt_list :: "'a list option \<Rightarrow> 'a list" where
  "opt_list x = (case x of None \<Rightarrow> [] | Some xs \<Rightarrow> xs)"

primrec iter_predicates :: "condition \<Rightarrow> condition_predicate list" where
  "iter_predicates (Condition p al an nt) =
     (case p of None \<Rightarrow> [] | Some q \<Rightarrow> [q])
     @ opt_list (map_option iter_predicates nt)
     @ concat (opt_list (map_option (map iter_predicates) al)
               @ opt_list (map_option (map iter_predicates) an))"

primrec condition_ok :: "condition \<Rightarrow> bool" where
  "condition_ok (Condition p al an nt) =
     (length (filter id [p \<noteq> None, al \<noteq> None, an \<noteq> None, nt \<noteq> None]) = 1
      \<and> (case p of None \<Rightarrow> True | Some q \<Rightarrow> field_path_ok (cp_field q))
      \<and> list_all id (opt_list (map_option (map condition_ok) al))
      \<and> list_all id (opt_list (map_option (map condition_ok) an))
      \<and> (case map_option condition_ok nt of None \<Rightarrow> True | Some b \<Rightarrow> b))"

section \<open>The checks of a definition\<close>

definition leaf_ok :: "leaf_ref \<Rightarrow> bool" where
  "leaf_ok f = (1 \<le> length (lf_name f) \<and> length (lf_name f) \<le> 200
     \<and> (case lf_rounds f of None \<Rightarrow> True | Some n \<Rightarrow> 1 \<le> n))"

fun body_ok :: "step_body \<Rightarrow> bool" where
  "body_ok (AgentStep f t r) = (leaf_ok f \<and> t \<noteq> [] \<and> (case r of None \<Rightarrow> True | Some n \<Rightarrow> 1 \<le> n \<and> n \<le> 5))"
| "body_ok (FanoutStep f i t c) = (leaf_ok f \<and> take 5 i = ''args.'' \<and> t \<noteq> [] \<and> 1 \<le> c)"
| "body_ok (GateStep r) = (r \<noteq> [])"
| "body_ok (WaitUntilStep d u) = ((d = None) \<noteq> (u = None) \<and> (case d of None \<Rightarrow> True | Some n \<Rightarrow> 1 \<le> n))"
| "body_ok (WaitSignalStep s) = (1 \<le> length s \<and> length s \<le> 100)"

definition step_ok :: "wf_step \<Rightarrow> bool" where
  "step_ok s = (step_id_ok (st_id s) \<and> body_ok (st_body s)
     \<and> (case st_when s of None \<Rightarrow> True
        | Some c \<Rightarrow> condition_ok c \<and> cond_depth c \<le> MAX_CONDITION_DEPTH))"

fun first_duplicate :: "string list \<Rightarrow> wf_step list \<Rightarrow> string option" where
  "first_duplicate seen [] = None"
| "first_duplicate seen (s # ss) =
     (if st_id s \<in> set seen then Some (st_id s) else first_duplicate (st_id s # seen) ss)"

definition parse_workflow_definition :: "workflow_definition \<Rightarrow> (workflow_error, workflow_definition) res" where
  "parse_workflow_definition d =
     (if \<not> (1 \<le> length (wd_name d) \<and> length (wd_name d) \<le> 200) then Inl (DefinitionError ''name'')
      else if \<not> (1 \<le> bs_tokens (wd_budget d)
          \<and> (case bs_wall_clock (wd_budget d) of None \<Rightarrow> True | Some n \<Rightarrow> 1 \<le> n))
      then Inl (DefinitionError ''default_budget'')
      else if wd_steps d = [] \<or> \<not> list_all step_ok (wd_steps d) then Inl (DefinitionError ''steps'')
      else case first_duplicate [] (wd_steps d) of
        Some i \<Rightarrow> Inl (DefinitionError (''duplicate step id '' @ repr_str i))
      | None \<Rightarrow> Inr d)"

section \<open>Argument schemas\<close>

definition ARG_TYPES :: "(string \<times> arg_type) list" where
  "ARG_TYPES = [(''string'', ArgString), (''number'', ArgNumber), (''boolean'', ArgBoolean),
     (''array'', ArgArray), (''object'', ArgObject)]"

fun schema_type :: "pyval \<Rightarrow> string option"
  and schema_types :: "pyval list \<Rightarrow> string option" where
  "schema_type (PStr s) = (let c = py_strip s in if c \<in> fst ` set ARG_TYPES then Some c else None)"
| "schema_type (PList vs) = schema_types vs"
| "schema_type _ = None"
| "schema_types [] = None"
| "schema_types (v # vs) = (case schema_type v of Some t \<Rightarrow> Some t | None \<Rightarrow> schema_types vs)"

definition arg_spec_from_json_schema :: "pyval \<Rightarrow> bool \<Rightarrow> pyval" where
  "arg_spec_from_json_schema schema required =
     (case schema of
        PStr s \<Rightarrow> (case schema_type schema of
            Some t \<Rightarrow> PDict [(''type'', PStr t), (''required'', PBool required)] | None \<Rightarrow> schema)
      | PDict d \<Rightarrow> (case schema_type (dget d ''type'') of
            None \<Rightarrow> schema
          | Some t \<Rightarrow> PDict ((''type'', PStr t)
              # (if required then [(''required'', PBool True)]
                 else if has_key d ''required'' then [(''required'', PBool (truthy (dget d ''required'')))]
                 else [])))
      | _ \<Rightarrow> schema)"

text \<open>The stripped names in \<open>required\<close>; iterating a number or None raises a TypeError.\<close>

definition required_names :: "pyval \<Rightarrow> (workflow_error, string list) res" where
  "required_names v =
     (let keep = List.map_filter (\<lambda>n. if py_strip n = [] then None else Some (py_strip n)) in
      case v of
        PList vs \<Rightarrow> Inr (keep (List.map_filter (\<lambda>v. case v of PStr s \<Rightarrow> Some s | _ \<Rightarrow> None) vs))
      | PStr s \<Rightarrow> Inr (keep (map (\<lambda>c. [c]) s))
      | PDict d \<Rightarrow> Inr (keep (map fst d))
      | _ \<Rightarrow> Inl (PyError ''TypeError''))"

definition normalize_args_schema :: "pyval \<Rightarrow> (workflow_error, pyval) res" where
  "normalize_args_schema schema =
     (case schema of
        PNone \<Rightarrow> Inr (PDict [])
      | PDict d \<Rightarrow>
          (case (schema_type (dget d ''type''), dget d ''properties'') of
             (Some t, PDict properties) \<Rightarrow>
               if t = ''object''
               then bind_res (required_names (if has_key d ''required'' then dget d ''required'' else PList []))
                 (\<lambda>required. Inr (PDict (map (\<lambda>(k, v). (k, arg_spec_from_json_schema v (k \<in> set required))) properties)))
               else Inr (PDict (map (\<lambda>(k, v). (k, arg_spec_from_json_schema v False)) d))
           | _ \<Rightarrow> Inr (PDict (map (\<lambda>(k, v). (k, arg_spec_from_json_schema v False)) d)))
      | _ \<Rightarrow> Inr schema)"

section \<open>The definition hash\<close>

text \<open>
  \<open>sha256(json).hexdigest()\<close> and the canonical dict of a definition (pydantic's \<open>model_dump\<close>)
  are arguments.
\<close>

definition compute_definition_hash :: "(string \<Rightarrow> string) \<Rightarrow> pyval \<Rightarrow> string" where
  "compute_definition_hash sha256 payload = sha256 (canonical_json payload)"

section \<open>Facts\<close>

lemma first_duplicate_None:
  "first_duplicate seen ss = None \<longleftrightarrow> distinct (map st_id ss) \<and> set seen \<inter> st_id ` set ss = {}"
  by (induction ss arbitrary: seen) auto

lemma parsed_steps:
  "parse_workflow_definition d = Inr d' \<Longrightarrow>
     d' = d \<and> distinct (map st_id (wd_steps d)) \<and> (\<forall>s \<in> set (wd_steps d). step_ok s)"
  by (auto simp: parse_workflow_definition_def first_duplicate_None list_all_iff
      split: if_splits option.splits)

end
