(* ===== verification/Workflow_Compile.thy ===== *)
theory Workflow_Compile
  imports Workflow_Def
begin

text \<open>
  The structural compiler, \<open>backend/app/runtime/workflow_compiler.py\<close>, with the template
  scanner it shares with the engine, and the admission checks of a run,
  \<open>backend/app/runtime/workflow_admission.py\<close>.
\<close>

section \<open>Templates\<close>

text \<open>
  The pattern \<open>\{\{\s*([A-Za-z0-9_][A-Za-z0-9_.\-]*)\s*\}\}\<close> at the start of a text: the
  reference and the rest. No part of the pattern can give characters back to another, so
  matching is greedy and deterministic.
\<close>

definition match_ref :: "string \<Rightarrow> (string \<times> string) option" where
  "match_ref s =
     (if take 2 s \<noteq> ''{{'' then None
      else let t = dropWhile py_space (drop 2 s);
               r = takeWhile ref_char t;
               u = dropWhile py_space (dropWhile ref_char t) in
        if r \<noteq> [] \<and> ref_start (hd r) \<and> take 2 u = ''}}'' then Some (r, drop 2 u) else None)"

lemma match_ref_shorter: "match_ref s = Some (r, rest) \<Longrightarrow> length rest < length s"
proof -
  assume m: "match_ref s = Some (r, rest)"
  let ?t = "dropWhile py_space (drop 2 s)"
  let ?u = "dropWhile py_space (dropWhile ref_char ?t)"
  from m have rest: "rest = drop 2 ?u" and two: "take 2 s = ''{{''"
    by (auto simp: match_ref_def Let_def split: if_splits)
  have "length ?u \<le> length (drop 2 s)"
    using length_dropWhile_le [of py_space "dropWhile ref_char ?t"] length_dropWhile_le [of ref_char ?t]
      length_dropWhile_le [of py_space "drop 2 s"] by linarith
  moreover have "2 \<le> length s" using arg_cong [OF two, of length] by simp
  ultimately show ?thesis unfolding rest by simp
qed

datatype template_part = Literal char | Reference (ref_name: string) (ref_text: string)

function template_parts :: "string \<Rightarrow> template_part list" where
  "template_parts s =
     (case s of
        [] \<Rightarrow> []
      | c # cs \<Rightarrow>
          (case match_ref s of
             Some (r, rest) \<Rightarrow> Reference r (take (length s - length rest) s) # template_parts rest
           | None \<Rightarrow> Literal c # template_parts cs))"
  by pat_completeness auto
termination
  by (relation "measure length") (auto dest: match_ref_shorter)

declare template_parts.simps [simp del]

text \<open>\<open>_TEMPLATE_REF_RE.findall(text)\<close>.\<close>

definition template_refs :: "string \<Rightarrow> string list" where
  "template_refs s = List.map_filter
     (\<lambda>p. case p of Reference r t \<Rightarrow> Some r | Literal c \<Rightarrow> None) (template_parts s)"

fun part_text :: "template_part \<Rightarrow> string" where
  "part_text (Literal c) = [c]"
| "part_text (Reference r t) = t"

section \<open>Compiling\<close>

record compiled_workflow =
  cw_definition :: workflow_definition
  cw_hash :: string
  cw_leaves :: "string list"

definition check_reference :: "string \<Rightarrow> string list \<Rightarrow> string list \<Rightarrow> bool \<Rightarrow> string \<Rightarrow> (workflow_error, unit) res" where
  "check_reference ref args_keys prior_steps allow_item place =
     (let parts = py_split_on (CHR ''.'') ref; root = hd parts in
      if root = ''args'' then
        require (2 \<le> length parts \<and> parts ! 1 \<in> set args_keys)
          (CompileError (place @ '': unknown args reference '' @ repr_str ref))
      else if root = ''steps'' then
        require (2 \<le> length parts \<and> parts ! 1 \<in> set prior_steps)
          (CompileError (place @ '': reference '' @ repr_str ref
             @ '' must point at a PRIOR step (forward/unknown refs forbidden)''))
      else require (root = ''item'' \<and> allow_item)
          (CompileError (place @ '': unsupported reference root '' @ repr_str ref)))"

fun effects_text :: "effects_level \<Rightarrow> string" where
  "effects_text ReadOnly = ''read_only''"
| "effects_text WorkspaceWrite = ''workspace_write''"
| "effects_text External = ''external''"
| "effects_text Irreversible = ''irreversible''"

record compile_state =
  cs_prior :: "string list"
  cs_gate :: bool
  cs_leaves :: "string list"

definition step_retry :: "wf_step \<Rightarrow> int option" where
  "step_retry s = (case st_body s of AgentStep f t r \<Rightarrow> r | _ \<Rightarrow> None)"

definition compile_refs :: "string list \<Rightarrow> string list \<Rightarrow> wf_step \<Rightarrow> (workflow_error, unit) res" where
  "compile_refs args_keys prior s =
     (let place = ''step '' @ repr_str (st_id s);
          check = (\<lambda>item ref. check_reference ref args_keys prior item place) in
      bind_res (case st_when s of None \<Rightarrow> Inr ()
                | Some c \<Rightarrow> each_res (\<lambda>p. check False (cp_field p)) (iter_predicates c)) (\<lambda>_.
      case st_body s of
        AgentStep f t r \<Rightarrow> each_res (check False) (template_refs t)
      | FanoutStep f i t n \<Rightarrow> bind_res (check False i) (\<lambda>_. each_res (check True) (template_refs t))
      | _ \<Rightarrow> Inr ()))"

definition step_leaves :: "wf_step \<Rightarrow> string list" where
  "step_leaves s = (case st_body s of AgentStep f t r \<Rightarrow> [lf_name f] | FanoutStep f i t n \<Rightarrow> [lf_name f] | _ \<Rightarrow> [])"

definition needs_gate :: "wf_step \<Rightarrow> bool" where
  "needs_gate s = (st_effects s \<in> {External, Irreversible})"

definition is_gate :: "wf_step \<Rightarrow> bool" where
  "is_gate s = (case st_body s of GateStep r \<Rightarrow> True | _ \<Rightarrow> False)"

definition compile_step :: "string list \<Rightarrow> compile_state \<Rightarrow> wf_step \<Rightarrow> (workflow_error, compile_state) res" where
  "compile_step args_keys st s =
     (let place = ''step '' @ repr_str (st_id s) in
      bind_res (compile_refs args_keys (cs_prior st) s) (\<lambda>_.
      bind_res (require (\<not> (needs_gate s \<and> \<not> cs_gate st)) (CompileError (place @ '': effects=''
          @ repr_str (effects_text (st_effects s)) @ '' requires a preceding gate_step''))) (\<lambda>_.
      bind_res (require (\<not> (step_retry s \<noteq> None \<and> needs_gate s)) (CompileError (place
          @ '': retry is reversible-only; effects='' @ repr_str (effects_text (st_effects s)) @ '' cannot retry''))) (\<lambda>_.
      Inr \<lparr>cs_prior = st_id s # cs_prior st, cs_gate = (cs_gate st \<or> is_gate s),
           cs_leaves = cs_leaves st @ step_leaves s\<rparr>))))"

definition compile_workflow ::
  "(string \<Rightarrow> string) \<Rightarrow> (workflow_definition \<Rightarrow> pyval) \<Rightarrow> workflow_definition \<Rightarrow> string list option \<Rightarrow>
   (workflow_error, compiled_workflow) res" where
  "compile_workflow sha256 canonical_dict data known_leaves =
     bind_res (case parse_workflow_definition data of
         Inl (DefinitionError m) \<Rightarrow> Inl (CompileError m) | r \<Rightarrow> r) (\<lambda>d.
     bind_res (fold_res (compile_step (map fst (wd_args d))) \<lparr>cs_prior = [], cs_gate = False, cs_leaves = []\<rparr> (wd_steps d)) (\<lambda>st.
     bind_res (require (case known_leaves of None \<Rightarrow> True | Some known \<Rightarrow> set (cs_leaves st) \<subseteq> set known)
         (CompileError ''unknown leaves (not in catalog)'')) (\<lambda>_.
     Inr \<lparr>cw_definition = d, cw_hash = compute_definition_hash sha256 (canonical_dict d),
          cw_leaves = cs_leaves st\<rparr>)))"

section \<open>What a compiled workflow guarantees\<close>

text \<open>The parts of a template spell the text again.\<close>

lemma match_ref_splits:
  assumes "match_ref s = Some (r, rest)"
  shows "take (length s - length rest) s @ rest = s"
proof -
  let ?t = "dropWhile py_space (drop 2 s)"
  let ?u = "dropWhile py_space (dropWhile ref_char ?t)"
  from assms have rest: "rest = drop 2 ?u"
    by (auto simp: match_ref_def Let_def split: if_splits)
  have "suffix rest s"
    unfolding rest
    by (meson suffix_drop suffix_dropWhile suffix_order.trans)
  then obtain us where "s = us @ rest" by (rule suffixE)
  then show ?thesis by simp
qed

text \<open>
  Scanning a template loses nothing: the literal characters and the matched
  placeholders, in order, spell the text, whatever it contains.
\<close>

theorem template_parts_spell_the_text:
  "concat (map part_text (template_parts s)) = s"
proof (induction s rule: template_parts.induct)
  case (1 s)
  show ?case
  proof (cases s)
    case Nil
    then show ?thesis by (simp add: template_parts.simps)
  next
    case (Cons c cs)
    show ?thesis
    proof (cases "match_ref s")
      case None
      then show ?thesis using 1(1) [OF Cons None] Cons by (subst template_parts.simps) simp
    next
      case (Some m)
      obtain r rest where m: "m = (r, rest)" by force
      then show ?thesis
        using 1(2) [OF Cons Some m [symmetric]] Cons Some m match_ref_splits [of s r rest]
        by (subst template_parts.simps) simp
    qed
  qed
qed

text \<open>References of a step, with the roots the check allows.\<close>

definition step_references :: "wf_step \<Rightarrow> string list" where
  "step_references s =
     (case st_when s of None \<Rightarrow> [] | Some c \<Rightarrow> map cp_field (iter_predicates c))
     @ (case st_body s of AgentStep f t r \<Rightarrow> template_refs t
        | FanoutStep f i t n \<Rightarrow> i # template_refs t | _ \<Rightarrow> [])"

definition ref_bound :: "string list \<Rightarrow> string list \<Rightarrow> bool \<Rightarrow> string \<Rightarrow> bool" where
  "ref_bound args_keys prior item ref =
     (let parts = py_split_on (CHR ''.'') ref in
      (\<exists>k more. parts = ''args'' # k # more \<and> k \<in> set args_keys)
      \<or> (\<exists>i more. parts = ''steps'' # i # more \<and> i \<in> set prior)
      \<or> (item \<and> hd parts = ''item''))"

lemma check_reference_bound:
  "check_reference ref args_keys prior item place = Inr u \<longleftrightarrow> ref_bound args_keys prior item ref"
proof -
  obtain root more where parts: "py_split_on (CHR ''.'') ref = root # more"
    using py_split_on_ne by (metis neq_Nil_conv)
  show ?thesis
    unfolding check_reference_def ref_bound_def Let_def parts
    by (cases more) auto
qed

lemma compile_refs_bound:
  "compile_refs args_keys prior s = Inr u \<Longrightarrow>
     \<forall>ref \<in> set (step_references s). ref_bound args_keys prior
        (case st_body s of FanoutStep f i t n \<Rightarrow> True | _ \<Rightarrow> False) ref"
  unfolding compile_refs_def Let_def step_references_def
  by (auto simp: each_res_Inr check_reference_bound ref_bound_def Let_def
      split: option.splits step_body.splits)

lemma compile_steps_prior:
  "fold_res (compile_step keys) st ss = Inr st' \<Longrightarrow>
     cs_prior st' = rev (map st_id ss) @ cs_prior st
     \<and> (cs_gate st' \<longleftrightarrow> cs_gate st \<or> (\<exists>s \<in> set ss. is_gate s))"
proof (induction ss arbitrary: st)
  case (Cons s ss)
  then obtain m where m: "compile_step keys st s = Inr m" "fold_res (compile_step keys) m ss = Inr st'" by auto
  from m(1) have "cs_prior m = st_id s # cs_prior st" "cs_gate m \<longleftrightarrow> cs_gate st \<or> is_gate s"
    by (auto simp: compile_step_def Let_def)
  with Cons.IH [OF m(2)] show ?case by auto
qed simp

lemma compile_workflow_Inr:
  "compile_workflow sha cd d known = Inr c \<Longrightarrow>
     parse_workflow_definition d = Inr d \<and> cw_definition c = d
     \<and> cw_hash c = compute_definition_hash sha (cd d)
     \<and> (\<exists>st. fold_res (compile_step (map fst (wd_args d))) \<lparr>cs_prior = [], cs_gate = False, cs_leaves = []\<rparr> (wd_steps d) = Inr st
          \<and> cw_leaves c = cs_leaves st \<and> (case known of None \<Rightarrow> True | Some k \<Rightarrow> set (cs_leaves st) \<subseteq> set k))"
  unfolding compile_workflow_def
  by (auto dest!: parsed_steps split: sum.splits workflow_error.splits option.splits)
     (auto dest: parsed_steps)

text \<open>Every step of a compiled workflow passed its own check in the state its prefix left.\<close>

lemma compiled_step:
  assumes "compile_workflow sha cd d known = Inr c" and "wd_steps d = xs @ s # ys"
  shows "\<exists>st st'. compile_step (map fst (wd_args d)) st s = Inr st'
     \<and> set (cs_prior st) = st_id ` set xs \<and> (cs_gate st \<longleftrightarrow> (\<exists>g \<in> set xs. is_gate g))"
proof -
  let ?init = "\<lparr>cs_prior = [], cs_gate = False, cs_leaves = []\<rparr>"
  let ?step = "compile_step (map fst (wd_args d))"
  from compile_workflow_Inr [OF assms(1)] assms(2) obtain st where
    "fold_res ?step ?init (xs @ s # ys) = Inr st" by auto
  then obtain m m' where m: "fold_res ?step ?init xs = Inr m" "?step m s = Inr m'"
    by (auto simp: fold_res_append)
  with compile_steps_prior [OF m(1)] show ?thesis by auto
qed

text \<open>
  Claim C13. In a compiled workflow every reference of a step, in its condition, its task or
  its item source, names a declared argument or a step that stands before it, or is the item
  of a fan-out; a step with external or irreversible effects has a gate step before it and no
  retry; and step ids are distinct.
\<close>

theorem compiled_steps_are_bound:
  assumes "compile_workflow sha cd d known = Inr c" and "wd_steps (cw_definition c) = xs @ s # ys"
  shows "(\<forall>ref \<in> set (step_references s). ref_bound (map fst (wd_args d)) (map st_id xs)
            (case st_body s of FanoutStep f i t n \<Rightarrow> True | _ \<Rightarrow> False) ref)
    \<and> (needs_gate s \<longrightarrow> (\<exists>g \<in> set xs. is_gate g) \<and> step_retry s = None)
    \<and> distinct (map st_id (xs @ s # ys))"
proof -
  from compile_workflow_Inr [OF assms(1)] assms(2) have d: "wd_steps d = xs @ s # ys"
    and p: "parse_workflow_definition d = Inr d" by auto
  from compiled_step [OF assms(1) d] obtain st st' where
    st: "compile_step (map fst (wd_args d)) st s = Inr st'" "set (cs_prior st) = st_id ` set xs"
      "cs_gate st \<longleftrightarrow> (\<exists>g \<in> set xs. is_gate g)" by blast
  from st(1) have refs: "compile_refs (map fst (wd_args d)) (cs_prior st) s = Inr ()"
    and gate: "needs_gate s \<Longrightarrow> cs_gate st" "needs_gate s \<Longrightarrow> step_retry s = None"
    by (auto simp: compile_step_def Let_def)
  have "ref_bound k p i r \<longleftrightarrow> ref_bound k q i r" if "set p = set q" for k p q i r
    using that by (simp add: ref_bound_def)
  then have "ref_bound (map fst (wd_args d)) (cs_prior st) i r \<longleftrightarrow> ref_bound (map fst (wd_args d)) (map st_id xs) i r" for i r
    using st(2) by simp
  with compile_refs_bound [OF refs] gate st(3) parsed_steps [OF p] d show ?thesis by simp
qed

text \<open>The minimal example of the source, and a gated variant of it.\<close>

definition example_leaf :: leaf_ref where
  "example_leaf = \<lparr>lf_name = ''worker'', lf_type = Worker, lf_rounds = None\<rparr>"

definition leaf_step :: "string \<Rightarrow> string \<Rightarrow> effects_level \<Rightarrow> wf_step" where
  "leaf_step i t e = \<lparr>st_id = i, st_when = None, st_effects = e, st_body = AgentStep example_leaf t None\<rparr>"

definition gate_step :: "string \<Rightarrow> condition option \<Rightarrow> wf_step" where
  "gate_step i c = \<lparr>st_id = i, st_when = c, st_effects = ReadOnly, st_body = GateStep ''approve''\<rparr>"

definition example_definition :: "wf_step list \<Rightarrow> workflow_definition" where
  "example_definition steps = \<lparr>wd_name = ''compute-and-verify'', wd_description = [],
     wd_args = [(''a'', \<lparr>as_type = ArgNumber, as_required = True\<rparr>), (''b'', \<lparr>as_type = ArgNumber, as_required = True\<rparr>)],
     wd_budget = default_budget_spec, wd_steps = steps\<rparr>"

definition compute_steps :: "wf_step list" where
  "compute_steps = [leaf_step ''compute'' ''Compute {{args.a}} + {{ args.b }}.'' ReadOnly,
     gate_step ''ok'' None, leaf_step ''publish'' ''Publish {{steps.compute.output}}'' External]"

definition no_dump :: "workflow_definition \<Rightarrow> pyval" where
  "no_dump d = PDict []"

definition example_compiled :: compiled_workflow where
  "example_compiled = (case compile_workflow id no_dump (example_definition compute_steps) None of
     Inr c \<Rightarrow> c | Inl e \<Rightarrow> \<lparr>cw_definition = example_definition [], cw_hash = [], cw_leaves = []\<rparr>)"

lemma example_compiles:
  "compile_workflow id no_dump (example_definition compute_steps) None = Inr example_compiled"
proof -
  have "(case compile_workflow id no_dump (example_definition compute_steps) None of Inr c \<Rightarrow> True | Inl e \<Rightarrow> False)"
    by code_simp
  then show ?thesis by (auto simp: example_compiled_def split: sum.splits)
qed

theorem compiled_steps_are_bound_witness:
  "\<exists>g \<in> set (take 2 compute_steps). is_gate g"
proof -
  have "wd_steps (cw_definition example_compiled) = take 2 compute_steps @ compute_steps ! 2 # []"
    using compile_workflow_Inr [OF example_compiles] by (simp add: example_definition_def compute_steps_def)
  from compiled_steps_are_bound [OF example_compiles this] show ?thesis
    by (simp add: compute_steps_def leaf_step_def needs_gate_def)
qed

end
