(* ===== verification/Workflow_Admission.thy ===== *)
theory Workflow_Admission
  imports Workflow_Compile
begin

text \<open>
  Admission of a run, \<open>backend/app/runtime/workflow_admission.py\<close>: the arguments against their
  schema, the token budget, the fan-out widths, the planned leaf calls and the waits. The
  settings are a record; \<open>datetime.fromisoformat\<close> (a naive time is taken as UTC) is an argument
  that gives microseconds, and so is the clock.
\<close>

section \<open>Arguments\<close>

fun arg_type_check :: "arg_type \<Rightarrow> pyval \<Rightarrow> bool" where
  "arg_type_check ArgString v = is_str v"
| "arg_type_check ArgNumber v = (case v of PInt i \<Rightarrow> True | PFloat f \<Rightarrow> True | _ \<Rightarrow> False)"
| "arg_type_check ArgBoolean v = (case v of PBool b \<Rightarrow> True | _ \<Rightarrow> False)"
| "arg_type_check ArgArray v = (as_list v \<noteq> None)"
| "arg_type_check ArgObject v = (as_dict v \<noteq> None)"

fun arg_type_text :: "arg_type \<Rightarrow> string" where
  "arg_type_text ArgString = ''string''"
| "arg_type_text ArgNumber = ''number''"
| "arg_type_text ArgBoolean = ''boolean''"
| "arg_type_text ArgArray = ''array''"
| "arg_type_text ArgObject = ''object''"

fun type_name :: "pyval \<Rightarrow> string" where
  "type_name PNone = ''NoneType''"
| "type_name (PBool b) = ''bool''"
| "type_name (PInt i) = ''int''"
| "type_name (PFloat f) = ''float''"
| "type_name (PStr s) = ''str''"
| "type_name (PList vs) = ''list''"
| "type_name (PDict d) = ''dict''"

definition normalize_arg_value :: "arg_spec \<Rightarrow> pyval \<Rightarrow> pyval" where
  "normalize_arg_value spec v =
     (case (as_type spec, v) of
        (ArgArray, PDict [(k, PList vs)]) \<Rightarrow> if k = ''item'' then PList vs else v
      | _ \<Rightarrow> v)"

definition normalize_workflow_args ::
  "compiled_workflow \<Rightarrow> (string \<times> pyval) list \<Rightarrow> (string \<times> pyval) list" where
  "normalize_workflow_args c args =
     foldl (\<lambda>acc (k, spec). if has_key acc k then AList.update k (normalize_arg_value spec (dget acc k)) acc else acc)
       args (wd_args (cw_definition c))"

definition validate_arg :: "(string \<times> pyval) list \<Rightarrow> string \<times> arg_spec \<Rightarrow> (workflow_error, unit) res" where
  "validate_arg args = (\<lambda>(k, spec).
     if \<not> has_key args k
     then require (\<not> as_required spec) (AdmissionError (''args: missing required argument '' @ repr_str k))
     else require (arg_type_check (as_type spec) (dget args k))
       (AdmissionError (''args: argument '' @ repr_str k @ '' must be of type '' @ arg_type_text (as_type spec)
          @ '', got '' @ type_name (dget args k))))"

definition validate_args :: "compiled_workflow \<Rightarrow> (string \<times> pyval) list \<Rightarrow> (workflow_error, unit) res" where
  "validate_args c args =
     bind_res (each_res (validate_arg args) (wd_args (cw_definition c))) (\<lambda>_.
     let unknown = filter (\<lambda>k. k \<notin> fst ` set (wd_args (cw_definition c))) (map fst args) in
     require (unknown = []) (AdmissionError (''args: unknown arguments ''
       @ py_repr (PList (map PStr (sort (py_unique unknown)))))))"

section \<open>References and waits\<close>

fun walk_dict :: "pyval \<Rightarrow> string list \<Rightarrow> pyval option" where
  "walk_dict v [] = Some v"
| "walk_dict v (p # ps) =
     (case v of PDict d \<Rightarrow> if has_key d p then walk_dict (dget d p) ps else None | _ \<Rightarrow> None)"

definition resolve_args_path :: "string \<Rightarrow> (string \<times> pyval) list \<Rightarrow> (workflow_error, pyval) res" where
  "resolve_args_path path args =
     (case walk_dict (PDict args) (tl (py_split_on (CHR ''.'') path)) of
        Some v \<Rightarrow> Inr v
      | None \<Rightarrow> Inl (AdmissionError (''args reference '' @ repr_str path @ '' cannot be resolved from provided args'')))"

text \<open>\<open>int((parsed - current).total_seconds())\<close>: a double, truncated.\<close>

definition whole_seconds :: "int \<Rightarrow> int" where
  "whole_seconds us = (if us \<le> 0 then 0 else \<lfloor>nearest_double (rat_of_int us / 1000000)\<rfloor>)"

definition estimate_wait_seconds ::
  "(string \<Rightarrow> int option) \<Rightarrow> int \<Rightarrow> (string \<times> pyval) list \<Rightarrow> int option \<Rightarrow> string option \<Rightarrow> (workflow_error, int) res" where
  "estimate_wait_seconds fromiso now args delay until =
     (case delay of Some d \<Rightarrow> Inr d
      | None \<Rightarrow>
        let target = (case until of None \<Rightarrow> [] | Some u \<Rightarrow> u) in
        bind_res (if take 5 target = ''args.'' then bind_res (resolve_args_path target args) (\<lambda>v. Inr (py_str v))
                  else Inr target) (\<lambda>t.
        case fromiso t of
          None \<Rightarrow> Inl (AdmissionError (''wait_until: invalid timestamp '' @ repr_str t))
        | Some stamp \<Rightarrow> Inr (whole_seconds (stamp - now))))"

section \<open>Admission\<close>

record admission_limits =
  max_run_budget_tokens :: int
  max_fanout_items :: int
  max_concurrency :: int
  max_leaf_calls :: int
  max_wall_clock_seconds :: int

record admission_result =
  planned_leaf_calls :: int
  budget_tokens :: int

definition limit_text :: "int \<Rightarrow> string \<Rightarrow> int \<Rightarrow> string" where
  "limit_text n what limit = str_of_int n @ what @ str_of_int limit"

definition admit_step ::
  "(string \<Rightarrow> int option) \<Rightarrow> int \<Rightarrow> admission_limits \<Rightarrow> (string \<times> pyval) list \<Rightarrow> int \<times> int \<Rightarrow> wf_step \<Rightarrow>
   (workflow_error, int \<times> int) res" where
  "admit_step fromiso now limits args = (\<lambda>(leaves, wait) s.
     case st_body s of
       AgentStep f t r \<Rightarrow> Inr (leaves + 1, wait)
     | FanoutStep f i t n \<Rightarrow>
         bind_res (resolve_args_path i args) (\<lambda>v.
         case v of
           PList items \<Rightarrow>
             bind_res (require (int (length items) \<le> max_fanout_items limits) (AdmissionError (''fanout: ''
                 @ limit_text (int (length items)) '' items exceeds limit '' (max_fanout_items limits)
                 @ '' (step '' @ repr_str (st_id s) @ '')''))) (\<lambda>_.
             bind_res (require (n \<le> max_concurrency limits) (AdmissionError (''concurrency: ''
                 @ limit_text n '' exceeds limit '' (max_concurrency limits)
                 @ '' (step '' @ repr_str (st_id s) @ '')''))) (\<lambda>_.
             Inr (leaves + int (length items), wait)))
         | _ \<Rightarrow> Inl (AdmissionError (''args: fanout items reference '' @ repr_str i @ '' must resolve to an array'')))
     | WaitUntilStep d u \<Rightarrow> bind_res (estimate_wait_seconds fromiso now args d u) (\<lambda>w. Inr (leaves, wait + w))
     | _ \<Rightarrow> Inr (leaves, wait))"

definition admit_workflow ::
  "(string \<Rightarrow> int option) \<Rightarrow> int \<Rightarrow> compiled_workflow \<Rightarrow> (string \<times> pyval) list \<Rightarrow> admission_limits \<Rightarrow>
   string list option \<Rightarrow> (workflow_error, admission_result) res" where
  "admit_workflow fromiso now c raw_args limits allowed_leaves =
     (let args = normalize_workflow_args c raw_args;
          spec = wd_budget (cw_definition c); budget = bs_tokens spec in
      bind_res (validate_args c args) (\<lambda>_.
      bind_res (require (budget \<le> max_run_budget_tokens limits) (AdmissionError (''budget: requested ''
          @ limit_text budget '' tokens exceeds limit '' (max_run_budget_tokens limits)))) (\<lambda>_.
      bind_res (require (case allowed_leaves of None \<Rightarrow> True | Some a \<Rightarrow> set (cw_leaves c) \<subseteq> set a)
          (AdmissionError ''leaf: unauthorized leaf capabilities'')) (\<lambda>_.
      bind_res (fold_res (admit_step fromiso now limits args) (0, 0) (wd_steps (cw_definition c))) (\<lambda>(leaves, wait).
      bind_res (require (leaves \<le> max_leaf_calls limits) (AdmissionError (''leaf: planned ''
          @ limit_text leaves '' leaf calls exceed limit '' (max_leaf_calls limits)))) (\<lambda>_.
      bind_res (require (case bs_wall_clock spec of None \<Rightarrow> True | Some w \<Rightarrow> w \<le> max_wall_clock_seconds limits)
          (AdmissionError ''wall clock: budget exceeds limit'')) (\<lambda>_.
      bind_res (require (wait \<le> max_wall_clock_seconds limits) (AdmissionError (''wall clock: total wait ''
          @ limit_text wait ''s exceeds limit '' (max_wall_clock_seconds limits) @ ''s''))) (\<lambda>_.
      Inr \<lparr>planned_leaf_calls = leaves, budget_tokens = budget\<rparr>))))))))"

section \<open>What admission promises\<close>

definition fanout_width :: "(string \<times> pyval) list \<Rightarrow> wf_step \<Rightarrow> int" where
  "fanout_width args s =
     (case st_body s of
        AgentStep f t r \<Rightarrow> 1
      | FanoutStep f i t n \<Rightarrow> (case resolve_args_path i args of Inr (PList vs) \<Rightarrow> int (length vs) | _ \<Rightarrow> 0)
      | _ \<Rightarrow> 0)"

definition step_within :: "admission_limits \<Rightarrow> (string \<times> pyval) list \<Rightarrow> wf_step \<Rightarrow> bool" where
  "step_within limits args s =
     (case st_body s of
        FanoutStep f i t n \<Rightarrow> n \<le> max_concurrency limits
          \<and> (\<exists>vs. resolve_args_path i args = Inr (PList vs) \<and> int (length vs) \<le> max_fanout_items limits)
      | _ \<Rightarrow> True)"

lemma admit_step_Inr:
  assumes "admit_step fromiso now limits args (l, w) s = Inr (l', w')"
  shows "l' = l + fanout_width args s \<and> step_within limits args s"
proof (cases "st_body s")
  case (FanoutStep f i t n)
  with assms obtain v where v: "resolve_args_path i args = Inr v" by (auto simp: admit_step_def)
  with assms FanoutStep show ?thesis
    by (cases v) (auto simp: admit_step_def fanout_width_def step_within_def)
qed (use assms in \<open>auto simp: admit_step_def fanout_width_def step_within_def\<close>)

lemma admit_steps_Inr:
  "fold_res (admit_step fromiso now limits args) (l, w) ss = Inr (l', w') \<Longrightarrow>
     l' = l + sum_list (map (fanout_width args) ss) \<and> (\<forall>s \<in> set ss. step_within limits args s)"
proof (induction ss arbitrary: l w)
  case (Cons s ss)
  then obtain l1 w1 where "admit_step fromiso now limits args (l, w) s = Inr (l1, w1)"
    and "fold_res (admit_step fromiso now limits args) (l1, w1) ss = Inr (l', w')" by auto
  with Cons.IH admit_step_Inr show ?case by fastforce
qed simp

text \<open>
  An admitted run stays inside every limit: its token budget, the width and the
  concurrency of each fan-out, and the planned leaf calls, which are one per agent step and
  one per fan-out item of the provided arguments; every required argument is there, every
  argument has its declared type, and no other argument was passed.
\<close>

theorem admission_stays_inside_the_limits:
  assumes "admit_workflow fromiso now c raw limits allowed = Inr r"
  shows "let args = normalize_workflow_args c raw; steps = wd_steps (cw_definition c) in
     budget_tokens r \<le> max_run_budget_tokens limits
     \<and> planned_leaf_calls r = sum_list (map (fanout_width args) steps)
     \<and> planned_leaf_calls r \<le> max_leaf_calls limits
     \<and> (\<forall>s \<in> set steps. step_within limits args s)
     \<and> (\<forall>(k, spec) \<in> set (wd_args (cw_definition c)).
          if has_key args k then arg_type_check (as_type spec) (dget args k) else \<not> as_required spec)
     \<and> fst ` set args \<subseteq> fst ` set (wd_args (cw_definition c))"
proof -
  let ?args = "normalize_workflow_args c raw"
  let ?steps = "wd_steps (cw_definition c)"
  from assms obtain l w where val: "validate_args c ?args = Inr ()"
    and steps: "fold_res (admit_step fromiso now limits ?args) (0, 0) ?steps = Inr (l, w)"
    and bud: "bs_tokens (wd_budget (cw_definition c)) \<le> max_run_budget_tokens limits"
    and lim: "l \<le> max_leaf_calls limits"
    and r: "r = \<lparr>planned_leaf_calls = l, budget_tokens = bs_tokens (wd_budget (cw_definition c))\<rparr>"
    unfolding admit_workflow_def Let_def by auto
  from val have args: "\<forall>kv \<in> set (wd_args (cw_definition c)). validate_arg ?args kv = Inr ()"
    and known: "filter (\<lambda>k. k \<notin> fst ` set (wd_args (cw_definition c))) (map fst ?args) = []"
    by (auto simp: validate_args_def each_res_Inr Let_def split: if_splits)
  have "if has_key ?args k then arg_type_check (as_type spec) (dget ?args k) else \<not> as_required spec"
    if "(k, spec) \<in> set (wd_args (cw_definition c))" for k spec
    using args that by (fastforce simp: validate_arg_def split: if_splits)
  with admit_steps_Inr [OF steps] bud lim r known show ?thesis
    by (auto simp: Let_def filter_empty_conv)
qed

definition example_limits :: admission_limits where
  "example_limits = \<lparr>max_run_budget_tokens = 1000000, max_fanout_items = 10, max_concurrency = 4,
     max_leaf_calls = 20, max_wall_clock_seconds = 3600\<rparr>"

theorem admission_stays_inside_the_limits_witness:
  "\<exists>r. admit_workflow (\<lambda>_. None) 0 example_compiled [(''a'', PInt 1), (''b'', PFloat ''2.5'')] example_limits None = Inr r
     \<and> planned_leaf_calls r \<le> 20"
proof -
  have "admit_workflow (\<lambda>_. None) 0 example_compiled [(''a'', PInt 1), (''b'', PFloat ''2.5'')] example_limits None
      = Inr \<lparr>planned_leaf_calls = 2, budget_tokens = 200000\<rparr>" by code_simp
  from admission_stays_inside_the_limits [OF this] this show ?thesis by (auto simp: Let_def example_limits_def)
qed

end
