(* ===== verification/Workflow_Engine.thy ===== *)
theory Workflow_Engine
  imports Workflow_Admission
begin

text \<open>
  The workflow interpreter, \<open>backend/app/runtime/workflow_engine.py\<close>: the journal, reference
  and template resolution, conditions, and \<open>execute_workflow\<close> with all five kinds of step. The
  injected seams (leaf executor, quota, gate decider, wait scheduler, signal registrar, kill
  check, clock) are fields of an environment and act on a state of their own; the calls of
  the leaf executor are logged. A fan-out runs its leaves in item order, the schedule in
  which every await completes at once. The run id and the tenant are constant and left out.
\<close>

section \<open>Requests, outcomes and records\<close>

record leaf_request =
  lq_step :: string
  lq_leaf :: leaf_ref
  lq_task :: string
  lq_id :: "string option"

record leaf_outcome =
  lo_ok :: bool
  lo_output :: pyval
  lo_ref :: "string option"
  lo_error :: "string option"
  lo_tokens :: int

record leaf_record =
  lr_status :: string
  lr_input :: "string option"
  lr_def :: "string option"
  lr_output :: pyval
  lr_error :: "string option"

record step_record =
  sr_status :: string
  sr_input :: "string option"
  sr_def :: "string option"
  sr_output :: pyval
  sr_ref :: "string option"
  sr_error :: "string option"

record wf_gate_decision =
  gd_approved :: bool
  gd_pending :: bool
  gd_rejected :: bool
  gd_reason :: "string option"

datatype run_status = Completed | Failed | Suspended | Killed

record run_outcome =
  ro_status :: run_status
  ro_reason :: "string option"
  ro_outputs :: "(string \<times> pyval) list"

section \<open>The journal\<close>

record journal =
  jn_steps :: "(string \<times> step_record) list"
  jn_leaves :: "((string \<times> string) \<times> leaf_record) list"

definition blank_step :: "string \<Rightarrow> step_record" where
  "blank_step status = \<lparr>sr_status = status, sr_input = None, sr_def = None, sr_output = PNone, sr_ref = None, sr_error = None\<rparr>"

definition blank_leaf :: "string \<Rightarrow> leaf_record" where
  "blank_leaf status = \<lparr>lr_status = status, lr_input = None, lr_def = None, lr_output = PNone, lr_error = None\<rparr>"

definition put_step :: "string \<Rightarrow> step_record \<Rightarrow> journal \<Rightarrow> journal" where
  "put_step i r j = j\<lparr>jn_steps := AList.update i r (jn_steps j)\<rparr>"

definition put_leaf :: "string \<Rightarrow> string \<Rightarrow> leaf_record \<Rightarrow> journal \<Rightarrow> journal" where
  "put_leaf i l r j = j\<lparr>jn_leaves := AList.update (i, l) r (jn_leaves j)\<rparr>"

text \<open>\<open>setdefault\<close>: the record there is, or a blank one.\<close>

definition step_or :: "string \<Rightarrow> string \<Rightarrow> journal \<Rightarrow> step_record" where
  "step_or i status j = (case map_of (jn_steps j) i of Some r \<Rightarrow> r | None \<Rightarrow> blank_step status)"

definition leaf_or :: "string \<Rightarrow> string \<Rightarrow> string \<Rightarrow> journal \<Rightarrow> leaf_record" where
  "leaf_or i l status j = (case map_of (jn_leaves j) (i, l) of Some r \<Rightarrow> r | None \<Rightarrow> blank_leaf status)"

definition record_step_start :: "string \<Rightarrow> string option \<Rightarrow> string \<Rightarrow> journal \<Rightarrow> journal" where
  "record_step_start i input dh = put_step i ((blank_step ''running'')\<lparr>sr_input := input, sr_def := Some dh\<rparr>)"

text \<open>Every caller has recorded the start before, so the record is there.\<close>

definition record_step_done :: "string \<Rightarrow> pyval \<Rightarrow> string option \<Rightarrow> journal \<Rightarrow> journal" where
  "record_step_done i output ref j =
     put_step i ((step_or i ''running'' j)\<lparr>sr_status := ''done'', sr_output := output, sr_ref := ref\<rparr>) j"

definition record_step_failed :: "string \<Rightarrow> string \<Rightarrow> journal \<Rightarrow> journal" where
  "record_step_failed i err j =
     put_step i ((step_or i ''running'' j)\<lparr>sr_status := ''failed'', sr_error := Some err\<rparr>) j"

definition record_step_skipped :: "string \<Rightarrow> string \<Rightarrow> journal \<Rightarrow> journal" where
  "record_step_skipped i dh = put_step i ((blank_step ''skipped'')\<lparr>sr_def := Some dh\<rparr>)"

definition record_step_suspended :: "string \<Rightarrow> string \<Rightarrow> journal \<Rightarrow> journal" where
  "record_step_suspended i reason j =
     put_step i ((step_or i ''suspended'' j)\<lparr>sr_status := ''suspended'', sr_error := Some reason\<rparr>) j"

definition record_leaf_start :: "string \<Rightarrow> string \<Rightarrow> string option \<Rightarrow> string \<Rightarrow> journal \<Rightarrow> journal" where
  "record_leaf_start i l input dh = put_leaf i l ((blank_leaf ''running'')\<lparr>lr_input := input, lr_def := Some dh\<rparr>)"

definition record_leaf_done :: "string \<Rightarrow> string \<Rightarrow> pyval \<Rightarrow> journal \<Rightarrow> journal" where
  "record_leaf_done i l output j =
     put_leaf i l ((leaf_or i l ''running'' j)\<lparr>lr_status := ''done'', lr_output := output\<rparr>) j"

definition record_leaf_failed :: "string \<Rightarrow> string \<Rightarrow> string \<Rightarrow> journal \<Rightarrow> journal" where
  "record_leaf_failed i l err j =
     put_leaf i l ((leaf_or i l ''running'' j)\<lparr>lr_status := ''failed'', lr_error := Some err\<rparr>) j"

section \<open>References and templates\<close>

fun walk_path :: "string \<Rightarrow> pyval \<Rightarrow> string list \<Rightarrow> (workflow_error, pyval) res" where
  "walk_path ref v [] = Inr v"
| "walk_path ref v (p # ps) =
     (case v of
        PDict d \<Rightarrow> if has_key d p then walk_path ref (dget d p) ps
          else Inl (TemplateError (''reference '' @ repr_str ref @ '': path segment '' @ repr_str p @ '' not found''))
      | _ \<Rightarrow> Inl (TemplateError (''reference '' @ repr_str ref @ '': path segment '' @ repr_str p @ '' not found'')))"

definition resolve_path ::
  "string \<Rightarrow> (string \<times> pyval) list \<Rightarrow> (string \<times> pyval) list \<Rightarrow> (workflow_error, pyval) res" where
  "resolve_path ref args outputs =
     (let parts = py_split_on (CHR ''.'') ref; root = hd parts in
      if root = ''args'' then walk_path ref (PDict args) (tl parts)
      else if root = ''steps'' then
        (if length parts < 3 \<or> parts ! 2 \<noteq> ''output''
         then Inl (TemplateError (''step reference '' @ repr_str ref @ '' must be steps.<id>.output[...]''))
         else if \<not> has_key outputs (parts ! 1)
         then Inl (TemplateError (''step reference '' @ repr_str ref @ '': no recorded output for step '' @ repr_str (parts ! 1)))
         else walk_path ref (dget outputs (parts ! 1)) (drop 3 parts))
      else Inl (TemplateError (''unsupported reference root in '' @ repr_str ref)))"

definition part_value ::
  "(string \<times> pyval) list \<Rightarrow> (string \<times> pyval) list \<Rightarrow> pyval \<Rightarrow> template_part \<Rightarrow> (workflow_error, string) res" where
  "part_value args outputs item p =
     (case p of
        Literal c \<Rightarrow> Inr [c]
      | Reference r t \<Rightarrow>
          bind_res (if r = ''item'' then Inr item else resolve_path r args outputs) (\<lambda>v.
          Inr (case v of PStr s \<Rightarrow> s | _ \<Rightarrow> json_dumps v)))"

definition resolve_template ::
  "string \<Rightarrow> (string \<times> pyval) list \<Rightarrow> (string \<times> pyval) list \<Rightarrow> pyval \<Rightarrow> (workflow_error, string) res" where
  "resolve_template text args outputs item =
     fold_res (\<lambda>acc p. bind_res (part_value args outputs item p) (\<lambda>t. Inr (acc @ t))) [] (template_parts text)"

section \<open>Conditions\<close>

definition type_error_is_false :: "bool option \<Rightarrow> bool" where
  "type_error_is_false b = (case b of None \<Rightarrow> False | Some x \<Rightarrow> x)"

definition evaluate_predicate ::
  "condition_predicate \<Rightarrow> (string \<times> pyval) list \<Rightarrow> (string \<times> pyval) list \<Rightarrow> bool" where
  "evaluate_predicate p args outputs =
     (case resolve_path (cp_field p) args outputs of
        Inl e \<Rightarrow> False
      | Inr v \<Rightarrow>
          (case cp_op p of
             OpExists \<Rightarrow> True
           | OpEq \<Rightarrow> py_eq v (cp_value p)
           | OpNe \<Rightarrow> \<not> py_eq v (cp_value p)
           | OpGt \<Rightarrow> type_error_is_false (py_less (cp_value p) v)
           | OpLt \<Rightarrow> type_error_is_false (py_less v (cp_value p))
           | OpGte \<Rightarrow> type_error_is_false (py_le (cp_value p) v)
           | OpLte \<Rightarrow> type_error_is_false (py_le v (cp_value p))
           | OpContains \<Rightarrow> type_error_is_false (py_in (cp_value p) v)
           | OpIn \<Rightarrow> type_error_is_false (py_in v (cp_value p))))"

text \<open>\<open>all(...)\<close> and \<open>any(...)\<close> over results that may be exceptions stop at the first verdict.\<close>

fun all_res :: "('e, bool) res list \<Rightarrow> ('e, bool) res" where
  "all_res [] = Inr True"
| "all_res (r # rs) = bind_res r (\<lambda>b. if b then all_res rs else Inr False)"

fun any_res :: "('e, bool) res list \<Rightarrow> ('e, bool) res" where
  "any_res [] = Inr False"
| "any_res (r # rs) = bind_res r (\<lambda>b. if b then Inr True else any_res rs)"

primrec evaluate_condition ::
  "(string \<times> pyval) list \<Rightarrow> (string \<times> pyval) list \<Rightarrow> condition \<Rightarrow> (workflow_error, bool) res" where
  "evaluate_condition args outputs (Condition p al an nt) =
     (case p of Some q \<Rightarrow> Inr (evaluate_predicate q args outputs)
      | None \<Rightarrow>
        (case map_option (evaluate_condition args outputs) nt of
           Some r \<Rightarrow> bind_res r (\<lambda>b. Inr (\<not> b))
         | None \<Rightarrow>
           (case map_option (map (evaluate_condition args outputs)) al of
              Some rs \<Rightarrow> all_res rs
            | None \<Rightarrow>
              (case map_option (map (evaluate_condition args outputs)) an of
                 Some rs \<Rightarrow> any_res rs
               | None \<Rightarrow> Inl (TemplateError ''empty condition node'')))))"

section \<open>Instants\<close>

text \<open>An aware datetime: microseconds since the epoch, and its UTC offset in seconds.\<close>

record moment =
  mo_utc :: int
  mo_offset :: int

definition offset_text :: "int \<Rightarrow> string" where
  "offset_text off = (let a = \<bar>off\<bar> in (if off < 0 then ''-'' else ''+'')
     @ pad_left 2 (a div 3600) @ '':'' @ pad_left 2 (a div 60 mod 60)
     @ (if a mod 60 = 0 then [] else '':'' @ pad_left 2 (a mod 60)))"

definition moment_text :: "moment \<Rightarrow> string" where
  "moment_text m = (let s = isoformat (mo_utc m + mo_offset m * 1000000) in
     take (length s - 6) s @ offset_text (mo_offset m))"

section \<open>Environment and state\<close>

record 'x wf_env =
  we_sha256 :: "string \<Rightarrow> string"
  we_fromiso :: "string \<Rightarrow> moment option"
  we_leaf :: "leaf_request \<Rightarrow> 'x \<Rightarrow> leaf_outcome \<times> 'x"
  we_continue :: "'x \<Rightarrow> bool \<times> 'x"
  we_reserve :: "('x \<Rightarrow> bool \<times> 'x) option"
  we_settle :: "int \<Rightarrow> 'x \<Rightarrow> 'x"
  we_gate :: "(string \<Rightarrow> string \<Rightarrow> 'x \<Rightarrow> wf_gate_decision \<times> 'x) option"
  we_wait :: "moment \<Rightarrow> 'x \<Rightarrow> 'x"
  we_signal :: "string \<Rightarrow> string \<Rightarrow> 'x \<Rightarrow> 'x"
  we_now :: "'x \<Rightarrow> moment"

record 'x wf_state =
  es_journal :: journal
  es_log :: "leaf_request list"
  es_x :: 'x

datatype step_flow = Go "(string \<times> pyval) list" | Halt run_outcome | Raised workflow_error

definition on_journal :: "(journal \<Rightarrow> journal) \<Rightarrow> 'x wf_state \<Rightarrow> 'x wf_state" where
  "on_journal f s = s\<lparr>es_journal := f (es_journal s)\<rparr>"

definition halt :: "run_status \<Rightarrow> string \<Rightarrow> (string \<times> pyval) list \<Rightarrow> step_flow" where
  "halt status reason outputs = Halt \<lparr>ro_status = status, ro_reason = Some reason, ro_outputs = outputs\<rparr>"

definition fail_step :: "string \<Rightarrow> string \<Rightarrow> (string \<times> pyval) list \<Rightarrow> 'x wf_state \<Rightarrow> step_flow \<times> 'x wf_state" where
  "fail_step i err outputs s = (halt Failed err outputs, on_journal (record_step_failed i err) s)"

definition suspend_step :: "string \<Rightarrow> string \<Rightarrow> (string \<times> pyval) list \<Rightarrow> 'x wf_state \<Rightarrow> step_flow \<times> 'x wf_state" where
  "suspend_step i reason outputs s = (halt Suspended reason outputs, on_journal (record_step_suspended i reason) s)"

definition finish_step ::
  "string \<Rightarrow> pyval \<Rightarrow> string option \<Rightarrow> (string \<times> pyval) list \<Rightarrow> 'x wf_state \<Rightarrow> step_flow \<times> 'x wf_state" where
  "finish_step i output ref outputs s =
     (Go (AList.update i output outputs), on_journal (record_step_done i output ref) s)"

definition error_text :: "workflow_error \<Rightarrow> string" where
  "error_text e = (case e of DefinitionError m \<Rightarrow> m | CompileError m \<Rightarrow> m | AdmissionError m \<Rightarrow> m
     | TemplateError m \<Rightarrow> m | PyError m \<Rightarrow> m)"

text \<open>Prior records that are replayed instead of executed.\<close>

definition replayable :: "string \<Rightarrow> step_record option \<Rightarrow> bool" where
  "replayable dh prior = (case prior of None \<Rightarrow> False
     | Some r \<Rightarrow> sr_status r = ''done'' \<and> sr_def r = Some dh)"

definition BUDGET_EXHAUSTED :: string where
  "BUDGET_EXHAUSTED = ''budget exhausted: run quota cannot cover the next leaf''"

text \<open>One leaf call under the quota; \<^term>\<open>None\<close> when the reservation is refused.\<close>

definition reserve_leaf :: "'x wf_env \<Rightarrow> 'x \<Rightarrow> bool \<times> 'x" where
  "reserve_leaf env x = (case we_reserve env of None \<Rightarrow> (True, x) | Some f \<Rightarrow> f x)"

definition settle_leaf :: "'x wf_env \<Rightarrow> int \<Rightarrow> 'x \<Rightarrow> 'x" where
  "settle_leaf env n x = (case we_reserve env of None \<Rightarrow> x | Some f \<Rightarrow> we_settle env n x)"

definition call_leaf ::
  "'x wf_env \<Rightarrow> (journal \<Rightarrow> journal) \<Rightarrow> leaf_request \<Rightarrow> 'x wf_state \<Rightarrow> leaf_outcome option \<times> 'x wf_state" where
  "call_leaf env start req s =
     (case reserve_leaf env (es_x s) of
        (False, x) \<Rightarrow> (None, s\<lparr>es_x := x\<rparr>)
      | (True, x) \<Rightarrow>
          (case we_leaf env req x of (out, x1) \<Rightarrow>
             (Some out, s\<lparr>es_journal := start (es_journal s), es_log := es_log s @ [req],
                es_x := settle_leaf env (lo_tokens out) x1\<rparr>)))"

section \<open>Agent steps\<close>

definition agent_step_input_hash :: "'x wf_env \<Rightarrow> string \<Rightarrow> leaf_ref \<Rightarrow> string \<Rightarrow> string" where
  "agent_step_input_hash env task f dh = we_sha256 env (json_dumps (PDict
     [(''task'', PStr task), (''leaf'', PStr (lf_name f)), (''definition_hash'', PStr dh)]))"

definition leaf_input_hash :: "'x wf_env \<Rightarrow> string \<Rightarrow> leaf_ref \<Rightarrow> string \<Rightarrow> string \<Rightarrow> string" where
  "leaf_input_hash env task f dh l = we_sha256 env (json_dumps (PDict
     [(''task'', PStr task), (''leaf'', PStr (lf_name f)), (''definition_hash'', PStr dh), (''leaf_id'', PStr l)]))"

text \<open>The retry loop: \<open>n\<close> more attempts after a failed one.\<close>

primrec attempt_leaf ::
  "'x wf_env \<Rightarrow> (journal \<Rightarrow> journal) \<Rightarrow> leaf_request \<Rightarrow> nat \<Rightarrow> 'x wf_state \<Rightarrow> leaf_outcome option \<times> 'x wf_state" where
  "attempt_leaf env start req 0 s = call_leaf env start req s"
| "attempt_leaf env start req (Suc n) s =
     (case call_leaf env start req s of
        (Some out, s1) \<Rightarrow> if lo_ok out then (Some out, s1) else attempt_leaf env start req n s1
      | (None, s1) \<Rightarrow> (None, s1))"

definition outcome_error :: "leaf_outcome \<Rightarrow> string" where
  "outcome_error out = (case lo_error out of None \<Rightarrow> ''leaf execution failed''
     | Some e \<Rightarrow> if e = [] then ''leaf execution failed'' else e)"

definition exec_agent_step ::
  "'x wf_env \<Rightarrow> string \<Rightarrow> (string \<times> pyval) list \<Rightarrow> step_record option \<Rightarrow> string \<Rightarrow> leaf_ref \<Rightarrow> string \<Rightarrow>
   int option \<Rightarrow> (string \<times> pyval) list \<Rightarrow> 'x wf_state \<Rightarrow> step_flow \<times> 'x wf_state" where
  "exec_agent_step env dh args prior i f task retry outputs s =
     (case resolve_template task args outputs PNone of
        Inl e \<Rightarrow> fail_step i (error_text e) outputs s
      | Inr text \<Rightarrow>
          let h = agent_step_input_hash env text f dh in
          if replayable dh prior \<and> sr_input (the prior) = Some h
          then (Go (AList.update i (sr_output (the prior)) outputs), s)
          else
            (case attempt_leaf env (record_step_start i (Some h) dh)
                \<lparr>lq_step = i, lq_leaf = f, lq_task = text, lq_id = None\<rparr>
                (nat (case retry of None \<Rightarrow> 0 | Some n \<Rightarrow> n)) s of
               (None, s1) \<Rightarrow> suspend_step i BUDGET_EXHAUSTED outputs s1
             | (Some out, s1) \<Rightarrow>
                 if lo_ok out then finish_step i (lo_output out) (lo_ref out) outputs s1
                 else fail_step i (outcome_error out) outputs s1))"

section \<open>Fan-out steps\<close>

record 'x fan_state =
  fs_results :: "pyval list"
  fs_failures :: "string list"
  fs_exhausted :: bool
  fs_state :: "'x wf_state"

definition item_id :: "nat \<Rightarrow> string" where
  "item_id n = ''item-'' @ str_of_int (int n)"

definition fail_leaf :: "string \<Rightarrow> string \<Rightarrow> string \<Rightarrow> 'x fan_state \<Rightarrow> 'x fan_state" where
  "fail_leaf i l err a = a\<lparr>fs_failures := fs_failures a @ [l @ '': '' @ err],
     fs_state := on_journal (record_leaf_failed i l err) (fs_state a)\<rparr>"

definition leaf_replays :: "string \<Rightarrow> string \<Rightarrow> leaf_record option \<Rightarrow> bool" where
  "leaf_replays h dh prior = (case prior of None \<Rightarrow> False
     | Some r \<Rightarrow> lr_status r = ''done'' \<and> lr_input r = Some h \<and> lr_def r = Some dh)"

definition run_leaf ::
  "'x wf_env \<Rightarrow> string \<Rightarrow> (string \<times> pyval) list \<Rightarrow> string \<Rightarrow> leaf_ref \<Rightarrow> string \<Rightarrow>
   ((string \<times> string) \<times> leaf_record) list \<Rightarrow> (string \<times> pyval) list \<Rightarrow> nat \<times> pyval \<Rightarrow> 'x fan_state \<Rightarrow> 'x fan_state" where
  "run_leaf env dh args i f task existing outputs = (\<lambda>(n, item) a.
     (let l = item_id n in
      case resolve_template task args outputs item of
        Inl e \<Rightarrow> fail_leaf i l (error_text e) a
      | Inr text \<Rightarrow>
          let h = leaf_input_hash env text f dh l; prior = map_of existing (i, l) in
          if leaf_replays h dh prior then a\<lparr>fs_results := (fs_results a)[n := lr_output (the prior)]\<rparr>
          else if fs_exhausted a then a
          else
            (case call_leaf env (record_leaf_start i l (Some h) dh)
                \<lparr>lq_step = i, lq_leaf = f, lq_task = text, lq_id = Some l\<rparr> (fs_state a) of
               (None, s1) \<Rightarrow> a\<lparr>fs_exhausted := True, fs_state := s1\<rparr>
             | (Some out, s1) \<Rightarrow>
                 if lo_ok out
                 then a\<lparr>fs_results := (fs_results a)[n := lo_output out],
                        fs_state := on_journal (record_leaf_done i l (lo_output out)) s1\<rparr>
                 else fail_leaf i l (outcome_error out) (a\<lparr>fs_state := s1\<rparr>))))"

definition exec_fanout_step ::
  "'x wf_env \<Rightarrow> string \<Rightarrow> (string \<times> pyval) list \<Rightarrow> string \<Rightarrow> leaf_ref \<Rightarrow> string \<Rightarrow> string \<Rightarrow>
   (string \<times> pyval) list \<Rightarrow> 'x wf_state \<Rightarrow> step_flow \<times> 'x wf_state" where
  "exec_fanout_step env dh args i f items_from task outputs s =
     (case resolve_path items_from args outputs of
        Inl e \<Rightarrow> fail_step i (error_text e) outputs s
      | Inr (PList items) \<Rightarrow>
          let existing = jn_leaves (es_journal s);
              a = fold (run_leaf env dh args i f task existing outputs) (enumerate 0 items)
                \<lparr>fs_results = replicate (length items) PNone, fs_failures = [], fs_exhausted = False,
                 fs_state = on_journal (record_step_start i None dh) s\<rparr> in
          if fs_exhausted a then suspend_step i BUDGET_EXHAUSTED outputs (fs_state a)
          else if fs_failures a \<noteq> [] then fail_step i (py_join ''; '' (fs_failures a)) outputs (fs_state a)
          else finish_step i (PList (fs_results a)) None outputs (fs_state a)
      | Inr _ \<Rightarrow> fail_step i (''fanout items reference '' @ repr_str items_from @ '' must resolve to an array'') outputs s)"

section \<open>Gates and waits\<close>

definition replay_step :: "string \<Rightarrow> step_record option \<Rightarrow> (string \<times> pyval) list \<Rightarrow> 'x wf_state \<Rightarrow> step_flow \<times> 'x wf_state" where
  "replay_step i prior outputs s = (Go (AList.update i (sr_output (the prior)) outputs), s)"

definition text_or_else :: "string option \<Rightarrow> string \<Rightarrow> string" where
  "text_or_else x d = (case x of None \<Rightarrow> d | Some t \<Rightarrow> if t = [] then d else t)"

definition exec_gate_step ::
  "'x wf_env \<Rightarrow> string \<Rightarrow> step_record option \<Rightarrow> string \<Rightarrow> string \<Rightarrow> (string \<times> pyval) list \<Rightarrow> 'x wf_state \<Rightarrow>
   step_flow \<times> 'x wf_state" where
  "exec_gate_step env dh prior i reason outputs s =
     (if replayable dh prior then replay_step i prior outputs s
      else case we_gate env of
        None \<Rightarrow> suspend_step i (''gate step '' @ repr_str i @ '' has no decider bound - suspending (fail-closed)'') outputs s
      | Some decide \<Rightarrow>
          (case decide i reason (es_x s) of (d, x) \<Rightarrow>
             let s1 = s\<lparr>es_x := x\<rparr> in
             if gd_approved d
             then finish_step i (PDict [(''approved'', PBool True), (''reason'', PStr reason)]) None outputs
                    (on_journal (record_step_start i None dh) s1)
             else if gd_rejected d
             then fail_step i (text_or_else (gd_reason d) (''gate '' @ repr_str i @ '' rejected'')) outputs s1
             else suspend_step i (text_or_else (gd_reason d)
                    (''gate '' @ repr_str i @ '' awaiting approval: '' @ reason)) outputs s1))"

definition resolve_wait_target ::
  "'x wf_env \<Rightarrow> (string \<times> pyval) list \<Rightarrow> moment \<Rightarrow> int option \<Rightarrow> string option \<Rightarrow> (workflow_error, moment) res" where
  "resolve_wait_target env args current delay until =
     (case delay of
        Some d \<Rightarrow> Inr (current\<lparr>mo_utc := mo_utc current + d * 1000000\<rparr>)
      | None \<Rightarrow>
          let target = (case until of None \<Rightarrow> [] | Some u \<Rightarrow> u) in
          bind_res (if take 5 target = ''args.'' then bind_res (resolve_path target args []) (\<lambda>v. Inr (py_str v))
                    else Inr target) (\<lambda>t.
          case we_fromiso env t of None \<Rightarrow> Inl (PyError ''ValueError'') | Some m \<Rightarrow> Inr m))"

definition exec_wait_step ::
  "'x wf_env \<Rightarrow> string \<Rightarrow> (string \<times> pyval) list \<Rightarrow> step_record option \<Rightarrow> string \<Rightarrow> int option \<Rightarrow> string option \<Rightarrow>
   (string \<times> pyval) list \<Rightarrow> 'x wf_state \<Rightarrow> step_flow \<times> 'x wf_state" where
  "exec_wait_step env dh args prior i delay until outputs s =
     (if replayable dh prior then replay_step i prior outputs s
      else
        let current = we_now env (es_x s);
            fixed = (case prior of None \<Rightarrow> None
              | Some r \<Rightarrow> (case sr_input r of None \<Rightarrow> None | Some t \<Rightarrow> if t = [] then None else we_fromiso env t)) in
        case (case fixed of Some m \<Rightarrow> Inr (m, s)
              | None \<Rightarrow> bind_res (resolve_wait_target env args current delay until) (\<lambda>m.
                  Inr (m, on_journal (record_step_start i (Some (moment_text m)) dh) s))) of
          Inl e \<Rightarrow> (Raised e, s)
        | Inr (m, s1) \<Rightarrow>
            if mo_utc m \<le> mo_utc current
            then finish_step i (PDict [(''waited_until'', PStr (moment_text m))]) None outputs s1
            else suspend_step i (''waiting until '' @ moment_text m) outputs (s1\<lparr>es_x := we_wait env m (es_x s1)\<rparr>))"

definition exec_signal_step ::
  "'x wf_env \<Rightarrow> string \<Rightarrow> step_record option \<Rightarrow> string \<Rightarrow> string \<Rightarrow> (string \<times> pyval) list \<Rightarrow> 'x wf_state \<Rightarrow>
   step_flow \<times> 'x wf_state" where
  "exec_signal_step env dh prior i signal outputs s =
     (if replayable dh prior then replay_step i prior outputs s
      else
        let s1 = on_journal (record_step_start i (Some signal) dh) s;
            s2 = s1\<lparr>es_x := we_signal env i signal (es_x s1)\<rparr> in
        suspend_step i (''waiting for signal '' @ repr_str signal) outputs s2)"

section \<open>The interpreter\<close>

definition exec_step ::
  "'x wf_env \<Rightarrow> string \<Rightarrow> (string \<times> pyval) list \<Rightarrow> (string \<times> step_record) list \<Rightarrow> wf_step \<Rightarrow>
   (string \<times> pyval) list \<Rightarrow> 'x wf_state \<Rightarrow> step_flow \<times> 'x wf_state" where
  "exec_step env dh args existing st outputs s =
     (let i = st_id st; prior = map_of existing i in
      case (case st_when st of None \<Rightarrow> Inr True | Some c \<Rightarrow> evaluate_condition args outputs c) of
        Inl e \<Rightarrow> (Raised e, s)
      | Inr False \<Rightarrow> (Go outputs, on_journal (record_step_skipped i dh) s)
      | Inr True \<Rightarrow>
          (case st_body st of
             AgentStep f task retry \<Rightarrow> exec_agent_step env dh args prior i f task retry outputs s
           | FanoutStep f items task n \<Rightarrow> exec_fanout_step env dh args i f items task outputs s
           | GateStep reason \<Rightarrow> exec_gate_step env dh prior i reason outputs s
           | WaitUntilStep delay until \<Rightarrow> exec_wait_step env dh args prior i delay until outputs s
           | WaitSignalStep signal \<Rightarrow> exec_signal_step env dh prior i signal outputs s))"

fun exec_steps ::
  "'x wf_env \<Rightarrow> string \<Rightarrow> (string \<times> pyval) list \<Rightarrow> (string \<times> step_record) list \<Rightarrow> wf_step list \<Rightarrow>
   (string \<times> pyval) list \<Rightarrow> 'x wf_state \<Rightarrow> step_flow \<times> 'x wf_state" where
  "exec_steps env dh args existing [] outputs s = (Go outputs, s)"
| "exec_steps env dh args existing (st # sts) outputs s =
     (case we_continue env (es_x s) of
        (False, x) \<Rightarrow> (halt Killed ''kill requested'' outputs, s\<lparr>es_x := x\<rparr>)
      | (True, x) \<Rightarrow>
          (case exec_step env dh args existing st outputs (s\<lparr>es_x := x\<rparr>) of
             (Go outs, s1) \<Rightarrow> exec_steps env dh args existing sts outs s1
           | (flow, s1) \<Rightarrow> (flow, s1)))"

definition execute_workflow ::
  "'x wf_env \<Rightarrow> compiled_workflow \<Rightarrow> (string \<times> pyval) list \<Rightarrow> 'x wf_state \<Rightarrow>
   (workflow_error, run_outcome) res \<times> 'x wf_state" where
  "execute_workflow env c args s =
     (case exec_steps env (cw_hash c) args (jn_steps (es_journal s)) (wd_steps (cw_definition c)) [] s of
        (Go outs, s1) \<Rightarrow> (Inr \<lparr>ro_status = Completed, ro_reason = None, ro_outputs = outs\<rparr>, s1)
      | (Halt out, s1) \<Rightarrow> (Inr out, s1)
      | (Raised e, s1) \<Rightarrow> (Inl e, s1))"

text \<open>The quota envelope of the source: a conditional deduction, step_settled with the actual usage.\<close>

record quota =
  qt_allocated :: int
  qt_estimate :: int
  qt_consumed :: int

definition quota_reserve :: "quota \<Rightarrow> bool \<times> quota" where
  "quota_reserve q = (if qt_allocated q < qt_consumed q + qt_estimate q then (False, q)
     else (True, q\<lparr>qt_consumed := qt_consumed q + qt_estimate q\<rparr>))"

definition quota_settle :: "int \<Rightarrow> quota \<Rightarrow> quota" where
  "quota_settle actual q = q\<lparr>qt_consumed := qt_consumed q + actual - qt_estimate q\<rparr>"

end
