(* ===== verification/Workflow_Run.thy ===== *)
theory Workflow_Run
  imports Workflow_Engine
begin

text \<open>
  What the workflow interpreter promises: a resumed run repeats nothing that is done, an
  external effect waits for its gate, the outcome agrees with the journal, the leaf calls
  stay within the admitted plan, a wait ends, and where the compiler promises more than the
  interpreter keeps.
\<close>

section \<open>What a step may touch\<close>

text \<open>A record that an earlier pass of the same definition wrote.\<close>

definition of_definition :: "string \<Rightarrow> step_record option \<Rightarrow> bool" where
  "of_definition dh prior = (case prior of None \<Rightarrow> True
     | Some r \<Rightarrow> sr_input r \<noteq> None \<longrightarrow> sr_def r = Some dh)"

definition touches :: "string \<Rightarrow> string \<Rightarrow> 'x wf_state \<Rightarrow> 'x wf_state \<Rightarrow> bool" where
  "touches dh i s s' \<longleftrightarrow>
     (\<forall>k. k \<noteq> i \<longrightarrow> map_of (jn_steps (es_journal s')) k = map_of (jn_steps (es_journal s)) k)
     \<and> (\<forall>k l. k \<noteq> i \<longrightarrow> map_of (jn_leaves (es_journal s')) (k, l) = map_of (jn_leaves (es_journal s)) (k, l))
     \<and> (of_definition dh (map_of (jn_steps (es_journal s)) i) \<longrightarrow>
          of_definition dh (map_of (jn_steps (es_journal s')) i))
     \<and> (\<exists>rs. es_log s' = es_log s @ rs \<and> (\<forall>r \<in> set rs. lq_step r = i))"

lemma touches_refl [simp]: "touches dh i s s"
  by (simp add: touches_def)

lemma touches_trans: "touches dh i s t \<Longrightarrow> touches dh i t u \<Longrightarrow> touches dh i s u"
  unfolding touches_def by fastforce

lemma touches_x [simp]: "touches dh i s (t\<lparr>es_x := x\<rparr>) \<longleftrightarrow> touches dh i s t"
  by (simp add: touches_def)

text \<open>The journal operations on the records of one step.\<close>

definition own_journal :: "string \<Rightarrow> string \<Rightarrow> (journal \<Rightarrow> journal) \<Rightarrow> bool" where
  "own_journal dh i f \<longleftrightarrow> (\<forall>j. (\<forall>k. k \<noteq> i \<longrightarrow> map_of (jn_steps (f j)) k = map_of (jn_steps j) k)
     \<and> (\<forall>k l. k \<noteq> i \<longrightarrow> map_of (jn_leaves (f j)) (k, l) = map_of (jn_leaves j) (k, l))
     \<and> (of_definition dh (map_of (jn_steps j) i) \<longrightarrow> of_definition dh (map_of (jn_steps (f j)) i)))"

lemma own_journal_ops [simp]:
  "own_journal dh i (record_step_start i a dh)" "own_journal dh i (record_step_done i v r)"
  "own_journal dh i (record_step_failed i e)" "own_journal dh i (record_step_skipped i b)"
  "own_journal dh i (record_step_suspended i e)" "own_journal dh i (record_leaf_start i l a b)"
  "own_journal dh i (record_leaf_done i l v)" "own_journal dh i (record_leaf_failed i l e)"
  by (auto simp: own_journal_def of_definition_def step_or_def blank_step_def record_step_start_def record_step_done_def record_step_failed_def
      record_step_skipped_def record_step_suspended_def record_leaf_start_def record_leaf_done_def
      record_leaf_failed_def put_step_def put_leaf_def split: option.splits)

lemma touches_journal [intro]: "own_journal dh i f \<Longrightarrow> touches dh i s (on_journal f s)"
  by (simp add: own_journal_def touches_def on_journal_def)

lemma touches_journal_after: "own_journal dh i f \<Longrightarrow> touches dh i s t \<Longrightarrow> touches dh i s (on_journal f t)"
  by (rule touches_trans) auto

lemma touches_call:
  assumes "call_leaf env start req s = (out, s')" and "own_journal dh (lq_step req) start"
  shows "touches dh (lq_step req) s s'"
  using assms by (auto simp: call_leaf_def touches_def own_journal_def split: prod.splits bool.splits)

lemma touches_attempt:
  "attempt_leaf env start req n s = (out, s') \<Longrightarrow> own_journal dh (lq_step req) start \<Longrightarrow> touches dh (lq_step req) s s'"
proof (induction n arbitrary: s)
  case 0
  then show ?case by (simp add: touches_call)
next
  case (Suc n)
  obtain o1 s1 where c: "call_leaf env start req s = (o1, s1)" by force
  note t = touches_call [OF c Suc.prems(2)]
  show ?case
  proof (cases o1)
    case None
    with c Suc.prems(1) t show ?thesis by simp
  next
    case (Some out1)
    with c Suc.prems t Suc.IH [of s1] show ?thesis
      by (cases "lo_ok out1") (auto intro: touches_trans)
  qed
qed

lemma touches_finish: "finish_step i v r outs s = (fl, s') \<Longrightarrow> touches dh i s s'"
  and touches_fail: "fail_step i e outs s = (fl, s') \<Longrightarrow> touches dh i s s'"
  and touches_suspend: "suspend_step i e outs s = (fl, s') \<Longrightarrow> touches dh i s s'"
  by (auto simp: finish_step_def fail_step_def suspend_step_def)

definition leaf_retries :: "int option \<Rightarrow> nat" where
  "leaf_retries retry = nat (case retry of None \<Rightarrow> 0 | Some n \<Rightarrow> n)"

lemma exec_agent_cases:
  assumes "exec_agent_step env dh args prior i f task retry outs s = (fl, s')"
  obtains (unresolved) e where "resolve_template task args outs PNone = Inl e"
      and "fail_step i (error_text e) outs s = (fl, s')"
  | (replay) tx where "resolve_template task args outs PNone = Inr tx" and "replayable dh prior"
      and "sr_input (the prior) = Some (agent_step_input_hash env tx f dh)"
      and "fl = Go (AList.update i (sr_output (the prior)) outs)" and "s' = s"
  | (refused) tx s1 where "resolve_template task args outs PNone = Inr tx"
      and "attempt_leaf env (record_step_start i (Some (agent_step_input_hash env tx f dh)) dh)
        \<lparr>lq_step = i, lq_leaf = f, lq_task = tx, lq_id = None\<rparr> (leaf_retries retry) s = (None, s1)"
      and "suspend_step i BUDGET_EXHAUSTED outs s1 = (fl, s')"
  | (ran) tx out s1 where "resolve_template task args outs PNone = Inr tx"
      and "attempt_leaf env (record_step_start i (Some (agent_step_input_hash env tx f dh)) dh)
        \<lparr>lq_step = i, lq_leaf = f, lq_task = tx, lq_id = None\<rparr> (leaf_retries retry) s = (Some out, s1)"
      and "(if lo_ok out then finish_step i (lo_output out) (lo_ref out) outs s1
            else fail_step i (outcome_error out) outs s1) = (fl, s')"
proof (cases "resolve_template task args outs PNone")
  case (Inl e)
  with assms show ?thesis by (intro unresolved [of e]) (auto simp: exec_agent_step_def)
next
  case (Inr tx)
  let ?h = "agent_step_input_hash env tx f dh"
  obtain o1 s1 where att: "attempt_leaf env (record_step_start i (Some ?h) dh)
      \<lparr>lq_step = i, lq_leaf = f, lq_task = tx, lq_id = None\<rparr> (leaf_retries retry) s = (o1, s1)" by force
  show ?thesis
  proof (cases "replayable dh prior \<and> sr_input (the prior) = Some ?h")
    case True
    with Inr assms show ?thesis by (intro replay [of tx]) (auto simp: exec_agent_step_def Let_def)
  next
    case False
    with Inr assms att [unfolded leaf_retries_def] have "(case o1 of None \<Rightarrow> suspend_step i BUDGET_EXHAUSTED outs s1
        | Some out \<Rightarrow> if lo_ok out then finish_step i (lo_output out) (lo_ref out) outs s1
            else fail_step i (outcome_error out) outs s1) = (fl, s')"
      by (auto simp: exec_agent_step_def Let_def split: option.splits)
    with Inr att refused ran show ?thesis by (cases o1) auto
  qed
qed

lemma touches_agent:
  assumes "exec_agent_step env dh args prior i f task retry outs s = (fl, s')"
  shows "touches dh i s s'"
  using assms
proof (cases rule: exec_agent_cases)
  case (unresolved e)
  then show ?thesis by (auto dest: touches_fail)
next
  case (replay tx)
  then show ?thesis by simp
next
  case (refused tx s1)
  from touches_attempt [OF refused(2)] have "touches dh i s s1" by simp
  moreover from refused(3) have "touches dh i s1 s'" by (rule touches_suspend)
  ultimately show ?thesis by (rule touches_trans)
next
  case (ran tx out s1)
  from touches_attempt [OF ran(2)] have "touches dh i s s1" by simp
  moreover from ran(3) have "touches dh i s1 s'"
    by (cases "lo_ok out") (auto dest: touches_finish touches_fail)
  ultimately show ?thesis by (rule touches_trans)
qed

lemma touches_run_leaf:
  "touches dh i (fs_state a) (fs_state (run_leaf env dh args i f task existing outs ni a))"
proof -
  have call: "touches dh i t u" if "call_leaf env (record_leaf_start i l h dh)
      \<lparr>lq_step = i, lq_leaf = f, lq_task = x, lq_id = y\<rparr> t = (out, u)" for l h x y out t u
    using touches_call [OF that] by simp
  show ?thesis
    unfolding run_leaf_def Let_def
    by (auto simp: fail_leaf_def split: prod.splits sum.splits option.splits
        intro: touches_journal_after dest: call)
qed

lemma touches_leaves:
  "touches dh i (fs_state a) (fs_state (fold (run_leaf env dh args i f task existing outs) xs a))"
  by (induction xs arbitrary: a) (auto intro: touches_trans touches_run_leaf)

lemma touches_fanout: "exec_fanout_step env dh args i f items task outs s = (fl, s') \<Longrightarrow> touches dh i s s'"
proof -
  assume e: "exec_fanout_step env dh args i f items task outs s = (fl, s')"
  have lv: "touches dh i s (fs_state (fold (run_leaf env dh args i f task ex outs) xs
      \<lparr>fs_results = rs, fs_failures = [], fs_exhausted = False, fs_state = on_journal (record_step_start i None dh) s\<rparr>))"
    for ex xs rs
    using touches_leaves [of dh i "\<lparr>fs_results = rs, fs_failures = [], fs_exhausted = False,
        fs_state = on_journal (record_step_start i None dh) s\<rparr>" env args f task ex outs xs]
    by (intro touches_trans [OF touches_journal [of dh i "record_step_start i None dh" s]]) simp_all
  show ?thesis
    using e unfolding exec_fanout_step_def Let_def
    by (auto split: sum.splits if_splits pyval.splits
        dest!: touches_finish touches_fail touches_suspend intro: touches_trans [OF lv])
qed

lemma touches_gate: "exec_gate_step env dh prior i reason outs s = (fl, s') \<Longrightarrow> touches dh i s s'"
  unfolding exec_gate_step_def Let_def replay_step_def
  by (auto split: if_splits option.splits prod.splits
      dest!: touches_finish touches_fail touches_suspend intro: touches_trans)
    (auto simp: touches_def on_journal_def record_step_start_def put_step_def of_definition_def blank_step_def)

lemma touches_wait: "exec_wait_step env dh args prior i d u outs s = (fl, s') \<Longrightarrow> touches dh i s s'"
proof -
  assume e: "exec_wait_step env dh args prior i d u outs s = (fl, s')"
  show ?thesis
    using e unfolding exec_wait_step_def Let_def replay_step_def
    by (auto split: if_splits option.splits sum.splits
        dest!: touches_finish touches_fail touches_suspend intro: touches_trans)
      (auto simp: touches_def on_journal_def record_step_start_def put_step_def of_definition_def blank_step_def split: if_splits)
qed

lemma touches_signal: "exec_signal_step env dh prior i g outs s = (fl, s') \<Longrightarrow> touches dh i s s'"
  unfolding exec_signal_step_def Let_def replay_step_def
  by (auto split: if_splits dest!: touches_suspend)
    (auto simp: touches_def on_journal_def record_step_start_def put_step_def of_definition_def blank_step_def)

lemma touches_step: "exec_step env dh args existing st outs s = (fl, s') \<Longrightarrow> touches dh (st_id st) s s'"
  unfolding exec_step_def Let_def
  by (auto split: sum.splits bool.splits step_body.splits
      dest: touches_agent touches_fanout touches_gate touches_wait touches_signal)

section \<open>Replaying a step that is done\<close>

definition same_records :: "string \<Rightarrow> journal \<Rightarrow> journal \<Rightarrow> bool" where
  "same_records i j j' \<longleftrightarrow> map_of (jn_steps j') i = map_of (jn_steps j) i
     \<and> (\<forall>l. map_of (jn_leaves j') (i, l) = map_of (jn_leaves j) (i, l))"

text \<open>A pass that calls nothing and leaves every record as it is.\<close>

definition idle :: "'x wf_state \<Rightarrow> 'x wf_state \<Rightarrow> bool" where
  "idle s s' \<longleftrightarrow> es_log s' = es_log s \<and> es_x s' = es_x s
     \<and> (\<forall>k. map_of (jn_steps (es_journal s')) k = map_of (jn_steps (es_journal s)) k)
     \<and> (\<forall>k. map_of (jn_leaves (es_journal s')) k = map_of (jn_leaves (es_journal s)) k)"

lemma idle_refl [simp]: "idle s s"
  by (simp add: idle_def)

lemma attempt_started: "attempt_leaf env start req n s = (Some out, s') \<Longrightarrow> \<exists>j. es_journal s' = start j"
proof (induction n arbitrary: s)
  case 0
  then show ?case by (auto simp: call_leaf_def split: prod.splits bool.splits)
next
  case (Suc n)
  then show ?case
    by (auto simp: call_leaf_def split: prod.splits bool.splits option.splits if_splits)
qed

lemma str_of_int_nat_inj [simp]: "str_of_int (int m) = str_of_int (int n) \<longleftrightarrow> m = n"
  by (simp add: str_of_int_def)

lemma item_id_inj [simp]: "item_id m = item_id n \<longleftrightarrow> m = n"
  by (simp add: item_id_def)

text \<open>The record of a leaf that was answered, and its result.\<close>

definition leaf_answered ::
  "'x wf_env \<Rightarrow> string \<Rightarrow> (string \<times> pyval) list \<Rightarrow> string \<Rightarrow> leaf_ref \<Rightarrow> string \<Rightarrow> (string \<times> pyval) list \<Rightarrow>
   nat \<Rightarrow> pyval \<Rightarrow> pyval \<Rightarrow> leaf_record option \<Rightarrow> bool" where
  "leaf_answered env dh args i f task outs n item result rec \<longleftrightarrow>
     (\<exists>tx. resolve_template task args outs item = Inr tx
        \<and> leaf_replays (leaf_input_hash env tx f dh (item_id n)) dh rec
        \<and> lr_output (the rec) = result)"

lemma run_leaf_frame:
  assumes "b = run_leaf env dh args i f task existing outs (n, item) a"
  shows "k \<noteq> (i, item_id n) \<Longrightarrow> map_of (jn_leaves (es_journal (fs_state b))) k = map_of (jn_leaves (es_journal (fs_state a))) k"
    and "map_of (jn_steps (es_journal (fs_state b))) m = map_of (jn_steps (es_journal (fs_state a))) m"
    and "length (fs_results b) = length (fs_results a)"
    and "m' \<noteq> n \<Longrightarrow> fs_results b ! m' = fs_results a ! m'"
  unfolding assms run_leaf_def Let_def
  by (auto simp: fail_leaf_def on_journal_def record_leaf_failed_def record_leaf_done_def record_leaf_start_def
      put_leaf_def call_leaf_def split: prod.splits sum.splits option.splits bool.splits)

lemma run_leaf_trouble:
  assumes "b = run_leaf env dh args i f task existing outs (n, item) a"
  shows "fs_failures b = [] \<Longrightarrow> fs_failures a = []" and "\<not> fs_exhausted b \<Longrightarrow> \<not> fs_exhausted a"
  using assms unfolding run_leaf_def Let_def
  by (auto simp: fail_leaf_def split: prod.splits sum.splits option.splits bool.splits if_splits)

lemma run_leaf_answered:
  assumes b: "b = run_leaf env dh args i f task existing outs (n, item) a"
    and ok: "fs_failures b = []" "\<not> fs_exhausted b"
    and ex: "map_of existing (i, item_id n) = map_of (jn_leaves (es_journal (fs_state a))) (i, item_id n)"
    and n: "n < length (fs_results a)"
  shows "leaf_answered env dh args i f task outs n item (fs_results b ! n)
     (map_of (jn_leaves (es_journal (fs_state b))) (i, item_id n))"
proof (cases "resolve_template task args outs item")
  case (Inl e)
  then show ?thesis using b ok by (simp add: run_leaf_def Let_def fail_leaf_def)
next
  case (Inr tx)
  let ?h = "leaf_input_hash env tx f dh (item_id n)"
  show ?thesis
  proof (cases "leaf_replays ?h dh (map_of existing (i, item_id n))")
    case True
    then show ?thesis using Inr b ex n by (simp add: run_leaf_def Let_def leaf_answered_def)
  next
    case False
    have na: "\<not> fs_exhausted a" by (rule run_leaf_trouble(2) [OF b ok(2)])
    obtain o1 s1 where c: "call_leaf env (record_leaf_start i (item_id n) (Some ?h) dh)
        \<lparr>lq_step = i, lq_leaf = f, lq_task = tx, lq_id = Some (item_id n)\<rparr> (fs_state a) = (o1, s1)" by force
    from b False Inr na c ok obtain out where out: "o1 = Some out" "lo_ok out"
      by (cases o1) (auto simp: run_leaf_def Let_def fail_leaf_def split: if_splits)
    with c have "\<exists>j. es_journal s1 = record_leaf_start i (item_id n) (Some ?h) dh j"
      by (auto simp: call_leaf_def split: prod.splits bool.splits)
    then show ?thesis
      using b False Inr na c out n
      by (auto simp: run_leaf_def Let_def leaf_answered_def leaf_replays_def on_journal_def record_leaf_done_def
          put_leaf_def leaf_or_def record_leaf_start_def)
  qed
qed

lemma run_leaves_answered:
  assumes "b = fold (run_leaf env dh args i f task existing outs) (enumerate n items) a"
    and "fs_failures b = []" and "\<not> fs_exhausted b"
    and "\<forall>m \<ge> n. map_of existing (i, item_id m) = map_of (jn_leaves (es_journal (fs_state a))) (i, item_id m)"
    and "n + length items \<le> length (fs_results a)"
  shows "length (fs_results b) = length (fs_results a)
     \<and> (\<forall>m < n. fs_results b ! m = fs_results a ! m \<and>
          map_of (jn_leaves (es_journal (fs_state b))) (i, item_id m) = map_of (jn_leaves (es_journal (fs_state a))) (i, item_id m))
     \<and> (\<forall>m. map_of (jn_steps (es_journal (fs_state b))) m = map_of (jn_steps (es_journal (fs_state a))) m)
     \<and> fs_failures a = [] \<and> \<not> fs_exhausted a
     \<and> (\<forall>k < length items. leaf_answered env dh args i f task outs (n + k) (items ! k) (fs_results b ! (n + k))
          (map_of (jn_leaves (es_journal (fs_state b))) (i, item_id (n + k))))"
  using assms
proof (induction items arbitrary: n a)
  case (Cons x items)
  define a1 where "a1 = run_leaf env dh args i f task existing outs (n, x) a"
  note fr = run_leaf_frame [OF a1_def] and tr = run_leaf_trouble [OF a1_def]
  have b: "b = fold (run_leaf env dh args i f task existing outs) (enumerate (Suc n) items) a1"
    using Cons.prems(1) by (simp add: a1_def)
  have IH: "length (fs_results b) = length (fs_results a1)
     \<and> (\<forall>m < Suc n. fs_results b ! m = fs_results a1 ! m \<and>
          map_of (jn_leaves (es_journal (fs_state b))) (i, item_id m) = map_of (jn_leaves (es_journal (fs_state a1))) (i, item_id m))
     \<and> (\<forall>m. map_of (jn_steps (es_journal (fs_state b))) m = map_of (jn_steps (es_journal (fs_state a1))) m)
     \<and> fs_failures a1 = [] \<and> \<not> fs_exhausted a1
     \<and> (\<forall>k < length items. leaf_answered env dh args i f task outs (Suc n + k) (items ! k) (fs_results b ! (Suc n + k))
          (map_of (jn_leaves (es_journal (fs_state b))) (i, item_id (Suc n + k))))"
    using Cons.prems fr(1,3) by (intro Cons.IH [OF b]) auto
  then have ok: "fs_failures a1 = []" "\<not> fs_exhausted a1" by simp_all
  have here: "leaf_answered env dh args i f task outs n x (fs_results a1 ! n)
     (map_of (jn_leaves (es_journal (fs_state a1))) (i, item_id n))"
    by (rule run_leaf_answered [OF a1_def ok]) (use Cons.prems in simp_all)
  have "leaf_answered env dh args i f task outs (n + k) ((x # items) ! k) (fs_results b ! (n + k))
          (map_of (jn_leaves (es_journal (fs_state b))) (i, item_id (n + k)))" if "k < length (x # items)" for k
    using IH here that by (cases k) auto
  moreover have "fs_results b ! m = fs_results a ! m \<and>
      map_of (jn_leaves (es_journal (fs_state b))) (i, item_id m) = map_of (jn_leaves (es_journal (fs_state a))) (i, item_id m)"
    if "m < n" for m
    using IH fr(1,4) that by simp
  ultimately show ?case using IH fr tr by simp
qed simp

lemma replay_leaves:
  assumes "\<forall>k < length items. leaf_answered env dh args i f task outs (n + k) (items ! k) (rs ! (n + k))
      (map_of existing (i, item_id (n + k)))"
    and "n + length items = length rs" and "length (fs_results a) = length rs" and "\<forall>m < n. fs_results a ! m = rs ! m"
  shows "fold (run_leaf env dh args i f task existing outs) (enumerate n items) a = a\<lparr>fs_results := rs\<rparr>"
  using assms
proof (induction items arbitrary: n a)
  case Nil
  then have "fs_results a = rs" by (intro nth_equalityI) auto
  then show ?case by simp
next
  case (Cons x items)
  from Cons.prems(1) have "leaf_answered env dh args i f task outs n x (rs ! n) (map_of existing (i, item_id n))"
    by (force dest: spec [where x = 0])
  then have r: "run_leaf env dh args i f task existing outs (n, x) a = a\<lparr>fs_results := (fs_results a)[n := rs ! n]\<rparr>"
    by (auto simp: leaf_answered_def run_leaf_def Let_def)
  have "leaf_answered env dh args i f task outs (Suc n + k) (items ! k) (rs ! (Suc n + k))
      (map_of existing (i, item_id (Suc n + k)))" if "k < length items" for k
    using Cons.prems(1) that by (auto dest: spec [where x = "Suc k"])
  then have "fold (run_leaf env dh args i f task existing outs) (enumerate (Suc n) items)
      (a\<lparr>fs_results := (fs_results a)[n := rs ! n]\<rparr>) = a\<lparr>fs_results := (fs_results a)[n := rs ! n]\<rparr>\<lparr>fs_results := rs\<rparr>"
    using Cons.prems by (intro Cons.IH) (auto simp: nth_list_update less_Suc_eq)
  then show ?case by (simp add: r)
qed


lemma replay_agent:
  assumes e: "exec_agent_step env dh args prior i f task retry outs s = (Go outs', s1)"
    and ex: "prior = map_of (jn_steps (es_journal s)) i"
    and env: "we_sha256 env' = we_sha256 env"
    and rec: "rec = map_of (jn_steps (es_journal s1)) i"
  shows "exec_agent_step env' dh args rec i f task retry' outs t = (Go outs', t)"
  using e
proof (cases rule: exec_agent_cases)
  case (unresolved e)
  then show ?thesis by (simp add: fail_step_def halt_def)
next
  case (replay tx)
  then show ?thesis using ex rec env by (simp add: exec_agent_step_def agent_step_input_hash_def Let_def)
next
  case (refused tx s2)
  then show ?thesis by (simp add: suspend_step_def halt_def)
next
  case (ran tx out s2)
  then have "lo_ok out" by (cases "lo_ok out") (auto simp: fail_step_def halt_def)
  moreover obtain j where "es_journal s2 = record_step_start i (Some (agent_step_input_hash env tx f dh)) dh j"
    using attempt_started [OF ran(2)] by blast
  ultimately show ?thesis using ran rec env
    by (auto simp: exec_agent_step_def agent_step_input_hash_def Let_def finish_step_def on_journal_def
        record_step_done_def record_step_start_def put_step_def step_or_def replayable_def)
qed

lemma replay_gate:
  assumes "exec_gate_step env dh prior i reason outs s = (Go outs', s1)"
    and "prior = map_of (jn_steps (es_journal s)) i" and "rec = map_of (jn_steps (es_journal s1)) i"
  shows "exec_gate_step env' dh rec i reason outs t = (Go outs', t)"
  using assms unfolding exec_gate_step_def
  by (auto simp: Let_def replay_step_def finish_step_def fail_step_def suspend_step_def halt_def on_journal_def
      record_step_done_def record_step_start_def put_step_def step_or_def replayable_def
      split: if_splits option.splits prod.splits)

lemma replay_signal:
  assumes "exec_signal_step env dh prior i g outs s = (Go outs', s1)"
    and "prior = map_of (jn_steps (es_journal s)) i" and "rec = map_of (jn_steps (es_journal s1)) i"
  shows "exec_signal_step env' dh rec i g outs t = (Go outs', t)"
  using assms unfolding exec_signal_step_def
  by (auto simp: Let_def replay_step_def suspend_step_def halt_def split: if_splits)

lemma exec_wait_go:
  assumes e: "exec_wait_step env dh args prior i d u outs s = (Go outs', s1)"
  obtains (replay) "replayable dh prior" "outs' = AList.update i (sr_output (the prior)) outs" "s1 = s"
  | (landed) m s2 where "\<not> replayable dh prior" "mo_utc m \<le> mo_utc (we_now env (es_x s))"
      "(\<exists>r. prior = Some r \<and> sr_input r \<noteq> None) \<and> s2 = s
       \<or> s2 = on_journal (record_step_start i (Some (moment_text m)) dh) s"
      "finish_step i (PDict [(''waited_until'', PStr (moment_text m))]) None outs s2 = (Go outs', s1)"
proof (cases "replayable dh prior")
  case True
  with e replay show ?thesis by (simp add: exec_wait_step_def replay_step_def)
next
  case False
  define fixed where "fixed = (case prior of None \<Rightarrow> None
    | Some r \<Rightarrow> (case sr_input r of None \<Rightarrow> None | Some t \<Rightarrow> if t = [] then None else we_fromiso env t))"
  define tgt where "tgt = (case fixed of Some m \<Rightarrow> Inr (m, s)
    | None \<Rightarrow> bind_res (resolve_wait_target env args (we_now env (es_x s)) d u) (\<lambda>m.
        Inr (m, on_journal (record_step_start i (Some (moment_text m)) dh) s)))"
  from e False have e': "(case tgt of Inl e \<Rightarrow> (Raised e, s)
      | Inr (m, s1) \<Rightarrow>
          if mo_utc m \<le> mo_utc (we_now env (es_x s))
          then finish_step i (PDict [(''waited_until'', PStr (moment_text m))]) None outs s1
          else suspend_step i (''waiting until '' @ moment_text m) outs (s1\<lparr>es_x := we_wait env m (es_x s1)\<rparr>))
      = (Go outs', s1)"
    by (simp add: exec_wait_step_def Let_def tgt_def fixed_def)
  then obtain m s2 where t: "tgt = Inr (m, s2)" by (auto split: sum.splits)
  then have "fixed = Some m \<and> s2 = s \<or> s2 = on_journal (record_step_start i (Some (moment_text m)) dh) s"
    by (cases fixed) (auto simp: tgt_def)
  moreover have "\<exists>r. prior = Some r \<and> sr_input r \<noteq> None" if "fixed = Some m"
    using that by (auto simp: fixed_def split: option.splits)
  ultimately show ?thesis using e' t False landed [of m s2]
    by (cases "mo_utc m \<le> mo_utc (we_now env (es_x s))") (auto simp: suspend_step_def halt_def)
qed

lemma replay_wait:
  assumes e: "exec_wait_step env dh args prior i d u outs s = (Go outs', s1)"
    and ex: "prior = map_of (jn_steps (es_journal s)) i" and rec: "rec = map_of (jn_steps (es_journal s1)) i"
    and own: "of_definition dh prior"
  shows "exec_wait_step env' dh args rec i d u outs t = (Go outs', t)"
  using e
proof (cases rule: exec_wait_go)
  case replay
  with ex rec show ?thesis by (simp add: exec_wait_step_def replay_step_def)
next
  case (landed m s2)
  from landed(3) have "\<exists>r. map_of (jn_steps (es_journal s2)) i = Some r \<and> sr_def r = Some dh"
    using ex own by (auto simp: of_definition_def on_journal_def record_step_start_def put_step_def)
  then have "replayable dh rec" "outs' = AList.update i (sr_output (the rec)) outs"
    using landed(4) rec
    by (auto simp: finish_step_def on_journal_def record_step_done_def put_step_def step_or_def replayable_def)
  then show ?thesis by (simp add: exec_wait_step_def replay_step_def)
qed

lemma leaf_answered_env: "we_sha256 env' = we_sha256 env \<Longrightarrow>
  leaf_answered env' dh args i f task outs n item v rec = leaf_answered env dh args i f task outs n item v rec"
  by (simp add: leaf_answered_def leaf_input_hash_def)

lemma replay_fanout:
  assumes e: "exec_fanout_step env dh args i f src task outs s = (Go outs', s1)"
    and env: "we_sha256 env' = we_sha256 env"
    and same: "same_records i (es_journal s1) (es_journal t)"
  shows "\<exists>t'. exec_fanout_step env' dh args i f src task outs t = (Go outs', t') \<and> idle t t'"
proof -
  from e obtain items where items: "resolve_path src args outs = Inr (PList items)"
    by (auto simp: exec_fanout_step_def fail_step_def halt_def split: sum.splits pyval.splits)
  define a0 where "a0 = \<lparr>fs_results = replicate (length items) PNone, fs_failures = [], fs_exhausted = False,
    fs_state = on_journal (record_step_start i None dh) s\<rparr>"
  define a where "a = fold (run_leaf env dh args i f task (jn_leaves (es_journal s)) outs) (enumerate 0 items) a0"
  from e items have ok: "\<not> fs_exhausted a" "fs_failures a = []"
    and fin: "finish_step i (PList (fs_results a)) None outs (fs_state a) = (Go outs', s1)"
    by (auto simp: exec_fanout_step_def a_def a0_def Let_def suspend_step_def fail_step_def halt_def split: if_splits)
  note lv = run_leaves_answered [OF a_def ok(2,1)]
  have ans: "length (fs_results a) = length items
    \<and> (\<forall>m. map_of (jn_steps (es_journal (fs_state a))) m = map_of (jn_steps (es_journal (fs_state a0))) m)
    \<and> (\<forall>k < length items. leaf_answered env dh args i f task outs k (items ! k) (fs_results a ! k)
          (map_of (jn_leaves (es_journal (fs_state a))) (i, item_id k)))"
    using lv by (simp add: a0_def on_journal_def record_step_start_def put_step_def)
  define b0 where "b0 = \<lparr>fs_results = replicate (length items) PNone, fs_failures = [], fs_exhausted = False,
    fs_state = on_journal (record_step_start i None dh) t\<rparr>"
  have "fold (run_leaf env' dh args i f task (jn_leaves (es_journal t)) outs) (enumerate 0 items) b0
      = b0\<lparr>fs_results := fs_results a\<rparr>"
    using ans same fin leaf_answered_env [OF env]
    by (intro replay_leaves)
      (auto simp: b0_def same_records_def finish_step_def on_journal_def record_step_done_def put_step_def)
  then have "exec_fanout_step env' dh args i f src task outs t
      = finish_step i (PList (fs_results a)) None outs (on_journal (record_step_start i None dh) t)"
    using items by (simp add: exec_fanout_step_def b0_def Let_def)
  moreover have "map_of (jn_steps (es_journal t)) i
      = Some \<lparr>sr_status = ''done'', sr_input = None, sr_def = Some dh, sr_output = PList (fs_results a), sr_ref = None, sr_error = None\<rparr>"
    using same ans fin
    by (auto simp: same_records_def finish_step_def on_journal_def record_step_done_def put_step_def step_or_def
        a0_def record_step_start_def blank_step_def split: option.splits)
  moreover have "idle t (on_journal (record_step_done i (PList (fs_results a)) None) (on_journal (record_step_start i None dh) t))"
    if "map_of (jn_steps (es_journal t)) i = Some (blank_step ''running''\<lparr>sr_def := Some dh, sr_status := ''done'', sr_output := PList (fs_results a)\<rparr>)"
    using that
    by (simp add: idle_def on_journal_def record_step_done_def put_step_def step_or_def record_step_start_def
        blank_step_def update_conv')
  ultimately show ?thesis using fin by (simp add: finish_step_def blank_step_def)
qed

text \<open>A step that is done is passed again without an effect, whatever the environment answers by now.\<close>

lemma step_replays:
  assumes e: "exec_step env dh args ex st outs s = (Go outs', s1)"
    and ex: "map_of ex (st_id st) = map_of (jn_steps (es_journal s)) (st_id st)"
    and own: "of_definition dh (map_of ex (st_id st))"
    and env: "we_sha256 env' = we_sha256 env"
    and ex': "map_of ex' (st_id st) = map_of (jn_steps (es_journal s1)) (st_id st)"
    and same: "same_records (st_id st) (es_journal s1) (es_journal t)"
  shows "\<exists>t'. exec_step env' dh args ex' st outs t = (Go outs', t') \<and> idle t t'"
proof -
  let ?i = "st_id st"
  define c where "c = (case st_when st of None \<Rightarrow> Inr True | Some c \<Rightarrow> evaluate_condition args outs c)"
  show ?thesis
  proof (cases c)
    case (Inl err)
    with e show ?thesis by (simp add: exec_step_def Let_def c_def [symmetric])
  next
    case (Inr go)
    show ?thesis
    proof (cases go)
      case False
      with e Inr have o: "outs' = outs" "s1 = on_journal (record_step_skipped ?i dh) s"
        by (simp_all add: exec_step_def Let_def c_def [symmetric])
      have "exec_step env' dh args ex' st outs t = (Go outs, on_journal (record_step_skipped ?i dh) t)"
        using Inr False by (simp add: exec_step_def Let_def c_def [symmetric])
      moreover have "idle t (on_journal (record_step_skipped ?i dh) t)"
        using same by (auto simp: o same_records_def idle_def on_journal_def record_step_skipped_def put_step_def update_conv')
      ultimately show ?thesis by (simp add: o)
    next
      case True
      show ?thesis
      proof (cases "st_body st")
        case (AgentStep f task retry)
        with e Inr True have "exec_agent_step env dh args (map_of ex ?i) ?i f task retry outs s = (Go outs', s1)"
          by (simp add: exec_step_def Let_def c_def [symmetric])
        from replay_agent [OF this ex env ex'] have "exec_step env' dh args ex' st outs t = (Go outs', t)"
          using AgentStep Inr True by (simp add: exec_step_def Let_def c_def [symmetric])
        then show ?thesis by auto
      next
        case (FanoutStep f src task n)
        with e Inr True have "exec_fanout_step env dh args ?i f src task outs s = (Go outs', s1)"
          by (simp add: exec_step_def Let_def c_def [symmetric])
        from replay_fanout [OF this env same] FanoutStep Inr True show ?thesis
          by (simp add: exec_step_def Let_def c_def [symmetric])
      next
        case (GateStep reason)
        with e Inr True have "exec_gate_step env dh (map_of ex ?i) ?i reason outs s = (Go outs', s1)"
          by (simp add: exec_step_def Let_def c_def [symmetric])
        from replay_gate [OF this ex ex'] have "exec_step env' dh args ex' st outs t = (Go outs', t)"
          using GateStep Inr True by (simp add: exec_step_def Let_def c_def [symmetric])
        then show ?thesis by auto
      next
        case (WaitUntilStep d u)
        with e Inr True have "exec_wait_step env dh args (map_of ex ?i) ?i d u outs s = (Go outs', s1)"
          by (simp add: exec_step_def Let_def c_def [symmetric])
        from replay_wait [OF this ex ex' own] have "exec_step env' dh args ex' st outs t = (Go outs', t)"
          using WaitUntilStep Inr True by (simp add: exec_step_def Let_def c_def [symmetric])
        then show ?thesis by auto
      next
        case (WaitSignalStep g)
        with e Inr True have "exec_signal_step env dh (map_of ex ?i) ?i g outs s = (Go outs', s1)"
          by (simp add: exec_step_def Let_def c_def [symmetric])
        from replay_signal [OF this ex ex'] have "exec_step env' dh args ex' st outs t = (Go outs', t)"
          using WaitSignalStep Inr True by (simp add: exec_step_def Let_def c_def [symmetric])
        then show ?thesis by auto
      qed
    qed
  qed
qed

end
