(* ===== verification/Workflow_Resume.thy ===== *)
theory Workflow_Resume
  imports Workflow_Run
begin

text \<open>
  Passes over a journal: what one call of \<open>execute_workflow\<close> leaves behind, and what the next
  call over the same journal does with it.
\<close>

section \<open>A sequence of steps\<close>

definition spans :: "string \<Rightarrow> string set \<Rightarrow> 'x wf_state \<Rightarrow> 'x wf_state \<Rightarrow> bool" where
  "spans dh I s s' \<longleftrightarrow>
     (\<forall>k. k \<notin> I \<longrightarrow> same_records k (es_journal s) (es_journal s'))
     \<and> (\<forall>k. of_definition dh (map_of (jn_steps (es_journal s)) k) \<longrightarrow>
          of_definition dh (map_of (jn_steps (es_journal s')) k))
     \<and> (\<exists>rs. es_log s' = es_log s @ rs \<and> (\<forall>r \<in> set rs. lq_step r \<in> I))"

lemma spans_refl [simp]: "spans dh I s s" and spans_x [simp]: "spans dh I s (s\<lparr>es_x := x\<rparr>)"
  by (simp_all add: spans_def same_records_def)

lemma spans_trans: "spans dh I s t \<Longrightarrow> spans dh I t u \<Longrightarrow> spans dh I s u"
  unfolding spans_def same_records_def by fastforce

lemma spans_mono: "spans dh I s t \<Longrightarrow> I \<subseteq> J \<Longrightarrow> spans dh J s t"
  unfolding spans_def by blast

lemma touches_spans: "touches dh i s t \<Longrightarrow> i \<in> I \<Longrightarrow> spans dh I s t"
  unfolding touches_def spans_def same_records_def by (metis (no_types))

lemma same_records_sym: "same_records i j k \<Longrightarrow> same_records i k j"
  and same_records_trans: "same_records i j k \<Longrightarrow> same_records i k l \<Longrightarrow> same_records i j l"
  by (simp_all add: same_records_def)

lemma same_records_refl [simp]: "same_records i j j"
  by (simp add: same_records_def)

lemma idle_same: "idle s t \<Longrightarrow> same_records i (es_journal s) (es_journal t)"
  by (simp add: idle_def same_records_def)

lemma idle_trans: "idle s t \<Longrightarrow> idle t u \<Longrightarrow> idle s u"
  by (simp add: idle_def)

lemma exec_steps_cases:
  assumes "exec_steps env dh args ex (st # sts) outs s = (fl, s1)"
  obtains (killed) x where "we_continue env (es_x s) = (False, x)"
      and "fl = halt Killed ''kill requested'' outs" and "s1 = s\<lparr>es_x := x\<rparr>"
  | (stopped) x where "we_continue env (es_x s) = (True, x)"
      and "exec_step env dh args ex st outs (s\<lparr>es_x := x\<rparr>) = (fl, s1)" and "\<nexists>o1. fl = Go o1"
  | (passed) x o1 m where "we_continue env (es_x s) = (True, x)"
      and "exec_step env dh args ex st outs (s\<lparr>es_x := x\<rparr>) = (Go o1, m)"
      and "exec_steps env dh args ex sts o1 m = (fl, s1)"
  using assms by (auto split: prod.splits bool.splits step_flow.splits)

lemma exec_steps_append:
  "exec_steps env dh args ex (xs @ ys) outs s =
     (case exec_steps env dh args ex xs outs s of (Go o1, m) \<Rightarrow> exec_steps env dh args ex ys o1 m
      | (fl, m) \<Rightarrow> (fl, m))"
  by (induction xs arbitrary: outs s) (auto simp: halt_def split: prod.splits bool.splits step_flow.splits)

lemma exec_steps_spans:
  "exec_steps env dh args ex sts outs s = (fl, s1) \<Longrightarrow> spans dh (st_id ` set sts) s s1"
proof (induction sts arbitrary: outs s)
  case (Cons st sts)
  have here: "spans dh (st_id ` set (st # sts)) s m"
    if "exec_step env dh args ex st outs (s\<lparr>es_x := x\<rparr>) = (f, m)" for f m x
    using spans_trans [OF spans_x touches_spans [OF touches_step [OF that]]] by simp
  from Cons.prems show ?case
  proof (cases rule: exec_steps_cases)
    case (killed x)
    then show ?thesis by simp
  next
    case (stopped x)
    from here [OF stopped(2)] show ?thesis .
  next
    case (passed x o1 m)
    have "spans dh (st_id ` set (st # sts)) m s1"
      by (rule spans_mono [OF Cons.IH [OF passed(3)]]) auto
    with here [OF passed(2)] show ?thesis by (rule spans_trans)
  qed
qed simp

text \<open>Steps that were passed are passed again, with the same outputs and no effect.\<close>

lemma steps_replay:
  assumes "exec_steps env dh args ex sts outs s = (Go outs', s1)" and "distinct (map st_id sts)"
    and "\<forall>k \<in> st_id ` set sts. map_of ex k = map_of (jn_steps (es_journal s)) k"
    and "\<forall>k. of_definition dh (map_of ex k)" and "we_sha256 env' = we_sha256 env"
    and "\<forall>x. we_continue env' x = (True, x)"
    and "\<forall>k \<in> st_id ` set sts. map_of ex' k = map_of (jn_steps (es_journal s1)) k
           \<and> same_records k (es_journal s1) (es_journal t)"
  shows "\<exists>t'. exec_steps env' dh args ex' sts outs t = (Go outs', t') \<and> idle t t'"
  using assms
proof (induction sts arbitrary: outs s t)
  case (Cons st sts)
  from Cons.prems(1) obtain x o1 m
    where c: "exec_step env dh args ex st outs (s\<lparr>es_x := x\<rparr>) = (Go o1, m)"
      and rest: "exec_steps env dh args ex sts o1 m = (Go outs', s1)"
    by (cases rule: exec_steps_cases) (auto simp: halt_def)
  note own = touches_step [OF c] and later = exec_steps_spans [OF rest]
  from later Cons.prems(2) have keep: "same_records (st_id st) (es_journal m) (es_journal s1)"
    by (auto simp: spans_def)
  have "\<exists>u. exec_step env' dh args ex' st outs t = (Go o1, u) \<and> idle t u"
  proof (rule step_replays [OF c])
    show "of_definition dh (map_of ex (st_id st))" using Cons.prems(4) by simp
  qed (use Cons.prems keep in \<open>auto simp: same_records_def\<close>)
  then obtain u where u: "exec_step env' dh args ex' st outs t = (Go o1, u)" "idle t u" by blast
  have "\<exists>t'. exec_steps env' dh args ex' sts o1 u = (Go outs', t') \<and> idle u t'"
  proof (rule Cons.IH [OF rest])
    have "map_of (jn_steps (es_journal m)) k = map_of (jn_steps (es_journal s)) k" if "k \<in> st_id ` set sts" for k
    proof -
      from Cons.prems(2) have "st_id st \<notin> st_id ` set sts" by simp
      with that have "k \<noteq> st_id st" by blast
      with own show ?thesis by (simp add: touches_def)
    qed
    with Cons.prems(3) show "\<forall>k \<in> st_id ` set sts. map_of ex k = map_of (jn_steps (es_journal m)) k" by simp
    show "\<forall>k \<in> st_id ` set sts. map_of ex' k = map_of (jn_steps (es_journal s1)) k
        \<and> same_records k (es_journal s1) (es_journal u)"
      using Cons.prems(7) idle_same [OF u(2)] same_records_trans by auto
  qed (use Cons.prems in simp_all)
  with u Cons.prems(6) show ?case by (auto intro: idle_trans)
qed auto

section \<open>Passes over one journal\<close>

text \<open>
  The states a run can be in between two passes: fresh, after a pass, or after the world
  moved on. The hash function, the definition and the arguments stay.
\<close>

inductive passes ::
  "(string \<Rightarrow> string) \<Rightarrow> compiled_workflow \<Rightarrow> (string \<times> pyval) list \<Rightarrow> 'x wf_state \<Rightarrow> bool"
  for H c args where
  fresh: "passes H c args \<lparr>es_journal = \<lparr>jn_steps = [], jn_leaves = []\<rparr>, es_log = [], es_x = x\<rparr>"
| a_pass: "passes H c args s \<Longrightarrow> we_sha256 env = H \<Longrightarrow> execute_workflow env c args s = (r, s1) \<Longrightarrow> passes H c args s1"
| meanwhile: "passes H c args s \<Longrightarrow> passes H c args (s\<lparr>es_x := x\<rparr>)"

lemma execute_workflow_steps:
  assumes "execute_workflow env c args s = (r, s1)"
  obtains fl where "exec_steps env (cw_hash c) args (jn_steps (es_journal s)) (wd_steps (cw_definition c)) [] s = (fl, s1)"
    and "r = (case fl of Go outs \<Rightarrow> Inr \<lparr>ro_status = Completed, ro_reason = None, ro_outputs = outs\<rparr>
      | Halt out \<Rightarrow> Inr out | Raised e \<Rightarrow> Inl e)"
  using assms by (auto simp: execute_workflow_def split: prod.splits step_flow.splits)

lemma passes_own: "passes H c args s \<Longrightarrow> of_definition (cw_hash c) (map_of (jn_steps (es_journal s)) k)"
proof (induction rule: passes.induct)
  case (a_pass s env r s1)
  from a_pass.hyps(3) obtain fl where
    "exec_steps env (cw_hash c) args (jn_steps (es_journal s)) (wd_steps (cw_definition c)) [] s = (fl, s1)"
    by (rule execute_workflow_steps)
  from exec_steps_spans [OF this] a_pass.IH show ?case by (simp add: spans_def)
qed (simp_all add: of_definition_def)

lemma prefix_replays:
  assumes steps: "wd_steps (cw_definition c) = xs @ ys" and ids: "distinct (map st_id (xs @ ys))"
    and s: "passes (we_sha256 env) c args s"
    and first: "exec_steps env (cw_hash c) args (jn_steps (es_journal s)) xs [] s = (Go outs, m)"
    and run: "execute_workflow env c args s = (r, s1)"
    and t: "es_journal t = es_journal s1" and env': "we_sha256 env' = we_sha256 env" "\<forall>x. we_continue env' x = (True, x)"
  shows "\<exists>u. exec_steps env' (cw_hash c) args (jn_steps (es_journal t)) xs [] t = (Go outs, u) \<and> idle t u"
proof -
  from run obtain fl where
    "exec_steps env (cw_hash c) args (jn_steps (es_journal s)) (xs @ ys) [] s = (fl, s1)"
    by (rule execute_workflow_steps) (simp add: steps)
  with first have "exec_steps env (cw_hash c) args (jn_steps (es_journal s)) ys outs m = (fl, s1)"
    by (simp add: exec_steps_append)
  from exec_steps_spans [OF this] ids
  have keep: "same_records k (es_journal m) (es_journal s1)" if "k \<in> st_id ` set xs" for k
    using that by (auto simp: spans_def)
  show ?thesis
    by (rule steps_replay [OF first])
      (use ids keep passes_own [OF s] env' in \<open>auto simp: t same_records_def\<close>)
qed

section \<open>Sample runs\<close>

text \<open>An environment whose leaves repeat their task and whose state counts the calls.\<close>

definition wf_env_with :: "(string \<Rightarrow> string \<Rightarrow> nat \<Rightarrow> wf_gate_decision \<times> nat) option \<Rightarrow> nat wf_env" where
  "wf_env_with gate = \<lparr>we_sha256 = id, we_fromiso = (\<lambda>t. None),
     we_leaf = (\<lambda>q n. (\<lparr>lo_ok = True, lo_output = PStr (lq_task q), lo_ref = None, lo_error = None, lo_tokens = 1\<rparr>, Suc n)),
     we_continue = Pair True, we_reserve = None, we_settle = (\<lambda>k n. n), we_gate = gate,
     we_wait = (\<lambda>m n. n), we_signal = (\<lambda>i g n. n), we_now = (\<lambda>n. \<lparr>mo_utc = 0, mo_offset = 0\<rparr>)\<rparr>"

definition approving :: "string \<Rightarrow> string \<Rightarrow> nat \<Rightarrow> wf_gate_decision \<times> nat" where
  "approving i reason n = (\<lparr>gd_approved = True, gd_pending = False, gd_rejected = False, gd_reason = None\<rparr>, n)"

definition example_args :: "(string \<times> pyval) list" where
  "example_args = [(''a'', PInt 1), (''b'', PInt 2)]"

definition fresh_state :: "nat wf_state" where
  "fresh_state = \<lparr>es_journal = \<lparr>jn_steps = [], jn_leaves = []\<rparr>, es_log = [], es_x = 0\<rparr>"

lemma fresh_passes: "passes H c args fresh_state"
  by (simp add: fresh_state_def passes.fresh)

lemma wf_env_with_simps [simp]:
  "we_sha256 (wf_env_with g) = id" "we_continue (wf_env_with g) = Pair True"
  by (simp_all add: wf_env_with_def)

lemma example_steps: "wd_steps (cw_definition example_compiled) = compute_steps"
  using compile_workflow_Inr [OF example_compiles] by (simp add: example_definition_def)

text \<open>Without a decider the run stops at its gate; with one it completes.\<close>

lemma first_pass: "fst (execute_workflow (wf_env_with None) example_compiled example_args fresh_state)
  = Inr \<lparr>ro_status = Suspended, ro_reason = Some ''gate step 'ok' has no decider bound - suspending (fail-closed)'',
       ro_outputs = [(''compute'', PStr ''Compute 1 + 2.'')]\<rparr>"
  by code_simp

lemma second_pass: "fst (execute_workflow (wf_env_with (Some approving)) example_compiled example_args fresh_state)
  = Inr \<lparr>ro_status = Completed, ro_reason = None,
       ro_outputs = [(''compute'', PStr ''Compute 1 + 2.''),
         (''ok'', PDict [(''approved'', PBool True), (''reason'', PStr ''approve'')]),
         (''publish'', PStr ''Publish Compute 1 + 2.'')]\<rparr>"
  by code_simp

lemma first_step: "fst (exec_steps (wf_env_with None) (cw_hash example_compiled) example_args
    (jn_steps (es_journal fresh_state)) (take 1 compute_steps) [] fresh_state)
  = Go [(''compute'', PStr ''Compute 1 + 2.'')]"
  by code_simp

section \<open>Outcome and journal\<close>

definition step_settled :: "journal \<Rightarrow> string \<Rightarrow> bool" where
  "step_settled j i \<longleftrightarrow> (case map_of (jn_steps j) i of None \<Rightarrow> False
     | Some r \<Rightarrow> sr_status r = ''done'' \<or> sr_status r = ''skipped'')"

text \<open>The record a step that stopped the run has.\<close>

definition stopped_with :: "string \<Rightarrow> string option \<Rightarrow> journal \<Rightarrow> string \<Rightarrow> bool" where
  "stopped_with status reason j i \<longleftrightarrow> (case map_of (jn_steps j) i of None \<Rightarrow> False
     | Some r \<Rightarrow> sr_status r = status \<and> sr_error r = reason)"

definition flow_recorded :: "step_flow \<Rightarrow> journal \<Rightarrow> string \<Rightarrow> bool" where
  "flow_recorded fl j i \<longleftrightarrow> (case fl of
       Go outs \<Rightarrow> step_settled j i
     | Halt out \<Rightarrow> (case ro_status out of
           Failed \<Rightarrow> stopped_with ''failed'' (ro_reason out) j i
         | Suspended \<Rightarrow> stopped_with ''suspended'' (ro_reason out) j i
         | Completed \<Rightarrow> False | Killed \<Rightarrow> False)
     | Raised e \<Rightarrow> True)"

lemma recorded_ends [simp]:
  "fail_step i e outs s = (fl, s') \<Longrightarrow> flow_recorded fl (es_journal s') i"
  "suspend_step i e outs s = (fl, s') \<Longrightarrow> flow_recorded fl (es_journal s') i"
  "finish_step i v r outs s = (fl, s') \<Longrightarrow> flow_recorded fl (es_journal s') i"
  by (auto simp: fail_step_def suspend_step_def finish_step_def halt_def flow_recorded_def stopped_with_def
      step_settled_def on_journal_def record_step_failed_def record_step_suspended_def record_step_done_def put_step_def)

lemma recorded_replay:
  "replayable dh (map_of (jn_steps (es_journal s)) i) \<Longrightarrow> flow_recorded (Go outs) (es_journal s) i"
  by (auto simp: flow_recorded_def step_settled_def replayable_def split: option.splits)

lemma recorded_agent:
  assumes "exec_agent_step env dh args prior i f task retry outs s = (fl, s')"
    and "prior = map_of (jn_steps (es_journal s)) i"
  shows "flow_recorded fl (es_journal s') i"
  using assms(1)
proof (cases rule: exec_agent_cases)
  case (replay tx)
  with assms(2) show ?thesis by (simp add: recorded_replay)
next
  case (ran tx out s1)
  from ran(3) show ?thesis by (cases "lo_ok out") auto
qed simp_all

lemma recorded_fanout:
  "exec_fanout_step env dh args i f src task outs s = (fl, s') \<Longrightarrow> flow_recorded fl (es_journal s') i"
  unfolding exec_fanout_step_def Let_def
  by (auto split: sum.splits pyval.splits if_splits)

lemma recorded_gate:
  "exec_gate_step env dh (map_of (jn_steps (es_journal s)) i) i reason outs s = (fl, s') \<Longrightarrow> flow_recorded fl (es_journal s') i"
  unfolding exec_gate_step_def Let_def replay_step_def
  by (auto simp: recorded_replay split: option.splits prod.splits if_splits)

lemma recorded_wait:
  "exec_wait_step env dh args (map_of (jn_steps (es_journal s)) i) i d u outs s = (fl, s') \<Longrightarrow> flow_recorded fl (es_journal s') i"
  unfolding exec_wait_step_def Let_def replay_step_def
  by (auto simp: recorded_replay flow_recorded_def [of "Raised e" for e] split: sum.splits prod.splits if_splits)

lemma recorded_signal:
  "exec_signal_step env dh (map_of (jn_steps (es_journal s)) i) i g outs s = (fl, s') \<Longrightarrow> flow_recorded fl (es_journal s') i"
  unfolding exec_signal_step_def Let_def replay_step_def
  by (auto simp: recorded_replay split: if_splits)

lemma recorded_step:
  assumes e: "exec_step env dh args ex st outs s = (fl, s')"
    and ex: "map_of ex (st_id st) = map_of (jn_steps (es_journal s)) (st_id st)"
  shows "flow_recorded fl (es_journal s') (st_id st)"
proof -
  have skip: "flow_recorded (Go outs) (es_journal (on_journal (record_step_skipped (st_id st) dh) s)) (st_id st)"
    by (simp add: flow_recorded_def step_settled_def on_journal_def record_step_skipped_def put_step_def
        blank_step_def)
  show ?thesis
    using e unfolding exec_step_def Let_def ex
    by (auto simp: skip flow_recorded_def [of "Raised e" for e] split: sum.splits bool.splits step_body.splits
        intro: recorded_agent recorded_fanout recorded_gate recorded_wait recorded_signal)
qed

lemma step_settled_same: "same_records i j j' \<Longrightarrow> step_settled j' i = step_settled j i"
  by (simp add: step_settled_def same_records_def)

lemma recorded_steps:
  assumes "exec_steps env dh args ex sts outs s = (fl, s1)" and "distinct (map st_id sts)"
    and "\<forall>k \<in> st_id ` set sts. map_of ex k = map_of (jn_steps (es_journal s)) k"
  shows "(\<exists>outs'. fl = Go outs') \<and> (\<forall>st \<in> set sts. step_settled (es_journal s1) (st_id st))
    \<or> (\<exists>xs st ys. sts = xs @ st # ys \<and> (\<forall>x \<in> set xs. step_settled (es_journal s1) (st_id x))
         \<and> (\<nexists>outs'. fl = Go outs') \<and> (flow_recorded fl (es_journal s1) (st_id st) \<or> (\<exists>o1. fl = halt Killed ''kill requested'' o1)))"
    (is "?all sts \<or> ?part sts")
  using assms
proof (induction sts arbitrary: outs s)
  case (Cons st sts)
  have stop: "?part (st # sts)" if "\<nexists>outs'. fl = Go outs'"
      "flow_recorded fl (es_journal s1) (st_id st) \<or> (\<exists>o1. fl = halt Killed ''kill requested'' o1)"
    using that by (intro exI [of _ "[]"] exI [of _ st] exI [of _ sts]) simp
  from Cons.prems(1) show ?case
  proof (cases rule: exec_steps_cases)
    case (killed x)
    with stop show ?thesis by (simp add: halt_def)
  next
    case (stopped x)
    from recorded_step [OF stopped(2)] Cons.prems(3) stop stopped(3) show ?thesis by simp
  next
    case (passed x o1 m)
    note later = exec_steps_spans [OF passed(3)] and here = touches_step [OF passed(2)]
    from Cons.prems(2) have new: "st_id st \<notin> st_id ` set sts" by simp
    have "flow_recorded (Go o1) (es_journal m) (st_id st)"
      using recorded_step [OF passed(2)] Cons.prems(3) by simp
    moreover from later new have "same_records (st_id st) (es_journal m) (es_journal s1)" by (simp add: spans_def)
    ultimately have me: "step_settled (es_journal s1) (st_id st)" by (simp add: flow_recorded_def step_settled_same)
    have "?all sts \<or> ?part sts"
    proof (rule Cons.IH [OF passed(3)])
      have "k \<noteq> st_id st" if "k \<in> st_id ` set sts" for k using that new by blast
      with here Cons.prems(3) show "\<forall>k \<in> st_id ` set sts. map_of ex k = map_of (jn_steps (es_journal m)) k"
        by (simp add: touches_def)
    qed (use Cons.prems in simp)
    then show ?thesis
    proof
      assume "?all sts"
      with me show ?thesis by simp
    next
      assume "?part sts"
      then obtain xs y ys where part: "sts = xs @ y # ys" "\<forall>x \<in> set xs. step_settled (es_journal s1) (st_id x)"
        "\<nexists>outs'. fl = Go outs'" "flow_recorded fl (es_journal s1) (st_id y) \<or> (\<exists>o1. fl = halt Killed ''kill requested'' o1)" by blast
      with me have "?part (st # sts)"
        by (intro exI [of _ "st # xs"] exI [of _ y] exI [of _ ys]) simp
      then show ?thesis ..
    qed
  qed
qed auto

text \<open>
  The outcome of a pass agrees with the journal it leaves: a completed run has a
  done or skipped record for every step; a failed or suspended run stops at one step, whose
  record has that status and that reason, and every step before it is done or skipped; a
  killed run stops before a step, after steps that are all done or skipped.
\<close>

theorem outcome_agrees_with_journal:
  assumes "compile_workflow sha cd d known = Inr c" and "execute_workflow env c args s = (Inr out, s1)"
  shows "\<exists>xs ys. wd_steps (cw_definition c) = xs @ ys \<and> (\<forall>x \<in> set xs. step_settled (es_journal s1) (st_id x))
    \<and> (case ro_status out of
         Completed \<Rightarrow> ys = []
       | Failed \<Rightarrow> ys \<noteq> [] \<and> stopped_with ''failed'' (ro_reason out) (es_journal s1) (st_id (hd ys))
       | Suspended \<Rightarrow> ys \<noteq> [] \<and> stopped_with ''suspended'' (ro_reason out) (es_journal s1) (st_id (hd ys))
       | Killed \<Rightarrow> ys \<noteq> [] \<and> ro_reason out = Some ''kill requested'')"
proof -
  from assms(2) obtain fl where run: "exec_steps env (cw_hash c) args (jn_steps (es_journal s)) (wd_steps (cw_definition c)) [] s = (fl, s1)"
    and out: "Inr out = (case fl of Go outs \<Rightarrow> Inr \<lparr>ro_status = Completed, ro_reason = None, ro_outputs = outs\<rparr>
      | Halt out \<Rightarrow> Inr out | Raised e \<Rightarrow> Inl e)" by (rule execute_workflow_steps)
  have "distinct (map st_id (wd_steps (cw_definition c)))"
    using compile_workflow_Inr [OF assms(1)] parsed_steps by blast
  from recorded_steps [OF run this ballI [OF refl]] show ?thesis
  proof (elim disjE)
    assume "(\<exists>outs'. fl = Go outs') \<and> (\<forall>st \<in> set (wd_steps (cw_definition c)). step_settled (es_journal s1) (st_id st))"
    with out show ?thesis by (intro exI [of _ "wd_steps (cw_definition c)"] exI [of _ "[]"]) auto
  next
    assume "\<exists>xs st ys. wd_steps (cw_definition c) = xs @ st # ys \<and> (\<forall>x \<in> set xs. step_settled (es_journal s1) (st_id x))
         \<and> (\<nexists>outs'. fl = Go outs') \<and> (flow_recorded fl (es_journal s1) (st_id st) \<or> (\<exists>o1. fl = halt Killed ''kill requested'' o1))"
    then obtain xs st ys where part: "wd_steps (cw_definition c) = xs @ st # ys" "\<forall>x \<in> set xs. step_settled (es_journal s1) (st_id x)"
      "flow_recorded fl (es_journal s1) (st_id st) \<or> (\<exists>o1. fl = halt Killed ''kill requested'' o1)" "\<nexists>outs'. fl = Go outs'" by blast
    from out part(4) have "fl = Halt out" by (cases fl) auto
    with part show ?thesis
      by (intro exI [of _ xs] exI [of _ "st # ys"]) (auto simp: flow_recorded_def halt_def split: run_status.splits)
  qed
qed

theorem outcome_agrees_with_journal_witness:
  "\<exists>i. stopped_with ''suspended'' (Some ''gate step 'ok' has no decider bound - suspending (fail-closed)'')
     (es_journal (snd (execute_workflow (wf_env_with None) example_compiled example_args fresh_state))) i"
proof -
  let ?run = "execute_workflow (wf_env_with None) example_compiled example_args fresh_state"
  have "?run = (Inr \<lparr>ro_status = Suspended, ro_reason = Some ''gate step 'ok' has no decider bound - suspending (fail-closed)'',
       ro_outputs = [(''compute'', PStr ''Compute 1 + 2.'')]\<rparr>, snd ?run)"
    using first_pass by (metis prod.collapse)
  from outcome_agrees_with_journal [OF example_compiles this] show ?thesis by auto
qed

section \<open>Resuming\<close>

text \<open>
  Claim C6. A pass over the journal of an earlier pass repeats nothing that is done: once the
  first steps of a compiled workflow were passed, no later pass calls the leaf executor for
  one of them, whatever the executor, the quota, the gates and the clock answer by then.
\<close>

theorem resume_repeats_nothing:
  assumes "compile_workflow sha cd d known = Inr c" and "wd_steps (cw_definition c) = xs @ ys"
    and "passes (we_sha256 env) c args s"
    and "exec_steps env (cw_hash c) args (jn_steps (es_journal s)) xs [] s = (Go outs, m)"
    and "execute_workflow env c args s = (r, s1)"
    and "es_journal t = es_journal s1" and "we_sha256 env' = we_sha256 env" and "\<forall>x. we_continue env' x = (True, x)"
    and "execute_workflow env' c args t = (r', t')"
  shows "\<exists>rs. es_log t' = es_log t @ rs \<and> (\<forall>q \<in> set rs. lq_step q \<in> st_id ` set ys)"
proof -
  have "distinct (map st_id (xs @ ys))"
    using compile_workflow_Inr [OF assms(1)] parsed_steps assms(2) by metis
  from prefix_replays [OF assms(2) this assms(3-8)] obtain u where
    u: "exec_steps env' (cw_hash c) args (jn_steps (es_journal t)) xs [] t = (Go outs, u)" "idle t u" by blast
  from assms(9) obtain fl where
    "exec_steps env' (cw_hash c) args (jn_steps (es_journal t)) (xs @ ys) [] t = (fl, t')"
    by (rule execute_workflow_steps) (simp add: assms(2))
  with u have "exec_steps env' (cw_hash c) args (jn_steps (es_journal t)) ys outs u = (fl, t')"
    by (simp add: exec_steps_append)
  from exec_steps_spans [OF this] u(2) show ?thesis by (simp add: spans_def idle_def)
qed

theorem resume_repeats_nothing_witness:
  "let s1 = snd (execute_workflow (wf_env_with None) example_compiled example_args fresh_state);
       t' = snd (execute_workflow (wf_env_with (Some approving)) example_compiled example_args s1)
   in \<exists>rs. es_log t' = es_log s1 @ rs \<and> (\<forall>q \<in> set rs. lq_step q \<in> {''ok'', ''publish''})"
proof -
  let ?run = "execute_workflow (wf_env_with None) example_compiled example_args fresh_state"
  let ?first = "exec_steps (wf_env_with None) (cw_hash example_compiled) example_args
    (jn_steps (es_journal fresh_state)) (take 1 compute_steps) [] fresh_state"
  let ?again = "execute_workflow (wf_env_with (Some approving)) example_compiled example_args (snd ?run)"
  have steps: "wd_steps (cw_definition example_compiled) = take 1 compute_steps @ drop 1 compute_steps"
    by (simp add: example_steps)
  have first: "?first = (Go [(''compute'', PStr ''Compute 1 + 2.'')], snd ?first)"
    using first_step by (metis prod.collapse)
  have "\<exists>rs. es_log (snd ?again) = es_log (snd ?run) @ rs \<and> (\<forall>q \<in> set rs. lq_step q \<in> st_id ` set (drop 1 compute_steps))"
    by (rule resume_repeats_nothing [OF example_compiles steps fresh_passes first, where r = "fst ?run" and r' = "fst ?again"])
      simp_all
  then show ?thesis by (simp add: Let_def compute_steps_def leaf_step_def gate_step_def)
qed

text \<open>
  Running a completed workflow again over its own journal gives the same outputs,
  calls no leaf, no quota and no gate, and leaves every record as it is.
\<close>

theorem completed_run_is_stable:
  assumes "compile_workflow sha cd d known = Inr c" and "passes (we_sha256 env) c args s"
    and "execute_workflow env c args s = (Inr out, s1)" and "ro_status out = Completed"
    and "es_journal t = es_journal s1" and "we_sha256 env' = we_sha256 env" and "\<forall>x. we_continue env' x = (True, x)"
  shows "\<exists>t'. execute_workflow env' c args t = (Inr out, t') \<and> idle t t'"
proof -
  have ids: "distinct (map st_id (wd_steps (cw_definition c) @ []))"
    using compile_workflow_Inr [OF assms(1)] parsed_steps by fastforce
  from assms(3) obtain fl where run: "exec_steps env (cw_hash c) args (jn_steps (es_journal s)) (wd_steps (cw_definition c)) [] s = (fl, s1)"
    and out: "Inr out = (case fl of Go outs \<Rightarrow> Inr \<lparr>ro_status = Completed, ro_reason = None, ro_outputs = outs\<rparr>
      | Halt out \<Rightarrow> Inr out | Raised e \<Rightarrow> Inl e)" by (rule execute_workflow_steps)
  have "\<exists>outs. fl = Go outs"
  proof (rule ccontr)
    assume stop: "\<nexists>outs. fl = Go outs"
    with out have fl: "fl = Halt out" by (cases fl) auto
    from recorded_steps [OF run _ ballI [OF refl]] ids stop obtain i where
      "flow_recorded fl (es_journal s1) i \<or> (\<exists>o1. fl = halt Killed ''kill requested'' o1)" by auto
    with fl assms(4) show False by (auto simp: flow_recorded_def halt_def)
  qed
  then obtain outs where fl: "fl = Go outs" ..
  from prefix_replays [OF _ ids assms(2) run [unfolded fl] assms(3,5-7)] obtain u where
    "exec_steps env' (cw_hash c) args (jn_steps (es_journal t)) (wd_steps (cw_definition c)) [] t = (Go outs, u)" "idle t u"
    by auto
  with out fl show ?thesis by (simp add: execute_workflow_def)
qed

theorem completed_run_is_stable_witness:
  "let s1 = snd (execute_workflow (wf_env_with (Some approving)) example_compiled example_args fresh_state)
   in \<exists>t'. execute_workflow (wf_env_with None) example_compiled example_args s1
        = (fst (execute_workflow (wf_env_with (Some approving)) example_compiled example_args fresh_state), t') \<and> idle s1 t'"
proof -
  let ?run = "execute_workflow (wf_env_with (Some approving)) example_compiled example_args fresh_state"
  obtain out where out: "fst ?run = Inr out" "ro_status out = Completed" using second_pass by simp
  then have "?run = (Inr out, snd ?run)" by (metis prod.collapse)
  from completed_run_is_stable [OF example_compiles fresh_passes this out(2) refl, where env' = "wf_env_with None"] out(1)
  show ?thesis by (simp add: Let_def)
qed

end
