(* ===== verification/Workflow_Safety.thy ===== *)
theory Workflow_Safety
  imports Workflow_Resume
begin

text \<open>
  Limits and gates of a pass: how many leaves it may call and what admission planned, which
  gate stood before an external effect, when a wait ends, and what the quota pays.
\<close>

section \<open>Counting leaf calls\<close>

definition calls :: "'x wf_state \<Rightarrow> nat" where
  "calls s = length (es_log s)"

lemma calls_x [simp]: "calls (s\<lparr>es_x := x\<rparr>) = calls s" and calls_journal [simp]: "calls (on_journal f s) = calls s"
  by (simp_all add: calls_def on_journal_def)

lemma calls_ends [simp]:
  "fail_step i e outs s = (fl, s') \<Longrightarrow> calls s' = calls s"
  "suspend_step i e outs s = (fl, s') \<Longrightarrow> calls s' = calls s"
  "finish_step i v r outs s = (fl, s') \<Longrightarrow> calls s' = calls s"
  by (auto simp: fail_step_def suspend_step_def finish_step_def)

lemma call_leaf_calls: "call_leaf env start req s = (out, s') \<Longrightarrow> calls s' \<le> Suc (calls s)"
  by (auto simp: call_leaf_def calls_def split: prod.splits bool.splits)

lemma attempt_leaf_calls: "attempt_leaf env start req n s = (out, s') \<Longrightarrow> calls s' \<le> calls s + Suc n"
proof (induction n arbitrary: s)
  case 0
  then show ?case by (simp add: call_leaf_calls)
next
  case (Suc n)
  obtain o1 s1 where c: "call_leaf env start req s = (o1, s1)" by force
  from call_leaf_calls [OF c] Suc.prems c Suc.IH [of s1] show ?case
    by (fastforce split: option.splits if_splits)
qed

lemma agent_calls:
  assumes "exec_agent_step env dh args prior i f task retry outs s = (fl, s')"
  shows "calls s' \<le> calls s + Suc (leaf_retries retry)"
  using assms
proof (cases rule: exec_agent_cases)
  case (refused tx s1)
  with attempt_leaf_calls [OF refused(2)] show ?thesis by simp
next
  case (ran tx out s1)
  from ran(3) have "calls s' = calls s1" by (cases "lo_ok out") auto
  with attempt_leaf_calls [OF ran(2)] show ?thesis by simp
qed simp_all

lemma run_leaf_calls: "calls (fs_state (run_leaf env dh args i f task ex outs ni a)) \<le> Suc (calls (fs_state a))"
  unfolding run_leaf_def Let_def
  by (auto simp: fail_leaf_def split: prod.splits sum.splits option.splits dest: call_leaf_calls)

lemma run_leaves_calls:
  "calls (fs_state (fold (run_leaf env dh args i f task ex outs) xs a)) \<le> calls (fs_state a) + length xs"
proof (induction xs arbitrary: a)
  case (Cons x xs)
  from Cons.IH [of "run_leaf env dh args i f task ex outs x a"] run_leaf_calls [of env dh args i f task ex outs x a]
  show ?case by simp
qed simp

lemma fanout_calls:
  assumes "exec_fanout_step env dh args i f src task outs s = (fl, s')"
  shows "calls s' \<le> calls s + (case resolve_path src args outs of Inr (PList items) \<Rightarrow> length items | _ \<Rightarrow> 0)"
proof (cases "\<exists>items. resolve_path src args outs = Inr (PList items)")
  case True
  then obtain items where items: "resolve_path src args outs = Inr (PList items)" ..
  define a where "a = fold (run_leaf env dh args i f task (jn_leaves (es_journal s)) outs) (enumerate 0 items)
    \<lparr>fs_results = replicate (length items) PNone, fs_failures = [], fs_exhausted = False,
     fs_state = on_journal (record_step_start i None dh) s\<rparr>"
  have "calls (fs_state a) \<le> calls s + length items"
    unfolding a_def by (rule order_trans [OF run_leaves_calls]) simp
  moreover from assms items have "calls s' = calls (fs_state a)"
    by (auto simp: exec_fanout_step_def a_def [symmetric] Let_def split: if_splits)
  ultimately show ?thesis using items by simp
next
  case False
  with assms show ?thesis by (auto simp: exec_fanout_step_def split: sum.splits pyval.splits)
qed

lemma other_calls:
  "exec_gate_step env dh prior i reason outs s = (fl, s') \<Longrightarrow> calls s' = calls s"
  "exec_wait_step env dh args prior i d u outs s = (fl, s') \<Longrightarrow> calls s' = calls s"
  "exec_signal_step env dh prior i g outs s = (fl, s') \<Longrightarrow> calls s' = calls s"
  unfolding exec_gate_step_def exec_wait_step_def exec_signal_step_def Let_def replay_step_def
  by (auto split: if_splits option.splits sum.splits prod.splits)

lemma walk_path_dict: "walk_path ref v ps = Inr w \<longleftrightarrow> walk_dict v ps = Some w"
  by (induction ps arbitrary: v) (auto split: pyval.splits)

lemma args_root: "take 5 i = ''args.'' \<Longrightarrow> hd (py_split_on (CHR ''.'') i) = ''args''"
proof -
  assume "take 5 i = ''args.''"
  then have "i = ''args.'' @ drop 5 i" by (metis append_take_drop_id)
  then obtain r where "i = ''args.'' @ r" by blast
  then show ?thesis by simp
qed

lemma resolve_args_agree:
  "take 5 i = ''args.'' \<Longrightarrow> resolve_path i args outs = Inr v \<longleftrightarrow> resolve_args_path i args = Inr v"
  using args_root [of i] walk_path_dict
  by (auto simp: resolve_path_def resolve_args_path_def Let_def split: option.splits)

definition step_retries :: "wf_step \<Rightarrow> int" where
  "step_retries st = (case st_body st of AgentStep f t r \<Rightarrow> int (leaf_retries r) | _ \<Rightarrow> 0)"

lemma width_nonneg: "0 \<le> fanout_width args st + step_retries st"
  by (simp add: fanout_width_def step_retries_def split: step_body.split sum.split pyval.split)

lemma step_calls:
  assumes e: "exec_step env dh args ex st outs s = (fl, s')" and ok: "step_ok st"
  shows "int (calls s') \<le> int (calls s) + (fanout_width args st + step_retries st)"
proof (cases "case st_when st of None \<Rightarrow> Inr True | Some c \<Rightarrow> evaluate_condition args outs c")
  case (Inl err)
  with e width_nonneg [of args st] show ?thesis by (simp add: exec_step_def Let_def)
next
  case (Inr go)
  show ?thesis
  proof (cases go)
    case False
    with e Inr width_nonneg [of args st] show ?thesis by (auto simp: exec_step_def Let_def)
  next
    case True
    note here = e [unfolded exec_step_def Let_def Inr] True
    show ?thesis
    proof (cases "st_body st")
      case (AgentStep f task retry)
      with here have "calls s' \<le> calls s + Suc (leaf_retries retry)" by (auto dest: agent_calls)
      with AgentStep show ?thesis by (simp add: fanout_width_def step_retries_def)
    next
      case (FanoutStep f src task n)
      with ok have "take 5 src = ''args.''" by (simp add: step_ok_def)
      note src = resolve_args_agree [OF this]
      from FanoutStep here have "calls s' \<le> calls s + (case resolve_path src args outs of Inr (PList items) \<Rightarrow> length items | _ \<Rightarrow> 0)"
        by (simp add: fanout_calls)
      moreover have "(case resolve_path src args outs of Inr (PList items) \<Rightarrow> length items | _ \<Rightarrow> 0)
          = (case resolve_args_path src args of Inr (PList items) \<Rightarrow> length items | _ \<Rightarrow> 0)"
      proof (cases "resolve_path src args outs")
        case (Inl err)
        then show ?thesis using src [of args outs] by (cases "resolve_args_path src args") auto
      next
        case (Inr v)
        with src [of args outs v] show ?thesis by simp
      qed
      moreover have "fanout_width args st = int (case resolve_args_path src args of Inr (PList items) \<Rightarrow> length items | _ \<Rightarrow> 0)"
        using FanoutStep by (simp add: fanout_width_def split: sum.split pyval.split)
      ultimately show ?thesis using FanoutStep by (simp add: step_retries_def)
    qed (use here in \<open>simp_all add: other_calls fanout_width_def step_retries_def\<close>)
  qed
qed

lemma steps_calls:
  "exec_steps env dh args ex sts outs s = (fl, s') \<Longrightarrow> \<forall>st \<in> set sts. step_ok st \<Longrightarrow>
     int (calls s') \<le> int (calls s) + (\<Sum>st \<leftarrow> sts. fanout_width args st + step_retries st)"
proof (induction sts arbitrary: outs s)
  case (Cons st sts)
  have rest: "0 \<le> (\<Sum>st \<leftarrow> sts. fanout_width args st + step_retries st)"
    by (intro sum_list_nonneg) (auto simp: width_nonneg)
  from Cons.prems(1) show ?case
  proof (cases rule: exec_steps_cases)
    case (killed x)
    with rest width_nonneg [of args st] show ?thesis by simp
  next
    case (stopped x)
    with step_calls [OF stopped(2)] Cons.prems(2) rest show ?thesis by simp
  next
    case (passed x o1 m)
    from Cons.IH [OF passed(3)] step_calls [OF passed(2)] Cons.prems(2) show ?thesis by simp
  qed
qed simp

lemma sum_list_zeros: "\<forall>x \<in> set xs. f x = (0 :: int) \<Longrightarrow> sum_list (map f xs) = 0"
  by (induction xs) simp_all

text \<open>
  One pass over an admitted run calls the leaf executor at most as often as was
  planned, plus the retries its agent steps declare; without retries it stays inside the limit
  on leaf calls.
\<close>

theorem leaf_calls_stay_planned:
  assumes "compile_workflow sha cd d known = Inr c" and "admit_workflow fromiso now c raw limits allowed = Inr r"
    and "execute_workflow env c (normalize_workflow_args c raw) s = (res, s')"
  shows "\<exists>rs. es_log s' = es_log s @ rs
    \<and> int (length rs) \<le> planned_leaf_calls r + sum_list (map step_retries (wd_steps (cw_definition c)))
    \<and> ((\<forall>st \<in> set (wd_steps (cw_definition c)). step_retry st = None) \<longrightarrow> int (length rs) \<le> max_leaf_calls limits)"
proof -
  let ?args = "normalize_workflow_args c raw" and ?steps = "wd_steps (cw_definition c)"
  from assms(3) obtain fl where run: "exec_steps env (cw_hash c) ?args (jn_steps (es_journal s)) ?steps [] s = (fl, s')"
    by (rule execute_workflow_steps)
  from exec_steps_spans [OF run] obtain rs where rs: "es_log s' = es_log s @ rs" by (auto simp: spans_def)
  from assms(2) obtain l w where l: "fold_res (admit_step fromiso now limits ?args) (0, 0) ?steps = Inr (l, w)"
    and lim: "l \<le> max_leaf_calls limits" "planned_leaf_calls r = l"
    unfolding admit_workflow_def Let_def by auto
  have "\<forall>st \<in> set ?steps. step_ok st" using compile_workflow_Inr [OF assms(1)] parsed_steps by blast
  from steps_calls [OF run this] rs admit_steps_Inr [OF l] lim(2)
  have b: "int (length rs) \<le> planned_leaf_calls r + sum_list (map step_retries ?steps)"
    by (simp add: calls_def sum_list_addf)
  moreover have "sum_list (map step_retries ?steps) = 0" if "\<forall>st \<in> set ?steps. step_retry st = None"
  proof -
    from that have "\<forall>st \<in> set ?steps. step_retries st = 0"
      by (auto simp: step_retries_def step_retry_def leaf_retries_def split: step_body.splits)
    then show ?thesis by (rule sum_list_zeros)
  qed
  ultimately show ?thesis using rs lim by auto
qed

section \<open>Gates\<close>

text \<open>The decider's answer, now or in the record of an earlier pass.\<close>

definition gate_approved :: "'x wf_env \<Rightarrow> string \<Rightarrow> journal \<Rightarrow> wf_step \<Rightarrow> bool" where
  "gate_approved env dh j g \<longleftrightarrow> replayable dh (map_of (jn_steps j) (st_id g))
     \<or> (\<exists>decide x. we_gate env = Some decide \<and> gd_approved (fst (decide (st_id g) (gt_reason (st_body g)) x)))"

lemma gate_go:
  assumes "exec_step env dh args ex g outs s = (Go o1, s')" and "is_gate g" and "st_when g = None"
    and "map_of ex (st_id g) = map_of (jn_steps j) (st_id g)"
  shows "gate_approved env dh j g"
proof -
  from assms(2) obtain reason where g: "st_body g = GateStep reason"
    by (auto simp: is_gate_def split: step_body.splits)
  with assms(1,3) have "exec_gate_step env dh (map_of ex (st_id g)) (st_id g) reason outs s = (Go o1, s')"
    by (simp add: exec_step_def Let_def)
  with g assms(4) show ?thesis
    unfolding exec_gate_step_def Let_def gate_approved_def
    by (auto simp: suspend_step_def fail_step_def halt_def split: if_splits option.splits prod.splits)
      (metis fst_conv)
qed

lemma passed_gates:
  "exec_steps env dh args ex sts outs s = (Go o1, s') \<Longrightarrow> g \<in> set sts \<Longrightarrow>
     \<exists>outs1 t o2 t'. exec_step env dh args ex g outs1 t = (Go o2, t')"
proof (induction sts arbitrary: outs s)
  case (Cons st sts)
  from Cons.prems(1) show ?case
  proof (cases rule: exec_steps_cases)
    case (passed x o2 m)
    with Cons show ?thesis by auto
  qed (auto simp: halt_def)
qed simp

text \<open>
  Claim C11. In every pass over a compiled workflow a leaf call for a step with external or
  irreversible effects comes after a gate step, all steps before it were passed, and each
  gate among them without a condition of its own was approved by the decider, in this pass or
  in an earlier one of the same definition.
\<close>

theorem external_effects_wait_for_gates:
  assumes "compile_workflow sha cd d known = Inr c" and "wd_steps (cw_definition c) = xs @ st # ys" and "needs_gate st"
    and "execute_workflow env c args s = (r, s')" and "es_log s' = es_log s @ rs" and "q \<in> set rs" and "lq_step q = st_id st"
  shows "(\<exists>g \<in> set xs. is_gate g)
    \<and> (\<exists>outs m. exec_steps env (cw_hash c) args (jn_steps (es_journal s)) xs [] s = (Go outs, m))
    \<and> (\<forall>g \<in> set xs. is_gate g \<longrightarrow> st_when g = None \<longrightarrow> gate_approved env (cw_hash c) (es_journal s) g)"
proof -
  have gate: "\<exists>g \<in> set xs. is_gate g"
    using compile_workflow_Inr [OF assms(1)] assms(2,3) compiled_step [OF assms(1)]
    by (fastforce simp: compile_step_def Let_def)
  have ids: "distinct (map st_id (xs @ st # ys))"
    using compile_workflow_Inr [OF assms(1)] parsed_steps assms(2) by metis
  from assms(4) obtain fl where run: "exec_steps env (cw_hash c) args (jn_steps (es_journal s)) (xs @ st # ys) [] s = (fl, s')"
    by (rule execute_workflow_steps) (simp add: assms(2))
  obtain f1 m where pre: "exec_steps env (cw_hash c) args (jn_steps (es_journal s)) xs [] s = (f1, m)" by force
  have "\<exists>outs. f1 = Go outs"
  proof (rule ccontr)
    assume "\<nexists>outs. f1 = Go outs"
    with run pre have "s' = m" by (cases f1) (auto simp: exec_steps_append)
    with exec_steps_spans [OF pre] assms(5) have "\<forall>q \<in> set rs. lq_step q \<in> st_id ` set xs" by (auto simp: spans_def)
    with assms(6,7) have "st_id st \<in> st_id ` set xs" by metis
    with ids show False by auto
  qed
  then obtain outs where go: "f1 = Go outs" ..
  have "gate_approved env (cw_hash c) (es_journal s) g" if "g \<in> set xs" "is_gate g" "st_when g = None" for g
    using passed_gates [OF pre [unfolded go] that(1)] gate_go [OF _ that(2,3) refl] by blast
  with gate pre go show ?thesis by blast
qed

theorem external_effects_wait_for_gates_witness:
  "gate_approved (wf_env_with (Some approving)) (cw_hash example_compiled) (es_journal fresh_state) (compute_steps ! 1)"
proof -
  let ?run = "execute_workflow (wf_env_with (Some approving)) example_compiled example_args fresh_state"
  have log: "es_log (snd ?run) = [
      \<lparr>lq_step = ''compute'', lq_leaf = example_leaf, lq_task = ''Compute 1 + 2.'', lq_id = None\<rparr>,
      \<lparr>lq_step = ''publish'', lq_leaf = example_leaf, lq_task = ''Publish Compute 1 + 2.'', lq_id = None\<rparr>]" (is "_ = ?rs")
    by code_simp
  have steps: "wd_steps (cw_definition example_compiled) = take 2 compute_steps @ compute_steps ! 2 # []"
    by (simp add: example_steps compute_steps_def)
  have "is_gate (compute_steps ! 1) \<longrightarrow> st_when (compute_steps ! 1) = None \<longrightarrow>
      gate_approved (wf_env_with (Some approving)) (cw_hash example_compiled) (es_journal fresh_state) (compute_steps ! 1)"
    by (rule bspec [OF conjunct2 [OF conjunct2 [OF external_effects_wait_for_gates [OF example_compiles steps, where
        q = "last ?rs" and rs = ?rs and r = "fst ?run" and s' = "snd ?run"]]]])
      (simp_all add: log, simp_all add: compute_steps_def leaf_step_def gate_step_def needs_gate_def fresh_state_def)
  then show ?thesis by (simp add: compute_steps_def leaf_step_def gate_step_def is_gate_def)
qed

theorem leaf_calls_stay_planned_witness:
  "\<exists>rs. es_log (snd (execute_workflow (wf_env_with (Some approving)) example_compiled example_args fresh_state)) = rs
     \<and> int (length rs) \<le> 20"
proof -
  let ?run = "execute_workflow (wf_env_with (Some approving)) example_compiled example_args fresh_state"
  have adm: "admit_workflow (\<lambda>_. None) 0 example_compiled example_args example_limits None
      = Inr \<lparr>planned_leaf_calls = 2, budget_tokens = 200000\<rparr>" by code_simp
  have "normalize_workflow_args example_compiled example_args = example_args" by code_simp
  then have "?run = execute_workflow (wf_env_with (Some approving)) example_compiled
      (normalize_workflow_args example_compiled example_args) fresh_state" by simp
  from leaf_calls_stay_planned [OF example_compiles adm, where env = "wf_env_with (Some approving)" and s = fresh_state
      and res = "fst ?run" and s' = "snd ?run"] this
  show ?thesis
    by (auto simp: example_steps compute_steps_def leaf_step_def gate_step_def step_retry_def example_limits_def fresh_state_def)
qed

end
