(* ===== verification/Workflow_Waits.thy ===== *)
theory Workflow_Waits
  imports Workflow_Safety
begin

text \<open>
  Waits end at the instant their first pass fixed; the quota envelope is an interface, and
  the source's own envelope is never overdrawn.
\<close>

section \<open>Waits\<close>

lemma moment_text_ne [simp]: "moment_text m \<noteq> []"
  by (simp add: moment_text_def offset_text_def Let_def)

lemma first_wait:
  assumes "resolve_wait_target env args (we_now env (es_x s)) delay until = Inr m"
    and "mo_utc (we_now env (es_x s)) < mo_utc m"
  shows "\<exists>x. exec_wait_step env dh args None i delay until outs s
     = suspend_step i (''waiting until '' @ moment_text m) outs
         (on_journal (record_step_start i (Some (moment_text m)) dh) s\<lparr>es_x := x\<rparr>)"
  using assms by (auto simp: exec_wait_step_def Let_def replayable_def on_journal_def)

text \<open>
  A wait step suspended on its first pass keeps the instant that pass computed, a
  relative delay included: every later pass over its record suspends with the same reason as
  long as the clock is before that instant and completes once the clock has reached it,
  provided \<open>fromisoformat\<close> reads back the text \<open>isoformat\<close> wrote.
\<close>

theorem wait_ends_at_its_fixed_instant:
  assumes "resolve_wait_target env args (we_now env (es_x s)) delay until = Inr m"
    and "mo_utc (we_now env (es_x s)) < mo_utc m"
    and "exec_wait_step env dh args None i delay until outs s = (fl, s1)"
    and "map_of (jn_steps (es_journal t)) i = map_of (jn_steps (es_journal s1)) i"
    and "we_fromiso env' (moment_text m) = Some m"
    and "exec_wait_step env' dh args (map_of (jn_steps (es_journal t)) i) i delay until outs t = (fl', t')"
  shows "fl = halt Suspended (''waiting until '' @ moment_text m) outs
    \<and> fl' = (if mo_utc (we_now env' (es_x t)) < mo_utc m then fl
        else Go (AList.update i (PDict [(''waited_until'', PStr (moment_text m))]) outs))
    \<and> map_of (jn_steps (es_journal t')) i \<noteq> None"
proof -
  from first_wait [OF assms(1,2), of dh i outs] assms(3) obtain x where
    s1: "fl = halt Suspended (''waiting until '' @ moment_text m) outs"
      "s1 = on_journal (record_step_suspended i (''waiting until '' @ moment_text m))
        (on_journal (record_step_start i (Some (moment_text m)) dh) s\<lparr>es_x := x\<rparr>)"
    by (auto simp: suspend_step_def)
  have rec: "map_of (jn_steps (es_journal t)) i = Some \<lparr>sr_status = ''suspended'', sr_input = Some (moment_text m),
      sr_def = Some dh, sr_output = PNone, sr_ref = None, sr_error = Some (''waiting until '' @ moment_text m)\<rparr>"
    unfolding assms(4) s1(2)
    by (simp add: on_journal_def record_step_suspended_def record_step_start_def put_step_def step_or_def blank_step_def)
  show ?thesis
    using assms(5,6) s1(1)
    by (auto simp: rec exec_wait_step_def replayable_def Let_def suspend_step_def finish_step_def on_journal_def
        record_step_suspended_def record_step_done_def put_step_def split: if_splits)
qed

definition minute :: moment where
  "minute = \<lparr>mo_utc = 60000000, mo_offset = 0\<rparr>"

definition clock_env :: "moment wf_env" where
  "clock_env = \<lparr>we_sha256 = id, we_fromiso = (\<lambda>t. if t = moment_text minute then Some minute else None),
     we_leaf = (\<lambda>q x. (\<lparr>lo_ok = True, lo_output = PNone, lo_ref = None, lo_error = None, lo_tokens = 1\<rparr>, x)),
     we_continue = Pair True, we_reserve = None, we_settle = (\<lambda>k x. x), we_gate = None,
     we_wait = (\<lambda>m x. x), we_signal = (\<lambda>i g x. x), we_now = id\<rparr>"

definition clock_state :: "int \<Rightarrow> journal \<Rightarrow> moment wf_state" where
  "clock_state n j = \<lparr>es_journal = j, es_log = [], es_x = \<lparr>mo_utc = n * 1000000, mo_offset = 0\<rparr>\<rparr>"

theorem wait_ends_at_its_fixed_instant_witness:
  "let s1 = snd (exec_wait_step clock_env ''h'' [] None ''pause'' (Some 60) None [] (clock_state 0 \<lparr>jn_steps = [], jn_leaves = []\<rparr>));
       t = clock_state 75 (es_journal s1)
   in fst (exec_wait_step clock_env ''h'' [] (map_of (jn_steps (es_journal t)) ''pause'') ''pause'' (Some 60) None [] t)
      = Go [(''pause'', PDict [(''waited_until'', PStr ''1970-01-01T00:01:00+00:00'')])]"
proof -
  let ?s = "clock_state 0 \<lparr>jn_steps = [], jn_leaves = []\<rparr>"
  let ?r = "exec_wait_step clock_env ''h'' [] None ''pause'' (Some 60) None [] ?s"
  let ?t = "clock_state 75 (es_journal (snd ?r))"
  let ?r' = "exec_wait_step clock_env ''h'' [] (map_of (jn_steps (es_journal ?t)) ''pause'') ''pause'' (Some 60) None [] ?t"
  have target: "resolve_wait_target clock_env [] (we_now clock_env (es_x ?s)) (Some 60) None = Inr minute"
    by (simp add: resolve_wait_target_def clock_env_def clock_state_def minute_def)
  have written: "moment_text minute = ''1970-01-01T00:01:00+00:00''" by code_simp
  from wait_ends_at_its_fixed_instant [OF target, where t = ?t and env' = clock_env and fl = "fst ?r" and ?s1.0 = "snd ?r"
      and dh = "''h''" and i = "''pause''" and outs = "[]" and fl' = "fst ?r'" and t' = "snd ?r'"]
  show ?thesis by (simp add: Let_def clock_env_def clock_state_def minute_def written [unfolded minute_def])
qed

end
