(* ===== verification/Workflow_Quota.thy ===== *)
theory Workflow_Quota
  imports Workflow_Waits
begin

text \<open>
  The seams as interfaces: what every seam keeps of the world a pass keeps, and the laws of a
  quota envelope, interpreted on the envelope of the source.
\<close>

section \<open>What the seams keep, a pass keeps\<close>

lemma es_x_journal [simp]: "es_x (on_journal f s) = es_x s"
  by (simp add: on_journal_def)

locale world_invariant =
  fixes env :: "'x wf_env" and P :: "'x \<Rightarrow> bool"
  assumes kept_call: "P (es_x s) \<Longrightarrow> call_leaf env start req s = (out, s') \<Longrightarrow> P (es_x s')"
    and kept_continue: "P x \<Longrightarrow> we_continue env x = (b, y) \<Longrightarrow> P y"
    and kept_decision: "P x \<Longrightarrow> we_gate env = Some decide \<Longrightarrow> decide i reason x = (d, y) \<Longrightarrow> P y"
    and kept_schedule: "P x \<Longrightarrow> P (we_wait env m x)"
    and kept_register: "P x \<Longrightarrow> P (we_signal env i g x)"
begin

lemma kept_ends:
  "fail_step i e outs s = (fl, s') \<Longrightarrow> P (es_x s) \<Longrightarrow> P (es_x s')"
  "suspend_step i e outs s = (fl, s') \<Longrightarrow> P (es_x s) \<Longrightarrow> P (es_x s')"
  "finish_step i v r outs s = (fl, s') \<Longrightarrow> P (es_x s) \<Longrightarrow> P (es_x s')"
  by (auto simp: fail_step_def suspend_step_def finish_step_def)

lemma kept_attempt: "attempt_leaf env start req n s = (out, s') \<Longrightarrow> P (es_x s) \<Longrightarrow> P (es_x s')"
proof (induction n arbitrary: s)
  case 0
  then show ?case by (auto intro: kept_call)
next
  case (Suc n)
  obtain o1 s1 where c: "call_leaf env start req s = (o1, s1)" by force
  from kept_call [OF Suc.prems(2) c] Suc.prems(1) c Suc.IH [of s1] show ?case
    by (cases o1) (auto split: if_splits)
qed

lemma kept_agent:
  assumes "exec_agent_step env dh args prior i f task retry outs s = (fl, s')" and "P (es_x s)"
  shows "P (es_x s')"
  using assms(1)
proof (cases rule: exec_agent_cases)
  case (unresolved e)
  with assms(2) kept_ends(1) show ?thesis by blast
next
  case (replay tx)
  with assms(2) show ?thesis by simp
next
  case (refused tx s1)
  with assms(2) kept_attempt kept_ends(2) show ?thesis by blast
next
  case (ran tx out s1)
  from kept_attempt [OF ran(2) assms(2)] ran(3) kept_ends(1,3) show ?thesis
    by (cases "lo_ok out") auto
qed

lemma kept_run_leaf: "P (es_x (fs_state a)) \<Longrightarrow> P (es_x (fs_state (run_leaf env dh args i f task ex outs ni a)))"
  unfolding run_leaf_def Let_def
  by (auto simp: fail_leaf_def split: prod.splits sum.splits option.splits dest: kept_call)

lemma kept_leaves: "P (es_x (fs_state a)) \<Longrightarrow> P (es_x (fs_state (fold (run_leaf env dh args i f task ex outs) xs a)))"
  by (induction xs arbitrary: a) (simp_all add: kept_run_leaf)

lemma kept_fanout:
  assumes "exec_fanout_step env dh args i f src task outs s = (fl, s')" and "P (es_x s)"
  shows "P (es_x s')"
proof (cases "resolve_path src args outs")
  case (Inl e)
  with assms show ?thesis by (simp add: exec_fanout_step_def kept_ends(1))
next
  case (Inr v)
  show ?thesis
  proof (cases v)
    case (PList items)
    have "P (es_x (fs_state (fold (run_leaf env dh args i f task (jn_leaves (es_journal s)) outs) (enumerate 0 items)
        \<lparr>fs_results = replicate (length items) PNone, fs_failures = [], fs_exhausted = False,
         fs_state = on_journal (record_step_start i None dh) s\<rparr>)))"
      using assms(2) by (intro kept_leaves) simp
    with assms(1) Inr PList show ?thesis
      by (auto simp: exec_fanout_step_def Let_def split: if_splits dest: kept_ends)
  qed (use assms Inr in \<open>auto simp: exec_fanout_step_def dest: kept_ends(1)\<close>)
qed

lemma kept_others:
  "exec_gate_step env dh prior i reason outs s = (fl, s') \<Longrightarrow> P (es_x s) \<Longrightarrow> P (es_x s')"
  "exec_wait_step env dh args prior i d u outs s = (fl, s') \<Longrightarrow> P (es_x s) \<Longrightarrow> P (es_x s')"
  "exec_signal_step env dh prior i g outs s = (fl, s') \<Longrightarrow> P (es_x s) \<Longrightarrow> P (es_x s')"
  unfolding exec_gate_step_def exec_wait_step_def exec_signal_step_def Let_def replay_step_def
  by (auto split: if_splits option.splits sum.splits prod.splits
      dest!: kept_ends intro: kept_decision kept_schedule kept_register)

lemma kept_step: "exec_step env dh args ex st outs s = (fl, s') \<Longrightarrow> P (es_x s) \<Longrightarrow> P (es_x s')"
  unfolding exec_step_def Let_def
  by (auto split: sum.splits bool.splits step_body.splits intro: kept_agent kept_fanout kept_others)

lemma kept_steps: "exec_steps env dh args ex sts outs s = (fl, s') \<Longrightarrow> P (es_x s) \<Longrightarrow> P (es_x s')"
proof (induction sts arbitrary: outs s)
  case (Cons st sts)
  have go: "P x" if "we_continue env (es_x s) = (b, x)" for b x
    by (rule kept_continue [OF Cons.prems(2) that])
  from Cons.prems(1) show ?case
  proof (cases rule: exec_steps_cases)
    case (killed x)
    with go [OF killed(1)] show ?thesis by simp
  next
    case (stopped x)
    with kept_step [OF stopped(2)] go [OF stopped(1)] show ?thesis by simp
  next
    case (passed x o1 m)
    with kept_step [OF passed(2)] Cons.IH [OF passed(3)] go [OF passed(1)] show ?thesis by simp
  qed
qed simp

lemma kept_workflow: "execute_workflow env c args s = (r, s') \<Longrightarrow> P (es_x s) \<Longrightarrow> P (es_x s')"
  by (auto elim: execute_workflow_steps intro: kept_steps)

end

section \<open>The quota envelope\<close>

locale quota_port =
  fixes reserve :: "'q \<Rightarrow> bool \<times> 'q" and settle :: "int \<Rightarrow> 'q \<Rightarrow> 'q"
    and spent :: "'q \<Rightarrow> int" and size_of :: "'q \<Rightarrow> int" and estimate :: "'q \<Rightarrow> int"
  assumes reserve_law: "reserve q = (b, q') \<Longrightarrow> size_of q' = size_of q \<and> estimate q' = estimate q
      \<and> spent q' = (if b then spent q + estimate q else spent q) \<and> (b \<longrightarrow> spent q' \<le> size_of q)"
    and settle_law: "size_of (settle n q) = size_of q \<and> estimate (settle n q) = estimate q
      \<and> spent (settle n q) = spent q + n - estimate q"
begin

lemma paid_call:
  assumes "reserve q = (True, q')" and "n \<le> estimate q"
  shows "spent (settle n q') \<le> size_of (settle n q')" and "spent (settle n q') = spent q + n"
  using reserve_law [OF assms(1)] settle_law [of n q'] assms(2) by auto

lemma refused_call: "reserve q = (False, q') \<Longrightarrow> spent q' = spent q \<and> size_of q' = size_of q"
  using reserve_law by fastforce

end

interpretation in_memory: quota_port quota_reserve quota_settle qt_consumed qt_allocated qt_estimate
  by unfold_locales (auto simp: quota_reserve_def quota_settle_def split: if_splits)

text \<open>The environment with the envelope bound as its quota.\<close>

definition with_quota :: "'w wf_env \<Rightarrow> (quota \<times> 'w) wf_env" where
  "with_quota env = \<lparr>we_sha256 = we_sha256 env, we_fromiso = we_fromiso env,
     we_leaf = (\<lambda>req (q, w). case we_leaf env req w of (out, w') \<Rightarrow> (out, (q, w'))),
     we_continue = (\<lambda>(q, w). case we_continue env w of (b, w') \<Rightarrow> (b, (q, w'))),
     we_reserve = Some (\<lambda>(q, w). case quota_reserve q of (b, q') \<Rightarrow> (b, (q', w))),
     we_settle = (\<lambda>n (q, w). (quota_settle n q, w)),
     we_gate = map_option (\<lambda>decide i reason (q, w). case decide i reason w of (d, w') \<Rightarrow> (d, (q, w'))) (we_gate env),
     we_wait = (\<lambda>m (q, w). (q, we_wait env m w)),
     we_signal = (\<lambda>i g (q, w). (q, we_signal env i g w)),
     we_now = (\<lambda>(q, w). we_now env w)\<rparr>"

lemma with_quota_call:
  assumes "call_leaf (with_quota env) start req s = (out, s')"
  obtains (refused) q' where "quota_reserve (fst (es_x s)) = (False, q')" "es_x s' = (q', snd (es_x s))"
  | (paid) q' o1 w where "quota_reserve (fst (es_x s)) = (True, q')" "we_leaf env req (snd (es_x s)) = (o1, w)"
      "es_x s' = (quota_settle (lo_tokens o1) q', w)"
  using assms by (cases "es_x s")
    (auto simp: call_leaf_def with_quota_def reserve_leaf_def settle_leaf_def split: prod.splits bool.splits)

text \<open>The size of the envelope is fixed.\<close>

interpretation envelope: world_invariant "with_quota env" "\<lambda>(q, w). qt_allocated q = size \<and> qt_estimate q = est"
  for env :: "'w wf_env" and size est
proof unfold_locales
  fix s start req out and s' :: "(quota \<times> 'w) wf_state"
  assume "case es_x s of (q, w) \<Rightarrow> qt_allocated q = size \<and> qt_estimate q = est"
    and "call_leaf (with_quota env) start req s = (out, s')"
  then show "case es_x s' of (q, w) \<Rightarrow> qt_allocated q = size \<and> qt_estimate q = est"
    using in_memory.reserve_law in_memory.settle_law
    by (auto elim!: with_quota_call split: prod.splits)
qed (auto simp: with_quota_def split: prod.splits)

lemma quota_world:
  assumes "\<forall>req w. lo_tokens (fst (we_leaf env req w)) \<le> est"
  shows "world_invariant (with_quota env) (\<lambda>(q, w). qt_estimate q = est \<and> qt_consumed q \<le> qt_allocated q)"
proof unfold_locales
  fix s start req out and s' :: "(quota \<times> 'a) wf_state"
  assume p: "case es_x s of (q, w) \<Rightarrow> qt_estimate q = est \<and> qt_consumed q \<le> qt_allocated q"
    and "call_leaf (with_quota env) start req s = (out, s')"
  from this(2) show "case es_x s' of (q, w) \<Rightarrow> qt_estimate q = est \<and> qt_consumed q \<le> qt_allocated q"
  proof (cases rule: with_quota_call)
    case (refused q')
    with p in_memory.reserve_law [OF refused(1)] show ?thesis by (cases "es_x s") auto
  next
    case (paid q' o1 w)
    from assms [rule_format, of req "snd (es_x s)"] paid(2) p have "lo_tokens o1 \<le> qt_estimate (fst (es_x s))"
      by (cases "es_x s") simp
    from in_memory.paid_call(1) [OF paid(1) this] in_memory.reserve_law [OF paid(1)] in_memory.settle_law p paid(3)
    show ?thesis by (cases "es_x s") auto
  qed
qed (auto simp: with_quota_def split: prod.splits)

text \<open>
  A pass under a run's quota envelope never overdraws it, as long as no leaf reports
  more tokens than the estimate that is reserved for it; the envelope's size does not change.
\<close>

theorem quota_is_never_overdrawn:
  assumes "\<forall>req w. lo_tokens (fst (we_leaf env req w)) \<le> qt_estimate q" and "qt_consumed q \<le> qt_allocated q"
    and "es_x s = (q, w)" and "execute_workflow (with_quota env) c args s = (r, s')"
  shows "qt_consumed (fst (es_x s')) \<le> qt_allocated (fst (es_x s'))
    \<and> qt_allocated (fst (es_x s')) = qt_allocated q"
proof -
  from world_invariant.kept_workflow [OF quota_world [OF assms(1)] assms(4)] assms(2,3)
  have "qt_consumed (fst (es_x s')) \<le> qt_allocated (fst (es_x s'))" by (cases "es_x s'") simp
  moreover from envelope.kept_workflow [OF assms(4), where size = "qt_allocated q" and est = "qt_estimate q"] assms(3)
  have "qt_allocated (fst (es_x s')) = qt_allocated q" by (cases "es_x s'") simp
  ultimately show ?thesis ..
qed

theorem quota_is_never_overdrawn_witness:
  "qt_consumed (fst (es_x (snd (execute_workflow (with_quota (wf_env_with (Some approving))) example_compiled example_args
     \<lparr>es_journal = \<lparr>jn_steps = [], jn_leaves = []\<rparr>, es_log = [], es_x = (\<lparr>qt_allocated = 3, qt_estimate = 2, qt_consumed = 0\<rparr>, 0)\<rparr>)))) \<le> 3"
proof -
  let ?q = "\<lparr>qt_allocated = 3, qt_estimate = 2, qt_consumed = 0\<rparr>"
  let ?s = "\<lparr>es_journal = \<lparr>jn_steps = [], jn_leaves = []\<rparr>, es_log = [], es_x = (?q, 0 :: nat)\<rparr>"
  let ?run = "execute_workflow (with_quota (wf_env_with (Some approving))) example_compiled example_args ?s"
  have "\<forall>req w. lo_tokens (fst (we_leaf (wf_env_with (Some approving)) req w)) \<le> qt_estimate ?q"
    by (simp add: wf_env_with_def)
  from quota_is_never_overdrawn [OF this, where s = ?s and w = 0 and c = example_compiled and args = example_args
      and r = "fst ?run" and s' = "snd ?run"]
  show ?thesis by simp
qed

end
