(* ===== verification/Workflow_Limits.thy ===== *)
theory Workflow_Limits
  imports Workflow_Safety
begin

text \<open>
  The end of the retry loop, and the places where the compiler and the admission promise more
  than the interpreter keeps.
\<close>

section \<open>The retry loop\<close>

text \<open>A call of the leaf that was admitted and failed.\<close>

definition failed_call :: "'x wf_env \<Rightarrow> (journal \<Rightarrow> journal) \<Rightarrow> leaf_request \<Rightarrow> 'x wf_state \<Rightarrow> 'x wf_state \<Rightarrow> bool" where
  "failed_call env start req s s' \<longleftrightarrow> (\<exists>out. call_leaf env start req s = (Some out, s') \<and> \<not> lo_ok out)"

lemma call_leaf_log:
  "call_leaf env start req s = (res, s') \<Longrightarrow> es_log s' = es_log s @ (case res of None \<Rightarrow> [] | Some _ \<Rightarrow> [req])"
  by (auto simp: call_leaf_def split: prod.splits bool.splits)

lemma failed_calls_log:
  "(failed_call env start req ^^ j) s s' \<Longrightarrow> es_log s' = es_log s @ replicate j req"
  by (induction j arbitrary: s') (auto simp: failed_call_def replicate_append_same dest!: call_leaf_log)

lemma attempts:
  assumes "attempt_leaf env start req n s = (res, s')"
  shows "\<exists>j \<le> n. \<exists>s1. (failed_call env start req ^^ j) s s1 \<and> call_leaf env start req s1 = (res, s')
    \<and> (case res of None \<Rightarrow> True | Some out \<Rightarrow> lo_ok out \<or> j = n)"
  using assms
proof (induction n arbitrary: s)
  case 0
  then show ?case by (intro exI [of _ 0]) (auto split: option.split)
next
  case (Suc n)
  obtain o1 s1 where c: "call_leaf env start req s = (o1, s1)" by force
  show ?case
  proof (cases "\<exists>out. o1 = Some out \<and> \<not> lo_ok out")
    case False
    with c Suc.prems have "res = o1" "s' = s1" by (auto split: option.splits if_splits)
    with c False show ?thesis by (intro exI [of _ 0]) (auto split: option.split)
  next
    case True
    with c Suc.prems have "attempt_leaf env start req n s1 = (res, s')" by auto
    from Suc.IH [OF this] obtain j s2 where j: "j \<le> n" "(failed_call env start req ^^ j) s1 s2"
        "call_leaf env start req s2 = (res, s')" "case res of None \<Rightarrow> True | Some out \<Rightarrow> lo_ok out \<or> j = n"
      by blast
    have "failed_call env start req s s1" using True c by (auto simp: failed_call_def)
    with j(2) have "(failed_call env start req ^^ Suc j) s s2" by (rule relpowp_Suc_I2 [rotated])
    with j show ?thesis by (intro exI [of _ "Suc j"]) (auto split: option.splits)
  qed
qed

text \<open>
  Claim C37. The retry loop of an agent step ends with one last call of the leaf: every call before it was
  admitted and failed, and there are at most as many of those as retries. The last call was refused by the
  quota, succeeded, or came after all the retries; its outcome is the outcome of the step, and all the calls
  make the same request.
\<close>

theorem retry_loop_ends:
  assumes "attempt_leaf env start req n s = (res, s')"
  shows "\<exists>j \<le> n. \<exists>s1. (failed_call env start req ^^ j) s s1 \<and> call_leaf env start req s1 = (res, s')
    \<and> es_log s' = es_log s @ replicate j req @ (case res of None \<Rightarrow> [] | Some out \<Rightarrow> [req])
    \<and> (case res of None \<Rightarrow> True | Some out \<Rightarrow> lo_ok out \<or> j = n)"
proof -
  from attempts [OF assms] obtain j s1 where j: "j \<le> n" "(failed_call env start req ^^ j) s s1"
      "call_leaf env start req s1 = (res, s')" "case res of None \<Rightarrow> True | Some out \<Rightarrow> lo_ok out \<or> j = n"
    by blast
  from call_leaf_log [OF j(3)] failed_calls_log [OF j(2)]
  have "es_log s' = es_log s @ replicate j req @ (case res of None \<Rightarrow> [] | Some out \<Rightarrow> [req])" by simp
  with j show ?thesis by blast
qed

text \<open>An environment whose leaves always fail.\<close>

definition failing_env :: "nat wf_env" where
  "failing_env = (wf_env_with None)\<lparr>we_leaf := (\<lambda>q n.
     (\<lparr>lo_ok = False, lo_output = PNone, lo_ref = None, lo_error = None, lo_tokens = 1\<rparr>, Suc n))\<rparr>"

theorem retry_loop_ends_witness:
  "let req = \<lparr>lq_step = ''a'', lq_leaf = example_leaf, lq_task = ''t'', lq_id = None\<rparr>;
       start = record_step_start ''a'' None ''h'';
       run = attempt_leaf failing_env start req 5 fresh_state in
     (\<exists>s1. (failed_call failing_env start req ^^ 5) fresh_state s1 \<and> call_leaf failing_env start req s1 = run)
     \<and> length (es_log (snd run)) = 6"
proof -
  let ?req = "\<lparr>lq_step = ''a'', lq_leaf = example_leaf, lq_task = ''t'', lq_id = None\<rparr>"
  let ?start = "record_step_start ''a'' None ''h''"
  let ?run = "attempt_leaf failing_env ?start ?req 5 fresh_state"
  have "map_option lo_ok (fst ?run) = Some False" by code_simp
  then obtain out where out: "fst ?run = Some out" "\<not> lo_ok out" by auto
  then have run: "?run = (Some out, snd ?run)" by (metis prod.collapse)
  from retry_loop_ends [OF run] out(2) obtain s1 where
    "(failed_call failing_env ?start ?req ^^ 5) fresh_state s1"
    "call_leaf failing_env ?start ?req s1 = ?run"
    "es_log (snd ?run) = es_log fresh_state @ replicate 5 ?req @ [?req]"
    using run by auto
  then show ?thesis by (auto simp: Let_def fresh_state_def)
qed

section \<open>Where the promises end\<close>

text \<open>Three definitions the compiler accepts.\<close>

definition ungated_steps :: "wf_step list" where
  "ungated_steps = [leaf_step ''compute'' ''Compute {{args.a}}'' ReadOnly,
     gate_step ''ok'' (Some (Condition (Some \<lparr>cp_field = ''args.a'', cp_op = OpGt, cp_value = PInt 100\<rparr>) None None None)),
     leaf_step ''publish'' ''Publish {{steps.compute.output}}'' External]"

definition compiled_of :: "wf_step list \<Rightarrow> compiled_workflow" where
  "compiled_of steps = (case compile_workflow id no_dump (example_definition steps) None of
     Inr c \<Rightarrow> c | Inl e \<Rightarrow> \<lparr>cw_definition = example_definition [], cw_hash = [], cw_leaves = []\<rparr>)"

definition retried_steps :: "wf_step list" where
  "retried_steps = [\<lparr>st_id = ''a'', st_when = None, st_effects = ReadOnly, st_body = AgentStep example_leaf ''t'' (Some 5)\<rparr>]"

definition dangling_steps :: "wf_step list" where
  "dangling_steps = [leaf_step ''compute'' ''Compute'' ReadOnly, leaf_step ''report'' ''{{steps.compute}}'' ReadOnly,
     \<lparr>st_id = ''each'', st_when = None, st_effects = ReadOnly, st_body = FanoutStep example_leaf ''args.a'' ''{{item.name}}'' 4\<rparr>]"

text \<open>
  The compiler accepts a gate step that has a condition as the gate before an external
  effect; when the condition is false the interpreter skips the gate, asks no decider, and
  runs the external step.
\<close>

theorem conditional_gate_guards_nothing:
  "compile_workflow id no_dump (example_definition ungated_steps) None = Inr (compiled_of ungated_steps)
   \<and> needs_gate (ungated_steps ! 2)
   \<and> (case execute_workflow (wf_env_with None) (compiled_of ungated_steps) example_args fresh_state of (r, s) \<Rightarrow>
        (case r of Inr out \<Rightarrow> ro_status out = Completed | Inl e \<Rightarrow> False)
        \<and> map lq_step (es_log s) = [''compute'', ''publish'']
        \<and> map_option sr_status (map_of (jn_steps (es_journal s)) ''ok'') = Some ''skipped'')"
proof -
  have "(case compile_workflow id no_dump (example_definition ungated_steps) None of Inr c \<Rightarrow> True | Inl e \<Rightarrow> False)"
    by code_simp
  then have "compile_workflow id no_dump (example_definition ungated_steps) None = Inr (compiled_of ungated_steps)"
    by (auto simp: compiled_of_def split: sum.splits)
  moreover have "needs_gate (ungated_steps ! 2)" by code_simp
  moreover have "case execute_workflow (wf_env_with None) (compiled_of ungated_steps) example_args fresh_state of (r, s) \<Rightarrow>
        (case r of Inr out \<Rightarrow> ro_status out = Completed | Inl e \<Rightarrow> False)
        \<and> map lq_step (es_log s) = [''compute'', ''publish'']
        \<and> map_option sr_status (map_of (jn_steps (es_journal s)) ''ok'') = Some ''skipped''" by code_simp
  ultimately show ?thesis by blast
qed

text \<open>
  A run admitted under a limit of one leaf call makes six when its single agent step
  declares five retries and its leaf fails: the admission plans one call for an agent step
  whatever its retries.
\<close>

lemma retries_pass_the_leaf_limit:
  "compile_workflow id no_dump (example_definition retried_steps) None = Inr (compiled_of retried_steps)
   \<and> admit_workflow (\<lambda>_. None) 0 (compiled_of retried_steps) example_args (example_limits\<lparr>max_leaf_calls := 1\<rparr>) None
       = Inr \<lparr>planned_leaf_calls = 1, budget_tokens = 200000\<rparr>
   \<and> length (es_log (snd (execute_workflow failing_env (compiled_of retried_steps) example_args fresh_state))) = 6"
proof -
  have "(case compile_workflow id no_dump (example_definition retried_steps) None of Inr c \<Rightarrow> True | Inl e \<Rightarrow> False)"
    by code_simp
  then have "compile_workflow id no_dump (example_definition retried_steps) None = Inr (compiled_of retried_steps)"
    by (auto simp: compiled_of_def split: sum.splits)
  moreover have "admit_workflow (\<lambda>_. None) 0 (compiled_of retried_steps) example_args (example_limits\<lparr>max_leaf_calls := 1\<rparr>) None
       = Inr \<lparr>planned_leaf_calls = 1, budget_tokens = 200000\<rparr>" by code_simp
  moreover have "length (es_log (snd (execute_workflow failing_env (compiled_of retried_steps) example_args fresh_state))) = 6"
    by code_simp
  ultimately show ?thesis by blast
qed

text \<open>
  The compiler accepts a step reference without its \<open>output\<close> segment and a path into a
  fan-out item, and no template holding one of them ever resolves: the step fails on every
  pass that reaches it, whatever the arguments and the outputs so far.
\<close>

lemma accepted_references_never_resolve:
  "compile_workflow id no_dump (example_definition dangling_steps) None = Inr (compiled_of dangling_steps)
   \<and> (\<nexists>text. resolve_template ''{{steps.compute}}'' args outs PNone = Inr text)
   \<and> (\<nexists>text. resolve_template ''{{item.name}}'' args outs item = Inr text)"
proof -
  have "(case compile_workflow id no_dump (example_definition dangling_steps) None of Inr c \<Rightarrow> True | Inl e \<Rightarrow> False)"
    by code_simp
  then have "compile_workflow id no_dump (example_definition dangling_steps) None = Inr (compiled_of dangling_steps)"
    by (auto simp: compiled_of_def split: sum.splits)
  moreover have "template_parts ''{{steps.compute}}'' = [Reference ''steps.compute'' ''{{steps.compute}}'']"
    and "template_parts ''{{item.name}}'' = [Reference ''item.name'' ''{{item.name}}'']" by code_simp+
  ultimately show ?thesis
    by (simp add: resolve_template_def part_value_def resolve_path_def Let_def)
qed

text \<open>
  A JSON schema whose \<open>required\<close> is a flag makes the argument normalisation raise a TypeError,
  which \<open>parse_workflow_definition\<close> does not turn into its own error.
\<close>

lemma required_flag_raises:
  "normalize_args_schema (PDict [(''type'', PStr ''object''), (''properties'', PDict ps), (''required'', PBool b)])
   = Inl (PyError ''TypeError'')"
proof -
  have "schema_type (PStr ''object'') = Some ''object''" by code_simp
  then show ?thesis by (simp add: normalize_args_schema_def required_names_def dget_def has_key_def)
qed

end
