(* ===== verification/Workflow_Cutoff.thy ===== *)
theory Workflow_Cutoff
  imports Workflow_Safety
begin

text \<open>
  Passes of \<open>backend/app/runtime/workflow_engine.py\<close> that end with an exception of an injected seam, the
  states a run can be in when passes return or are cut off, and the records a journal holds then.
\<close>

section \<open>Passes that are cut off\<close>






section \<open>Records between passes\<close>






lemma never_raised [simp]:
  "fail_step i e outs s \<noteq> (Raised x, s')" "suspend_step i e outs s \<noteq> (Raised x, s')"
  "finish_step i v r outs s \<noteq> (Raised x, s')"
  by (simp_all add: fail_step_def suspend_step_def finish_step_def halt_def)




text \<open>The record of a step that was cut off: started under this definition, without an output or an error.\<close>

definition record_running :: "string \<Rightarrow> step_record \<Rightarrow> bool" where
  "record_running dh r \<longleftrightarrow> sr_status r = ''running'' \<and> sr_def r = Some dh \<and> sr_output r = PNone \<and> sr_error r = None"

definition keeps_or_runs :: "string \<Rightarrow> string \<Rightarrow> 'x wf_state \<Rightarrow> 'x wf_state \<Rightarrow> bool" where
  "keeps_or_runs dh i s s' \<longleftrightarrow>
     (\<forall>k. k \<noteq> i \<longrightarrow> map_of (jn_steps (es_journal s')) k = map_of (jn_steps (es_journal s)) k)
     \<and> (map_of (jn_steps (es_journal s')) i = map_of (jn_steps (es_journal s)) i
        \<or> (\<exists>r. map_of (jn_steps (es_journal s')) i = Some r \<and> record_running dh r))"

lemma keeps_refl [simp]: "keeps_or_runs dh i s s" "keeps_or_runs dh i s (t\<lparr>es_x := x\<rparr>) = keeps_or_runs dh i s t"
  by (simp_all add: keeps_or_runs_def)


definition starts_or_keeps :: "string \<Rightarrow> string \<Rightarrow> (journal \<Rightarrow> journal) \<Rightarrow> bool" where
  "starts_or_keeps dh i f \<longleftrightarrow> (\<exists>inp. f = record_step_start i inp dh) \<or> (\<forall>j. jn_steps (f j) = jn_steps j)"

lemma leaf_starts [simp]: "starts_or_keeps dh i (record_leaf_start i' l a b)" "starts_or_keeps dh i (record_step_start i a dh)"
  by (auto simp: starts_or_keeps_def record_leaf_start_def put_leaf_def)















end
