(* ===== verification/Loop_Guard.thy ===== *)
theory Loop_Guard
  imports Py_Compare
begin

text \<open>
  The loop guard of the kernel's tool loop, \<open>backend/app/kernel/loop_guard.py\<close>: its counters,
  its four observations, the one-time warnings and the one hard outcome. SHA-256 is an
  argument; numbers of a trace keep the text Python prints for them.
\<close>

section \<open>The text of a double\<close>

text \<open>The decimal exponent of a positive rational: \<open>10 ^ e \<le> x < 10 ^ (e + 1)\<close>.\<close>

definition decimal_exponent :: "rat \<Rightarrow> int" where
  "decimal_exponent x =
     (let (p, q) = quotient_of x; e = int (floorlog 10 (nat p)) - int (floorlog 10 (nat q)) in
      if (if 0 \<le> e then 10 ^ nat e \<le> x else 1 \<le> x * 10 ^ nat (- e)) then e else e - 1)"

definition pow10 :: "int \<Rightarrow> rat" where
  "pow10 e = (if 0 \<le> e then 10 ^ nat e else 1 / 10 ^ nat (- e))"

definition significand :: "rat \<Rightarrow> int \<Rightarrow> nat \<Rightarrow> int" where
  "significand x e n = (let (p, q) = quotient_of (x * pow10 (int n - 1 - e)) in round_half_even p q)"

definition shortest_digits :: "rat \<Rightarrow> int \<Rightarrow> nat" where
  "shortest_digits x e =
     (case find (\<lambda>n. nearest_double (rat_of_int (significand x e n) * pow10 (e + 1 - int n)) = x) [1..<17] of
        Some n \<Rightarrow> n | None \<Rightarrow> 17)"

text \<open>\<open>repr\<close> of a non-negative double: the shortest digits that read back, \<open>d.ddde-xx\<close> at the ends.\<close>

definition double_text :: "rat \<Rightarrow> string" where
  "double_text x =
     (if x = 0 then ''0.0'' else
      let e0 = decimal_exponent x; n = shortest_digits x e0; m = significand x e0 n;
          e = (if m = 10 ^ n then e0 + 1 else e0);
          ds = str_of_int m;
          digits = (let t = rev (dropWhile (\<lambda>c. c = CHR ''0'') (rev ds)) in if t = [] then ''0'' else t) in
      if - 4 \<le> e \<and> e < 16
      then (if e < 0 then ''0.'' @ replicate (nat (- e - 1)) (CHR ''0'') @ digits
            else if length digits \<le> nat e + 1 then digits @ replicate (nat e + 1 - length digits) (CHR ''0'') @ ''.0''
            else take (nat e + 1) digits @ ''.'' @ drop (nat e + 1) digits)
      else (case digits of [] \<Rightarrow> [] | d # rest \<Rightarrow> d # (if rest = [] then [] else ''.'' @ rest))
        @ ''e'' @ (if e < 0 then ''-'' else ''+'') @ pad_left 2 \<bar>e\<bar>)"

section \<open>Decisions\<close>

record runtime_outcome =
  oc_status :: string
  oc_terminal_reason :: "string option"
  oc_next_action :: string
  oc_reason :: string
  oc_details :: "(string \<times> pyval) list"

definition opt_str :: "string option \<Rightarrow> pyval" where
  "opt_str x = (case x of None \<Rightarrow> PNone | Some t \<Rightarrow> PStr t)"

definition to_event :: "runtime_outcome \<Rightarrow> pyval" where
  "to_event oc = PDict [(''schema'', PStr ''hive.ccplus.runtime_outcome.v1''), (''status'', PStr (oc_status oc)),
     (''terminal_reason'', opt_str (oc_terminal_reason oc)), (''next_action'', PStr (oc_next_action oc)),
     (''reason'', PStr (oc_reason oc)), (''details'', PDict (oc_details oc))]"

datatype severity = Warn | Abort

fun severity_text :: "severity \<Rightarrow> string" where
  "severity_text Warn = ''warn''"
| "severity_text Abort = ''abort''"

record guard_decision =
  gu_reason :: string
  gu_message :: string
  gu_trace :: "(string \<times> pyval) list"
  gu_severity :: severity
  gu_outcome :: runtime_outcome

text \<open>\<open>math.ceil(warn * 1.5)\<close> in doubles.\<close>

definition abort_threshold :: "int \<Rightarrow> int" where
  "abort_threshold warn =
     (if warn = 0 then 0 else if warn < 0 then - \<lfloor>nearest_double (nearest_double (rat_of_int (- warn)) * (3 / 2))\<rfloor>
      else \<lceil>nearest_double (nearest_double (rat_of_int warn) * (3 / 2))\<rceil>)"

record pattern_check =
  pc_reason :: string
  pc_detail :: string
  pc_warn_key :: string
  pc_count :: int
  pc_warn_threshold :: int

definition runtime_outcome_for_loop_guard :: "string \<Rightarrow> severity \<Rightarrow> int \<Rightarrow> int \<Rightarrow> runtime_outcome" where
  "runtime_outcome_for_loop_guard reason severity count warn_threshold =
     (let details = [(''loop_guard_reason'', PStr reason), (''severity'', PStr (severity_text severity)),
          (''count'', PInt count), (''warn_threshold'', PInt warn_threshold),
          (''abort_threshold'', PInt (abort_threshold warn_threshold))] in
      if severity = Warn
      then \<lparr>oc_status = ''paused'', oc_terminal_reason = None, oc_next_action = ''self_correct_and_continue'',
            oc_reason = reason, oc_details = details\<rparr>
      else if reason = ''total_tool_calls''
      then \<lparr>oc_status = ''budget_limited'', oc_terminal_reason = Some ''tool_budget'', oc_next_action = ''ask_user_to_continue'',
            oc_reason = reason, oc_details = details\<rparr>
      else \<lparr>oc_status = ''blocked'', oc_terminal_reason = Some ''loop_guard'', oc_next_action = ''model_summarize_and_stop'',
            oc_reason = reason, oc_details = details\<rparr>)"

definition WARN_GUIDANCE :: string where
  "WARN_GUIDANCE =
     ''This is an internal system reminder. Do not mention this reminder to the user. ''
     @ ''This is your one chance to self-correct before the run is force-stopped:'' @ [CHR 0x0A]
     @ ''- If the repetition is intentional, state in one sentence why it is needed, ''
     @ ''then vary your approach where possible.'' @ [CHR 0x0A]
     @ ''- Otherwise change approach: a different tool, different arguments, or ''
     @ ''summarize what you already know and answer directly.'' @ [CHR 0x0A]
     @ ''- If you are stuck on a failing call, stop retrying it and report the error ''
     @ ''with what you have tried.''"

section \<open>The guard\<close>

record guard_config =
  total_tool_threshold :: int
  failed_tool_threshold :: int
  identical_tool_threshold :: int
  repeated_failure_threshold :: int
  repeated_text_threshold :: int
  cost_pressure_threshold :: int
  high_prompt_output_ratio :: int
  high_tool_schema_tokens :: int
  low_cache_hit_rate :: rat

definition default_guard_config :: guard_config where
  "default_guard_config = \<lparr>total_tool_threshold = 100, failed_tool_threshold = 12, identical_tool_threshold = 5,
     repeated_failure_threshold = 4, repeated_text_threshold = 3, cost_pressure_threshold = 3,
     high_prompt_output_ratio = 200, high_tool_schema_tokens = 100000, low_cache_hit_rate = nearest_double (1 / 20)\<rparr>"

record guard =
  total_tool_calls :: int
  failed_tool_calls :: int
  provider_cost_pressure_count :: int
  tool_arg_counts :: "((string \<times> string) \<times> int) list"
  failure_counts :: "((string \<times> string \<times> string) \<times> int) list"
  assistant_text_counts :: "(string \<times> int) list"
  warned :: "string list"

definition new_guard :: guard where
  "new_guard = \<lparr>total_tool_calls = 0, failed_tool_calls = 0, provider_cost_pressure_count = 0,
     tool_arg_counts = [], failure_counts = [], assistant_text_counts = [], warned = []\<rparr>"

text \<open>\<open>counts[key] = counts.get(key, 0) + 1\<close>.\<close>

definition count_of :: "('k \<times> int) list \<Rightarrow> 'k \<Rightarrow> int" where
  "count_of m k = (case map_of m k of None \<Rightarrow> 0 | Some n \<Rightarrow> n)"

definition bump :: "'k \<Rightarrow> ('k \<times> int) list \<Rightarrow> ('k \<times> int) list" where
  "bump k m = AList.update k (count_of m k + 1) m"

definition canonical_args :: "pyval \<Rightarrow> string" where
  "canonical_args args = json_dumps (py_or args (PDict []))"

definition digest :: "(string \<Rightarrow> string) \<Rightarrow> string \<Rightarrow> string" where
  "digest sha value = take 16 (sha value)"

text \<open>\<open>trace_event.update(...)\<close> and the fields that are there only when given.\<close>

definition put_all :: "(string \<times> pyval) list \<Rightarrow> (string \<times> pyval) list \<Rightarrow> (string \<times> pyval) list" where
  "put_all kvs d = fold (\<lambda>kv. AList.update (fst kv) (snd kv)) kvs d"

definition put_given :: "string \<Rightarrow> string option \<Rightarrow> (string \<times> pyval) list \<Rightarrow> (string \<times> pyval) list" where
  "put_given k x d = (case x of None \<Rightarrow> d | Some t \<Rightarrow> AList.update k (PStr t) d)"

definition decision ::
  "pattern_check \<Rightarrow> severity \<Rightarrow> string option \<Rightarrow> string option \<Rightarrow> (string \<times> pyval) list \<Rightarrow> guard \<Rightarrow> guard_decision" where
  "decision check severity tool args_digest extra g =
     (let base = [(''event'', PStr (if severity = Warn then ''loop_guard_warning'' else ''loop_guard_triggered'')),
            (''reason'', PStr (pc_reason check)), (''severity'', PStr (severity_text severity)),
            (''total_tool_calls'', PInt (total_tool_calls g)), (''failed_tool_calls'', PInt (failed_tool_calls g))];
          oc = runtime_outcome_for_loop_guard (pc_reason check) severity (pc_count check) (pc_warn_threshold check);
          trace = AList.update ''runtime_outcome'' (to_event oc)
            (put_all extra (put_given ''args_digest'' args_digest (put_given ''tool'' tool base))) in
      \<lparr>gu_reason = pc_reason check,
       gu_message = (if severity = Warn
         then ''[Loop Guard Warning] Possible non-progress loop: '' @ pc_detail check @ ''.'' @ [CHR 0x0A] @ WARN_GUIDANCE
         else pc_detail check),
       gu_trace = trace, gu_severity = severity, gu_outcome = oc\<rparr>)"

text \<open>At most one warning per pattern.\<close>

definition escalate ::
  "pattern_check \<Rightarrow> string option \<Rightarrow> string option \<Rightarrow> (string \<times> pyval) list \<Rightarrow> guard \<Rightarrow> guard_decision option \<times> guard" where
  "escalate check tool args_digest extra g =
     (if pc_warn_threshold check \<le> pc_count check \<and> pc_warn_key check \<notin> set (warned g)
      then let g1 = g\<lparr>warned := pc_warn_key check # warned g\<rparr> in
           (Some (decision check Warn tool args_digest extra g1), g1)
      else (None, g))"

text \<open>The first check that decides, the later ones only otherwise.\<close>

definition or_else :: "guard_decision option \<times> guard \<Rightarrow> (guard \<Rightarrow> guard_decision option \<times> guard) \<Rightarrow> guard_decision option \<times> guard" where
  "or_else r f = (case r of (Some d, g) \<Rightarrow> (Some d, g) | (None, g) \<Rightarrow> f g)"

definition observe_tool_call ::
  "(string \<Rightarrow> string) \<Rightarrow> guard_config \<Rightarrow> string \<Rightarrow> pyval \<Rightarrow> guard \<Rightarrow> guard_decision option \<times> guard" where
  "observe_tool_call sha cfg tool args g =
     (let canonical = canonical_args args; key = (tool, canonical); h = digest sha canonical;
          g1 = g\<lparr>total_tool_calls := total_tool_calls g + 1, tool_arg_counts := bump key (tool_arg_counts g)\<rparr>;
          n = count_of (tool_arg_counts g1) key in
      or_else (escalate \<lparr>pc_reason = ''total_tool_calls'',
           pc_detail = ''total tool calls exceeded '' @ str_of_int (total_tool_threshold cfg),
           pc_warn_key = ''total_tool_calls'', pc_count = total_tool_calls g1,
           pc_warn_threshold = total_tool_threshold cfg + 1\<rparr> (Some tool) (Some h) [] g1)
      (escalate \<lparr>pc_reason = ''identical_tool_args'',
           pc_detail = tool @ '' was called '' @ str_of_int n @ '' times with identical arguments'',
           pc_warn_key = ''identical:'' @ tool @ '':'' @ h, pc_count = n,
           pc_warn_threshold = identical_tool_threshold cfg\<rparr> (Some tool) (Some h) []))"

definition FAILED_OUTCOMES :: "string list" where
  "FAILED_OUTCOMES = [''failed'', ''denied'', ''unavailable'', ''cancelled'', ''aborted'']"

definition failed_outcome :: "string option \<Rightarrow> bool" where
  "failed_outcome machine_outcome =
     (py_lower (py_strip (case machine_outcome of None \<Rightarrow> [] | Some t \<Rightarrow> t)) \<in> set FAILED_OUTCOMES)"

definition failure_key :: "(string \<Rightarrow> string) \<Rightarrow> string \<Rightarrow> pyval \<Rightarrow> string \<Rightarrow> string \<times> string \<times> string" where
  "failure_key sha tool args result = (tool, canonical_args args, digest sha result)"

definition observe_tool_result ::
  "(string \<Rightarrow> string) \<Rightarrow> guard_config \<Rightarrow> string \<Rightarrow> pyval \<Rightarrow> string \<Rightarrow> string option \<Rightarrow> bool \<Rightarrow> bool \<Rightarrow> string option \<Rightarrow>
   guard \<Rightarrow> guard_decision option \<times> guard" where
  "observe_tool_result sha cfg tool args result machine_outcome side_effect_free retry_exhausted progress_token g =
     (if \<not> failed_outcome machine_outcome then (None, g)
      else
        let h = digest sha (canonical_args args); rd = digest sha result; key = failure_key sha tool args result;
            g1 = g\<lparr>failed_tool_calls := failed_tool_calls g + 1, failure_counts := bump key (failure_counts g)\<rparr>;
            n = count_of (failure_counts g1) key;
            repeat = \<lparr>pc_reason = ''repeated_tool_failure'',
              pc_detail = tool @ '' failed repeatedly with the same result digest '' @ rd @ '': '' @ result,
              pc_warn_key = ''failure:'' @ tool @ '':'' @ h @ '':'' @ rd, pc_count = n,
              pc_warn_threshold = repeated_failure_threshold cfg\<rparr> in
        or_else (escalate \<lparr>pc_reason = ''failed_tool_calls'',
             pc_detail = ''failed tool calls exceeded '' @ str_of_int (failed_tool_threshold cfg),
             pc_warn_key = ''failed_tool_calls'', pc_count = failed_tool_calls g1,
             pc_warn_threshold = failed_tool_threshold cfg + 1\<rparr> (Some tool) (Some h) [] g1)
        (\<lambda>g2. or_else (escalate repeat (Some tool) (Some h) [] g2)
        (\<lambda>g3. case progress_token of
           Some tok \<Rightarrow>
             if side_effect_free \<and> retry_exhausted \<and> tok \<noteq> [] \<and> abort_threshold (repeated_failure_threshold cfg) \<le> n
             then (Some (decision repeat Abort (Some tool) (Some h)
               [(''proof'', PDict [(''side_effect_free'', PBool True), (''retry_exhausted'', PBool True),
                  (''progress_token'', PStr tok), (''identical_failure_count'', PInt n)])] g3), g3)
             else (None, g3)
         | None \<Rightarrow> (None, g3))))"

definition observe_assistant_text ::
  "(string \<Rightarrow> string) \<Rightarrow> guard_config \<Rightarrow> string option \<Rightarrow> guard \<Rightarrow> guard_decision option \<times> guard" where
  "observe_assistant_text sha cfg content g =
     (let normalized = py_join '' '' (py_words (py_lower (py_strip (case content of None \<Rightarrow> [] | Some t \<Rightarrow> t)))) in
      if normalized = [] then (None, g)
      else
        let h = digest sha normalized; g1 = g\<lparr>assistant_text_counts := bump h (assistant_text_counts g)\<rparr>;
            n = count_of (assistant_text_counts g1) h in
        escalate \<lparr>pc_reason = ''repeated_assistant_text'', pc_detail = ''assistant produced repeated text without making progress'',
            pc_warn_key = ''text:'' @ h, pc_count = n, pc_warn_threshold = repeated_text_threshold cfg\<rparr>
          None None [(''text_digest'', PStr h), (''count'', PInt n)] g1)"

text \<open>\<open>int / int\<close> of non-negative ints, the divisor positive.\<close>

definition true_div :: "int \<Rightarrow> int \<Rightarrow> rat" where
  "true_div a b = (if a = 0 then 0 else nearest_double (rat_of_int a / rat_of_int b))"

definition observe_provider_call_cost ::
  "guard_config \<Rightarrow> int \<Rightarrow> int \<Rightarrow> int \<Rightarrow> int \<Rightarrow> guard \<Rightarrow> guard_decision option \<times> guard" where
  "observe_provider_call_cost cfg projected_input_tokens output_tokens cache_read_tokens tool_schema_tokens g =
     (let projected = max projected_input_tokens 0; out = max output_tokens 0;
          cache_read = max cache_read_tokens 0; tool_schema = max tool_schema_tokens 0 in
      if projected \<le> 0 then (None, g)
      else
        let hit = true_div cache_read projected; ratio = true_div projected (max out 1);
            high_ratio = (0 < out \<and> rat_of_int (high_prompt_output_ratio cfg) \<le> ratio);
            large = (high_tool_schema_tokens cfg \<le> tool_schema \<and> hit \<le> low_cache_hit_rate cfg) in
        if \<not> high_ratio \<and> \<not> large then (None, g)
        else
          let g1 = g\<lparr>provider_cost_pressure_count := provider_cost_pressure_count g + 1\<rparr> in
          escalate \<lparr>pc_reason = ''provider_call_cost_pressure'',
              pc_detail = ''provider calls are repeatedly spending large input/tool-schema tokens ''
                @ ''without proportional output or cache reads'',
              pc_warn_key = ''provider_call_cost_pressure'', pc_count = provider_cost_pressure_count g1,
              pc_warn_threshold = cost_pressure_threshold cfg\<rparr>
            None None [(''projected_input_tokens'', PInt projected), (''output_tokens'', PInt out),
              (''cache_read_tokens'', PInt cache_read), (''cache_hit_rate'', PFloat (double_text hit)),
              (''tool_schema_tokens'', PInt tool_schema), (''prompt_output_ratio'', PFloat (double_text ratio))] g1)"

section \<open>A run under observation\<close>

datatype observation =
    ToolCall string pyval
  | ToolResult string pyval string "string option" bool bool "string option"
  | AssistantText "string option"
  | ProviderCall int int int int

fun observe :: "(string \<Rightarrow> string) \<Rightarrow> guard_config \<Rightarrow> observation \<Rightarrow> guard \<Rightarrow> guard_decision option \<times> guard" where
  "observe sha cfg (ToolCall tool args) g = observe_tool_call sha cfg tool args g"
| "observe sha cfg (ToolResult tool args result out free exhausted tok) g =
     observe_tool_result sha cfg tool args result out free exhausted tok g"
| "observe sha cfg (AssistantText content) g = observe_assistant_text sha cfg content g"
| "observe sha cfg (ProviderCall a b c d) g = observe_provider_call_cost cfg a b c d g"

fun watch :: "(string \<Rightarrow> string) \<Rightarrow> guard_config \<Rightarrow> observation list \<Rightarrow> guard \<Rightarrow> guard_decision list \<times> guard" where
  "watch sha cfg [] g = ([], g)"
| "watch sha cfg (ob # obs) g =
     (case observe sha cfg ob g of (d, g1) \<Rightarrow>
      (case watch sha cfg obs g1 of (ds, g2) \<Rightarrow> ((case d of None \<Rightarrow> ds | Some x \<Rightarrow> x # ds), g2)))"

lemma decision_fields [simp]:
  "gu_severity (decision c s t a e g) = s" "gu_reason (decision c s t a e g) = pc_reason c"
  "gu_outcome (decision c s t a e g) = runtime_outcome_for_loop_guard (pc_reason c) s (pc_count c) (pc_warn_threshold c)"
  by (simp_all add: decision_def Let_def)

text \<open>What an observation may do to the warnings: nothing, or one new key with one warning.\<close>

definition warns :: "guard_decision option \<Rightarrow> guard \<Rightarrow> guard \<Rightarrow> bool" where
  "warns d g g' \<longleftrightarrow>
     (case d of
        None \<Rightarrow> warned g' = warned g
      | Some x \<Rightarrow> if gu_severity x = Warn then (\<exists>k. k \<notin> set (warned g) \<and> warned g' = k # warned g)
          else warned g' = warned g)"

lemma escalate_warns:
  "warned g0 = warned g \<Longrightarrow> escalate c t a e g = (d, g') \<Longrightarrow> warns d g0 g'"
  by (auto simp: escalate_def warns_def Let_def split: if_splits)

lemma escalate_keeps:
  "escalate c t a e g = (d, g') \<Longrightarrow> total_tool_calls g' = total_tool_calls g \<and> failed_tool_calls g' = failed_tool_calls g
     \<and> failure_counts g' = failure_counts g \<and> tool_arg_counts g' = tool_arg_counts g
     \<and> assistant_text_counts g' = assistant_text_counts g \<and> (\<forall>x. d = Some x \<longrightarrow> gu_severity x = Warn)"
  by (auto simp: escalate_def Let_def split: if_splits)

lemma escalate_None: "escalate c t a e g = (None, g') \<Longrightarrow> g' = g"
  by (auto simp: escalate_def Let_def split: if_splits)

lemma or_else_cases:
  assumes "or_else r f = (d, g')"
  obtains (first) x where "r = (Some x, g')" "d = Some x" | (second) g1 where "r = (None, g1)" "f g1 = (d, g')"
  using assms by (auto simp: or_else_def split: prod.splits option.splits)

lemma tool_call_warns: "observe_tool_call sha cfg tool args g = (d, g') \<Longrightarrow> warns d g g'"
  unfolding observe_tool_call_def Let_def
  by (erule or_else_cases) (auto dest!: escalate_None intro: escalate_warns [rotated])

lemma tool_result_warns:
  "observe_tool_result sha cfg tool args result out free exhausted tok g = (d, g') \<Longrightarrow> warns d g g'"
  unfolding observe_tool_result_def Let_def
  by (auto elim!: or_else_cases dest!: escalate_None intro: escalate_warns [rotated] split: if_splits option.splits)
     (auto simp: warns_def)

lemma text_warns: "observe_assistant_text sha cfg content g = (d, g') \<Longrightarrow> warns d g g'"
  unfolding observe_assistant_text_def Let_def
  by (auto simp: warns_def [of None] intro: escalate_warns [rotated] split: if_splits)

lemma cost_warns: "observe_provider_call_cost cfg a b c e g = (d, g') \<Longrightarrow> warns d g g'"
  unfolding observe_provider_call_cost_def Let_def
  by (auto simp: warns_def [of None] intro: escalate_warns [rotated] split: if_splits)

lemma observe_warns: "observe sha cfg ob g = (d, g') \<Longrightarrow> warns d g g'"
  by (cases ob) (auto intro: tool_call_warns tool_result_warns text_warns cost_warns)

text \<open>Every warning of a run has a key of its own.\<close>

lemma guard_warns_once:
  assumes "watch sha cfg obs g = (ds, g')" and "distinct (warned g)"
  shows "distinct (warned g') \<and> length (filter (\<lambda>d. gu_severity d = Warn) ds) + length (warned g) = length (warned g')"
  using assms
proof (induction obs arbitrary: g ds)
  case (Cons ob obs)
  obtain d g1 where o: "observe sha cfg ob g = (d, g1)" by force
  obtain ds' where w: "watch sha cfg obs g1 = (ds', g')" and ds: "ds = (case d of None \<Rightarrow> ds' | Some x \<Rightarrow> x # ds')"
    using Cons.prems(1) o by (auto split: prod.splits)
  from observe_warns [OF o] Cons.prems(2) have "distinct (warned g1)"
    by (auto simp: warns_def split: option.splits if_splits)
  from Cons.IH [OF w this] observe_warns [OF o] ds show ?case
    by (auto simp: warns_def split: option.splits if_splits)
qed simp

section \<open>The hard outcome\<close>

text \<open>The failure an observation counts.\<close>

definition failure_of :: "(string \<Rightarrow> string) \<Rightarrow> observation \<Rightarrow> (string \<times> string \<times> string) option" where
  "failure_of sha ob =
     (case ob of
        ToolResult tool args result out free exhausted tok \<Rightarrow>
          if failed_outcome out then Some (failure_key sha tool args result) else None
      | _ \<Rightarrow> None)"

lemma count_bump [simp]: "count_of (bump k m) k' = count_of m k' + (if k' = k then 1 else 0)"
  by (simp add: bump_def count_of_def)

lemma tool_result_counts:
  "observe_tool_result sha cfg tool args result out free exhausted tok g = (d, g') \<Longrightarrow> failed_outcome out \<Longrightarrow>
     failure_counts g' = bump (failure_key sha tool args result) (failure_counts g)"
  unfolding observe_tool_result_def Let_def
  by (auto elim!: or_else_cases dest!: escalate_keeps split: if_splits option.splits)

lemma others_count:
  "observe_tool_call sha cfg tool args g = (d, g') \<Longrightarrow> failure_counts g' = failure_counts g"
  "observe_assistant_text sha cfg content g = (d, g') \<Longrightarrow> failure_counts g' = failure_counts g"
  "observe_provider_call_cost cfg a b c e g = (d, g') \<Longrightarrow> failure_counts g' = failure_counts g"
  unfolding observe_tool_call_def observe_assistant_text_def observe_provider_call_cost_def Let_def
  by (auto elim!: or_else_cases dest!: escalate_keeps split: if_splits)

lemma observe_counts:
  "observe sha cfg ob g = (d, g') \<Longrightarrow>
     count_of (failure_counts g') k = count_of (failure_counts g) k + (if failure_of sha ob = Some k then 1 else 0)"
proof (cases ob)
  case (ToolResult tool args result out free exhausted tok)
  assume o: "observe sha cfg ob g = (d, g')"
  show ?thesis
  proof (cases "failed_outcome out")
    case True
    with o ToolResult tool_result_counts show ?thesis by (fastforce simp: failure_of_def)
  next
    case False
    with o ToolResult show ?thesis by (auto simp: failure_of_def observe_tool_result_def)
  qed
qed (auto simp: failure_of_def dest: others_count)

lemma watch_counts:
  "watch sha cfg obs g = (ds, g') \<Longrightarrow>
     count_of (failure_counts g') k
       = count_of (failure_counts g) k + int (length (filter (\<lambda>ob. failure_of sha ob = Some k) obs))"
proof (induction obs arbitrary: g ds)
  case (Cons ob obs)
  obtain d g1 where o: "observe sha cfg ob g = (d, g1)" by force
  then obtain ds' where "watch sha cfg obs g1 = (ds', g')" using Cons.prems by (auto split: prod.splits)
  from Cons.IH [OF this] observe_counts [OF o] show ?case by simp
qed simp

lemma others_warn:
  "observe_tool_call sha cfg tool args g = (Some x, g') \<Longrightarrow> gu_severity x = Warn"
  "observe_assistant_text sha cfg content g = (Some x, g') \<Longrightarrow> gu_severity x = Warn"
  "observe_provider_call_cost cfg a b c e g = (Some x, g') \<Longrightarrow> gu_severity x = Warn"
  unfolding observe_tool_call_def observe_assistant_text_def observe_provider_call_cost_def Let_def
  by (auto elim!: or_else_cases dest!: escalate_keeps split: if_splits)

lemma tool_result_abort:
  assumes "observe_tool_result sha cfg tool args result out free exhausted tok g = (Some d, g')" and "gu_severity d = Abort"
  shows "failed_outcome out \<and> free \<and> exhausted \<and> (\<exists>t. tok = Some t \<and> t \<noteq> [])
    \<and> abort_threshold (repeated_failure_threshold cfg) \<le> count_of (failure_counts g') (failure_key sha tool args result)
    \<and> gu_reason d = ''repeated_tool_failure'' \<and> oc_terminal_reason (gu_outcome d) = Some ''loop_guard''"
proof -
  have f: "failed_outcome out" using assms(1) by (auto simp: observe_tool_result_def split: if_splits)
  from tool_result_counts [OF assms(1) f]
  have n: "count_of (failure_counts g') (failure_key sha tool args result)
      = count_of (bump (failure_key sha tool args result) (failure_counts g)) (failure_key sha tool args result)" by simp
  show ?thesis
    unfolding n using assms f
    by (auto simp: observe_tool_result_def Let_def runtime_outcome_for_loop_guard_def
        elim!: or_else_cases dest!: escalate_keeps split: if_splits option.splits)
qed

text \<open>
  Claim C38. The loop guard aborts only on a proof: at a failed result of a tool call that is
  declared free of side effects and out of retries, with a progress token, after at least
  1.5 times the repeat threshold of failures with the same tool, arguments and result in the
  whole run; every other observation, and every count of its own, only warns.
\<close>

theorem loop_guard_aborts_on_proof:
  assumes "watch sha cfg obs new_guard = (ds, g)" and "observe sha cfg ob g = (Some d, g')" and "gu_severity d = Abort"
  shows "\<exists>tool args result out tok. ob = ToolResult tool args result out True True (Some tok) \<and> tok \<noteq> []
    \<and> failed_outcome out
    \<and> abort_threshold (repeated_failure_threshold cfg)
        \<le> 1 + int (length (filter (\<lambda>p. failure_of sha p = Some (failure_key sha tool args result)) obs))
    \<and> gu_reason d = ''repeated_tool_failure'' \<and> oc_terminal_reason (gu_outcome d) = Some ''loop_guard''"
proof -
  from assms(2,3) obtain tool args result out free exhausted tok
    where ob: "ob = ToolResult tool args result out free exhausted tok"
    by (cases ob) (auto dest!: others_warn)
  note a = tool_result_abort [OF assms(2) [unfolded ob observe.simps] assms(3)]
  from watch_counts [OF assms(1), of "failure_key sha tool args result"] observe_counts [OF assms(2), of "failure_key sha tool args result"] a ob
  show ?thesis by (auto simp: failure_of_def new_guard_def count_of_def)
qed

definition strict_config :: guard_config where
  "strict_config = \<lparr>total_tool_threshold = 100, failed_tool_threshold = 12, identical_tool_threshold = 5,
     repeated_failure_threshold = 0, repeated_text_threshold = 3, cost_pressure_threshold = 3,
     high_prompt_output_ratio = 200, high_tool_schema_tokens = 100000, low_cache_hit_rate = 0\<rparr>"

definition failing :: "string \<Rightarrow> observation" where
  "failing tok = ToolResult ''fetch'' (PDict []) ''timeout'' (Some ''failed'') True True (Some tok)"

theorem loop_guard_aborts_on_proof_witness:
  "\<exists>d. fst (observe id strict_config (failing ''t2'') (snd (watch id strict_config [failing ''t1''] new_guard))) = Some d
     \<and> gu_reason d = ''repeated_tool_failure''"
proof -
  let ?w = "watch id strict_config [failing ''t1''] new_guard"
  let ?o = "observe id strict_config (failing ''t2'') (snd ?w)"
  have "map_option gu_severity (fst ?o) = Some Abort" by code_simp
  then obtain d where d: "fst ?o = Some d" "gu_severity d = Abort" by auto
  then have o: "?o = (Some d, snd ?o)" by (metis prod.collapse)
  have "?w = (fst ?w, snd ?w)" by (rule prod.collapse [symmetric])
  from loop_guard_aborts_on_proof [OF this o d(2)] d(1) show ?thesis by blast
qed

section \<open>Progress tokens\<close>

fun retoken :: "(string \<Rightarrow> string) \<Rightarrow> observation \<Rightarrow> observation" where
  "retoken f (ToolResult tool args result out free exhausted tok) =
     ToolResult tool args result out free exhausted (map_option f tok)"
| "retoken f ob = ob"

definition same_verdict :: "guard_decision option \<times> guard \<Rightarrow> guard_decision option \<times> guard \<Rightarrow> bool" where
  "same_verdict r r' \<longleftrightarrow> snd r = snd r' \<and> map_option gu_severity (fst r) = map_option gu_severity (fst r')
     \<and> map_option gu_reason (fst r) = map_option gu_reason (fst r')"

lemma same_verdict_refl [simp]: "same_verdict r r"
  by (simp add: same_verdict_def)

lemma same_verdict_or_else: "(\<And>g. same_verdict (f g) (f' g)) \<Longrightarrow> same_verdict (or_else r f) (or_else r f')"
  by (cases r; cases "fst r") (auto simp: or_else_def)

lemma observe_retoken:
  assumes "\<forall>t. f t = [] \<longleftrightarrow> t = []"
  shows "same_verdict (observe sha cfg ob g) (observe sha cfg (retoken f ob) g)"
proof (cases ob)
  case (ToolResult tool args result out free exhausted tok)
  have "same_verdict (observe_tool_result sha cfg tool args result out free exhausted tok g)
      (observe_tool_result sha cfg tool args result out free exhausted (map_option f tok) g)"
    unfolding observe_tool_result_def Let_def
    by (auto intro!: same_verdict_or_else simp: assms split: option.split) (auto simp: same_verdict_def)
  with ToolResult show ?thesis by simp
qed simp_all

text \<open>
  The guard never compares progress tokens: replace every token of a history by any
  other non-empty one, the decisions keep their severities and reasons and the guard its
  state. So a run whose token changes with every failure is aborted like one that stands
  still.
\<close>

theorem progress_tokens_are_not_compared:
  assumes "\<forall>t. f t = [] \<longleftrightarrow> t = []"
  shows "snd (watch sha cfg (map (retoken f) obs) g) = snd (watch sha cfg obs g)
    \<and> map gu_severity (fst (watch sha cfg (map (retoken f) obs) g)) = map gu_severity (fst (watch sha cfg obs g))
    \<and> map gu_reason (fst (watch sha cfg (map (retoken f) obs) g)) = map gu_reason (fst (watch sha cfg obs g))"
proof (induction obs arbitrary: g)
  case (Cons ob obs)
  obtain d g1 where o: "observe sha cfg ob g = (d, g1)" by force
  obtain d' g1' where o': "observe sha cfg (retoken f ob) g = (d', g1')" by force
  from observe_retoken [OF assms, of sha cfg ob g] o o' have "g1' = g1"
    "map_option gu_severity d = map_option gu_severity d'" "map_option gu_reason d = map_option gu_reason d'"
    by (simp_all add: same_verdict_def)
  with Cons.IH [of g1] o o' show ?case
    by (auto split: prod.splits option.splits)
qed simp

theorem progress_tokens_are_not_compared_witness:
  "map gu_severity (fst (watch id strict_config (map (retoken (\<lambda>t. if t = [] then [] else ''moved'' @ t)) [failing ''t1'', failing ''t1'']) new_guard))
     = map gu_severity (fst (watch id strict_config [failing ''t1'', failing ''t1''] new_guard))"
  by (rule conjunct1 [OF conjunct2 [OF progress_tokens_are_not_compared]]) simp

end
