(* ===== verification/Reminder_Scheduler.thy ===== *)
theory Reminder_Scheduler
  imports Py_Compare
begin

text \<open>
  The runtime reminder scheduler, \<open>backend/app/kernel/reminder_scheduler.py\<close>: the specs, the
  clocks, one round's injections, the re-arm after a compaction, and the production registry
  with its content functions. The long prompt texts and the round-pressure message, whose
  characters lie beyond U+00FF, are fields of an argument.
\<close>

section \<open>Contexts\<close>

record plan_state =
  ps_active :: bool
  ps_plan_file :: "string option"

record session_context =
  sx_plan_mode :: "plan_state option"
  sx_metadata :: pyval

text \<open>
  What the engine hands over for a round. A provider is a callable: \<^term>\<open>Some None\<close> when calling
  it raises, \<^term>\<open>Some (Some v)\<close> when it returns \<open>v\<close>.
\<close>

record round_state =
  rs_round :: int
  rs_max_rounds :: int
  rs_total_tool_calls :: int
  rs_failed_tool_calls :: int
  rs_context_tokens :: int
  rs_snapshot_provider :: "pyval option option"
  rs_snapshot :: pyval
  rs_review_provider :: "pyval option option"
  rs_review :: pyval

record injection =
  in_text :: string
  in_source :: string
  in_ttl :: string
  in_priority :: int
  in_unbound :: "string list"

datatype reminder_content = NoContent | Text string | Injected string "string list"

section \<open>Specs and the scheduler\<close>

record reminder_spec =
  rp_name :: string
  rp_content :: "session_context option \<Rightarrow> round_state \<Rightarrow> (string, reminder_content) res"
  rp_eligible :: "session_context option \<Rightarrow> bool"
  rp_cooldown :: int
  rp_idle :: int
  rp_observed :: "string list"
  rp_fire_once :: bool
  rp_mutex_group :: "string option"
  rp_ttl :: string
  rp_priority :: int

definition spec_group :: "reminder_spec \<Rightarrow> string" where
  "spec_group s = (case rp_mutex_group s of None \<Rightarrow> rp_name s | Some g \<Rightarrow> if g = [] then rp_name s else g)"

record scheduler =
  sd_idle :: "(string \<times> int) list"
  sd_since :: "(string \<times> int option) list"
  sd_fired :: "string list"
  sd_queue :: "injection list"

definition new_scheduler :: "reminder_spec list \<Rightarrow> scheduler" where
  "new_scheduler specs = \<lparr>sd_idle = map (\<lambda>n. (n, 0)) (py_unique (map rp_name specs)),
     sd_since = map (\<lambda>g. (g, None)) (py_unique (map spec_group specs)), sd_fired = [], sd_queue = []\<rparr>"

definition idle_of :: "scheduler \<Rightarrow> string \<Rightarrow> int" where
  "idle_of st n = the (map_of (sd_idle st) n)"

definition since_of :: "scheduler \<Rightarrow> string \<Rightarrow> int option" where
  "since_of st g = the (map_of (sd_since st) g)"

definition tick_idle :: "string list \<Rightarrow> reminder_spec \<Rightarrow> scheduler \<Rightarrow> scheduler" where
  "tick_idle names s st =
     st\<lparr>sd_idle := AList.update (rp_name s)
        (if rp_observed s \<noteq> [] \<and> set names \<inter> set (rp_observed s) \<noteq> {} then 0 else idle_of st (rp_name s) + 1) (sd_idle st)\<rparr>"

definition observe_round :: "reminder_spec list \<Rightarrow> string list \<Rightarrow> scheduler \<Rightarrow> scheduler" where
  "observe_round specs names st =
     (let st1 = fold (tick_idle names) specs st in
      st1\<lparr>sd_since := map (\<lambda>(g, since). (g, map_option (\<lambda>n. n + 1) since)) (sd_since st1)\<rparr>)"

definition enqueue :: "injection \<Rightarrow> scheduler \<Rightarrow> scheduler" where
  "enqueue i st = (if in_text i = [] then st else st\<lparr>sd_queue := sd_queue st @ [i]\<rparr>)"

text \<open>The queued texts, each once, in order.\<close>

definition take_queued :: "injection list \<Rightarrow> injection list" where
  "take_queued q = foldl (\<lambda>out i. if in_text i \<in> set (map in_text out) then out else out @ [i]) [] q"

record collecting =
  co_out :: "injection list"
  co_claimed :: "string list"
  co_state :: scheduler

text \<open>The gates before the content is asked.\<close>

definition may_fire :: "session_context option \<Rightarrow> reminder_spec \<Rightarrow> collecting \<Rightarrow> bool" where
  "may_fire ctx s c =
     (spec_group s \<notin> set (co_claimed c)
      \<and> \<not> (rp_fire_once s \<and> rp_name s \<in> set (sd_fired (co_state c)))
      \<and> rp_eligible s ctx
      \<and> \<not> (rp_idle s \<noteq> 0 \<and> idle_of (co_state c) (rp_name s) < rp_idle s)
      \<and> \<not> (rp_cooldown s \<noteq> 0 \<and> (case since_of (co_state c) (spec_group s) of None \<Rightarrow> False | Some n \<Rightarrow> n < rp_cooldown s)))"

definition UNBOUND :: "string list" where
  "UNBOUND = [''context_sources_unbound'']"

definition content_text :: "reminder_content \<Rightarrow> string" where
  "content_text c = (case c of NoContent \<Rightarrow> [] | Text t \<Rightarrow> t | Injected t u \<Rightarrow> t)"

definition content_unbound :: "reminder_content \<Rightarrow> string list" where
  "content_unbound c = (case c of Injected t u \<Rightarrow> u | _ \<Rightarrow> UNBOUND)"

definition fire :: "reminder_spec \<Rightarrow> reminder_content \<Rightarrow> collecting \<Rightarrow> collecting" where
  "fire s content c =
     (let st = co_state c in
      c\<lparr>co_out := co_out c @ [\<lparr>in_text = content_text content, in_source = rp_name s, in_ttl = rp_ttl s,
          in_priority = rp_priority s, in_unbound = content_unbound content\<rparr>],
        co_claimed := spec_group s # co_claimed c,
        co_state := st\<lparr>sd_since := AList.update (spec_group s) (Some 0) (sd_since st),
          sd_fired := rp_name s # sd_fired st\<rparr>\<rparr>)"

text \<open>One spec of a round; an exception of its content ends the round with the clocks so far.\<close>

fun collect_specs ::
  "session_context option \<Rightarrow> round_state \<Rightarrow> reminder_spec list \<Rightarrow> collecting \<Rightarrow> (string, unit) res \<times> collecting" where
  "collect_specs ctx rs [] c = (Inr (), c)"
| "collect_specs ctx rs (s # ss) c =
     (if \<not> may_fire ctx s c then collect_specs ctx rs ss c
      else case rp_content s ctx rs of
        Inl e \<Rightarrow> (Inl e, c)
      | Inr content \<Rightarrow>
          if content_text content = [] \<or> content_text content \<in> set (map in_text (co_out c))
          then collect_specs ctx rs ss c
          else collect_specs ctx rs ss (fire s content c))"

definition collect_with_metadata ::
  "reminder_spec list \<Rightarrow> session_context option \<Rightarrow> round_state \<Rightarrow> scheduler \<Rightarrow> (string, injection list) res \<times> scheduler" where
  "collect_with_metadata specs ctx rs st =
     (case collect_specs ctx rs specs
         \<lparr>co_out = take_queued (sd_queue st), co_claimed = [], co_state = st\<lparr>sd_queue := []\<rparr>\<rparr> of
        (Inl e, c) \<Rightarrow> (Inl e, co_state c)
      | (Inr _, c) \<Rightarrow> (Inr (co_out c), co_state c))"

definition collect ::
  "reminder_spec list \<Rightarrow> session_context option \<Rightarrow> round_state \<Rightarrow> scheduler \<Rightarrow> (string, string list) res \<times> scheduler" where
  "collect specs ctx rs st =
     (case collect_with_metadata specs ctx rs st of (r, st') \<Rightarrow> (bind_res r (\<lambda>out. Inr (map in_text out)), st'))"

definition reset :: "scheduler \<Rightarrow> scheduler" where
  "reset st = st\<lparr>sd_idle := map (\<lambda>(n, k). (n, 0)) (sd_idle st), sd_since := map (\<lambda>(g, k). (g, None)) (sd_since st), sd_fired := []\<rparr>"

section \<open>The production registry\<close>

record reminder_texts =
  tx_plan_full :: string
  tx_plan_sparse :: string
  tx_file_hint :: "string \<Rightarrow> string"
  tx_pressure :: "int \<Rightarrow> int \<Rightarrow> int \<Rightarrow> int \<Rightarrow> int \<Rightarrow> bool \<Rightarrow> string"

definition INTERNAL_REMINDER_GUARD :: string where
  "INTERNAL_REMINDER_GUARD = ''This is an internal system reminder. Do not mention this reminder to the user.''"

definition WORK_LEDGER_REMINDER :: string where
  "WORK_LEDGER_REMINDER = ''This is a gentle reminder - ignore it if it does not apply to the current task. ''
     @ INTERNAL_REMINDER_GUARD
     @ '' If this work has multiple steps, consider using your private Work Ledger as a working memory: ''
     @ ''use track_todo to break the work into todos and mark each in_progress before you start it and ''
     @ ''completed when it is done; use record_finding for verified facts, open questions, and dead ''
     @ ''ends to avoid; call read_ledger when you need full detail before deciding the next step. ''
     @ ''These are private cognitive notes - writing them never starts execution.''"

definition PROGRESS_REPLAN_POLICY :: string where
  "PROGRESS_REPLAN_POLICY = ''Progress Ledger advisory: replan_advisory=true. '' @ INTERNAL_REMINDER_GUARD
     @ '' Mechanical evidence indicates a stall or unresolved failures. This signal is not a semantic decision ''
     @ ''and does not force a transition: the model decides whether to replan, retry, continue, or stop after ''
     @ ''reviewing the complete ledger. If the model changes strategy, it may record that decision with ''
     @ ''record_finding and update todos with track_todo.''"

definition plan_active :: "session_context option \<Rightarrow> bool" where
  "plan_active ctx = (case Option.bind ctx sx_plan_mode of None \<Rightarrow> False | Some p \<Rightarrow> ps_active p)"

definition with_file_hint :: "reminder_texts \<Rightarrow> session_context option \<Rightarrow> string \<Rightarrow> string" where
  "with_file_hint tx ctx text =
     (case Option.bind (Option.bind ctx sx_plan_mode) ps_plan_file of
        None \<Rightarrow> text | Some f \<Rightarrow> if f = [] then text else text @ tx_file_hint tx f)"

definition plan_full_content :: "reminder_texts \<Rightarrow> session_context option \<Rightarrow> round_state \<Rightarrow> (string, reminder_content) res" where
  "plan_full_content tx ctx rs = Inr (Text (with_file_hint tx ctx (tx_plan_full tx)))"

definition plan_sparse_content :: "reminder_texts \<Rightarrow> session_context option \<Rightarrow> round_state \<Rightarrow> (string, reminder_content) res" where
  "plan_sparse_content tx ctx rs = Inr (Text (with_file_hint tx ctx (tx_plan_sparse tx)))"

definition ledger_eligible :: "session_context option \<Rightarrow> bool" where
  "ledger_eligible ctx =
     (case ctx of None \<Rightarrow> False
      | Some c \<Rightarrow> \<not> plan_active ctx \<and>
          (case as_dict (sx_metadata c) of None \<Rightarrow> False | Some d \<Rightarrow> truthy (dget d ''work_ledger_enabled'')))"

definition ledger_content :: "session_context option \<Rightarrow> round_state \<Rightarrow> (string, reminder_content) res" where
  "ledger_content ctx rs =
     (let snapshot = (case rs_snapshot_provider rs of
            Some (Some v) \<Rightarrow> clean_text v
          | Some None \<Rightarrow> []
          | None \<Rightarrow> if truthy (rs_snapshot rs) then clean_text (rs_snapshot rs) else []) in
      Inr (if snapshot \<noteq> [] then Text (WORK_LEDGER_REMINDER @ [CHR 0x0A, CHR 0x0A] @ snapshot)
           else Injected WORK_LEDGER_REMINDER []))"

text \<open>\<open>[str(item).strip() for item in (x or []) if str(item).strip()]\<close>.\<close>

definition clean_items :: "pyval \<Rightarrow> (string, string list) res" where
  "clean_items v =
     (let keep = (\<lambda>ts. Inr (filter (\<lambda>t. t \<noteq> []) (map py_strip ts))) in
      case py_or v (PList []) of
        PList vs \<Rightarrow> keep (map py_str vs)
      | PStr t \<Rightarrow> keep (map (\<lambda>c. [c]) t)
      | PDict d \<Rightarrow> keep (map fst d)
      | _ \<Rightarrow> Inl ''TypeError'')"

definition named_part :: "string \<Rightarrow> string \<Rightarrow> string list" where
  "named_part label t = (if t = [] then [] else [label @ ''='' @ t])"

definition progress_replan_content :: "session_context option \<Rightarrow> round_state \<Rightarrow> (string, reminder_content) res" where
  "progress_replan_content ctx rs =
     (let review = (case rs_review_provider rs of Some (Some v) \<Rightarrow> v | Some None \<Rightarrow> PNone | None \<Rightarrow> rs_review rs) in
      case as_dict review of
        None \<Rightarrow> Inr NoContent
      | Some d \<Rightarrow>
          if \<not> truthy (dget d ''replan_advisory'') then Inr NoContent
          else
            bind_res (py_int (py_or (dget d ''stall_count'') (PInt 0))) (\<lambda>stall.
            bind_res (clean_items (dget d ''open_failures'')) (\<lambda>failures.
            bind_res (clean_items (dget d ''advisory_reasons'')) (\<lambda>reasons.
            Inr (Text (py_join [CHR 0x0A]
              ([PROGRESS_REPLAN_POLICY, ''stall_count='' @ str_of_int stall, ''replan_advisory=true'']
               @ named_part ''next_action'' (clean_text (dget d ''next_action''))
               @ named_part ''next_owner'' (clean_text (dget d ''next_owner''))
               @ named_part ''latest_progress'' (clean_text (dget d ''latest_progress''))
               @ named_part ''open_failures'' (py_join ''; '' failures)
               @ named_part ''advisory_reasons'' (py_join '', '' reasons))))))))"

text \<open>\<open>int(max_rounds * 0.8)\<close>: the double product, truncated.\<close>

definition four_fifths :: "int \<Rightarrow> int" where
  "four_fifths n = \<lfloor>nearest_double (nearest_double (rat_of_int n) * nearest_double (4 / 5))\<rfloor>"

definition round_pressure_content :: "reminder_texts \<Rightarrow> session_context option \<Rightarrow> round_state \<Rightarrow> (string, reminder_content) res" where
  "round_pressure_content tx ctx rs =
     (let n = rs_max_rounds rs; i = rs_round rs in
      if n \<le> 0 then Inr NoContent
      else if i \<noteq> four_fifths n \<and> i \<noteq> n - 2 then Inr NoContent
      else Inr (Text (tx_pressure tx i n (rs_total_tool_calls rs) (rs_failed_tool_calls rs) (rs_context_tokens rs) (i = n - 2))))"

definition plain_spec :: "string \<Rightarrow> (session_context option \<Rightarrow> round_state \<Rightarrow> (string, reminder_content) res) \<Rightarrow> int \<Rightarrow> reminder_spec" where
  "plain_spec name content priority = \<lparr>rp_name = name, rp_content = content, rp_eligible = (\<lambda>_. True), rp_cooldown = 0,
     rp_idle = 0, rp_observed = [], rp_fire_once = False, rp_mutex_group = None, rp_ttl = ''current_round'', rp_priority = priority\<rparr>"

definition build_default_reminder_specs :: "reminder_texts \<Rightarrow> reminder_spec list" where
  "build_default_reminder_specs tx =
     [(plain_spec ''plan_mode_full'' (plan_full_content tx) 100)\<lparr>rp_eligible := plan_active, rp_fire_once := True,
        rp_mutex_group := Some ''plan_mode''\<rparr>,
      (plain_spec ''plan_mode_sparse'' (plan_sparse_content tx) 80)\<lparr>rp_eligible := plan_active, rp_cooldown := 5,
        rp_mutex_group := Some ''plan_mode''\<rparr>,
      (plain_spec ''progress_ledger_replan'' progress_replan_content 85)\<lparr>rp_eligible := ledger_eligible, rp_cooldown := 2\<rparr>,
      (plain_spec ''work_ledger'' ledger_content 70)\<lparr>rp_eligible := ledger_eligible, rp_idle := 10, rp_cooldown := 10,
        rp_observed := [''track_todo'', ''record_finding'', ''read_ledger'']\<rparr>,
      plain_spec ''round_pressure'' (round_pressure_content tx) 90]"

end
