(* ===== verification/Reminder_Run.thy ===== *)
theory Reminder_Run
  imports Reminder_Scheduler
begin

text \<open>
  Histories of the reminder scheduler and what they promise: throttling by group, fire-once
  reminders, idle clocks, and queued warnings that no re-arm loses.
\<close>

section \<open>One round\<close>

text \<open>The gates of a spec on the clocks before the round.\<close>

definition open_gate :: "session_context option \<Rightarrow> reminder_spec \<Rightarrow> scheduler \<Rightarrow> bool" where
  "open_gate ctx s st \<longleftrightarrow> \<not> (rp_fire_once s \<and> rp_name s \<in> set (sd_fired st)) \<and> rp_eligible s ctx
     \<and> \<not> (rp_idle s \<noteq> 0 \<and> idle_of st (rp_name s) < rp_idle s)
     \<and> \<not> (rp_cooldown s \<noteq> 0 \<and> (case since_of st (spec_group s) of None \<Rightarrow> False | Some n \<Rightarrow> n < rp_cooldown s))"

lemma may_fire_open: "may_fire ctx s c \<longleftrightarrow> spec_group s \<notin> set (co_claimed c) \<and> open_gate ctx s (co_state c)"
  by (simp add: may_fire_def open_gate_def)

lemma fire_simps [simp]:
  "co_claimed (fire s x c) = spec_group s # co_claimed c"
  "sd_fired (co_state (fire s x c)) = rp_name s # sd_fired (co_state c)"
  "sd_idle (co_state (fire s x c)) = sd_idle (co_state c)"
  "sd_queue (co_state (fire s x c)) = sd_queue (co_state c)"
  "idle_of (co_state (fire s x c)) n = idle_of (co_state c) n"
  "since_of (co_state (fire s x c)) g = (if g = spec_group s then Some 0 else since_of (co_state c) g)"
  "map in_text (co_out (fire s x c)) = map in_text (co_out c) @ [content_text x]"
  "map in_source (co_out (fire s x c)) = map in_source (co_out c) @ [rp_name s]"
  by (simp_all add: fire_def Let_def idle_of_def since_of_def)

lemma fire_prefix: "\<exists>i. co_out (fire s x c) = co_out c @ [i]"
  by (simp add: fire_def Let_def)

definition texts_once :: "injection list \<Rightarrow> bool" where
  "texts_once out \<longleftrightarrow> distinct (map in_text out)"

lemma texts_once_fire:
  "texts_once (co_out c) \<Longrightarrow> content_text x \<notin> set (map in_text (co_out c)) \<Longrightarrow> texts_once (co_out (fire s x c))"
  unfolding texts_once_def fire_simps by simp

text \<open>What one round adds, and the clocks it leaves.\<close>

definition round_of ::
  "session_context option \<Rightarrow> reminder_spec list \<Rightarrow> collecting \<Rightarrow> reminder_spec list \<Rightarrow> injection list \<Rightarrow> collecting \<Rightarrow> bool" where
  "round_of ctx ss c fs injs c' \<longleftrightarrow> set fs \<subseteq> set ss \<and> co_out c' = co_out c @ injs \<and> map in_source injs = map rp_name fs
     \<and> distinct (map spec_group fs)
     \<and> (\<forall>s \<in> set fs. spec_group s \<notin> set (co_claimed c) \<and> open_gate ctx s (co_state c))
     \<and> (\<forall>g. since_of (co_state c') g = (if g \<in> spec_group ` set fs then Some 0 else since_of (co_state c) g))
     \<and> set (sd_fired (co_state c')) = rp_name ` set fs \<union> set (sd_fired (co_state c))
     \<and> sd_idle (co_state c') = sd_idle (co_state c) \<and> sd_queue (co_state c') = sd_queue (co_state c)
     \<and> fst ` set (sd_since (co_state c')) = spec_group ` set fs \<union> fst ` set (sd_since (co_state c))
     \<and> (texts_once (co_out c) \<longrightarrow> texts_once (co_out c'))"

lemma round_none: "round_of ctx ss c [] [] c"
  by (simp add: round_of_def)

lemma round_skip: "round_of ctx ss c fs injs c' \<Longrightarrow> round_of ctx (s # ss) c fs injs c'"
  by (auto simp: round_of_def)

lemma fire_keys: "fst ` set (sd_since (co_state (fire s x c))) = insert (spec_group s) (fst ` set (sd_since (co_state c)))"
  by (simp add: fire_def Let_def)

lemma round_fire:
  assumes r: "round_of ctx ss (fire s x c) fs injs c'" and s: "may_fire ctx s c"
    and new: "content_text x \<notin> set (map in_text (co_out c))"
  shows "\<exists>i. round_of ctx (s # ss) c (s # fs) (i # injs) c'"
proof -
  obtain i where i: "co_out (fire s x c) = co_out c @ [i]" using fire_prefix by blast
  have "in_source i = rp_name s"
    using fire_simps(8) [of s x c] i by simp
  moreover have gate: "open_gate ctx t (co_state c)" if "t \<in> set fs" for t
    using r that by (auto simp: round_of_def open_gate_def split: if_splits)
  ultimately have "round_of ctx (s # ss) c (s # fs) (i # injs) c'"
    using r s i fire_keys [of s x c] texts_once_fire [OF _ new, of s] unfolding round_of_def may_fire_open
    by (auto simp: image_iff)
  then show ?thesis ..
qed

lemma collect_specs_round: "collect_specs ctx rs ss c = (r, c') \<Longrightarrow> \<exists>fs injs. round_of ctx ss c fs injs c'"
proof (induction ss arbitrary: c)
  case Nil
  then show ?case using round_none by fastforce
next
  case (Cons s ss)
  show ?case
  proof (cases "may_fire ctx s c")
    case False
    with Cons obtain fs injs where "round_of ctx ss c fs injs c'" by fastforce
    from round_skip [OF this] show ?thesis by blast
  next
    case True
    show ?thesis
    proof (cases "rp_content s ctx rs")
      case (Inl e)
      with Cons.prems True have "c' = c" by simp
      then show ?thesis using round_none by blast
    next
      case (Inr x)
      show ?thesis
      proof (cases "content_text x = [] \<or> content_text x \<in> set (map in_text (co_out c))")
        case True
        with Cons Inr \<open>may_fire ctx s c\<close> obtain fs injs where "round_of ctx ss c fs injs c'" by fastforce
        from round_skip [OF this] show ?thesis by blast
      next
        case False
        with Cons.prems Inr True have "collect_specs ctx rs ss (fire s x c) = (r, c')" by simp
        from Cons.IH [OF this] obtain fs injs where "round_of ctx ss (fire s x c) fs injs c'" by blast
        from round_fire [OF this True] False show ?thesis by blast
      qed
    qed
  qed
qed

lemma take_queued_texts: "set (map in_text (take_queued q)) = in_text ` set q \<and> distinct (map in_text (take_queued q))"
proof -
  have "set (map in_text (foldl (\<lambda>out i. if in_text i \<in> set (map in_text out) then out else out @ [i]) out q))
      = in_text ` set q \<union> in_text ` set out
    \<and> (distinct (map in_text out) \<longrightarrow>
        distinct (map in_text (foldl (\<lambda>out i. if in_text i \<in> set (map in_text out) then out else out @ [i]) out q)))" for out
    by (induction q arbitrary: out) auto
  from this [of "[]"] show ?thesis by (simp add: take_queued_def)
qed

section \<open>Histories\<close>

text \<open>What happened so far, the latest first; a round is known by the names it injected.\<close>

datatype sched_event = Observed "string list" | Queued injection | Collected "string list" | Rearmed

definition start_collecting :: "scheduler \<Rightarrow> collecting" where
  "start_collecting st = \<lparr>co_out = take_queued (sd_queue st), co_claimed = [], co_state = st\<lparr>sd_queue := []\<rparr>\<rparr>"

definition fired_names :: "scheduler \<Rightarrow> collecting \<Rightarrow> string list" where
  "fired_names st c = map in_source (drop (length (take_queued (sd_queue st))) (co_out c))"

inductive history :: "reminder_spec list \<Rightarrow> sched_event list \<Rightarrow> scheduler \<Rightarrow> bool" for specs where
  start: "history specs [] (new_scheduler specs)"
| observed: "history specs h st \<Longrightarrow> history specs (Observed ns # h) (observe_round specs ns st)"
| queued: "history specs h st \<Longrightarrow> history specs (Queued i # h) (enqueue i st)"
| collected: "history specs h st \<Longrightarrow> collect_specs ctx rs specs (start_collecting st) = (r, c) \<Longrightarrow>
    history specs (Collected (fired_names st c) # h) (co_state c)"
| rearmed: "history specs h st \<Longrightarrow> history specs (Rearmed # h) (reset st)"

text \<open>Rounds observed since the group was injected, if it was since the last re-arm.\<close>

fun rounds_since :: "reminder_spec list \<Rightarrow> string \<Rightarrow> sched_event list \<Rightarrow> int option" where
  "rounds_since specs g [] = None"
| "rounds_since specs g (Observed ns # h) = map_option (\<lambda>n. n + 1) (rounds_since specs g h)"
| "rounds_since specs g (Collected ns # h) =
     (if \<exists>s \<in> set specs. rp_name s \<in> set ns \<and> spec_group s = g then Some 0 else rounds_since specs g h)"
| "rounds_since specs g (Rearmed # h) = None"
| "rounds_since specs g (Queued i # h) = rounds_since specs g h"

fun fired_before :: "string \<Rightarrow> sched_event list \<Rightarrow> bool" where
  "fired_before n [] = False"
| "fired_before n (Collected ns # h) = (n \<in> set ns \<or> fired_before n h)"
| "fired_before n (Rearmed # h) = False"
| "fired_before n (e # h) = fired_before n h"

text \<open>Rounds since one of the observed tools was used.\<close>

fun idle_rounds :: "reminder_spec \<Rightarrow> sched_event list \<Rightarrow> int" where
  "idle_rounds s [] = 0"
| "idle_rounds s (Observed ns # h) =
     (if rp_observed s \<noteq> [] \<and> set ns \<inter> set (rp_observed s) \<noteq> {} then 0 else idle_rounds s h + 1)"
| "idle_rounds s (Rearmed # h) = 0"
| "idle_rounds s (e # h) = idle_rounds s h"

fun pending :: "sched_event list \<Rightarrow> injection list" where
  "pending [] = []"
| "pending (Queued i # h) = pending h @ (if in_text i = [] then [] else [i])"
| "pending (Collected ns # h) = []"
| "pending (e # h) = pending h"

lemma idle_rounds_nonneg: "0 \<le> idle_rounds s h"
  by (induction s h rule: idle_rounds.induct) auto

lemma rounds_since_nonneg: "rounds_since specs g h = Some n \<Longrightarrow> 0 \<le> n"
  by (induction specs g h arbitrary: n rule: rounds_since.induct) (auto split: if_splits)

section \<open>The clocks count the history\<close>

lemma idle_fold:
  assumes "distinct (map rp_name ss)"
  shows "idle_of (fold (tick_idle ns) ss st) n =
    (case find (\<lambda>s. rp_name s = n) ss of None \<Rightarrow> idle_of st n
     | Some s \<Rightarrow> if rp_observed s \<noteq> [] \<and> set ns \<inter> set (rp_observed s) \<noteq> {} then 0 else idle_of st n + 1)"
  using assms
proof (induction ss arbitrary: st)
  case (Cons s ss)
  from Cons.prems have "rp_name s \<notin> rp_name ` set ss" by simp
  then have "find (\<lambda>t. rp_name t = rp_name s) ss = None" unfolding find_None_iff by (metis imageI)
  with Cons show ?case by (auto simp: tick_idle_def idle_of_def split: option.splits)
qed simp

lemma tick_keeps [simp]:
  "sd_since (fold (tick_idle ns) ss st) = sd_since st" "sd_fired (fold (tick_idle ns) ss st) = sd_fired st"
  "sd_queue (fold (tick_idle ns) ss st) = sd_queue st"
  by (induction ss arbitrary: st) (simp_all add: tick_idle_def)

lemma find_name: "distinct (map rp_name ss) \<Longrightarrow> s \<in> set ss \<Longrightarrow> find (\<lambda>t. rp_name t = rp_name s) ss = Some s"
  by (induction ss) (auto simp: image_iff)

lemma map_of_snd: "map_of (map (\<lambda>(k, v). (k, f v)) xs) k = map_option f (map_of xs k)"
  by (induction xs) auto

lemma map_of_const: "map_of (map (\<lambda>x. (x, c)) xs) k = (if k \<in> set xs then Some c else None)"
  by (induction xs) auto

definition clocks_count :: "reminder_spec list \<Rightarrow> sched_event list \<Rightarrow> scheduler \<Rightarrow> bool" where
  "clocks_count specs h st \<longleftrightarrow>
     (\<forall>s \<in> set specs. rp_name s \<in> fst ` set (sd_idle st) \<and> idle_of st (rp_name s) = idle_rounds s h
        \<and> spec_group s \<in> fst ` set (sd_since st) \<and> since_of st (spec_group s) = rounds_since specs (spec_group s) h
        \<and> (rp_name s \<in> set (sd_fired st) \<longleftrightarrow> fired_before (rp_name s) h))
     \<and> sd_queue st = pending h"

lemma clocks_observed:
  assumes "distinct (map rp_name specs)" and "clocks_count specs h st"
  shows "clocks_count specs (Observed ns # h) (observe_round specs ns st)"
proof -
  have keys: "fst ` set (sd_idle (fold (tick_idle ns) ss u)) = rp_name ` set ss \<union> fst ` set (sd_idle u)" for ss u
    by (induction ss arbitrary: u) (simp_all add: tick_idle_def)
  have "idle_of (observe_round specs ns st) n = idle_of (fold (tick_idle ns) specs st) n" for n
    by (simp add: observe_round_def Let_def idle_of_def)
  moreover have "since_of (observe_round specs ns st) g = map_option (\<lambda>n. n + 1) (since_of st g)"
    if "g \<in> fst ` set (sd_since st)" for g
  proof -
    from that obtain v where "map_of (sd_since st) g = Some v" by (metis domD dom_map_of_conv_image_fst)
    then show ?thesis by (simp add: observe_round_def Let_def since_of_def map_of_snd)
  qed
  moreover have "fst ` set (sd_since (observe_round specs ns st)) = fst ` set (sd_since st)"
    by (force simp: observe_round_def Let_def)
  moreover have "sd_fired (observe_round specs ns st) = sd_fired st" "sd_queue (observe_round specs ns st) = sd_queue st"
    "sd_idle (observe_round specs ns st) = sd_idle (fold (tick_idle ns) specs st)"
    by (simp_all add: observe_round_def Let_def)
  ultimately show ?thesis
    using assms keys [of specs st] unfolding clocks_count_def
    by (auto simp: idle_fold [OF assms(1)] find_name [OF assms(1)])
qed

lemma clocks_collected:
  assumes names: "distinct (map rp_name specs)" and old: "clocks_count specs h st"
    and r: "collect_specs ctx rs specs (start_collecting st) = (r, c)"
  shows "clocks_count specs (Collected (fired_names st c) # h) (co_state c)"
proof -
  from collect_specs_round [OF r] obtain fs injs where fs: "round_of ctx specs (start_collecting st) fs injs c" by blast
  then have fired: "fired_names st c = map rp_name fs"
    by (simp add: round_of_def fired_names_def start_collecting_def)
  have same: "s = f" if "s \<in> set specs" "f \<in> set fs" "rp_name s = rp_name f" for s f
    using names that fs by (auto simp: round_of_def distinct_map dest: inj_onD)
  have "(\<exists>s \<in> set specs. rp_name s \<in> set (map rp_name fs) \<and> spec_group s = g) \<longleftrightarrow> g \<in> spec_group ` set fs" for g
    using fs same by (fastforce simp: round_of_def)
  moreover have "rp_name s \<in> set (sd_fired (co_state c)) \<longleftrightarrow> rp_name s \<in> set (map rp_name fs) \<or> rp_name s \<in> set (sd_fired st)" for s :: reminder_spec
    using fs by (auto simp: round_of_def start_collecting_def)
  ultimately show ?thesis
    using fs old unfolding clocks_count_def fired round_of_def
    by (auto simp: start_collecting_def idle_of_def since_of_def)
qed

lemma clocks_start: "clocks_count specs [] (new_scheduler specs)"
  by (auto simp: clocks_count_def new_scheduler_def idle_of_def since_of_def map_of_const image_image)

lemma clocks_rearmed: "clocks_count specs h st \<Longrightarrow> clocks_count specs (Rearmed # h) (reset st)"
proof -
  assume old: "clocks_count specs h st"
  have "idle_of (reset st) n = 0" if "n \<in> fst ` set (sd_idle st)" for n
  proof -
    from that obtain v where "map_of (sd_idle st) n = Some v" by (metis domD dom_map_of_conv_image_fst)
    then show ?thesis by (simp add: reset_def idle_of_def map_of_snd)
  qed
  moreover have "since_of (reset st) g = None" if "g \<in> fst ` set (sd_since st)" for g
  proof -
    from that obtain v where "map_of (sd_since st) g = Some v" by (metis domD dom_map_of_conv_image_fst)
    then show ?thesis by (simp add: reset_def since_of_def map_of_snd)
  qed
  moreover have "fst ` set (sd_idle (reset st)) = fst ` set (sd_idle st)" "fst ` set (sd_since (reset st)) = fst ` set (sd_since st)"
    by (force simp: reset_def)+
  ultimately show ?thesis using old by (simp add: clocks_count_def) (simp add: reset_def)
qed

lemma clocks: "history specs h st \<Longrightarrow> distinct (map rp_name specs) \<Longrightarrow> clocks_count specs h st"
proof (induction rule: history.induct)
  case (queued h st i)
  then show ?case by (simp add: clocks_count_def enqueue_def idle_of_def since_of_def)
qed (auto intro: clocks_start clocks_observed clocks_collected clocks_rearmed)

text \<open>
  Claim C39. After any history of rounds, warnings and re-arms, a round injects first every
  warning queued since the last round, each text once and none lost by a re-arm; then at most
  one reminder per group, only of eligible specs, none of a fire-once spec that fired since
  the last re-arm, none before its idle rounds have passed without one of its tools, and none
  within its cooldown after the last injection of its group; all texts of the round differ.
\<close>

theorem reminders_are_throttled:
  assumes "distinct (map rp_name specs)" and "history specs h st"
    and "collect_with_metadata specs ctx rs st = (Inr out, st')"
  shows "\<exists>fs injs. out = take_queued (pending h) @ injs \<and> in_text ` set (pending h) \<subseteq> in_text ` set out
    \<and> map in_source injs = map rp_name fs \<and> set fs \<subseteq> set specs
    \<and> distinct (map spec_group fs) \<and> distinct (map in_text out)
    \<and> (\<forall>s \<in> set fs. rp_eligible s ctx \<and> (rp_fire_once s \<longrightarrow> \<not> fired_before (rp_name s) h)
         \<and> (rp_idle s = 0 \<or> rp_idle s \<le> idle_rounds s h)
         \<and> (case rounds_since specs (spec_group s) h of None \<Rightarrow> True | Some n \<Rightarrow> rp_cooldown s = 0 \<or> rp_cooldown s \<le> n))"
proof -
  from clocks [OF assms(2,1)] have cl: "clocks_count specs h st" .
  from assms(3) obtain r c where r: "collect_specs ctx rs specs (start_collecting st) = (Inr r, c)" and out: "out = co_out c"
    by (auto simp: collect_with_metadata_def start_collecting_def split: prod.splits sum.splits)
  from collect_specs_round [OF r] obtain fs injs where fs: "round_of ctx specs (start_collecting st) fs injs c" by blast
  have q: "co_out (start_collecting st) = take_queued (pending h)"
    using cl by (simp add: start_collecting_def clocks_count_def)
  with take_queued_texts [of "pending h"] have "texts_once (co_out (start_collecting st))"
    by (simp add: texts_once_def)
  with fs have "texts_once out" unfolding out round_of_def by blast
  then have once: "distinct (map in_text out)" by (simp add: texts_once_def)
  have parts: "out = take_queued (pending h) @ injs" "map in_source injs = map rp_name fs" "set fs \<subseteq> set specs"
    "distinct (map spec_group fs)"
    using fs q unfolding out by (simp_all add: round_of_def)
  have queue: "in_text ` set (pending h) \<subseteq> in_text ` set out"
    using fs q take_queued_texts [of "pending h"] unfolding out by (auto simp: round_of_def)
  have gates: "rp_eligible s ctx \<and> (rp_fire_once s \<longrightarrow> \<not> fired_before (rp_name s) h)
         \<and> (rp_idle s = 0 \<or> rp_idle s \<le> idle_rounds s h)
         \<and> (case rounds_since specs (spec_group s) h of None \<Rightarrow> True | Some n \<Rightarrow> rp_cooldown s = 0 \<or> rp_cooldown s \<le> n)"
    if "s \<in> set fs" for s
  proof -
    from that fs have s: "s \<in> set specs" and gate: "open_gate ctx s st"
      by (auto simp: round_of_def open_gate_def start_collecting_def idle_of_def since_of_def)
    from cl s have "idle_of st (rp_name s) = idle_rounds s h"
      "since_of st (spec_group s) = rounds_since specs (spec_group s) h"
      "rp_name s \<in> set (sd_fired st) \<longleftrightarrow> fired_before (rp_name s) h"
      by (simp_all add: clocks_count_def)
    with gate show ?thesis
      unfolding open_gate_def by (cases "rounds_since specs (spec_group s) h") (simp_all add: not_less)
  qed
  from gates have "\<forall>s \<in> set fs. rp_eligible s ctx \<and> (rp_fire_once s \<longrightarrow> \<not> fired_before (rp_name s) h)
         \<and> (rp_idle s = 0 \<or> rp_idle s \<le> idle_rounds s h)
         \<and> (case rounds_since specs (spec_group s) h of None \<Rightarrow> True | Some n \<Rightarrow> rp_cooldown s = 0 \<or> rp_cooldown s \<le> n)"
    by blast
  with parts queue once show ?thesis by (intro exI [of _ fs] exI [of _ injs] conjI)
qed

text \<open>The plan reminders of the registry: the full text once, then the sparse one.\<close>

definition sample_texts :: reminder_texts where
  "sample_texts = \<lparr>tx_plan_full = ''full'', tx_plan_sparse = ''sparse'', tx_file_hint = (\<lambda>f. '' '' @ f),
     tx_pressure = (\<lambda>a b c d e f. ''pressure'')\<rparr>"

definition planning :: "session_context option" where
  "planning = Some \<lparr>sx_plan_mode = Some \<lparr>ps_active = True, ps_plan_file = None\<rparr>, sx_metadata = PNone\<rparr>"

definition quiet_round :: round_state where
  "quiet_round = \<lparr>rs_round = 1, rs_max_rounds = 0, rs_total_tool_calls = 0, rs_failed_tool_calls = 0, rs_context_tokens = 0,
     rs_snapshot_provider = None, rs_snapshot = PNone, rs_review_provider = None, rs_review = PNone\<rparr>"

definition sample_warning :: injection where
  "sample_warning = \<lparr>in_text = ''loop'', in_source = ''loop_guard'', in_ttl = ''next_collect'', in_priority = 90, in_unbound = []\<rparr>"

theorem reminders_are_throttled_witness:
  "\<exists>injs. fst (collect_with_metadata (build_default_reminder_specs sample_texts) planning quiet_round
       (reset (enqueue sample_warning (new_scheduler (build_default_reminder_specs sample_texts))))) = Inr (sample_warning # injs)"
proof -
  let ?specs = "build_default_reminder_specs sample_texts"
  let ?st = "reset (enqueue sample_warning (new_scheduler ?specs))"
  let ?run = "collect_with_metadata ?specs planning quiet_round ?st"
  have names: "distinct (map rp_name ?specs)" by (simp add: build_default_reminder_specs_def plain_spec_def)
  have h: "history ?specs [Rearmed, Queued sample_warning] ?st"
    by (intro history.intros)
  have "(case fst ?run of Inr out \<Rightarrow> True | Inl e \<Rightarrow> False)" by code_simp
  then obtain out where out: "fst ?run = Inr out" by (auto split: sum.splits)
  then have "?run = (Inr out, snd ?run)" by (metis prod.collapse)
  from reminders_are_throttled [OF names h this] obtain injs where "out = take_queued [sample_warning] @ injs"
    by (auto simp: sample_warning_def)
  then show ?thesis using out by (simp add: take_queued_def)
qed

end
