(* ===== verification/Plan_Tools.thy ===== *)
theory Plan_Tools
  imports Plan_Gate
begin

text \<open>
  Which tools an agent may call while Plan Mode is active, \<open>backend/app/tools/plan_mode_policy.py\<close>,
  and which calls the plan gate governs, \<open>backend/app/tools/plan_gate_registry.py\<close>; with them
  \<open>os.path.normpath\<close> on POSIX and the dispatch of the file tool \<open>fs_write\<close> of
  \<open>backend/app/tools/handlers/filesystem.py\<close>, which the policy has to agree with. The arguments
  of a call are the JSON value the model sent.
\<close>

section \<open>Paths\<close>

text \<open>
  A path is \<open>root\<close> leading slashes (none, one, or the two that POSIX keeps apart) and components.
  One component is pushed on the components so far; \<open>..\<close> takes the last one away unless there is
  none to take.
\<close>

definition up :: string where
  "up = ''..''"

definition push_part :: "bool \<Rightarrow> string list \<Rightarrow> string \<Rightarrow> string list" where
  "push_part rooted acc c =
     (if c = [] \<or> c = ''.'' then acc
      else if c \<noteq> up \<or> (\<not> rooted \<and> acc = []) \<or> (acc \<noteq> [] \<and> last acc = up) then acc @ [c]
      else butlast acc)"

definition root_slashes :: "string \<Rightarrow> nat" where
  "root_slashes p =
     (if prefix ''//'' p \<and> \<not> prefix ''///'' p then 2 else if prefix ''/'' p then 1 else 0)"

definition path_parts :: "string \<Rightarrow> string list" where
  "path_parts p = foldl (push_part (root_slashes p \<noteq> 0)) [] (py_split_on CHR ''/'' p)"

definition normpath :: "string \<Rightarrow> string" where
  "normpath p =
     (let q = replicate (root_slashes p) CHR ''/'' @ py_join ''/'' (path_parts p)
      in if q = [] then ''.'' else q)"

text \<open>
  What a path denotes: the directory stack that a process with the working directory \<open>cwd\<close>
  reaches by walking its components, \<open>..\<close> at the root staying there.
\<close>

definition walk :: "string list \<Rightarrow> string \<Rightarrow> string list" where
  "walk dirs c = (if c = [] \<or> c = ''.'' then dirs else if c = up then butlast dirs else dirs @ [c])"

definition location :: "string list \<Rightarrow> string \<Rightarrow> string list" where
  "location cwd p = foldl walk (if prefix ''/'' p then [] else cwd) (py_split_on CHR ''/'' p)"

section \<open>The policy of Plan Mode\<close>

definition PLAN_MODE_READONLY_TOOLS :: "string list" where
  "PLAN_MODE_READONLY_TOOLS =
     [''exit_plan_mode'', ''ask_user_question'', ''get_current_time'', ''list_files'', ''read_file'',
      ''read_context_resource'', ''read_runtime_result'', ''read_project_resource'', ''glob_search'',
      ''grep_search'', ''fs_list'', ''fs_read'', ''web_search'', ''advanced_web_search'',
      ''anysearch_get_sub_domains'', ''anysearch_search'', ''anysearch_batch_search'',
      ''anysearch_extract'', ''exa_search'', ''exa_fetch'', ''tavily_search'', ''tavily_extract'',
      ''firecrawl_search'', ''web_fetch'', ''advanced_web_fetch'', ''firecrawl_fetch'',
      ''xcrawl_scrape'', ''search_memory'', ''load_memory'', ''list_triggers'', ''tool_search'',
      ''load_skill'', ''propose_dynamic_workflow'', ''preview_workflow'', ''check_subagent'',
      ''track_todo'', ''record_finding'', ''read_ledger'', ''report_progress'']"

definition PLAN_FILE_WRITE_TOOLS :: "string list" where
  "PLAN_FILE_WRITE_TOOLS = [''write_file'', ''edit_file'', ''fs_write'']"

definition PATH_ARG_NAMES :: "string list" where
  "PATH_ARG_NAMES = [''path'', ''file_path'', ''filename'']"

definition READONLY_SUBAGENT_TYPES :: "string list" where
  "READONLY_SUBAGENT_TYPES = [''explorer'', ''critic'']"

definition truthy_flag :: "pyval \<Rightarrow> bool" where
  "truthy_flag v =
     (case v of
        PBool b \<Rightarrow> b
      | PStr s \<Rightarrow> py_lower (py_strip s) \<in> {''1'', ''true'', ''yes'', ''on''}
      | _ \<Rightarrow> truthy v)"

definition extract_target_path :: "(string \<times> pyval) list \<Rightarrow> string option" where
  "extract_target_path arguments = first_some (map (\<lambda>k. nonblank (dget arguments k)) PATH_ARG_NAMES)"

text \<open>\<open>arguments or {}\<close>; what is no dict has no \<open>get\<close>.\<close>

definition args_dict :: "pyval \<Rightarrow> (string, (string \<times> pyval) list) res" where
  "args_dict arguments =
     (case py_or arguments (PDict []) of PDict d \<Rightarrow> Inr d | _ \<Rightarrow> Inl ''AttributeError'')"

definition is_exact_plan_file_write ::
  "string \<Rightarrow> pyval \<Rightarrow> string option \<Rightarrow> (string, bool) res" where
  "is_exact_plan_file_write tool_name arguments plan_file_path =
     (if opt_text plan_file_path = [] then Inr False
      else bind_res (args_dict arguments) (\<lambda>d.
        if tool_name = ''fs_write''
             \<and> py_lower (py_str (py_or (dget d ''mode'') (PStr ''write''))) = ''delete''
        then Inr False
        else case extract_target_path d of
          None \<Rightarrow> Inr False
        | Some target \<Rightarrow> Inr (normpath target = normpath (opt_text plan_file_path))))"

definition is_plan_mode_readonly_subagent_spawn :: "pyval \<Rightarrow> bool" where
  "is_plan_mode_readonly_subagent_spawn arguments =
     (case as_dict (py_or arguments (PDict [])) of
        None \<Rightarrow> False
      | Some d \<Rightarrow>
        let field = (\<lambda>k. clean_text (dget d k));
            prompt = clean_text (py_or (dget d ''prompt'') (dget d ''task''));
            given = py_strip (py_str (py_or (py_or (dget d ''subagent_type'') (dget d ''type''))
                      (PStr ''general-purpose'')));
            subagent_type = (if given = [] then ''general-purpose'' else given) in
        prompt \<noteq> [] \<and> subagent_type \<in> set READONLY_SUBAGENT_TYPES
          \<and> field ''definition_name'' = [] \<and> field ''team_name'' = [] \<and> field ''mode'' = []
          \<and> field ''isolation'' \<noteq> ''all'' \<and> field ''ledger_todo_id'' = []
          \<and> \<not> truthy_flag (dget d ''run_in_background''))"

definition is_plan_mode_tool_allowed ::
  "string \<Rightarrow> pyval \<Rightarrow> string option \<Rightarrow> (string, bool) res" where
  "is_plan_mode_tool_allowed tool_name arguments plan_file_path =
     (if tool_name = ''spawn_subagent'' then Inr (is_plan_mode_readonly_subagent_spawn arguments)
      else if tool_name \<in> set PLAN_MODE_READONLY_TOOLS then Inr True
      else if tool_name \<in> set PLAN_FILE_WRITE_TOOLS
      then is_exact_plan_file_write tool_name arguments plan_file_path
      else Inr False)"

section \<open>What a write tool does with its arguments\<close>

text \<open>
  The final file operation of a write tool: the operation, its \<open>path\<close> argument and the texts.
  \<open>fs_write\<close> strips and lowers its mode before it dispatches.
\<close>

datatype file_call =
    WriteFile pyval pyval
  | EditFile pyval pyval pyval pyval
  | DeleteFile pyval
  | UnknownMode string

definition get_or :: "(string \<times> pyval) list \<Rightarrow> string \<Rightarrow> pyval \<Rightarrow> pyval" where
  "get_or d k other = (if has_key d k then dget d k else other)"

definition write_file :: "(string \<times> pyval) list \<Rightarrow> file_call" where
  "write_file d = WriteFile (get_or d ''path'' (PStr [])) (get_or d ''content'' (PStr []))"

definition edit_file :: "(string \<times> pyval) list \<Rightarrow> file_call" where
  "edit_file d = EditFile (get_or d ''path'' (PStr [])) (get_or d ''old_text'' (PStr []))
     (get_or d ''new_text'' (PStr [])) (get_or d ''replace_all'' (PBool False))"

definition fs_write :: "(string \<times> pyval) list \<Rightarrow> (string, file_call) res" where
  "fs_write d =
     (case py_or (dget d ''mode'') (PStr ''write'') of
        PStr m \<Rightarrow>
          (let mode = py_lower (py_strip m);
               path = get_or d ''path'' (PStr []) in
           if mode = ''write''
           then Inr (write_file [(''path'', path), (''content'', get_or d ''content'' (PStr []))])
           else if mode = ''edit''
           then Inr (edit_file [(''path'', path), (''old_text'', get_or d ''old_string'' (PStr [])),
                  (''new_text'', get_or d ''new_string'' (PStr []))])
           else if mode = ''delete'' then Inr (DeleteFile path)
           else Inr (UnknownMode mode))
      | _ \<Rightarrow> Inl ''AttributeError'')"

definition plan_file_call :: "string \<Rightarrow> (string \<times> pyval) list \<Rightarrow> (string, file_call) res" where
  "plan_file_call tool_name d =
     (if tool_name = ''fs_write'' then fs_write d
      else if tool_name = ''edit_file'' then Inr (edit_file d) else Inr (write_file d))"

section \<open>Which calls the plan gate governs\<close>

definition BRIDGE_SELF :: string where
  "BRIDGE_SELF = ''bridge:self''"

text \<open>The registry: every registered tool name with the tag of its metadata.\<close>

type_synonym tool_registry = "(string \<times> string) list"

definition plan_gated_tool_action_kinds :: "tool_registry \<Rightarrow> (string \<times> string) list" where
  "plan_gated_tool_action_kinds registry = filter (\<lambda>kv. snd kv \<noteq> []) registry"

definition trigger_class_from_arguments :: "pyval \<Rightarrow> string option" where
  "trigger_class_from_arguments arguments =
     (case as_dict arguments of
        None \<Rightarrow> None
      | Some d \<Rightarrow>
          (case as_dict (dget d ''config'') of
             Some c \<Rightarrow>
               if dget c ''trigger_class'' \<noteq> PNone then Some (clean_text (dget c ''trigger_class''))
               else if dget d ''trigger_class'' \<noteq> PNone
               then Some (clean_text (dget d ''trigger_class'')) else None
           | None \<Rightarrow>
               if dget d ''trigger_class'' \<noteq> PNone
               then Some (clean_text (dget d ''trigger_class'')) else None))"

definition set_trigger_action_kind :: "bool \<Rightarrow> pyval \<Rightarrow> (string, string option) res" where
  "set_trigger_action_kind declined arguments =
     (if declined then Inr None
      else if arguments = PNone then Inr (Some ''create_enabled_trigger'')
      else case as_dict arguments of
        None \<Rightarrow> Inl ''AttributeError''
      | Some d \<Rightarrow>
          Inr (if trigger_is_autonomous (Some (clean_text (dget d ''type'')))
                    (trigger_class_from_arguments arguments)
               then Some ''create_enabled_trigger'' else None))"

definition update_trigger_action_kind :: "bool \<Rightarrow> pyval \<Rightarrow> string option" where
  "update_trigger_action_kind declined arguments =
     (if declined then None
      else case as_dict arguments of
        None \<Rightarrow> None
      | Some d \<Rightarrow>
          (case as_dict (dget d ''config'') of
             None \<Rightarrow> None
           | Some c \<Rightarrow>
               (let trigger_type = clean_text (py_or (dget d ''type'') (dget c ''type'')) in
                if trigger_type = [] then None
                else if trigger_is_autonomous (Some trigger_type) (trigger_class_from_arguments arguments)
                then Some ''create_enabled_trigger'' else None)))"

definition hard_gated_action_kind ::
  "tool_registry \<Rightarrow> bool \<Rightarrow> string \<Rightarrow> pyval \<Rightarrow> (string, string option) res" where
  "hard_gated_action_kind registry declined tool_name arguments =
     (let action_kind = map_of (plan_gated_tool_action_kinds registry) tool_name in
      if tool_name = ''set_trigger'' \<and> action_kind = Some ''create_enabled_trigger''
      then set_trigger_action_kind declined arguments
      else if tool_name = ''update_trigger'' \<and> action_kind = Some ''create_enabled_trigger''
      then Inr (update_trigger_action_kind declined arguments)
      else case action_kind of
        Some k \<Rightarrow> Inr (if k \<in> set ACTION_KINDS then Some k else None)
      | None \<Rightarrow> Inr None)"

section \<open>Normalising a path keeps its location\<close>

lemma prefix_slash: "prefix ''/'' p \<longleftrightarrow> (\<exists>q. p = CHR ''/'' # q)"
  by (cases p) (auto simp: prefix_def)

lemma root_slashes_0: "root_slashes p = 0 \<longleftrightarrow> \<not> prefix ''/'' p"
  by (auto simp: root_slashes_def prefix_def)

definition proper_parts :: "string list \<Rightarrow> bool" where
  "proper_parts cs = list_all (\<lambda>c. c \<noteq> [] \<and> c \<noteq> ''.'' \<and> CHR ''/'' \<notin> set c) cs"

lemma proper_push:
  "proper_parts acc \<Longrightarrow> CHR ''/'' \<notin> set c \<Longrightarrow> proper_parts (push_part r acc c)"
  by (auto simp: proper_parts_def push_part_def list_all_iff dest: in_set_butlastD)

lemma proper_fold:
  "proper_parts acc \<Longrightarrow> \<forall>c \<in> set cs. CHR ''/'' \<notin> set c \<Longrightarrow> proper_parts (foldl (push_part r) acc cs)"
  by (induction cs arbitrary: acc) (auto simp: proper_push)

lemma proper_path_parts: "proper_parts (path_parts p)"
  unfolding path_parts_def
  by (rule proper_fold) (auto simp: proper_parts_def dest: py_split_on_pieces)

lemma walk_push:
  assumes "proper_parts acc" and "r \<Longrightarrow> base = []"
  shows "foldl walk base (push_part r acc c) = walk (foldl walk base acc) c"
proof (cases "push_part r acc c = acc @ [c] \<or> c = [] \<or> c = ''.''")
  case True
  then show ?thesis by (auto simp: push_part_def walk_def)
next
  case False
  then have c: "c = up" and p: "push_part r acc c = butlast acc"
    by (auto simp: push_part_def split: if_splits)
  show ?thesis
  proof (cases acc rule: rev_cases)
    case Nil
    with False c have r by (cases r) (auto simp: push_part_def)
    with Nil assms(2) show ?thesis by (simp add: push_part_def walk_def)
  next
    case (snoc ys y)
    with False c have "y \<noteq> up" by (auto simp: push_part_def)
    moreover have "y \<noteq> []" "y \<noteq> ''.''" using assms(1) snoc by (auto simp: proper_parts_def)
    ultimately have "foldl walk base acc = foldl walk base ys @ [y]" by (simp add: snoc walk_def)
    with p snoc show ?thesis unfolding c by (simp add: walk_def up_def)
  qed
qed

lemma walk_pushes:
  assumes "proper_parts acc" and "r \<Longrightarrow> base = []" and "\<forall>c \<in> set cs. CHR ''/'' \<notin> set c"
  shows "foldl walk base (foldl (push_part r) acc cs) = foldl walk (foldl walk base acc) cs"
  using assms
proof (induction cs arbitrary: acc)
  case (Cons c cs)
  have "proper_parts (push_part r acc c)" using Cons.prems by (simp add: proper_push)
  from Cons.IH [OF this Cons.prems(2)] Cons.prems show ?case by (simp add: walk_push)
qed simp

lemma py_split_on_plain: "sep \<notin> set w \<Longrightarrow> py_split_on sep w = [w]"
  by (induction w) auto

lemma py_split_on_append:
  "sep \<notin> set w \<Longrightarrow> py_split_on sep (w @ sep # s) = w # py_split_on sep s"
  by (induction w) (auto split: list.splits)

lemma py_split_on_join_pieces:
  "ws \<noteq> [] \<Longrightarrow> \<forall>w \<in> set ws. sep \<notin> set w \<Longrightarrow> py_split_on sep (py_join [sep] ws) = ws"
proof (induction ws)
  case (Cons w ws)
  then show ?case by (cases ws) (auto simp: py_split_on_plain py_split_on_append)
qed simp

lemma py_split_on_slashes:
  "py_split_on sep (replicate n sep @ s) = replicate n [] @ py_split_on sep s"
  by (induction n) auto

lemma fold_empty [simp]:
  "foldl walk dirs (replicate n []) = dirs" "foldl (push_part r) acc (replicate n []) = acc"
  by (induction n) (auto simp: walk_def push_part_def)

lemma join_starts:
  assumes "proper_parts (w # ws)"
  shows "py_join ''/'' (w # ws) \<noteq> [] \<and> hd (py_join ''/'' (w # ws)) \<noteq> CHR ''/''"
  using assms by (cases ws; cases w) (auto simp: proper_parts_def)

lemma no_slash_start: "prefix ''/'' (py_join ''/'' (path_parts p)) \<longleftrightarrow> False"
proof (cases "path_parts p")
  case (Cons w ws)
  with proper_path_parts [of p] have "proper_parts (w # ws)" by simp
  from join_starts [OF this] show ?thesis unfolding Cons by (auto simp: prefix_slash)
qed simp

lemma root_slashes_le: "root_slashes p \<le> 2"
  by (simp add: root_slashes_def)

lemma root_slashes_normpath [simp]: "root_slashes (normpath p) = root_slashes p"
proof -
  let ?j = "py_join ''/'' (path_parts p)"
  have j: "\<not> prefix ''/'' ?j" using no_slash_start by blast
  consider "root_slashes p = 0" | "root_slashes p = 1" | "root_slashes p = 2"
    using root_slashes_le [of p] by linarith
  then show ?thesis
  proof cases
    case 1
    moreover have "\<not> prefix ''/'' ''.''" by (simp add: prefix_slash)
    ultimately show ?thesis using j
      by (cases "?j = []") (simp_all add: normpath_def root_slashes_0 [THEN iffD2])
  next
    case 2
    with j show ?thesis by (cases ?j) (auto simp: normpath_def root_slashes_def prefix_def)
  next
    case 3
    with j show ?thesis
      by (cases ?j) (auto simp: normpath_def root_slashes_def prefix_def numeral_2_eq_2)
  qed
qed

lemma split_normpath:
  "py_split_on CHR ''/'' (normpath p) =
     (if path_parts p = [] then (if root_slashes p = 0 then [''.''] else replicate (Suc (root_slashes p)) [])
      else replicate (root_slashes p) [] @ path_parts p)"
proof -
  have pieces: "\<forall>w \<in> set (path_parts p). CHR ''/'' \<notin> set w"
    using proper_path_parts [of p] by (auto simp: proper_parts_def list_all_iff)
  show ?thesis
  proof (cases "path_parts p")
    case Nil
    then show ?thesis
      using py_split_on_slashes [of "CHR ''/''" "root_slashes p" "[]"]
      by (auto simp: normpath_def replicate_append_same)
  next
    case (Cons w ws)
    have "py_join ''/'' (path_parts p) \<noteq> []"
      using join_starts [of w ws] proper_path_parts [of p] Cons by simp
    moreover have "py_split_on CHR ''/'' (py_join ''/'' (path_parts p)) = path_parts p"
      using py_split_on_join_pieces [OF _ pieces] Cons by auto
    ultimately show ?thesis by (auto simp: normpath_def py_split_on_slashes Cons)
  qed
qed

lemma location_normpath: "location cwd (normpath p) = location cwd p"
proof -
  let ?base = "if prefix ''/'' p then [] else cwd"
  let ?r = "root_slashes p \<noteq> 0"
  have base: "?r \<Longrightarrow> ?base = []" by (simp add: root_slashes_0)
  have "foldl walk ?base (path_parts p) = foldl walk (foldl walk ?base []) (py_split_on CHR ''/'' p)"
    unfolding path_parts_def
    by (rule walk_pushes [OF _ base]) (auto simp: proper_parts_def dest: py_split_on_pieces)
  then have walked: "foldl walk ?base (path_parts p) = location cwd p" by (simp add: location_def)
  have "prefix ''/'' (normpath p) \<longleftrightarrow> prefix ''/'' p"
    using root_slashes_0 [of p] root_slashes_0 [of "normpath p"] by simp
  then have "location cwd (normpath p) = foldl walk ?base (py_split_on CHR ''/'' (normpath p))"
    by (simp add: location_def)
  also have "\<dots> = foldl walk ?base (path_parts p)"
    by (auto simp: split_normpath walk_def simp del: replicate_Suc)
  finally show ?thesis using walked by simp
qed

lemma push_again:
  "foldl (push_part r) [] acc = acc \<Longrightarrow> proper_parts acc \<Longrightarrow>
     foldl (push_part r) [] (push_part r acc c) = push_part r acc c"
proof (cases acc rule: rev_cases)
  case Nil
  then show ?thesis by (auto simp: push_part_def)
next
  case (snoc ys y)
  assume again: "foldl (push_part r) [] acc = acc" and "proper_parts acc"
  then have y: "y \<noteq> []" "y \<noteq> ''.''" using snoc by (auto simp: proper_parts_def)
  have "push_part r acc c = acc @ [c] \<or> push_part r acc c = acc
      \<or> (push_part r acc c = ys \<and> y \<noteq> up)"
    by (auto simp: push_part_def snoc)
  then show ?thesis
  proof (elim disjE conjE)
    assume c: "push_part r acc c = ys" and "y \<noteq> up"
    have "push_part r (foldl (push_part r) [] ys) y = ys @ [y]" using again snoc by simp
    moreover have "push_part r (foldl (push_part r) [] ys) y = foldl (push_part r) [] ys @ [y]"
      using y \<open>y \<noteq> up\<close> by (simp add: push_part_def)
    ultimately show ?thesis unfolding c by simp
  next
    assume c: "push_part r acc c = acc @ [c]"
    show ?thesis unfolding c by (simp add: again c)
  next
    assume "push_part r acc c = acc"
    with again show ?thesis by simp
  qed
qed

lemma pushes_again:
  "\<forall>c \<in> set cs. CHR ''/'' \<notin> set c \<Longrightarrow>
     foldl (push_part r) [] (foldl (push_part r) [] cs) = foldl (push_part r) [] cs"
proof (induction cs rule: rev_induct)
  case (snoc c cs)
  then show ?case
    using push_again [of r "foldl (push_part r) [] cs" c] proper_fold [of "[]" cs r]
    by (simp add: proper_parts_def)
qed simp

lemma normpath_idem: "normpath (normpath p) = normpath p"
proof -
  have "path_parts (normpath p) = foldl (push_part (root_slashes p \<noteq> 0)) [] (path_parts p)"
    by (auto simp: path_parts_def [of "normpath p"] split_normpath push_part_def simp del: replicate_Suc)
  also have "\<dots> = path_parts p"
    unfolding path_parts_def by (rule pushes_again) (auto dest: py_split_on_pieces)
  finally have "path_parts (normpath p) = path_parts p" .
  then show ?thesis by (subst normpath_def) (simp add: normpath_def [of p, symmetric])
qed

section \<open>What Plan Mode lets through\<close>

fun call_path :: "file_call \<Rightarrow> pyval" where
  "call_path (WriteFile p _) = p"
| "call_path (EditFile p _ _ _) = p"
| "call_path (DeleteFile p) = p"
| "call_path (UnknownMode _) = PNone"

lemma plan_file_call_path:
  "plan_file_call t d = Inr call \<Longrightarrow> call_path call = PStr s \<Longrightarrow> s \<noteq> [] \<Longrightarrow> dget d ''path'' = PStr s"
  by (auto simp: plan_file_call_def fs_write_def write_file_def edit_file_def get_or_def Let_def
        has_key_def dget_def split: if_splits pyval.splits option.splits)

lemma exact_write_allowed:
  assumes "is_exact_plan_file_write t (PDict d) pf = Inr True"
  obtains p target where "pf = Some p" and "p \<noteq> []" and "extract_target_path d = Some target"
    and "normpath target = normpath p"
    and "t = ''fs_write'' \<Longrightarrow> py_lower (py_str (py_or (dget d ''mode'') (PStr ''write''))) \<noteq> ''delete''"
  using assms
  by (cases pf) (auto simp: is_exact_plan_file_write_def args_dict_def py_or_def opt_text_def
      split: if_splits option.splits)

text \<open>
  The one shape of a subagent that Plan Mode lets through: an inline explorer or critic with a prompt,
  without a stored definition, a team, a mode, full isolation or a claim on the work ledger.
\<close>

definition inline_explorer :: "(string \<times> pyval) list \<Rightarrow> bool" where
  "inline_explorer d \<longleftrightarrow> clean_text (py_or (dget d ''prompt'') (dget d ''task'')) \<noteq> []
     \<and> clean_text (py_or (dget d ''subagent_type'') (dget d ''type'')) \<in> {''explorer'', ''critic''}
     \<and> clean_text (dget d ''definition_name'') = [] \<and> clean_text (dget d ''team_name'') = []
     \<and> clean_text (dget d ''mode'') = [] \<and> clean_text (dget d ''isolation'') \<noteq> ''all''
     \<and> clean_text (dget d ''ledger_todo_id'') = [] \<and> \<not> truthy_flag (dget d ''run_in_background'')"

lemma named_subagent:
  assumes "(let given = py_strip (py_str (py_or v (PStr ''general-purpose''))) in
      (if given = [] then ''general-purpose'' else given)) \<in> set READONLY_SUBAGENT_TYPES"
  shows "clean_text v \<in> {''explorer'', ''critic''}"
proof -
  have "py_strip ''general-purpose'' = ''general-purpose''" by code_simp
  with assms show ?thesis
    by (cases "truthy v") (auto simp: READONLY_SUBAGENT_TYPES_def clean_text_def py_or_def Let_def split: if_splits)
qed

lemma readonly_spawn_fields:
  assumes "is_plan_mode_readonly_subagent_spawn (PDict d)"
  shows "inline_explorer d"
proof -
  have d: "py_or (PDict d) (PDict []) = PDict d" by (simp add: py_or_def)
  note spawn = assms [unfolded is_plan_mode_readonly_subagent_spawn_def d as_dict.simps option.case]
  from spawn have "clean_text (py_or (dget d ''subagent_type'') (dget d ''type'')) \<in> {''explorer'', ''critic''}"
    unfolding Let_def by (intro named_subagent [unfolded Let_def]) blast
  with spawn show ?thesis unfolding inline_explorer_def Let_def by blast
qed

lemma same_location: "normpath p = normpath q \<Longrightarrow> location cwd p = location cwd q"
  by (metis location_normpath)

text \<open>
  Claim C14. While Plan Mode is active, a call that is allowed and is no read-only tool is an
  inline exploration subagent (an explorer or critic with a prompt, not in the background, without
  a stored definition, a team, a mode, full isolation or a work ledger entry), or a write tool whose
  operation, when its path argument is a text that is not blank, touches exactly the location of the
  provisioned plan file, from whatever directory the paths are read.
\<close>

theorem plan_mode_writes_only_the_plan_file:
  assumes "is_plan_mode_tool_allowed t (PDict d) pf = Inr True"
    and "t \<notin> set PLAN_MODE_READONLY_TOOLS"
  shows "t = ''spawn_subagent'' \<and> inline_explorer d
     \<or> t \<in> set PLAN_FILE_WRITE_TOOLS \<and> (\<exists>p. pf = Some p \<and> p \<noteq> []
       \<and> (\<forall>call s cwd. plan_file_call t d = Inr call \<longrightarrow> call_path call = PStr s \<longrightarrow> py_strip s \<noteq> []
            \<longrightarrow> location cwd (py_strip s) = location cwd p))"
proof (cases "t = ''spawn_subagent''")
  case True
  with assms(1) have "is_plan_mode_readonly_subagent_spawn (PDict d)"
    by (simp add: is_plan_mode_tool_allowed_def)
  with True show ?thesis by (simp add: readonly_spawn_fields)
next
  case False
  with assms have t: "t \<in> set PLAN_FILE_WRITE_TOOLS"
    and exact: "is_exact_plan_file_write t (PDict d) pf = Inr True"
    by (auto simp: is_plan_mode_tool_allowed_def split: if_splits)
  from exact_write_allowed [OF exact] obtain p target where p: "pf = Some p" "p \<noteq> []"
    and target: "extract_target_path d = Some target" and same: "normpath target = normpath p"
    by blast
  have "location cwd (py_strip s) = location cwd p"
    if "plan_file_call t d = Inr call" "call_path call = PStr s" "py_strip s \<noteq> []" for call s cwd
  proof -
    have "s \<noteq> []" using that(3) by auto
    with that plan_file_call_path have "dget d ''path'' = PStr s" by blast
    with that(3) target have "target = py_strip s"
      by (simp add: extract_target_path_def PATH_ARG_NAMES_def)
    with same_location [OF same] show ?thesis by simp
  qed
  with t p show ?thesis by blast
qed

text \<open>
  The policy promises that \<open>fs_write\<close> never deletes in Plan Mode, and the tool
  disagrees: the policy compares the mode as sent, the tool strips it. A call with the mode
  \<open>" delete"\<close> on the plan file of any session is allowed and deletes that file.
\<close>

theorem padded_mode_deletes_the_plan_file:
  shows "\<exists>d. is_plan_mode_tool_allowed ''fs_write'' (PDict d)
         (Some (''workspace/plans/'' @ uuid_str session @ ''.plan.md'')) = Inr True
     \<and> fs_write d = Inr (DeleteFile (PStr (''workspace/plans/'' @ uuid_str session @ ''.plan.md'')))"
proof -
  let ?p = "''workspace/plans/'' @ uuid_str session @ ''.plan.md''"
  let ?d = "[(''mode'', PStr '' delete''), (''path'', PStr ?p)]"
  have strip: "py_strip ?p = ?p"
    by (rule py_strip_id) (simp_all add: py_space_def)
  have "is_exact_plan_file_write ''fs_write'' (PDict ?d) (Some ?p) = Inr True"
    using strip by (simp add: is_exact_plan_file_write_def args_dict_def py_or_def opt_text_def dget_def
        extract_target_path_def PATH_ARG_NAMES_def py_lower_def py_lower_char_def)
  then have "is_plan_mode_tool_allowed ''fs_write'' (PDict ?d) (Some ?p) = Inr True"
    by (simp add: is_plan_mode_tool_allowed_def PLAN_MODE_READONLY_TOOLS_def PLAN_FILE_WRITE_TOOLS_def)
  moreover have "py_lower (py_strip '' delete'') = ''delete''" by code_simp
  then have "fs_write ?d = Inr (DeleteFile (PStr ?p))"
    by (simp add: fs_write_def py_or_def dget_def get_or_def has_key_def)
  ultimately show ?thesis by blast
qed

text \<open>A call of \<open>write_file\<close> that spells the plan file with a detour.\<close>

definition detour_args :: "(string \<times> pyval) list" where
  "detour_args = [(''path'', PStr ''workspace/./notes/../plans/a.plan.md''), (''content'', PStr ''# Plan'')]"

theorem plan_mode_writes_only_the_plan_file_witness:
  "is_plan_mode_tool_allowed ''write_file'' (PDict detour_args) (Some ''workspace/plans/a.plan.md'') = Inr True
   \<and> location [''agent''] ''workspace/./notes/../plans/a.plan.md'' = location [''agent''] ''workspace/plans/a.plan.md''"
proof -
  have a: "is_plan_mode_tool_allowed ''write_file'' (PDict detour_args) (Some ''workspace/plans/a.plan.md'')
      = Inr True" by code_simp
  have n: "''write_file'' \<notin> set PLAN_MODE_READONLY_TOOLS" by (simp add: PLAN_MODE_READONLY_TOOLS_def)
  have s: "py_strip ''workspace/./notes/../plans/a.plan.md'' = ''workspace/./notes/../plans/a.plan.md''"
    by code_simp
  have c: "plan_file_call ''write_file'' detour_args
      = Inr (WriteFile (PStr ''workspace/./notes/../plans/a.plan.md'') (PStr ''# Plan''))" by code_simp
  have "location [''agent''] ''workspace/./notes/../plans/a.plan.md''
      = location [''agent''] ''workspace/plans/a.plan.md''"
    using plan_mode_writes_only_the_plan_file [OF a n] c s by auto
  with a show ?thesis by blast
qed

end
