(* ===== verification/Config_Revisions.thy ===== *)
theory Config_Revisions
  imports Py_Compare Plan_Mode
begin

text \<open>
  The versioned store of configurations, \<open>backend/app/services/config_versioning.py\<close> on the rows
  of \<open>backend/app/models/config_revision.py\<close>: revisions of an entity (the action policy of an
  agent, among others) with their diffs, an active one per entity and tenant, the history and
  single revisions. SHA-256, the clock and fresh ids are arguments; so is \<open>race\<close>, what other
  transactions commit between the read and the insert of a save that found no row to lock.
\<close>

section \<open>Diffs\<close>

definition canonical_content_hash :: "(string \<Rightarrow> string) \<Rightarrow> (string \<times> pyval) list \<Rightarrow> string" where
  "canonical_content_hash sha content = sha (canonical_json (PDict content))"

definition changed_keys :: "(string \<times> pyval) list \<Rightarrow> (string \<times> pyval) list \<Rightarrow> string list" where
  "changed_keys previous after =
     filter (\<lambda>k. \<not> has_key previous k \<or> \<not> py_eq (dget previous k) (dget after k)) (sort (map fst after))"

definition build_content_diff ::
  "(string \<times> pyval) list option \<Rightarrow> (string \<times> pyval) list \<Rightarrow> (string \<times> pyval) list" where
  "build_content_diff before after =
     (let previous = (case before of None \<Rightarrow> [] | Some d \<Rightarrow> d) in
      [(''set'', PDict (map (\<lambda>k. (k, dget after k)) (changed_keys previous after))),
       (''removed'', PList (map PStr (filter (\<lambda>k. \<not> has_key after k) (sort (map fst previous)))))])"

text \<open>The elements of what a \<open>for\<close> loop iterates over, and the items of a dict.\<close>

definition iterated :: "pyval \<Rightarrow> (string, pyval list) res" where
  "iterated v =
     (case v of
        PList vs \<Rightarrow> Inr vs
      | PDict d \<Rightarrow> Inr (map (PStr \<circ> fst) d)
      | PStr s \<Rightarrow> Inr (map (\<lambda>c. PStr [c]) s)
      | _ \<Rightarrow> Inl ''TypeError'')"

definition items_of :: "pyval \<Rightarrow> (string, (string \<times> pyval) list) res" where
  "items_of v = (case v of PDict d \<Rightarrow> Inr d | _ \<Rightarrow> Inl ''AttributeError'')"

definition apply_content_diff ::
  "(string \<times> pyval) list option \<Rightarrow> (string \<times> pyval) list \<Rightarrow> (string, (string \<times> pyval) list) res" where
  "apply_content_diff before diff =
     (let result = (case before of None \<Rightarrow> [] | Some d \<Rightarrow> d) in
      bind_res (iterated (py_or (dget diff ''removed'') (PList []))) (\<lambda>gone.
      let result = foldl (\<lambda>d v. AList.delete (py_str v) d) result gone in
      bind_res (items_of (py_or (dget diff ''set'') (PDict []))) (\<lambda>put.
      Inr (foldl (\<lambda>d kv. AList.update (fst kv) (snd kv) d) result put))))"

section \<open>Revisions\<close>

record revision =
  r_id :: uuid
  r_type :: string
  r_entity :: uuid
  r_tenant :: uuid
  r_version :: int
  r_hash :: string
  r_content :: "(string \<times> pyval) list"
  r_diff :: "(string \<times> pyval) list"
  r_source :: string
  r_user :: "uuid option"
  r_agent :: "uuid option"
  r_message :: string
  r_active :: bool
  r_parent :: "uuid option"
  r_rollback :: "uuid option"
  r_created :: int

record revision_change =
  ch_type :: string
  ch_entity :: uuid
  ch_tenant :: uuid
  ch_content :: "(string \<times> pyval) list"
  ch_source :: string
  ch_user :: "uuid option"
  ch_agent :: "uuid option"
  ch_message :: string
  ch_rollback :: "uuid option"
  ch_force :: bool

text \<open>The row with the highest version, as \<open>ORDER BY version DESC LIMIT 1\<close> returns it.\<close>

fun newest :: "revision list \<Rightarrow> revision option" where
  "newest [] = None"
| "newest (r # rs) =
     (case newest rs of
        None \<Rightarrow> Some r
      | Some s \<Rightarrow> Some (if r_version s < r_version r then r else s))"

definition in_scope :: "string \<Rightarrow> uuid \<Rightarrow> uuid \<Rightarrow> revision \<Rightarrow> bool" where
  "in_scope kind entity tenant r \<longleftrightarrow> r_type r = kind \<and> r_entity r = entity \<and> r_tenant r = tenant"

definition active_revision :: "revision list \<Rightarrow> string \<Rightarrow> uuid \<Rightarrow> uuid \<Rightarrow> revision option" where
  "active_revision rows kind entity tenant =
     newest (filter (\<lambda>r. in_scope kind entity tenant r \<and> r_active r) rows)"

definition deactivate :: "string \<Rightarrow> uuid \<Rightarrow> uuid \<Rightarrow> revision list \<Rightarrow> revision list" where
  "deactivate kind entity tenant rows =
     map (\<lambda>r. if in_scope kind entity tenant r \<and> r_active r then r\<lparr>r_active := False\<rparr> else r) rows"

definition next_revision ::
  "(string \<Rightarrow> string) \<Rightarrow> uuid \<Rightarrow> revision option \<Rightarrow> revision_change \<Rightarrow> int \<Rightarrow> revision" where
  "next_revision sha new_id row ch now =
     \<lparr>r_id = new_id, r_type = ch_type ch, r_entity = ch_entity ch, r_tenant = ch_tenant ch,
      r_version = (case row of None \<Rightarrow> 1 | Some r \<Rightarrow> r_version r + 1),
      r_hash = canonical_content_hash sha (ch_content ch), r_content = ch_content ch,
      r_diff = build_content_diff (map_option r_content row) (ch_content ch),
      r_source = ch_source ch, r_user = ch_user ch, r_agent = ch_agent ch,
      r_message = ch_message ch, r_active = True, r_parent = map_option r_id row,
      r_rollback = ch_rollback ch, r_created = now\<rparr>"

text \<open>The insert, with the unique constraint on type, entity and version.\<close>

definition insert_revision :: "revision list \<Rightarrow> revision \<Rightarrow> (string, revision list) res" where
  "insert_revision rows r =
     (if \<exists>s \<in> set rows. r_type s = r_type r \<and> r_entity s = r_entity r \<and> r_version s = r_version r
      then Inl ''IntegrityError'' else Inr (rows @ [r]))"

definition save_revision ::
  "(string \<Rightarrow> string) \<Rightarrow> (revision list \<Rightarrow> uuid) \<Rightarrow> (revision list \<Rightarrow> revision list) \<Rightarrow>
   revision list \<Rightarrow> revision_change \<Rightarrow> int \<Rightarrow> (string, revision list \<times> revision) res" where
  "save_revision sha mint race rows ch now =
     (case active_revision rows (ch_type ch) (ch_entity ch) (ch_tenant ch) of
        Some row \<Rightarrow>
          if r_hash row = canonical_content_hash sha (ch_content ch) \<and> \<not> ch_force ch
          then Inr (rows, row)
          else
            let rows = deactivate (ch_type ch) (ch_entity ch) (ch_tenant ch) rows;
                r = next_revision sha (mint rows) (Some row) ch now in
            bind_res (insert_revision rows r) (\<lambda>rows. Inr (rows, r))
      | None \<Rightarrow>
          let rows = race rows;
              r = next_revision sha (mint rows) None ch now in
          bind_res (insert_revision rows r) (\<lambda>rows. Inr (rows, r)))"

section \<open>Reading the history\<close>

definition history_entry :: "revision \<Rightarrow> (string \<times> pyval) list" where
  "history_entry r =
     (let id_text = (\<lambda>u. opt_pstr (map_option uuid_str u)) in
      [(''version'', PInt (r_version r)), (''id'', PStr (uuid_str (r_id r))),
       (''content_hash'', PStr (r_hash r)), (''diff_from_prev'', PDict (r_diff r)),
       (''change_source'', PStr (r_source r)), (''changed_by_user_id'', id_text (r_user r)),
       (''changed_by_agent_id'', id_text (r_agent r)), (''change_message'', PStr (r_message r)),
       (''is_active'', PBool (r_active r)), (''parent_revision_id'', id_text (r_parent r)),
       (''rollback_of_revision_id'', id_text (r_rollback r)),
       (''created_at'', PStr (isoformat (r_created r)))])"

definition of_entity :: "string \<Rightarrow> uuid \<Rightarrow> uuid option \<Rightarrow> revision \<Rightarrow> bool" where
  "of_entity kind entity tenant r \<longleftrightarrow>
     r_type r = kind \<and> r_entity r = entity \<and> (case tenant of None \<Rightarrow> True | Some t \<Rightarrow> r_tenant r = t)"

definition get_history ::
  "revision list \<Rightarrow> string \<Rightarrow> uuid \<Rightarrow> nat \<Rightarrow> uuid option \<Rightarrow> (string \<times> pyval) list list" where
  "get_history rows kind entity limit tenant =
     map history_entry (take limit
       (sort_key (\<lambda>r. - r_version r) (filter (of_entity kind entity tenant) rows)))"

definition get_revision ::
  "revision list \<Rightarrow> string \<Rightarrow> uuid \<Rightarrow> int \<Rightarrow> uuid option \<Rightarrow> (string, (string \<times> pyval) list option) res" where
  "get_revision rows kind entity version tenant =
     (case filter (\<lambda>r. of_entity kind entity tenant r \<and> r_version r = version) rows of
        [] \<Rightarrow> Inr None
      | [r] \<Rightarrow> Inr (Some
          [(''version'', PInt (r_version r)), (''id'', PStr (uuid_str (r_id r))),
           (''content'', PDict (r_content r)), (''content_hash'', PStr (r_hash r)),
           (''diff_from_prev'', PDict (r_diff r)), (''change_source'', PStr (r_source r)),
           (''change_message'', PStr (r_message r)), (''is_active'', PBool (r_active r)),
           (''parent_revision_id'', opt_pstr (map_option uuid_str (r_parent r))),
           (''rollback_of_revision_id'', opt_pstr (map_option uuid_str (r_rollback r))),
           (''created_at'', PStr (isoformat (r_created r)))])
      | _ \<Rightarrow> Inl ''MultipleResultsFound'')"

section \<open>A diff leads from one content to the next\<close>

lemma map_of_deletes:
  "map_of (foldl (\<lambda>d v. AList.delete (py_str v) d) d (map PStr ks)) k = (if k \<in> set ks then None else map_of d k)"
  by (induction ks arbitrary: d) (auto simp: delete_conv')

lemma map_of_updates:
  "map_of (foldl (\<lambda>d kv. AList.update (fst kv) (snd kv) d) d (map (\<lambda>k. (k, f k)) ks)) k
     = (if k \<in> set ks then Some (f k) else map_of d k)"
  by (induction ks arbitrary: d) auto

lemma map_of_dget: "has_key d k \<Longrightarrow> map_of d k = Some (dget d k)"
  by (auto simp: has_key_def dget_def)

lemma in_keys_has_key: "k \<in> set (map fst d) \<longleftrightarrow> has_key d k"
  by (induction d) (auto simp: has_key_def)

text \<open>
  Applying the diff of two contents to the first one succeeds and gives the second
  one, up to Python's equality: exactly its keys, and at every key its value unless the old
  value compares equal to it, which is then kept (\<open>1\<close> stays \<open>1\<close> where the new content says
  \<open>True\<close> or \<open>1.0\<close>).
\<close>

theorem diff_leads_to_the_next_content:
  "\<exists>result. apply_content_diff (Some before) (build_content_diff (Some before) after) = Inr result
     \<and> (\<forall>k. map_of result k = (case map_of after k of
          None \<Rightarrow> None
        | Some v \<Rightarrow> (case map_of before k of
              None \<Rightarrow> Some v
            | Some u \<Rightarrow> Some (if py_eq u v then u else v))))"
proof -
  let ?gone = "filter (\<lambda>k. \<not> has_key after k) (sort (map fst before))"
  let ?put = "changed_keys before after"
  let ?d = "foldl (\<lambda>d v. AList.delete (py_str v) d) before (map PStr ?gone)"
  let ?e = "foldl (\<lambda>d kv. AList.update (fst kv) (snd kv) d) ?d (map (\<lambda>k. (k, dget after k)) ?put)"
  have "apply_content_diff (Some before) (build_content_diff (Some before) after) = Inr ?e"
    by (simp add: apply_content_diff_def build_content_diff_def Let_def dget_def py_or_def
        iterated_def items_of_def)
  moreover have "map_of ?e k = (case map_of after k of
        None \<Rightarrow> None
      | Some v \<Rightarrow> (case map_of before k of
            None \<Rightarrow> Some v
          | Some u \<Rightarrow> Some (if py_eq u v then u else v)))" for k
  proof -
    have put: "k \<in> set ?put \<longleftrightarrow> has_key after k \<and> (\<not> has_key before k \<or> \<not> py_eq (dget before k) (dget after k))"
      by (simp add: changed_keys_def in_keys_has_key del: set_map)
    have gone: "k \<in> set ?gone \<longleftrightarrow> has_key before k \<and> \<not> has_key after k"
      by (simp add: in_keys_has_key del: set_map)
    have "map_of ?e k = (if k \<in> set ?put then Some (dget after k)
        else if k \<in> set ?gone then None else map_of before k)"
      by (simp only: map_of_updates map_of_deletes)
    then show ?thesis unfolding put gone
      by (auto simp: has_key_def dget_def split: option.splits)
  qed
  ultimately show ?thesis by blast
qed

section \<open>The history of an entity is a chain\<close>

fun linked :: "(string \<Rightarrow> string) \<Rightarrow> revision option \<Rightarrow> revision list \<Rightarrow> bool" where
  "linked sha prev [] = True"
| "linked sha prev (r # rs) \<longleftrightarrow>
     r_version r = (case prev of None \<Rightarrow> 1 | Some p \<Rightarrow> r_version p + 1)
     \<and> r_parent r = map_option r_id prev
     \<and> r_diff r = build_content_diff (map_option r_content prev) (r_content r)
     \<and> r_hash r = canonical_content_hash sha (r_content r)
     \<and> (r_active r \<longleftrightarrow> rs = []) \<and> linked sha (Some r) rs"

definition well_kept :: "(string \<Rightarrow> string) \<Rightarrow> revision list \<Rightarrow> bool" where
  "well_kept sha rows \<longleftrightarrow>
     (\<forall>kind entity tenant. linked sha None (filter (in_scope kind entity tenant) rows))"

abbreviation retire :: "revision \<Rightarrow> revision" where
  "retire r \<equiv> r\<lparr>r_active := False\<rparr>"

lemma newest_None [simp]: "newest rs = None \<longleftrightarrow> rs = []"
  by (cases rs) (auto split: option.splits)

lemma linked_active:
  "linked sha prev rs \<Longrightarrow> filter r_active rs = (if rs = [] then [] else [last rs])"
  by (induction sha prev rs rule: linked.induct) auto

lemma well_kept_active:
  assumes "well_kept sha rows"
  shows "active_revision rows kind entity tenant =
    (let rs = filter (in_scope kind entity tenant) rows in if rs = [] then None else Some (last rs))"
proof -
  let ?rs = "filter (in_scope kind entity tenant) rows"
  have "linked sha None ?rs" using assms by (simp add: well_kept_def)
  moreover have "filter (\<lambda>r. in_scope kind entity tenant r \<and> r_active r) rows = filter r_active ?rs" by simp
  ultimately show ?thesis unfolding active_revision_def
    by (simp only: linked_active Let_def) simp
qed

lemma linked_retire:
  assumes "linked sha prev rs" and "rs \<noteq> []"
    and "linked sha (Some (retire (last rs))) [r]"
  shows "linked sha prev (map (\<lambda>r. if r_active r then retire r else r) rs @ [r])"
  using assms
proof (induction sha prev rs rule: linked.induct)
  case (2 sha prev q rs)
  show ?case
  proof (cases "rs = []")
    case True
    with 2 show ?thesis by simp
  next
    case False
    with 2 show ?thesis by simp
  qed
qed simp

lemma scope_deactivate_same:
  "filter (in_scope kind entity tenant) (deactivate kind entity tenant rows)
     = map (\<lambda>r. if r_active r then retire r else r) (filter (in_scope kind entity tenant) rows)"
  by (induction rows) (auto simp: deactivate_def in_scope_def)

lemma in_scope_retire [simp]: "in_scope kind entity tenant (retire r) = in_scope kind entity tenant r"
  by (simp add: in_scope_def)

lemma scope_deactivate_other:
  assumes "(kind', entity', tenant') \<noteq> (kind, entity, tenant)"
  shows "filter (in_scope kind' entity' tenant') (deactivate kind entity tenant rows)
     = filter (in_scope kind' entity' tenant') rows"
proof (induction rows)
  case (Cons r rows)
  have "in_scope kind' entity' tenant' r \<Longrightarrow> \<not> in_scope kind entity tenant r"
    using assms unfolding in_scope_def by (metis prod.inject)
  with Cons show ?case by (simp add: deactivate_def)
qed (simp add: deactivate_def)

lemma next_revision_simps [simp]:
  "in_scope kind entity tenant (next_revision sha u row ch now)
     \<longleftrightarrow> ch_type ch = kind \<and> ch_entity ch = entity \<and> ch_tenant ch = tenant"
  "r_version (next_revision sha u row ch now) = (case row of None \<Rightarrow> 1 | Some r \<Rightarrow> r_version r + 1)"
  "r_content (next_revision sha u row ch now) = ch_content ch"
  "r_type (next_revision sha u row ch now) = ch_type ch"
  "r_entity (next_revision sha u row ch now) = ch_entity ch"
  "r_active (next_revision sha u row ch now)"
  by (simp_all add: next_revision_def in_scope_def)

lemma linked_next: "linked sha row [next_revision sha u row ch now]"
  by (cases row) (simp_all add: next_revision_def)

lemma insert_revision_Inr [simp]:
  "insert_revision rows r = Inr rows' \<longleftrightarrow> rows' = rows @ [r]
     \<and> (\<forall>s \<in> set rows. \<not> (r_type s = r_type r \<and> r_entity s = r_entity r \<and> r_version s = r_version r))"
  by (auto simp: insert_revision_def)

lemma save_keeps:
  assumes "well_kept sha rows" and "well_kept sha (race rows)"
    and "save_revision sha mint race rows ch now = Inr (rows', r)"
  shows "well_kept sha rows'"
proof -
  let ?in = "in_scope (ch_type ch) (ch_entity ch) (ch_tenant ch)"
  have step: "well_kept sha (base @ [n])"
    if "linked sha None (filter ?in base @ [n])" "?in n"
      and "\<And>k e t. (k, e, t) \<noteq> (ch_type ch, ch_entity ch, ch_tenant ch) \<Longrightarrow>
             linked sha None (filter (in_scope k e t) base)" for base n
    unfolding well_kept_def
  proof (intro allI)
    fix k e t
    show "linked sha None (filter (in_scope k e t) (base @ [n]))"
      using that by (cases "(k, e, t) = (ch_type ch, ch_entity ch, ch_tenant ch)")
        (auto simp: in_scope_def)
  qed
  show ?thesis
  proof (cases "active_revision rows (ch_type ch) (ch_entity ch) (ch_tenant ch)")
    case None
    let ?n = "next_revision sha (mint (race rows)) None ch now"
    from None assms(3) have rows': "rows' = race rows @ [?n]"
      and fresh: "\<And>s. s \<in> set (race rows) \<Longrightarrow> \<not> (r_type s = ch_type ch \<and> r_entity s = ch_entity ch \<and> r_version s = 1)"
      by (auto simp: save_revision_def Let_def)
    have l: "linked sha None (filter (in_scope k e t) (race rows))" for k e t
      using assms(2) by (simp add: well_kept_def)
    have empty: "filter ?in (race rows) = []"
    proof (cases "filter ?in (race rows)")
      case (Cons s ss)
      then have "s \<in> set (filter ?in (race rows))" by simp
      moreover have "r_version s = 1"
        using l [of "ch_type ch" "ch_entity ch" "ch_tenant ch"] unfolding Cons by simp
      ultimately show ?thesis using fresh [of s] by (auto simp: in_scope_def)
    qed simp
    show ?thesis unfolding rows'
      by (rule step) (use empty l linked_next [of sha None] in \<open>auto simp: in_scope_def next_revision_def\<close>)
  next
    case (Some row)
    let ?base = "deactivate (ch_type ch) (ch_entity ch) (ch_tenant ch) rows"
    let ?n = "next_revision sha (mint ?base) (Some row) ch now"
    let ?rs = "filter ?in rows"
    have rs: "?rs \<noteq> []" and last: "row = last ?rs"
      using Some well_kept_active [OF assms(1), of "ch_type ch" "ch_entity ch" "ch_tenant ch"]
      by (auto simp: Let_def split: if_splits)
    have l: "linked sha None (filter (in_scope k e t) rows)" for k e t
      using assms(1) by (simp add: well_kept_def)
    show ?thesis
    proof (cases "r_hash row = canonical_content_hash sha (ch_content ch) \<and> \<not> ch_force ch")
      case True
      with Some assms show ?thesis by (simp add: save_revision_def)
    next
      case False
      with Some assms(3) have rows': "rows' = ?base @ [?n]" by (auto simp: save_revision_def Let_def)
      have "linked sha (Some (retire (last ?rs))) [?n]"
        unfolding last [symmetric] by (simp add: next_revision_def)
      from linked_retire [OF l rs this] have "linked sha None (filter ?in ?base @ [?n])"
        by (simp add: scope_deactivate_same)
      then show ?thesis unfolding rows'
        by (rule step) (use l in \<open>simp_all add: scope_deactivate_other next_revision_def in_scope_def\<close>)
    qed
  qed
qed

section \<open>Histories of saves\<close>

text \<open>
  A call of \<open>save_revision\<close> with the saves of other transactions that commit while it has no row
  to lock. A save that raises rolls itself back; the others' rows stay.
\<close>

fun saves :: "(string \<Rightarrow> string) \<Rightarrow> (revision list \<Rightarrow> uuid) \<Rightarrow> (revision_change \<times> int) list \<Rightarrow>
    revision list \<Rightarrow> revision list" where
  "saves sha mint [] rows = rows"
| "saves sha mint ((ch, now) # cs) rows = saves sha mint cs
     (case save_revision sha mint id rows ch now of Inl _ \<Rightarrow> rows | Inr (rows', _) \<Rightarrow> rows')"

definition save_step :: "(string \<Rightarrow> string) \<Rightarrow> (revision list \<Rightarrow> uuid) \<Rightarrow>
    (revision_change \<times> int) list \<times> revision_change \<times> int \<Rightarrow> revision list \<Rightarrow> revision list" where
  "save_step sha mint c rows =
     (case c of (others, ch, now) \<Rightarrow>
        (case save_revision sha mint (saves sha mint others) rows ch now of
           Inl _ \<Rightarrow> if active_revision rows (ch_type ch) (ch_entity ch) (ch_tenant ch) = None
                    then saves sha mint others rows else rows
         | Inr (rows', _) \<Rightarrow> rows'))"

lemma retire_deactivate [simp]: "map retire (deactivate kind entity tenant rows) = map retire rows"
  by (simp add: deactivate_def)

lemma save_appends:
  assumes "save_revision sha mint race rows ch now = Inr (rows', r)"
    and "prefix (map retire rows) (map retire (race rows))"
  shows "prefix (map retire rows) (map retire rows')"
  using assms
  by (auto simp: save_revision_def Let_def intro: prefix_order.trans
      split: option.splits if_splits)

lemma saves_append: "prefix (map retire rows) (map retire (saves sha mint cs rows))"
proof (induction cs arbitrary: rows)
  case (Cons c cs)
  obtain ch now where c: "c = (ch, now)" by (cases c)
  show ?case
  proof (cases "save_revision sha mint id rows ch now")
    case (Inr p)
    then obtain rows' r where r: "save_revision sha mint id rows ch now = Inr (rows', r)"
      by (cases p) auto
    from save_appends [OF r] Cons [of rows'] show ?thesis
      by (auto simp: c r intro: prefix_order.trans)
  qed (simp add: c Cons)
qed simp

lemma saves_keep: "well_kept sha rows \<Longrightarrow> well_kept sha (saves sha mint cs rows)"
proof (induction cs arbitrary: rows)
  case (Cons c cs)
  obtain ch now where c: "c = (ch, now)" by (cases c)
  have "well_kept sha rows'" if "save_revision sha mint id rows ch now = Inr (rows', r)" for rows' r
    using save_keeps [OF _ _ that] Cons.prems by simp
  with Cons show ?case by (auto simp: c split: sum.splits)
qed simp

interpretation revisions: append_log "map retire" "save_step sha mint" for sha mint
proof
  fix c :: "(revision_change \<times> int) list \<times> revision_change \<times> int" and rows :: "revision list"
  obtain others ch now where c: "c = (others, ch, now)" by (cases c)
  show "prefix (map retire rows) (map retire (save_step sha mint c rows))"
    using saves_append [of rows sha mint others]
      save_appends [of sha mint "saves sha mint others" rows ch now]
    by (auto simp: c save_step_def split: sum.splits)
qed

lemma save_step_keeps: "well_kept sha rows \<Longrightarrow> well_kept sha (save_step sha mint c rows)"
  by (cases c) (auto simp: save_step_def split: sum.splits intro: save_keeps saves_keep)

lemma save_steps_keep: "well_kept sha rows \<Longrightarrow> well_kept sha (revisions.run_steps sha mint cs rows)"
  unfolding revisions.run_steps_def by (induction cs arbitrary: rows) (auto intro: save_step_keeps)

lemma well_kept_Nil [simp]: "well_kept sha []"
  by (simp add: well_kept_def)

text \<open>
  Claim C22. Whatever saves are made, one after the other or racing on an entity without a
  revision, the revisions of every entity and tenant stay one chain: versions counted from 1
  without a gap, each with its parent, its hash and its diff to the parent, and exactly the last
  one active. No later save removes a revision or changes anything of it but the active flag.
\<close>

theorem revisions_stay_a_chain:
  "linked sha None (filter (in_scope kind entity tenant)
      (foldl (\<lambda>rows c. save_step sha mint c rows) [] (cs @ ds)))
   \<and> prefix (map retire (foldl (\<lambda>rows c. save_step sha mint c rows) [] cs))
       (map retire (foldl (\<lambda>rows c. save_step sha mint c rows) [] (cs @ ds)))"
proof
  show "linked sha None (filter (in_scope kind entity tenant)
      (foldl (\<lambda>rows c. save_step sha mint c rows) [] (cs @ ds)))"
    using save_steps_keep [OF well_kept_Nil, of sha mint "cs @ ds"]
    by (simp only: revisions.run_steps_def well_kept_def)
  show "prefix (map retire (foldl (\<lambda>rows c. save_step sha mint c rows) [] cs))
       (map retire (foldl (\<lambda>rows c. save_step sha mint c rows) [] (cs @ ds)))"
    using revisions.run_appends [of "revisions.run_steps sha mint cs []" sha mint ds]
    by (simp add: revisions.run_steps_def)
qed

end
