(* ===== verification/Action_Preflight.thy ===== *)
theory Action_Preflight
  imports Plan_Mode Py_Compare
begin

text \<open>
  The preflight at the action boundary, \<open>backend/app/services/action_preflight.py\<close>, with the
  authorization entry of \<open>backend/app/runtime/decision_ledger.py\<close>: from the risk axes of an
  action, the zone its owner gave it, and what is known about secrets, company boundaries and
  evidence, whether the action may run. The confidence of an evidence pack is a number or
  \<open>None\<close>, as a JSON value.
\<close>

section \<open>Requests and results\<close>

datatype axis_level = LowRisk | MediumRisk | HighRisk

datatype charter_zone = FullAuthority | ConfirmFirst | NeverDo

datatype preflight_verdict = Do | PrepareOnly | Ask | Refuse | Escalate

datatype sensitivity_level = PL1_public | PL2_pii | PL3_sensitive | PL4_credential

primrec zone_text :: "charter_zone \<Rightarrow> string" where
  "zone_text FullAuthority = ''full_authority''"
| "zone_text ConfirmFirst = ''confirm_first''"
| "zone_text NeverDo = ''never_do''"

primrec verdict_text :: "preflight_verdict \<Rightarrow> string" where
  "verdict_text Do = ''do''"
| "verdict_text PrepareOnly = ''prepare_only''"
| "verdict_text Ask = ''ask''"
| "verdict_text Refuse = ''refuse''"
| "verdict_text Escalate = ''escalate''"

primrec sensitivity_text :: "sensitivity_level \<Rightarrow> string" where
  "sensitivity_text PL1_public = ''PL1_public''"
| "sensitivity_text PL2_pii = ''PL2_pii''"
| "sensitivity_text PL3_sensitive = ''PL3_sensitive''"
| "sensitivity_text PL4_credential = ''PL4_credential''"

record evidence_pack =
  ev_id :: string
  ev_sources :: "string list"
  ev_citations :: "string list"
  ev_digest :: "string option"
  ev_provider :: string
  ev_confidence :: pyval
  ev_limitations :: "string list"
  ev_stripped :: bool
  ev_traces :: "string list"

record preflight_request =
  pf_action :: string
  pf_reversibility :: axis_level
  pf_representativeness :: axis_level
  pf_judgment :: axis_level
  pf_visibility :: axis_level
  pf_specialization :: axis_level
  pf_zone :: charter_zone
  pf_effectful :: bool
  pf_sensitivity :: sensitivity_level
  pf_runtime_allowed :: bool
  pf_company_conflict :: bool
  pf_user_authorized :: bool
  pf_charter_valid :: bool
  pf_charter_error :: "string option"
  pf_evidence :: "evidence_pack list"
  pf_secrets :: "string list"

record preflight_result =
  pr_decision :: preflight_verdict
  pr_reasons :: "string list"
  pr_checkpoint :: bool
  pr_audit :: bool
  pr_escalation :: "string option"
  pr_evidence_refs :: "string list"
  pr_evidence_trace :: "pyval list"

section \<open>The decision\<close>

definition axis_fields :: "preflight_request \<Rightarrow> (string \<times> axis_level) list" where
  "axis_fields rq =
     [(''reversibility'', pf_reversibility rq), (''representativeness'', pf_representativeness rq),
      (''judgment_density'', pf_judgment rq), (''visibility'', pf_visibility rq),
      (''domain_specialization'', pf_specialization rq)]"

definition axes_at_level :: "preflight_request \<Rightarrow> axis_level \<Rightarrow> string list" where
  "axes_at_level rq level = map fst (filter (\<lambda>a. snd a = level) (axis_fields rq))"

definition truth_search_unavailable :: "evidence_pack list \<Rightarrow> bool" where
  "truth_search_unavailable packs =
     list_ex (\<lambda>p. prefix ''truth://provider-error/'' (ev_id p)
       \<or> py_eq (ev_confidence p) (PFloat ''0.0'') \<and> list_ex (prefix ''provider_'') (ev_limitations p)) packs"

definition truth_evidence_trace :: "evidence_pack list \<Rightarrow> pyval list" where
  "truth_evidence_trace packs =
     map (\<lambda>p. PDict
       [(''evidence_id'', PStr (ev_id p)), (''source_refs'', PList (map PStr (ev_sources p))),
        (''citations'', PList (map PStr (ev_citations p))), (''digest'', opt_pstr (ev_digest p)),
        (''provider'', PStr (ev_provider p)), (''limitations'', PList (map PStr (ev_limitations p))),
        (''prompt_injection_stripped'', PBool (ev_stripped p)),
        (''trace_refs'', PList (map PStr (ev_traces p)))])
     (filter (\<lambda>p. ev_id p \<noteq> []) packs)"

definition evidence_refs :: "preflight_request \<Rightarrow> string list" where
  "evidence_refs rq = py_unique (filter (\<lambda>i. i \<noteq> []) (map ev_id (pf_evidence rq)) @ pf_secrets rq)"

definition verdict :: "preflight_request \<Rightarrow> preflight_verdict \<Rightarrow> string list \<Rightarrow> bool \<Rightarrow> bool \<Rightarrow>
    string option \<Rightarrow> preflight_result" where
  "verdict rq d reasons checkpoint audit target =
     \<lparr>pr_decision = d, pr_reasons = reasons, pr_checkpoint = checkpoint, pr_audit = audit,
      pr_escalation = target, pr_evidence_refs = evidence_refs rq,
      pr_evidence_trace = truth_evidence_trace (pf_evidence rq)\<rparr>"

definition evaluate_action :: "preflight_request \<Rightarrow> preflight_result" where
  "evaluate_action rq =
     (let high = axes_at_level rq HighRisk;
          medium = axes_at_level rq MediumRisk;
          risk = map (\<lambda>a. ''high_risk_axis:'' @ a) in
      if \<not> pf_runtime_allowed rq then verdict rq Refuse [''runtime_permission_denied''] False True None
      else if pf_secrets rq \<noteq> [] then verdict rq Refuse [''unauthorized_secret_bytes''] False True None
      else if pf_sensitivity rq = PL4_credential
      then verdict rq Refuse [''pl4_zero_retention''] False True None
      else if \<not> pf_charter_valid rq \<and> pf_effectful rq
      then verdict rq Refuse [''owner_action_policy_invalid:'' @ or_default (pf_charter_error rq) ''unavailable'']
             False True None
      else if pf_zone rq = NeverDo then verdict rq Refuse [''charter_never_do''] False True None
      else if pf_company_conflict rq
      then verdict rq Escalate [''company_boundary_conflict''] True True (Some ''company_admin'')
      else if truth_search_unavailable (pf_evidence rq) \<and> (high \<noteq> [] \<or> pf_zone rq = ConfirmFirst)
      then verdict rq Ask (''truth_search_unavailable'' # risk high) True True None
      else if pf_user_authorized rq \<and> pf_zone rq = ConfirmFirst
      then verdict rq Do [''explicit_user_authorization''] False True None
      else if pf_zone rq = FullAuthority \<and> (high \<noteq> [] \<or> medium \<noteq> [])
      then verdict rq Do [''charter_full_authority''] False True None
      else if high \<noteq> [] then verdict rq Ask (risk high) True True None
      else if pf_zone rq = ConfirmFirst then verdict rq Ask [''charter_confirm_first''] True True None
      else if medium \<noteq> []
      then verdict rq PrepareOnly (map (\<lambda>a. ''medium_risk_axis:'' @ a) medium) False True None
      else verdict rq Do [''full_authority_low_risk''] False False None)"

section \<open>Traces of a decision\<close>

definition flag_text :: "bool \<Rightarrow> string" where
  "flag_text b = (if b then ''true'' else ''false'')"

definition as_decision_trace_preflight :: "preflight_result \<Rightarrow> (string \<times> pyval) list" where
  "as_decision_trace_preflight r =
     (let payload =
        [(''decision'', PStr (verdict_text (pr_decision r))), (''reasons'', PStr (py_join '','' (pr_reasons r))),
         (''requires_checkpoint'', PStr (flag_text (pr_checkpoint r))),
         (''requires_audit'', PStr (flag_text (pr_audit r))),
         (''escalation_target'', PStr (opt_text (pr_escalation r)))];
          payload = (if pr_evidence_refs r = [] then payload
            else payload @ [(''evidence_refs'', PStr (py_join '','' (pr_evidence_refs r)))]) in
      if pr_evidence_trace r = [] then payload
      else payload @ [(''truth_evidence'', PStr (json_dumps (PList (pr_evidence_trace r))))])"

definition AUTHORIZATION_DECISION_SCHEMA :: string where
  "AUTHORIZATION_DECISION_SCHEMA = ''hive.ccplus.authorization_decision.v1''"

text \<open>\<open>_auth_text\<close> and \<open>_auth_reason_text\<close>: a blank text is \<open>None\<close>, a list is joined.\<close>

definition auth_text :: "pyval \<Rightarrow> pyval" where
  "auth_text v = (if clean_text v = [] then PNone else PStr (clean_text v))"

definition auth_reason_text :: "pyval \<Rightarrow> string" where
  "auth_reason_text reason =
     (case reason of
        PList vs \<Rightarrow> py_join '','' (map py_str (filter (\<lambda>v. clean_text v \<noteq> []) vs))
      | _ \<Rightarrow> clean_text reason)"

definition build_authorization_decision_entry ::
  "pyval \<Rightarrow> pyval \<Rightarrow> pyval \<Rightarrow> pyval \<Rightarrow> pyval \<Rightarrow> pyval \<Rightarrow> pyval \<Rightarrow> pyval \<Rightarrow> pyval \<Rightarrow> string \<Rightarrow>
   (string \<times> pyval) list" where
  "build_authorization_decision_entry resource action result reason whom company sensitivity
       policy model_visible_message origin =
     [(''schema'', PStr AUTHORIZATION_DECISION_SCHEMA), (''resource'', auth_text resource),
      (''action'', auth_text action), (''principal'', auth_text whom),
      (''company'', auth_text company), (''sensitivity'', auth_text sensitivity),
      (''policy'', auth_text policy), (''result'', auth_text result),
      (''reason'', (if auth_reason_text reason = [] then PNone else PStr (auth_reason_text reason))),
      (''model_visible_message'', auth_text model_visible_message), (''source'', PStr origin)]"

definition as_authorization_decision_entry ::
  "preflight_result \<Rightarrow> preflight_request \<Rightarrow> string \<Rightarrow> string option \<Rightarrow> string option \<Rightarrow> string option \<Rightarrow>
   (string \<times> pyval) list" where
  "as_authorization_decision_entry r rq resource whom company message =
     build_authorization_decision_entry (PStr resource) (PStr (pf_action rq))
       (PStr (verdict_text (pr_decision r))) (PList (map PStr (pr_reasons r))) (opt_pstr whom)
       (opt_pstr company) (PStr (sensitivity_text (pf_sensitivity rq))) (PStr ''action_preflight'')
       (opt_pstr message) ''action_preflight''"

section \<open>What the decision means\<close>

text \<open>
  The specification of a verdict, without the order of the checks: what stops an action for
  good, what has to be escalated, and what needs a human answer.
\<close>

definition forbidden :: "preflight_request \<Rightarrow> bool" where
  "forbidden rq \<longleftrightarrow> \<not> pf_runtime_allowed rq \<or> pf_secrets rq \<noteq> [] \<or> pf_sensitivity rq = PL4_credential
     \<or> (pf_effectful rq \<and> \<not> pf_charter_valid rq) \<or> pf_zone rq = NeverDo"

definition risky :: "preflight_request \<Rightarrow> bool" where
  "risky rq \<longleftrightarrow> HighRisk \<in> snd ` set (axis_fields rq)"

definition needs_answer :: "preflight_request \<Rightarrow> bool" where
  "needs_answer rq \<longleftrightarrow>
     truth_search_unavailable (pf_evidence rq) \<and> (risky rq \<or> pf_zone rq = ConfirmFirst)
     \<or> pf_zone rq = ConfirmFirst \<and> \<not> pf_user_authorized rq"

lemma axes_at_level_ne: "axes_at_level rq level \<noteq> [] \<longleftrightarrow> level \<in> snd ` set (axis_fields rq)"
  by (auto simp: axes_at_level_def filter_empty_conv)

lemma verdict_simps [simp]:
  "pr_decision (verdict rq d rs c a t) = d" "pr_audit (verdict rq d rs c a t) = a"
  "pr_checkpoint (verdict rq d rs c a t) = c" "pr_reasons (verdict rq d rs c a t) = rs"
  by (simp_all add: verdict_def)

lemma preflight_decision:
  "pr_decision (evaluate_action rq) =
     (if forbidden rq then Refuse else if pf_company_conflict rq then Escalate
      else if needs_answer rq then Ask else Do)"
proof (cases "forbidden rq")
  case True
  then have "pr_decision (evaluate_action rq) = Refuse"
    unfolding evaluate_action_def Let_def if_distrib [of pr_decision] verdict_simps
    by (auto simp: forbidden_def)
  with True show ?thesis by simp
next
  case False
  then have zone: "pf_zone rq = FullAuthority \<or> pf_zone rq = ConfirmFirst"
    by (cases "pf_zone rq") (auto simp: forbidden_def)
  have high: "axes_at_level rq HighRisk \<noteq> [] \<longleftrightarrow> risky rq"
    by (simp add: axes_at_level_ne risky_def)
  have "pr_decision (evaluate_action rq) =
      (if pf_company_conflict rq then Escalate else if needs_answer rq then Ask else Do)"
    using False zone high unfolding evaluate_action_def Let_def if_distrib [of pr_decision] verdict_simps
    by (auto simp: forbidden_def needs_answer_def)
  with False show ?thesis by simp
qed

text \<open>
  The verdict is exactly its specification: a forbidden action is refused, a company
  conflict escalates, an action that needs an answer is asked about, and everything else runs.
  The prepare-only verdict, which the code and its callers provide for, is never given.
\<close>

theorem preflight_meets_its_specification:
  "pr_decision (evaluate_action rq) =
     (if forbidden rq then Refuse else if pf_company_conflict rq then Escalate
      else if needs_answer rq then Ask else Do)
   \<and> pr_decision (evaluate_action rq) \<noteq> PrepareOnly"
  by (simp add: preflight_decision)

lemma unaudited_run:
  assumes "\<not> pr_audit (evaluate_action rq)"
  shows "pf_zone rq = FullAuthority \<and> (\<forall>l \<in> snd ` set (axis_fields rq). l = LowRisk)"
proof -
  have none: "axes_at_level rq HighRisk = []" "axes_at_level rq MediumRisk = []"
    and zone: "pf_zone rq \<noteq> NeverDo" "pf_zone rq \<noteq> ConfirmFirst"
    using assms by (auto simp: evaluate_action_def Let_def split: if_splits)
  have "l = LowRisk" if "l \<in> snd ` set (axis_fields rq)" for l
    using that none [unfolded axes_at_level_ne [of rq, THEN arg_cong [of _ _ Not], simplified]] by (cases l) auto
  with zone show ?thesis by (cases "pf_zone rq") auto
qed

end
