(* ===== verification/Owner_Policy.thy ===== *)
theory Owner_Policy
  imports Config_Revisions Action_Preflight
begin

text \<open>
  The action policy of an agent's owner, \<open>backend/app/services/owner_action_policy.py\<close>: three
  action identifiers with a charter zone each, validated, stored as revisions of
  \<open>Config_Revisions\<close>, loaded, replaced and rolled back. A transaction reads, then writes: what
  other transactions commit in between, while there is no row to lock, is the argument
  \<open>meanwhile\<close> (before the write begins) or \<open>race\<close> (inside it).
\<close>

section \<open>The policy\<close>

definition OWNER_ACTION_POLICY_SCHEMA :: string where
  "OWNER_ACTION_POLICY_SCHEMA = ''hive.owner_action_policy.v1''"

definition OWNER_ACTION_POLICY_ENTITY_TYPE :: string where
  "OWNER_ACTION_POLICY_ENTITY_TYPE = ''owner_action_policy''"

definition ACTION_EXTERNAL_EFFECT :: string where
  "ACTION_EXTERNAL_EFFECT = ''tool.external_effect''"

definition ACTION_LOCAL_READ :: string where
  "ACTION_LOCAL_READ = ''tool.local_read''"

definition ACTION_LOCAL_WRITE :: string where
  "ACTION_LOCAL_WRITE = ''tool.local_write''"

definition OWNER_ACTION_IDS :: "string list" where
  "OWNER_ACTION_IDS = [ACTION_EXTERNAL_EFFECT, ACTION_LOCAL_READ, ACTION_LOCAL_WRITE]"

datatype policy_error =
    PolicyInvalid string
  | VersionConflict string
  | RevisionNotFound string
  | PolicyDbError string

record owner_policy =
  op_agent :: uuid
  op_tenant :: uuid
  op_actions :: "(string \<times> charter_zone) list"
  op_version :: int
  op_revision :: "uuid option"
  op_hash :: string
  op_source :: string
  op_valid :: bool
  op_error :: "string option"

definition zone_for :: "owner_policy \<Rightarrow> string \<Rightarrow> charter_zone" where
  "zone_for p action_id =
     (case map_of (op_actions p) action_id of
        Some z \<Rightarrow> z
      | None \<Rightarrow> if op_valid p then ConfirmFirst else NeverDo)"

definition policy_facts :: "owner_policy \<Rightarrow> (string \<times> pyval) list" where
  "policy_facts p =
     [(''version'', PInt (op_version p)),
      (''revision_id'', opt_pstr (map_option uuid_str (op_revision p))),
      (''content_hash'', PStr (op_hash p)), (''source'', PStr (op_source p)),
      (''valid'', PBool (op_valid p)), (''error_code'', opt_pstr (op_error p))]"

definition trace_payload :: "owner_policy \<Rightarrow> string \<Rightarrow> (string \<times> pyval) list" where
  "trace_payload p action_id =
     [(''schema'', PStr OWNER_ACTION_POLICY_SCHEMA), (''action_id'', PStr action_id),
      (''zone'', PStr (zone_text (zone_for p action_id)))] @ policy_facts p"

definition response_payload :: "owner_policy \<Rightarrow> bool \<Rightarrow> (string \<times> pyval) list" where
  "response_payload p can_manage =
     [(''schema'', PStr OWNER_ACTION_POLICY_SCHEMA),
      (''actions'', PDict (map (\<lambda>a. (a, PStr (zone_text (zone_for p a)))) OWNER_ACTION_IDS))]
     @ policy_facts p @ [(''can_manage'', PBool can_manage)]"

section \<open>Validation\<close>

definition zone_of_text :: "string \<Rightarrow> charter_zone option" where
  "zone_of_text s = find (\<lambda>z. zone_text z = s) [FullAuthority, ConfirmFirst, NeverDo]"

definition key_list :: "string list \<Rightarrow> string" where
  "key_list ks = py_repr (PList (map PStr (sort ks)))"

definition validate_owner_action_policy_actions ::
  "(string \<times> pyval) list \<Rightarrow> (policy_error, (string \<times> charter_zone) list) res" where
  "validate_owner_action_policy_actions actions =
     (let keys = py_unique (map fst actions);
          missing = filter (\<lambda>k. k \<notin> set keys) OWNER_ACTION_IDS;
          extra = filter (\<lambda>k. k \<notin> set OWNER_ACTION_IDS) keys in
      if missing \<noteq> [] \<or> extra \<noteq> []
      then Inl (PolicyInvalid (''owner action policy requires exact action ids; missing='' @ key_list missing
             @ '', extra='' @ key_list extra))
      else fold_res (\<lambda>normalized a. case zone_of_text (py_str (dget actions a)) of
             None \<Rightarrow> Inl (PolicyInvalid (''invalid charter zone for '' @ a @ '': '' @ py_repr (dget actions a)))
           | Some z \<Rightarrow> Inr (normalized @ [(a, z)])) [] OWNER_ACTION_IDS)"

definition policy_content :: "(string \<times> pyval) list \<Rightarrow> (policy_error, (string \<times> pyval) list) res" where
  "policy_content actions =
     bind_res (validate_owner_action_policy_actions actions) (\<lambda>normalized.
       Inr [(''schema'', PStr OWNER_ACTION_POLICY_SCHEMA),
            (''actions'', PDict (map (\<lambda>(a, z). (a, PStr (zone_text z))) normalized))])"

definition actions_from_content ::
  "(string \<times> pyval) list \<Rightarrow> (policy_error, (string \<times> charter_zone) list) res" where
  "actions_from_content content =
     (if set (map fst content) \<noteq> {''schema'', ''actions''}
      then Inl (PolicyInvalid ''owner action policy content has unexpected fields'')
      else if \<not> eq_str (dget content ''schema'') OWNER_ACTION_POLICY_SCHEMA
      then Inl (PolicyInvalid ''owner action policy schema is unsupported'')
      else case as_dict (dget content ''actions'') of
        None \<Rightarrow> Inl (PolicyInvalid ''owner action policy actions must be an object'')
      | Some d \<Rightarrow> validate_owner_action_policy_actions d)"

section \<open>Policies without a revision\<close>

definition build_owner_action_policy ::
  "(string \<Rightarrow> string) \<Rightarrow> uuid \<Rightarrow> uuid \<Rightarrow> (string \<times> pyval) list \<Rightarrow> int \<Rightarrow> uuid option \<Rightarrow> string option \<Rightarrow>
   string \<Rightarrow> (policy_error, owner_policy) res" where
  "build_owner_action_policy sha agent tenant actions version revision_id content_hash origin =
     bind_res (policy_content actions) (\<lambda>content.
     bind_res (actions_from_content content) (\<lambda>zones.
       Inr \<lparr>op_agent = agent, op_tenant = tenant, op_actions = zones, op_version = version,
            op_revision = revision_id,
            op_hash = or_default content_hash (canonical_content_hash sha content),
            op_source = origin, op_valid = True, op_error = None\<rparr>))"

definition default_actions :: "(string \<times> pyval) list" where
  "default_actions =
     [(ACTION_EXTERNAL_EFFECT, PStr (zone_text ConfirmFirst)),
      (ACTION_LOCAL_READ, PStr (zone_text FullAuthority)),
      (ACTION_LOCAL_WRITE, PStr (zone_text FullAuthority))]"

definition closed_actions :: "(string \<times> charter_zone) list" where
  "closed_actions =
     [(ACTION_EXTERNAL_EFFECT, NeverDo), (ACTION_LOCAL_READ, FullAuthority),
      (ACTION_LOCAL_WRITE, NeverDo)]"

definition build_default_owner_action_policy ::
  "(string \<Rightarrow> string) \<Rightarrow> uuid \<Rightarrow> uuid \<Rightarrow> (policy_error, owner_policy) res" where
  "build_default_owner_action_policy sha agent tenant =
     build_owner_action_policy sha agent tenant default_actions 0 None None ''builtin_default''"

definition zone_values :: "(string \<times> charter_zone) list \<Rightarrow> (string \<times> pyval) list" where
  "zone_values = map (\<lambda>(a, z). (a, PStr (zone_text z)))"

definition build_unavailable_owner_action_policy ::
  "(string \<Rightarrow> string) \<Rightarrow> uuid \<Rightarrow> uuid \<Rightarrow> string \<Rightarrow> (policy_error, owner_policy) res" where
  "build_unavailable_owner_action_policy sha agent tenant code =
     bind_res (policy_content (zone_values closed_actions)) (\<lambda>content.
     bind_res (actions_from_content content) (\<lambda>zones.
       Inr \<lparr>op_agent = agent, op_tenant = tenant, op_actions = zones, op_version = 0,
            op_revision = None, op_hash = canonical_content_hash sha content,
            op_source = ''unavailable'', op_valid = False,
            op_error = Some (or_default (Some code) ''policy_dependency_unavailable'')\<rparr>))"

section \<open>Stored policies\<close>

definition invalid_owner_action_policy :: "uuid \<Rightarrow> uuid \<Rightarrow> revision \<Rightarrow> owner_policy" where
  "invalid_owner_action_policy agent tenant r =
     \<lparr>op_agent = agent, op_tenant = tenant, op_actions = closed_actions, op_version = r_version r,
      op_revision = Some (r_id r), op_hash = r_hash r,
      op_source = or_default (Some (r_source r)) ''persisted'', op_valid = False,
      op_error = Some ''invalid_policy_contract''\<rparr>"

definition policy_from_revision :: "uuid \<Rightarrow> uuid \<Rightarrow> revision \<Rightarrow> owner_policy" where
  "policy_from_revision agent tenant r =
     (case actions_from_content (r_content r) of
        Inl _ \<Rightarrow> invalid_owner_action_policy agent tenant r
      | Inr zones \<Rightarrow>
          \<lparr>op_agent = agent, op_tenant = tenant, op_actions = zones, op_version = r_version r,
           op_revision = Some (r_id r), op_hash = r_hash r,
           op_source = or_default (Some (r_source r)) ''persisted'', op_valid = True, op_error = None\<rparr>)"

definition active_policy_revision :: "revision list \<Rightarrow> uuid \<Rightarrow> uuid \<Rightarrow> revision option" where
  "active_policy_revision rows agent tenant =
     active_revision rows OWNER_ACTION_POLICY_ENTITY_TYPE agent tenant"

definition policy_change ::
  "uuid \<Rightarrow> uuid \<Rightarrow> (string \<times> pyval) list \<Rightarrow> string \<Rightarrow> uuid option \<Rightarrow> string \<Rightarrow> uuid option \<Rightarrow> bool \<Rightarrow>
   revision_change" where
  "policy_change agent tenant content origin user message rollback_of force_it =
     \<lparr>ch_type = OWNER_ACTION_POLICY_ENTITY_TYPE, ch_entity = agent, ch_tenant = tenant,
      ch_content = content, ch_source = origin, ch_user = user, ch_agent = None,
      ch_message = message, ch_rollback = rollback_of, ch_force = force_it\<rparr>"

definition db_error :: "(string, 'a) res \<Rightarrow> (policy_error, 'a) res" where
  "db_error m = (case m of Inl e \<Rightarrow> Inl (PolicyDbError e) | Inr x \<Rightarrow> Inr x)"

text \<open>
  Loading backfills the default as a first revision. When the insert loses the race for it, the
  savepoint is rolled back and the winner's revision is read.
\<close>

definition load_owner_action_policy ::
  "(string \<Rightarrow> string) \<Rightarrow> (revision list \<Rightarrow> uuid) \<Rightarrow> (revision list \<Rightarrow> revision list) \<Rightarrow> revision list \<Rightarrow>
   uuid \<Rightarrow> uuid \<Rightarrow> bool \<Rightarrow> int \<Rightarrow> (policy_error, revision list \<times> owner_policy) res" where
  "load_owner_action_policy sha mint race rows agent tenant create_default now =
     (case active_policy_revision rows agent tenant of
        Some r \<Rightarrow> Inr (rows, policy_from_revision agent tenant r)
      | None \<Rightarrow>
          bind_res (build_default_owner_action_policy sha agent tenant) (\<lambda>p.
          if \<not> create_default then Inr (rows, p)
          else bind_res (policy_content (zone_values (op_actions p))) (\<lambda>content.
            case save_revision sha mint race rows (policy_change agent tenant content ''migration'' None
                ''Backfill default typed Owner action policy for legacy agent.'' None False) now of
              Inr (rows', r) \<Rightarrow> Inr (rows', policy_from_revision agent tenant r)
            | Inl e \<Rightarrow>
                (case active_policy_revision (race rows) agent tenant of
                   None \<Rightarrow> Inl (PolicyDbError e)
                 | Some r \<Rightarrow> Inr (race rows, policy_from_revision agent tenant r)))))"

definition check_expected :: "int option \<Rightarrow> revision option \<Rightarrow> (policy_error, unit) res" where
  "check_expected expected current =
     (let v = (case current of None \<Rightarrow> 0 | Some r \<Rightarrow> r_version r) in
      case expected of
        None \<Rightarrow> Inr ()
      | Some e \<Rightarrow> require (e = v) (VersionConflict (''expected policy version '' @ str_of_int e
          @ '', active version is '' @ str_of_int v)))"

definition save_owner_action_policy ::
  "(string \<Rightarrow> string) \<Rightarrow> (revision list \<Rightarrow> uuid) \<Rightarrow> (revision list \<Rightarrow> revision list) \<Rightarrow>
   (revision list \<Rightarrow> revision list) \<Rightarrow> revision list \<Rightarrow> uuid \<Rightarrow> uuid \<Rightarrow> (string \<times> pyval) list \<Rightarrow> uuid \<Rightarrow>
   int option \<Rightarrow> string \<Rightarrow> int \<Rightarrow> (policy_error, revision list \<times> owner_policy) res" where
  "save_owner_action_policy sha mint meanwhile race rows agent tenant actions user expected message now =
     bind_res (policy_content actions) (\<lambda>content.
     let current = active_policy_revision rows agent tenant in
     bind_res (check_expected expected current) (\<lambda>_.
     let rows = (if current = None then meanwhile rows else rows) in
     bind_res (db_error (save_revision sha mint race rows
         (policy_change agent tenant content ''user'' (Some user) message None False) now)) (\<lambda>(rows', r).
       Inr (rows', policy_from_revision agent tenant r))))"

definition policy_of_version ::
  "revision list \<Rightarrow> uuid \<Rightarrow> uuid \<Rightarrow> int \<Rightarrow> (policy_error, revision) res" where
  "policy_of_version rows agent tenant version =
     (case filter (\<lambda>r. in_scope OWNER_ACTION_POLICY_ENTITY_TYPE agent tenant r \<and> r_version r = version) rows of
        [] \<Rightarrow> Inl (RevisionNotFound (''Owner action policy version '' @ str_of_int version @ '' was not found''))
      | [r] \<Rightarrow> Inr r
      | _ \<Rightarrow> Inl (PolicyDbError ''MultipleResultsFound''))"

definition rollback_owner_action_policy ::
  "(string \<Rightarrow> string) \<Rightarrow> (revision list \<Rightarrow> uuid) \<Rightarrow> (revision list \<Rightarrow> revision list) \<Rightarrow>
   (revision list \<Rightarrow> revision list) \<Rightarrow> revision list \<Rightarrow> uuid \<Rightarrow> uuid \<Rightarrow> int \<Rightarrow> uuid \<Rightarrow> int option \<Rightarrow> string \<Rightarrow>
   int \<Rightarrow> (policy_error, revision list \<times> owner_policy) res" where
  "rollback_owner_action_policy sha mint meanwhile race rows agent tenant version user expected reason now =
     (let current = active_policy_revision rows agent tenant in
     bind_res (check_expected expected current) (\<lambda>_.
     let rows = (if current = None then meanwhile rows else rows) in
     bind_res (policy_of_version rows agent tenant version) (\<lambda>target.
     bind_res (actions_from_content (r_content target)) (\<lambda>zones.
     bind_res (policy_content (zone_values zones)) (\<lambda>content.
     bind_res (db_error (save_revision sha mint race rows
         (policy_change agent tenant content ''rollback'' (Some user) reason (Some (r_id target)) True) now))
       (\<lambda>(rows', r). Inr (rows', policy_from_revision agent tenant r)))))))"

section \<open>The policy in the prompt\<close>

definition render_owner_action_policy_prompt_section :: "owner_policy \<Rightarrow> string" where
  "render_owner_action_policy_prompt_section p =
     (let q = [CHR 0x22]; nl = [CHR 0x0A] in
      py_join nl
        ([''## Owner Action Policy'',
          ''<owner_action_policy schema='' @ q @ OWNER_ACTION_POLICY_SCHEMA @ q @ '' version='' @ q
            @ str_of_int (op_version p) @ q @ '' content_hash='' @ q @ op_hash p @ q @ '' valid='' @ q
            @ flag_text (op_valid p) @ q @ ''>'',
          ''This is the platform-enforced tool-effect boundary for this agent. ''
            @ ''Use these exact action identifiers; natural-language examples do not change these zones.'']
         @ map (\<lambda>a. ''- '' @ a @ '': '' @ zone_text (zone_for p a)) OWNER_ACTION_IDS
         @ (if op_valid p then []
            else [''- recovery_required: '' @ or_default (op_error p) ''invalid_policy_contract'' @ ''; ''
              @ ''effectful actions remain blocked until a manager saves or rolls back a valid revision.''])
         @ [''</owner_action_policy>'']))"

definition unavailable_prompt_section :: "string \<Rightarrow> string" where
  "unavailable_prompt_section reason_code =
     (let q = [CHR 0x22]; nl = [CHR 0x0A] in
      py_join nl
        [''## Owner Action Policy'',
         ''<owner_action_policy schema='' @ q @ OWNER_ACTION_POLICY_SCHEMA @ q @ '' status='' @ q
           @ ''unavailable'' @ q @ '' reason='' @ q @ reason_code @ q @ ''>'',
         ''The policy dependency is unavailable. Internal read-only reasoning may continue, but effectful tools are blocked.'',
         ''- '' @ ACTION_EXTERNAL_EFFECT @ '': never_do'', ''- '' @ ACTION_LOCAL_READ @ '': full_authority'',
         ''- '' @ ACTION_LOCAL_WRITE @ '': never_do'', ''</owner_action_policy>''])"

text \<open>The section, with the source references and the unbound sources it reports.\<close>

definition resolve_owner_action_policy_prompt_section ::
  "(string \<Rightarrow> string) \<Rightarrow> (revision list \<Rightarrow> uuid) \<Rightarrow> (revision list \<Rightarrow> revision list) \<Rightarrow>
   (string, revision list) res \<Rightarrow> uuid \<Rightarrow> pyval \<Rightarrow> int \<Rightarrow> string \<times> (string \<times> pyval) list list \<times> string list" where
  "resolve_owner_action_policy_prompt_section sha mint race database agent tenant_id now =
     (case uuid_of_text (py_str tenant_id) of
        None \<Rightarrow> (unavailable_prompt_section ''tenant_unavailable'', [], [''owner_action_policy_tenant_unavailable''])
      | Some tenant \<Rightarrow>
          (case bind_res (db_error database) (\<lambda>rows.
              load_owner_action_policy sha mint race rows agent tenant True now) of
             Inl _ \<Rightarrow> (unavailable_prompt_section ''policy_dependency_unavailable'', [], [''owner_action_policy_unavailable''])
           | Inr (rows', p) \<Rightarrow>
               (let rendered = render_owner_action_policy_prompt_section p in
                case op_revision p of
                  Some r \<Rightarrow>
                    if op_valid p
                    then (rendered, [[(''source_kind'', PStr ''owner_action_policy''),
                           (''source_id'', PStr (uuid_str agent @ [CHR 0x0A] @ uuid_str r)),
                           (''source_version'', PStr (sha rendered))]], [])
                    else (rendered, [], [''owner_action_policy_revision_unverified''])
                | None \<Rightarrow> (rendered, [], [''owner_action_policy_revision_unverified'']))))"

section \<open>Validated actions\<close>

lemma action_ids_distinct [simp]:
  "ACTION_EXTERNAL_EFFECT \<noteq> ACTION_LOCAL_READ" "ACTION_EXTERNAL_EFFECT \<noteq> ACTION_LOCAL_WRITE"
  "ACTION_LOCAL_READ \<noteq> ACTION_EXTERNAL_EFFECT" "ACTION_LOCAL_READ \<noteq> ACTION_LOCAL_WRITE"
  "ACTION_LOCAL_WRITE \<noteq> ACTION_EXTERNAL_EFFECT" "ACTION_LOCAL_WRITE \<noteq> ACTION_LOCAL_READ"
  by (simp_all add: ACTION_EXTERNAL_EFFECT_def ACTION_LOCAL_READ_def ACTION_LOCAL_WRITE_def)

lemma zone_of_zone_text [simp]: "zone_of_text (zone_text z) = Some z"
  by (cases z) (simp_all add: zone_of_text_def)

lemma validated_shape:
  assumes "validate_owner_action_policy_actions actions = Inr zones"
  obtains a b c where
    "zones = [(ACTION_EXTERNAL_EFFECT, a), (ACTION_LOCAL_READ, b), (ACTION_LOCAL_WRITE, c)]"
  using assms
  by (auto simp: validate_owner_action_policy_actions_def Let_def OWNER_ACTION_IDS_def
      split: if_splits option.splits)

lemma validate_zone_values:
  "validate_owner_action_policy_actions (zone_values
      [(ACTION_EXTERNAL_EFFECT, a), (ACTION_LOCAL_READ, b), (ACTION_LOCAL_WRITE, c)])
    = Inr [(ACTION_EXTERNAL_EFFECT, a), (ACTION_LOCAL_READ, b), (ACTION_LOCAL_WRITE, c)]"
  by (simp add: validate_owner_action_policy_actions_def zone_values_def OWNER_ACTION_IDS_def dget_def)

lemma content_of_validated:
  assumes "validate_owner_action_policy_actions actions = Inr zones"
  obtains content where "policy_content actions = Inr content" and "actions_from_content content = Inr zones"
    and "policy_content (zone_values zones) = Inr content"
proof -
  obtain a b c where z: "zones = [(ACTION_EXTERNAL_EFFECT, a), (ACTION_LOCAL_READ, b), (ACTION_LOCAL_WRITE, c)]"
    using validated_shape [OF assms] .
  have "set [''schema'', ''actions''] = {''schema'', ''actions''}" by simp
  with assms validate_zone_values [of a b c] that show thesis
    unfolding z
    by (auto simp: policy_content_def actions_from_content_def zone_values_def dget_def)
qed

lemma content_validates:
  assumes "policy_content actions = Inr content"
  obtains zones where "validate_owner_action_policy_actions actions = Inr zones"
    and "actions_from_content content = Inr zones"
proof -
  from assms obtain zones where v: "validate_owner_action_policy_actions actions = Inr zones"
    by (auto simp: policy_content_def)
  from content_of_validated [OF v] assms that v show thesis by force
qed

lemma stored_actions_validate:
  assumes "actions_from_content content = Inr zones"
  obtains content' where "policy_content (zone_values zones) = Inr content'"
    and "actions_from_content content' = Inr zones"
proof -
  from assms obtain d where "validate_owner_action_policy_actions d = Inr zones"
    by (auto simp: actions_from_content_def split: if_splits option.splits)
  from content_of_validated [OF this] that show thesis by metis
qed

lemma policy_from_valid [simp]:
  assumes "actions_from_content (r_content r) = Inr zones"
  shows "op_valid (policy_from_revision agent tenant r)" "op_actions (policy_from_revision agent tenant r) = zones"
    "op_version (policy_from_revision agent tenant r) = r_version r"
  using assms by (simp_all add: policy_from_revision_def)

section \<open>Writing a policy\<close>

lemma linked_versions:
  "linked sha prev rs \<Longrightarrow> i < length rs \<Longrightarrow>
     r_version (rs ! i) = (case prev of None \<Rightarrow> 1 | Some p \<Rightarrow> r_version p + 1) + int i"
proof (induction sha prev rs arbitrary: i rule: linked.induct)
  case (2 sha prev r rs)
  then show ?case by (cases i) auto
qed simp

lemma filter_upt_eq: "i < n \<Longrightarrow> filter (\<lambda>j. j = i) [0..<n] = [i]"
  by (induction n) (auto simp: filter_empty_conv less_Suc_eq)

lemma linked_version_unique:
  assumes "linked sha prev rs" and "r \<in> set rs"
  shows "filter (\<lambda>s. r_version s = r_version r) rs = [r]"
proof -
  obtain i where i: "i < length rs" "rs ! i = r" using assms(2) by (auto simp: in_set_conv_nth)
  have "(r_version (rs ! j) = r_version r) = (j = i)" if "j < length rs" for j
    using linked_versions [OF assms(1) that] linked_versions [OF assms(1) i(1)] i(2) by auto
  then have "filter (\<lambda>s. r_version s = r_version r) rs = map ((!) rs) (filter (\<lambda>j. j = i) [0..<length rs])"
    by (subst map_nth [of rs, symmetric])
      (auto simp: filter_map o_def intro!: arg_cong [of _ _ "map ((!) rs)"] filter_cong)
  also have "filter (\<lambda>j. j = i) [0..<length rs] = [i]"
    using filter_upt_eq [OF i(1)] .
  finally show ?thesis using i(2) by simp
qed

lemma linked_last_newest:
  assumes "linked sha prev rs" and "s \<in> set rs"
  shows "r_version s \<le> r_version (last rs)"
proof -
  obtain i where "i < length rs" "rs ! i = s" using assms(2) by (auto simp: in_set_conv_nth)
  moreover have "last rs = rs ! (length rs - 1)" and "length rs - 1 < length rs"
    using assms(2) by (cases rs; simp add: last_conv_nth)+
  ultimately show ?thesis using linked_versions [OF assms(1)] by fastforce
qed

lemma active_after_save:
  assumes "well_kept sha rows'" and "r \<in> set rows'" and "r_active r"
  shows "active_revision rows' (r_type r) (r_entity r) (r_tenant r) = Some r"
proof -
  let ?rs = "filter (in_scope (r_type r) (r_entity r) (r_tenant r)) rows'"
  have l: "linked sha None ?rs" using assms(1) by (simp add: well_kept_def)
  have "r \<in> set (filter r_active ?rs)" using assms by (simp add: in_scope_def)
  with linked_active [OF l] have "r = last ?rs" and "?rs \<noteq> []" by (auto split: if_splits)
  with well_kept_active [OF assms(1)] show ?thesis by (simp add: Let_def)
qed

text \<open>A forced save over an active revision, when no other tenant holds the entity, adds the next version.\<close>

lemma forced_save:
  assumes "well_kept sha rows"
    and act: "active_revision rows (ch_type ch) (ch_entity ch) (ch_tenant ch) = Some cur"
    and own: "\<forall>s \<in> set rows. r_type s = ch_type ch \<longrightarrow> r_entity s = ch_entity ch \<longrightarrow> r_tenant s = ch_tenant ch"
    and "ch_force ch \<or> r_hash cur \<noteq> canonical_content_hash sha (ch_content ch)"
  obtains rows' r where "save_revision sha mint race rows ch now = Inr (rows', r)"
    and "r \<in> set rows'" and "r_active r" and "r_version r = r_version cur + 1"
    and "r_content r = ch_content ch" and "r_type r = ch_type ch" and "r_entity r = ch_entity ch"
    and "r_tenant r = ch_tenant ch" and "map retire rows' = map retire rows @ [retire r]"
proof -
  let ?base = "deactivate (ch_type ch) (ch_entity ch) (ch_tenant ch) rows"
  let ?n = "next_revision sha (mint ?base) (Some cur) ch now"
  let ?rs = "filter (in_scope (ch_type ch) (ch_entity ch) (ch_tenant ch)) rows"
  have l: "linked sha None ?rs" using assms(1) by (simp add: well_kept_def)
  have last: "cur = last ?rs"
    using act well_kept_active [OF assms(1)] by (auto simp: Let_def split: if_splits)
  have fresh: "\<not> (r_type s = ch_type ch \<and> r_entity s = ch_entity ch \<and> r_version s = r_version cur + 1)"
    if "s \<in> set ?base" for s
  proof -
    from that obtain s0 where s0: "s0 \<in> set rows" "r_type s = r_type s0" "r_entity s = r_entity s0"
        "r_version s = r_version s0"
      by (auto simp: deactivate_def split: if_splits)
    show ?thesis
    proof
      assume a: "r_type s = ch_type ch \<and> r_entity s = ch_entity ch \<and> r_version s = r_version cur + 1"
      then have "s0 \<in> set ?rs" using s0 own by (simp add: in_scope_def)
      from linked_last_newest [OF l this] a s0 last show False by simp
    qed
  qed
  have "save_revision sha mint race rows ch now = Inr (?base @ [?n], ?n)"
    using assms(4) fresh by (auto simp: save_revision_def act Let_def)
  moreover have "r_tenant ?n = ch_tenant ch" by (simp add: next_revision_def)
  moreover have "map retire (?base @ [?n]) = map retire rows @ [retire ?n]" by simp
  ultimately show thesis using that [of "?base @ [?n]" ?n] by simp
qed

lemma load_active:
  assumes "active_revision rows OWNER_ACTION_POLICY_ENTITY_TYPE agent tenant = Some r"
  shows "load_owner_action_policy sha mint race rows agent tenant create now
    = Inr (rows, policy_from_revision agent tenant r)"
  using assms by (simp add: load_owner_action_policy_def active_policy_revision_def)

text \<open>
  Claim C27. Rolling back works and restores: in a well-kept store whose revisions of the agent
  belong to its tenant, rolling back to any stored version with a valid content, at the expected
  active version, succeeds; the new active policy, which every later load returns, has exactly
  the zones of that version under the next version number, and no stored revision is lost.
\<close>

theorem rollback_restores_the_policy:
  assumes kept: "well_kept sha rows"
    and own: "\<forall>s \<in> set rows. r_type s = OWNER_ACTION_POLICY_ENTITY_TYPE \<longrightarrow> r_entity s = agent \<longrightarrow> r_tenant s = tenant"
    and act: "active_policy_revision rows agent tenant = Some cur"
    and target: "target \<in> set rows" "in_scope OWNER_ACTION_POLICY_ENTITY_TYPE agent tenant target"
    and valid: "actions_from_content (r_content target) = Inr zones"
  shows "\<exists>rows' p. rollback_owner_action_policy sha mint meanwhile race rows agent tenant
        (r_version target) user (Some (r_version cur)) reason now = Inr (rows', p)
      \<and> op_valid p \<and> op_actions p = zones \<and> op_version p = r_version cur + 1
      \<and> load_owner_action_policy sha mint' race' rows' agent tenant create later = Inr (rows', p)
      \<and> prefix (map retire rows) (map retire rows')"
proof -
  let ?rs = "filter (in_scope OWNER_ACTION_POLICY_ENTITY_TYPE agent tenant) rows"
  have l: "linked sha None ?rs" using kept by (simp add: well_kept_def)
  have "target \<in> set ?rs" using target by simp
  from linked_version_unique [OF l this]
  have found: "policy_of_version rows agent tenant (r_version target) = Inr target"
    by (simp add: policy_of_version_def conj_commute)
  obtain content where content: "policy_content (zone_values zones) = Inr content"
      "actions_from_content content = Inr zones"
    using stored_actions_validate [OF valid] .
  let ?ch = "policy_change agent tenant content ''rollback'' (Some user) reason (Some (r_id target)) True"
  have act': "active_revision rows (ch_type ?ch) (ch_entity ?ch) (ch_tenant ?ch) = Some cur"
    using act by (simp add: policy_change_def active_policy_revision_def)
  obtain rows' r where r: "save_revision sha mint race rows ?ch now = Inr (rows', r)"
      "r \<in> set rows'" "r_active r" "r_version r = r_version cur + 1" "r_content r = content"
      "r_type r = OWNER_ACTION_POLICY_ENTITY_TYPE" "r_entity r = agent" "r_tenant r = tenant"
      "map retire rows' = map retire rows @ [retire r]"
    by (rule forced_save [OF kept act', of mint race now]) (use own in \<open>auto simp: policy_change_def\<close>)
  have "well_kept sha rows'"
  proof -
    have "save_revision sha mint (\<lambda>_. rows) rows ?ch now = Inr (rows', r)"
      using r(1) act' by (simp add: save_revision_def policy_change_def)
    from save_keeps [OF kept _ this] kept show ?thesis by simp
  qed
  from active_after_save [OF this r(2,3)] r
  have "load_owner_action_policy sha mint' race' rows' agent tenant create later
      = Inr (rows', policy_from_revision agent tenant r)"
    by (intro load_active) simp
  moreover have "rollback_owner_action_policy sha mint meanwhile race rows agent tenant
        (r_version target) user (Some (r_version cur)) reason now
      = Inr (rows', policy_from_revision agent tenant r)"
    using act found valid content r(1)
    by (simp add: rollback_owner_action_policy_def check_expected_def db_error_def)
  moreover have "actions_from_content (r_content r) = Inr zones" using content r by simp
  ultimately show ?thesis using r(4,9) by (auto intro!: prefixI)
qed

text \<open>
  The expected version of a write is not checked against the first policy: two users
  who both expect that no policy is stored (version 0) both succeed when one commits between the
  other's check and its write. The second policy becomes version 2 without a conflict.
\<close>

theorem first_write_ignores_a_concurrent_one:
  "\<exists>rows1 p1 rows2 p2.
     save_owner_action_policy id mint id id [] agent tenant default_actions user1 (Some 0) message now
       = Inr (rows1, p1) \<and> op_version p1 = 1
     \<and> save_owner_action_policy id mint (\<lambda>_. rows1) id [] agent tenant (zone_values closed_actions) user2
         (Some 0) message now = Inr (rows2, p2) \<and> op_version p2 = 2
     \<and> op_actions p2 = closed_actions"
proof -
  let ?T = OWNER_ACTION_POLICY_ENTITY_TYPE
  obtain c1 where c1: "policy_content default_actions = Inr c1"
    and z1: "actions_from_content c1 = Inr [(ACTION_EXTERNAL_EFFECT, ConfirmFirst),
        (ACTION_LOCAL_READ, FullAuthority), (ACTION_LOCAL_WRITE, FullAuthority)]"
    using content_of_validated [OF validate_zone_values [of ConfirmFirst FullAuthority FullAuthority]]
    by (auto simp: default_actions_def zone_values_def)
  obtain c2 where c2: "policy_content (zone_values closed_actions) = Inr c2"
    and z2: "actions_from_content c2 = Inr closed_actions"
    using content_of_validated [OF validate_zone_values [of NeverDo FullAuthority NeverDo]]
    by (auto simp: closed_actions_def)
  have differ: "canonical_content_hash id c1 \<noteq> canonical_content_hash id c2"
  proof -
    have "(case policy_content default_actions of Inl _ \<Rightarrow> True | Inr c \<Rightarrow>
        (case policy_content (zone_values closed_actions) of Inl _ \<Rightarrow> True | Inr d \<Rightarrow>
          canonical_json (PDict c) \<noteq> canonical_json (PDict d)))" by code_simp
    with c1 c2 show ?thesis by (simp add: canonical_content_hash_def)
  qed
  let ?ch1 = "policy_change agent tenant c1 ''user'' (Some user1) message None False"
  let ?ch2 = "policy_change agent tenant c2 ''user'' (Some user2) message None False"
  let ?r1 = "next_revision id (mint []) None ?ch1 now"
  have s1: "save_revision id mint id [] ?ch1 now = Inr ([?r1], ?r1)"
    by (simp add: save_revision_def active_revision_def Let_def insert_revision_def)
  have w1: "well_kept id [?r1]"
    using save_keeps [OF well_kept_Nil _ s1] by simp
  have a1: "active_revision [?r1] (ch_type ?ch2) (ch_entity ?ch2) (ch_tenant ?ch2) = Some ?r1"
    using active_after_save [OF w1, of ?r1] by (simp add: policy_change_def next_revision_def)
  obtain rows2 r2 where r2: "save_revision id mint id [?r1] ?ch2 now = Inr (rows2, r2)"
      "r_version r2 = r_version ?r1 + 1" "r_content r2 = c2"
    by (rule forced_save [OF w1 a1, of mint id now])
      (use differ in \<open>auto simp: policy_change_def next_revision_def\<close>)
  have "save_owner_action_policy id mint id id [] agent tenant default_actions user1 (Some 0) message now
      = Inr ([?r1], policy_from_revision agent tenant ?r1)"
    using c1 s1 by (simp add: save_owner_action_policy_def active_policy_revision_def active_revision_def
        check_expected_def db_error_def Let_def)
  moreover have "save_owner_action_policy id mint (\<lambda>_. [?r1]) id [] agent tenant (zone_values closed_actions)
      user2 (Some 0) message now = Inr (rows2, policy_from_revision agent tenant r2)"
    using c2 r2 by (simp add: save_owner_action_policy_def active_policy_revision_def active_revision_def
        check_expected_def db_error_def Let_def)
  moreover have "op_version (policy_from_revision agent tenant ?r1) = 1"
    using z1 by (simp add: policy_change_def policy_from_revision_def)
  moreover have "op_version (policy_from_revision agent tenant r2) = 2"
      "op_actions (policy_from_revision agent tenant r2) = closed_actions"
    using z2 r2 by (simp_all add: policy_from_revision_def)
  ultimately show ?thesis by blast
qed

text \<open>A store with one closed policy, which is rolled back to itself.\<close>

definition sample_change :: revision_change where
  "sample_change = policy_change 7 8
     [(''schema'', PStr OWNER_ACTION_POLICY_SCHEMA), (''actions'', PDict (zone_values closed_actions))]
     ''user'' (Some 9) [] None False"

definition sample_policy_row :: revision where
  "sample_policy_row = next_revision id 1 None sample_change 0"

theorem rollback_restores_the_policy_witness:
  "\<exists>rows' p. rollback_owner_action_policy id (\<lambda>_. 2) id id [sample_policy_row] 7 8 1 9 (Some 1) [] 0
     = Inr (rows', p) \<and> op_actions p = closed_actions \<and> op_version p = 2"
proof -
  have s: "save_revision id (\<lambda>_. 1) id [] sample_change 0 = Inr ([sample_policy_row], sample_policy_row)"
    by (simp add: save_revision_def active_revision_def Let_def insert_revision_def sample_policy_row_def)
  have kept: "well_kept id [sample_policy_row]" using save_keeps [OF well_kept_Nil _ s] by simp
  have row: "r_type sample_policy_row = OWNER_ACTION_POLICY_ENTITY_TYPE" "r_entity sample_policy_row = 7"
      "r_tenant sample_policy_row = 8" "r_version sample_policy_row = 1" "r_active sample_policy_row"
    by (simp_all add: sample_policy_row_def sample_change_def policy_change_def next_revision_def)
  have own: "\<forall>s \<in> set [sample_policy_row]. r_type s = OWNER_ACTION_POLICY_ENTITY_TYPE \<longrightarrow> r_entity s = 7 \<longrightarrow> r_tenant s = 8"
    using row by simp
  have act: "active_policy_revision [sample_policy_row] 7 8 = Some sample_policy_row"
    using active_after_save [OF kept, of sample_policy_row] row by (simp add: active_policy_revision_def)
  have inside: "in_scope OWNER_ACTION_POLICY_ENTITY_TYPE 7 8 sample_policy_row"
    using row by (simp add: in_scope_def)
  have valid: "actions_from_content (r_content sample_policy_row) = Inr closed_actions"
    using validate_zone_values [of NeverDo FullAuthority NeverDo]
    by (simp add: sample_policy_row_def sample_change_def policy_change_def actions_from_content_def
        dget_def closed_actions_def)
  have "sample_policy_row \<in> set [sample_policy_row]" by simp
  from rollback_restores_the_policy [OF kept own act this inside valid, of "\<lambda>_. 2" id id 9 "[]" 0]
  show ?thesis using row(4) by force
qed

end
