(* ===== verification/Tool_Boundary.thy ===== *)
theory Tool_Boundary
  imports Owner_Policy
begin

text \<open>
  The boundary before a tool runs, in \<open>backend/app/tools/service.py\<close>: from the metadata of the
  tool (\<open>backend/app/tools/registry.py\<close>), the runtime context and the owner's policy a preflight
  request is built and evaluated; an immutable approval may satisfy an open question. The result
  is the execution of the tool or a block with a machine outcome, and what is logged.
\<close>

section \<open>Tools and contexts\<close>

record tool_facts =
  tf_external :: bool
  tf_delegated :: bool
  tf_read_only :: bool

text \<open>
  The context: the secrets of the boundary that occur in the payload, and the identity kind of
  the execution, the approval id and the decision id of the trace store where there are any.
\<close>

record tool_context =
  tc_agent :: uuid
  tc_user :: "uuid option"
  tc_tenant :: "uuid option"
  tc_policy :: "owner_policy option"
  tc_secrets :: "string list"
  tc_conflict :: bool
  tc_identity :: "string option"
  tc_approval :: "string option"
  tc_decision :: "string option"

datatype tool_outcome = RequireApproval | AllowPrepareOnly | Deny | Unavailable

record boundary_block =
  bb_text :: string
  bb_outcome :: tool_outcome
  bb_reason :: string
  bb_status :: string
  bb_retryable :: bool

record boundary_result =
  br_block :: "boundary_block option"
  br_trace :: "(string \<times> pyval) list"
  br_entry :: "(string \<times> pyval) list"
  br_logged :: "(preflight_verdict \<times> bool) list"

section \<open>The preflight request of a tool call\<close>

definition build_tool_preflight_input :: "tool_facts \<Rightarrow> tool_context \<Rightarrow> preflight_request" where
  "build_tool_preflight_input tool ctx =
     (let external = tf_external tool;
          reads = (\<not> external \<and> tf_read_only tool);
          action_id = (if external then ACTION_EXTERNAL_EFFECT
            else if reads then ACTION_LOCAL_READ else ACTION_LOCAL_WRITE);
          level = (\<lambda>l. if external then l else LowRisk) in
      \<lparr>pf_action = action_id, pf_reversibility = level MediumRisk, pf_representativeness = level HighRisk,
       pf_judgment = level HighRisk, pf_visibility = level HighRisk, pf_specialization = level MediumRisk,
       pf_zone = (case tc_policy ctx of
           Some p \<Rightarrow> zone_for p action_id
         | None \<Rightarrow> if external then ConfirmFirst else FullAuthority),
       pf_effectful = (\<not> reads),
       pf_sensitivity = (if tc_secrets ctx = [] then PL1_public else PL4_credential),
       pf_runtime_allowed = True, pf_company_conflict = tc_conflict ctx,
       pf_user_authorized = (tf_delegated tool
         \<and> tc_identity ctx \<in> {Some ''delegated_user'', Some ''external_principal_bound''}),
       pf_charter_valid = (case tc_policy ctx of Some p \<Rightarrow> op_valid p | None \<Rightarrow> True),
       pf_charter_error = Option.bind (tc_policy ctx) op_error,
       pf_evidence = [], pf_secrets = tc_secrets ctx\<rparr>)"

section \<open>What is shown of a block\<close>

text \<open>\<open>json.dumps(v, ensure_ascii=False)\<close>: the keys in the order of the dict.\<close>

fun json_plain :: "pyval \<Rightarrow> string" where
  "json_plain PNone = ''null''"
| "json_plain (PBool b) = (if b then ''true'' else ''false'')"
| "json_plain (PInt i) = str_of_int i"
| "json_plain (PFloat f) = json_float f"
| "json_plain (PStr s) = json_string s"
| "json_plain (PList vs) = ''['' @ py_join '', '' (map json_plain vs) @ '']''"
| "json_plain (PDict d) =
     ''{'' @ py_join '', '' (map (\<lambda>kv. json_string (fst kv) @ '': '' @ json_plain (snd kv)) d) @ ''}''"

definition render_preflight_block ::
  "string \<Rightarrow> preflight_result \<Rightarrow> string \<Rightarrow> (string \<times> pyval) list \<Rightarrow> string" where
  "render_preflight_block tool_name r decision_ref entry =
     (let reasons = (if pr_reasons r = [] then ''unspecified'' else py_join '','' (pr_reasons r));
          suffix = (if opt_text (pr_escalation r) = [] then []
              else '' escalation_target='' @ opt_text (pr_escalation r))
            @ (if decision_ref = [] then [] else '' decision='' @ decision_ref)
            @ (if pr_evidence_refs r = [] then [] else '' evidence='' @ py_join '','' (pr_evidence_refs r)) in
      ''[Preflight:'' @ verdict_text (pr_decision r) @ ''] '' @ tool_name @ '' was not executed. reasons=''
        @ reasons @ suffix
        @ (if entry = [] then []
           else [CHR 0x0A] @ ''<authorization_decision>'' @ json_plain (PDict entry)
             @ ''</authorization_decision>''))"

definition preflight_outcome :: "preflight_verdict \<Rightarrow> tool_outcome" where
  "preflight_outcome d =
     (case d of
        Ask \<Rightarrow> RequireApproval
      | Escalate \<Rightarrow> RequireApproval
      | PrepareOnly \<Rightarrow> AllowPrepareOnly
      | Refuse \<Rightarrow> Deny
      | Do \<Rightarrow> Unavailable)"

section \<open>The boundary\<close>

definition preflight_tool_execution ::
  "bool \<Rightarrow> string \<Rightarrow> tool_facts \<Rightarrow> tool_context \<Rightarrow> boundary_result" where
  "preflight_tool_execution enabled tool_name tool ctx =
     (if \<not> enabled then \<lparr>br_block = None, br_trace = [], br_entry = [], br_logged = []\<rparr>
      else
        let rq = build_tool_preflight_input tool ctx;
            r = evaluate_action rq;
            reasons = (if pr_reasons r = [] then ''unspecified'' else py_join '','' (pr_reasons r));
            entry = as_authorization_decision_entry r rq (''tool:'' @ tool_name)
              (map_option uuid_str (tc_user ctx)) (map_option uuid_str (tc_tenant ctx))
              (Some (tool_name @ '' was not executed. reasons='' @ reasons));
            trace = as_decision_trace_preflight r;
            trace = (case tc_policy ctx of None \<Rightarrow> trace
              | Some p \<Rightarrow> AList.update ''owner_action_policy'' (PDict (trace_payload p (pf_action rq))) trace) in
        if tc_approval ctx \<noteq> None \<and> pr_decision r \<in> {Ask, Escalate}
        then
          let approval = PStr (opt_text (tc_approval ctx));
              trace = AList.update ''effective_decision'' (PStr (verdict_text Do))
                (AList.update ''approval_id'' approval (AList.update ''approval_satisfied'' (PBool True) trace));
              entry = AList.update ''approval_id'' approval
                (AList.update ''reason'' (PStr ''immutable_approval_satisfied_preflight'')
                  (AList.update ''result'' (PStr ''allow'') entry)) in
          \<lparr>br_block = None, br_trace = trace, br_entry = entry, br_logged = [(pr_decision r, True)]\<rparr>
        else if pr_decision r = Do
        then \<lparr>br_block = None, br_trace = trace, br_entry = entry,
               br_logged = (if pr_audit r then [(Do, False)] else [])\<rparr>
        else
          let decision_ref = (case tc_decision ctx of None \<Rightarrow> [] | Some d \<Rightarrow> ''decision/'' @ d) in
          \<lparr>br_block = Some
             \<lparr>bb_text = render_preflight_block tool_name r decision_ref entry,
              bb_outcome = preflight_outcome (pr_decision r),
              bb_reason = ''preflight_'' @ verdict_text (pr_decision r),
              bb_status = verdict_text (pr_decision r),
              bb_retryable = (pr_decision r \<in> {Ask, Escalate})\<rparr>,
           br_trace = trace, br_entry = entry, br_logged = [(pr_decision r, False)]\<rparr>)"

section \<open>What crosses the boundary\<close>

lemma tool_request_simps [simp]:
  "pf_secrets (build_tool_preflight_input tool ctx) = tc_secrets ctx"
  "pf_company_conflict (build_tool_preflight_input tool ctx) = tc_conflict ctx"
  "pf_runtime_allowed (build_tool_preflight_input tool ctx)"
  "pf_evidence (build_tool_preflight_input tool ctx) = []"
  "pf_sensitivity (build_tool_preflight_input tool ctx) = PL4_credential \<longleftrightarrow> tc_secrets ctx \<noteq> []"
  "pf_effectful (build_tool_preflight_input tool ctx) \<longleftrightarrow> tf_external tool \<or> \<not> tf_read_only tool"
  by (simp_all add: build_tool_preflight_input_def Let_def)

lemma boundary_runs:
  "br_block (preflight_tool_execution True name tool ctx) = None \<longleftrightarrow>
     (let d = pr_decision (evaluate_action (build_tool_preflight_input tool ctx)) in
      d = Do \<or> tc_approval ctx \<noteq> None \<and> d \<in> {Ask, Escalate})"
  by (simp add: preflight_tool_execution_def Let_def)

lemma tool_decision:
  "pr_decision (evaluate_action (build_tool_preflight_input tool ctx)) =
     (let rq = build_tool_preflight_input tool ctx in
      if tc_secrets ctx \<noteq> [] \<or> pf_effectful rq \<and> \<not> pf_charter_valid rq \<or> pf_zone rq = NeverDo then Refuse
      else if tc_conflict ctx then Escalate
      else if pf_zone rq = ConfirmFirst \<and> \<not> pf_user_authorized rq then Ask else Do)"
proof -
  let ?rq = "build_tool_preflight_input tool ctx"
  have "pr_decision (evaluate_action ?rq) =
     (if forbidden ?rq then Refuse else if pf_company_conflict ?rq then Escalate
      else if needs_answer ?rq then Ask else Do)"
    by (rule preflight_decision)
  then show ?thesis
    by (auto simp: forbidden_def needs_answer_def truth_search_unavailable_def Let_def)
qed

text \<open>
  Claim C17. The boundary lets a tool run exactly when no unauthorized secret is in its payload, the
  owner's policy is valid unless the tool only reads, the zone of its action is not never-do, and
  either there is an approval, or there is no company conflict and the zone gives full authority
  or the delegating user authorized tools of this kind. An external effect without a policy is
  in the confirm-first zone, any other tool has full authority.
\<close>

theorem tool_runs_only_with_authority:
  "br_block (preflight_tool_execution True name tool ctx) = None \<longleftrightarrow>
     (let action = (if tf_external tool then ACTION_EXTERNAL_EFFECT
            else if tf_read_only tool then ACTION_LOCAL_READ else ACTION_LOCAL_WRITE);
          zone = (case tc_policy ctx of Some p \<Rightarrow> zone_for p action
            | None \<Rightarrow> if tf_external tool then ConfirmFirst else FullAuthority);
          valid = (case tc_policy ctx of Some p \<Rightarrow> op_valid p | None \<Rightarrow> True);
          only_reads = (tf_read_only tool \<and> \<not> tf_external tool);
          approved = (tc_approval ctx \<noteq> None);
          undisputed = (\<not> tc_conflict ctx);
          user = (tf_delegated tool \<and> tc_identity ctx \<in> {Some ''delegated_user'', Some ''external_principal_bound''}) in
      tc_secrets ctx = [] \<and> (valid \<or> only_reads) \<and> zone \<noteq> NeverDo
      \<and> (approved \<or> undisputed \<and> (zone = FullAuthority \<or> user)))"
proof -
  let ?rq = "build_tool_preflight_input tool ctx"
  let ?action = "if tf_external tool then ACTION_EXTERNAL_EFFECT
      else if tf_read_only tool then ACTION_LOCAL_READ else ACTION_LOCAL_WRITE"
  define zone where "zone = (case tc_policy ctx of Some p \<Rightarrow> zone_for p ?action
      | None \<Rightarrow> if tf_external tool then ConfirmFirst else FullAuthority)"
  define valid where "valid = (case tc_policy ctx of Some p \<Rightarrow> op_valid p | None \<Rightarrow> True)"
  define user where "user \<longleftrightarrow> tf_delegated tool
      \<and> tc_identity ctx \<in> {Some ''delegated_user'', Some ''external_principal_bound''}"
  have rq: "pf_zone ?rq = zone" "pf_charter_valid ?rq = valid" "pf_user_authorized ?rq = user"
    by (auto simp: build_tool_preflight_input_def Let_def zone_def valid_def user_def split: option.splits)
  have "br_block (preflight_tool_execution True name tool ctx) = None \<longleftrightarrow>
      tc_secrets ctx = [] \<and> (valid \<or> tf_read_only tool \<and> \<not> tf_external tool) \<and> zone \<noteq> NeverDo
      \<and> (tc_approval ctx \<noteq> None \<or> \<not> tc_conflict ctx \<and> (zone = FullAuthority \<or> user))"
    unfolding boundary_runs tool_decision by (cases zone) (auto simp: Let_def rq)
  then show ?thesis by (simp only: Let_def zone_def valid_def user_def)
qed

text \<open>
  A stored policy that fails its validation stops every effect for good: no tool that
  is external or not read-only runs, whatever its name, metadata, identity and approval, and the
  block is a denial that must not be retried.
\<close>

theorem corrupt_policy_stops_effects:
  assumes "actions_from_content (r_content r) = Inl e"
    and "tc_policy ctx = Some (policy_from_revision agent tenant r)"
    and "tf_external tool \<or> \<not> tf_read_only tool"
  shows "\<exists>b. br_block (preflight_tool_execution True name tool ctx) = Some b
     \<and> bb_outcome b = Deny \<and> \<not> bb_retryable b"
proof -
  have "\<not> op_valid (policy_from_revision agent tenant r)"
    using assms(1) by (simp add: policy_from_revision_def invalid_owner_action_policy_def)
  then have "pr_decision (evaluate_action (build_tool_preflight_input tool ctx)) = Refuse"
    using assms(2,3) unfolding tool_decision by (auto simp: build_tool_preflight_input_def Let_def)
  then show ?thesis by (simp add: preflight_tool_execution_def Let_def preflight_outcome_def)
qed

text \<open>A revision of the wrong schema, and a call that carries an approval.\<close>

definition corrupt_row :: revision where
  "corrupt_row = next_revision id 1 None (policy_change 7 8 [(''schema'', PStr ''v0'')] ''user'' None [] None False) 0"

definition approved_context :: tool_context where
  "approved_context = \<lparr>tc_agent = 7, tc_user = Some 9, tc_tenant = Some 8,
     tc_policy = Some (policy_from_revision 7 8 corrupt_row), tc_secrets = [], tc_conflict = False,
     tc_identity = Some ''delegated_user'', tc_approval = Some ''a1'', tc_decision = None\<rparr>"

definition mail_tool :: tool_facts where
  "mail_tool = \<lparr>tf_external = True, tf_delegated = True, tf_read_only = False\<rparr>"

theorem corrupt_policy_stops_effects_witness:
  "\<exists>b. br_block (preflight_tool_execution True ''send_email'' mail_tool approved_context) = Some b
     \<and> bb_outcome b = Deny \<and> \<not> bb_retryable b"
proof (rule corrupt_policy_stops_effects [of corrupt_row _ _ 7 8])
  show "actions_from_content (r_content corrupt_row)
      = Inl (PolicyInvalid ''owner action policy content has unexpected fields'')"
    by (auto simp: corrupt_row_def policy_change_def actions_from_content_def)
qed (simp_all add: approved_context_def mail_tool_def)

end
