(* ===== verification/Access_Policy.thy ===== *)
theory Access_Policy
  imports Plan_Mode Py_Compare
begin

text \<open>
  Who may reach an agent: the permission rows of \<open>backend/app/core/policy.py\<close> with their allow and
  deny effects and their conditions, and the access decision of \<open>backend/app/core/permissions.py\<close>:
  scoped administrators, owners, sharing scopes and resource grants, the operator's read-only
  inspection, and the levels that the list surfaces compute in bulk.
\<close>

section \<open>Permission rows\<close>

datatype http_error = Http (http_status: int) (http_detail: pyval)

abbreviation forbidden_error :: "string \<Rightarrow> http_error" where
  "forbidden_error msg \<equiv> Http 403 (PStr msg)"

record permission_row =
  pm_tenant :: uuid
  pm_principal_type :: string
  pm_principal :: "uuid option"
  pm_resource_type :: string
  pm_resource :: "uuid option"
  pm_actions :: "string list"
  pm_effect :: string
  pm_conditions :: pyval
  pm_expires :: "int option"
  pm_revoked :: "int option"

type_synonym subject = "string \<times> uuid"

text \<open>
  What the evaluation reads besides the rows: the clock, and whether an address text lies in one
  of the networks, as Python's \<open>ipaddress\<close> module says when all the texts parse.
\<close>

record policy_world =
  pw_now :: int
  pw_in_networks :: "string \<Rightarrow> string list \<Rightarrow> bool"

text \<open>\<open>datetime.strptime(s, "%H:%M")\<close>: one or two digits each, as minutes of the day.\<close>

definition two_digits :: "nat \<Rightarrow> string \<Rightarrow> nat option" where
  "two_digits limit s =
     (if s \<noteq> [] \<and> length s \<le> 2 \<and> list_all ascii_digit s \<and> nat_of_digits s \<le> limit
      then Some (nat_of_digits s) else None)"

definition clock_minutes :: "string \<Rightarrow> nat option" where
  "clock_minutes s =
     (if CHR '':'' \<notin> set s then None
      else case two_digits 23 (fst (split_at_char (CHR '':'') s)) of
        None \<Rightarrow> None
      | Some h \<Rightarrow> map_option (\<lambda>m. 60 * h + m) (two_digits 59 (snd (split_at_char (CHR '':'') s))))"

definition minute_of_day :: "int \<Rightarrow> nat" where
  "minute_of_day t = nat (t div 60000000 mod 1440)"

text \<open>\<open>d.get(k, default)\<close>, as text.\<close>

definition text_at :: "(string \<times> pyval) list \<Rightarrow> string \<Rightarrow> string \<Rightarrow> string" where
  "text_at d k dflt = (if has_key d k then py_str (dget d k) else dflt)"

definition in_time_range :: "int \<Rightarrow> (string \<times> pyval) list \<Rightarrow> bool" where
  "in_time_range now d =
     (case (clock_minutes (text_at d ''start'' ''00:00''), clock_minutes (text_at d ''end'' ''23:59'')) of
        (Some s, Some e) \<Rightarrow>
          (let c = minute_of_day now in
           if s \<le> e then s \<le> c \<and> c \<le> e else s \<le> c \<or> c \<le> e)
      | _ \<Rightarrow> False)"

definition condition_holds ::
  "policy_world \<Rightarrow> (string \<times> pyval) list \<Rightarrow> string \<times> pyval \<Rightarrow> bool" where
  "condition_holds w context kv =
     (let (k, v) = kv in
      if k = ''environment'' then py_eq (dget context ''environment'') v
      else if k = ''time_range''
      then (case as_dict v of None \<Rightarrow> False | Some d \<Rightarrow> in_time_range (pw_now w) d)
      else if k = ''ip_ranges''
      then (case as_list v of None \<Rightarrow> False
        | Some vs \<Rightarrow> pw_in_networks w (py_str (py_or (dget context ''ip_address'') (PStr []))) (map py_str vs))
      else if k \<in> {''approval_id'', ''approval_owner_scope''}
      then is_str v \<and> py_eq (dget context k) v
      else False)"

definition evaluate_conditions ::
  "policy_world \<Rightarrow> (string \<times> pyval) list \<Rightarrow> (string \<times> pyval) list \<Rightarrow> bool" where
  "evaluate_conditions w conditions context = list_all (condition_holds w context) conditions"

definition permission_effect_applies ::
  "policy_world \<Rightarrow> permission_row \<Rightarrow> string \<Rightarrow> (string \<times> pyval) list \<Rightarrow> bool" where
  "permission_effect_applies w p action context =
     (if action \<notin> set (pm_actions p) then False
      else if pm_revoked p \<noteq> None then False
      else if (case pm_expires p of None \<Rightarrow> False | Some e \<Rightarrow> e \<le> pw_now w) then False
      else case (if pm_conditions p = PNone then PDict [] else pm_conditions p) of
        PDict d \<Rightarrow> d = [] \<or> evaluate_conditions w d context
      | _ \<Rightarrow> False)"

definition resource_effect :: "permission_row \<Rightarrow> string" where
  "resource_effect p = (if pm_effect p = [] then ''allow'' else pm_effect p)"

definition permission_allows ::
  "policy_world \<Rightarrow> permission_row \<Rightarrow> string \<Rightarrow> (string \<times> pyval) list \<Rightarrow> bool" where
  "permission_allows w p action context =
     (resource_effect p = ''allow'' \<and> permission_effect_applies w p action context)"

text \<open>The verdict over applicable rows: a deny wins over an allow.\<close>

definition effects_verdict :: "permission_row list \<Rightarrow> string" where
  "effects_verdict applicable =
     (if list_ex (\<lambda>p. resource_effect p = ''deny'') applicable then ''deny''
      else if list_ex (\<lambda>p. resource_effect p = ''allow'') applicable then ''allow'' else ''absent'')"

definition held_by :: "subject list \<Rightarrow> permission_row \<Rightarrow> bool" where
  "held_by subjects p = (case pm_principal p of None \<Rightarrow> False | Some i \<Rightarrow> (pm_principal_type p, i) \<in> set subjects)"

definition classify_permission ::
  "policy_world \<Rightarrow> permission_row list \<Rightarrow> subject list \<Rightarrow> string \<Rightarrow> uuid \<Rightarrow> string \<Rightarrow>
   (string \<times> pyval) list \<Rightarrow> string" where
  "classify_permission w rows subjects resource_type resource_id action context =
     (let tenant = dget context ''tenant_id'';
          found = filter (\<lambda>p. held_by subjects p \<and> pm_resource_type p = resource_type
            \<and> pm_resource p = Some resource_id) rows in
      if \<not> truthy tenant
      then effects_verdict (filter (\<lambda>p. permission_effect_applies w p action context) found)
      else case uuid_of_text (py_str tenant) of
        None \<Rightarrow> ''absent''
      | Some t \<Rightarrow> effects_verdict (filter (\<lambda>p. permission_effect_applies w p action context)
          (filter (\<lambda>p. pm_tenant p = t) found)))"

definition check_permission ::
  "policy_world \<Rightarrow> permission_row list \<Rightarrow> subject list \<Rightarrow> string \<Rightarrow> uuid \<Rightarrow> string \<Rightarrow>
   (string \<times> pyval) list \<Rightarrow> bool" where
  "check_permission w rows subjects resource_type resource_id action context =
     (classify_permission w rows subjects resource_type resource_id action context = ''allow'')"

definition enforce_permission ::
  "policy_world \<Rightarrow> permission_row list \<Rightarrow> subject \<Rightarrow> string \<Rightarrow> uuid \<Rightarrow> string \<Rightarrow>
   (string \<times> pyval) list \<Rightarrow> (http_error, unit) res" where
  "enforce_permission w rows subject resource_type resource_id action context =
     require (check_permission w rows [subject] resource_type resource_id action context)
       (forbidden_error (''Permission denied: '' @ action @ '' on '' @ resource_type @ ''/'' @ uuid_str resource_id))"

section \<open>Users and agents\<close>

record user_row =
  us_id :: uuid
  us_role :: string
  us_tenant :: "uuid option"
  us_department :: "uuid option"
  us_active :: bool

record agent_row =
  ag_id :: uuid
  ag_tenant :: "uuid option"
  ag_owner :: "uuid option"
  ag_creator :: "uuid option"
  ag_deleted_at :: "int option"
  ag_deactivated_at :: "int option"
  ag_deactivation_reason :: "string option"
  ag_owner_inactive :: bool

record scope_row =
  sc_agent :: uuid
  sc_type :: string
  sc_id :: "uuid option"
  sc_level :: "string option"

text \<open>A membership of a user in a business team, joined with the team.\<close>

record membership_row =
  mb_team :: uuid
  mb_user :: uuid
  mb_status :: string
  mb_tenant :: uuid
  mb_team_status :: string
  mb_team_tenant :: uuid

text \<open>
  The rows a request can see, the active companies, and the company that the request is pinned to.
\<close>

record access_db =
  ad_agents :: "agent_row list"
  ad_live_tenants :: "uuid list"
  ad_pinned :: "string option"
  ad_scopes :: "scope_row list"
  ad_memberships :: "membership_row list"
  ad_permissions :: "permission_row list"

definition PENDING_REASON :: string where
  "PENDING_REASON = ''retirement_pending''"

section \<open>Scoped administrators\<close>

text \<open>The company a platform administrator acts inside: the pinned one, else their own.\<close>

definition platform_admin_selected_tenant :: "access_db \<Rightarrow> user_row \<Rightarrow> uuid option" where
  "platform_admin_selected_tenant db user =
     (if opt_text (ad_pinned db) \<noteq> [] then uuid_of_text (opt_text (ad_pinned db)) else us_tenant user)"

definition platform_admin_selection_allows_agent :: "access_db \<Rightarrow> user_row \<Rightarrow> uuid option \<Rightarrow> bool" where
  "platform_admin_selection_allows_agent db user agent_tenant =
     (platform_admin_selected_tenant db user \<noteq> None \<and> platform_admin_selected_tenant db user = agent_tenant)"

definition is_scoped_business_admin :: "access_db \<Rightarrow> user_row \<Rightarrow> uuid option \<Rightarrow> bool" where
  "is_scoped_business_admin db user resource_tenant =
     (if us_role user = ''org_admin''
      then us_tenant user \<noteq> None \<and> resource_tenant \<noteq> None \<and> us_tenant user = resource_tenant
      else if us_role user = ''platform_admin''
      then platform_admin_selected_tenant db user \<noteq> None \<and> resource_tenant \<noteq> None
        \<and> platform_admin_selected_tenant db user = resource_tenant
      else False)"

section \<open>Loading an agent\<close>

definition agent_lifecycle_block_reason :: "agent_row \<Rightarrow> string option" where
  "agent_lifecycle_block_reason a =
     (if ag_deleted_at a \<noteq> None then Some ''deleted''
      else if ag_deactivated_at a \<noteq> None then Some ''deactivated''
      else if ag_owner_inactive a then Some ''inactive_owner'' else None)"

definition history_available :: "agent_row \<Rightarrow> bool" where
  "history_available a = (ag_deleted_at a = None \<and> ag_deactivated_at a \<noteq> None
     \<and> ag_deactivation_reason a = Some PENDING_REASON)"

definition agent_not_found :: http_error where
  "agent_not_found = Http 404 (PStr ''Agent not found'')"

definition find_agent :: "access_db \<Rightarrow> uuid \<Rightarrow> agent_row option" where
  "find_agent db agent_id =
     find (\<lambda>a. ag_id a = agent_id \<and> (case ag_tenant a of None \<Rightarrow> False | Some t \<Rightarrow> t \<in> set (ad_live_tenants db)))
       (ad_agents db)"

definition load_agent_for_user ::
  "access_db \<Rightarrow> user_row \<Rightarrow> uuid \<Rightarrow> bool \<Rightarrow> (http_error, agent_row) res" where
  "load_agent_for_user db user agent_id retirement_history =
     (case find_agent db agent_id of
        None \<Rightarrow> Inl agent_not_found
      | Some a \<Rightarrow>
          if us_role user = ''platform_admin'' \<and> \<not> platform_admin_selection_allows_agent db user (ag_tenant a)
          then Inl agent_not_found
          else
            let reason = agent_lifecycle_block_reason a in
            if reason = Some ''deleted'' then Inl agent_not_found
            else if reason \<noteq> None \<and> \<not> (retirement_history \<and> history_available a)
            then Inl (Http 410 (PStr (''Agent is not active: '' @ opt_text reason)))
            else if ag_tenant a = None then Inl agent_not_found
            else if us_role user \<noteq> ''platform_admin'' \<and> (us_tenant user = None \<or> us_tenant user \<noteq> ag_tenant a)
            then Inl agent_not_found
            else Inr a)"

section \<open>Access to an agent\<close>

definition effective_agent_owner_id :: "agent_row \<Rightarrow> uuid option" where
  "effective_agent_owner_id a = (if ag_owner a \<noteq> None then ag_owner a else ag_creator a)"

definition load_effective_business_team_ids ::
  "access_db \<Rightarrow> user_row \<Rightarrow> uuid option \<Rightarrow> uuid list" where
  "load_effective_business_team_ids db user tenant =
     (if tenant = None \<or> \<not> us_active user \<or> us_tenant user = None \<or> us_tenant user \<noteq> tenant then []
      else py_unique (map mb_team (filter (\<lambda>m. mb_user m = us_id user \<and> mb_status m = ''active''
        \<and> Some (mb_tenant m) = tenant \<and> mb_team_status m = ''active'' \<and> Some (mb_team_tenant m) = tenant)
        (ad_memberships db))))"

text \<open>The level of the first sharing scope that names the user, in the order of the rows.\<close>

definition scope_level :: "user_row \<Rightarrow> scope_row \<Rightarrow> string option" where
  "scope_level user p =
     (if us_role user = ''platform_admin'' \<and> sc_type p \<noteq> ''user'' then None
      else if sc_type p = ''company'' then Some ''use''
      else if sc_type p = ''user'' \<and> sc_id p = Some (us_id user) then Some (or_default (sc_level p) ''use'')
      else if sc_type p = ''department'' \<and> us_department user \<noteq> None \<and> sc_id p = us_department user
      then Some (or_default (sc_level p) ''use'') else None)"

definition shared_level :: "access_db \<Rightarrow> user_row \<Rightarrow> uuid \<Rightarrow> string option" where
  "shared_level db user agent_id =
     first_some (map (scope_level user) (filter (\<lambda>p. sc_agent p = agent_id) (ad_scopes db)))"

definition base_subjects :: "user_row \<Rightarrow> subject list" where
  "base_subjects user = (''user'', us_id user)
     # (case us_department user of
          None \<Rightarrow> [] | Some d \<Rightarrow> if us_role user = ''platform_admin'' then [] else [(''department'', d)])"

definition use_subjects :: "access_db \<Rightarrow> user_row \<Rightarrow> uuid option \<Rightarrow> subject list" where
  "use_subjects db user tenant =
     base_subjects user @ map (Pair ''business_team'') (load_effective_business_team_ids db user tenant)"

definition tenant_context :: "uuid option \<Rightarrow> (string \<times> pyval) list" where
  "tenant_context t = (case t of None \<Rightarrow> [] | Some u \<Rightarrow> [(''tenant_id'', PStr (uuid_str u))])"

definition granted_level :: "policy_world \<Rightarrow> access_db \<Rightarrow> user_row \<Rightarrow> agent_row \<Rightarrow> string option" where
  "granted_level w db user a =
     (let context = tenant_context (ag_tenant a);
          verdict = (\<lambda>subjects action.
            classify_permission w (ad_permissions db) subjects ''agent'' (ag_id a) action context);
          all_subjects = use_subjects db user (ag_tenant a) in
      if verdict (base_subjects user) ''manage'' = ''allow'' then Some ''manage''
      else if verdict all_subjects ''execute'' = ''allow'' then Some ''use''
      else if verdict all_subjects ''read'' = ''allow''
      then Some (if verdict all_subjects ''execute'' = ''deny'' then ''read'' else ''use'')
      else None)"

definition check_agent_access ::
  "policy_world \<Rightarrow> access_db \<Rightarrow> user_row \<Rightarrow> uuid \<Rightarrow> bool \<Rightarrow> (http_error, agent_row \<times> string) res" where
  "check_agent_access w db user agent_id retirement_history =
     bind_res (load_agent_for_user db user agent_id retirement_history) (\<lambda>a.
       if is_scoped_business_admin db user (ag_tenant a) then Inr (a, ''manage'')
       else if effective_agent_owner_id a = Some (us_id user) then Inr (a, ''manage'')
       else case shared_level db user agent_id of
         Some l \<Rightarrow> Inr (a, l)
       | None \<Rightarrow>
           (case granted_level w db user a of
              Some l \<Rightarrow> Inr (a, l)
            | None \<Rightarrow> Inl (forbidden_error ''No access to this agent'')))"

definition agent_access_allows_execution :: "string \<Rightarrow> bool" where
  "agent_access_allows_execution level \<longleftrightarrow> level \<in> {''manage'', ''use''}"

definition execute_denied :: http_error where
  "execute_denied = Http 403 (PDict [(''code'', PStr ''agent_execute_denied''),
     (''message'', PStr (''You can see this employee, but execution is denied. ''
        @ ''Ask the owner or a company administrator to restore use access.''))])"

definition reject_non_executing_agent_access :: "string \<Rightarrow> (http_error, unit) res" where
  "reject_non_executing_agent_access level = require (agent_access_allows_execution level) execute_denied"

definition require_agent_execution_access ::
  "policy_world \<Rightarrow> access_db \<Rightarrow> user_row \<Rightarrow> uuid \<Rightarrow> (http_error, agent_row \<times> string) res" where
  "require_agent_execution_access w db user agent_id =
     bind_res (check_agent_access w db user agent_id False) (\<lambda>(a, level).
     bind_res (reject_non_executing_agent_access level) (\<lambda>_. Inr (a, level)))"

definition require_agent_manage_access ::
  "policy_world \<Rightarrow> access_db \<Rightarrow> user_row \<Rightarrow> uuid \<Rightarrow> (http_error, agent_row) res" where
  "require_agent_manage_access w db user agent_id =
     bind_res (check_agent_access w db user agent_id False) (\<lambda>(a, level).
       if level \<noteq> ''manage'' then Inl (forbidden_error ''Manage access to this agent is required'') else Inr a)"

section \<open>The levels of the list surfaces\<close>

definition bulk_decision ::
  "policy_world \<Rightarrow> permission_row list \<Rightarrow> string \<Rightarrow> subject list \<Rightarrow> string" where
  "bulk_decision w rows action subjects =
     effects_verdict (filter (\<lambda>p. held_by subjects p \<and> permission_effect_applies w p action []) rows)"

definition bulk_level ::
  "policy_world \<Rightarrow> permission_row list \<Rightarrow> subject list \<Rightarrow> subject list \<Rightarrow> string option" where
  "bulk_level w rows base all_subjects =
     (if bulk_decision w rows ''manage'' base = ''allow'' then Some ''manage''
      else
        let execute = bulk_decision w rows ''execute'' all_subjects in
        if execute = ''allow'' then Some ''use''
        else if bulk_decision w rows ''read'' all_subjects = ''allow''
        then Some (if execute = ''deny'' then ''read'' else ''use'')
        else None)"

definition decide_resource_agent_access ::
  "policy_world \<Rightarrow> permission_row list \<Rightarrow> uuid \<Rightarrow> uuid option \<Rightarrow> uuid list \<Rightarrow> (uuid \<times> string) list" where
  "decide_resource_agent_access w rows user_id department_id team_ids =
     (let base = (''user'', user_id) # (case department_id of None \<Rightarrow> [] | Some d \<Rightarrow> [(''department'', d)]);
          all_subjects = base @ map (Pair ''business_team'') team_ids;
          ids = py_unique (List.map_filter pm_resource rows) in
      List.map_filter (\<lambda>i. map_option (Pair i)
        (bulk_level w (filter (\<lambda>p. pm_resource p = Some i) rows) base all_subjects)) ids)"

definition resource_agent_access_levels ::
  "policy_world \<Rightarrow> access_db \<Rightarrow> user_row \<Rightarrow> uuid option \<Rightarrow> (uuid \<times> string) list" where
  "resource_agent_access_levels w db user tenant =
     (case tenant of
        None \<Rightarrow> []
      | Some t \<Rightarrow>
          (let department = (if us_role user = ''platform_admin'' then None else us_department user);
               subjects = use_subjects db user tenant in
           decide_resource_agent_access w
             (filter (\<lambda>p. pm_tenant p = t \<and> pm_resource_type p = ''agent'' \<and> pm_resource p \<noteq> None
                \<and> held_by subjects p) (ad_permissions db))
             (us_id user) department (load_effective_business_team_ids db user tenant)))"

section \<open>Operator inspection\<close>

definition AGENT_OPERATOR_INSPECT_ACTION :: string where
  "AGENT_OPERATOR_INSPECT_ACTION = ''operator.inspect''"

definition AGENT_OPERATOR_INSPECTION_SCHEMA :: string where
  "AGENT_OPERATOR_INSPECTION_SCHEMA = ''hive.agent.operator_inspection.v1''"

definition is_agent_operator_inspection_grant :: "permission_row \<Rightarrow> bool" where
  "is_agent_operator_inspection_grant p =
     (case pm_conditions p of
        PDict d \<Rightarrow> set (map fst d) = {''operator_inspection''}
          \<and> AGENT_OPERATOR_INSPECT_ACTION \<in> set (pm_actions p)
          \<and> (case as_dict (dget d ''operator_inspection'') of
               None \<Rightarrow> False | Some m \<Rightarrow> eq_str (dget m ''schema'') AGENT_OPERATOR_INSPECTION_SCHEMA)
      | _ \<Rightarrow> False)"

definition operator_permission_is_live :: "int \<Rightarrow> permission_row \<Rightarrow> bool" where
  "operator_permission_is_live now p =
     (is_agent_operator_inspection_grant p \<and> pm_revoked p = None
      \<and> (case pm_expires p of None \<Rightarrow> True | Some e \<Rightarrow> now < e))"

definition operator_effects :: "policy_world \<Rightarrow> access_db \<Rightarrow> user_row \<Rightarrow> uuid \<Rightarrow> permission_row list" where
  "operator_effects w db user agent_id =
     (case us_tenant user of
        None \<Rightarrow> []
      | Some t \<Rightarrow> filter (\<lambda>p. pm_tenant p = t \<and> held_by [(''user'', us_id user)] p
          \<and> pm_resource_type p = ''agent'' \<and> pm_resource p = Some agent_id
          \<and> operator_permission_is_live (pw_now w) p) (ad_permissions db))"

definition has_agent_operator_inspect :: "policy_world \<Rightarrow> access_db \<Rightarrow> user_row \<Rightarrow> uuid \<Rightarrow> bool" where
  "has_agent_operator_inspect w db user agent_id =
     (effects_verdict (operator_effects w db user agent_id) = ''allow'')"

definition check_agent_history_access ::
  "policy_world \<Rightarrow> access_db \<Rightarrow> user_row \<Rightarrow> uuid \<Rightarrow> (http_error, agent_row \<times> string) res" where
  "check_agent_history_access w db user agent_id =
     bind_res (check_agent_access w db user agent_id True) (\<lambda>(a, level).
       Inr (a, if history_available a then ''read'' else level))"

definition check_agent_operator_reachability ::
  "policy_world \<Rightarrow> access_db \<Rightarrow> user_row \<Rightarrow> uuid \<Rightarrow> (http_error, agent_row \<times> string) res" where
  "check_agent_operator_reachability w db user agent_id =
     (case check_agent_history_access w db user agent_id of
        Inr r \<Rightarrow> Inr r
      | Inl e \<Rightarrow>
          if http_status e \<noteq> 403 then Inl e
          else bind_res (load_agent_for_user db user agent_id True) (\<lambda>a.
            if has_agent_operator_inspect w db user agent_id then Inr (a, ''operator'')
            else Inl (forbidden_error ''No access to this agent'')))"

section \<open>Owner or administrator\<close>

text \<open>
  A locked call waits for the agent row and then reads again whether the company is live and who
  the user is now: \<open>reread\<close> is what it reads.
\<close>

definition require_agent_owner_or_admin ::
  "access_db \<Rightarrow> user_row \<Rightarrow> uuid \<Rightarrow> (bool \<times> user_row option) option \<Rightarrow> (http_error, agent_row) res" where
  "require_agent_owner_or_admin db user agent_id reread =
     (case find_agent db agent_id of
        None \<Rightarrow> Inl agent_not_found
      | Some a \<Rightarrow>
          if ag_deleted_at a \<noteq> None then Inl agent_not_found
          else if us_role user = ''platform_admin'' \<and> \<not> platform_admin_selection_allows_agent db user (ag_tenant a)
          then Inl agent_not_found
          else if ag_tenant a = None then Inl agent_not_found
          else if us_role user \<noteq> ''platform_admin'' \<and> (us_tenant user = None \<or> us_tenant user \<noteq> ag_tenant a)
          then Inl agent_not_found
          else bind_res
            (case reread of
               None \<Rightarrow> Inr user
             | Some (False, _) \<Rightarrow> Inl agent_not_found
             | Some (True, None) \<Rightarrow> Inl (Http 401 (PStr ''User not found or inactive''))
             | Some (True, Some current) \<Rightarrow> Inr (user\<lparr>us_role := us_role current,
                 us_active := us_active current, us_tenant := us_tenant current\<rparr>))
            (\<lambda>user.
              if is_scoped_business_admin db user (ag_tenant a)
                \<or> effective_agent_owner_id a = Some (us_id user)
              then Inr a
              else Inl (forbidden_error
                ''Only the current owner or a scoped company administrator may perform this action'')))"

section \<open>Facts about grants\<close>

lemma dget_tenant_context: "k \<noteq> ''tenant_id'' \<Longrightarrow> dget (tenant_context t) k = PNone"
  by (cases t) (simp_all add: tenant_context_def dget_def)

lemma condition_tenant: "condition_holds w (tenant_context t) kv = condition_holds w [] kv"
proof -
  have "dget [] k = PNone" for k by (simp add: dget_def)
  then show ?thesis
    by (cases kv) (simp add: condition_holds_def dget_tenant_context split: option.split)
qed

lemma applies_tenant:
  "permission_effect_applies w p action (tenant_context t) = permission_effect_applies w p action []"
proof -
  have "evaluate_conditions w d (tenant_context t) = evaluate_conditions w d []" for d
    by (simp add: evaluate_conditions_def condition_tenant cong: list.pred_cong)
  then show ?thesis by (simp add: permission_effect_applies_def split: pyval.splits)
qed

lemma only_key: "set (map fst d) = {k} \<Longrightarrow> \<exists>v. (k, v) \<in> set d"
  by force

lemma operator_grant_applies_nowhere:
  assumes "is_agent_operator_inspection_grant p"
  shows "\<not> permission_effect_applies w p action context"
proof -
  from assms obtain d where d: "pm_conditions p = PDict d" "set (map fst d) = {''operator_inspection''}"
    by (auto simp: is_agent_operator_inspection_grant_def split: pyval.splits)
  from only_key [OF d(2)] obtain v where v: "(''operator_inspection'', v) \<in> set d" by blast
  have "\<not> condition_holds w context (''operator_inspection'', v)" by (simp add: condition_holds_def)
  with v have "\<not> evaluate_conditions w d context" unfolding evaluate_conditions_def list_all_iff by blast
  moreover have "d \<noteq> []" using v by (cases d) simp_all
  ultimately show ?thesis using d(1) by (simp add: permission_effect_applies_def)
qed

lemma map_of_map_filter_key:
  "map_of (List.map_filter (\<lambda>i. map_option (Pair i) (f i)) ids) k = (if k \<in> set ids then f k else None)"
  by (induction ids) (auto simp: map_filter_simps split: option.splits)

lemma uuid_text_truthy [simp]: "truthy (PStr (uuid_str u))"
  by (simp add: uuid_str_def Let_def)

lemma classify_in_tenant:
  "classify_permission w rows subjects rt i action (tenant_context (Some t)) =
     effects_verdict (filter (\<lambda>p. held_by subjects p \<and> pm_resource_type p = rt \<and> pm_resource p = Some i
        \<and> pm_tenant p = t \<and> permission_effect_applies w p action []) rows)"
proof -
  have "dget (tenant_context (Some t)) ''tenant_id'' = PStr (uuid_str t)"
    by (simp add: tenant_context_def dget_def)
  then show ?thesis
    by (simp add: classify_permission_def Let_def applies_tenant conj_ac cong: conj_cong del: truthy.simps)
qed

lemma held_by_subset: "set base \<subseteq> set subjects \<Longrightarrow> held_by base p \<Longrightarrow> held_by subjects p"
  by (auto simp: held_by_def split: option.splits)

definition listed_rows :: "permission_row list \<Rightarrow> uuid \<Rightarrow> subject list \<Rightarrow> permission_row list" where
  "listed_rows rows t subjects = filter (\<lambda>p. pm_tenant p = t \<and> pm_resource_type p = ''agent''
     \<and> pm_resource p \<noteq> None \<and> held_by subjects p) rows"

lemma bulk_is_classify:
  assumes "set base \<subseteq> set subjects"
  shows "bulk_decision w (filter (\<lambda>p. pm_resource p = Some i) (listed_rows rows t subjects)) action base
     = classify_permission w rows base ''agent'' i action (tenant_context (Some t))"
proof -
  have "held_by base p \<Longrightarrow> held_by subjects p" for p by (rule held_by_subset [OF assms])
  then have "filter (\<lambda>p. held_by base p \<and> permission_effect_applies w p action [])
      (filter (\<lambda>p. pm_resource p = Some i) (listed_rows rows t subjects))
    = filter (\<lambda>p. held_by base p \<and> pm_resource_type p = ''agent'' \<and> pm_resource p = Some i
        \<and> pm_tenant p = t \<and> permission_effect_applies w p action []) rows"
    unfolding listed_rows_def filter_filter by (intro filter_cong) auto
  then show ?thesis by (simp only: bulk_decision_def classify_in_tenant)
qed

lemma bulk_level_is_granted:
  assumes "ag_tenant a = Some t"
  shows "bulk_level w (filter (\<lambda>p. pm_resource p = Some (ag_id a)) (listed_rows (ad_permissions db) t (use_subjects db user (Some t))))
      (base_subjects user) (use_subjects db user (Some t)) = granted_level w db user a"
proof -
  have "set (base_subjects user) \<subseteq> set (use_subjects db user (Some t))" by (simp add: use_subjects_def)
  then show ?thesis
    by (simp add: bulk_level_def granted_level_def Let_def assms bulk_is_classify)
qed

lemma bulk_level_Nil [simp]: "bulk_level w [] base subjects = None"
  by (simp add: bulk_level_def bulk_decision_def effects_verdict_def Let_def)

lemma listed_levels:
  "map_of (resource_agent_access_levels w db user (Some t)) i
     = bulk_level w (filter (\<lambda>p. pm_resource p = Some i)
         (listed_rows (ad_permissions db) t (use_subjects db user (Some t))))
         (base_subjects user) (use_subjects db user (Some t))"
proof -
  let ?rows = "listed_rows (ad_permissions db) t (use_subjects db user (Some t))"
  have base: "(''user'', us_id user) # (case if us_role user = ''platform_admin'' then None else us_department user of
      None \<Rightarrow> [] | Some d \<Rightarrow> [(''department'', d)]) = base_subjects user"
    by (cases "us_department user") (simp_all add: base_subjects_def)
  have none: "filter (\<lambda>p. pm_resource p = Some i) ?rows = []" if "i \<notin> set (List.map_filter pm_resource ?rows)"
    using that by (force simp: filter_empty_conv List.map_filter_def)
  show ?thesis
    unfolding resource_agent_access_levels_def option.case Let_def decide_resource_agent_access_def
      listed_rows_def [symmetric] base map_of_map_filter_key set_py_unique use_subjects_def [symmetric]
    using none by auto
qed

section \<open>What the decisions guarantee\<close>

text \<open>
  The levels the list surfaces compute in bulk from the resource grants agree with the
  exact access check: for an agent the user can load in its company, is no administrator or owner
  of and is not named for by a sharing scope, the listed level is the level of the exact check,
  and the agent is not listed when the exact check refuses.
\<close>

theorem listing_agrees_with_the_exact_check:
  assumes "load_agent_for_user db user i False = Inr a" and "ag_id a = i" and "ag_tenant a = Some t"
    and "\<not> is_scoped_business_admin db user (Some t)" and "effective_agent_owner_id a \<noteq> Some (us_id user)"
    and "shared_level db user i = None"
  shows "map_of (resource_agent_access_levels w db user (Some t)) i =
     (case check_agent_access w db user i False of Inr (_, level) \<Rightarrow> Some level | Inl _ \<Rightarrow> None)"
proof -
  have "check_agent_access w db user i False = (case granted_level w db user a of
      Some l \<Rightarrow> Inr (a, l) | None \<Rightarrow> Inl (forbidden_error ''No access to this agent''))"
    using assms by (simp add: check_agent_access_def)
  then show ?thesis
    using bulk_level_is_granted [OF assms(3), of w db user] assms(2)
    by (simp add: listed_levels split: option.split)
qed

lemma classify_without_inspection:
  "classify_permission w (filter (\<lambda>p. \<not> is_agent_operator_inspection_grant p) rows) subjects rt j action context
     = classify_permission w rows subjects rt j action context"
proof -
  have one: "filter (\<lambda>p. permission_effect_applies w p action context) (filter P (filter (\<lambda>p. \<not> is_agent_operator_inspection_grant p) rows))
      = filter (\<lambda>p. permission_effect_applies w p action context) (filter P rows)" for P
    unfolding filter_filter using operator_grant_applies_nowhere by (intro filter_cong) auto
  have two: "filter (\<lambda>p. permission_effect_applies w p action context) (filter Q (filter P (filter (\<lambda>p. \<not> is_agent_operator_inspection_grant p) rows)))
      = filter (\<lambda>p. permission_effect_applies w p action context) (filter Q (filter P rows))" for P Q
    unfolding filter_filter [of Q P] by (rule one)
  show ?thesis unfolding classify_permission_def Let_def one two ..
qed

lemma new_permissions [simp]:
  "platform_admin_selected_tenant (db\<lparr>ad_permissions := r\<rparr>) user = platform_admin_selected_tenant db user"
  "platform_admin_selection_allows_agent (db\<lparr>ad_permissions := r\<rparr>) user t = platform_admin_selection_allows_agent db user t"
  "is_scoped_business_admin (db\<lparr>ad_permissions := r\<rparr>) user t = is_scoped_business_admin db user t"
  "find_agent (db\<lparr>ad_permissions := r\<rparr>) i = find_agent db i"
  "shared_level (db\<lparr>ad_permissions := r\<rparr>) user i = shared_level db user i"
  "use_subjects (db\<lparr>ad_permissions := r\<rparr>) user t = use_subjects db user t"
  by (simp_all add: platform_admin_selected_tenant_def platform_admin_selection_allows_agent_def
    is_scoped_business_admin_def find_agent_def shared_level_def use_subjects_def
    load_effective_business_team_ids_def cong: option.case_cong)

lemma load_new_permissions [simp]:
  "load_agent_for_user (db\<lparr>ad_permissions := r\<rparr>) user i h = load_agent_for_user db user i h"
  by (simp add: load_agent_for_user_def cong: option.case_cong)

definition without_inspection :: "access_db \<Rightarrow> access_db" where
  "without_inspection db =
     db\<lparr>ad_permissions := filter (\<lambda>p. \<not> is_agent_operator_inspection_grant p) (ad_permissions db)\<rparr>"

lemma granted_without_inspection: "granted_level w (without_inspection db) user a = granted_level w db user a"
  by (simp add: granted_level_def without_inspection_def classify_without_inspection)

lemma access_without_inspection:
  "check_agent_access w (without_inspection db) user i h = check_agent_access w db user i h"
  unfolding check_agent_access_def granted_without_inspection
  by (simp add: without_inspection_def cong: if_cong option.case_cong)

text \<open>
  Operator inspection is independent of ordinary access: the access check and the
  check for execution give the same result for every user when all operator inspection grants
  are taken out of the permission rows.
\<close>

theorem inspection_grants_give_no_access:
  "check_agent_access w (without_inspection db) user i history = check_agent_access w db user i history
   \<and> require_agent_execution_access w (without_inspection db) user i = require_agent_execution_access w db user i"
  by (simp add: require_agent_execution_access_def access_without_inspection)

text \<open>
  An explicit denial of execution does not reach a user who is named by a sharing scope
  of the agent (the whole company, a department or the user): for a user who is no administrator
  and no owner, the check that admits work sessions gives the same result whatever permission
  rows there are, denials included.
\<close>

theorem sharing_scope_hides_execute_denial:
  assumes "shared_level db user i = Some level" and "us_role user \<notin> {''org_admin'', ''platform_admin''}"
  shows "require_agent_execution_access w (db\<lparr>ad_permissions := rows\<rparr>) user i
     = require_agent_execution_access w (db\<lparr>ad_permissions := []\<rparr>) user i"
proof -
  have "\<not> is_scoped_business_admin db user t" for t
    using assms(2) by (simp add: is_scoped_business_admin_def)
  then show ?thesis
    using assms(1)
    by (simp add: require_agent_execution_access_def check_agent_access_def cong: if_cong option.case_cong)
qed

text \<open>An agent shared with its company, and a member whose execution of it is denied.\<close>

definition desk_agent :: agent_row where
  "desk_agent = \<lparr>ag_id = 1, ag_tenant = Some 5, ag_owner = Some 2, ag_creator = Some 2, ag_deleted_at = None,
     ag_deactivated_at = None, ag_deactivation_reason = None, ag_owner_inactive = False\<rparr>"

definition desk_member :: user_row where
  "desk_member = \<lparr>us_id = 3, us_role = ''member'', us_tenant = Some 5, us_department = None, us_active = True\<rparr>"

definition desk_grant :: "string \<Rightarrow> string \<Rightarrow> permission_row" where
  "desk_grant effect action = \<lparr>pm_tenant = 5, pm_principal_type = ''user'', pm_principal = Some 3,
     pm_resource_type = ''agent'', pm_resource = Some 1, pm_actions = [action], pm_effect = effect,
     pm_conditions = PDict [], pm_expires = None, pm_revoked = None\<rparr>"

definition desk_db :: "scope_row list \<Rightarrow> permission_row list \<Rightarrow> access_db" where
  "desk_db scopes rows = \<lparr>ad_agents = [desk_agent], ad_live_tenants = [5], ad_pinned = None, ad_scopes = scopes,
     ad_memberships = [], ad_permissions = rows\<rparr>"

definition desk_world :: policy_world where
  "desk_world = \<lparr>pw_now = 0, pw_in_networks = (\<lambda>_ _. False)\<rparr>"

definition company_scope :: scope_row where
  "company_scope = \<lparr>sc_agent = 1, sc_type = ''company'', sc_id = None, sc_level = Some ''use''\<rparr>"

theorem listing_agrees_with_the_exact_check_witness:
  "map_of (resource_agent_access_levels desk_world
       (desk_db [] [desk_grant ''deny'' ''execute'', desk_grant ''allow'' ''read'']) desk_member (Some 5)) 1
     = Some ''read''"
proof -
  let ?db = "desk_db [] [desk_grant ''deny'' ''execute'', desk_grant ''allow'' ''read'']"
  have "load_agent_for_user ?db desk_member 1 False = Inr desk_agent" by code_simp
  moreover have "check_agent_access desk_world ?db desk_member 1 False = Inr (desk_agent, ''read'')" by code_simp
  moreover have "\<not> is_scoped_business_admin ?db desk_member (Some 5)"
    "effective_agent_owner_id desk_agent \<noteq> Some (us_id desk_member)" "shared_level ?db desk_member 1 = None"
    "ag_id desk_agent = 1" "ag_tenant desk_agent = Some 5" by code_simp+
  ultimately show ?thesis
    using listing_agrees_with_the_exact_check [of ?db desk_member 1 desk_agent 5 desk_world] by simp
qed

theorem sharing_scope_hides_execute_denial_witness:
  "require_agent_execution_access desk_world (desk_db [company_scope] [desk_grant ''deny'' ''execute'']) desk_member 1
     = Inr (desk_agent, ''use'')"
proof -
  have "shared_level (desk_db [company_scope] []) desk_member 1 = Some ''use''"
    "us_role desk_member \<notin> {''org_admin'', ''platform_admin''}" by code_simp+
  from sharing_scope_hides_execute_denial [OF this, of desk_world "[desk_grant ''deny'' ''execute'']"]
  have "require_agent_execution_access desk_world (desk_db [company_scope] [desk_grant ''deny'' ''execute'']) desk_member 1
     = require_agent_execution_access desk_world (desk_db [company_scope] []) desk_member 1"
    by (simp add: desk_db_def)
  moreover have "require_agent_execution_access desk_world (desk_db [company_scope] []) desk_member 1
     = Inr (desk_agent, ''use'')" by code_simp
  ultimately show ?thesis by simp
qed

end
