(* ===== verification/Json_Text.thy ===== *)
theory Json_Text
  imports Py_Compare
begin

text \<open>
  The text \<open>json.dumps(v, sort_keys=True)\<close> with ASCII escapes, as the audit trail hashes it, with
  the separators as arguments. With the compact separators the text determines the value up to
  the order of the keys of its dicts.
\<close>

section \<open>The text\<close>

definition ascii_escape :: "char \<Rightarrow> string" where
  "ascii_escape c = (let n = code_point c in
     if n = 34 \<or> n = 92 then [CHR 0x5C, c]
     else if n = 8 then [CHR 0x5C, CHR ''b'']
     else if n = 9 then [CHR 0x5C, CHR ''t'']
     else if n = 10 then [CHR 0x5C, CHR ''n'']
     else if n = 12 then [CHR 0x5C, CHR ''f'']
     else if n = 13 then [CHR 0x5C, CHR ''r'']
     else if n < 32 \<or> 127 \<le> n then [CHR 0x5C] @ ''u00'' @ [hex_digit (n div 16), hex_digit (n mod 16)]
     else [c])"

definition ascii_string :: "string \<Rightarrow> string" where
  "ascii_string s = [CHR 0x22] @ concat (map ascii_escape s) @ [CHR 0x22]"

fun ascii_json :: "string \<Rightarrow> string \<Rightarrow> pyval \<Rightarrow> string" where
  "ascii_json sep col PNone = ''null''"
| "ascii_json sep col (PBool b) = (if b then ''true'' else ''false'')"
| "ascii_json sep col (PInt i) = str_of_int i"
| "ascii_json sep col (PFloat f) = json_float f"
| "ascii_json sep col (PStr s) = ascii_string s"
| "ascii_json sep col (PList vs) = ''['' @ py_join sep (map (ascii_json sep col) vs) @ '']''"
| "ascii_json sep col (PDict d) =
     ''{'' @ py_join sep (map (\<lambda>kt. ascii_string (fst kt) @ col @ snd kt)
       (sort_key fst (map (\<lambda>kv. (fst kv, ascii_json sep col (snd kv))) d))) @ ''}''"

abbreviation compact_json :: "pyval \<Rightarrow> string" where
  "compact_json \<equiv> ascii_json '','' '':''"

text \<open>A value with the keys of its dicts in order.\<close>

fun sorted_value :: "pyval \<Rightarrow> pyval" where
  "sorted_value (PList vs) = PList (map sorted_value vs)"
| "sorted_value (PDict d) = PDict (sort_key fst (map (\<lambda>kv. (fst kv, sorted_value (snd kv))) d))"
| "sorted_value v = v"

text \<open>What \<open>repr\<close> of a float looks like, and values whose floats look so.\<close>

definition float_text :: "string \<Rightarrow> bool" where
  "float_text f \<longleftrightarrow> f \<in> {''nan'', ''inf'', ''-inf''} \<or>
     list_all (\<lambda>c. ascii_digit c \<or> c \<in> {CHR ''.'', CHR ''e'', CHR ''+'', CHR ''-''}) f
       \<and> (CHR ''.'' \<in> set f \<or> CHR ''e'' \<in> set f)"

fun json_value :: "pyval \<Rightarrow> bool" where
  "json_value (PFloat f) = float_text f"
| "json_value (PList vs) = list_all json_value vs"
| "json_value (PDict d) = list_all (\<lambda>kv. json_value (snd kv)) d"
| "json_value v = True"

section \<open>Strings are read back\<close>

definition hex_value :: "char \<Rightarrow> nat" where
  "hex_value c = (case base_digit 16 c of None \<Rightarrow> 0 | Some v \<Rightarrow> v)"

fun read_escape :: "string \<Rightarrow> (char \<times> string) option" where
  "read_escape (e # r) =
     (if e = CHR ''b'' then Some (char_of (8 :: nat), r)
      else if e = CHR ''t'' then Some (char_of (9 :: nat), r)
      else if e = CHR ''n'' then Some (char_of (10 :: nat), r)
      else if e = CHR ''f'' then Some (char_of (12 :: nat), r)
      else if e = CHR ''r'' then Some (char_of (13 :: nat), r)
      else if e = CHR ''u'' then
        (case r of a # b # h # l # r' \<Rightarrow> Some (char_of (16 * hex_value h + hex_value l), r') | _ \<Rightarrow> None)
      else Some (e, r))"
| "read_escape [] = None"

fun read_char :: "string \<Rightarrow> (char \<times> string) option" where
  "read_char (c # r) = (if c = CHR 0x22 then None else if c = CHR 0x5C then read_escape r else Some (c, r))"
| "read_char [] = None"

lemma code_point_eq: "code_point c = n \<longleftrightarrow> c = char_of (n :: nat)" if "n < 256"
  using that by (metis char_of_char mod_less of_char_of)

lemma hex_value_digit: "n < 16 \<Longrightarrow> hex_value (hex_digit n) = n"
  by (simp add: hex_value_def)

lemma read_char_escape: "read_char (ascii_escape c @ r) = Some (c, r)"
proof -
  have lt: "code_point c < (256 :: nat)" by (rule nat_of_char_less_256)
  let ?n = "code_point c :: nat"
  have hex: "char_of (16 * hex_value (hex_digit (?n div 16)) + hex_value (hex_digit (?n mod 16))) = c"
  proof -
    have "?n div 16 < 16" using lt by (simp add: div_less_iff_less_mult)
    then show ?thesis by (simp add: hex_value_digit)
  qed
  consider "?n = 34 \<or> ?n = 92" | "?n \<in> {8, 9, 10, 12, 13}"
    | "?n \<notin> {34, 92, 8, 9, 10, 12, 13}" "?n < 32 \<or> 127 \<le> ?n"
    | "?n \<notin> {34, 92, 8, 9, 10, 12, 13}" "\<not> (?n < 32 \<or> 127 \<le> ?n)" by auto
  then show ?thesis
  proof cases
    case 1
    moreover have "char_of (34 :: nat) = CHR 0x22" "char_of (92 :: nat) = CHR 0x5C" by code_simp+
    ultimately have "c = CHR 0x22 \<or> c = CHR 0x5C" by (auto simp: code_point_eq)
    then show ?thesis by (elim disjE) (simp_all add: ascii_escape_def Let_def)
  next
    case 2
    then show ?thesis
      by (elim insertE emptyE) (simp_all add: ascii_escape_def Let_def code_point_eq)
  next
    case 3
    then show ?thesis by (simp add: ascii_escape_def Let_def hex)
  next
    case 4
    then have "c \<noteq> CHR 0x22" "c \<noteq> CHR 0x5C" by auto
    with 4 show ?thesis by (simp add: ascii_escape_def Let_def)
  qed
qed

lemma read_body:
  "concat (map ascii_escape s) @ CHR 0x22 # r = concat (map ascii_escape t) @ CHR 0x22 # r' \<Longrightarrow> s = t \<and> r = r'"
proof (induction s arbitrary: t)
  case Nil
  show ?case
  proof (cases t)
    case (Cons d t')
    with Nil have "CHR 0x22 # r = ascii_escape d @ concat (map ascii_escape t') @ CHR 0x22 # r'" by simp
    then have "read_char (CHR 0x22 # r) = Some (d, concat (map ascii_escape t') @ CHR 0x22 # r')"
      by (simp only: read_char_escape)
    then show ?thesis by simp
  qed (use Nil in simp)
next
  case (Cons c s)
  show ?case
  proof (cases t)
    case Nil
    with Cons.prems have "CHR 0x22 # r' = ascii_escape c @ concat (map ascii_escape s) @ CHR 0x22 # r" by simp
    then have "read_char (CHR 0x22 # r') = Some (c, concat (map ascii_escape s) @ CHR 0x22 # r)"
      by (simp only: read_char_escape)
    then show ?thesis by simp
  next
    case (Cons d t')
    from Cons.prems Cons have "ascii_escape c @ concat (map ascii_escape s) @ CHR 0x22 # r
        = ascii_escape d @ concat (map ascii_escape t') @ CHR 0x22 # r'" by simp
    then have "read_char (ascii_escape c @ concat (map ascii_escape s) @ CHR 0x22 # r)
        = read_char (ascii_escape d @ concat (map ascii_escape t') @ CHR 0x22 # r')" by simp
    then have "c = d" "concat (map ascii_escape s) @ CHR 0x22 # r = concat (map ascii_escape t') @ CHR 0x22 # r'"
      by (simp_all add: read_char_escape)
    with Cons.IH [of t'] Cons show ?thesis by simp
  qed
qed

lemma ascii_string_inj: "ascii_string s @ r = ascii_string t @ r' \<Longrightarrow> s = t \<and> r = r'"
  by (rule read_body) (simp add: ascii_string_def)

section \<open>Values are read back\<close>

text \<open>Characters of the texts of numbers, \<open>null\<close> and the truth values.\<close>

definition plain_char :: "char \<Rightarrow> bool" where
  "plain_char c \<longleftrightarrow> c \<notin> set '',[]{}:'' \<and> c \<noteq> CHR 0x22"

definition closes :: "string \<Rightarrow> bool" where
  "closes r \<longleftrightarrow> r = [] \<or> hd r \<in> set '',]}''"

lemma plain_inj:
  assumes "list_all plain_char s" and "list_all plain_char t" and "closes r" and "closes r'" and "s @ r = t @ r'"
  shows "s = t \<and> r = r'"
proof -
  have cut: "takeWhile plain_char (u @ q) = u" if "list_all plain_char u" "closes q" for u q
  proof -
    have "takeWhile plain_char q = []"
      using that(2) by (cases q) (auto simp: closes_def plain_char_def)
    then show ?thesis using that(1) by (simp add: list_all_iff)
  qed
  from assms cut have "s = t" by metis
  with assms(5) show ?thesis by simp
qed

lemma digit_plain: "ascii_digit c \<Longrightarrow> plain_char c"
  by (auto simp: plain_char_def ascii_digit_def)

lemma int_plain: "list_all plain_char (str_of_int i)" "str_of_int i \<noteq> []"
proof -
  have "list_all plain_char (digits_of_nat n)" for n
    using digits_of_nat_digits [of n] digit_plain by (auto simp: list_all_iff)
  moreover have "plain_char (CHR ''-'')" by code_simp
  ultimately show "list_all plain_char (str_of_int i)" by (simp add: str_of_int_def)
  have "digits_of_nat n \<noteq> []" for n by (subst digits_of_nat.simps) simp
  then show "str_of_int i \<noteq> []" by (simp add: str_of_int_def)
qed

lemma float_plain:
  assumes "float_text f"
  shows "list_all plain_char (json_float f)" and "json_float f \<noteq> []"
proof -
  have "list_all plain_char f \<and> f \<noteq> []"
    if "list_all (\<lambda>c. ascii_digit c \<or> c \<in> {CHR ''.'', CHR ''e'', CHR ''+'', CHR ''-''}) f"
      "CHR ''.'' \<in> set f \<or> CHR ''e'' \<in> set f"
  proof -
    have "plain_char (CHR ''.'')" "plain_char (CHR ''e'')" "plain_char (CHR ''+'')" "plain_char (CHR ''-'')"
      by code_simp+
    with that digit_plain show ?thesis by (auto simp: list_all_iff)
  qed
  moreover have "list_all plain_char ''NaN''" "list_all plain_char ''Infinity''" "list_all plain_char ''-Infinity''"
    by code_simp+
  ultimately show "list_all plain_char (json_float f)" "json_float f \<noteq> []"
    using assms by (auto simp: json_float_def float_text_def)
qed

fun scalar :: "pyval \<Rightarrow> bool" where
  "scalar (PStr s) = False"
| "scalar (PList vs) = False"
| "scalar (PDict d) = False"
| "scalar v = True"

lemma scalar_text:
  assumes "scalar v" and "json_value v"
  shows "list_all plain_char (compact_json v) \<and> compact_json v \<noteq> []"
proof -
  have "list_all plain_char ''null''" "list_all plain_char ''true''" "list_all plain_char ''false''" by code_simp+
  with assms int_plain float_plain show ?thesis by (cases v) auto
qed

lemma str_of_int_inj: "str_of_int i = str_of_int j \<longleftrightarrow> i = j"
proof -
  have "CHR ''-'' # s \<noteq> digits_of_nat n" for s n
  proof
    assume "CHR ''-'' # s = digits_of_nat n"
    with digits_of_nat_digits [of n] have "ascii_digit (CHR ''-'')" by (metis list.pred_inject(2))
    then show False by (simp add: ascii_digit_def)
  qed
  then show ?thesis by (auto simp: str_of_int_def eq_commute [of "digits_of_nat _" "_ # _"] split: if_splits)
qed

text \<open>The characters that tell the texts of the scalars apart.\<close>

lemma int_chars: "c \<in> set (str_of_int i) \<Longrightarrow> ascii_digit c \<or> c = CHR ''-''"
  using digits_of_nat_digits [of "nat i"] digits_of_nat_digits [of "nat (- i)"]
  by (auto simp: str_of_int_def list_all_iff split: if_splits)

definition number_text :: "string \<Rightarrow> bool" where
  "number_text f \<longleftrightarrow> list_all (\<lambda>c. ascii_digit c \<or> c \<in> {CHR ''.'', CHR ''e'', CHR ''+'', CHR ''-''}) f"

lemma number_text_lacks: "number_text f \<Longrightarrow> c \<in> set ''NIlu'' \<Longrightarrow> c \<notin> set f"
  by (auto simp: number_text_def list_all_iff ascii_digit_def)

lemma float_cases:
  assumes "float_text f"
  obtains (special) "(f, json_float f) \<in> {(''nan'', ''NaN''), (''inf'', ''Infinity''), (''-inf'', ''-Infinity'')}"
    | (number) "number_text f" "json_float f = f" "CHR ''.'' \<in> set f \<or> CHR ''e'' \<in> set f"
proof (cases "f \<in> {''nan'', ''inf'', ''-inf''}")
  case True
  then have "(f, json_float f) \<in> {(''nan'', ''NaN''), (''inf'', ''Infinity''), (''-inf'', ''-Infinity'')}"
    by (auto simp: json_float_def)
  then show thesis by (rule special)
next
  case False
  then show thesis using assms by (intro number) (auto simp: float_text_def number_text_def json_float_def)
qed

lemma int_lacks: "c \<in> set ''.eNIlu'' \<Longrightarrow> c \<notin> set (str_of_int i)"
  by (auto dest!: int_chars simp: ascii_digit_def)

lemma float_lacks: "float_text f \<Longrightarrow> CHR ''l'' \<notin> set (json_float f) \<and> CHR ''u'' \<notin> set (json_float f)"
  by (erule float_cases) (auto dest: number_text_lacks)

lemma float_not_int:
  assumes "float_text f" shows "json_float f \<noteq> str_of_int i"
proof
  assume eq: "json_float f = str_of_int i"
  from assms have "\<exists>c \<in> set ''.eNI''. c \<in> set (json_float f)"
    by (rule float_cases) auto
  then obtain c where "c \<in> set ''.eNIlu''" "c \<in> set (str_of_int i)" unfolding eq by auto
  then show False using int_lacks by blast
qed

lemma float_inj: "float_text f \<Longrightarrow> float_text g \<Longrightarrow> json_float f = json_float g \<Longrightarrow> f = g"
proof -
  assume f: "float_text f" and g: "float_text g" and eq: "json_float f = json_float g"
  have no: "number_text h \<Longrightarrow> h \<notin> {''NaN'', ''Infinity'', ''-Infinity''}" for h
    by (auto dest: number_text_lacks)
  from f show "f = g"
  proof (cases rule: float_cases)
    case special
    with eq g no show ?thesis by (elim float_cases) auto
  next
    case number
    with eq g no show ?thesis by (elim float_cases) auto
  qed
qed

lemma float_inj_iff: "float_text f \<Longrightarrow> float_text g \<Longrightarrow> json_float f = json_float g \<longleftrightarrow> f = g"
  using float_inj by blast

lemma scalar_inj:
  assumes "scalar v" and "scalar w" and "json_value v" and "json_value w" and "compact_json v = compact_json w"
  shows "v = w"
proof -
  have int: "str_of_int i \<noteq> ''null''" "str_of_int i \<noteq> ''true''" "str_of_int i \<noteq> ''false''" for i
    using int_lacks [of "CHR ''l''" i] int_lacks [of "CHR ''u''" i] by auto
  have float: "json_float f \<noteq> ''null''" "json_float f \<noteq> ''true''" "json_float f \<noteq> ''false''"
    if "float_text f" for f
    using float_lacks [OF that] by auto
  show ?thesis
    using assms
    by (cases v; cases w) (simp_all add: int int [symmetric] float float [symmetric] float_not_int
      float_not_int [symmetric] float_inj_iff str_of_int_inj split: if_splits)
qed

text \<open>Items between separators, up to a closing bracket.\<close>

lemma join_Cons: "py_join sep (w # ws) = w @ (if ws = [] then [] else sep @ py_join sep ws)"
  by (cases ws) simp_all

lemma items_inj:
  assumes "\<And>x y r r'. x \<in> set xs \<Longrightarrow> y \<in> set ys \<Longrightarrow> closes r \<Longrightarrow> closes r' \<Longrightarrow> enc x @ r = enc y @ r' \<Longrightarrow> R x y \<and> r = r'"
    and "\<And>x. x \<in> set xs \<union> set ys \<Longrightarrow> \<not> closes (enc x)"
    and "z \<in> {CHR '']'', CHR ''}''}"
    and "py_join '','' (map enc xs) @ z # r = py_join '','' (map enc ys) @ z # r'"
  shows "list_all2 R xs ys \<and> r = r'"
  using assms(1,2,4)
proof (induction xs arbitrary: ys)
  case Nil
  have "ys = []"
  proof (rule ccontr)
    assume "ys \<noteq> []"
    then obtain y ys' where y: "ys = y # ys'" by (cases ys) auto
    with Nil(2) have "\<not> closes (enc y)" by simp
    with Nil(3) y assms(3) show False by (cases "enc y") (auto simp: join_Cons closes_def)
  qed
  with Nil(3) show ?case by simp
next
  case (Cons x xs)
  let ?tail = "\<lambda>us q. (if us = [] then z # q else CHR '','' # py_join '','' (map enc us) @ z # q)"
  have x: "\<not> closes (enc x)" using Cons.prems(2) by simp
  show ?case
  proof (cases ys)
    case Nil
    with Cons.prems(3) x assms(3) show ?thesis by (cases "enc x") (auto simp: join_Cons closes_def)
  next
    case (Cons y ys')
    have "enc x @ ?tail xs r = enc y @ ?tail ys' r'"
      using Cons.prems(3) Cons by (simp add: join_Cons split: if_splits)
    moreover have "closes (?tail us q)" for us q using assms(3) by (auto simp: closes_def)
    ultimately have *: "R x y" "?tail xs r = ?tail ys' r'"
      using Cons.prems(1) [of x y "?tail xs r" "?tail ys' r'"] Cons by simp_all
    show ?thesis
    proof (cases "xs = []")
      case True
      with * assms(3) Cons show ?thesis by (auto split: if_splits)
    next
      case False
      with *(2) assms(3) have ne: "ys' \<noteq> []" by (auto split: if_splits)
      with False *(2) have "py_join '','' (map enc xs) @ z # r = py_join '','' (map enc ys') @ z # r'" by simp
      then have "list_all2 R xs ys' \<and> r = r'"
        by (rule Cons.IH [rotated 2]) (use Cons.prems(1,2) Cons in auto)
      with *(1) Cons show ?thesis by simp
    qed
  qed
qed

text \<open>The first character of a text shows the kind of the value.\<close>

fun value_kind :: "pyval \<Rightarrow> nat" where
  "value_kind (PStr s) = 1"
| "value_kind (PList vs) = 2"
| "value_kind (PDict d) = 3"
| "value_kind v = 0"

definition kind_of_char :: "char \<Rightarrow> nat" where
  "kind_of_char c = (if c = CHR 0x22 then 1 else if c = CHR ''['' then 2 else if c = CHR ''{'' then 3 else 0)"

lemma scalar_kind: "scalar v \<longleftrightarrow> value_kind v = 0"
  by (cases v) auto

lemma text_opens:
  assumes "json_value v"
  shows "compact_json v \<noteq> []" and "kind_of_char (hd (compact_json v)) = value_kind v" and "\<not> closes (compact_json v)"
proof -
  have "compact_json v \<noteq> [] \<and> kind_of_char (hd (compact_json v)) = value_kind v \<and> \<not> closes (compact_json v)"
  proof (cases "scalar v")
    case True
    with scalar_text assms have t: "list_all plain_char (compact_json v)" "compact_json v \<noteq> []" by auto
    then have "plain_char (hd (compact_json v))" by (auto simp: list_all_iff)
    then have "kind_of_char (hd (compact_json v)) = 0" "hd (compact_json v) \<notin> set '',]}''"
      by (auto simp: plain_char_def kind_of_char_def)
    with True t(2) show ?thesis by (auto simp: scalar_kind closes_def)
  next
    case False
    then show ?thesis by (cases v) (auto simp: ascii_string_def kind_of_char_def closes_def)
  qed
  then show "compact_json v \<noteq> []" "kind_of_char (hd (compact_json v)) = value_kind v" "\<not> closes (compact_json v)" by auto
qed

lemma same_kind:
  assumes "json_value v" and "json_value w" and "compact_json v @ r = compact_json w @ r'"
  shows "value_kind v = value_kind w"
proof -
  have "hd (compact_json v @ r) = hd (compact_json w @ r')" using assms(3) by simp
  then have "hd (compact_json v) = hd (compact_json w)" using text_opens(1) assms(1,2) by simp
  then show ?thesis using text_opens(2) assms(1,2) by metis
qed

lemma insort_map_snd:
  "insort_key fst (fst kv, f (snd kv)) (map (\<lambda>kv. (fst kv, f (snd kv))) d)
     = map (\<lambda>kv. (fst kv, f (snd kv))) (insort_key fst kv d)"
  by (induction d) auto

lemma sort_map_snd:
  "sort_key fst (map (\<lambda>kv. (fst kv, f (snd kv))) d) = map (\<lambda>kv. (fst kv, f (snd kv))) (sort_key fst d)"
  by (induction d) (simp_all add: insort_map_snd)

lemma compact_json_inj:
  assumes "json_value v" and "json_value w" and "closes r" and "closes r'"
    and "compact_json v @ r = compact_json w @ r'"
  shows "sorted_value v = sorted_value w \<and> r = r'"
  using assms
proof (induction v arbitrary: w r r')
  case (PStr s)
  from same_kind [OF PStr(1,2,5)] obtain t where w: "w = PStr t" by (cases w) auto
  from PStr(5) w have "ascii_string s @ r = ascii_string t @ r'" by simp
  then show ?case using w ascii_string_inj [of s r t r'] by simp
next
  case (PList vs)
  from same_kind [OF PList.prems(1,2,5)] obtain ws where w: "w = PList ws" by (cases w) auto
  have wf: "\<And>x. x \<in> set vs \<union> set ws \<Longrightarrow> json_value x" using PList.prems(1,2) w by (auto simp: list_all_iff)
  have "list_all2 (\<lambda>x y. sorted_value x = sorted_value y) vs ws \<and> r = r'"
  proof (rule items_inj [where enc = compact_json and z = "CHR '']''"])
    fix x y q q'
    assume "x \<in> set vs" "y \<in> set ws" "closes q" "closes q'" "compact_json x @ q = compact_json y @ q'"
    with PList.IH [of x y q q'] wf show "sorted_value x = sorted_value y \<and> q = q'" by simp
  next
    show "py_join '','' (map compact_json vs) @ CHR '']'' # r = py_join '','' (map compact_json ws) @ CHR '']'' # r'"
      using PList.prems(5) w by simp
  qed (use wf text_opens(3) in auto)
  then show ?case using w by (simp add: list_all2_conv_all_nth list_eq_iff_nth_eq)
next
  case (PDict d)
  from same_kind [OF PDict.prems(1,2,5)] obtain e where w: "w = PDict e" by (cases w) auto
  let ?enc = "\<lambda>kv. ascii_string (fst kv) @ '':'' @ compact_json (snd kv)"
  let ?R = "\<lambda>x y. fst x = fst y \<and> sorted_value (snd x) = sorted_value (snd y)"
  have wf: "\<And>x. x \<in> set d \<union> set e \<Longrightarrow> json_value (snd x)" using PDict.prems(1,2) w by (auto simp: list_all_iff)
  have "list_all2 ?R (sort_key fst d) (sort_key fst e) \<and> r = r'"
  proof (rule items_inj [where enc = ?enc and z = "CHR ''}''"])
    fix x y q q'
    assume *: "x \<in> set (sort_key fst d)" "y \<in> set (sort_key fst e)" "closes q" "closes q'" "?enc x @ q = ?enc y @ q'"
    from ascii_string_inj [of "fst x" "'':'' @ compact_json (snd x) @ q" "fst y" "'':'' @ compact_json (snd y) @ q'"] *(5)
    have "fst x = fst y" "compact_json (snd x) @ q = compact_json (snd y) @ q'" by simp_all
    moreover have "snd x \<in> Basic_BNFs.snds x" by (cases x) auto
    ultimately show "?R x y \<and> q = q'"
      using PDict.IH [of x "snd x" "snd y" q q'] * wf by simp
  next
    show "py_join '','' (map ?enc (sort_key fst d)) @ CHR ''}'' # r = py_join '','' (map ?enc (sort_key fst e)) @ CHR ''}'' # r'"
      using PDict.prems(5) w by (simp add: sort_map_snd comp_def)
  qed (auto simp: ascii_string_def closes_def)
  then show ?case using w by (simp add: sort_map_snd list_all2_conv_all_nth list_eq_iff_nth_eq)
qed (use scalar_text scalar_inj plain_inj same_kind scalar_kind in \<open>metis scalar.simps(4-7)\<close>)+

lemma compact_json_value:
  "json_value v \<Longrightarrow> json_value w \<Longrightarrow> compact_json v = compact_json w \<Longrightarrow> sorted_value v = sorted_value w"
  using compact_json_inj [of v w "[]" "[]"] by (simp add: closes_def)

end
