(* ===== verification/Audit_Chain.thy ===== *)
theory Audit_Chain
  imports Json_Text Plan_Mode
begin

text \<open>
  The tamper-evident audit trail: the hash of an event and the writing of events into the chain
  of their company in \<open>backend/app/core/policy.py\<close>, and the verification of an event in
  \<open>backend/app/services/audit_query_service.py\<close>. A writer holds the advisory lock of its company's
  chain to the end of its transaction, so a write is one step. SHA-256 is the parameter \<open>sha\<close>.
\<close>

section \<open>Events and their hashes\<close>

text \<open>The fields of an event that the hash covers; the company and the previous hash come besides.\<close>

record audit_event =
  ae_event_type :: string
  ae_severity :: string
  ae_actor_type :: string
  ae_actor :: "uuid option"
  ae_action :: string
  ae_resource_type :: "string option"
  ae_resource :: "uuid option"
  ae_details :: "(string \<times> pyval) list"
  ae_ip :: "string option"
  ae_request :: "uuid option"
  ae_identity_type :: "string option"
  ae_identity :: "uuid option"
  ae_identity_label :: "string option"

record audit_row =
  al_id :: uuid
  al_seq :: "int option"
  al_created :: int
  al_tenant :: uuid
  al_event :: audit_event
  al_prev :: string
  al_hash :: string

definition opt_id :: "uuid option \<Rightarrow> pyval" where
  "opt_id x = opt_pstr (map_option uuid_str x)"

definition has_identity :: "audit_event \<Rightarrow> bool" where
  "has_identity e \<longleftrightarrow> opt_text (ae_identity_type e) \<noteq> [] \<or> ae_identity e \<noteq> None
     \<or> opt_text (ae_identity_label e) \<noteq> []"

definition identity_payload :: "audit_event \<Rightarrow> pyval" where
  "identity_payload e = PDict
     [(''type'', opt_pstr (ae_identity_type e)), (''id'', opt_id (ae_identity e)),
      (''label'', opt_pstr (ae_identity_label e))]"

definition audit_payload :: "uuid \<Rightarrow> audit_event \<Rightarrow> string \<Rightarrow> (string \<times> pyval) list" where
  "audit_payload tenant e prev =
     [(''event_type'', PStr (ae_event_type e)),
      (''severity'', PStr (ae_severity e)),
      (''actor_type'', PStr (ae_actor_type e)),
      (''actor_id'', opt_id (ae_actor e)),
      (''tenant_id'', PStr (uuid_str tenant)),
      (''action'', PStr (ae_action e)),
      (''resource_type'', opt_pstr (ae_resource_type e)),
      (''resource_id'', opt_id (ae_resource e)),
      (''details'', PDict (ae_details e)),
      (''ip_address'', if opt_text (ae_ip e) = [] then PNone else PStr (opt_text (ae_ip e))),
      (''request_id'', opt_id (ae_request e)),
      (''prev_hash'', PStr prev)]
     @ (if has_identity e then [(''execution_identity'', identity_payload e)] else [])"

definition compute_audit_event_hash ::
  "(string \<Rightarrow> string) \<Rightarrow> uuid \<Rightarrow> audit_event \<Rightarrow> string \<Rightarrow> string" where
  "compute_audit_event_hash sha tenant e prev = sha (compact_json (PDict (audit_payload tenant e prev)))"

text \<open>The hash of events from before June 2026, for the verification of old chains.\<close>

definition legacy_payload :: "uuid \<Rightarrow> audit_event \<Rightarrow> string \<Rightarrow> (string \<times> pyval) list" where
  "legacy_payload tenant e prev =
     [(''event_type'', PStr (ae_event_type e)),
      (''actor_type'', PStr (ae_actor_type e)),
      (''actor_id'', PStr (case ae_actor e of None \<Rightarrow> ''None'' | Some u \<Rightarrow> uuid_str u)),
      (''tenant_id'', PStr (uuid_str tenant)),
      (''action'', PStr (ae_action e)),
      (''prev_hash'', PStr prev)]"

definition compute_legacy_audit_event_hash ::
  "(string \<Rightarrow> string) \<Rightarrow> uuid \<Rightarrow> audit_event \<Rightarrow> string \<Rightarrow> string" where
  "compute_legacy_audit_event_hash sha tenant e prev =
     sha (ascii_json '', '' '': '' (PDict (legacy_payload tenant e prev)))"

section \<open>Writing an event\<close>

record audit_db =
  au_rows :: "audit_row list"
  au_next :: int
  au_platform :: "audit_event list"

text \<open>What a call passes, the execution identity of its context, and what the database supplies.\<close>

record audit_write =
  aw_tenant :: "uuid option"
  aw_event :: audit_event
  aw_identity :: "(string option \<times> uuid option \<times> string option) option"
  aw_id :: uuid
  aw_now :: int

definition executed_event :: "audit_write \<Rightarrow> audit_event" where
  "executed_event w =
     (case aw_identity w of
        None \<Rightarrow> (aw_event w)\<lparr>ae_identity_type := None, ae_identity := None, ae_identity_label := None\<rparr>
      | Some (t, i, l) \<Rightarrow> (aw_event w)\<lparr>ae_identity_type := t, ae_identity := i, ae_identity_label := l\<rparr>)"

text \<open>\<open>ORDER BY sequence_num DESC NULLS LAST, created_at DESC, id DESC\<close>.\<close>

definition newer_tie :: "audit_row \<Rightarrow> audit_row \<Rightarrow> bool" where
  "newer_tie a b \<longleftrightarrow> al_created b < al_created a \<or> al_created a = al_created b \<and> al_id b < al_id a"

definition newer_event :: "audit_row \<Rightarrow> audit_row \<Rightarrow> bool" where
  "newer_event a b =
     (case (al_seq a, al_seq b) of
        (Some x, Some y) \<Rightarrow> y < x \<or> x = y \<and> newer_tie a b
      | (Some _, None) \<Rightarrow> True
      | (None, Some _) \<Rightarrow> False
      | (None, None) \<Rightarrow> newer_tie a b)"

definition latest_event :: "audit_row list \<Rightarrow> audit_row option" where
  "latest_event rows =
     foldl (\<lambda>best r. case best of None \<Rightarrow> Some r | Some b \<Rightarrow> if newer_event r b then Some r else Some b)
       None rows"

definition chain_of :: "uuid \<Rightarrow> audit_db \<Rightarrow> audit_row list" where
  "chain_of t db = filter (\<lambda>r. al_tenant r = t) (au_rows db)"

definition write_audit_event :: "(string \<Rightarrow> string) \<Rightarrow> audit_write \<Rightarrow> audit_db \<Rightarrow> audit_db" where
  "write_audit_event sha w db =
     (let e = executed_event w in
      case aw_tenant w of
        None \<Rightarrow> db\<lparr>au_platform := au_platform db @ [e]\<rparr>
      | Some t \<Rightarrow>
          if t = 0 then db\<lparr>au_platform := au_platform db @ [e]\<rparr>
          else
            let prev = or_default (map_option al_hash (latest_event (chain_of t db))) ''genesis'' in
            db\<lparr>au_rows := au_rows db @
                [\<lparr>al_id = aw_id w, al_seq = Some (au_next db), al_created = aw_now w, al_tenant = t,
                  al_event = e, al_prev = prev, al_hash = compute_audit_event_hash sha t e prev\<rparr>],
               au_next := au_next db + 1\<rparr>)"

section \<open>Verifying an event\<close>

record chain_report =
  cr_valid :: bool
  cr_stored :: string
  cr_computed :: string
  cr_version :: "string option"
  cr_predecessor :: "uuid option"

definition without_identity :: "audit_event \<Rightarrow> audit_event" where
  "without_identity e = e\<lparr>ae_identity_type := None, ae_identity := None, ae_identity_label := None\<rparr>"

definition verify_event :: "(string \<Rightarrow> string) \<Rightarrow> audit_row list \<Rightarrow> audit_row \<Rightarrow> chain_report" where
  "verify_event sha rows r =
     (let e = al_event r;
          canonical = compute_audit_event_hash sha (al_tenant r) e (al_prev r);
          canonical_v2 = compute_audit_event_hash sha (al_tenant r) (without_identity e) (al_prev r);
          legacy = compute_legacy_audit_event_hash sha (al_tenant r) e (al_prev r);
          (valid, computed, version) =
            (if al_hash r = canonical
             then (True, canonical, if has_identity e then ''canonical_v3'' else ''canonical_v2'')
             else if al_hash r = canonical_v2 then (True, canonical_v2, ''canonical_v2'')
             else if al_hash r = legacy then (True, legacy, ''legacy_v1'')
             else (False, canonical, ''unknown'')) in
      \<lparr>cr_valid = valid, cr_stored = al_hash r, cr_computed = computed, cr_version = Some version,
       cr_predecessor = (if al_prev r \<in> {[], ''genesis''} then None
         else map_option al_id (find (\<lambda>p. al_tenant p = al_tenant r \<and> al_hash p = al_prev r) rows))\<rparr>)"

definition verify_chain :: "(string \<Rightarrow> string) \<Rightarrow> audit_row list \<Rightarrow> uuid \<Rightarrow> uuid \<Rightarrow> chain_report" where
  "verify_chain sha rows event_id tenant =
     (case find (\<lambda>r. al_id r = event_id \<and> al_tenant r = tenant) rows of
        None \<Rightarrow> \<lparr>cr_valid = False, cr_stored = [], cr_computed = [], cr_version = None, cr_predecessor = None\<rparr>
      | Some r \<Rightarrow> verify_event sha rows r)"

section \<open>The chain of a company\<close>

fun chained :: "(string \<Rightarrow> string) \<Rightarrow> string \<Rightarrow> audit_row list \<Rightarrow> bool" where
  "chained sha prev [] = True"
| "chained sha prev (r # rs) \<longleftrightarrow>
     al_prev r = prev \<and> al_hash r = compute_audit_event_hash sha (al_tenant r) (al_event r) prev
     \<and> chained sha (or_default (Some (al_hash r)) ''genesis'') rs"

definition end_of_chain :: "string \<Rightarrow> audit_row list \<Rightarrow> string" where
  "end_of_chain prev rows = (if rows = [] then prev else or_default (Some (al_hash (last rows))) ''genesis'')"

lemma chained_snoc:
  "chained sha prev (rows @ [r]) \<longleftrightarrow> chained sha prev rows \<and> al_prev r = end_of_chain prev rows
     \<and> al_hash r = compute_audit_event_hash sha (al_tenant r) (al_event r) (end_of_chain prev rows)"
  by (induction rows arbitrary: prev) (auto simp: end_of_chain_def)

lemma valid_iff:
  "cr_valid (verify_event sha rows r) \<longleftrightarrow>
     al_hash r = compute_audit_event_hash sha (al_tenant r) (al_event r) (al_prev r)
     \<or> al_hash r = compute_audit_event_hash sha (al_tenant r) (without_identity (al_event r)) (al_prev r)
     \<or> al_hash r = compute_legacy_audit_event_hash sha (al_tenant r) (al_event r) (al_prev r)"
  by (simp add: verify_event_def Let_def)

lemma chained_hash:
  "chained sha prev rows \<Longrightarrow> r \<in> set rows \<Longrightarrow>
     al_hash r = compute_audit_event_hash sha (al_tenant r) (al_event r) (al_prev r)"
  by (induction rows arbitrary: prev) auto

lemma canonical_version:
  "al_hash r = compute_audit_event_hash sha (al_tenant r) (al_event r) (al_prev r) \<Longrightarrow>
     cr_valid (verify_event sha rows r)
     \<and> cr_version (verify_event sha rows r) = Some (if has_identity (al_event r) then ''canonical_v3'' else ''canonical_v2'')"
  by (simp add: verify_event_def Let_def)

definition before :: "audit_row \<Rightarrow> audit_row \<Rightarrow> bool" where
  "before a b \<longleftrightarrow> (\<exists>x y. al_seq a = Some x \<and> al_seq b = Some y \<and> x < y)"

definition numbered :: "audit_db \<Rightarrow> bool" where
  "numbered db \<longleftrightarrow> sorted_wrt before (au_rows db)
     \<and> (\<forall>r \<in> set (au_rows db). \<exists>n. al_seq r = Some n \<and> n < au_next db)"

lemma latest_snoc: "latest_event (rows @ [r]) = (case latest_event rows of None \<Rightarrow> Some r
    | Some b \<Rightarrow> if newer_event r b then Some r else Some b)"
  by (simp add: latest_event_def)

lemma latest_in: "latest_event rows = Some r \<Longrightarrow> r \<in> set rows"
proof (induction rows arbitrary: r rule: rev_induct)
  case (snoc x rows)
  then show ?case by (auto simp: latest_snoc split: option.splits if_splits)
qed (simp add: latest_event_def)

lemma latest_is_last:
  assumes "sorted_wrt before rows"
  shows "latest_event rows = (if rows = [] then None else Some (last rows))"
  using assms
proof (induction rows rule: rev_induct)
  case (snoc r rows)
  then have "latest_event rows = (if rows = [] then None else Some (last rows))"
    by (simp add: sorted_wrt_append)
  moreover have "newer_event r b" if "b \<in> set rows" for b
  proof -
    from snoc.prems that obtain x y where "al_seq b = Some x" "al_seq r = Some y" "x < y"
      by (auto simp: sorted_wrt_append before_def)
    then show ?thesis by (simp add: newer_event_def)
  qed
  ultimately show ?case by (auto simp: latest_snoc)
qed (simp add: latest_event_def)

lemma sorted_wrt_filter_pres: "sorted_wrt P xs \<Longrightarrow> sorted_wrt P (filter Q xs)"
  by (induction xs) auto

definition well_chained :: "(string \<Rightarrow> string) \<Rightarrow> audit_db \<Rightarrow> bool" where
  "well_chained sha db \<longleftrightarrow> numbered db \<and> (\<forall>t. chained sha ''genesis'' (chain_of t db))"

lemma write_row:
  assumes "numbered db" and "aw_tenant w = Some t" and "t \<noteq> 0"
  obtains r where "au_rows (write_audit_event sha w db) = au_rows db @ [r]" "al_tenant r = t"
    "al_seq r = Some (au_next db)" "au_next (write_audit_event sha w db) = au_next db + 1"
    "al_prev r = end_of_chain ''genesis'' (chain_of t db)"
    "al_hash r = compute_audit_event_hash sha t (al_event r) (al_prev r)" "al_event r = executed_event w"
proof -
  have "sorted_wrt before (chain_of t db)"
    using assms(1) by (simp add: numbered_def chain_of_def sorted_wrt_filter_pres)
  then have "or_default (map_option al_hash (latest_event (chain_of t db))) ''genesis''
      = end_of_chain ''genesis'' (chain_of t db)"
    by (simp add: latest_is_last end_of_chain_def or_default_def)
  with assms that show thesis
    by (simp add: write_audit_event_def Let_def)
qed

lemma write_elsewhere:
  "aw_tenant w \<in> {None, Some 0} \<Longrightarrow> au_rows (write_audit_event sha w db) = au_rows db
     \<and> au_next (write_audit_event sha w db) = au_next db"
  by (auto simp: write_audit_event_def Let_def)

lemma write_keeps: "well_chained sha db \<Longrightarrow> well_chained sha (write_audit_event sha w db)"
proof (cases "aw_tenant w \<in> {None, Some 0}")
  case True
  assume "well_chained sha db"
  with write_elsewhere [OF True, of sha db] show ?thesis
    by (simp add: well_chained_def numbered_def chain_of_def)
next
  case False
  assume wc: "well_chained sha db"
  from False obtain t where t: "aw_tenant w = Some t" "t \<noteq> 0" by (cases "aw_tenant w") auto
  from wc have num: "numbered db" by (simp add: well_chained_def)
  from write_row [OF num t, of sha] obtain r where r:
    "au_rows (write_audit_event sha w db) = au_rows db @ [r]" "al_tenant r = t" "al_seq r = Some (au_next db)"
    "au_next (write_audit_event sha w db) = au_next db + 1" "al_prev r = end_of_chain ''genesis'' (chain_of t db)"
    "al_hash r = compute_audit_event_hash sha t (al_event r) (al_prev r)" by metis
  have "numbered (write_audit_event sha w db)"
    using num r by (force simp: numbered_def sorted_wrt_append before_def)
  moreover have "chained sha ''genesis'' (chain_of u (write_audit_event sha w db))" for u
    using wc r by (cases "u = t") (auto simp: well_chained_def chain_of_def chained_snoc)
  ultimately show ?thesis by (simp add: well_chained_def)
qed

lemma write_appends: "prefix (au_rows db) (au_rows (write_audit_event sha w db))"
  by (simp add: write_audit_event_def Let_def split: option.split)

interpretation audit_log: append_log au_rows "write_audit_event sha" for sha
  by unfold_locales (rule write_appends)

definition no_events :: audit_db where
  "no_events = \<lparr>au_rows = [], au_next = 1, au_platform = []\<rparr>"

definition write_all :: "(string \<Rightarrow> string) \<Rightarrow> audit_write list \<Rightarrow> audit_db" where
  "write_all sha ws = foldl (\<lambda>db w. write_audit_event sha w db) no_events ws"

lemma writes_keep: "well_chained sha (write_all sha ws)"
proof (induction ws rule: rev_induct)
  case Nil
  then show ?case
    by (simp add: write_all_def no_events_def well_chained_def numbered_def chain_of_def)
next
  case (snoc w ws)
  then show ?case using write_keeps by (simp add: write_all_def)
qed

lemma filter_prefix: "prefix xs ys \<Longrightarrow> prefix (filter P xs) (filter P ys)"
  by (auto simp: prefix_def)

lemma writes_append: "prefix (chain_of t (write_all sha ws)) (chain_of t (write_all sha (ws @ vs)))"
proof -
  have "write_all sha (ws @ vs) = audit_log.run_steps sha vs (write_all sha ws)"
    by (simp add: write_all_def audit_log.run_steps_def)
  then show ?thesis unfolding chain_of_def by (simp add: audit_log.run_appends filter_prefix)
qed

text \<open>
  Claim C23. The audit trail of every company is one hash chain: whatever events are written, in
  whatever order and for whatever companies, the rows of a company start at the genesis value,
  each carries the hash of its predecessor and the hash of its own fields, every one of them
  verifies, and later writes only extend the chain.
\<close>

theorem audit_trail_is_one_chain:
  "chained sha ''genesis'' (chain_of t (write_all sha (ws @ vs)))
   \<and> prefix (chain_of t (write_all sha ws)) (chain_of t (write_all sha (ws @ vs)))
   \<and> list_all (\<lambda>r. cr_valid (verify_chain sha (au_rows (write_all sha (ws @ vs))) (al_id r) t))
       (chain_of t (write_all sha (ws @ vs)))"
proof (intro conjI writes_append)
  let ?db = "write_all sha (ws @ vs)"
  show ch: "chained sha ''genesis'' (chain_of t ?db)" using writes_keep by (simp add: well_chained_def)
  have "cr_valid (verify_chain sha (au_rows ?db) (al_id r) t)" if r: "r \<in> set (chain_of t ?db)" for r
  proof -
    from r have "\<exists>x. find (\<lambda>q. al_id q = al_id r \<and> al_tenant q = t) (au_rows ?db) = Some x"
      by (auto simp: chain_of_def find_None_iff simp flip: not_None_eq)
    then obtain x where x: "find (\<lambda>q. al_id q = al_id r \<and> al_tenant q = t) (au_rows ?db) = Some x" ..
    then have "x \<in> set (chain_of t ?db)" by (auto simp: chain_of_def find_Some_iff)
    with ch have "cr_valid (verify_event sha (au_rows ?db) x)" by (simp add: canonical_version chained_hash)
    with x show ?thesis by (simp add: verify_chain_def)
  qed
  then show "list_all (\<lambda>r. cr_valid (verify_chain sha (au_rows ?db) (al_id r) t)) (chain_of t ?db)"
    by (simp add: list_all_iff)
qed

section \<open>Tampering\<close>

lemma lookup_sorted:
  assumes "sorted_value (PDict d) = sorted_value (PDict e)" and "distinct (map fst d)" and "distinct (map fst e)"
  shows "map_option sorted_value (map_of d k) = map_option sorted_value (map_of e k)"
proof -
  let ?s = "\<lambda>d. map (\<lambda>kv. (fst kv, sorted_value (snd kv))) d"
  have keys: "map fst (?s d) = map fst d" for d :: "(string \<times> pyval) list" by simp
  have lookup: "map_of (?s d) k = map_option sorted_value (map_of d k)" for d by (induction d) auto
  from assms(1) have "sort_key fst (?s d) = sort_key fst (?s e)" by simp
  then have "set (sort_key fst (?s d)) = set (sort_key fst (?s e))" by (rule arg_cong)
  then have "set (?s d) = set (?s e)" by (simp only: set_sort)
  then have "map_of (?s d) = map_of (?s e)"
    using assms(2,3) map_of_inject_set [of "?s d" "?s e"] by (simp only: keys)
  then show ?thesis unfolding lookup [symmetric] by simp
qed

lemma sort_first:
  fixes d :: "(string \<times> 'a) list"
  assumes "(k, v) \<in> set d" and "distinct (map fst d)" and "list_all (\<lambda>k'. k \<le> k') (map fst d)"
  shows "\<exists>rest. sort_key fst d = (k, v) # rest"
proof (cases "sort_key fst d")
  case Nil
  with assms(1) show ?thesis by (metis empty_iff list.set(1) set_sort)
next
  case (Cons x rest)
  have sorted: "sorted (map fst (x # rest))" unfolding Cons [symmetric] by simp
  have set: "set (x # rest) = set d" by (metis Cons set_sort)
  with assms(1) have "(k, v) \<in> set (x # rest)" by simp
  with sorted have "fst x \<le> k" by auto
  moreover have x: "x \<in> set d" using set by auto
  then have "k \<le> fst x" using assms(3) by (simp add: list_all_iff)
  ultimately have "fst x = k" by simp
  then have "x = (k, v)" using assms(1,2) x eq_key_imp_eq_value by (metis prod.collapse)
  with Cons show ?thesis by simp
qed

lemma payload_keys: "map fst (audit_payload t e p) =
    [''event_type'', ''severity'', ''actor_type'', ''actor_id'', ''tenant_id'', ''action'', ''resource_type'',
     ''resource_id'', ''details'', ''ip_address'', ''request_id'', ''prev_hash'']
     @ (if has_identity e then [''execution_identity''] else [])"
  by (simp add: audit_payload_def)

lemma payload_distinct: "distinct (map fst (audit_payload t e p))"
  by (simp add: payload_keys)

lemma legacy_keys: "map fst (legacy_payload t e p) =
    [''event_type'', ''actor_type'', ''actor_id'', ''tenant_id'', ''action'', ''prev_hash'']"
  by (simp add: legacy_payload_def)

lemma payload_first: "\<exists>rest. sort_key fst (audit_payload t e p) = (''action'', PStr (ae_action e)) # rest"
proof (rule sort_first [OF _ payload_distinct])
  have "list_all (\<lambda>k. ''action'' \<le> k) [''event_type'', ''severity'', ''actor_type'', ''actor_id'', ''tenant_id'',
      ''action'', ''resource_type'', ''resource_id'', ''details'', ''ip_address'', ''request_id'', ''prev_hash'',
      ''execution_identity'']" by code_simp
  then show "list_all (\<lambda>k. ''action'' \<le> k) (map fst (audit_payload t e p))" by (simp add: payload_keys)
qed (simp add: audit_payload_def)

lemma legacy_first: "\<exists>rest. sort_key fst (legacy_payload t e p) = (''action'', PStr (ae_action e)) # rest"
proof (rule sort_first)
  have "list_all (\<lambda>k. ''action'' \<le> k)
      [''event_type'', ''actor_type'', ''actor_id'', ''tenant_id'', ''action'', ''prev_hash'']" by code_simp
  then show "list_all (\<lambda>k. ''action'' \<le> k) (map fst (legacy_payload t e p))" by (simp only: legacy_keys)
qed (simp_all add: legacy_payload_def)

lemma legacy_differs:
  "compact_json (PDict (audit_payload t e p)) \<noteq> ascii_json '', '' '': '' (PDict (legacy_payload t' e' p'))"
proof -
  obtain u where u: "sort_key fst (audit_payload t e p) = (''action'', PStr (ae_action e)) # u"
    using payload_first by blast
  obtain v where v: "sort_key fst (legacy_payload t' e' p') = (''action'', PStr (ae_action e')) # v"
    using legacy_first by blast
  show ?thesis
    by (simp add: sort_map_snd u v join_Cons ascii_string_def)
qed

text \<open>What the hash of an event fixes: every field but the execution identity.\<close>

definition same_event :: "audit_event \<Rightarrow> audit_event \<Rightarrow> bool" where
  "same_event e f \<longleftrightarrow> ae_event_type e = ae_event_type f \<and> ae_severity e = ae_severity f
     \<and> ae_actor_type e = ae_actor_type f \<and> ae_actor e = ae_actor f \<and> ae_action e = ae_action f
     \<and> ae_resource_type e = ae_resource_type f \<and> ae_resource e = ae_resource f
     \<and> sorted_value (PDict (ae_details e)) = sorted_value (PDict (ae_details f))
     \<and> opt_text (ae_ip e) = opt_text (ae_ip f) \<and> ae_request e = ae_request f"

definition same_identity :: "audit_event \<Rightarrow> audit_event \<Rightarrow> bool" where
  "same_identity e f \<longleftrightarrow> ae_identity_type e = ae_identity_type f \<and> ae_identity e = ae_identity f
     \<and> ae_identity_label e = ae_identity_label f"

lemma opt_pstr_simps [simp]: "sorted_value (opt_pstr x) = opt_pstr x" "json_value (opt_pstr x)"
  "opt_pstr x = opt_pstr y \<longleftrightarrow> x = y"
  by (cases x; cases y; simp add: opt_pstr_def)+

lemma opt_id_simps [simp]: "sorted_value (opt_id x) = opt_id x" "json_value (opt_id x)"
  "opt_id x = opt_id y \<longleftrightarrow> x = y"
  by (cases x; cases y; simp add: opt_id_def)+

lemma payload_fields:
  "map_of (audit_payload t e p) ''event_type'' = Some (PStr (ae_event_type e))"
  "map_of (audit_payload t e p) ''severity'' = Some (PStr (ae_severity e))"
  "map_of (audit_payload t e p) ''actor_type'' = Some (PStr (ae_actor_type e))"
  "map_of (audit_payload t e p) ''actor_id'' = Some (opt_id (ae_actor e))"
  "map_of (audit_payload t e p) ''tenant_id'' = Some (PStr (uuid_str t))"
  "map_of (audit_payload t e p) ''action'' = Some (PStr (ae_action e))"
  "map_of (audit_payload t e p) ''resource_type'' = Some (opt_pstr (ae_resource_type e))"
  "map_of (audit_payload t e p) ''resource_id'' = Some (opt_id (ae_resource e))"
  "map_of (audit_payload t e p) ''details'' = Some (PDict (ae_details e))"
  "map_of (audit_payload t e p) ''ip_address''
     = Some (if opt_text (ae_ip e) = [] then PNone else PStr (opt_text (ae_ip e)))"
  "map_of (audit_payload t e p) ''request_id'' = Some (opt_id (ae_request e))"
  "map_of (audit_payload t e p) ''prev_hash'' = Some (PStr p)"
  "map_of (audit_payload t e p) ''execution_identity'' = (if has_identity e then Some (identity_payload e) else None)"
  by (simp_all add: audit_payload_def)

lemma identity_payload_inj:
  assumes "sorted_value (identity_payload e) = sorted_value (identity_payload f)"
  shows "same_identity e f"
proof -
  let ?d = "\<lambda>e. [(''type'', opt_pstr (ae_identity_type e)), (''id'', opt_id (ae_identity e)),
      (''label'', opt_pstr (ae_identity_label e))]"
  have "map_option sorted_value (map_of (?d e) k) = map_option sorted_value (map_of (?d f) k)" for k
    by (rule lookup_sorted) (use assms in \<open>simp_all add: identity_payload_def\<close>)
  from this [of "''type''"] this [of "''id''"] this [of "''label''"] show ?thesis
    by (simp add: same_identity_def)
qed

lemma payload_inj:
  assumes "json_value (PDict (ae_details e))" and "json_value (PDict (ae_details f))"
    and "compact_json (PDict (audit_payload t e p)) = compact_json (PDict (audit_payload u f q))"
  shows "t = u \<and> p = q \<and> same_event e f \<and> has_identity e = has_identity f \<and> (has_identity e \<longrightarrow> same_identity e f)"
proof -
  have "json_value (PDict (audit_payload t e p))" "json_value (PDict (audit_payload u f q))"
    using assms(1,2) by (simp_all add: audit_payload_def identity_payload_def)
  then have "sorted_value (PDict (audit_payload t e p)) = sorted_value (PDict (audit_payload u f q))"
    using assms(3) by (rule compact_json_value)
  then have get: "map_option sorted_value (map_of (audit_payload t e p) k)
      = map_option sorted_value (map_of (audit_payload u f q) k)" for k
    by (rule lookup_sorted) (rule payload_distinct)+
  have "same_event e f"
    using get [of "''event_type''"] get [of "''severity''"] get [of "''actor_type''"] get [of "''actor_id''"]
      get [of "''action''"] get [of "''resource_type''"] get [of "''resource_id''"] get [of "''details''"]
      get [of "''ip_address''"] get [of "''request_id''"]
    by (simp add: payload_fields same_event_def split: if_splits)
  moreover have "t = u" "p = q" using get [of "''tenant_id''"] get [of "''prev_hash''"] by (simp_all add: payload_fields)
  moreover have "has_identity e = has_identity f \<and> (has_identity e \<longrightarrow> same_identity e f)"
    using get [of "''execution_identity''"] by (auto simp: payload_fields identity_payload_inj split: if_splits)
  ultimately show ?thesis by simp
qed

lemma without_identity_simps [simp]: "\<not> has_identity (without_identity e)"
  "ae_details (without_identity e) = ae_details e" "same_event (without_identity e) f = same_event e f"
  by (simp_all add: without_identity_def has_identity_def opt_text_def same_event_def)

text \<open>
  Claim C15. Tampering is detected: with a collision-free digest, a row whose stored hash was
  computed for an event verifies only while it still holds that event, in the same company and
  after the same previous hash: no type, severity, actor, action, resource, address, request or
  detail can have changed, and neither can the execution identity if the event had one.
\<close>

theorem tampering_is_detected:
  assumes "inj sha" and "json_value (PDict (ae_details e))" and "json_value (PDict (ae_details (al_event r)))"
    and "al_hash r = compute_audit_event_hash sha t e prev" and "cr_valid (verify_event sha rows r)"
  shows "al_tenant r = t \<and> al_prev r = prev \<and> same_event (al_event r) e
     \<and> (has_identity e \<longrightarrow> same_identity (al_event r) e)"
proof -
  have sha: "sha x = sha y \<longleftrightarrow> x = y" for x y using assms(1) by (simp add: inj_eq)
  consider "compact_json (PDict (audit_payload (al_tenant r) (al_event r) (al_prev r))) = compact_json (PDict (audit_payload t e prev))"
    | "compact_json (PDict (audit_payload (al_tenant r) (without_identity (al_event r)) (al_prev r))) = compact_json (PDict (audit_payload t e prev))"
    | "ascii_json '', '' '': '' (PDict (legacy_payload (al_tenant r) (al_event r) (al_prev r))) = compact_json (PDict (audit_payload t e prev))"
    using assms(4,5) unfolding valid_iff compute_audit_event_hash_def compute_legacy_audit_event_hash_def
    by (auto simp: sha simp del: ascii_json.simps)
  then show ?thesis
  proof cases
    case 1
    from payload_inj [OF assms(3,2) this] show ?thesis by simp
  next
    case 2
    with payload_inj [of "without_identity (al_event r)" e] assms(2,3) show ?thesis by fastforce
  next
    case 3
    with legacy_differs [of t e prev] show ?thesis by metis
  qed
qed

text \<open>
  An event without an execution identity does not protect its identity columns:
  whatever identity is put into them afterwards, the row still verifies against the hash of the
  event without identity.
\<close>

theorem identity_can_be_forged:
  "cr_valid (verify_event sha rows
     (r\<lparr>al_hash := compute_audit_event_hash sha (al_tenant r) (without_identity (al_event r)) (al_prev r)\<rparr>))"
  by (simp add: valid_iff)

definition login_event :: audit_event where
  "login_event = \<lparr>ae_event_type = ''auth.login'', ae_severity = ''info'', ae_actor_type = ''user'', ae_actor = Some 3,
     ae_action = ''login'', ae_resource_type = None, ae_resource = None, ae_details = [(''n'', PInt 1)],
     ae_ip = Some ''10.0.0.1'', ae_request = None, ae_identity_type = None, ae_identity = None, ae_identity_label = None\<rparr>"

definition altered_row :: audit_row where
  "altered_row = \<lparr>al_id = 1, al_seq = Some 1, al_created = 0, al_tenant = 5,
     al_event = login_event\<lparr>ae_actor := Some 4\<rparr>, al_prev = ''genesis'',
     al_hash = compute_audit_event_hash id 5 login_event ''genesis''\<rparr>"

theorem tampering_is_detected_witness: "\<not> cr_valid (verify_event id [altered_row] altered_row)"
proof
  assume v: "cr_valid (verify_event id [altered_row] altered_row)"
  have "al_tenant altered_row = 5 \<and> al_prev altered_row = ''genesis'' \<and> same_event (al_event altered_row) login_event
     \<and> (has_identity login_event \<longrightarrow> same_identity (al_event altered_row) login_event)"
    by (rule tampering_is_detected [OF inj_on_id _ _ _ v]) (simp_all add: altered_row_def login_event_def)
  then show False by (simp add: altered_row_def login_event_def same_event_def)
qed

end
