(* ===== verification/Resource_Authority.thy ===== *)
theory Resource_Authority
  imports Access_Policy Audit_Chain Plan_Tools
begin

text \<open>
  Who may act on a resource or a session of an agent: \<open>backend/app/core/resource_authority.py\<close> and
  the session part of \<open>backend/app/core/permissions.py\<close>. An authorization returns its decision and
  the audit events it writes. A request is made by a user or by a runtime principal for its requester.
  For a chat artifact the rows that say where it was published are part of the model; the services that
  check the sources of its content are parameters: the receipt of its content, the file it was captured
  from, the saved packet of a remote reply, and the members of a group.
\<close>

section \<open>Paths as resources\<close>

definition normalize_workspace_resource_path :: "string \<Rightarrow> (string, string) res" where
  "normalize_workspace_resource_path path =
     (let raw = dropWhile (\<lambda>c. c = CHR ''/'') (py_strip (map (\<lambda>c. if c = CHR 0x5C then CHR ''/'' else c) path));
          normalized = normpath raw in
      if normalized \<in> {[], ''.''} then Inr []
      else if normalized = ''..'' \<or> prefix ''../'' normalized
      then Inl ''workspace resource path cannot escape the Agent root''
      else Inr normalized)"

section \<open>Requests and decisions\<close>

record session_row =
  ss_id :: uuid
  ss_agent :: uuid
  ss_user :: uuid
  ss_kind :: string
  ss_tenant :: uuid
  ss_audience :: "string option"
  ss_root :: "uuid option"

record requester_principal =
  ru_agent :: uuid
  ru_requester :: "uuid option"
  ru_session :: "string option"
  ru_delegation :: "string option"
  ru_purpose :: string
  ru_autonomous :: bool

record resource_request =
  rr_agent :: uuid
  rr_kind :: string
  rr_resource :: uuid
  rr_action :: string
  rr_owner :: "uuid option"
  rr_root :: "uuid option"
  rr_state :: "string option"
  rr_override :: bool
  rr_reason :: "string option"
  rr_access :: "(agent_row \<times> string) option"
  rr_audit :: bool
  rr_runtime :: "requester_principal option"

record resource_decision =
  rd_agent :: agent_row
  rd_level :: string
  rd_kind :: string
  rd_resource :: uuid
  rd_action :: string
  rd_source :: string
  rd_operator :: bool
  rd_full :: bool

definition SCOPED_BUSINESS_ADMIN_AUTHORITY_SOURCE :: string where
  "SCOPED_BUSINESS_ADMIN_AUTHORITY_SOURCE = ''scoped_business_admin''"

definition OWNED_AUTHORITY_STATE :: string where
  "OWNED_AUTHORITY_STATE = ''owned''"

definition QUARANTINED_AUTHORITY_STATE :: string where
  "QUARANTINED_AUTHORITY_STATE = ''quarantined''"

definition decide_resource ::
  "resource_request \<Rightarrow> agent_row \<times> string \<Rightarrow> string \<Rightarrow> bool \<Rightarrow> bool \<Rightarrow> resource_decision" where
  "decide_resource rq access source operator full =
     \<lparr>rd_agent = fst access, rd_level = snd access, rd_kind = rr_kind rq, rd_resource = rr_resource rq,
      rd_action = rr_action rq, rd_source = source, rd_operator = operator, rd_full = full\<rparr>"

section \<open>Audit notes\<close>

text \<open>An audit event to be written into the chain of the agent's company.\<close>

type_synonym audit_note = "uuid option \<times> audit_event"

definition user_event ::
  "string \<Rightarrow> user_row \<Rightarrow> string \<Rightarrow> string \<Rightarrow> uuid \<Rightarrow> (string \<times> pyval) list \<Rightarrow> audit_event" where
  "user_event event_type user action resource_type resource_id details =
     \<lparr>ae_event_type = event_type, ae_severity = ''info'', ae_actor_type = ''user'', ae_actor = Some (us_id user),
      ae_action = action, ae_resource_type = Some resource_type, ae_resource = Some resource_id,
      ae_details = details, ae_ip = None, ae_request = None, ae_identity_type = None, ae_identity = None,
      ae_identity_label = None\<rparr>"

definition merge_details :: "(string \<times> pyval) list \<Rightarrow> (string \<times> pyval) list \<Rightarrow> (string \<times> pyval) list" where
  "merge_details d extra = foldl (\<lambda>d kv. AList.update (fst kv) (snd kv) d) d extra"

definition scoped_admin_resource_note ::
  "user_row \<Rightarrow> agent_row \<Rightarrow> string \<Rightarrow> uuid \<Rightarrow> string \<Rightarrow> uuid option \<Rightarrow> uuid option \<Rightarrow> bool \<Rightarrow>
   (string \<times> pyval) list \<Rightarrow> audit_note" where
  "scoped_admin_resource_note user a kind resource_id action owner root_id override extra =
     (ag_tenant a, user_event ''resource.scoped_business_admin_access'' user action kind resource_id
       (merge_details
         [(''agent_id'', PStr (uuid_str (ag_id a))),
          (''owner_user_id'', opt_id owner),
          (''root_session_id'', opt_id root_id),
          (''actor_role'', PStr (us_role user)),
          (''authority_source'', PStr SCOPED_BUSINESS_ADMIN_AUTHORITY_SOURCE),
          (''operator_view_requested'', PBool override),
          (''outcome'', PStr ''allowed'')] extra))"

definition authorize_agent_operator_inspection ::
  "policy_world \<Rightarrow> access_db \<Rightarrow> user_row \<Rightarrow> agent_row \<Rightarrow> string option \<Rightarrow> string \<Rightarrow> string \<Rightarrow> uuid \<Rightarrow>
   (string \<times> pyval) list \<Rightarrow> (http_error, string \<times> audit_note) res" where
  "authorize_agent_operator_inspection w db user a reason action resource_type resource_id details =
     (let reason = py_strip (opt_text reason) in
      if reason = [] then Inl (forbidden_error ''Operator View requires an audit reason'')
      else if 1000 < length reason then Inl (Http 422 (PStr ''Operator reason is too long''))
      else if \<not> has_agent_operator_inspect w db user (ag_id a)
      then Inl (forbidden_error ''Active operator.inspect permission is required'')
      else Inr (''operator_inspect_grant'',
        (ag_tenant a, user_event ''agent.operator_inspection'' user action resource_type resource_id
          (merge_details details
            [(''agent_id'', PStr (uuid_str (ag_id a))), (''reason'', PStr reason),
             (''authority_source'', PStr ''operator_inspect_grant'')]))))"

section \<open>Chat artifacts\<close>

text \<open>
  An artifact row with the public part that its messages show, the run that made it, the outcome that
  sealed a run's parts, and the transcript events of a session.
\<close>

record artifact_row =
  ca_id :: uuid
  ca_agent :: uuid
  ca_tenant :: uuid
  ca_session :: uuid
  ca_message :: uuid
  ca_task :: "uuid option"
  ca_owner :: "uuid option"
  ca_root :: "uuid option"
  ca_state :: string
  ca_source :: string
  ca_part :: "(string \<times> pyval) list"

record run_row =
  rk_id :: uuid
  rk_tenant :: "uuid option"
  rk_agent :: "uuid option"
  rk_session :: "string option"
  rk_user :: "uuid option"

record sealed_run =
  so_tenant :: uuid
  so_session :: uuid
  so_run :: uuid
  so_state :: string
  so_parts :: "pyval list"

record transcript_event =
  tv_tenant :: uuid
  tv_session :: uuid
  tv_run :: "uuid option"
  tv_message :: "uuid option"
  tv_type :: string
  tv_parts :: "pyval list"

text \<open>A source that cannot be read: \<open>ContentInputReceiptError\<close>, \<open>WorkspaceAuthorityError\<close> or an HTTP error.\<close>

datatype source_error = Content_Error string string int | Workspace_Error string string | Http_Error http_error

definition coded_error :: "int \<Rightarrow> string \<Rightarrow> string \<Rightarrow> http_error" where
  "coded_error status code message = Http status (PDict [(''code'', PStr code), (''message'', PStr message)])"

text \<open>What the caller of an authorization sees of it; an exception that nothing catches is an internal error.\<close>

fun content_refused :: "source_error \<Rightarrow> http_error" where
  "content_refused (Content_Error code message status) = coded_error status code message"
| "content_refused (Workspace_Error code message) = Http 500 (PStr ''Internal Server Error'')"
| "content_refused (Http_Error e) = e"

fun source_refused :: "source_error \<Rightarrow> http_error" where
  "source_refused (Workspace_Error code message) = coded_error 403 code message"
| "source_refused e = content_refused e"

fun refusing :: "('x \<Rightarrow> 'e) \<Rightarrow> ('x, 'a) res \<Rightarrow> ('e, 'a) res" where
  "refusing f (Inl x) = Inl (f x)"
| "refusing f (Inr a) = Inr a"

text \<open>
  The rows of artifacts and the services that answer for their sources. Those that write audit events
  of their own return them.
\<close>

record artifact_store =
  af_rows :: "artifact_row list"
  af_runs :: "run_row list"
  af_outcomes :: "sealed_run list"
  af_events :: "transcript_event list"
  af_receipt :: "user_row \<Rightarrow> requester_principal option \<Rightarrow> artifact_row \<Rightarrow> (source_error, audit_note list) res"
  af_path :: "user_row \<Rightarrow> agent_row \<times> string \<Rightarrow> requester_principal option \<Rightarrow> bool \<Rightarrow> string option \<Rightarrow>
    artifact_row \<Rightarrow> (source_error, audit_note list) res"
  af_packet :: "session_row \<Rightarrow> transcript_event \<Rightarrow> user_row \<Rightarrow> (source_error, unit) res"
  af_member :: "session_row \<Rightarrow> user_row \<Rightarrow> (http_error, unit) res"
  af_project_read :: "uuid option \<Rightarrow> requester_principal \<Rightarrow> bool"
  af_actor :: "uuid option \<Rightarrow> requester_principal \<Rightarrow> (source_error, user_row) res"

text \<open>The group session and the run in which an artifact was made, when its row agrees with both.\<close>

definition group_run :: "session_row list \<Rightarrow> artifact_store \<Rightarrow> artifact_row \<Rightarrow> (session_row \<times> run_row) option" where
  "group_run sessions store x =
     (case find (\<lambda>s. ss_id s = ca_session x) sessions of
        None \<Rightarrow> None
      | Some s \<Rightarrow>
          if ss_audience s \<noteq> Some ''group'' \<or> ss_tenant s \<noteq> ca_tenant x \<or> ss_agent s \<noteq> ca_agent x
             \<or> ca_root x \<noteq> Some (case ss_root s of None \<Rightarrow> ss_id s | Some r \<Rightarrow> r)
          then None
          else case Option.bind (ca_task x) (\<lambda>i. find (\<lambda>t. rk_id t = i) (af_runs store)) of
            None \<Rightarrow> None
          | Some t \<Rightarrow>
              if rk_tenant t \<noteq> Some (ca_tenant x) \<or> rk_agent t \<noteq> Some (ca_agent x)
                 \<or> rk_session t \<noteq> Some (uuid_str (ss_id s)) \<or> rk_user t \<noteq> ca_owner x
              then None else Some (s, t))"

definition require_artifact_reader ::
  "policy_world \<Rightarrow> access_db \<Rightarrow> artifact_store \<Rightarrow> session_row \<Rightarrow> user_row \<Rightarrow> artifact_row \<Rightarrow> string \<Rightarrow>
   (http_error, unit) res" where
  "require_artifact_reader w db store s user x action =
     (if classify_permission w (ad_permissions db) (base_subjects user) ''chat_artifact'' (ca_id x) action
           [(''tenant_id'', PStr (py_str (opt_id (us_tenant user))))] = ''deny''
      then Inl (forbidden_error ''Artifact access is explicitly denied'')
      else af_member store s user)"

definition published_group_artifact ::
  "policy_world \<Rightarrow> access_db \<Rightarrow> session_row list \<Rightarrow> artifact_store \<Rightarrow> user_row \<Rightarrow> artifact_row \<Rightarrow> string \<Rightarrow>
   (http_error, bool) res" where
  "published_group_artifact w db sessions store user x action =
     (case group_run sessions store x of
        None \<Rightarrow> Inr False
      | Some (s, t) \<Rightarrow>
          (case find (\<lambda>q. so_tenant q = ca_tenant x \<and> so_session q = ss_id s \<and> so_run q = rk_id t
              \<and> so_state q = ''terminal_committed'') (af_outcomes store) of
             None \<Rightarrow> Inr False
           | Some q \<Rightarrow>
               if \<not> list_ex (py_eq (PDict (ca_part x))) (so_parts q) then Inr False
               else bind_res (require_artifact_reader w db store s user x action) (\<lambda>_. Inr True)))"

definition PART_IDENTITY_FIELDS :: "string list" where
  "PART_IDENTITY_FIELDS = [''type'', ''artifact_id'', ''path'', ''revision_id'', ''runtime_task_id'', ''source'',
     ''owner_agent_id'', ''source_agent_id'', ''download_agent_id'']"

fun same_part :: "(string \<times> pyval) list \<Rightarrow> pyval \<Rightarrow> bool" where
  "same_part expected (PDict part) = list_all (\<lambda>k. py_eq (dget part k) (dget expected k)) PART_IDENTITY_FIELDS"
| "same_part expected _ = False"

definition published_remote_group_artifact ::
  "policy_world \<Rightarrow> access_db \<Rightarrow> session_row list \<Rightarrow> artifact_store \<Rightarrow> user_row \<Rightarrow> artifact_row \<Rightarrow> string \<Rightarrow>
   (http_error, audit_note list option) res" where
  "published_remote_group_artifact w db sessions store user x action =
     (case group_run sessions store x of
        None \<Rightarrow> Inr None
      | Some (s, t) \<Rightarrow>
          (case find (\<lambda>v. tv_tenant v = ss_tenant s \<and> tv_session v = ss_id s \<and> tv_run v = Some (rk_id t)
              \<and> tv_message v = Some (ca_message x) \<and> tv_type v = ''remote_a2a_artifacts'') (af_events store) of
             None \<Rightarrow> Inr None
           | Some v \<Rightarrow>
               if \<not> list_ex (same_part (ca_part x)) (tv_parts v) then Inr None
               else bind_res (refusing content_refused (af_packet store s v user)) (\<lambda>_.
                 bind_res (refusing content_refused (af_receipt store user None x)) (\<lambda>notes.
                 bind_res (require_artifact_reader w db store s user x action) (\<lambda>_. Inr (Some notes))))))"

text \<open>
  The check of a chat artifact before its authority is looked at: a published remote reply may be read
  at once, every other artifact needs a valid receipt and a file that the user may read.
\<close>

datatype artifact_gate = Published "audit_note list" | Checked "artifact_row option" "audit_note list"

definition check_artifact ::
  "policy_world \<Rightarrow> access_db \<Rightarrow> session_row list \<Rightarrow> artifact_store \<Rightarrow> user_row \<Rightarrow> agent_row \<times> string \<Rightarrow>
   resource_request \<Rightarrow> (http_error, artifact_gate) res" where
  "check_artifact w db sessions store user access rq =
     (if rr_kind rq \<noteq> ''chat_artifact'' \<or> rr_action rq \<notin> {''read'', ''download'', ''deliver''} then Inr (Checked None [])
      else case find (\<lambda>x. ca_id x = rr_resource rq) (af_rows store) of
        None \<Rightarrow> Inl (Http 404 (PStr ''Artifact not found''))
      | Some x \<Rightarrow>
          if ca_agent x \<noteq> rr_agent rq \<or> Some (ca_tenant x) \<noteq> ag_tenant (fst access)
          then Inl (Http 404 (PStr ''Artifact not found''))
          else bind_res
            (if rr_runtime rq = None \<and> rr_action rq \<in> {''read'', ''download''}
                \<and> ca_source x = ''remote_a2a_return'' \<and> ca_state x = OWNED_AUTHORITY_STATE
             then published_remote_group_artifact w db sessions store user x (rr_action rq) else Inr None)
            (\<lambda>published. case published of
               Some notes \<Rightarrow> Inr (Published notes)
             | None \<Rightarrow>
                 bind_res (refusing source_refused (af_receipt store user (rr_runtime rq) x)) (\<lambda>receipt_notes.
                 bind_res (refusing source_refused
                     (af_path store user access (rr_runtime rq) (rr_override rq) (rr_reason rq) x)) (\<lambda>path_notes.
                   Inr (Checked (Some x) (receipt_notes @ path_notes))))))"

section \<open>Authorizing an action on a resource\<close>

definition root_session_owned_by_user :: "session_row list \<Rightarrow> uuid option \<Rightarrow> uuid \<Rightarrow> uuid \<Rightarrow> bool" where
  "root_session_owned_by_user sessions root_id agent_id user_id =
     (case root_id of
        None \<Rightarrow> False
      | Some s \<Rightarrow> list_ex (\<lambda>r. ss_id r = s \<and> ss_agent r = agent_id \<and> ss_user r = user_id) sessions)"

definition has_explicit_resource_grant ::
  "policy_world \<Rightarrow> access_db \<Rightarrow> user_row \<Rightarrow> string \<Rightarrow> uuid \<Rightarrow> string \<Rightarrow> bool" where
  "has_explicit_resource_grant w db user kind resource_id action =
     check_permission w (ad_permissions db) (base_subjects user) kind resource_id action
       (tenant_context (us_tenant user))"

definition load_explicit_resource_grant_ids ::
  "policy_world \<Rightarrow> access_db \<Rightarrow> user_row \<Rightarrow> string \<Rightarrow> string \<Rightarrow> uuid list" where
  "load_explicit_resource_grant_ids w db user kind action =
     (let rows = filter (\<lambda>p. pm_resource_type p = kind \<and> held_by (base_subjects user) p
            \<and> (case us_tenant user of None \<Rightarrow> True | Some t \<Rightarrow> pm_tenant p = t)) (ad_permissions db);
          live = filter (\<lambda>p. pm_resource p \<noteq> None
            \<and> permission_effect_applies w p action (tenant_context (us_tenant user))) rows in
      filter (\<lambda>i. effects_verdict (filter (\<lambda>p. pm_resource p = Some i) live) = ''allow'')
        (py_unique (List.map_filter pm_resource live)))"

text \<open>
  For whom the request is decided: its user, or the actor of a runtime principal that reads an input of
  its delegation or of its project from another agent.
\<close>

definition reads_other_agent :: "artifact_store \<Rightarrow> user_row \<Rightarrow> resource_request \<Rightarrow> requester_principal \<Rightarrow> bool" where
  "reads_other_agent store user rq p =
     (rr_kind rq \<in> {''chat_artifact'', ''workspace_file''} \<and> rr_action rq = ''read''
      \<and> (ru_purpose p = ''a2a_delegation'' \<and> \<not> ru_autonomous p \<and> opt_text (ru_session p) \<noteq> []
           \<and> opt_text (ru_delegation p) \<noteq> []
         \<or> af_project_read store (us_tenant user) p))"

definition request_actor :: "artifact_store \<Rightarrow> user_row \<Rightarrow> resource_request \<Rightarrow> (http_error, user_row \<times> bool) res" where
  "request_actor store user rq =
     (case rr_runtime rq of
        None \<Rightarrow> Inr (user, False)
      | Some p \<Rightarrow>
          if ru_requester p \<noteq> Some (us_id user)
          then Inl (forbidden_error ''Runtime resource authority context mismatch'')
          else if ru_agent p = rr_agent rq then Inr (user, False)
          else if \<not> reads_other_agent store user rq p
          then Inl (forbidden_error ''Runtime resource authority context mismatch'')
          else bind_res (refusing content_refused (af_actor store (us_tenant user) p)) (\<lambda>u. Inr (u, True)))"

definition request_access ::
  "policy_world \<Rightarrow> access_db \<Rightarrow> user_row \<Rightarrow> resource_request \<Rightarrow> (http_error, agent_row \<times> string) res" where
  "request_access w db user rq =
     (case rr_access rq of
        Some access \<Rightarrow> Inr access
      | None \<Rightarrow>
          if rr_runtime rq = None \<and> rr_override rq \<and> rr_action rq = ''read''
          then check_agent_operator_reachability w db user (rr_agent rq)
          else check_agent_access w db user (rr_agent rq) False)"

definition resource_state :: "resource_request \<Rightarrow> string" where
  "resource_state rq = py_lower (py_strip (or_default (rr_state rq) QUARANTINED_AUTHORITY_STATE))"

text \<open>The checked artifact, when it is owned and published to the group of the user who asks for himself.\<close>

definition group_publication ::
  "policy_world \<Rightarrow> access_db \<Rightarrow> session_row list \<Rightarrow> artifact_store \<Rightarrow> user_row \<Rightarrow> artifact_row option \<Rightarrow>
   resource_request \<Rightarrow> (http_error, artifact_row option) res" where
  "group_publication w db sessions store user x rq =
     (case x of
        None \<Rightarrow> Inr None
      | Some x' \<Rightarrow>
          if rr_kind rq = ''chat_artifact'' \<and> rr_action rq \<in> {''read'', ''download''} \<and> rr_runtime rq = None
             \<and> resource_state rq = OWNED_AUTHORITY_STATE
          then bind_res (published_group_artifact w db sessions store user x' (rr_action rq)) (\<lambda>published.
            Inr (if published then Some x' else None))
          else Inr None)"

text \<open>
  The authority over the resource. \<open>inspection\<close>: no recipient of shared sources is being read for, so
  administrators may inspect. \<open>x\<close> is the artifact row that was checked.
\<close>

definition decide_by_authority ::
  "policy_world \<Rightarrow> access_db \<Rightarrow> session_row list \<Rightarrow> artifact_store \<Rightarrow> bool \<Rightarrow> user_row \<Rightarrow> agent_row \<times> string \<Rightarrow>
   artifact_row option \<Rightarrow> resource_request \<Rightarrow> (http_error, resource_decision \<times> audit_note list) res" where
  "decide_by_authority w db sessions store inspection user access x rq =
     (let a = fst access; owned = (resource_state rq = OWNED_AUTHORITY_STATE) in
      if owned \<and> rr_owner rq = Some (us_id user)
      then Inr (decide_resource rq access ''resource_owner'' False True, [])
      else if owned \<and> root_session_owned_by_user sessions (rr_root rq) (rr_agent rq) (us_id user)
      then Inr (decide_resource rq access ''root_session_owner'' False True, [])
      else if rr_runtime rq = None \<and> inspection \<and> is_scoped_business_admin db user (ag_tenant a)
      then Inr (decide_resource rq access SCOPED_BUSINESS_ADMIN_AUTHORITY_SOURCE False True,
        if rr_audit rq
        then [scoped_admin_resource_note user a (rr_kind rq) (rr_resource rq) (rr_action rq) (rr_owner rq)
          (rr_root rq) (rr_override rq) []]
        else [])
      else if owned \<and> has_explicit_resource_grant w db user (rr_kind rq) (rr_resource rq) (rr_action rq)
      then Inr (decide_resource rq access ''resource_grant'' False False, [])
      else bind_res (group_publication w db sessions store user x rq)
        (\<lambda>published. case published of
           Some x' \<Rightarrow> Inr (decide_resource rq access
             (if ca_source x' = ''remote_a2a_return'' then ''shared_group_remote_artifact''
              else ''shared_group_terminal_artifact'') False False, [])
         | None \<Rightarrow>
             if rr_runtime rq = None \<and> rr_override rq \<and> rr_action rq = ''read''
             then bind_res
               (authorize_agent_operator_inspection w db user a (rr_reason rq) (rr_kind rq @ '':read'') (rr_kind rq)
                 (rr_resource rq)
                 [(''owner_user_id'', opt_id (rr_owner rq)), (''root_session_id'', opt_id (rr_root rq)),
                  (''authority_state'', PStr (resource_state rq))])
               (\<lambda>(source, note). Inr (decide_resource rq access source True False, [note]))
             else Inl (forbidden_error (if owned then ''This resource belongs to a different principal''
               else ''This legacy resource is quarantined and requires an explicit manager operator view''))))"

definition authorize_resource_action ::
  "policy_world \<Rightarrow> access_db \<Rightarrow> session_row list \<Rightarrow> artifact_store \<Rightarrow> bool \<Rightarrow> user_row \<Rightarrow> resource_request \<Rightarrow>
   (http_error, resource_decision \<times> audit_note list) res" where
  "authorize_resource_action w db sessions store inspection user rq =
     bind_res (request_actor store user rq) (\<lambda>(actor, cross_agent).
     bind_res (request_access w db actor rq) (\<lambda>access.
       if ag_id (fst access) \<noteq> rr_agent rq then Inl (forbidden_error ''Agent authority context mismatch'')
       else if cross_agent \<and> ag_tenant (fst access) \<noteq> us_tenant actor
       then Inl (forbidden_error ''Cross-company artifact input is not authorized'')
       else bind_res (check_artifact w db sessions store actor access rq) (\<lambda>gate.
         case gate of
           Published notes \<Rightarrow> Inr (decide_resource rq access ''shared_group_remote_artifact'' False False, notes)
         | Checked x notes \<Rightarrow>
             bind_res (decide_by_authority w db sessions store inspection actor access x rq) (\<lambda>(d, written).
               Inr (d, notes @ written)))))"

text \<open>
  The rows of a list surface that the user may read. \<open>collection\<close> is the uuid5 that stands for
  all resources of a kind of the agent.
\<close>

record 'r row_view =
  rv_id :: "'r \<Rightarrow> uuid"
  rv_owner :: "'r \<Rightarrow> uuid option"
  rv_root :: "'r \<Rightarrow> uuid option"
  rv_state :: "'r \<Rightarrow> string"

definition row_request ::
  "'r row_view \<Rightarrow> uuid \<Rightarrow> string \<Rightarrow> string \<Rightarrow> agent_row \<times> string \<Rightarrow> 'r \<Rightarrow> resource_request" where
  "row_request v agent_id kind action access row =
     \<lparr>rr_agent = agent_id, rr_kind = kind, rr_resource = rv_id v row, rr_action = action,
      rr_owner = rv_owner v row, rr_root = rv_root v row, rr_state = Some (rv_state v row),
      rr_override = False, rr_reason = None, rr_access = Some access, rr_audit = False, rr_runtime = None\<rparr>"

definition distinct_owner_texts :: "uuid option list \<Rightarrow> string list" where
  "distinct_owner_texts owners = sort (py_unique (List.map_filter (map_option uuid_str) owners))"

definition filter_authorized_resources ::
  "policy_world \<Rightarrow> access_db \<Rightarrow> session_row list \<Rightarrow> artifact_store \<Rightarrow> bool \<Rightarrow> user_row \<Rightarrow> 'r row_view \<Rightarrow> (string \<Rightarrow> uuid) \<Rightarrow>
   uuid \<Rightarrow> string \<Rightarrow> string \<Rightarrow> bool \<Rightarrow> string option \<Rightarrow> (agent_row \<times> string) option \<Rightarrow> 'r list \<Rightarrow>
   (http_error, ('r \<times> resource_decision) list \<times> audit_note list) res" where
  "filter_authorized_resources w db sessions store inspection user v collection agent_id kind action operator_view
       operator_reason agent_access rows =
     bind_res
       (case agent_access of
          Some access \<Rightarrow> Inr access
        | None \<Rightarrow>
            if operator_view \<and> action = ''read'' then check_agent_operator_reachability w db user agent_id
            else check_agent_access w db user agent_id False)
       (\<lambda>access.
         if operator_view
         then bind_res
           (authorize_resource_action w db sessions store inspection user
             \<lparr>rr_agent = agent_id, rr_kind = kind @ ''_collection'', rr_resource = collection kind,
              rr_action = action, rr_owner = None, rr_root = None, rr_state = Some QUARANTINED_AUTHORITY_STATE,
              rr_override = True, rr_reason = operator_reason, rr_access = Some access, rr_audit = True,
              rr_runtime = None\<rparr>)
           (\<lambda>(d, notes). Inr (map (\<lambda>row. (row, d)) rows, notes))
         else
           let visible = List.map_filter (\<lambda>row.
                 case authorize_resource_action w db sessions store inspection user
                   (row_request v agent_id kind action access row) of
                   Inl _ \<Rightarrow> None | Inr (d, _) \<Rightarrow> Some (row, d)) rows;
               admin = filter (\<lambda>(_, d). rd_source d = SCOPED_BUSINESS_ADMIN_AUTHORITY_SOURCE) visible;
               owners = distinct_owner_texts (map (\<lambda>(row, _). rv_owner v row) admin);
               single = (if length owners = 1 then uuid_of_text (hd owners) else None) in
           Inr (visible, if admin = [] then []
             else [scoped_admin_resource_note user (fst access) (kind @ ''_collection'') (collection kind) action
               single None False
               [(''target_owner_user_ids'', PList (map PStr (take 50 owners))),
                (''target_owner_count'', PInt (int (length owners))),
                (''target_resource_count'', PInt (int (length admin)))]]))"

text \<open>What is left of the artifact services for a resource that is no chat artifact: they are not asked.\<close>

definition no_artifacts :: artifact_store where
  "no_artifacts = \<lparr>af_rows = [], af_runs = [], af_outcomes = [], af_events = [],
     af_receipt = (\<lambda>_ _ _. Inr []), af_path = (\<lambda>_ _ _ _ _ _. Inr []), af_packet = (\<lambda>_ _ _. Inr ()),
     af_member = (\<lambda>_ _. Inr ()), af_project_read = (\<lambda>_ _. False),
     af_actor = (\<lambda>_ _. Inl (Http_Error (forbidden_error [])))\<rparr>"

section \<open>Authorizing an action on a session\<close>

definition READ_ONLY_SESSION_KINDS :: "string list" where
  "READ_ONLY_SESSION_KINDS = [''delegation_run'']"

definition require_writable_session :: "session_row \<Rightarrow> string \<Rightarrow> (http_error, unit) res" where
  "require_writable_session s action =
     (let session_kind = py_lower (py_strip (ss_kind s)) in
      if session_kind \<notin> set READ_ONLY_SESSION_KINDS then Inr ()
      else if session_kind = ''delegation_run'' \<and> action \<in> {''answer_session_question'', ''respond_tool_permission''}
      then Inr ()
      else Inl (Http 409 (PDict [(''code'', PStr ''session_read_only''), (''session_kind'', PStr session_kind),
        (''action'', PStr action)])))"

definition scoped_admin_session_note :: "user_row \<Rightarrow> agent_row \<Rightarrow> session_row \<Rightarrow> string \<Rightarrow> audit_note" where
  "scoped_admin_session_note user a s action =
     (ag_tenant a, user_event ''session.scoped_business_admin_access'' user action ''chat_session'' (ss_id s)
       [(''agent_id'', PStr (uuid_str (ag_id a))), (''session_user_id'', PStr (uuid_str (ss_user s))),
        (''actor_role'', PStr (us_role user)), (''authority_source'', PStr SCOPED_BUSINESS_ADMIN_AUTHORITY_SOURCE),
        (''outcome'', PStr ''allowed'')])"

definition authorize_loaded_session_access ::
  "policy_world \<Rightarrow> access_db \<Rightarrow> user_row \<Rightarrow> agent_row \<Rightarrow> session_row \<Rightarrow> string \<Rightarrow> bool \<Rightarrow> string option \<Rightarrow>
   bool \<Rightarrow> bool \<Rightarrow> (http_error, string \<times> audit_note list) res" where
  "authorize_loaded_session_access w db user a s action operator_view reason writable audit =
     (let check = (if writable then require_writable_session s action else Inr ()) in
      if ss_user s = us_id user then bind_res check (\<lambda>_. Inr (''session_owner'', []))
      else if is_scoped_business_admin db user (ag_tenant a)
      then bind_res check (\<lambda>_. Inr (SCOPED_BUSINESS_ADMIN_AUTHORITY_SOURCE,
        if audit then [scoped_admin_session_note user a s action] else []))
      else if operator_view \<and> \<not> writable
      then bind_res
        (authorize_agent_operator_inspection w db user a reason action ''chat_session'' (ss_id s)
          [(''session_user_id'', PStr (uuid_str (ss_user s)))])
        (\<lambda>(source, note). Inr (source, [note]))
      else Inl (forbidden_error ''This session belongs to a different user''))"

record session_decision =
  sd_agent :: agent_row
  sd_session :: session_row
  sd_level :: string
  sd_source :: string
  sd_action :: string

definition authorize_session_action ::
  "policy_world \<Rightarrow> access_db \<Rightarrow> session_row list \<Rightarrow> user_row \<Rightarrow> uuid \<Rightarrow> uuid \<Rightarrow> string \<Rightarrow> bool \<Rightarrow>
   string option \<Rightarrow> bool \<Rightarrow> bool \<Rightarrow> bool \<Rightarrow> (http_error, session_decision \<times> audit_note list) res" where
  "authorize_session_action w db sessions user agent_id session_id action override reason writable execution audit =
     bind_res
       (if override \<and> \<not> writable then check_agent_operator_reachability w db user agent_id
        else check_agent_access w db user agent_id False)
       (\<lambda>(a, level).
         case find (\<lambda>s. ss_id s = session_id \<and> ss_agent s = agent_id) sessions of
           None \<Rightarrow> Inl (Http 404 (PStr ''Chat session not found''))
         | Some s \<Rightarrow>
             bind_res (authorize_loaded_session_access w db user a s action override reason writable audit) (\<lambda>(source, notes).
             bind_res (if execution then reject_non_executing_agent_access level else Inr ()) (\<lambda>_.
               Inr (\<lparr>sd_agent = a, sd_session = s, sd_level = level, sd_source = source, sd_action = action\<rparr>, notes))))"

section \<open>What the authorizations guarantee\<close>

lemma inspection_Inr:
  "authorize_agent_operator_inspection w db user a reason action rt i details = Inr (source, note) \<longleftrightarrow>
     py_strip (opt_text reason) \<noteq> [] \<and> length (py_strip (opt_text reason)) \<le> 1000
     \<and> has_agent_operator_inspect w db user (ag_id a) \<and> source = ''operator_inspect_grant''
     \<and> note = (ag_tenant a, user_event ''agent.operator_inspection'' user action rt i
         (merge_details details [(''agent_id'', PStr (uuid_str (ag_id a))),
           (''reason'', PStr (py_strip (opt_text reason))), (''authority_source'', PStr ''operator_inspect_grant'')]))"
  by (auto simp: authorize_agent_operator_inspection_def Let_def)



lemma user_event_simps [simp]:
  "ae_actor (user_event ty user action rt i details) = Some (us_id user)"
  "ae_resource (user_event ty user action rt i details) = Some i"
  by (simp_all add: user_event_def)

lemma executed_event_simps [simp]:
  "ae_actor (executed_event w) = ae_actor (aw_event w)" "ae_resource (executed_event w) = ae_resource (aw_event w)"
  by (auto simp: executed_event_def split: option.split)








lemma group_run_facts:
  assumes "group_run sessions store x = Some (s, t)"
  shows "s \<in> set sessions \<and> ss_id s = ca_session x \<and> ss_audience s = Some ''group'' \<and> ss_tenant s = ca_tenant x
    \<and> ss_agent s = ca_agent x \<and> t \<in> set (af_runs store) \<and> ca_task x = Some (rk_id t)
    \<and> rk_session t = Some (uuid_str (ss_id s)) \<and> rk_user t = ca_owner x"
proof -
  from assms have f: "find (\<lambda>s. ss_id s = ca_session x) sessions = Some s"
      "Option.bind (ca_task x) (\<lambda>i. find (\<lambda>t. rk_id t = i) (af_runs store)) = Some t"
    and rest: "ss_audience s = Some ''group''" "ss_tenant s = ca_tenant x" "ss_agent s = ca_agent x"
      "rk_session t = Some (uuid_str (ss_id s))" "rk_user t = ca_owner x"
    by (auto simp: group_run_def split: option.splits if_splits)
  from f(1) have "s \<in> set sessions" "ss_id s = ca_session x" by (auto simp: find_Some_iff)
  moreover from f(2) have "t \<in> set (af_runs store)" "ca_task x = Some (rk_id t)"
    by (cases "ca_task x"; auto simp: find_Some_iff)+
  ultimately show ?thesis using rest by simp
qed

lemma group_reader:
  "published_group_artifact w db sessions store user x action = Inr True \<Longrightarrow>
    \<exists>s t. group_run sessions store x = Some (s, t) \<and> require_artifact_reader w db store s user x action = Inr ()"
  "published_remote_group_artifact w db sessions store user x action = Inr (Some notes) \<Longrightarrow>
    \<exists>s t. group_run sessions store x = Some (s, t) \<and> require_artifact_reader w db store s user x action = Inr ()"
  by (auto simp: published_group_artifact_def published_remote_group_artifact_def bind_res_Inr
    split: option.splits if_splits)

lemma by_publication:
  assumes "decide_by_authority w db sessions store inspection user access x rq = Inr (d, notes)"
    and "rd_source d \<in> {''shared_group_remote_artifact'', ''shared_group_terminal_artifact''}"
  shows "rd_agent d = fst access \<and> (\<exists>y. group_publication w db sessions store user x rq = Inr (Some y))"
proof (cases "group_publication w db sessions store user x rq")
  case (Inl e)
  with assms show ?thesis
    by (auto simp: decide_by_authority_def decide_resource_def SCOPED_BUSINESS_ADMIN_AUTHORITY_SOURCE_def Let_def
      split: if_split_asm)
next
  case (Inr p)
  show ?thesis
  proof (cases p)
    case None
    with Inr assms show ?thesis
      by (auto simp: decide_by_authority_def decide_resource_def SCOPED_BUSINESS_ADMIN_AUTHORITY_SOURCE_def Let_def
        bind_res_Inr inspection_Inr split: if_split_asm)
  next
    case (Some y)
    with Inr assms show ?thesis
      by (auto simp: decide_by_authority_def decide_resource_def Let_def split: if_split_asm)
  qed
qed

lemma decided_by_publication:
  assumes "decide_by_authority w db sessions store inspection user access x rq = Inr (d, notes)"
    and "rd_source d \<in> {''shared_group_remote_artifact'', ''shared_group_terminal_artifact''}"
  shows "\<exists>x'. x = Some x' \<and> rr_kind rq = ''chat_artifact'' \<and> rr_action rq \<in> {''read'', ''download''} \<and> rr_runtime rq = None
    \<and> rd_agent d = fst access \<and> published_group_artifact w db sessions store user x' (rr_action rq) = Inr True"
proof -
  obtain y where y: "group_publication w db sessions store user x rq = Inr (Some y)" and d: "rd_agent d = fst access"
    using by_publication [OF assms] by blast
  then show ?thesis by (auto simp: group_publication_def bind_res_Inr split: option.splits if_splits)
qed

lemma checked_artifact:
  assumes "check_artifact w db sessions store user access rq = Inr gate" and "gate = Published notes \<or> gate = Checked (Some x) notes"
  shows "\<exists>y. find (\<lambda>x. ca_id x = rr_resource rq) (af_rows store) = Some y \<and> ca_agent y = rr_agent rq
    \<and> ag_tenant (fst access) = Some (ca_tenant y) \<and> (gate = Checked (Some x) notes \<longrightarrow> y = x)
    \<and> (gate = Published notes \<longrightarrow> rr_runtime rq = None \<and> rr_action rq \<in> {''read'', ''download''}
        \<and> (\<exists>ns. published_remote_group_artifact w db sessions store user y (rr_action rq) = Inr (Some ns)))"
  using assms unfolding check_artifact_def bind_res_Inr
  by (auto split: option.splits if_splits)

text \<open>
  Claim C35. Publishing an artifact in a group opens it to the group and to nobody else. Where a decision
  rests on the publication, the artifact was made in a group session of its agent and company by a run
  of that session for the owner of the artifact, the user asks to read or download it for himself, no
  permission row denies it to him or to his department, and the group answers for him as a member.
\<close>

theorem published_artifacts_stay_in_the_group:
  assumes "authorize_resource_action w db sessions store inspection user rq = Inr (d, notes)"
    and "rd_source d \<in> {''shared_group_remote_artifact'', ''shared_group_terminal_artifact''}"
  shows "\<exists>x s t. find (\<lambda>x. ca_id x = rr_resource rq) (af_rows store) = Some x \<and> s \<in> set sessions
    \<and> t \<in> set (af_runs store) \<and> ca_agent x = rr_agent rq \<and> ag_tenant (rd_agent d) = Some (ca_tenant x)
    \<and> ss_id s = ca_session x \<and> ss_audience s = Some ''group'' \<and> ss_tenant s = ca_tenant x \<and> ss_agent s = ca_agent x
    \<and> ca_task x = Some (rk_id t) \<and> rk_session t = Some (uuid_str (ss_id s)) \<and> rk_user t = ca_owner x
    \<and> rr_action rq \<in> {''read'', ''download''} \<and> rr_runtime rq = None
    \<and> classify_permission w (ad_permissions db) (base_subjects user) ''chat_artifact'' (ca_id x) (rr_action rq)
        [(''tenant_id'', PStr (py_str (opt_id (us_tenant user))))] \<noteq> ''deny''
    \<and> af_member store s user = Inr ()"
proof -
  from assms(1) obtain actor c access gate where r: "request_actor store user rq = Inr (actor, c)"
      "check_artifact w db sessions store actor access rq = Inr gate"
    and out: "(case gate of
           Published notes \<Rightarrow> Inr (decide_resource rq access ''shared_group_remote_artifact'' False False, notes)
         | Checked x notes \<Rightarrow>
             bind_res (decide_by_authority w db sessions store inspection actor access x rq) (\<lambda>(d, written).
               Inr (d, notes @ written))) = Inr (d, notes)"
    unfolding authorize_resource_action_def bind_res_Inr by (auto split: if_splits)
  have "\<exists>x s t. find (\<lambda>x. ca_id x = rr_resource rq) (af_rows store) = Some x \<and> ca_agent x = rr_agent rq
      \<and> ag_tenant (fst access) = Some (ca_tenant x) \<and> rd_agent d = fst access
      \<and> group_run sessions store x = Some (s, t) \<and> require_artifact_reader w db store s actor x (rr_action rq) = Inr ()
      \<and> rr_action rq \<in> {''read'', ''download''} \<and> rr_runtime rq = None"
  proof (cases gate)
    case (Published ns)
    with out have "rd_agent d = fst access" by (auto simp: decide_resource_def)
    with checked_artifact [OF r(2), of ns] Published group_reader(2) show ?thesis by fast
  next
    case (Checked x ns)
    with out obtain ms where "decide_by_authority w db sessions store inspection actor access x rq = Inr (d, ms)" by auto
    from decided_by_publication [OF this assms(2)] checked_artifact [OF r(2), of ns] Checked group_reader(1)
    show ?thesis by fast
  qed
  then obtain x s t where x: "find (\<lambda>x. ca_id x = rr_resource rq) (af_rows store) = Some x" "ca_agent x = rr_agent rq"
      "ag_tenant (rd_agent d) = Some (ca_tenant x)" "group_run sessions store x = Some (s, t)"
      "require_artifact_reader w db store s actor x (rr_action rq) = Inr ()"
      "rr_action rq \<in> {''read'', ''download''}" "rr_runtime rq = None" by auto
  moreover from r(1) x(7) have "actor = user" by (simp add: request_actor_def)
  ultimately show ?thesis using group_run_facts [OF x(4)]
    by (intro exI [of _ x] exI [of _ s] exI [of _ t]) (auto simp: require_artifact_reader_def split: if_splits)
qed

text \<open>
  Sessions of other users are not changed: an action that needs a writable session is
  allowed only to the user of the session and, with one audit note, to an administrator of the
  agent's company; a delegation run only takes answers to its questions and permission requests;
  and an action that executes needs execution access to the agent.
\<close>

theorem foreign_sessions_are_not_mutated:
  assumes "authorize_session_action w db sessions user i s action override reason True execution True = Inr (d, notes)"
  shows "(ss_user (sd_session d) = us_id user \<and> notes = []
       \<or> is_scoped_business_admin db user (ag_tenant (sd_agent d)) \<and> length notes = 1)
     \<and> sd_session d \<in> set sessions \<and> ss_id (sd_session d) = s \<and> ss_agent (sd_session d) = i
     \<and> (py_lower (py_strip (ss_kind (sd_session d))) = ''delegation_run''
         \<longrightarrow> action \<in> {''answer_session_question'', ''respond_tool_permission''})
     \<and> (execution \<longrightarrow> sd_level d \<in> {''manage'', ''use''})"
proof -
  from assms obtain a level x source where x: "find (\<lambda>q. ss_id q = s \<and> ss_agent q = i) sessions = Some x"
    and loaded: "authorize_loaded_session_access w db user a x action override reason True True = Inr (source, notes)"
    and ex: "(if execution then reject_non_executing_agent_access level else Inr ()) = Inr ()"
    and d: "d = \<lparr>sd_agent = a, sd_session = x, sd_level = level, sd_source = source, sd_action = action\<rparr>"
    by (auto simp: authorize_session_action_def split: option.splits)
  from x have "x \<in> set sessions \<and> ss_id x = s \<and> ss_agent x = i"
    by (metis (mono_tags, lifting) find_Some_iff nth_mem)
  moreover from loaded have "require_writable_session x action = Inr ()
      \<and> (ss_user x = us_id user \<and> notes = [] \<or> is_scoped_business_admin db user (ag_tenant a) \<and> length notes = 1)"
    by (auto simp: authorize_loaded_session_access_def Let_def split: if_splits)
  moreover from ex have "execution \<longrightarrow> level \<in> {''manage'', ''use''}"
    by (auto simp: reject_non_executing_agent_access_def agent_access_allows_execution_def)
  ultimately show ?thesis
    by (simp add: d require_writable_session_def READ_ONLY_SESSION_KINDS_def Let_def split: if_splits)
qed

subsection \<open>Paths\<close>

lemma ups_first: "\<exists>k ws. foldl (push_part False) [] cs = replicate k up @ ws \<and> up \<notin> set ws"
proof (induction cs rule: rev_induct)
  case Nil
  show ?case by (intro exI [of _ 0] exI [of _ "[]"]) simp
next
  case (snoc c cs)
  then obtain k ws where acc: "foldl (push_part False) [] cs = replicate k up @ ws" "up \<notin> set ws" by blast
  have step: "foldl (push_part False) [] (cs @ [c]) = push_part False (replicate k up @ ws) c"
    by (simp add: acc(1))
  show ?case
  proof (cases ws rule: rev_cases)
    case Nil
    show ?thesis
    proof (cases "c = up")
      case True
      have "push_part False (replicate k up) up = replicate (Suc k) up"
        by (cases k) (auto simp: push_part_def up_def replicate_append_same)
      with Nil True show ?thesis unfolding step by (intro exI [of _ "Suc k"] exI [of _ "[]"]) simp
    next
      case False
      with Nil show ?thesis
        unfolding step by (intro exI [of _ k] exI [of _ "if c = [] \<or> c = ''.'' then [] else [c]"]) (auto simp: push_part_def)
    qed
  next
    case (snoc us u)
    with acc have "u \<noteq> up" "up \<notin> set us" by auto
    with acc(2) snoc show ?thesis
      unfolding step by (intro exI [of _ k] exI [of _ "if c = [] \<or> c = ''.'' then ws else if c = up then us else ws @ [c]"])
        (auto simp: push_part_def butlast_append)
  qed
qed

lemma walk_down:
  "up \<notin> set ws \<Longrightarrow> proper_parts ws \<Longrightarrow> foldl walk dirs ws = dirs @ ws"
  by (induction ws arbitrary: dirs) (auto simp: walk_def proper_parts_def)

text \<open>
  The path of a workspace resource stays inside the workspace: whatever text a path is
  given as, a normalized path that is not refused leads from every directory into that directory
  or below it.
\<close>

theorem resource_paths_stay_inside:
  assumes "normalize_workspace_resource_path path = Inr q"
  shows "prefix dir (location dir q)"
proof -
  define raw where "raw = dropWhile (\<lambda>c. c = CHR ''/'') (py_strip (map (\<lambda>c. if c = CHR 0x5C then CHR ''/'' else c) path))"
  have "raw \<noteq> CHR ''/'' # rest" for rest
    using hd_dropWhile [of "\<lambda>c. c = CHR ''/''"] unfolding raw_def by (metis list.distinct(1) list.sel(1))
  then have "\<not> prefix ''/'' raw" by (auto simp: prefix_slash)
  then have root0: "root_slashes raw = 0" by (simp add: root_slashes_0)
  from assms consider "q = []" | "q = normpath raw" "q \<noteq> ''.''" "q \<noteq> up" "\<not> prefix ''../'' q"
    by (auto simp: normalize_workspace_resource_path_def raw_def Let_def up_def split: if_splits)
  then show ?thesis
  proof cases
    case 1
    then show ?thesis by (simp add: location_def walk_def)
  next
    case 2
    obtain k ws where parts: "path_parts raw = replicate k up @ ws" "up \<notin> set ws"
      using ups_first [of "py_split_on CHR ''/'' raw"] root0 by (auto simp: path_parts_def)
    have "path_parts raw \<noteq> []" using 2(1,2) root0 by (auto simp: normpath_def)
    then have q: "q = py_join ''/'' (path_parts raw)" "py_split_on CHR ''/'' q = path_parts raw"
      using 2(1,2) root0 split_normpath [of raw] by (auto simp: normpath_def Let_def split: if_splits)
    have "k = 0"
    proof (rule ccontr)
      assume "k \<noteq> 0"
      then obtain us where us: "path_parts raw = up # us" using parts(1) by (cases k) auto
      with q(1) 2(3,4) show False by (cases us) (auto simp: up_def prefix_def)
    qed
    then have "foldl walk dir (path_parts raw) = dir @ path_parts raw"
      using parts proper_path_parts [of raw] by (simp add: walk_down)
    moreover have "\<not> prefix ''/'' q" unfolding q(1) using no_slash_start by blast
    ultimately show ?thesis by (simp add: location_def q(2))
  qed
qed

text \<open>The administrator of the company of the shared agent, and a member's resource and session.\<close>

definition desk_admin :: user_row where
  "desk_admin = \<lparr>us_id = 9, us_role = ''org_admin'', us_tenant = Some 5, us_department = None, us_active = True\<rparr>"

definition desk_request :: resource_request where
  "desk_request = \<lparr>rr_agent = 1, rr_kind = ''trigger'', rr_resource = 7, rr_action = ''write'', rr_owner = Some 3,
     rr_root = None, rr_state = Some ''owned'', rr_override = False, rr_reason = None, rr_access = None, rr_audit = True,
     rr_runtime = None\<rparr>"

definition desk_session :: session_row where
  "desk_session = \<lparr>ss_id = 8, ss_agent = 1, ss_user = 3, ss_kind = ''chat'', ss_tenant = 5, ss_audience = None, ss_root = None\<rparr>"

lemma admin_access: "request_access desk_world (desk_db [] []) desk_admin desk_request = Inr (desk_agent, ''manage'')"
  by code_simp


text \<open>A report of the user 3, sealed by his run 21 in the group session 8, and another member of the group.\<close>

definition group_store :: artifact_store where
  "group_store = no_artifacts\<lparr>
     af_rows := [\<lparr>ca_id = 20, ca_agent = 1, ca_tenant = 5, ca_session = 8, ca_message = 22, ca_task = Some 21, ca_owner = Some 3,
       ca_root = Some 8, ca_state = ''owned'', ca_source = ''workspace_write'', ca_part = [(''type'', PStr ''artifact'')]\<rparr>],
     af_runs := [\<lparr>rk_id = 21, rk_tenant = Some 5, rk_agent = Some 1, rk_session = Some (uuid_str 8), rk_user = Some 3\<rparr>],
     af_outcomes := [\<lparr>so_tenant = 5, so_session = 8, so_run = 21, so_state = ''terminal_committed'',
       so_parts = [PDict [(''type'', PStr ''artifact'')]]\<rparr>]\<rparr>"

definition group_member :: user_row where
  "group_member = \<lparr>us_id = 4, us_role = ''member'', us_tenant = Some 5, us_department = None, us_active = True\<rparr>"

definition report_request :: resource_request where
  "report_request = \<lparr>rr_agent = 1, rr_kind = ''chat_artifact'', rr_resource = 20, rr_action = ''read'', rr_owner = Some 3,
     rr_root = Some 8, rr_state = Some ''owned'', rr_override = False, rr_reason = None,
     rr_access = Some (desk_agent, ''use''), rr_audit = True, rr_runtime = None\<rparr>"

theorem published_artifacts_stay_in_the_group_witness:
  "\<exists>d. authorize_resource_action desk_world (desk_db [] []) [desk_session\<lparr>ss_audience := Some ''group''\<rparr>] group_store True
       group_member report_request = Inr (d, []) \<and> rd_source d = ''shared_group_terminal_artifact''
     \<and> ag_tenant (rd_agent d) = Some 5"
proof -
  define d where "d = decide_resource report_request (desk_agent, ''use'') ''shared_group_terminal_artifact'' False False"
  have run: "authorize_resource_action desk_world (desk_db [] []) [desk_session\<lparr>ss_audience := Some ''group''\<rparr>] group_store True
       group_member report_request = Inr (d, [])"
    unfolding d_def by code_simp
  have source: "rd_source d = ''shared_group_terminal_artifact''" by (simp add: d_def decide_resource_def)
  from published_artifacts_stay_in_the_group [OF run] source obtain x where
    "find (\<lambda>x. ca_id x = rr_resource report_request) (af_rows group_store) = Some x"
    "ag_tenant (rd_agent d) = Some (ca_tenant x)" by auto
  then have "ag_tenant (rd_agent d) = Some 5" by (simp add: group_store_def no_artifacts_def report_request_def)
      (auto simp: find_Some_iff)
  with run source show ?thesis by blast
qed

theorem foreign_sessions_are_not_mutated_witness:
  "\<exists>d events. authorize_session_action desk_world (desk_db [] []) [desk_session] desk_admin 1 8 ''rename'' False None
     True True True = Inr (d, events) \<and> length events = 1"
proof -
  define d where "d = \<lparr>sd_agent = desk_agent, sd_session = desk_session, sd_level = ''manage'',
     sd_source = SCOPED_BUSINESS_ADMIN_AUTHORITY_SOURCE, sd_action = ''rename''\<rparr>"
  define events where "events = [scoped_admin_session_note desk_admin desk_agent desk_session ''rename'']"
  have run: "authorize_session_action desk_world (desk_db [] []) [desk_session] desk_admin 1 8 ''rename'' False None
     True True True = Inr (d, events)" unfolding d_def events_def by code_simp
  from foreign_sessions_are_not_mutated [OF run] have "length events = 1"
    by (auto simp: d_def desk_session_def desk_admin_def)
  with run show ?thesis by blast
qed

theorem resource_paths_stay_inside_witness:
  "prefix [''srv'', ''agent''] (location [''srv'', ''agent''] ''notes/b.md'')"
proof (rule resource_paths_stay_inside)
  show "normalize_workspace_resource_path ''/notes/./a/../b.md'' = Inr ''notes/b.md''" by code_simp
qed

end
