(* ===== verification/Trigger_Authority.thy ===== *)
theory Trigger_Authority
  imports Resource_Authority
begin

text \<open>
  The rows of \<open>backend/app/models/trigger.py\<close> and who has authority over a trigger,
  \<open>backend/app/services/trigger_resource_authority.py\<close>: what callers may put into a trigger's
  config, the owner and the state of its authority, the authority generation that a fire carries,
  and the operations that quarantine, reclaim and replace. Rows are locked while an operation
  runs, so an operation is one step; one that raises is rolled back.
\<close>

section \<open>Rows\<close>

type_synonym config = "(string \<times> pyval) list"

record trigger_row =
  tg_id :: uuid
  tg_agent :: uuid
  tg_name :: string
  tg_type :: string
  tg_config :: config
  tg_reason :: string
  tg_enabled :: bool
  tg_fires :: int
  tg_max_fires :: "int option"
  tg_cooldown :: int
  tg_expires :: "int option"
  tg_reply :: "config option"

section \<open>What a caller may configure\<close>

definition AUTHORITY_KEYS :: "string list" where
  "AUTHORITY_KEYS = [''created_by'', ''root_session_id'', ''authority_state'']"

definition RUNTIME_CONFIG_KEYS :: "string list" where
  "RUNTIME_CONFIG_KEYS = [''failure_count'', ''last_failure_at'', ''last_failure'', ''backoff_until'']"

definition PRIVATE_AUTHORITY_CONFIG_KEYS :: "string list" where
  "PRIVATE_AUTHORITY_CONFIG_KEYS =
     [''root_session_id'', ''source_session_id'', ''confirmed_plan_session_id'', ''context_from'',
      ''delivery_target_json'', ''plan_id'', ''plan_version'', ''plan_hash'', ''plan_authorization'']"

definition PRIVATE_AUTHORITY_METADATA_KEYS :: "string list" where
  "PRIVATE_AUTHORITY_METADATA_KEYS = [''plan_exempt_reason'', ''plan_recommendation_id'']"

definition runtime_config_key :: "string \<Rightarrow> bool" where
  "runtime_config_key key \<longleftrightarrow> prefix ''_'' key \<or> key \<in> set RUNTIME_CONFIG_KEYS"

definition without_keys :: "string list \<Rightarrow> config \<Rightarrow> config" where
  "without_keys ks d = filter (\<lambda>kv. fst kv \<notin> set ks) d"

definition strip_runtime :: "config \<Rightarrow> config" where
  "strip_runtime d = filter (\<lambda>kv. \<not> runtime_config_key (fst kv)) d"

definition strip_trigger_runtime_config :: "pyval \<Rightarrow> (string, config) res" where
  "strip_trigger_runtime_config candidate =
     bind_res (dict_of candidate) (\<lambda>d. Inr (strip_runtime d))"

definition strip_metadata :: "config \<Rightarrow> string \<Rightarrow> config" where
  "strip_metadata d key =
     (case as_dict (dget d key) of
        None \<Rightarrow> d
      | Some m \<Rightarrow>
          (let m = without_keys PRIVATE_AUTHORITY_METADATA_KEYS m in
           if m = [] then AList.delete key d else AList.update key (PDict m) d))"

definition strip_trigger_untrusted_config :: "pyval \<Rightarrow> (string, config) res" where
  "strip_trigger_untrusted_config candidate =
     bind_res (strip_trigger_runtime_config candidate) (\<lambda>d.
       let d = without_keys ([''plan_id'', ''plan_version'', ''plan_hash'', ''plan_authorization'',
             ''confirmed_plan_session_id''] @ PRIVATE_AUTHORITY_METADATA_KEYS) d in
       Inr (strip_metadata (strip_metadata d ''metadata'') ''metadata_json''))"

section \<open>Owner, state and generation\<close>

definition trigger_authority_generation :: "config \<Rightarrow> (string, int) res" where
  "trigger_authority_generation d =
     (case get_or d ''_authority_generation'' (PInt 0) of
        PInt g \<Rightarrow> if g < 0 then Inl ''trigger_authority_generation_unavailable'' else Inr g
      | _ \<Rightarrow> Inl ''trigger_authority_generation_unavailable'')"

text \<open>The generation a fire was started under, from the metadata of its task.\<close>

definition expected_generation :: "uuid \<Rightarrow> config \<Rightarrow> pyval option" where
  "expected_generation trigger_id metadata =
     (let generations = dget metadata ''trigger_authority_generations'' in
      if generations = PNone then Some (PInt 0)
      else case as_dict generations of
        None \<Rightarrow> None
      | Some g \<Rightarrow> map_of g (uuid_str trigger_id))"

definition trigger_fire_authority_block_reason :: "trigger_row \<Rightarrow> config \<Rightarrow> string option" where
  "trigger_fire_authority_block_reason t metadata =
     (case expected_generation (tg_id t) metadata of
        None \<Rightarrow> Some ''trigger_authority_generation_unavailable''
      | Some expected \<Rightarrow>
          (case trigger_authority_generation (tg_config t) of
             Inl _ \<Rightarrow> Some ''trigger_authority_generation_unavailable''
           | Inr current \<Rightarrow>
               (case expected of
                  PInt e \<Rightarrow>
                    if e < 0 \<or> current < e then Some ''trigger_authority_generation_unavailable''
                    else if e \<noteq> current then Some ''trigger_authority_revoked'' else None
                | _ \<Rightarrow> Some ''trigger_authority_generation_unavailable'')))"

fun uuid_value :: "config \<Rightarrow> string list \<Rightarrow> uuid option" where
  "uuid_value d [] = None"
| "uuid_value d (k # ks) =
     (if \<not> truthy (dget d k) then uuid_value d ks
      else case uuid_of_text (py_str (dget d k)) of None \<Rightarrow> uuid_value d ks | Some u \<Rightarrow> Some u)"

definition trigger_owner_user_id :: "trigger_row \<Rightarrow> uuid option" where
  "trigger_owner_user_id t = uuid_value (tg_config t) [''created_by'']"

definition trigger_root_session_id :: "trigger_row \<Rightarrow> uuid option" where
  "trigger_root_session_id t =
     uuid_value (tg_config t) [''root_session_id'', ''confirmed_plan_session_id'', ''source_session_id'']"

definition stated_authority :: "config \<Rightarrow> string" where
  "stated_authority d = py_lower (clean_text (dget d ''authority_state''))"

definition trigger_authority_state :: "trigger_row \<Rightarrow> string" where
  "trigger_authority_state t =
     (if stated_authority (tg_config t) \<in> {''owned'', ''quarantined''} then stated_authority (tg_config t)
      else if trigger_owner_user_id t \<noteq> None then ''owned'' else ''quarantined'')"

definition trigger_execution_block_reason :: "trigger_row \<Rightarrow> string option" where
  "trigger_execution_block_reason t =
     (if stated_authority (tg_config t) = ''quarantined'' \<or> trigger_owner_user_id t = None
      then Some ''trigger_authority_quarantined'' else None)"

definition trigger_not_fire_inflight :: "trigger_row \<Rightarrow> (string option, unit) res" where
  "trigger_not_fire_inflight t =
     (case as_dict (dget (tg_config t) ''_fire_inflight'') of
        None \<Rightarrow> Inr ()
      | Some marker \<Rightarrow>
          (let task = py_str (py_or (dget marker ''runtime_task_id'') (PStr [])) in
           Inl (if task = [] then None else Some task)))"

section \<open>Operations on the authority\<close>

definition stamp_trigger_authority :: "config \<Rightarrow> uuid option \<Rightarrow> string option \<Rightarrow> config" where
  "stamp_trigger_authority config owner root_session =
     (let d = AList.delete ''_authority_generation'' config in
      case owner of
        None \<Rightarrow> AList.update ''authority_state'' (PStr ''quarantined'')
                 (AList.delete ''root_session_id'' (AList.delete ''created_by'' d))
      | Some u \<Rightarrow>
          (let d = AList.update ''authority_state'' (PStr ''owned'')
                 (AList.update ''created_by'' (PStr (uuid_str u)) d) in
           if opt_text root_session = [] then AList.delete ''root_session_id'' d
           else AList.update ''root_session_id'' (PStr (opt_text root_session)) d))"

definition carry_over :: "config \<Rightarrow> config \<Rightarrow> string \<Rightarrow> config" where
  "carry_over current candidate k =
     (if has_key current k then AList.update k (dget current k) candidate else AList.delete k candidate)"

definition keep_destination :: "config \<Rightarrow> config \<Rightarrow> string \<Rightarrow> config" where
  "keep_destination current candidate k =
     (if \<not> has_key candidate k \<and> has_key current k then AList.update k (dget current k) candidate
      else candidate)"

definition preserve_trigger_authority :: "config \<Rightarrow> config \<Rightarrow> config" where
  "preserve_trigger_authority current candidate =
     (let candidate = strip_runtime candidate;
          candidate = foldl (carry_over current) candidate (filter runtime_config_key (map fst current));
          candidate = foldl (carry_over current) candidate AUTHORITY_KEYS;
          candidate = foldl (keep_destination current) candidate [''delivery'', ''source_session_id''] in
      if eq_str (dget candidate ''delivery'') ''new_invocation''
      then AList.delete ''source_session_id'' candidate else candidate)"

definition without_private_authority :: "config \<Rightarrow> (string, config) res" where
  "without_private_authority d =
     (let cleaned = without_keys PRIVATE_AUTHORITY_CONFIG_KEYS d in
      bind_res (dict_of (dget cleaned ''metadata'')) (\<lambda>m.
        let m = without_keys PRIVATE_AUTHORITY_METADATA_KEYS m in
        Inr (if m = [] then AList.delete ''metadata'' cleaned else AList.update ''metadata'' (PDict m) cleaned)))"

definition revoke :: "string \<Rightarrow> config \<Rightarrow> (string, config) res" where
  "revoke reason d =
     bind_res (trigger_authority_generation d) (\<lambda>g.
       Inr (AList.update ''authority_revoked_reason'' (PStr reason)
         (AList.update ''_authority_generation'' (PInt (g + 1))
           (AList.update ''authority_state'' (PStr ''quarantined'') d))))"

text \<open>Quarantine of the triggers of a previous owner; the ids of the changed rows.\<close>

definition transfer_one :: "uuid \<Rightarrow> string \<Rightarrow> trigger_row \<Rightarrow> (string, trigger_row \<times> bool) res" where
  "transfer_one previous_owner reason t =
     (if trigger_owner_user_id t \<noteq> Some previous_owner \<or> stated_authority (tg_config t) = ''quarantined''
      then Inr (t, False)
      else bind_res (revoke reason (tg_config t)) (\<lambda>d. Inr (t\<lparr>tg_config := d, tg_enabled := False\<rparr>, True)))"

definition step_rows :: "(trigger_row \<Rightarrow> (string, trigger_row \<times> bool) res) \<Rightarrow> trigger_row list \<Rightarrow>
    (string, trigger_row list \<times> uuid list) res" where
  "step_rows f rows =
     fold_res (\<lambda>(done_rows, changed) t. bind_res (f t) (\<lambda>(t', c).
       Inr (done_rows @ [t'], if c then changed @ [tg_id t] else changed))) ([], []) rows"

definition quarantine_transferred_trigger_authority ::
  "uuid option \<Rightarrow> string \<Rightarrow> trigger_row list \<Rightarrow> (string, trigger_row list \<times> uuid list) res" where
  "quarantine_transferred_trigger_authority previous_owner reason rows =
     (case previous_owner of None \<Rightarrow> Inr (rows, []) | Some u \<Rightarrow> step_rows (transfer_one u reason) rows)"

definition stale_one :: "(string \<times> string) list \<Rightarrow> trigger_row \<Rightarrow> (string, trigger_row \<times> bool) res" where
  "stale_one reasons t =
     (let d = tg_config t;
          known = dget d ''authority_revoked_reason'' in
      bind_res
        (if stated_authority d = ''quarantined'' then Inr d
         else bind_res (trigger_authority_generation d) (\<lambda>g.
           Inr (AList.update ''authority_revoked_reason''
                (if truthy known then known
                 else PStr (or_default (map_of reasons (uuid_str (tg_id t))) ''trigger_authority_stale''))
             (AList.update ''_authority_generation'' (PInt (g + 1))
               (AList.update ''authority_state'' (PStr ''quarantined'') d)))))
        (\<lambda>d. Inr (t\<lparr>tg_config := d, tg_enabled := False\<rparr>, True)))"

definition quarantine_stale_trigger_authority ::
  "uuid list \<Rightarrow> (string \<times> string) list \<Rightarrow> trigger_row list \<Rightarrow> (string, trigger_row list \<times> uuid list) res" where
  "quarantine_stale_trigger_authority ids reasons rows =
     step_rows (\<lambda>t. if tg_id t \<in> set ids then stale_one reasons t else Inr (t, False)) rows"

definition apply_trigger_authority_reclaim ::
  "uuid \<Rightarrow> trigger_row \<Rightarrow> (string, trigger_row \<times> uuid option) res" where
  "apply_trigger_authority_reclaim live_owner t =
     (if trigger_authority_state t \<noteq> ''quarantined'' then Inl ''trigger_authority_not_revoked''
      else
        let previous = trigger_owner_user_id t in
        bind_res (trigger_authority_generation (tg_config t)) (\<lambda>g.
        let d = AList.delete ''authority_revoked_reason''
              (AList.update ''authority_state'' (PStr ''owned'')
                (AList.update ''created_by'' (PStr (uuid_str live_owner))
                  (AList.update ''_authority_generation'' (PInt (g + 1)) (tg_config t))));
            d = (case previous of
                Some p \<Rightarrow> if p \<noteq> live_owner
                  then AList.update ''previous_authority_owner_id'' (PStr (uuid_str p)) d else d
              | None \<Rightarrow> d) in
        bind_res (without_private_authority d) (\<lambda>d.
          Inr (t\<lparr>tg_config := d, tg_reply := None, tg_enabled := False\<rparr>, previous))))"

section \<open>Sources, actions and recovery\<close>

definition owned_session ::
  "session_row list \<Rightarrow> uuid \<Rightarrow> uuid option \<Rightarrow> pyval \<Rightarrow> (http_error, uuid) res" where
  "owned_session sessions agent_id owner raw =
     (case uuid_of_text (py_str raw) of
        None \<Rightarrow> Inl (Http 400 (PStr ''Invalid trigger source session''))
      | Some s \<Rightarrow>
          if (case owner of None \<Rightarrow> False | Some u \<Rightarrow> root_session_owned_by_user sessions (Some s) agent_id u)
          then Inr s
          else Inl (forbidden_error ''Trigger source must belong to its requester on this employee''))"

definition require_trigger_source_scope ::
  "session_row list \<Rightarrow> uuid \<Rightarrow> uuid option \<Rightarrow> config \<Rightarrow> string option \<Rightarrow> (http_error, uuid option) res" where
  "require_trigger_source_scope sessions agent_id owner config root_session =
     (let source = dget config ''source_session_id'' in
      if truthy source \<and> \<not> eq_str (dget config ''delivery'') ''same_session''
      then Inl (Http 400 (PStr ''source_session_id requires delivery=same_session''))
      else fold_res (\<lambda>verified raw. if \<not> truthy raw then Inr verified
          else bind_res (owned_session sessions agent_id owner raw) (\<lambda>s. Inr (Some s)))
        None [source, PStr (opt_text root_session)])"

definition authorize_trigger_action ::
  "policy_world \<Rightarrow> access_db \<Rightarrow> session_row list \<Rightarrow> bool \<Rightarrow> user_row \<Rightarrow> uuid \<Rightarrow> trigger_row \<Rightarrow> string \<Rightarrow>
   (agent_row \<times> string) option \<Rightarrow> bool \<Rightarrow> string option \<Rightarrow>
   (http_error, resource_decision \<times> audit_note list) res" where
  "authorize_trigger_action w db sessions inspection user agent_id t action agent_access operator_view reason =
     authorize_resource_action w db sessions no_artifacts inspection user
       \<lparr>rr_agent = agent_id, rr_kind = ''trigger'', rr_resource = tg_id t, rr_action = action,
        rr_owner = trigger_owner_user_id t, rr_root = trigger_root_session_id t,
        rr_state = Some (trigger_authority_state t), rr_override = operator_view, rr_reason = reason,
        rr_access = agent_access, rr_audit = True, rr_runtime = None\<rparr>"

definition trigger_view :: "trigger_row row_view" where
  "trigger_view = \<lparr>rv_id = tg_id, rv_owner = trigger_owner_user_id, rv_root = trigger_root_session_id,
     rv_state = trigger_authority_state\<rparr>"

definition filter_authorized_triggers ::
  "policy_world \<Rightarrow> access_db \<Rightarrow> session_row list \<Rightarrow> bool \<Rightarrow> user_row \<Rightarrow> (string \<Rightarrow> uuid) \<Rightarrow> uuid \<Rightarrow> bool \<Rightarrow>
   string option \<Rightarrow> (agent_row \<times> string) option \<Rightarrow> trigger_row list \<Rightarrow>
   (http_error, (trigger_row \<times> resource_decision) list \<times> audit_note list) res" where
  "filter_authorized_triggers w db sessions inspection user collection agent_id operator_view reason agent_access rows =
     filter_authorized_resources w db sessions no_artifacts inspection user trigger_view collection agent_id ''trigger'' ''read''
       operator_view reason agent_access rows"

record live_principal =
  lp_user :: "uuid option"
  lp_block :: "string option"

definition caller_may_reclaim_trigger_authority ::
  "access_db \<Rightarrow> user_row \<Rightarrow> agent_row \<Rightarrow> live_principal option \<Rightarrow> bool" where
  "caller_may_reclaim_trigger_authority db caller a live =
     (case live of
        None \<Rightarrow> False
      | Some p \<Rightarrow>
          if opt_text (lp_block p) \<noteq> [] \<or> lp_user p = None then False
          else if \<not> us_active caller then False
          else if Some (us_id caller) = lp_user p then True
          else is_scoped_business_admin db caller (ag_tenant a))"

text \<open>The redacted view of a quarantined trigger that its live owner may recover.\<close>

definition recovered_trigger :: "trigger_row \<Rightarrow> (string, trigger_row) res" where
  "recovered_trigger t =
     bind_res (without_private_authority (tg_config t)) (\<lambda>d. Inr (t\<lparr>tg_config := d, tg_reply := None\<rparr>))"

definition recovery_decision :: "agent_row \<times> string \<Rightarrow> trigger_row \<Rightarrow> resource_decision" where
  "recovery_decision access t =
     \<lparr>rd_agent = fst access, rd_level = snd access, rd_kind = ''trigger'', rd_resource = tg_id t,
      rd_action = ''read'', rd_source = ''trigger_authority_recovery'', rd_operator = False, rd_full = False\<rparr>"

definition append_trigger_authority_recovery ::
  "access_db \<Rightarrow> user_row \<Rightarrow> uuid \<Rightarrow> trigger_row list \<Rightarrow> (trigger_row \<times> resource_decision) list \<Rightarrow>
   (agent_row \<times> string) option \<Rightarrow> live_principal option \<Rightarrow> (string, (trigger_row \<times> resource_decision) list) res" where
  "append_trigger_authority_recovery db user agent_id triggers visible agent_access live =
     (case agent_access of
        None \<Rightarrow> Inr visible
      | Some access \<Rightarrow>
          if \<not> caller_may_reclaim_trigger_authority db user (fst access) live then Inr visible
          else
            let live_owner = (Option.bind live lp_user = Some (us_id user)) in
            fold_res (\<lambda>out t.
                if tg_id t \<in> set (map (\<lambda>(r, _). tg_id r) out) \<or> tg_agent t \<noteq> agent_id
                   \<or> trigger_authority_state t \<noteq> ''quarantined''
                then Inr out
                else bind_res (if live_owner then recovered_trigger t else Inr t) (\<lambda>r.
                  Inr (out @ [(r, recovery_decision access t)])))
              visible triggers)"

section \<open>The authority generation\<close>

text \<open>The calls that touch the authority of the triggers of an agent, and what one does to its rows.\<close>

datatype authority_call =
    TransferOwner "uuid option" string
  | MarkStale "uuid list" "(string \<times> string) list"
  | ReclaimTrigger uuid uuid
  | ReplaceConfig uuid config
  | AddTrigger trigger_row

definition on_row :: "uuid \<Rightarrow> (trigger_row \<Rightarrow> (string, trigger_row) res) \<Rightarrow> trigger_row list \<Rightarrow> (string, trigger_row list) res" where
  "on_row i f rows = bind_res (step_rows (\<lambda>t. if tg_id t = i then bind_res (f t) (\<lambda>t'. Inr (t', True)) else Inr (t, False)) rows)
     (\<lambda>(rows', _). Inr rows')"

fun authority_step :: "authority_call \<Rightarrow> trigger_row list \<Rightarrow> (string, trigger_row list) res" where
  "authority_step (TransferOwner previous reason) rows =
     bind_res (quarantine_transferred_trigger_authority previous reason rows) (\<lambda>(rows', _). Inr rows')"
| "authority_step (MarkStale ids reasons) rows =
     bind_res (quarantine_stale_trigger_authority ids reasons rows) (\<lambda>(rows', _). Inr rows')"
| "authority_step (ReclaimTrigger i owner) rows =
     on_row i (\<lambda>t. bind_res (apply_trigger_authority_reclaim owner t) (\<lambda>(t', _). Inr t')) rows"
| "authority_step (ReplaceConfig i candidate) rows =
     on_row i (\<lambda>t. Inr (t\<lparr>tg_config := preserve_trigger_authority (tg_config t) candidate\<rparr>)) rows"
| "authority_step (AddTrigger t) rows =
     (if tg_id t \<in> set (map tg_id rows) then Inl ''IntegrityError'' else Inr (rows @ [t]))"

definition authority_calls :: "authority_call list \<Rightarrow> trigger_row list \<Rightarrow> trigger_row list" where
  "authority_calls cs rows = foldl (\<lambda>rows c. case authority_step c rows of Inl _ \<Rightarrow> rows | Inr rows' \<Rightarrow> rows') rows cs"

lemma dget_delete [simp]: "dget (AList.delete k d) k' = (if k' = k then PNone else dget d k')"
  by (simp add: dget_def delete_conv)

lemma has_key_delete [simp]: "has_key (AList.delete k d) k' \<longleftrightarrow> k' \<noteq> k \<and> has_key d k'"
  by (simp add: has_key_def delete_conv)

lemma dget_filter: "dget (filter (\<lambda>kv. P (fst kv)) d) k = (if P k then dget d k else PNone)"
  by (induction d) (auto simp: dget_def)

lemma has_key_filter: "has_key (filter (\<lambda>kv. P (fst kv)) d) k \<longleftrightarrow> P k \<and> has_key d k"
  by (induction d) (auto simp: has_key_def)

text \<open>A config keeps its generation: the stored value of the key, or its absence.\<close>

definition generation_entry :: "config \<Rightarrow> pyval option" where
  "generation_entry d = map_of d ''_authority_generation''"

lemma generation_of_entry:
  "trigger_authority_generation d = (case generation_entry d of
      None \<Rightarrow> Inr 0
    | Some (PInt g) \<Rightarrow> if g < 0 then Inl ''trigger_authority_generation_unavailable'' else Inr g
    | Some _ \<Rightarrow> Inl ''trigger_authority_generation_unavailable'')"
  by (simp add: trigger_authority_generation_def get_or_def has_key_def dget_def generation_entry_def
    split: option.split)

lemma generation_update [simp]:
  "k \<noteq> ''_authority_generation'' \<Longrightarrow> generation_entry (AList.update k v d) = generation_entry d"
  "k \<noteq> ''_authority_generation'' \<Longrightarrow> generation_entry (AList.delete k d) = generation_entry d"
  "generation_entry (AList.update ''_authority_generation'' v d) = Some v"
  by (simp_all add: generation_entry_def update_conv delete_conv)

lemma carry_generation:
  "generation_entry (foldl (carry_over current) d ks)
     = (if ''_authority_generation'' \<in> set ks then generation_entry current else generation_entry d)"
proof (induction ks arbitrary: d)
  case (Cons k ks)
  have "generation_entry (carry_over current d k)
      = (if k = ''_authority_generation'' then generation_entry current else generation_entry d)"
    by (auto simp: carry_over_def generation_entry_def update_conv delete_conv has_key_def dget_def split: option.split)
  with Cons show ?case by auto
qed simp

lemma destination_generation:
  "k \<noteq> ''_authority_generation'' \<Longrightarrow> generation_entry (keep_destination current d k) = generation_entry d"
  by (simp add: keep_destination_def)

lemma strip_generation: "generation_entry (strip_runtime d) = None"
proof -
  have "runtime_config_key ''_authority_generation''" by code_simp
  then have "map_of (filter (\<lambda>kv. \<not> runtime_config_key (fst kv)) d) ''_authority_generation'' = None"
    by (induction d) auto
  then show ?thesis by (simp add: generation_entry_def strip_runtime_def)
qed

lemma preserve_generation: "generation_entry (preserve_trigger_authority current candidate) = generation_entry current"
proof -
  have run: "runtime_config_key ''_authority_generation''" by code_simp
  have keys: "''_authority_generation'' \<in> set (map fst current) \<longleftrightarrow> generation_entry current \<noteq> None"
    by (auto simp: generation_entry_def map_of_eq_None_iff)
  have "''_authority_generation'' \<notin> set AUTHORITY_KEYS" by code_simp
  then show ?thesis
    using keys run
    by (auto simp: preserve_trigger_authority_def Let_def destination_generation carry_generation strip_generation)
qed

lemma private_generation:
  assumes "without_private_authority d = Inr d'"
  shows "generation_entry d' = generation_entry d"
proof -
  have "map_of (without_keys ks d) k = (if k \<in> set ks then None else map_of d k)" for ks d k
    unfolding without_keys_def by (induction d) auto
  moreover have "''_authority_generation'' \<notin> set PRIVATE_AUTHORITY_CONFIG_KEYS" by code_simp
  ultimately have "generation_entry (without_keys PRIVATE_AUTHORITY_CONFIG_KEYS d) = generation_entry d"
    by (simp add: generation_entry_def)
  with assms show ?thesis by (auto simp: without_private_authority_def Let_def)
qed

text \<open>How far the generation of a row moves.\<close>

definition generation_after :: "int \<Rightarrow> trigger_row \<Rightarrow> trigger_row \<Rightarrow> bool" where
  "generation_after n t t' \<longleftrightarrow> tg_id t' = tg_id t
     \<and> (\<forall>g. trigger_authority_generation (tg_config t) = Inr g \<longrightarrow>
          (\<exists>g'. trigger_authority_generation (tg_config t') = Inr g' \<and> g + n \<le> g'))"

lemma generation_nonneg: "trigger_authority_generation d = Inr g \<Longrightarrow> 0 \<le> g"
  by (auto simp: generation_of_entry split: option.splits pyval.splits if_splits)

lemma after_same: "generation_entry (tg_config t') = generation_entry (tg_config t) \<Longrightarrow> tg_id t' = tg_id t
    \<Longrightarrow> generation_after 0 t t'"
  by (simp add: generation_after_def generation_of_entry)

lemma after_next:
  "trigger_authority_generation (tg_config t) = Inr g \<Longrightarrow> generation_entry (tg_config t') = Some (PInt (g + 1))
    \<Longrightarrow> tg_id t' = tg_id t \<Longrightarrow> generation_after 1 t t'"
  using generation_nonneg [of "tg_config t" g] by (simp add: generation_after_def generation_of_entry [of "tg_config t'"])

lemma after_weaken: "generation_after 1 t t' \<Longrightarrow> generation_after 0 t t'"
  by (fastforce simp: generation_after_def)

lemma transfer_after:
  assumes "transfer_one u reason t = Inr (t', c)"
  shows "if trigger_owner_user_id t = Some u \<and> stated_authority (tg_config t) \<noteq> ''quarantined''
    then generation_after 1 t t' else generation_after 0 t t'"
  using assms by (auto simp: transfer_one_def revoke_def after_same intro!: after_next split: if_splits)

lemma stale_after:
  assumes "stale_one reasons t = Inr (t', c)"
  shows "if stated_authority (tg_config t) \<noteq> ''quarantined'' then generation_after 1 t t' else generation_after 0 t t'"
  using assms by (auto simp: stale_one_def Let_def after_same intro!: after_next split: if_splits)

lemma reclaim_after:
  assumes "apply_trigger_authority_reclaim owner t = Inr (t', p)"
  shows "generation_after 1 t t'"
  using assms private_generation
  by (auto simp: apply_trigger_authority_reclaim_def Let_def intro!: after_next split: if_splits option.splits)

text \<open>A call changes the rows one by one, in place, and adds rows at the end.\<close>

lemma step_rows_pointwise:
  "step_rows f rows = Inr (rows', changed) \<Longrightarrow> list_all2 (\<lambda>t t'. \<exists>c. f t = Inr (t', c)) rows rows'"
proof -
  have all: "\<exists>new. out = acc @ new \<and> list_all2 (\<lambda>t t'. \<exists>c. f t = Inr (t', c)) rows new"
    if "fold_res (\<lambda>(done_rows, changed) t. bind_res (f t) (\<lambda>(t', c).
       Inr (done_rows @ [t'], if c then changed @ [tg_id t] else changed))) (acc, ch) rows = Inr (out, ch')"
    for acc ch out ch'
    using that
  proof (induction rows arbitrary: acc ch)
    case (Cons t rows)
    then obtain t' c where t: "f t = Inr (t', c)" by (auto split: prod.splits)
    with Cons.prems obtain new where "out = (acc @ [t']) @ new" "list_all2 (\<lambda>t t'. \<exists>c. f t = Inr (t', c)) rows new"
      using Cons.IH [of "acc @ [t']"] by (auto split: if_splits)
    with t show ?case by (intro exI [of _ "t' # new"]) auto
  qed simp
  assume "step_rows f rows = Inr (rows', changed)"
  from all [OF this [unfolded step_rows_def]] show "list_all2 (\<lambda>t t'. \<exists>c. f t = Inr (t', c)) rows rows'" by simp
qed

definition revokes :: "authority_call \<Rightarrow> trigger_row \<Rightarrow> bool" where
  "revokes c t =
     (case c of
        TransferOwner (Some u) _ \<Rightarrow>
          trigger_owner_user_id t = Some u \<and> stated_authority (tg_config t) \<noteq> ''quarantined''
      | MarkStale ids _ \<Rightarrow> tg_id t \<in> set ids \<and> stated_authority (tg_config t) \<noteq> ''quarantined''
      | ReclaimTrigger i _ \<Rightarrow> i = tg_id t
      | _ \<Rightarrow> False)"

definition moved :: "authority_call \<Rightarrow> trigger_row \<Rightarrow> trigger_row \<Rightarrow> bool" where
  "moved c t t' \<longleftrightarrow> generation_after (if revokes c t then 1 else 0) t t'"

lemma same_row: "generation_after 0 t t"
  by (simp add: after_same)

lemma step_moves:
  assumes "authority_step c rows = Inr rows'"
  shows "\<exists>old new. rows' = old @ new \<and> list_all2 (moved c) rows old"
proof (cases c)
  case (TransferOwner previous reason)
  show ?thesis
  proof (cases previous)
    case None
    have "list_all2 (moved c) rows rows" using TransferOwner None
      by (auto simp: moved_def revokes_def same_row intro!: list_all2_refl)
    with assms TransferOwner None show ?thesis by (auto simp: quarantine_transferred_trigger_authority_def)
  next
    case (Some u)
    with assms TransferOwner obtain ch where "step_rows (transfer_one u reason) rows = Inr (rows', ch)"
      by (auto simp: quarantine_transferred_trigger_authority_def)
    then have "list_all2 (moved c) rows rows'" using TransferOwner Some
      by (auto dest!: step_rows_pointwise transfer_after elim!: list_all2_mono simp: moved_def revokes_def split: if_splits)
    then show ?thesis by (metis append_Nil2)
  qed
next
  case (MarkStale ids reasons)
  with assms obtain ch where "step_rows (\<lambda>t. if tg_id t \<in> set ids then stale_one reasons t else Inr (t, False)) rows = Inr (rows', ch)"
    by (auto simp: quarantine_stale_trigger_authority_def)
  then have "list_all2 (moved c) rows rows'" using MarkStale
    by (auto dest!: step_rows_pointwise stale_after elim!: list_all2_mono simp: moved_def revokes_def same_row split: if_splits)
  then show ?thesis by (metis append_Nil2)
next
  case (ReclaimTrigger i owner)
  with assms obtain ch where "step_rows (\<lambda>t. if tg_id t = i then bind_res (bind_res (apply_trigger_authority_reclaim owner t)
      (\<lambda>(t', _). Inr t')) (\<lambda>t'. Inr (t', True)) else Inr (t, False)) rows = Inr (rows', ch)"
    by (auto simp: on_row_def)
  then have "list_all2 (moved c) rows rows'" using ReclaimTrigger
    by (auto dest!: step_rows_pointwise reclaim_after elim!: list_all2_mono simp: moved_def revokes_def same_row split: if_splits)
  then show ?thesis by (metis append_Nil2)
next
  case (ReplaceConfig i candidate)
  with assms obtain ch where "step_rows (\<lambda>t. if tg_id t = i then bind_res
      (Inr (t\<lparr>tg_config := preserve_trigger_authority (tg_config t) candidate\<rparr>)) (\<lambda>t'. Inr (t', True)) else Inr (t, False)) rows
      = Inr (rows', ch)"
    by (auto simp: on_row_def)
  then have "list_all2 (moved c) rows rows'" using ReplaceConfig
    by (auto dest!: step_rows_pointwise elim!: list_all2_mono
      simp: moved_def revokes_def same_row preserve_generation after_same split: if_splits)
  then show ?thesis by (metis append_Nil2)
next
  case (AddTrigger t)
  have "list_all2 (moved c) rows rows" using AddTrigger
    by (auto simp: moved_def revokes_def same_row intro!: list_all2_refl)
  with assms AddTrigger show ?thesis by (auto split: if_splits)
qed

lemma found_moves:
  "list_all2 (moved c) rows old \<Longrightarrow> find (\<lambda>t. tg_id t = i) rows = Some t \<Longrightarrow>
     \<exists>t'. find (\<lambda>t. tg_id t = i) (old @ new) = Some t' \<and> moved c t t'"
proof (induction rows old rule: list_all2_induct)
  case (Cons x xs y ys)
  have "tg_id y = tg_id x" using Cons.hyps(1) by (simp add: moved_def generation_after_def)
  with Cons show ?case by (auto split: if_splits)
qed simp

lemma step_finds:
  assumes "authority_step c rows = Inr rows'" and "find (\<lambda>t. tg_id t = i) rows = Some t"
  shows "\<exists>t'. find (\<lambda>t. tg_id t = i) rows' = Some t' \<and> moved c t t'"
  using step_moves [OF assms(1)] found_moves [OF _ assms(2)] by blast

lemma after_trans: "generation_after m t u \<Longrightarrow> generation_after n u v \<Longrightarrow> generation_after (m + n) t v"
  by (fastforce simp: generation_after_def)

lemma calls_find:
  "find (\<lambda>t. tg_id t = i) rows = Some t \<Longrightarrow>
     \<exists>t'. find (\<lambda>t. tg_id t = i) (authority_calls cs rows) = Some t' \<and> generation_after 0 t t'"
proof (induction cs rule: rev_induct)
  case Nil
  then show ?case by (simp add: authority_calls_def same_row)
next
  case (snoc c cs)
  then obtain u where u: "find (\<lambda>t. tg_id t = i) (authority_calls cs rows) = Some u" "generation_after 0 t u" by blast
  show ?case
  proof (cases "authority_step c (authority_calls cs rows)")
    case (Inl e)
    with u show ?thesis by (simp add: authority_calls_def)
  next
    case (Inr rows')
    from step_finds [OF Inr u(1)] obtain v where v: "find (\<lambda>t. tg_id t = i) rows' = Some v" "generation_after 0 u v"
      using after_weaken by (auto simp: moved_def split: if_splits)
    with after_trans [OF u(2) v(2)] Inr show ?thesis by (simp add: authority_calls_def)
  qed
qed

text \<open>
  Claim C29. A revoked fire stays blocked: if the work that a trigger started was authorized by its
  authority and that authority is then revoked, because the agent changed its owner, because the
  trigger was marked stale or because another owner reclaimed it, no later transfer, mark,
  reclaim, re-enabling, replacement of the config or new trigger makes the work authorized again.
\<close>

theorem revoked_fires_stay_blocked:
  assumes "find (\<lambda>t. tg_id t = i) rows = Some t" and "trigger_fire_authority_block_reason t metadata = None"
    and "revokes c t" and "authority_step c rows = Inr rows'"
  shows "\<exists>t'. find (\<lambda>t. tg_id t = i) (authority_calls cs rows') = Some t'
     \<and> trigger_fire_authority_block_reason t' metadata = Some ''trigger_authority_revoked''"
proof -
  from assms(2) obtain g where g: "expected_generation (tg_id t) metadata = Some (PInt g)" "0 \<le> g"
    "trigger_authority_generation (tg_config t) = Inr g"
    by (auto simp: trigger_fire_authority_block_reason_def split: option.splits sum.splits pyval.splits if_splits)
  from step_finds [OF assms(4,1)] assms(3) obtain u where u: "find (\<lambda>t. tg_id t = i) rows' = Some u"
    "generation_after 1 t u" by (auto simp: moved_def)
  from calls_find [OF u(1)] obtain v where v: "find (\<lambda>t. tg_id t = i) (authority_calls cs rows') = Some v"
    "generation_after 0 u v" by blast
  from after_trans [OF u(2) v(2)] g(3) obtain g' where "trigger_authority_generation (tg_config v) = Inr g'"
    "g + 1 \<le> g'" "tg_id v = tg_id t" by (auto simp: generation_after_def)
  with g v(1) show ?thesis by (simp add: trigger_fire_authority_block_reason_def)
qed

definition nightly_trigger :: trigger_row where
  "nightly_trigger = \<lparr>tg_id = 7, tg_agent = 1, tg_name = ''nightly'', tg_type = ''cron'',
     tg_config = [(''created_by'', PStr (uuid_str 3)), (''authority_state'', PStr ''owned'')], tg_reason = ''report'',
     tg_enabled = True, tg_fires = 0, tg_max_fires = None, tg_cooldown = 60, tg_expires = None, tg_reply = None\<rparr>"

theorem revoked_fires_stay_blocked_witness:
  "\<exists>rows t'. authority_step (TransferOwner (Some 3) ''agent_owner_transferred'') [nightly_trigger] = Inr rows
     \<and> find (\<lambda>t. tg_id t = 7) (authority_calls [ReclaimTrigger 7 3] rows) = Some t'
     \<and> trigger_fire_authority_block_reason t' [] = Some ''trigger_authority_revoked''"
proof -
  let ?c = "TransferOwner (Some 3) ''agent_owner_transferred''"
  obtain rows where rows: "authority_step ?c [nightly_trigger] = Inr rows"
  proof (cases "authority_step ?c [nightly_trigger]")
    case (Inl e)
    have "case authority_step ?c [nightly_trigger] of Inl _ \<Rightarrow> False | Inr _ \<Rightarrow> True" by code_simp
    with Inl show ?thesis by simp
  qed
  have "find (\<lambda>t. tg_id t = 7) [nightly_trigger] = Some nightly_trigger" by (simp add: nightly_trigger_def)
  moreover have "trigger_fire_authority_block_reason nightly_trigger [] = None" "revokes ?c nightly_trigger" by code_simp+
  ultimately show ?thesis using revoked_fires_stay_blocked [OF _ _ _ rows] rows by blast
qed

end
