(* ===== verification/Trigger_Store.thy ===== *)
theory Trigger_Store
  imports Trigger_Authority
begin

text \<open>
  The trigger tools of an agent, \<open>backend/app/services/agent_tool_domains/triggers.py\<close>: setting,
  updating and cancelling a trigger and scheduling or stopping the agent's own next wakeup, with
  the entries of \<open>backend/app/runtime/schedule_decision_ledger.py\<close> they store. The rows are the
  triggers of one agent; a call is one transaction. A result is a reply or a tool error.
\<close>

section \<open>Replies, errors and the world\<close>

record tool_error =
  te_class :: string
  te_message :: string
  te_retryable :: bool

definition trigger_error :: "string \<Rightarrow> string \<Rightarrow> tool_error" where
  "trigger_error error_class message = \<lparr>te_class = error_class, te_message = message, te_retryable = False\<rparr>"

datatype trigger_reply =
    Refused tool_error
  | Created uuid string
  | Reenabled uuid int
  | Updated uuid
  | AlreadyDisabled
  | Cancelled
  | Stopped "uuid list"
  | Scheduled uuid int int "uuid list"

text \<open>
  What a call reads besides its arguments and the rows: the requester and the session of the
  runtime, the confirmed refusal of Plan Mode, the reply target of the channel, the newest message
  of the agent, the users, sessions and permissions of the database, the parsers of cron expressions
  (a package), of ISO times (a \<open>Z\<close> and a missing zone mean UTC) and of URLs, the ids, names and
  tokens that are drawn, and the ledger of \<open>trigger_context_sources.py\<close>, which may raise. The
  widths of the columns are not modelled, and an exception is named by its class.
\<close>

record trigger_world =
  tw_agent :: uuid
  tw_user :: "uuid option"
  tw_session :: "string option"
  tw_declined :: bool
  tw_recommendation :: pyval
  tw_reply :: "config option"
  tw_latest :: "string option"
  tw_types :: string
  tw_cron_ok :: "string \<Rightarrow> bool"
  tw_iso :: "string \<Rightarrow> int option"
  tw_http_url :: "string \<Rightarrow> (string, bool) res"
  tw_now :: int
  tw_token :: string
  tw_new_id :: uuid
  tw_new_name :: string
  tw_limit :: "int option"
  tw_policy :: policy_world
  tw_db :: access_db
  tw_users :: "user_row list"
  tw_sessions :: "session_row list"
  tw_inspection :: bool
  tw_record :: "trigger_row \<Rightarrow> string list \<Rightarrow> (string, unit) res"

text \<open>
  A handler leaves early with an answer or by an exception. \<open>guarded\<close> is its \<open>try\<close>, which turns
  an exception into an answer that may be retried.
\<close>

datatype stop = Raised string | Answer tool_error

definition refuse :: "string \<Rightarrow> string \<Rightarrow> (stop, 'a) res" where
  "refuse error_class message = Inl (Answer (trigger_error error_class message))"

definition raising :: "(string, 'a) res \<Rightarrow> (stop, 'a) res" where
  "raising m = (case m of Inl e \<Rightarrow> Inl (Raised e) | Inr x \<Rightarrow> Inr x)"

definition guarded :: "string \<Rightarrow> (stop, 'a) res \<Rightarrow> (stop, 'a) res" where
  "guarded what m = (case m of
      Inl (Raised e) \<Rightarrow> Inl (Answer ((trigger_error ''operation_failed'' (what @ e))\<lparr>te_retryable := True\<rparr>))
    | other \<Rightarrow> other)"

definition finish :: "trigger_row list \<Rightarrow> (stop, trigger_row list \<times> trigger_reply) res \<Rightarrow>
    (string, trigger_row list \<times> trigger_reply) res" where
  "finish rows m = (case m of
      Inl (Raised e) \<Rightarrow> Inl e
    | Inl (Answer t) \<Rightarrow> Inr (rows, Refused t)
    | Inr result \<Rightarrow> Inr result)"

definition MAX_TRIGGERS_PER_AGENT :: int where "MAX_TRIGGERS_PER_AGENT = 20"
definition SELF_PACE_WAKEUP_MIN_SECONDS :: int where "SELF_PACE_WAKEUP_MIN_SECONDS = 60"
definition SELF_PACE_WAKEUP_MAX_SECONDS :: int where "SELF_PACE_WAKEUP_MAX_SECONDS = 3600"

definition VALID_TRIGGER_TYPES :: "string list" where
  "VALID_TRIGGER_TYPES = [''cron'', ''once'', ''interval'', ''poll'', ''on_message'', ''webhook'']"

definition VALID_TRIGGER_CLASSES :: "string list" where
  "VALID_TRIGGER_CLASSES = [''scheduled_job'', ''event_wait'', ''system_maintenance'']"

definition VALID_DELIVERY_MODES :: "string list" where
  "VALID_DELIVERY_MODES = [''new_invocation'', ''same_session'']"

definition EVENT_WAIT_TRIGGER_TYPES :: "string list" where
  "EVENT_WAIT_TRIGGER_TYPES = [''poll'', ''on_message'', ''webhook'']"

definition SCHEDULED_TRIGGER_TYPES :: "string list" where
  "SCHEDULED_TRIGGER_TYPES = [''cron'', ''once'', ''interval'']"

definition trigger_bucket :: "string \<Rightarrow> string" where
  "trigger_bucket trigger_type =
     (if trigger_type \<in> set EVENT_WAIT_TRIGGER_TYPES then ''event_driven''
      else if trigger_type = ''once'' then ''once'' else ''cron'')"

section \<open>The plan that a call proves\<close>

definition plan_evidence :: "config \<Rightarrow> config" where
  "plan_evidence args = (case as_dict (dget args ''_plan_authorization'') of None \<Rightarrow> [] | Some ev \<Rightarrow> ev)"

text \<open>An optional value as text: \<open>None\<close> stays, anything else is rendered.\<close>

definition given_text :: "pyval \<Rightarrow> string option" where
  "given_text v = (if v = PNone then None else Some (py_str v))"

definition present_text :: "pyval \<Rightarrow> string option" where
  "present_text v = (if truthy v then Some (py_str v) else None)"

text \<open>The provenance of the plan, stamped on the config. A version that is no integer raises.\<close>

definition stamp_plan :: "config \<Rightarrow> config \<Rightarrow> (string, config) res" where
  "stamp_plan args config =
     (let ev = plan_evidence args;
          plan_id = py_or (dget ev ''plan_id'') (dget args ''confirmed_plan_id'');
          version = (if dget ev ''plan_version'' \<noteq> PNone then dget ev ''plan_version''
            else dget args ''confirmed_plan_version'');
          plan_hash = dget ev ''plan_hash'' in
      if plan_id = PNone \<or> version = PNone \<or> plan_hash = PNone then Inr config
      else bind_res (py_int version) (\<lambda>v.
        Inr (stamp_confirmed_plan_provenance (Some config) (given_text plan_id) (Some v) (given_text plan_hash)
          (present_text (dget ev ''lease_id'')) (present_text (dget ev ''canonical_args_hash''))
          (present_text (dget ev ''target_ref'')) (present_text (dget ev ''requester_user_id''))
          (given_text (dget ev ''session_id'')) (given_text (dget ev ''runtime_task_id''))
          (given_text (dget ev ''evidence_id'')))))"

definition stamp_user_declined :: "trigger_world \<Rightarrow> config \<Rightarrow> (string, config) res" where
  "stamp_user_declined w config =
     (if \<not> tw_declined w then Inr config
      else bind_res (stamp_user_declined_plan_exemption (Some config)) (\<lambda>d.
        if \<not> truthy (tw_recommendation w) then Inr d
        else bind_res (dict_of (dget d ''metadata'')) (\<lambda>m.
          Inr (AList.update ''metadata''
            (PDict (AList.update ''plan_recommendation_id'' (PStr (py_str (tw_recommendation w))) m)) d))))"

section \<open>Decision entries\<close>

definition entry_text :: "string \<Rightarrow> string \<Rightarrow> pyval" where
  "entry_text s fallback = PStr (if py_strip s = [] then fallback else py_strip s)"

definition agent_cycle_decision_entry ::
  "string \<Rightarrow> string \<Rightarrow> string \<Rightarrow> string \<Rightarrow> string \<Rightarrow> string \<Rightarrow> string \<Rightarrow> bool \<Rightarrow> string \<Rightarrow> string \<Rightarrow> config \<Rightarrow> config" where
  "agent_cycle_decision_entry subsystem trigger judge decision outcome next_action model_interaction user_visible
       permission_result budget_result details =
     [(''schema'', PStr ''hive.ccplus.agent_cycle_decision.v1''),
      (''subsystem'', entry_text subsystem ''unknown''), (''trigger'', entry_text trigger ''unknown''),
      (''judge'', entry_text judge ''unknown''), (''decision'', entry_text decision ''unknown''),
      (''outcome'', entry_text outcome ''unknown''), (''next_action'', entry_text next_action ''none''),
      (''model_interaction'', entry_text model_interaction ''none''), (''user_visible'', PBool user_visible),
      (''permission_result'', entry_text permission_result ''not_applicable''),
      (''budget_result'', entry_text budget_result ''not_applicable''), (''details'', PDict details)]"

definition none_if_empty :: "string option \<Rightarrow> pyval" where
  "none_if_empty x = (if opt_text x = [] then PNone else PStr (opt_text x))"

definition build_schedule_decision_entry ::
  "string \<Rightarrow> string \<Rightarrow> config \<Rightarrow> config \<Rightarrow> string option \<Rightarrow> string option \<Rightarrow> string option \<Rightarrow> config" where
  "build_schedule_decision_entry command_origin shape plan_gate confirmed_plan trigger_id next_fire runtime_task_id =
     (let gate_result = dget plan_gate ''result'';
          blocks = ((eq_str gate_result ''denied'' \<or> eq_str gate_result ''requires_confirmation'') \<and> confirmed_plan = []);
          decision = (if blocks then ''block'' else if opt_text trigger_id \<noteq> [] then ''enable_trigger'' else ''prepare_schedule'');
          outcome = (if blocks then py_str (py_or gate_result (PStr ''requires_confirmation''))
            else if opt_text next_fire \<noteq> [] then ''scheduled'' else ''pending'');
          permission = py_str (py_or gate_result
            (PStr (if confirmed_plan \<noteq> [] then ''confirmed_plan'' else ''not_applicable''))) in
      [(''schema'', PStr ''hive.ccplus.schedule_decision.v1''), (''command_origin'', PStr command_origin),
       (''natural_vs_structured'', PStr (if shape = [] then ''unknown'' else shape)),
       (''plan_gate_decision'', PDict plan_gate), (''confirmed_plan_ref'', PDict confirmed_plan),
       (''trigger_id'', none_if_empty trigger_id), (''next_fire'', none_if_empty next_fire),
       (''runtime_task_id'', none_if_empty runtime_task_id),
       (''agent_cycle_decision_entry'', PDict (agent_cycle_decision_entry ''schedule''
         (if command_origin = [] then ''schedule_command'' else command_origin)
         ''schedule_decision_ledger.build_schedule_decision_entry'' decision outcome
         (if opt_text next_fire \<noteq> [] then ''wait_for_trigger_fire'' else ''await_confirmation_or_configuration'')
         (if opt_text trigger_id \<noteq> [] then ''runtime_wake'' else ''none'') True permission ''not_applicable''
         [(''natural_vs_structured'', PStr (if shape = [] then ''unknown'' else shape)),
          (''trigger_id'', none_if_empty trigger_id)]))])"

definition confirmed_plan_ref_from_args :: "config \<Rightarrow> config" where
  "confirmed_plan_ref_from_args args =
     (let ev = plan_evidence args;
          plan_id = py_or (dget ev ''plan_id'') (dget args ''confirmed_plan_id'') in
      if \<not> truthy plan_id then []
      else [(''plan_id'', PStr (py_str plan_id)),
        (''plan_version'', if dget ev ''plan_version'' \<noteq> PNone then dget ev ''plan_version''
           else dget args ''confirmed_plan_version''),
        (''plan_hash'', dget ev ''plan_hash'')])"

definition trigger_next_fire_hint :: "string \<Rightarrow> config \<Rightarrow> string option" where
  "trigger_next_fire_hint trigger_type config =
     (let hint = py_str (py_or (dget config ''at'') (PStr [])) in
      if trigger_type = ''once'' \<and> hint \<noteq> [] then Some hint else None)"

definition set_trigger_schedule_decision_entry :: "config \<Rightarrow> uuid \<Rightarrow> string \<Rightarrow> config" where
  "set_trigger_schedule_decision_entry args trigger_id trigger_type =
     build_schedule_decision_entry ''set_trigger'' ''structured''
       [(''allowed'', PBool True), (''reason'', PStr ''tool_confirmed_or_exempt'')]
       (confirmed_plan_ref_from_args args) (Some (uuid_str trigger_id))
       (trigger_next_fire_hint trigger_type (case as_dict (dget args ''config'') of None \<Rightarrow> [] | Some c \<Rightarrow> c)) None"

section \<open>Validation\<close>

definition quoted :: "string \<Rightarrow> string" where
  "quoted s = [CHR 0x27] @ s @ [CHR 0x27]"

text \<open>\<open>str(config.get(key, "")).strip()\<close> and \<open>arguments.get(key, "").strip()\<close>.\<close>

definition field_text :: "config \<Rightarrow> string \<Rightarrow> string" where
  "field_text d k = (if has_key d k then py_strip (py_str (dget d k)) else [])"

definition argument_text :: "config \<Rightarrow> string \<Rightarrow> (stop, string) res" where
  "argument_text args k =
     (if \<not> has_key args k then Inr []
      else case dget args k of PStr s \<Rightarrow> Inr (py_strip s) | _ \<Rightarrow> Inl (Raised ''AttributeError''))"

definition validate_interval :: "config \<Rightarrow> (stop, config) res" where
  "validate_interval d =
     (let d = (if \<not> has_key d ''minutes'' \<and> has_key d ''interval''
            then AList.update ''minutes'' (dget d ''interval'') d else d) in
      case py_int (dget d ''minutes'') of
        Inl e \<Rightarrow> if e = ''OverflowError'' then Inl (Raised e)
          else refuse ''bad_arguments'' ''interval trigger requires config.minutes to be a positive integer.''
      | Inr m \<Rightarrow> if m \<le> 0
          then refuse ''bad_arguments'' ''interval trigger requires config.minutes to be a positive integer.''
          else Inr d)"

definition validate_on_message :: "config \<Rightarrow> (stop, config) res" where
  "validate_on_message d =
     (if truthy (dget d ''reply_to_current_sender'') then Inr d
      else
        let from_agent_id = field_text d ''from_agent_id'' in
        if from_agent_id \<noteq> [] \<and> uuid_of_text from_agent_id = None
        then refuse ''bad_arguments'' (''Invalid from_agent_id: '' @ quoted from_agent_id)
        else if \<not> truthy (dget d ''from_agent_name'') \<and> from_agent_id = []
          \<and> \<not> truthy (dget d ''from_user_name'') \<and> field_text d ''from_user_identity'' = []
        then refuse ''bad_arguments''
          (''on_message trigger requires config.reply_to_current_sender, config.from_agent_id/config.from_agent_name, ''
           @ ''or config.from_user_identity/config.from_user_name.'')
        else Inr d)"

text \<open>The config is checked in place: for an interval the validation completes it.\<close>

definition validate_trigger_config :: "trigger_world \<Rightarrow> string \<Rightarrow> pyval \<Rightarrow> (stop, config) res" where
  "validate_trigger_config w trigger_type config =
     (case as_dict config of
        None \<Rightarrow> refuse ''bad_arguments'' ''Trigger config must be a JSON object.''
      | Some d \<Rightarrow>
          if trigger_type = ''cron'' then
            (if field_text d ''expr'' = [] then refuse ''bad_arguments'' ''cron trigger requires config.expr.''
             else if \<not> tw_cron_ok w (field_text d ''expr'')
             then refuse ''bad_arguments'' (''Invalid cron expression: '' @ quoted (field_text d ''expr''))
             else Inr d)
          else if trigger_type = ''once'' then
            (if field_text d ''at'' = [] then refuse ''bad_arguments'' ''once trigger requires config.at.''
             else if tw_iso w (field_text d ''at'') = None
             then refuse ''bad_arguments'' (''Invalid once trigger timestamp: '' @ quoted (field_text d ''at''))
             else Inr d)
          else if trigger_type = ''interval'' then validate_interval d
          else if trigger_type = ''poll'' then
            (if field_text d ''url'' = [] then refuse ''bad_arguments'' ''poll trigger requires config.url.''
             else bind_res (raising (tw_http_url w (field_text d ''url''))) (\<lambda>ok.
               if ok then Inr d
               else refuse ''bad_arguments'' (''Invalid poll trigger URL: '' @ quoted (field_text d ''url''))))
          else if trigger_type = ''on_message'' then validate_on_message d
          else Inr d)"

definition resolve_trigger_class :: "config \<Rightarrow> config \<Rightarrow> string \<Rightarrow> (stop, config) res" where
  "resolve_trigger_class args config trigger_type =
     (let raw = py_or (dget args ''trigger_class'') (py_or (dget config ''trigger_class'')
            (py_or (dget config ''trigger_kind'') (dget config ''kind'')));
          stated = clean_text raw;
          cls = (if stated \<noteq> [] then stated
            else if trigger_type \<in> set EVENT_WAIT_TRIGGER_TYPES then ''event_wait''
            else if trigger_type \<in> set SCHEDULED_TRIGGER_TYPES then ''scheduled_job'' else []) in
      if cls = [] then Inr config
      else if cls \<notin> set VALID_TRIGGER_CLASSES
      then refuse ''bad_arguments'' (''Invalid trigger_class '' @ quoted cls
        @ ''. Valid values: event_wait, scheduled_job, system_maintenance.'')
      else Inr (AList.update ''trigger_class'' (PStr cls) config))"

definition coerce_int :: "pyval \<Rightarrow> (stop, int option) res" where
  "coerce_int v =
     (if v = PNone \<or> eq_str v [] then Inr None
      else case py_int v of
        Inl e \<Rightarrow> if e = ''OverflowError'' then Inl (Raised e) else Inr None
      | Inr n \<Rightarrow> Inr (if 0 < n then Some n else None))"

definition parse_expires_at :: "trigger_world \<Rightarrow> pyval \<Rightarrow> (stop, int option) res" where
  "parse_expires_at w v =
     (if v = PNone \<or> eq_str v [] then Inr None
      else case tw_iso w (py_str v) of None \<Rightarrow> Inl (Raised ''ValueError'') | Some t \<Rightarrow> Inr (Some t))"

text \<open>\<open>arguments.get(k) or config.get(k)\<close>.\<close>

definition either :: "config \<Rightarrow> config \<Rightarrow> string \<Rightarrow> pyval" where
  "either args config k = py_or (dget args k) (dget config k)"

definition validate_trigger_lifecycle_policy :: "config \<Rightarrow> config \<Rightarrow> (stop, unit) res" where
  "validate_trigger_lifecycle_policy config args =
     (if clean_text (py_or (dget config ''trigger_class'') (dget args ''trigger_class'')) \<noteq> ''event_wait''
      then Inr ()
      else bind_res (coerce_int (either args config ''max_fires'')) (\<lambda>max_fires.
        case max_fires of
          Some n \<Rightarrow> Inr ()
        | None \<Rightarrow> if truthy (either args config ''expires_at'') then Inr ()
            else refuse ''bad_arguments''
              ''event_wait trigger requires max_fires or expires_at to prevent indefinite waiting.''))"

definition apply_trigger_delivery :: "config \<Rightarrow> config \<Rightarrow> (stop, config) res" where
  "apply_trigger_delivery config args =
     (let raw = (if dget args ''delivery'' = PNone then dget config ''delivery'' else dget args ''delivery'');
          delivery = clean_text raw;
          source = clean_text (either config args ''source_session_id'') in
      if delivery = [] then Inr config
      else if delivery \<notin> set VALID_DELIVERY_MODES
      then refuse ''bad_arguments'' (''Invalid delivery '' @ quoted delivery
        @ ''. Valid values: new_invocation, same_session.'')
      else if delivery = ''new_invocation''
      then Inr (AList.delete ''source_session_id'' (AList.update ''delivery'' (PStr ''new_invocation'') config))
      else if source = []
      then refuse ''not_configured'' ''delivery=same_session requires an active chat session to deliver into.''
      else Inr (AList.update ''source_session_id'' (PStr source)
        (AList.update ''delivery'' (PStr ''same_session'') config)))"

section \<open>Setting a trigger\<close>

definition find_named :: "uuid \<Rightarrow> string \<Rightarrow> trigger_row list \<Rightarrow> trigger_row option" where
  "find_named agent name rows = find (\<lambda>t. tg_agent t = agent \<and> tg_name t = name) rows"

definition replace_trigger :: "trigger_row \<Rightarrow> trigger_row list \<Rightarrow> trigger_row list" where
  "replace_trigger t rows = map (\<lambda>r. if tg_id r = tg_id t then t else r) rows"

text \<open>An insertion keeps the primary key and the unique name of a trigger of an agent.\<close>

definition insert_trigger :: "trigger_row \<Rightarrow> trigger_row list \<Rightarrow> (stop, trigger_row list) res" where
  "insert_trigger t rows =
     (if list_ex (\<lambda>r. tg_id r = tg_id t \<or> tg_agent r = tg_agent t \<and> tg_name r = tg_name t) rows
      then Inl (Raised ''IntegrityError'') else Inr (rows @ [t]))"

definition load_trigger_requester :: "trigger_world \<Rightarrow> user_row option" where
  "load_trigger_requester w =
     Option.bind (tw_user w) (\<lambda>u. find (\<lambda>r. us_id r = u \<and> us_active r) (tw_users w))"

definition target_agent :: "trigger_world \<Rightarrow> agent_row option" where
  "target_agent w = find (\<lambda>a. ag_id a = tw_agent w) (ad_agents (tw_db w))"

text \<open>\<open>authorize_trigger_action\<close> of the requester, refused with the given message.\<close>

definition may_act ::
  "trigger_world \<Rightarrow> user_row \<Rightarrow> trigger_row \<Rightarrow> string \<Rightarrow> (agent_row \<times> string) option \<Rightarrow> string \<Rightarrow> (stop, unit) res" where
  "may_act w user t action access message =
     (case authorize_trigger_action (tw_policy w) (tw_db w) (tw_sessions w) (tw_inspection w) user (tw_agent w) t
        action access False None of
        Inl _ \<Rightarrow> refuse ''auth_or_permission'' message
      | Inr _ \<Rightarrow> Inr ())"

definition source_scope :: "trigger_world \<Rightarrow> uuid option \<Rightarrow> config \<Rightarrow> (stop, unit) res" where
  "source_scope w owner config =
     (case require_trigger_source_scope (tw_sessions w) (tw_agent w) owner config None of
        Inl (Http status detail) \<Rightarrow>
          refuse (if status = 403 then ''auth_or_permission'' else ''bad_arguments'') (py_str detail)
      | Inr _ \<Rightarrow> Inr ())"

definition OWNERSHIP_UNRESOLVED :: string where
  "OWNERSHIP_UNRESOLVED = ''Trigger ownership could not be resolved for this runtime requester.''"

text \<open>The part of \<open>_handle_set_trigger\<close> before its transaction: the config that is to be stored.\<close>

definition trusted_delivery :: "trigger_world \<Rightarrow> config \<Rightarrow> config \<Rightarrow> (stop, config) res" where
  "trusted_delivery w args config =
     (if clean_text (either args config ''delivery'') \<noteq> ''same_session'' then Inr config
      else if py_strip (opt_text (tw_session w)) = []
      then refuse ''not_configured'' ''delivery=same_session requires an active chat session supplied by the runtime.''
      else Inr (AList.update ''source_session_id'' (PStr (py_strip (opt_text (tw_session w)))) config))"

definition complete_config :: "trigger_world \<Rightarrow> string \<Rightarrow> config \<Rightarrow> config" where
  "complete_config w trigger_type config =
     (if trigger_type = ''on_message'' then
        (let config = (if truthy (dget config ''reply_to_current_sender'')
             then without_keys [''from_user_name'', ''from_user_identity'', ''from_agent_name'', ''from_agent_id''] config
             else config) in
         case tw_latest w of None \<Rightarrow> config | Some ts \<Rightarrow> AList.update ''_since_ts'' (PStr ts) config)
      else if trigger_type = ''webhook'' then AList.update ''token'' (PStr (tw_token w)) config
      else config)"

record trigger_draft =
  td_name :: string
  td_type :: string
  td_reason :: string
  td_config :: config

definition prepare_trigger :: "trigger_world \<Rightarrow> config \<Rightarrow> (stop, trigger_draft) res" where
  "prepare_trigger w args =
     (if tw_user w = None then refuse ''auth_or_permission'' OWNERSHIP_UNRESOLVED
      else
        bind_res (argument_text args ''name'') (\<lambda>name.
        bind_res (argument_text args ''type'') (\<lambda>ttype.
        bind_res (raising (strip_trigger_untrusted_config (dget args ''config''))) (\<lambda>config.
        bind_res (argument_text args ''reason'') (\<lambda>reason.
        if name = [] then refuse ''bad_arguments'' (''Missing required argument '' @ quoted ''name'' @ ''.'')
        else if ttype \<notin> set VALID_TRIGGER_TYPES
        then refuse ''bad_arguments'' (''Invalid trigger type '' @ quoted ttype @ ''. Valid types: '' @ tw_types w)
        else if reason = [] then refuse ''bad_arguments'' (''Missing required argument '' @ quoted ''reason'' @ ''.'')
        else
          bind_res (validate_trigger_config w ttype (PDict config)) (\<lambda>config.
          bind_res (resolve_trigger_class args config ttype) (\<lambda>config.
          bind_res (validate_trigger_lifecycle_policy config args) (\<lambda>_.
          bind_res (trusted_delivery w args config) (\<lambda>config.
          bind_res (apply_trigger_delivery config args) (\<lambda>config.
          bind_res (raising (stamp_plan args (complete_config w ttype config))) (\<lambda>config.
          bind_res (raising (stamp_user_declined w config)) (\<lambda>config.
          Inr \<lparr>td_name = name, td_type = ttype, td_reason = reason,
            td_config = stamp_trigger_authority config (tw_user w) (tw_session w)\<rparr>))))))))))))"

definition trigger_limit :: "trigger_world \<Rightarrow> int" where
  "trigger_limit w = (case tw_limit w of None \<Rightarrow> MAX_TRIGGERS_PER_AGENT
     | Some n \<Rightarrow> if n = 0 then MAX_TRIGGERS_PER_AGENT else n)"

definition enabled_count :: "uuid \<Rightarrow> trigger_row list \<Rightarrow> int" where
  "enabled_count agent rows = int (length (filter (\<lambda>t. tg_agent t = agent \<and> tg_enabled t) rows))"

definition needs_reply :: "trigger_draft \<Rightarrow> trigger_world \<Rightarrow> (stop, unit) res" where
  "needs_reply d w =
     (if td_type d = ''on_message'' \<and> truthy (dget (td_config d) ''reply_to_current_sender'') \<and> tw_reply w = None
      then refuse ''not_configured''
        ''reply_to_current_sender requires a live channel conversation with a persisted reply target.''
      else Inr ())"

definition with_decision :: "config \<Rightarrow> uuid \<Rightarrow> trigger_draft \<Rightarrow> config" where
  "with_decision args i d =
     AList.update ''schedule_decision_entry'' (PDict (set_trigger_schedule_decision_entry args i (td_type d)))
       (td_config d)"

definition new_expiry :: "trigger_world \<Rightarrow> config \<Rightarrow> trigger_draft \<Rightarrow> int option \<Rightarrow> (stop, int option) res" where
  "new_expiry w args d old =
     (let v = either args (td_config d) ''expires_at'' in if truthy v then parse_expires_at w v else Inr old)"

text \<open>An existing name: a disabled trigger the requester may write is enabled with the new config.\<close>

definition reenabled_row :: "trigger_world \<Rightarrow> config \<Rightarrow> trigger_draft \<Rightarrow> trigger_row \<Rightarrow> (stop, trigger_row) res" where
  "reenabled_row w args d t =
     bind_res (coerce_int (either args (td_config d) ''max_fires'')) (\<lambda>max_fires.
     bind_res (new_expiry w args d (tg_expires t)) (\<lambda>expires.
     bind_res
       (if dget args ''cooldown_seconds'' = PNone \<and> dget (td_config d) ''cooldown_seconds'' = PNone then Inr None
        else coerce_int (either args (td_config d) ''cooldown_seconds'')) (\<lambda>cooldown.
     Inr (t\<lparr>tg_type := td_type d,
       tg_config := preserve_trigger_authority (tg_config t) (with_decision args (tg_id t) d),
       tg_reason := td_reason d, tg_enabled := True, tg_max_fires := max_fires, tg_expires := expires,
       tg_cooldown := (case cooldown of None \<Rightarrow> tg_cooldown t | Some c \<Rightarrow> c), tg_reply := tw_reply w\<rparr>))))"

definition reenable_trigger ::
  "trigger_world \<Rightarrow> config \<Rightarrow> trigger_draft \<Rightarrow> trigger_row list \<Rightarrow> trigger_row \<Rightarrow>
   (stop, trigger_row list \<times> trigger_reply) res" where
  "reenable_trigger w args d rows t =
     (case load_trigger_requester w of
        None \<Rightarrow> refuse ''auth_or_permission'' OWNERSHIP_UNRESOLVED
      | Some user \<Rightarrow>
          (case target_agent w of
             None \<Rightarrow> Inl (Raised ''AttributeError'')
           | Some a \<Rightarrow>
               bind_res (may_act w user t ''write'' (Some (a, ''use''))
                 ''A trigger with this name exists outside the requester authority.'') (\<lambda>_.
               if tg_enabled t
               then refuse ''bad_arguments'' (''Trigger '' @ quoted (td_name d)
                 @ '' already exists and is active. Use update_trigger to modify it, or cancel_trigger first.'')
               else
                 bind_res (needs_reply d w) (\<lambda>_.
                 bind_res (reenabled_row w args d t) (\<lambda>t'.
                 bind_res (raising (tw_record w t' [''type'', ''config'', ''reason''])) (\<lambda>_.
                 Inr (replace_trigger t' rows, Reenabled (tg_id t) (tg_fires t))))))))"

definition new_trigger_row :: "trigger_world \<Rightarrow> config \<Rightarrow> trigger_draft \<Rightarrow> (stop, trigger_row) res" where
  "new_trigger_row w args d =
     bind_res (coerce_int (either args (td_config d) ''max_fires'')) (\<lambda>max_fires.
     bind_res (new_expiry w args d None) (\<lambda>expires.
     bind_res (coerce_int (either args (td_config d) ''cooldown_seconds'')) (\<lambda>cooldown.
     Inr \<lparr>tg_id = tw_new_id w, tg_agent = tw_agent w, tg_name = td_name d, tg_type = td_type d,
       tg_config = with_decision args (tw_new_id w) d, tg_reason = td_reason d, tg_enabled = True, tg_fires = 0,
       tg_max_fires = max_fires, tg_cooldown = (case cooldown of None \<Rightarrow> 60 | Some c \<Rightarrow> c), tg_expires = expires,
       tg_reply = tw_reply w\<rparr>)))"

definition store_trigger ::
  "trigger_world \<Rightarrow> config \<Rightarrow> trigger_draft \<Rightarrow> trigger_row list \<Rightarrow> (stop, trigger_row list \<times> trigger_reply) res" where
  "store_trigger w args d rows =
     bind_res (source_scope w (tw_user w) (td_config d)) (\<lambda>_.
     if trigger_limit w \<le> enabled_count (tw_agent w) rows
     then refuse ''quota_or_billing'' (''Maximum trigger limit reached ('' @ str_of_int (trigger_limit w)
       @ ''). Cancel some triggers first.'')
     else case find_named (tw_agent w) (td_name d) rows of
       Some t \<Rightarrow> reenable_trigger w args d rows t
     | None \<Rightarrow>
         bind_res (needs_reply d w) (\<lambda>_.
         bind_res (new_trigger_row w args d) (\<lambda>t.
         bind_res (insert_trigger t rows) (\<lambda>rows'.
         bind_res (raising (tw_record w t [''name'', ''type'', ''config'', ''reason''])) (\<lambda>_.
         Inr (rows', Created (tg_id t) (td_type d)))))))"

definition handle_set_trigger ::
  "trigger_world \<Rightarrow> config \<Rightarrow> trigger_row list \<Rightarrow> (string, trigger_row list \<times> trigger_reply) res" where
  "handle_set_trigger w args rows =
     finish rows (bind_res (prepare_trigger w args) (\<lambda>d.
       guarded ''Failed to create trigger: '' (store_trigger w args d rows)))"

section \<open>Updating and cancelling\<close>

definition given :: "config \<Rightarrow> string \<Rightarrow> bool" where
  "given args k = (dget args k \<noteq> PNone)"

text \<open>The config a call would store, before the class and the lifecycle are checked.\<close>

definition updated_config :: "trigger_world \<Rightarrow> config \<Rightarrow> trigger_row \<Rightarrow> (stop, config) res" where
  "updated_config w args t =
     bind_res
       (if given args ''config'' then
          bind_res (validate_trigger_config w (tg_type t) (dget args ''config'')) (\<lambda>config.
            raising (strip_trigger_untrusted_config (PDict config)))
        else Inr (tg_config t)) (\<lambda>config.
     bind_res (raising (stamp_plan args
       (if given args ''trigger_class'' then AList.update ''trigger_class'' (dget args ''trigger_class'') config
        else config))) (\<lambda>config.
     bind_res (raising (stamp_user_declined w config)) (\<lambda>config.
     apply_trigger_delivery (preserve_trigger_authority (tg_config t) config) [])))"

definition put_max_fires :: "config \<Rightarrow> trigger_row \<Rightarrow> (stop, trigger_row) res" where
  "put_max_fires args t =
     (if given args ''max_fires''
      then bind_res (coerce_int (dget args ''max_fires'')) (\<lambda>n. Inr (t\<lparr>tg_max_fires := n\<rparr>)) else Inr t)"

definition put_expiry :: "trigger_world \<Rightarrow> config \<Rightarrow> trigger_row \<Rightarrow> (stop, trigger_row) res" where
  "put_expiry w args t =
     (if \<not> given args ''expires_at'' then Inr t
      else if \<not> truthy (dget args ''expires_at'') then Inr (t\<lparr>tg_expires := None\<rparr>)
      else bind_res (parse_expires_at w (dget args ''expires_at'')) (\<lambda>x. Inr (t\<lparr>tg_expires := x\<rparr>)))"

definition put_cooldown :: "config \<Rightarrow> trigger_row \<Rightarrow> (stop, trigger_row) res" where
  "put_cooldown args t =
     (if given args ''cooldown_seconds''
      then bind_res (coerce_int (dget args ''cooldown_seconds'')) (\<lambda>n.
        Inr (case n of None \<Rightarrow> t | Some c \<Rightarrow> t\<lparr>tg_cooldown := c\<rparr>)) else Inr t)"

definition put_reason :: "config \<Rightarrow> trigger_row \<Rightarrow> (stop, trigger_row) res" where
  "put_reason args t =
     (case dget args ''reason'' of
        PNone \<Rightarrow> Inr t
      | PStr r \<Rightarrow> Inr (t\<lparr>tg_reason := r\<rparr>)
      | _ \<Rightarrow> Inl (Raised ''DataError''))"

definition refresh_reply :: "trigger_world \<Rightarrow> trigger_row \<Rightarrow> trigger_row" where
  "refresh_reply w t =
     (case tw_reply w of
        None \<Rightarrow> t
      | Some c \<Rightarrow> if truthy (dget c ''channel'') then t\<lparr>tg_reply := Some c\<rparr> else t)"

definition updated_row :: "trigger_world \<Rightarrow> config \<Rightarrow> config \<Rightarrow> trigger_row \<Rightarrow> (stop, trigger_row) res" where
  "updated_row w args config t =
     bind_res (put_max_fires args
       (if given args ''config'' \<or> given args ''trigger_class'' then t\<lparr>tg_config := config\<rparr> else t)) (\<lambda>t.
     bind_res (put_expiry w args t) (\<lambda>t.
     bind_res (put_cooldown args t) (\<lambda>t.
     bind_res (put_reason args t) (\<lambda>t.
     Inr (refresh_reply w t)))))"

definition update_found ::
  "trigger_world \<Rightarrow> config \<Rightarrow> trigger_row list \<Rightarrow> trigger_row \<Rightarrow> (stop, trigger_row list \<times> trigger_reply) res" where
  "update_found w args rows t =
     (case load_trigger_requester w of
        None \<Rightarrow> refuse ''auth_or_permission'' OWNERSHIP_UNRESOLVED
      | Some user \<Rightarrow>
          bind_res (may_act w user t ''write'' None ''The trigger belongs to a different requester.'') (\<lambda>_.
          bind_res (updated_config w args t) (\<lambda>config.
          bind_res (source_scope w (trigger_owner_user_id t) config) (\<lambda>_.
          bind_res (resolve_trigger_class args config (tg_type t)) (\<lambda>config.
          bind_res (validate_trigger_lifecycle_policy config args) (\<lambda>_.
          bind_res (updated_row w args config t) (\<lambda>t'.
          bind_res (raising (tw_record w t' (filter (given args) [''config'', ''reason'']))) (\<lambda>_.
          Inr (replace_trigger t' rows, Updated (tg_id t))))))))))"

text \<open>The trigger that a call names, for the update and the cancellation.\<close>

definition on_named ::
  "trigger_world \<Rightarrow> string \<Rightarrow> trigger_row list \<Rightarrow> (trigger_row \<Rightarrow> (stop, 'a) res) \<Rightarrow> (stop, 'a) res" where
  "on_named w name rows f =
     (case find_named (tw_agent w) name rows of
        None \<Rightarrow> refuse ''not_found'' (''Trigger '' @ quoted name @ '' not found.'')
      | Some t \<Rightarrow> f t)"

definition named_call ::
  "trigger_world \<Rightarrow> config \<Rightarrow> (string \<Rightarrow> (stop, 'a) res) \<Rightarrow> (stop, 'a) res" where
  "named_call w args f =
     (if tw_user w = None then refuse ''auth_or_permission'' OWNERSHIP_UNRESOLVED
      else bind_res (argument_text args ''name'') (\<lambda>name.
        if name = [] then refuse ''bad_arguments'' (''Missing required argument '' @ quoted ''name'' @ ''.'')
        else f name))"

definition handle_update_trigger ::
  "trigger_world \<Rightarrow> config \<Rightarrow> trigger_row list \<Rightarrow> (string, trigger_row list \<times> trigger_reply) res" where
  "handle_update_trigger w args rows =
     finish rows (named_call w args (\<lambda>name.
       if \<not> list_ex (given args)
         [''config'', ''reason'', ''trigger_class'', ''max_fires'', ''expires_at'', ''cooldown_seconds'']
       then refuse ''bad_arguments'' (''Provide at least one of '' @ py_join '', ''
           (map quoted [''config'', ''reason'', ''trigger_class'', ''max_fires'', ''expires_at''])
         @ '', or '' @ quoted ''cooldown_seconds'' @ '' to update.'')
       else guarded ''Failed to update trigger: '' (on_named w name rows (update_found w args rows))))"

definition cancel_found ::
  "trigger_world \<Rightarrow> trigger_row list \<Rightarrow> trigger_row \<Rightarrow> (stop, trigger_row list \<times> trigger_reply) res" where
  "cancel_found w rows t =
     (case load_trigger_requester w of
        None \<Rightarrow> refuse ''auth_or_permission'' OWNERSHIP_UNRESOLVED
      | Some user \<Rightarrow>
          bind_res (may_act w user t ''delete'' None ''The trigger belongs to a different requester.'') (\<lambda>_.
          if \<not> tg_enabled t then Inr (rows, AlreadyDisabled)
          else Inr (replace_trigger (t\<lparr>tg_enabled := False\<rparr>) rows, Cancelled)))"

definition handle_cancel_trigger ::
  "trigger_world \<Rightarrow> config \<Rightarrow> trigger_row list \<Rightarrow> (string, trigger_row list \<times> trigger_reply) res" where
  "handle_cancel_trigger w args rows =
     finish rows (named_call w args (\<lambda>name.
       guarded ''Failed to cancel trigger: '' (on_named w name rows (cancel_found w rows))))"

section \<open>The agent's own wakeup\<close>

definition pending_wakeup :: "uuid \<Rightarrow> string \<Rightarrow> uuid \<Rightarrow> trigger_row \<Rightarrow> bool" where
  "pending_wakeup agent session user t \<longleftrightarrow>
     tg_agent t = agent \<and> tg_type t = ''once'' \<and> tg_enabled t
     \<and> truthy (dget (tg_config t) ''self_pace'')
     \<and> py_str (py_or (dget (tg_config t) ''source_session_id'') (PStr [])) = session
     \<and> trigger_authority_state t = ''owned'' \<and> trigger_owner_user_id t = Some user"

definition wakeup_delay :: "config \<Rightarrow> (string, int) res" where
  "wakeup_delay args = (case py_int (py_or (dget args ''delay_seconds'') (PInt 0)) of
      Inl e \<Rightarrow> if e = ''OverflowError'' then Inl e else Inr 0
    | Inr n \<Rightarrow> Inr n)"

definition wakeup_row :: "trigger_world \<Rightarrow> uuid \<Rightarrow> string \<Rightarrow> string \<Rightarrow> int \<Rightarrow> trigger_row" where
  "wakeup_row w user session prompt clamped =
     \<lparr>tg_id = tw_new_id w, tg_agent = tw_agent w, tg_name = tw_new_name w, tg_type = ''once'',
      tg_config = stamp_trigger_authority
        [(''at'', PStr (isoformat (tw_now w + clamped * 1000000))), (''trigger_class'', PStr ''scheduled_job''),
         (''delivery'', PStr ''same_session''), (''source_session_id'', PStr session), (''self_pace'', PBool True)]
        (Some user) (Some session),
      tg_reason = prompt, tg_enabled = True, tg_fires = 0, tg_max_fires = None, tg_cooldown = 1,
      tg_expires = None, tg_reply = None\<rparr>"

definition cancel_pending :: "uuid \<Rightarrow> string \<Rightarrow> uuid \<Rightarrow> trigger_row list \<Rightarrow> trigger_row list" where
  "cancel_pending agent session user rows =
     map (\<lambda>t. if pending_wakeup agent session user t then t\<lparr>tg_enabled := False\<rparr> else t) rows"

definition clamped_delay :: "int \<Rightarrow> int" where
  "clamped_delay delay = max SELF_PACE_WAKEUP_MIN_SECONDS (min SELF_PACE_WAKEUP_MAX_SECONDS delay)"

definition replace_wakeup ::
  "trigger_world \<Rightarrow> config \<Rightarrow> uuid \<Rightarrow> string \<Rightarrow> trigger_row list \<Rightarrow> (stop, trigger_row list \<times> trigger_reply) res" where
  "replace_wakeup w args user session rows =
     (let cancelled = map tg_id (filter (pending_wakeup (tw_agent w) session user) rows);
          rows = cancel_pending (tw_agent w) session user rows in
      if truthy (dget args ''stop'') then Inr (rows, Stopped cancelled)
      else bind_res (raising (wakeup_delay args)) (\<lambda>delay.
        let t = wakeup_row w user session (clean_text (dget args ''prompt'')) (clamped_delay delay) in
        bind_res (insert_trigger t rows) (\<lambda>rows'.
        bind_res (raising (tw_record w t [''name'', ''type'', ''config'', ''reason''])) (\<lambda>_.
        Inr (rows', Scheduled (tg_id t) (clamped_delay delay) delay cancelled)))))"

definition wakeup_session :: "trigger_world \<Rightarrow> string" where
  "wakeup_session w = py_strip (opt_text (tw_session w))"

definition handle_schedule_wakeup ::
  "trigger_world \<Rightarrow> config \<Rightarrow> trigger_row list \<Rightarrow> (string, trigger_row list \<times> trigger_reply) res" where
  "handle_schedule_wakeup w args rows =
     finish rows
       (case tw_user w of
          None \<Rightarrow> refuse ''auth_or_permission'' ''Wakeup ownership could not be resolved for this runtime requester.''
        | Some user \<Rightarrow>
            if wakeup_session w = []
            then refuse ''bad_arguments'' ''schedule_wakeup requires a live chat session (runtime supplies it).''
            else if \<not> truthy (dget args ''stop'') \<and> clean_text (dget args ''prompt'') = []
            then refuse ''bad_arguments''
              ''schedule_wakeup requires a prompt for the next wakeup (or stop=true to end the loop).''
            else replace_wakeup w args user (wakeup_session w) rows)"

section \<open>A sequence of calls\<close>

datatype trigger_call = SetTrigger config | UpdateTrigger config | CancelTrigger config | ScheduleWakeup config

fun tool_step ::
  "trigger_world \<Rightarrow> trigger_call \<Rightarrow> trigger_row list \<Rightarrow> (string, trigger_row list \<times> trigger_reply) res" where
  "tool_step w (SetTrigger args) rows = handle_set_trigger w args rows"
| "tool_step w (UpdateTrigger args) rows = handle_update_trigger w args rows"
| "tool_step w (CancelTrigger args) rows = handle_cancel_trigger w args rows"
| "tool_step w (ScheduleWakeup args) rows = handle_schedule_wakeup w args rows"

definition tool_calls :: "(trigger_world \<times> trigger_call) list \<Rightarrow> trigger_row list \<Rightarrow> trigger_row list" where
  "tool_calls cs rows =
     foldl (\<lambda>rows (w, c). case tool_step w c rows of Inl _ \<Rightarrow> rows | Inr (rows', _) \<Rightarrow> rows') rows cs"

subsection \<open>Leaving early\<close>

lemma refuse_Inr [simp]: "refuse c m \<noteq> Inr x"
  by (simp add: refuse_def)

lemma raising_Inr [simp]: "raising m = Inr x \<longleftrightarrow> m = Inr x"
  by (simp add: raising_def split: sum.splits)

lemma guarded_Inr [simp]: "guarded what m = Inr x \<longleftrightarrow> m = Inr x"
  by (simp add: guarded_def split: sum.splits stop.splits)

lemma finish_cases:
  assumes "finish rows m = Inr (rows', reply)"
  obtains "m = Inr (rows', reply)" | e where "rows' = rows" "reply = Refused e"
  using assms by (auto simp: finish_def split: sum.splits stop.splits)

lemma may_act_Inr:
  "may_act w user t action access message = Inr u \<Longrightarrow>
     \<exists>d. authorize_trigger_action (tw_policy w) (tw_db w) (tw_sessions w) (tw_inspection w) user (tw_agent w) t
        action access False None = Inr d"
  by (simp add: may_act_def split: sum.splits)

lemma requester_loaded:
  "load_trigger_requester w = Some user \<Longrightarrow> tw_user w = Some (us_id user) \<and> us_active user"
  by (auto simp: load_trigger_requester_def bind_eq_Some_conv find_Some_iff)

lemma find_named_some:
  "find_named agent name rows = Some t \<Longrightarrow> t \<in> set rows \<and> tg_agent t = agent \<and> tg_name t = name"
  by (auto simp: find_named_def find_Some_iff)

subsection \<open>The entries that carry the authority\<close>

definition AUTHORITY_ENTRIES :: "string list" where
  "AUTHORITY_ENTRIES = ''_authority_generation'' # AUTHORITY_KEYS"

definition same_entries :: "config \<Rightarrow> config \<Rightarrow> bool" where
  "same_entries d e = list_all (\<lambda>k. map_of e k = map_of d k) AUTHORITY_ENTRIES"

definition same_authority :: "trigger_row \<Rightarrow> trigger_row \<Rightarrow> bool" where
  "same_authority r t \<longleftrightarrow> tg_id t = tg_id r \<and> tg_agent t = tg_agent r \<and> tg_name t = tg_name r
     \<and> same_entries (tg_config r) (tg_config t)"

lemma entries: "set AUTHORITY_ENTRIES = {''_authority_generation'', ''created_by'', ''root_session_id'', ''authority_state''}"
  by (simp add: AUTHORITY_ENTRIES_def AUTHORITY_KEYS_def)

lemma same_entries_iff: "same_entries d e \<longleftrightarrow> (\<forall>k \<in> set AUTHORITY_ENTRIES. map_of e k = map_of d k)"
  by (simp add: same_entries_def list_all_iff)

lemma same_entriesD:
  assumes "same_entries d e"
  shows "dget e ''created_by'' = dget d ''created_by''" "dget e ''authority_state'' = dget d ''authority_state''"
    "generation_entry e = generation_entry d"
  using assms by (simp_all add: same_entries_def AUTHORITY_ENTRIES_def AUTHORITY_KEYS_def dget_def generation_entry_def)

lemma same_entries_refl [simp]: "same_entries d d"
  by (simp add: same_entries_iff)

lemma same_entries_trans: "same_entries c d \<Longrightarrow> same_entries d e \<Longrightarrow> same_entries c e"
  by (simp add: same_entries_iff)

lemma same_entries_update: "k \<notin> set AUTHORITY_ENTRIES \<Longrightarrow> same_entries d (AList.update k v d)"
  by (auto simp: same_entries_iff update_conv)

lemma same_entries_delete: "k \<notin> set AUTHORITY_ENTRIES \<Longrightarrow> same_entries d (AList.delete k d)"
  by (auto simp: same_entries_iff delete_conv)

lemma same_authority_refl [simp]: "same_authority t t"
  by (simp add: same_authority_def)

lemma same_authority_trans: "same_authority r s \<Longrightarrow> same_authority s t \<Longrightarrow> same_authority r t"
  by (auto simp: same_authority_def intro: same_entries_trans)

lemma carry_entries:
  "map_of (foldl (carry_over current) d ks) k = (if k \<in> set ks then map_of current k else map_of d k)"
proof (induction ks arbitrary: d)
  case (Cons j ks)
  have "map_of (carry_over current d j) k = (if k = j then map_of current k else map_of d k)"
    by (auto simp: carry_over_def update_conv delete_conv has_key_def dget_def split: option.split)
  with Cons show ?case by auto
qed simp

lemma destination_entries: "k \<noteq> j \<Longrightarrow> map_of (keep_destination current d j) k = map_of d k"
  by (simp add: keep_destination_def update_conv)

lemma preserve_entries: "same_entries current (preserve_trigger_authority current candidate)"
proof -
  have "map_of (preserve_trigger_authority current candidate) k = map_of current k" if "k \<in> set AUTHORITY_KEYS" for k
  proof -
    have ne: "k \<noteq> ''delivery''" "k \<noteq> ''source_session_id''" using that by (auto simp: AUTHORITY_KEYS_def)
    have "map_of (foldl (keep_destination current) d [''delivery'', ''source_session_id'']) k = map_of d k" for d
      using ne by (simp add: destination_entries)
    with ne that show ?thesis by (simp add: preserve_trigger_authority_def Let_def carry_entries delete_conv)
  qed
  moreover have "map_of (preserve_trigger_authority current candidate) ''_authority_generation''
      = map_of current ''_authority_generation''"
    using preserve_generation by (simp add: generation_entry_def)
  ultimately show ?thesis by (auto simp: same_entries_iff AUTHORITY_ENTRIES_def)
qed

lemma same_owner:
  assumes "same_authority r t"
  shows "trigger_owner_user_id t = trigger_owner_user_id r"
    and "trigger_authority_state t = trigger_authority_state r"
    and "trigger_authority_generation (tg_config t) = trigger_authority_generation (tg_config r)"
proof -
  have "same_entries (tg_config r) (tg_config t)" using assms by (simp add: same_authority_def)
  note e = same_entriesD [OF this]
  then show owner: "trigger_owner_user_id t = trigger_owner_user_id r"
    by (simp add: trigger_owner_user_id_def cong: option.case_cong)
  from e show "trigger_authority_state t = trigger_authority_state r"
    by (simp add: trigger_authority_state_def stated_authority_def owner)
  from e show "trigger_authority_generation (tg_config t) = trigger_authority_generation (tg_config r)"
    by (simp add: generation_of_entry)
qed

text \<open>A row that a call of the requester created.\<close>

definition created_by_caller :: "trigger_world \<Rightarrow> trigger_row \<Rightarrow> bool" where
  "created_by_caller w t \<longleftrightarrow>
     (case tw_user w of None \<Rightarrow> False | Some u \<Rightarrow> trigger_owner_user_id t = Some u)
     \<and> tg_agent t = tw_agent w \<and> trigger_authority_state t = ''owned''
     \<and> trigger_authority_generation (tg_config t) = Inr 0"

lemma created_same: "same_authority r t \<Longrightarrow> created_by_caller w r \<Longrightarrow> created_by_caller w t"
  using same_owner [of r t] by (auto simp: created_by_caller_def same_authority_def split: option.splits)

lemma stamped_entries:
  "dget (stamp_trigger_authority d (Some u) s) ''created_by'' = PStr (uuid_str u)"
  "dget (stamp_trigger_authority d (Some u) s) ''authority_state'' = PStr ''owned''"
  "generation_entry (stamp_trigger_authority d (Some u) s) = None"
  by (simp_all add: stamp_trigger_authority_def Let_def dget_def generation_entry_def update_conv delete_conv)

declare uuid_text_some [simp]

lemma stamped_created:
  assumes "tw_user w = Some u" and "tg_agent t = tw_agent w"
    and "same_entries (stamp_trigger_authority d (Some u) s) (tg_config t)"
  shows "created_by_caller w t"
proof -
  have c: "dget (tg_config t) ''created_by'' = PStr (uuid_str u)"
    "dget (tg_config t) ''authority_state'' = PStr ''owned''" "generation_entry (tg_config t) = None"
    using same_entriesD [OF assms(3)] by (simp_all add: stamped_entries)
  have "py_lower (py_strip ''owned'') = ''owned''" by code_simp
  with c have "stated_authority (tg_config t) = ''owned''" by (simp add: stated_authority_def)
  with c assms(1,2) show ?thesis
    by (simp add: created_by_caller_def trigger_owner_user_id_def trigger_authority_state_def generation_of_entry)
qed

subsection \<open>What a call may change\<close>

text \<open>
  A row after a call: it was there, the call created it, or it replaces a row that the requester may
  act on, with the same authority.
\<close>

definition allowed_to_change :: "trigger_world \<Rightarrow> trigger_row \<Rightarrow> bool" where
  "allowed_to_change w r \<longleftrightarrow>
     (case tw_user w of
        None \<Rightarrow> False
      | Some u \<Rightarrow> trigger_owner_user_id r = Some u \<and> trigger_authority_state r = ''owned''
          \<or> (\<exists>user action access d. us_id user = u \<and> us_active user \<and> action \<in> {''write'', ''delete''}
              \<and> authorize_trigger_action (tw_policy w) (tw_db w) (tw_sessions w) (tw_inspection w) user (tw_agent w)
                  r action access False None = Inr d))"

definition row_change :: "trigger_world \<Rightarrow> trigger_row list \<Rightarrow> trigger_row \<Rightarrow> bool" where
  "row_change w rows t \<longleftrightarrow>
     t \<in> set rows
     \<or> (tg_id t \<notin> set (map tg_id rows) \<and> created_by_caller w t)
     \<or> (\<exists>r \<in> set rows. same_authority r t \<and> allowed_to_change w r)"

definition rows_change :: "trigger_world \<Rightarrow> trigger_row list \<Rightarrow> trigger_row list \<Rightarrow> bool" where
  "rows_change w rows rows' \<longleftrightarrow> (\<forall>t \<in> set rows'. row_change w rows t)
     \<and> (\<exists>new. map tg_id rows' = map tg_id rows @ new \<and> distinct new \<and> set new \<inter> set (map tg_id rows) = {})"

lemma unchanged_rows: "rows_change w rows rows"
  by (auto simp: rows_change_def row_change_def)

lemma replaced_rows:
  assumes "r \<in> set rows" and "same_authority r t" and "allowed_to_change w r"
  shows "rows_change w rows (replace_trigger t rows)"
proof -
  have "map tg_id (replace_trigger t rows) = map tg_id rows" by (induction rows) (auto simp: replace_trigger_def)
  moreover have "row_change w rows s" if "s \<in> set (replace_trigger t rows)" for s
  proof -
    have "s \<in> set rows \<or> s = t" using that by (auto simp: replace_trigger_def split: if_splits)
    then show ?thesis using assms unfolding row_change_def by blast
  qed
  ultimately show ?thesis by (auto simp: rows_change_def)
qed

lemma insert_trigger_Inr:
  "insert_trigger t rows = Inr rows' \<Longrightarrow> tg_id t \<notin> set (map tg_id rows) \<and> rows' = rows @ [t]"
  by (auto simp: insert_trigger_def list_ex_iff split: if_splits)

lemma inserted_rows:
  assumes "insert_trigger t rows = Inr rows'" and "created_by_caller w t"
  shows "rows_change w rows rows'"
proof -
  have new: "tg_id t \<notin> set (map tg_id rows)" and rows': "rows' = rows @ [t]"
    using insert_trigger_Inr [OF assms(1)] by auto
  then show ?thesis using assms(2) by (auto simp: rows_change_def row_change_def)
qed

lemma allowed_by_authorization:
  assumes "load_trigger_requester w = Some user" and "may_act w user t action access message = Inr u"
    and "action \<in> {''write'', ''delete''}"
  shows "allowed_to_change w t"
proof -
  obtain d where d: "authorize_trigger_action (tw_policy w) (tw_db w) (tw_sessions w) (tw_inspection w) user
      (tw_agent w) t action access False None = Inr d"
    using may_act_Inr [OF assms(2)] by blast
  have r: "tw_user w = Some (us_id user)" "us_active user" using requester_loaded [OF assms(1)] by simp_all
  with d assms(3) have "\<exists>user' action access d. us_id user' = us_id user \<and> us_active user' \<and> action \<in> {''write'', ''delete''}
      \<and> authorize_trigger_action (tw_policy w) (tw_db w) (tw_sessions w) (tw_inspection w) user' (tw_agent w)
          t action access False None = Inr d" by blast
  then show ?thesis by (simp only: allowed_to_change_def r option.case simp_thms)
qed

lemma stored_config:
  assumes "prepare_trigger w args = Inr d"
  shows "\<exists>u c. tw_user w = Some u \<and> td_config d = stamp_trigger_authority c (Some u) (tw_session w)"
  using assms by (auto simp: prepare_trigger_def Let_def split: if_splits)

lemma decision_entries: "same_entries (td_config d) (with_decision args i d)"
  unfolding with_decision_def by (rule same_entries_update) (simp add: entries)

lemma set_changes:
  assumes "handle_set_trigger w args rows = Inr (rows', reply)"
  shows "rows_change w rows rows'"
  using assms unfolding handle_set_trigger_def
proof (rule finish_cases)
  assume "bind_res (prepare_trigger w args) (\<lambda>d.
      guarded ''Failed to create trigger: '' (store_trigger w args d rows)) = Inr (rows', reply)"
  then obtain d where d: "prepare_trigger w args = Inr d" and store: "store_trigger w args d rows = Inr (rows', reply)"
    by auto
  from stored_config [OF d] obtain u c where u: "tw_user w = Some u"
    and c: "td_config d = stamp_trigger_authority c (Some u) (tw_session w)" by blast
  show ?thesis
  proof (cases "find_named (tw_agent w) (td_name d) rows")
    case None
    with store obtain t where t: "new_trigger_row w args d = Inr t" and ins: "insert_trigger t rows = Inr rows'"
      by (auto simp: store_trigger_def split: if_splits)
    from t have "tg_agent t = tw_agent w" "tg_config t = with_decision args (tw_new_id w) d"
      by (auto simp: new_trigger_row_def)
    with decision_entries c have "created_by_caller w t" using stamped_created [OF u] by metis
    with ins show ?thesis by (rule inserted_rows)
  next
    case (Some t)
    with store have "reenable_trigger w args d rows t = Inr (rows', reply)"
      by (auto simp: store_trigger_def split: if_splits)
    then obtain user access m t' where req: "load_trigger_requester w = Some user"
      and may: "may_act w user t ''write'' access m = Inr ()"
      and t': "reenabled_row w args d t = Inr t'" and rows': "rows' = replace_trigger t' rows"
      by (auto simp: reenable_trigger_def split: option.splits if_splits)
    have "allowed_to_change w t" by (rule allowed_by_authorization [OF req may]) simp
    moreover have "same_authority t t'"
      using t' preserve_entries by (auto simp: reenabled_row_def same_authority_def split: if_splits)
    ultimately show ?thesis using find_named_some [OF Some] rows' replaced_rows by blast
  qed
qed (simp add: unchanged_rows)

lemma updated_config_entries:
  "updated_config w args t = Inr d \<Longrightarrow> same_entries (tg_config t) d"
proof -
  have keys: "''delivery'' \<notin> set AUTHORITY_ENTRIES" "''source_session_id'' \<notin> set AUTHORITY_ENTRIES"
    by (simp_all add: entries)
  have delivery: "same_entries c d" if "apply_trigger_delivery c [] = Inr d" for c d
    using that keys unfolding apply_trigger_delivery_def Let_def
    by (auto split: if_splits intro: same_entries_trans [OF same_entries_update same_entries_delete]
      same_entries_trans [OF same_entries_update same_entries_update])
  assume "updated_config w args t = Inr d"
  then obtain c where "apply_trigger_delivery (preserve_trigger_authority (tg_config t) c) [] = Inr d"
    by (auto simp: updated_config_def simp del: bind_res.simps)
  from delivery [OF this] show ?thesis using preserve_entries same_entries_trans by blast
qed

lemma resolved_class_entries: "resolve_trigger_class args c ty = Inr d \<Longrightarrow> same_entries c d"
  by (auto simp: resolve_trigger_class_def Let_def entries intro!: same_entries_update split: if_splits)

definition row_core :: "trigger_row \<Rightarrow> uuid \<times> uuid \<times> string \<times> config \<times> bool" where
  "row_core t = (tg_id t, tg_agent t, tg_name t, tg_config t, tg_enabled t)"

lemma put_core:
  "put_max_fires args t = Inr t' \<Longrightarrow> row_core t' = row_core t"
  "put_expiry w args t = Inr t' \<Longrightarrow> row_core t' = row_core t"
  "put_cooldown args t = Inr t' \<Longrightarrow> row_core t' = row_core t"
  "put_reason args t = Inr t' \<Longrightarrow> row_core t' = row_core t"
  "row_core (refresh_reply w t) = row_core t"
  by (auto simp: put_max_fires_def put_expiry_def put_cooldown_def put_reason_def refresh_reply_def row_core_def
    split: if_splits option.splits pyval.splits)

lemma updated_row_fields:
  assumes "updated_row w args c t = Inr t'"
  shows "tg_id t' = tg_id t \<and> tg_agent t' = tg_agent t \<and> tg_name t' = tg_name t \<and> tg_enabled t' = tg_enabled t
    \<and> tg_config t' \<in> {tg_config t, c}"
proof -
  have "row_core t' = row_core (if given args ''config'' \<or> given args ''trigger_class'' then t\<lparr>tg_config := c\<rparr> else t)"
    using assms by (auto simp: updated_row_def put_core simp del: bind_res.simps)
  then show ?thesis by (auto simp: row_core_def split: if_splits)
qed

lemma update_changes:
  assumes "handle_update_trigger w args rows = Inr (rows', reply)"
  shows "rows_change w rows rows'"
  using assms unfolding handle_update_trigger_def
proof (rule finish_cases)
  assume "named_call w args (\<lambda>name.
       if \<not> list_ex (given args)
         [''config'', ''reason'', ''trigger_class'', ''max_fires'', ''expires_at'', ''cooldown_seconds'']
       then refuse ''bad_arguments'' (''Provide at least one of '' @ py_join '', ''
           (map quoted [''config'', ''reason'', ''trigger_class'', ''max_fires'', ''expires_at''])
         @ '', or '' @ quoted ''cooldown_seconds'' @ '' to update.'')
       else guarded ''Failed to update trigger: '' (on_named w name rows (update_found w args rows))) = Inr (rows', reply)"
  then obtain name where "on_named w name rows (update_found w args rows) = Inr (rows', reply)"
    unfolding named_call_def by (simp split: if_splits) blast
  then obtain t where t: "find_named (tw_agent w) name rows = Some t" and "update_found w args rows t = Inr (rows', reply)"
    by (auto simp: on_named_def split: option.splits)
  then obtain user m c c' t' where req: "load_trigger_requester w = Some user"
    and may: "may_act w user t ''write'' None m = Inr ()" and c: "updated_config w args t = Inr c"
    and c': "resolve_trigger_class args c (tg_type t) = Inr c'" and t': "updated_row w args c' t = Inr t'"
    and rows': "rows' = replace_trigger t' rows"
    by (auto simp: update_found_def split: option.splits)
  have "same_entries (tg_config t) c'"
    using updated_config_entries [OF c] resolved_class_entries [OF c'] same_entries_trans by blast
  then have "same_authority t t'" using updated_row_fields [OF t'] by (auto simp: same_authority_def)
  moreover have "allowed_to_change w t" by (rule allowed_by_authorization [OF req may]) simp
  ultimately show ?thesis using find_named_some [OF t] rows' replaced_rows by blast
qed (simp add: unchanged_rows)

lemma cancel_changes:
  assumes "handle_cancel_trigger w args rows = Inr (rows', reply)"
  shows "rows_change w rows rows'"
  using assms unfolding handle_cancel_trigger_def
proof (rule finish_cases)
  assume "named_call w args (\<lambda>name.
       guarded ''Failed to cancel trigger: '' (on_named w name rows (cancel_found w rows))) = Inr (rows', reply)"
  then obtain name where "on_named w name rows (cancel_found w rows) = Inr (rows', reply)"
    by (auto simp: named_call_def split: if_splits)
  then obtain t where t: "find_named (tw_agent w) name rows = Some t" and "cancel_found w rows t = Inr (rows', reply)"
    by (auto simp: on_named_def split: option.splits)
  then obtain user m where req: "load_trigger_requester w = Some user"
    and may: "may_act w user t ''delete'' None m = Inr ()"
    and rows': "rows' = rows \<or> rows' = replace_trigger (t\<lparr>tg_enabled := False\<rparr>) rows"
    by (auto simp: cancel_found_def split: option.splits if_splits)
  have "allowed_to_change w t" by (rule allowed_by_authorization [OF req may]) simp
  moreover have "same_authority t (t\<lparr>tg_enabled := False\<rparr>)" by (simp add: same_authority_def)
  ultimately show ?thesis using find_named_some [OF t] rows' replaced_rows unchanged_rows by blast
qed (simp add: unchanged_rows)

text \<open>What the scheduling of a wakeup does when it succeeds.\<close>

lemma wakeup_result:
  assumes "handle_schedule_wakeup w args rows = Inr (rows', reply)"
  obtains (refused) e where "rows' = rows" "reply = Refused e"
  | (replaced) u where "tw_user w = Some u" "wakeup_session w \<noteq> []"
      "replace_wakeup w args u (wakeup_session w) rows = Inr (rows', reply)"
  using assms unfolding handle_schedule_wakeup_def
  by (rule finish_cases) (auto split: option.splits if_splits)

lemma replaced_wakeup:
  assumes "replace_wakeup w args u session rows = Inr (rows', reply)"
  obtains (stopped) "truthy (dget args ''stop'')" "rows' = cancel_pending (tw_agent w) session u rows"
      "reply = Stopped (map tg_id (filter (pending_wakeup (tw_agent w) session u) rows))"
  | (scheduled) delay where "\<not> truthy (dget args ''stop'')" "wakeup_delay args = Inr delay"
      "insert_trigger (wakeup_row w u session (clean_text (dget args ''prompt'')) (clamped_delay delay))
         (cancel_pending (tw_agent w) session u rows) = Inr rows'"
      "reply = Scheduled (tw_new_id w) (clamped_delay delay) delay
         (map tg_id (filter (pending_wakeup (tw_agent w) session u) rows))"
proof -
  have "tg_id (wakeup_row w u s p c) = tw_new_id w" for s p c by (simp add: wakeup_row_def)
  with assms stopped scheduled show thesis by (auto simp: replace_wakeup_def Let_def split: if_splits)
qed

lemma cancelled_rows:
  assumes "tw_user w = Some u"
  shows "rows_change w rows (cancel_pending (tw_agent w) session u rows)"
proof -
  have "map tg_id (cancel_pending (tw_agent w) session u rows) = map tg_id rows"
    by (induction rows) (auto simp: cancel_pending_def)
  moreover have "row_change w rows t" if "t \<in> set (cancel_pending (tw_agent w) session u rows)" for t
  proof -
    have "\<exists>r \<in> set rows. t = (if pending_wakeup (tw_agent w) session u r then r\<lparr>tg_enabled := False\<rparr> else r)"
      using that unfolding cancel_pending_def set_map image_iff .
    then obtain r where r: "r \<in> set rows"
      and t: "t = (if pending_wakeup (tw_agent w) session u r then r\<lparr>tg_enabled := False\<rparr> else r)" by blast
    show ?thesis
    proof (cases "pending_wakeup (tw_agent w) session u r")
      case True
      then have "allowed_to_change w r" by (simp add: allowed_to_change_def assms pending_wakeup_def)
      moreover have "same_authority r t" using True t by (simp add: same_authority_def)
      ultimately show ?thesis using r by (auto simp: row_change_def)
    qed (use r t in \<open>simp add: row_change_def\<close>)
  qed
  ultimately show ?thesis by (auto simp: rows_change_def)
qed

lemma wakeup_created:
  assumes "tw_user w = Some u"
  shows "created_by_caller w (wakeup_row w u session prompt clamped)"
proof -
  let ?t = "wakeup_row w u session prompt clamped"
  obtain d where "tg_config ?t = stamp_trigger_authority d (Some u) (Some session)"
    by (simp add: wakeup_row_def)
  moreover have "tg_agent ?t = tw_agent w" by (simp add: wakeup_row_def)
  ultimately show ?thesis using stamped_created [OF assms] same_entries_refl by metis
qed

lemma wakeup_changes:
  assumes "handle_schedule_wakeup w args rows = Inr (rows', reply)"
  shows "rows_change w rows rows'"
  using assms
proof (cases rule: wakeup_result)
  case (replaced u)
  note cancelled = cancelled_rows [OF replaced(1), of rows "wakeup_session w"]
  from replaced(3) show ?thesis
  proof (cases rule: replaced_wakeup)
    case (scheduled delay)
    let ?t = "wakeup_row w u (wakeup_session w) (clean_text (dget args ''prompt'')) (clamped_delay delay)"
    have "created_by_caller w ?t" by (rule wakeup_created [OF replaced(1)])
    moreover have ids: "map tg_id (cancel_pending (tw_agent w) (wakeup_session w) u rows) = map tg_id rows"
      by (induction rows) (auto simp: cancel_pending_def)
    moreover have "tg_id ?t \<notin> set (map tg_id rows)" "rows' = cancel_pending (tw_agent w) (wakeup_session w) u rows @ [?t]"
      using insert_trigger_Inr [OF scheduled(3)] ids by metis+
    ultimately show ?thesis using cancelled by (auto simp: rows_change_def row_change_def)
  qed (use cancelled in simp)
qed (simp add: unchanged_rows)

lemma step_changes: "tool_step w c rows = Inr (rows', reply) \<Longrightarrow> rows_change w rows rows'"
  by (cases c) (auto intro: set_changes update_changes cancel_changes wakeup_changes)

section \<open>No call forges authority\<close>

definition kept_or_created ::
  "(trigger_world \<times> trigger_call) list \<Rightarrow> trigger_row list \<Rightarrow> trigger_row list \<Rightarrow> bool" where
  "kept_or_created cs rows rows' \<longleftrightarrow> set (map tg_id rows) \<subseteq> set (map tg_id rows') \<and> distinct (map tg_id rows')
     \<and> (\<forall>t \<in> set rows'. (\<exists>r \<in> set rows. same_authority r t)
        \<or> tg_id t \<notin> set (map tg_id rows) \<and> (\<exists>(w, c) \<in> set cs. created_by_caller w t))"

lemma kept_after_step:
  assumes "kept_or_created cs rows rows'" and "rows_change w rows' rows''"
  shows "kept_or_created (cs @ [(w, c)]) rows rows''"
proof -
  from assms(2) obtain new where new: "map tg_id rows'' = map tg_id rows' @ new" "distinct new"
    "set new \<inter> set (map tg_id rows') = {}" by (auto simp: rows_change_def)
  have "(\<exists>r \<in> set rows. same_authority r t)
      \<or> tg_id t \<notin> set (map tg_id rows) \<and> (\<exists>(w', c') \<in> set (cs @ [(w, c)]). created_by_caller w' t)"
    if "t \<in> set rows''" for t
  proof -
    from assms(2) that have "row_change w rows' t" by (simp add: rows_change_def)
    then consider (kept) r where "r \<in> set rows'" "same_authority r t"
      | (created) "tg_id t \<notin> set (map tg_id rows')" "created_by_caller w t"
      unfolding row_change_def using same_authority_refl by blast
    then show ?thesis
    proof cases
      case kept
      with assms(1) consider r0 where "r0 \<in> set rows" "same_authority r0 r"
        | w' c' where "tg_id r \<notin> set (map tg_id rows)" "(w', c') \<in> set cs" "created_by_caller w' r"
        unfolding kept_or_created_def by blast
      then show ?thesis
      proof cases
        case 1
        then show ?thesis using kept same_authority_trans by blast
      next
        case 2
        have "tg_id t = tg_id r" using kept by (simp add: same_authority_def)
        then have "tg_id t \<notin> set (map tg_id rows)" using 2(1) by simp
        moreover have "created_by_caller w' t" using created_same [OF kept(2) 2(3)] .
        moreover have "(w', c') \<in> set (cs @ [(w, c)])" using 2(2) by simp
        ultimately show ?thesis by blast
      qed
    next
      case created
      with assms(1) show ?thesis by (auto simp: kept_or_created_def)
    qed
  qed
  with new assms(1) show ?thesis by (auto simp: kept_or_created_def)
qed

lemma tool_calls_snoc:
  "tool_calls (cs @ [(w, c)]) rows =
     (case tool_step w c (tool_calls cs rows) of Inl _ \<Rightarrow> tool_calls cs rows | Inr (rows', _) \<Rightarrow> rows')"
  unfolding tool_calls_def by simp

lemma calls_keep:
  assumes "distinct (map tg_id rows)"
  shows "kept_or_created cs rows (tool_calls cs rows)"
proof (induction cs rule: rev_induct)
  case Nil
  have "\<forall>t \<in> set rows. \<exists>r \<in> set rows. same_authority r t" using same_authority_refl by blast
  with assms show ?case by (simp add: kept_or_created_def tool_calls_def)
next
  case (snoc wc cs)
  obtain w c where wc: "wc = (w, c)" by (cases wc)
  show ?case
  proof (cases "tool_step w c (tool_calls cs rows)")
    case (Inl e)
    then show ?thesis using kept_after_step [OF snoc unchanged_rows, of w c] by (simp add: wc tool_calls_snoc)
  next
    case (Inr r)
    obtain rows' reply where r: "r = (rows', reply)" by (cases r)
    with Inr have "rows_change w (tool_calls cs rows) rows'" using step_changes by simp
    from kept_after_step [OF snoc this] show ?thesis by (simp add: wc tool_calls_snoc Inr r)
  qed
qed

text \<open>
  Claim C18. Whatever the agent writes into the arguments, no sequence of calls of the trigger tools
  (setting, updating, cancelling a trigger, scheduling a wakeup) forges authority. A trigger that was
  there keeps its agent, name, owner, authority state and authority generation; a trigger that is new
  belongs to the user on whose behalf one of the calls was made, with that call's agent, and starts
  in generation 0.
\<close>

theorem tools_cannot_forge_authority:
  assumes "distinct (map tg_id rows)" and "t \<in> set (tool_calls cs rows)"
  shows "case find (\<lambda>r. tg_id r = tg_id t) rows of
      Some r \<Rightarrow> tg_agent t = tg_agent r \<and> tg_name t = tg_name r
        \<and> trigger_owner_user_id t = trigger_owner_user_id r
        \<and> trigger_authority_state t = trigger_authority_state r
        \<and> trigger_authority_generation (tg_config t) = trigger_authority_generation (tg_config r)
    | None \<Rightarrow> \<exists>(w, c) \<in> set cs. \<exists>u. tw_user w = Some u \<and> trigger_owner_user_id t = Some u
        \<and> tg_agent t = tw_agent w \<and> trigger_authority_state t = ''owned''
        \<and> trigger_authority_generation (tg_config t) = Inr 0"
proof -
  from calls_keep [OF assms(1), of cs] assms(2) consider
      (kept) r where "r \<in> set rows" "same_authority r t"
    | (created) w c where "tg_id t \<notin> set (map tg_id rows)" "(w, c) \<in> set cs" "created_by_caller w t"
    unfolding kept_or_created_def by blast
  then show ?thesis
  proof cases
    case kept
    then have "tg_id t = tg_id r" by (simp add: same_authority_def)
    with assms(1) kept(1) have "find (\<lambda>x. tg_id x = tg_id t) rows = Some r"
      by (induction rows) (auto simp: image_iff)
    then show ?thesis using same_owner [OF kept(2)] kept(2) by (simp add: same_authority_def)
  next
    case created
    then have "find (\<lambda>x. tg_id x = tg_id t) rows = None" by (force simp: find_None_iff image_iff)
    with created(2,3) show ?thesis by (auto simp: created_by_caller_def split: option.splits)
  qed
qed

text \<open>
  A call of a trigger tool changes only what its requester may change. Every row after
  the call was there before, or is new and owned by the requester, or replaces a row with the same id,
  agent, name and owner that the requester owns or that an active user of the requester's id is
  authorized to write or delete.
\<close>

theorem tools_change_only_authorized_triggers:
  assumes "tool_step w c rows = Inr (rows', reply)"
  shows "\<forall>t \<in> set rows'. t \<in> set rows
     \<or> (\<exists>u. tw_user w = Some u \<and> (
          (tg_id t \<notin> set (map tg_id rows) \<and> trigger_owner_user_id t = Some u \<and> tg_agent t = tw_agent w)
        \<or> (\<exists>r \<in> set rows. tg_id t = tg_id r \<and> tg_agent t = tg_agent r \<and> tg_name t = tg_name r
             \<and> trigger_owner_user_id t = trigger_owner_user_id r
             \<and> (trigger_owner_user_id r = Some u \<and> trigger_authority_state r = ''owned''
                \<or> (\<exists>user action access d. us_id user = u \<and> us_active user \<and> action \<in> {''write'', ''delete''}
                    \<and> authorize_trigger_action (tw_policy w) (tw_db w) (tw_sessions w) (tw_inspection w) user
                        (tw_agent w) r action access False None = Inr d)))))"
proof
  fix t assume "t \<in> set rows'"
  with step_changes [OF assms] have "row_change w rows t" by (simp add: rows_change_def)
  then consider "t \<in> set rows" | "tg_id t \<notin> set (map tg_id rows)" "created_by_caller w t"
    | r where "r \<in> set rows" "same_authority r t" "allowed_to_change w r"
    unfolding row_change_def by blast
  then show "t \<in> set rows
     \<or> (\<exists>u. tw_user w = Some u \<and> (
          (tg_id t \<notin> set (map tg_id rows) \<and> trigger_owner_user_id t = Some u \<and> tg_agent t = tw_agent w)
        \<or> (\<exists>r \<in> set rows. tg_id t = tg_id r \<and> tg_agent t = tg_agent r \<and> tg_name t = tg_name r
             \<and> trigger_owner_user_id t = trigger_owner_user_id r
             \<and> (trigger_owner_user_id r = Some u \<and> trigger_authority_state r = ''owned''
                \<or> (\<exists>user action access d. us_id user = u \<and> us_active user \<and> action \<in> {''write'', ''delete''}
                    \<and> authorize_trigger_action (tw_policy w) (tw_db w) (tw_sessions w) (tw_inspection w) user
                        (tw_agent w) r action access False None = Inr d)))))"
  proof cases
    case 2
    then obtain u where "tw_user w = Some u" "trigger_owner_user_id t = Some u" "tg_agent t = tw_agent w"
      by (auto simp: created_by_caller_def split: option.splits)
    with 2(1) show ?thesis by blast
  next
    case 3
    then obtain u where u: "tw_user w = Some u" by (auto simp: allowed_to_change_def split: option.splits)
    from 3(3) have "trigger_owner_user_id r = Some u \<and> trigger_authority_state r = ''owned''
        \<or> (\<exists>user action access d. us_id user = u \<and> us_active user \<and> action \<in> {''write'', ''delete''}
            \<and> authorize_trigger_action (tw_policy w) (tw_db w) (tw_sessions w) (tw_inspection w) user
                (tw_agent w) r action access False None = Inr d)"
      by (simp only: allowed_to_change_def u option.case)
    moreover have "tg_id t = tg_id r" "tg_agent t = tg_agent r" "tg_name t = tg_name r"
      "trigger_owner_user_id t = trigger_owner_user_id r"
      using 3(2) same_owner by (simp_all add: same_authority_def)
    ultimately show ?thesis using u 3(1) by blast
  qed blast
qed

section \<open>What a stored trigger says\<close>

lemma dget_strip_runtime: "dget (strip_runtime d) k = (if runtime_config_key k then PNone else dget d k)"
  unfolding strip_runtime_def by (subst dget_filter [where P = "\<lambda>k. \<not> runtime_config_key k"]) simp

lemma dget_without_keys: "dget (without_keys ks d) k = (if k \<in> set ks then PNone else dget d k)"
  unfolding without_keys_def by (subst dget_filter [where P = "\<lambda>k. k \<notin> set ks"]) simp

lemma preserve_other:
  assumes "\<not> runtime_config_key k" and "k \<notin> set (AUTHORITY_KEYS @ [''delivery'', ''source_session_id''])"
  shows "dget (preserve_trigger_authority current candidate) k = dget candidate k"
proof -
  have ne: "k \<noteq> ''delivery''" "k \<noteq> ''source_session_id''" using assms(2) by auto
  have "dget (foldl (keep_destination current) d [''delivery'', ''source_session_id'']) k = dget d k" for d
    using ne by (simp add: dget_def destination_entries)
  moreover have "dget (foldl (carry_over current) d ks) k = dget d k" if "k \<notin> set ks" for d ks
    using that by (simp add: dget_def carry_entries)
  moreover have "dget (strip_runtime candidate) k = dget candidate k"
    using assms(1) by (simp add: dget_strip_runtime)
  ultimately show ?thesis using ne assms
    by (simp add: preserve_trigger_authority_def Let_def)
qed

lemma stamp_key:
  "k \<notin> {''_authority_generation'', ''created_by'', ''root_session_id'', ''authority_state''} \<Longrightarrow>
     dget (stamp_trigger_authority d u s) k = dget d k"
  by (auto simp: stamp_trigger_authority_def Let_def split: option.splits)

lemma stamp_plan_key:
  assumes "stamp_plan args d = Inr d'"
    and "k \<notin> {''plan_id'', ''plan_version'', ''plan_hash'', ''plan_authorization''}"
  shows "dget d' k = dget d k"
proof -
  have "dget (stamp_confirmed_plan_provenance (Some d) pid v h lid ah tr ru sid tid ev) k = dget d k"
    for pid v h lid ah tr ru sid tid ev
    using assms(2) by (auto simp: stamp_confirmed_plan_provenance_def Let_def split: option.split)
  with assms(1) show ?thesis by (auto simp: stamp_plan_def Let_def split: if_splits)
qed

lemma declined_key:
  assumes "stamp_user_declined w d = Inr d'" and "k \<noteq> ''metadata''"
  shows "dget d' k = dget d k"
proof -
  have "dget e k = dget d k" if "stamp_user_declined_plan_exemption (Some d) = Inr e" for e
    using that assms(2) by (auto simp: stamp_user_declined_plan_exemption_def split: option.splits)
  with assms show ?thesis by (auto simp: stamp_user_declined_def split: if_splits)
qed

lemma delivery_key:
  "apply_trigger_delivery d args = Inr d' \<Longrightarrow> k \<notin> {''delivery'', ''source_session_id''} \<Longrightarrow> dget d' k = dget d k"
  by (auto simp: apply_trigger_delivery_def Let_def split: if_splits)

lemma trusted_key:
  "trusted_delivery w args d = Inr d' \<Longrightarrow> k \<noteq> ''source_session_id'' \<Longrightarrow> dget d' k = dget d k"
  by (auto simp: trusted_delivery_def split: if_splits)

lemma complete_key:
  "k \<notin> {''from_user_name'', ''from_user_identity'', ''from_agent_name'', ''from_agent_id'', ''_since_ts'', ''token''} \<Longrightarrow>
     dget (complete_config w ty d) k = dget d k"
  by (simp add: complete_config_def dget_without_keys Let_def split: option.split)

lemma prepared_stages:
  assumes "prepare_trigger w args = Inr d"
  obtains c0 c1 c2 c3 c4 c5 where "strip_trigger_untrusted_config (dget args ''config'') = Inr c0"
    "validate_trigger_config w (td_type d) (PDict c0) = Inr c1"
    "resolve_trigger_class args c1 (td_type d) = Inr c2" "validate_trigger_lifecycle_policy c2 args = Inr ()"
    "trusted_delivery w args c2 = Inr c3" "apply_trigger_delivery c3 args = Inr c4"
    "stamp_plan args (complete_config w (td_type d) c4) = Inr c5"
    "\<exists>c6. stamp_user_declined w c5 = Inr c6 \<and> td_config d = stamp_trigger_authority c6 (tw_user w) (tw_session w)"
  using assms by (auto simp: prepare_trigger_def Let_def simp del: bind_res.simps split: if_splits)

text \<open>The keys that decide the lifecycle are those of a config that passed the lifecycle policy.\<close>

lemma prepared_keys:
  assumes "prepare_trigger w args = Inr d"
  obtains c where "validate_trigger_lifecycle_policy c args = Inr ()"
    "\<forall>k \<in> {''max_fires'', ''expires_at'', ''trigger_class''}. dget (td_config d) k = dget c k"
proof (rule prepared_stages [OF assms(1)])
  fix c0 c1 c2 c3 c4 c5
  assume life: "validate_trigger_lifecycle_policy c2 args = Inr ()"
    and st: "trusted_delivery w args c2 = Inr c3" "apply_trigger_delivery c3 args = Inr c4"
    "stamp_plan args (complete_config w (td_type d) c4) = Inr c5"
    "\<exists>c6. stamp_user_declined w c5 = Inr c6 \<and> td_config d = stamp_trigger_authority c6 (tw_user w) (tw_session w)"
  from st(4) obtain c6 where c6: "stamp_user_declined w c5 = Inr c6"
    "td_config d = stamp_trigger_authority c6 (tw_user w) (tw_session w)" by blast
  have "dget (td_config d) k = dget c2 k" if k: "k \<in> {''max_fires'', ''expires_at'', ''trigger_class''}" for k
  proof -
    have "dget (td_config d) k = dget c6 k" unfolding c6(2) by (rule stamp_key) (use k in auto)
    also have "\<dots> = dget c5 k" by (rule declined_key [OF c6(1)]) (use k in auto)
    also have "\<dots> = dget (complete_config w (td_type d) c4) k"
      by (rule stamp_plan_key [OF st(3)]) (use k in auto)
    also have "\<dots> = dget c4 k" by (rule complete_key) (use k in auto)
    also have "\<dots> = dget c3 k" by (rule delivery_key [OF st(2)]) (use k in auto)
    also have "\<dots> = dget c2 k" by (rule trusted_key [OF st(1)]) (use k in auto)
    finally show ?thesis .
  qed
  with life that show thesis by blast
qed

definition stated_class :: "trigger_row \<Rightarrow> string" where
  "stated_class t = clean_text (dget (tg_config t) ''trigger_class'')"

definition bounded_wait :: "trigger_row \<Rightarrow> bool" where
  "bounded_wait t \<longleftrightarrow> (if stated_class t = ''event_wait''
     then (case tg_max_fires t of Some n \<Rightarrow> 0 < n | None \<Rightarrow> tg_expires t \<noteq> None) else True)"

lemma coerce_positive: "coerce_int v = Inr (Some n) \<Longrightarrow> 0 < n"
  by (auto simp: coerce_int_def split: if_splits sum.splits)

lemma parse_some:
  assumes "truthy v" and "parse_expires_at w v = Inr x"
  shows "x \<noteq> None"
proof -
  have "v \<noteq> PNone \<and> \<not> eq_str v []" using assms(1) by (cases v) auto
  with assms(2) show ?thesis by (cases "tw_iso w (py_str v)") (auto simp: parse_expires_at_def)
qed

lemma lifecycle_bound:
  assumes "validate_trigger_lifecycle_policy c args = Inr ()" and "clean_text (dget c ''trigger_class'') = ''event_wait''"
  shows "\<exists>m. coerce_int (either args c ''max_fires'') = Inr m \<and> (m = None \<longrightarrow> truthy (either args c ''expires_at''))"
proof -
  have "truthy (dget c ''trigger_class'')" using assms(2) by (auto simp: clean_text_def py_or_def split: if_splits)
  then show ?thesis using assms by (auto simp: validate_trigger_lifecycle_policy_def py_or_def split: if_splits option.splits)
qed

lemma bounded_row:
  assumes "prepare_trigger w args = Inr d"
    and "coerce_int (either args (td_config d) ''max_fires'') = Inr (tg_max_fires t)"
    and "new_expiry w args d old = Inr (tg_expires t)"
    and "dget (tg_config t) ''trigger_class'' = dget (td_config d) ''trigger_class''"
  shows "bounded_wait t"
proof (rule prepared_keys [OF assms(1)])
  fix c
  assume life: "validate_trigger_lifecycle_policy c args = Inr ()"
    and keys: "\<forall>k \<in> {''max_fires'', ''expires_at'', ''trigger_class''}. dget (td_config d) k = dget c k"
  then have k: "dget (td_config d) ''trigger_class'' = dget c ''trigger_class''"
    "either args (td_config d) ''max_fires'' = either args c ''max_fires''"
    "either args (td_config d) ''expires_at'' = either args c ''expires_at''" by (simp_all add: either_def)
  show ?thesis
  proof (cases "stated_class t = ''event_wait''")
    case True
    with assms(4) k(1) have cls: "clean_text (dget c ''trigger_class'') = ''event_wait''" by (simp add: stated_class_def)
    show ?thesis
    proof (cases "tg_max_fires t")
      case None
      with lifecycle_bound [OF life cls] assms(2) k have "truthy (either args (td_config d) ''expires_at'')" by auto
      with assms(3) parse_some have "tg_expires t \<noteq> None" by (simp add: new_expiry_def Let_def)
      with None show ?thesis by (simp add: bounded_wait_def)
    next
      case (Some n)
      with assms(2) coerce_positive show ?thesis by (simp add: bounded_wait_def)
    qed
  qed (simp add: bounded_wait_def)
qed

lemma replace_absent: "tg_id t \<notin> set (map tg_id rows) \<Longrightarrow> replace_trigger t rows = rows"
  by (induction rows) (auto simp: replace_trigger_def)

lemma replaced_count:
  assumes "distinct (map tg_id rows)"
  shows "enabled_count agent (replace_trigger t rows) \<le> enabled_count agent rows + 1"
  using assms
proof (induction rows)
  case (Cons r rows)
  show ?case
  proof (cases "tg_id r = tg_id t")
    case True
    then have "replace_trigger t (r # rows) = t # rows"
      using Cons.prems replace_absent [of t rows] by (simp add: replace_trigger_def)
    then show ?thesis by (simp add: enabled_count_def)
  next
    case False
    then have "replace_trigger t (r # rows) = r # replace_trigger t rows" by (simp add: replace_trigger_def)
    with Cons show ?thesis by (simp add: enabled_count_def)
  qed
qed (simp add: enabled_count_def replace_trigger_def)

definition set_outcome :: "trigger_world \<Rightarrow> trigger_row list \<Rightarrow> uuid \<Rightarrow> bool" where
  "set_outcome w rows' i \<longleftrightarrow> enabled_count (tw_agent w) rows' \<le> trigger_limit w
     \<and> (\<exists>t \<in> set rows'. tg_id t = i \<and> tg_agent t = tw_agent w \<and> tg_enabled t \<and> bounded_wait t)"

lemma stored_trigger:
  assumes prep: "prepare_trigger w args = Inr d" and store: "store_trigger w args d rows = Inr (rows', reply)"
    and dist: "distinct (map tg_id rows)"
  shows "case reply of Created i _ \<Rightarrow> set_outcome w rows' i | Reenabled i _ \<Rightarrow> set_outcome w rows' i | _ \<Rightarrow> False"
proof -
  from store have count: "enabled_count (tw_agent w) rows < trigger_limit w"
    by (auto simp: store_trigger_def split: if_splits)
  have decision: "dget (with_decision args i d) k = dget (td_config d) k" if "k \<noteq> ''schedule_decision_entry''" for i k
    using that by (simp add: with_decision_def)
  show ?thesis
  proof (cases "find_named (tw_agent w) (td_name d) rows")
    case None
    with store obtain t where t: "new_trigger_row w args d = Inr t" and ins: "insert_trigger t rows = Inr rows'"
      and reply: "reply = Created (tg_id t) (td_type d)"
      by (auto simp: store_trigger_def split: if_splits)
    from t have "bounded_wait t"
      by (intro bounded_row [OF prep, where old = None]) (auto simp: new_trigger_row_def decision)
    moreover have "tg_enabled t \<and> tg_agent t = tw_agent w" using t by (auto simp: new_trigger_row_def)
    moreover have rows': "rows' = rows @ [t]" using insert_trigger_Inr [OF ins] by simp
    moreover have "enabled_count (tw_agent w) rows' \<le> trigger_limit w"
      using count unfolding rows' by (simp add: enabled_count_def)
    ultimately show ?thesis by (simp add: reply set_outcome_def)
  next
    case (Some t)
    with store have "reenable_trigger w args d rows t = Inr (rows', reply)"
      by (auto simp: store_trigger_def split: if_splits)
    then obtain t' where t': "reenabled_row w args d t = Inr t'" and rows': "rows' = replace_trigger t' rows"
      and reply: "reply = Reenabled (tg_id t) (tg_fires t)"
      by (auto simp: reenable_trigger_def split: option.splits if_splits)
    have named: "t \<in> set rows" "tg_agent t = tw_agent w" using find_named_some [OF Some] by simp_all
    have keep: "dget (preserve_trigger_authority (tg_config t) e) ''trigger_class'' = dget e ''trigger_class''" for e
      by (rule preserve_other) (code_simp | simp add: AUTHORITY_KEYS_def)+
    have row: "tg_id t' = tg_id t" "tg_agent t' = tg_agent t" "tg_enabled t'" using t' by (auto simp: reenabled_row_def)
    have "bounded_wait t'" using t'
      by (intro bounded_row [OF prep, where old = "tg_expires t"]) (auto simp: reenabled_row_def keep decision)
    moreover have "t' \<in> set rows'" using named(1) row(1) unfolding rows' replace_trigger_def by force
    moreover have "enabled_count (tw_agent w) rows' \<le> trigger_limit w"
      using replaced_count [OF dist, of "tw_agent w" t'] count unfolding rows' by simp
    ultimately show ?thesis using row named(2) by (auto simp: reply set_outcome_def)
  qed
qed

text \<open>
  Claim C34. Setting a trigger keeps the agent within its bounds. A call that creates a trigger or
  enables a disabled one leaves at most the limit of enabled triggers of the agent, and the trigger it
  names is enabled and, when its class is \<open>event_wait\<close>, ends by itself: after a positive number of
  fires or at an expiry. Every other outcome leaves the rows as they were.
\<close>

theorem set_trigger_stays_bounded:
  assumes "handle_set_trigger w args rows = Inr (rows', reply)" and "distinct (map tg_id rows)"
  shows "let ok = (\<lambda>i. enabled_count (tw_agent w) rows' \<le> trigger_limit w
        \<and> (\<exists>t \<in> set rows'. tg_id t = i \<and> tg_agent t = tw_agent w \<and> tg_enabled t
             \<and> (if clean_text (dget (tg_config t) ''trigger_class'') = ''event_wait''
                then (case tg_max_fires t of Some n \<Rightarrow> 0 < n | None \<Rightarrow> tg_expires t \<noteq> None) else True)))
     in (case reply of Created i _ \<Rightarrow> ok i | Reenabled i _ \<Rightarrow> ok i | Refused _ \<Rightarrow> rows' = rows | _ \<Rightarrow> False)"
proof -
  have "case reply of Created i _ \<Rightarrow> set_outcome w rows' i | Reenabled i _ \<Rightarrow> set_outcome w rows' i
      | Refused _ \<Rightarrow> rows' = rows | _ \<Rightarrow> False"
    using assms(1) unfolding handle_set_trigger_def
  proof (rule finish_cases)
    assume "bind_res (prepare_trigger w args) (\<lambda>d.
        guarded ''Failed to create trigger: '' (store_trigger w args d rows)) = Inr (rows', reply)"
    then obtain d where "prepare_trigger w args = Inr d" "store_trigger w args d rows = Inr (rows', reply)" by auto
    from stored_trigger [OF this assms(2)] show ?thesis by (auto split: trigger_reply.splits)
  qed simp
  then show ?thesis unfolding set_outcome_def bounded_wait_def stated_class_def Let_def
    by (simp split: trigger_reply.splits)
qed

section \<open>One wakeup at a time\<close>

lemma cancelled_none: "filter (pending_wakeup agent session u) (cancel_pending agent session u rows) = []"
  by (induction rows) (auto simp: cancel_pending_def pending_wakeup_def)

lemma cancelled_others:
  "filter (\<lambda>t. \<not> pending_wakeup agent session u t) rows
     = filter (\<lambda>t. tg_id t \<notin> set (map tg_id (filter (pending_wakeup agent session u) rows)))
         (cancel_pending agent session u rows)"
  if "distinct (map tg_id rows)"
  using that
proof -
  have "filter (\<lambda>t. tg_id t \<notin> set ids) (cancel_pending agent session u rows)
      = filter (\<lambda>t. \<not> pending_wakeup agent session u t) rows"
    if "\<forall>t \<in> set rows. tg_id t \<in> set ids \<longleftrightarrow> pending_wakeup agent session u t" for ids
    using that by (induction rows) (auto simp: cancel_pending_def)
  moreover have "\<forall>t \<in> set rows. tg_id t \<in> set (map tg_id (filter (pending_wakeup agent session u) rows))
      \<longleftrightarrow> pending_wakeup agent session u t"
    using that by (auto simp: distinct_map inj_on_def)
  ultimately show ?thesis by metis
qed

lemma wakeup_is_pending:
  assumes "session \<noteq> []" and "tw_user w = Some u"
  shows "pending_wakeup (tw_agent w) session u (wakeup_row w u session prompt clamped)"
proof -
  let ?t = "wakeup_row w u session prompt clamped"
  have keys: "dget (tg_config ?t) ''self_pace'' = PBool True" "dget (tg_config ?t) ''source_session_id'' = PStr session"
    by (simp_all add: wakeup_row_def stamp_key) (simp_all add: dget_def)
  from wakeup_created [OF assms(2), of session prompt clamped] keys assms show ?thesis
    by (simp add: pending_wakeup_def created_by_caller_def py_or_def) (simp add: wakeup_row_def)
qed

text \<open>
  The agent has at most one wakeup of its own per session and user. A successful call
  cancels every pending one and touches no other trigger; afterwards the only pending wakeup is the new
  one, due between one minute and one hour from now (a delay inside these bounds is taken as asked), or
  none after a stop. A refusal changes nothing.
\<close>

theorem wakeups_replace_each_other:
  assumes "handle_schedule_wakeup w args rows = Inr (rows', reply)" and "tw_user w = Some u"
    and "distinct (map tg_id rows)"
  shows "let pending = pending_wakeup (tw_agent w) (py_strip (opt_text (tw_session w))) u;
      others = (\<lambda>cancelled. filter (\<lambda>t. tg_id t \<notin> set cancelled)) in
    case reply of
      Refused _ \<Rightarrow> rows' = rows
    | Stopped cancelled \<Rightarrow> cancelled = map tg_id (filter pending rows) \<and> filter pending rows' = []
        \<and> others cancelled rows' = filter (\<lambda>t. \<not> pending t) rows
    | Scheduled i clamped delay cancelled \<Rightarrow> cancelled = map tg_id (filter pending rows)
        \<and> map tg_id (filter pending rows') = [i]
        \<and> others cancelled rows' = filter (\<lambda>t. \<not> pending t) rows @ filter (\<lambda>t. tg_id t = i) rows'
        \<and> 60 \<le> clamped \<and> clamped \<le> 3600 \<and> (60 \<le> delay \<and> delay \<le> 3600 \<longrightarrow> clamped = delay)
    | _ \<Rightarrow> False"
  using assms(1)
proof (cases rule: wakeup_result)
  case (replaced v)
  with assms(2) have v: "v = u" by simp
  let ?p = "pending_wakeup (tw_agent w) (wakeup_session w) u"
  let ?rows = "cancel_pending (tw_agent w) (wakeup_session w) u rows"
  note others = cancelled_others [OF assms(3), of "tw_agent w" "wakeup_session w" u, symmetric]
  from replaced(3)[unfolded v] show ?thesis
  proof (cases rule: replaced_wakeup)
    case stopped
    then show ?thesis using others cancelled_none by (simp add: wakeup_session_def)
  next
    case (scheduled delay)
    let ?t = "wakeup_row w u (wakeup_session w) (clean_text (dget args ''prompt'')) (clamped_delay delay)"
    have i: "tg_id ?t = tw_new_id w" by (simp add: wakeup_row_def)
    have ids: "map tg_id ?rows = map tg_id rows" by (induction rows) (auto simp: cancel_pending_def)
    have fresh: "tw_new_id w \<notin> set (map tg_id rows)" and rows': "rows' = ?rows @ [?t]"
      using insert_trigger_Inr [OF scheduled(3)] i ids by metis+
    have new: "?p ?t" by (rule wakeup_is_pending [OF replaced(2) assms(2)])
    have "filter ?p rows' = [?t]" using new cancelled_none unfolding rows' by simp
    moreover have "filter (\<lambda>t. tg_id t = tw_new_id w) rows' = [?t]"
    proof -
      have "tw_new_id w \<notin> set (map tg_id ?rows)" using fresh ids by simp
      then have "filter (\<lambda>t. tg_id t = tw_new_id w) ?rows = []" by (force simp: filter_empty_conv image_iff)
      then show ?thesis unfolding rows' by (simp add: i)
    qed
    moreover have "tw_new_id w \<notin> set (map tg_id (filter ?p rows))" using fresh by auto
    then have "filter (\<lambda>t. tg_id t \<notin> set (map tg_id (filter ?p rows))) rows' = filter (\<lambda>t. \<not> ?p t) rows @ [?t]"
      using others i unfolding rows' by simp
    moreover have "60 \<le> clamped_delay delay" "clamped_delay delay \<le> 3600"
      "60 \<le> delay \<and> delay \<le> 3600 \<longrightarrow> clamped_delay delay = delay"
      by (auto simp: clamped_delay_def SELF_PACE_WAKEUP_MIN_SECONDS_def SELF_PACE_WAKEUP_MAX_SECONDS_def)
    ultimately show ?thesis using scheduled(4) i by (simp add: wakeup_session_def)
  qed
qed simp

section \<open>A trigger that is enabled again\<close>

text \<open>
  Enabling a disabled trigger keeps its old message snapshot: the new one, taken so that only newer
  messages wake the agent, is a runtime key and is dropped.
\<close>

lemma reenabling_keeps_the_old_snapshot:
  assumes "reenabled_row w args d t = Inr t'"
  shows "dget (tg_config t') ''_since_ts'' = dget (tg_config t) ''_since_ts''"
proof -
  have run: "runtime_config_key ''_since_ts''" by code_simp
  have ne: "''_since_ts'' \<notin> set AUTHORITY_KEYS" by (simp add: AUTHORITY_KEYS_def)
  have "dget (preserve_trigger_authority (tg_config t) c) ''_since_ts'' = dget (tg_config t) ''_since_ts''" for c
  proof (cases "''_since_ts'' \<in> set (map fst (tg_config t))")
    case True
    with run ne show ?thesis
      by (simp add: preserve_trigger_authority_def Let_def dget_def carry_entries destination_entries delete_conv)
  next
    case False
    then have "map_of (tg_config t) ''_since_ts'' = None" by (simp add: map_of_eq_None_iff)
    moreover have "dget (strip_runtime c) ''_since_ts'' = PNone" using run by (simp add: dget_strip_runtime)
    ultimately show ?thesis using False ne
      by (simp add: preserve_trigger_authority_def Let_def dget_def carry_entries destination_entries delete_conv)
  qed
  then show ?thesis using assms by (auto simp: reenabled_row_def)
qed

section \<open>The statements at concrete inputs\<close>

definition desk_trigger_world :: "uuid option \<Rightarrow> trigger_world" where
  "desk_trigger_world user = \<lparr>tw_agent = 1, tw_user = user, tw_session = Some ''s1'', tw_declined = False,
     tw_recommendation = PNone, tw_reply = None, tw_latest = None, tw_types = ''cron'', tw_cron_ok = (\<lambda>_. True),
     tw_iso = (\<lambda>_. None), tw_http_url = (\<lambda>_. Inr True), tw_now = 0, tw_token = ''t'', tw_new_id = 8,
     tw_new_name = ''wakeup-1'', tw_limit = None, tw_policy = desk_world, tw_db = desk_db [company_scope] [],
     tw_users = [desk_member], tw_sessions = [], tw_inspection = False, tw_record = (\<lambda>_ _. Inr ())\<rparr>"

text \<open>Arguments that claim another owner and generation, and a reply wait.\<close>

definition forging_args :: config where
  "forging_args = [(''name'', PStr ''mine''), (''type'', PStr ''cron''), (''reason'', PStr ''r''),
     (''config'', PDict [(''expr'', PStr ''* * * * *''), (''created_by'', PStr (uuid_str 3)),
        (''authority_state'', PStr ''quarantined''), (''_authority_generation'', PInt 9)])]"

definition waiting_args :: config where
  "waiting_args = [(''name'', PStr ''wait''), (''type'', PStr ''webhook''), (''reason'', PStr ''r''),
     (''config'', PDict []), (''max_fires'', PInt 1)]"

theorem tools_cannot_forge_authority_witness:
  "\<exists>t \<in> set (tool_calls [(desk_trigger_world (Some 9), SetTrigger forging_args)] [nightly_trigger]).
     tg_id t = 8 \<and> trigger_owner_user_id t = Some 9 \<and> trigger_authority_state t = ''owned''"
proof -
  let ?cs = "[(desk_trigger_world (Some 9), SetTrigger forging_args)]"
  have "list_ex (\<lambda>t. tg_id t = 8) (tool_calls ?cs [nightly_trigger])" by code_simp
  then obtain t where t: "t \<in> set (tool_calls ?cs [nightly_trigger])" "tg_id t = 8" by (auto simp: list_ex_iff)
  have "find (\<lambda>r. tg_id r = tg_id t) [nightly_trigger] = None" using t(2) by (simp add: nightly_trigger_def)
  then show ?thesis using tools_cannot_forge_authority [OF _ t(1)] t
    by (auto simp: desk_trigger_world_def)
qed

theorem tools_change_only_authorized_triggers_witness:
  "\<exists>rows' reply. tool_step (desk_trigger_world (Some 9)) (SetTrigger forging_args) [] = Inr (rows', reply)
     \<and> map trigger_owner_user_id rows' = [Some 9]"
proof -
  let ?w = "desk_trigger_world (Some 9)"
  let ?r = "tool_step ?w (SetTrigger forging_args) []"
  have run: "case ?r of Inl _ \<Rightarrow> False | Inr (rows', _) \<Rightarrow> length rows' = 1" by code_simp
  then obtain rows' reply where r: "?r = Inr (rows', reply)" "length rows' = 1" by (cases ?r) auto
  then obtain t where t: "rows' = [t]" by (auto simp: length_Suc_conv)
  have w: "tw_user ?w = Some 9" by (simp add: desk_trigger_world_def)
  from tools_change_only_authorized_triggers [OF r(1)] have "trigger_owner_user_id t = Some 9"
    by (simp add: t w del: tool_step.simps)
  with r(1) t show ?thesis by auto
qed

lemma ran:
  "(case r of Inl _ \<Rightarrow> False | Inr (rows, reply) \<Rightarrow> P reply) \<Longrightarrow> \<exists>rows reply. r = Inr (rows, reply) \<and> P reply"
  by (cases r) auto

fun created_reply :: "trigger_reply \<Rightarrow> bool" where
  "created_reply (Created i ty) = True"
| "created_reply _ = False"

theorem set_trigger_stays_bounded_witness:
  "\<exists>rows' i ty. handle_set_trigger (desk_trigger_world (Some 9)) waiting_args [nightly_trigger] = Inr (rows', Created i ty)
     \<and> (\<exists>t \<in> set rows'. tg_id t = i \<and> bounded_wait t)"
proof -
  let ?r = "handle_set_trigger (desk_trigger_world (Some 9)) waiting_args [nightly_trigger]"
  have "case ?r of Inl _ \<Rightarrow> False | Inr (_, reply) \<Rightarrow> created_reply reply" by code_simp
  from ran [OF this] obtain rows' reply where r': "?r = Inr (rows', reply)" "created_reply reply" by (elim exE conjE)
  then obtain i ty where reply: "reply = Created i ty" by (cases reply) simp_all
  note r = r'(1) [unfolded reply]
  have "distinct (map tg_id [nightly_trigger])" by simp
  from set_trigger_stays_bounded [OF r this, unfolded Let_def trigger_reply.case]
  have "\<exists>t \<in> set rows'. tg_id t = i \<and> bounded_wait t"
    unfolding bounded_wait_def stated_class_def by (elim conjE bexE, intro bexI conjI)
  with r show ?thesis by (intro exI conjI)
qed

definition loop_args :: config where
  "loop_args = [(''delay_seconds'', PInt 5), (''prompt'', PStr ''go on'')]"

lemma desk_wakeup:
  "handle_schedule_wakeup (desk_trigger_world (Some 9)) loop_args [nightly_trigger]
     = Inr ([nightly_trigger, wakeup_row (desk_trigger_world (Some 9)) 9 ''s1'' ''go on'' 60], Scheduled 8 60 5 [])"
proof -
  let ?w = "desk_trigger_world (Some 9)"
  have w: "tw_user ?w = Some 9" "tw_agent ?w = 1" "wakeup_session ?w = ''s1''" "tw_new_id ?w = 8"
    "tw_new_name ?w = ''wakeup-1''" by code_simp+
  have args: "truthy (dget loop_args ''stop'') = False" "clean_text (dget loop_args ''prompt'') = ''go on''"
    "wakeup_delay loop_args = Inr 5" "clamped_delay 5 = 60" "pending_wakeup 1 ''s1'' 9 nightly_trigger = False"
    by code_simp+
  have "insert_trigger (wakeup_row ?w 9 ''s1'' ''go on'' 60) [nightly_trigger]
      = Inr [nightly_trigger, wakeup_row ?w 9 ''s1'' ''go on'' 60]"
    by (simp add: insert_trigger_def wakeup_row_def w nightly_trigger_def)
  then show ?thesis
    by (simp add: handle_schedule_wakeup_def w args replace_wakeup_def Let_def cancel_pending_def raising_def finish_def)
      (simp add: wakeup_row_def desk_trigger_world_def)
qed

theorem wakeups_replace_each_other_witness:
  "\<exists>rows' i delay cancelled. handle_schedule_wakeup (desk_trigger_world (Some 9)) loop_args [nightly_trigger]
       = Inr (rows', Scheduled i 60 delay cancelled)
     \<and> map tg_id (filter (pending_wakeup 1 ''s1'' 9) rows') = [i]"
proof -
  let ?w = "desk_trigger_world (Some 9)"
  have w: "tw_user ?w = Some 9" "tw_agent ?w = 1" "py_strip (opt_text (tw_session ?w)) = ''s1''" by code_simp+
  have "distinct (map tg_id [nightly_trigger])" by simp
  from wakeups_replace_each_other [OF desk_wakeup w(1) this, unfolded Let_def trigger_reply.case w(2,3)]
  have "map tg_id (filter (pending_wakeup 1 ''s1'' 9) [nightly_trigger, wakeup_row ?w 9 ''s1'' ''go on'' 60]) = [8]"
    by (elim conjE)
  with desk_wakeup show ?thesis by (intro exI conjI)
qed

end
