(* ===== verification/Trigger_Wake.thy ===== *)
theory Trigger_Wake
  imports Trigger_Store
begin

text \<open>
  What a due trigger must pass before it wakes its agent, \<open>backend/app/services/trigger_preflight.py\<close>:
  the runtime options of the triggers, the model they run on, and the preflight with its Plan Mode
  backstop, which asks the leases of \<open>Plan_Lease\<close> and the gate of \<open>Plan_Gate\<close>.
\<close>

section \<open>Options of the triggers of a wake\<close>

record wake_agent =
  wa_id :: uuid
  wa_tenant :: "uuid option"
  wa_status :: "string option"
  wa_type :: "string option"
  wa_primary_model :: "uuid option"

record wake_result =
  pr_ok :: bool
  pr_skip :: "string option"
  pr_summary :: string
  pr_metadata :: config

definition skip :: "string \<Rightarrow> string \<Rightarrow> config \<Rightarrow> wake_result" where
  "skip reason summary metadata =
     \<lparr>pr_ok = False, pr_skip = Some reason, pr_summary = summary, pr_metadata = metadata\<rparr>"

definition trigger_class :: "trigger_row \<Rightarrow> string" where
  "trigger_class t = clean_text (dget (tg_config t) ''trigger_class'')"

definition named_items :: "string \<Rightarrow> trigger_row \<Rightarrow> string list" where
  "named_items k t = (case as_list (dget (tg_config t) k) of
      None \<Rightarrow> []
    | Some vs \<Rightarrow> filter (\<lambda>s. s \<noteq> []) (map (\<lambda>v. py_strip (py_str v)) vs))"

definition context_refs :: "trigger_row \<Rightarrow> pyval list" where
  "context_refs t = (let v = dget (tg_config t) ''context_from'' in
     case as_list v of Some vs \<Rightarrow> vs | None \<Rightarrow> if truthy v then [v] else [])"

definition text_list :: "string list \<Rightarrow> pyval" where
  "text_list xs = PList (map PStr xs)"

definition collect_trigger_runtime_options :: "trigger_row list \<Rightarrow> config" where
  "collect_trigger_runtime_options ts =
     (let classes = filter (\<lambda>c. c \<noteq> []) (map trigger_class ts);
          workdirs = filter truthy (map (\<lambda>t. dget (tg_config t) ''workdir'') ts) in
      [(''execution_class'', case classes of [] \<Rightarrow> PNone | c # _ \<Rightarrow> PStr c),
       (''trigger_classes'', text_list (sort (py_unique classes))),
       (''allowed_tool_names'', text_list (py_unique
          (concat (map (\<lambda>t. named_items ''toolset'' t @ named_items ''allowed_tool_names'' t) ts)))),
       (''excluded_tool_names'', text_list (py_unique (concat (map (named_items ''excluded_tool_names'') ts)))),
       (''context_from'', PList (concat (map context_refs ts))),
       (''workdir'', if workdirs = [] then PNone else PStr (py_str (last workdirs)))])"

definition model_ids_from_triggers :: "trigger_row list \<Rightarrow> string list" where
  "model_ids_from_triggers ts =
     py_unique (filter (\<lambda>s. s \<noteq> []) (map (\<lambda>t. clean_text (dget (tg_config t) ''model_id'')) ts))"

section \<open>The model of a wake\<close>

text \<open>
  What a wake reads: the clock, the parser of ISO times, the hash of the leases, the enabled models of a
  tenant, and the executors of local and of remote agents. An executor that is refused gives the
  details of its refusal.
\<close>

record wake_world =
  ww_now :: int
  ww_iso :: "string \<Rightarrow> int option"
  ww_sha :: "string \<Rightarrow> string"
  ww_model :: "uuid \<Rightarrow> uuid option \<Rightarrow> bool"
  ww_local :: "trigger_row list \<Rightarrow> (pyval, config) res"
  ww_remote :: "(pyval, pyval \<times> pyval) res"

record model_choice =
  mc_model :: "uuid option"
  mc_metadata :: config
  mc_error :: "string option"

definition refused_code :: "pyval \<Rightarrow> string \<Rightarrow> string" where
  "refused_code detail fallback = (case as_dict detail of
      None \<Rightarrow> fallback
    | Some d \<Rightarrow> if has_key d ''code'' then py_str (dget d ''code'') else fallback)"

definition no_choice :: "config \<Rightarrow> string \<Rightarrow> model_choice" where
  "no_choice metadata error = \<lparr>mc_model = None, mc_metadata = metadata, mc_error = Some error\<rparr>"

definition remote_choice :: "wake_world \<Rightarrow> trigger_row list \<Rightarrow> model_choice" where
  "remote_choice w ts =
     (let ids = model_ids_from_triggers ts;
          options = collect_trigger_runtime_options ts;
          controls = filter (\<lambda>k. truthy (dget options k))
            [''workdir'', ''allowed_tool_names'', ''excluded_tool_names'', ''context_from''] in
      if ids \<noteq> [] then no_choice [(''model_ids'', text_list ids)] ''remote_a2a_model_pin_unavailable''
      else if controls \<noteq> []
      then no_choice [(''unsupported_controls'', text_list controls)] ''remote_a2a_trigger_control_unavailable''
      else case ww_remote w of
        Inl detail \<Rightarrow> no_choice [] (refused_code detail ''remote_a2a_executor_unavailable'')
      | Inr (version, digest) \<Rightarrow>
          \<lparr>mc_model = None, mc_metadata =
            [(''execution_target'', PStr ''remote_a2a''), (''configuration_version'', version),
             (''runtime_authorization_sha256'', digest)], mc_error = None\<rparr>)"

definition enabled_choice :: "wake_world \<Rightarrow> wake_agent \<Rightarrow> uuid \<Rightarrow> string \<Rightarrow> string \<Rightarrow> model_choice" where
  "enabled_choice w a m source missing =
     (if ww_model w m (wa_tenant a)
      then \<lparr>mc_model = Some m, mc_metadata =
        [(''model_id'', PStr (uuid_str m)), (''model_source'', PStr source)], mc_error = None\<rparr>
      else no_choice [(''model_id'', PStr (uuid_str m))] missing)"

definition select_trigger_model :: "wake_world \<Rightarrow> wake_agent \<Rightarrow> trigger_row list \<Rightarrow> model_choice" where
  "select_trigger_model w a ts =
     (let ids = model_ids_from_triggers ts in
      if wa_type a = Some ''local_agent'' then
        (case ww_local w ts of
           Inl detail \<Rightarrow> no_choice (case as_dict detail of None \<Rightarrow> [] | Some d \<Rightarrow> d)
             (refused_code detail ''local_agent_executor_unavailable'')
         | Inr metadata \<Rightarrow> \<lparr>mc_model = None, mc_metadata = metadata, mc_error = None\<rparr>)
      else if wa_type a = Some ''remote_a2a'' then remote_choice w ts
      else case ids of
        [] \<Rightarrow> (case wa_primary_model a of
                 None \<Rightarrow> no_choice [] ''no_model''
               | Some m \<Rightarrow> enabled_choice w a m ''agent_primary'' ''model_not_found'')
      | [i] \<Rightarrow> (case uuid_of_text i of
                 None \<Rightarrow> no_choice [(''model_id'', PStr i)] ''invalid_model_pin''
               | Some m \<Rightarrow>
                   if ww_model w m (wa_tenant a) then enabled_choice w a m ''trigger_config'' ''model_pin_not_found''
                   else no_choice [(''model_id'', PStr i)] ''model_pin_not_found'')
      | _ \<Rightarrow> no_choice [(''model_ids'', text_list ids)] ''conflicting_model_pin'')"

section \<open>The Plan Mode backstop\<close>

text \<open>
  The version that a config names. A value that is no integer equals no version, and neither does
  \<open>-1\<close>: versions count from one.
\<close>

fun named_version :: "pyval \<Rightarrow> int option" where
  "named_version PNone = None"
| "named_version (PInt v) = Some v"
| "named_version (PBool b) = Some (if b then 1 else 0)"
| "named_version (PFloat f) = (case float_trunc f of
     Inr n \<Rightarrow> Some (if eq_int (PFloat f) n then n else -1) | Inl _ \<Rightarrow> Some (-1))"
| "named_version _ = Some (-1)"

definition wake_gate_request :: "wake_agent \<Rightarrow> trigger_row \<Rightarrow> gate_request" where
  "wake_gate_request a t =
     (let cfg = tg_config t; plan_id = clean_text (dget cfg ''plan_id'') in
      \<lparr>g_agent = wa_id a, g_requester = IdNone, g_session = None, g_task = IdNone,
       g_kind = ''create_enabled_trigger'', g_target = None, g_ref = PStr (uuid_str (tg_id t)),
       g_plan = (if plan_id = [] then IdNone else IdText plan_id), g_version = named_version (dget cfg ''plan_version''),
       g_hash = given_text (dget cfg ''plan_hash''), g_artifact = PDict [(''config'', PDict cfg)],
       g_evidence = None, g_resolver = None\<rparr>)"

definition plan_skip :: "trigger_row \<Rightarrow> string \<Rightarrow> string \<Rightarrow> wake_result" where
  "plan_skip t summary reason =
     skip ''plan_required'' (''Trigger '' @ quoted (tg_name t) @ summary)
       [(''trigger_id'', PStr (uuid_str (tg_id t))), (''trigger_name'', PStr (tg_name t)),
        (''plan_gate_reason'', PStr reason)]"

definition needs_wake_plan :: "trigger_row \<Rightarrow> bool" where
  "needs_wake_plan t = trigger_is_autonomous (Some (tg_type t)) (Some (trigger_class t))"

definition plan_gate_block ::
  "wake_world \<Rightarrow> wake_agent \<Rightarrow> plan_db \<Rightarrow> trigger_row \<Rightarrow> (string, plan_db \<times> wake_result option) res" where
  "plan_gate_block w a db t =
     (let cfg = tg_config t; plan_id = clean_text (dget cfg ''plan_id'');
          evidence = dget cfg ''plan_authorization'' in
      if \<not> needs_wake_plan t then Inr (db, None)
      else if plan_id \<noteq> [] \<and> as_dict evidence \<noteq> None then
        (case verify_consumed_plan_authorization_lease (ww_sha w) db (id_opt (wa_tenant a)) (IdUuid (wa_id a))
            (IdText plan_id) evidence of
           Inr l \<Rightarrow> Inr (db, None)
         | Inl (LeaseError code msg) \<Rightarrow>
             Inr (db, Some (plan_skip t '' has invalid plan authorization evidence.'' (''plan_authorization_'' @ code)))
         | Inl (OtherError e) \<Rightarrow> Inl e)
      else bind_res (gate_check (ww_sha w) db (wake_gate_request a t) (ww_now w)) (\<lambda>(db, d).
        Inr (db, if d_allowed d then None
          else Some (plan_skip t
            '' has no confirmed plan; create and confirm a plan before enabling this autonomous wake.'' (d_reason d)))))"

fun plan_gate_block_for_triggers ::
  "wake_world \<Rightarrow> wake_agent \<Rightarrow> plan_db \<Rightarrow> trigger_row list \<Rightarrow> (string, plan_db \<times> wake_result option) res" where
  "plan_gate_block_for_triggers w a db [] = Inr (db, None)"
| "plan_gate_block_for_triggers w a db (t # ts) =
     bind_res (plan_gate_block w a db t) (\<lambda>(db, block).
       case block of None \<Rightarrow> plan_gate_block_for_triggers w a db ts | Some r \<Rightarrow> Inr (db, Some r))"

section \<open>The preflight\<close>

definition parse_wake_time :: "wake_world \<Rightarrow> pyval \<Rightarrow> int option" where
  "parse_wake_time w v =
     (if v = PNone \<or> py_strip (py_str v) = [] then None else ww_iso w (py_strip (py_str v)))"

definition in_backoff :: "wake_world \<Rightarrow> trigger_row \<Rightarrow> int option" where
  "in_backoff w t = (case parse_wake_time w (dget (tg_config t) ''backoff_until'') of
      Some until \<Rightarrow> if ww_now w < until then Some until else None
    | None \<Rightarrow> None)"

definition lifecycle_missing :: "trigger_row \<Rightarrow> bool" where
  "lifecycle_missing t =
     (trigger_class t = ''event_wait''
      \<and> \<not> (case tg_max_fires t of Some n \<Rightarrow> n \<noteq> 0 | None \<Rightarrow> False)
      \<and> \<not> truthy (dget (tg_config t) ''max_fires'')
      \<and> tg_expires t = None \<and> \<not> truthy (dget (tg_config t) ''expires_at''))"

definition trigger_skip :: "wake_world \<Rightarrow> trigger_row \<Rightarrow> wake_result option" where
  "trigger_skip w t =
     (case in_backoff w t of
        Some until \<Rightarrow> Some (skip ''trigger_backoff_active''
          (''Trigger '' @ quoted (tg_name t) @ '' is in backoff until '' @ isoformat until @ ''.'')
          [(''trigger_id'', PStr (uuid_str (tg_id t))), (''trigger_name'', PStr (tg_name t))])
      | None \<Rightarrow>
          if lifecycle_missing t
          then Some (skip ''event_wait_missing_lifecycle'' ''event_wait trigger requires max_fires or expires_at.''
            [(''trigger_name'', PStr (tg_name t))])
          else None)"

definition model_skip :: "wake_world \<Rightarrow> wake_agent \<Rightarrow> bool \<Rightarrow> trigger_row list \<Rightarrow> wake_result option" where
  "model_skip w a model ts =
     (if model then None
      else if wa_type a = Some ''remote_a2a'' \<or> wa_type a = Some ''local_agent'' then
        (let c = select_trigger_model w a ts in
         case mc_error c of
           None \<Rightarrow> None
         | Some e \<Rightarrow> if e = [] then None else Some (skip e ''The selected executor is unavailable.'' (mc_metadata c)))
      else Some (skip ''no_model'' ''No model available for trigger wake.'' []))"

definition STOPPED_AGENT_STATUSES :: "string list" where
  "STOPPED_AGENT_STATUSES = [''expired'', ''stopped'', ''error'', ''archived'']"

definition evaluate_trigger_preflight ::
  "wake_world \<Rightarrow> wake_agent \<Rightarrow> bool \<Rightarrow> plan_db \<Rightarrow> trigger_row list \<Rightarrow> (string, plan_db \<times> wake_result) res" where
  "evaluate_trigger_preflight w a model db ts =
     (case model_skip w a model ts of
        Some r \<Rightarrow> Inr (db, r)
      | None \<Rightarrow>
          if opt_text (wa_status a) \<in> set STOPPED_AGENT_STATUSES
          then Inr (db, skip ''agent_not_runnable'' (''Agent status is '' @ opt_text (wa_status a) @ ''.'')
            [(''agent_status'', PStr (opt_text (wa_status a)))])
          else case first_some (map (trigger_skip w) ts) of
            Some r \<Rightarrow> Inr (db, r)
          | None \<Rightarrow>
              bind_res (plan_gate_block_for_triggers w a db ts) (\<lambda>(db, block).
                Inr (db, case block of
                    Some r \<Rightarrow> r
                  | None \<Rightarrow> \<lparr>pr_ok = True, pr_skip = None, pr_summary = [],
                      pr_metadata = collect_trigger_runtime_options ts\<rparr>)))"

section \<open>What the backstop lets through\<close>

text \<open>A wake has no requester, so the gate can only exempt it.\<close>

lemma gate_without_requester:
  assumes "gate_check sha db rq now = Inr (db', d)" and "g_requester rq = IdNone"
  shows "db' = db \<and> (d_allowed d \<longrightarrow> g_plan rq = IdNone \<and> resolve_exempt_reason rq \<noteq> None)"
proof -
  have block: "\<not> d_allowed (blocked r p)" "\<not> d_allowed (blocked_for q r m)" for r p q m
    by (simp_all add: blocked_for_def blocked_def)
  from assms show ?thesis
    by (auto simp: gate_check_def check_confirmed_plan_def consume_for_gate_def Let_def block
      split: option.splits if_splits)
qed

definition exempt_wake :: "trigger_row \<Rightarrow> bool" where
  "exempt_wake t \<longleftrightarrow> clean_text (dget (tg_config t) ''plan_id'') = []
     \<and> extract_plan_exempt_reason (PDict [(''config'', PDict (tg_config t))]) \<noteq> None"

definition verified_wake :: "wake_world \<Rightarrow> wake_agent \<Rightarrow> plan_db \<Rightarrow> trigger_row \<Rightarrow> bool" where
  "verified_wake w a db t \<longleftrightarrow> (\<exists>l. verify_consumed_plan_authorization_lease (ww_sha w) db (id_opt (wa_tenant a))
     (IdUuid (wa_id a)) (IdText (clean_text (dget (tg_config t) ''plan_id''))) (dget (tg_config t) ''plan_authorization'')
     = Inr l)"

lemma skip_not_ok [simp]: "\<not> pr_ok (skip r m d)" "\<not> pr_ok (plan_skip t m r)" "pr_skip (plan_skip t m r) = Some ''plan_required''"
  by (simp_all add: skip_def plan_skip_def)

lemma wake_request [simp]:
  "g_requester (wake_gate_request a t) = IdNone"
  "g_plan (wake_gate_request a t) = IdNone \<longleftrightarrow> clean_text (dget (tg_config t) ''plan_id'') = []"
  "resolve_exempt_reason (wake_gate_request a t) = extract_plan_exempt_reason (PDict [(''config'', PDict (tg_config t))])"
  by (auto simp: wake_gate_request_def Let_def resolve_exempt_reason_def split: option.split)

lemma gate_block:
  assumes "plan_gate_block w a db t = Inr (db', block)"
  shows "db' = db \<and> (block = None \<longrightarrow> needs_wake_plan t \<longrightarrow> verified_wake w a db t \<or> exempt_wake t)
    \<and> (\<forall>r. block = Some r \<longrightarrow> pr_skip r = Some ''plan_required'' \<and> \<not> pr_ok r)"
proof (cases "needs_wake_plan t")
  case False
  with assms show ?thesis by (simp add: plan_gate_block_def)
next
  case True
  let ?verify = "verify_consumed_plan_authorization_lease (ww_sha w) db (id_opt (wa_tenant a)) (IdUuid (wa_id a))
      (IdText (clean_text (dget (tg_config t) ''plan_id''))) (dget (tg_config t) ''plan_authorization'')"
  show ?thesis
  proof (cases "clean_text (dget (tg_config t) ''plan_id'') \<noteq> [] \<and> as_dict (dget (tg_config t) ''plan_authorization'') \<noteq> None")
    case verify: True
    show ?thesis
    proof (cases ?verify)
      case (Inl e)
      with assms True verify show ?thesis by (cases e) (auto simp: plan_gate_block_def)
    next
      case (Inr l)
      with assms True verify show ?thesis by (auto simp: plan_gate_block_def verified_wake_def)
    qed
  next
    case False
    with assms True obtain d where "gate_check (ww_sha w) db (wake_gate_request a t) (ww_now w) = Inr (db', d)"
      and block: "block = (if d_allowed d then None else Some (plan_skip t
            '' has no confirmed plan; create and confirm a plan before enabling this autonomous wake.'' (d_reason d)))"
      by (auto simp: plan_gate_block_def)
    from gate_without_requester [OF this(1) wake_request(1)] block show ?thesis by (auto simp: exempt_wake_def)
  qed
qed

lemma gate_blocks:
  assumes "plan_gate_block_for_triggers w a db ts = Inr (db', block)"
  shows "db' = db \<and> (block = None \<longrightarrow> (\<forall>t \<in> set ts. needs_wake_plan t \<longrightarrow> verified_wake w a db t \<or> exempt_wake t))
    \<and> (\<forall>r. block = Some r \<longrightarrow> pr_skip r = Some ''plan_required'' \<and> \<not> pr_ok r)"
  using assms
proof (induction ts)
  case (Cons t ts)
  from Cons.prems obtain db1 b where step: "plan_gate_block w a db t = Inr (db1, b)"
    and rest: "(case b of None \<Rightarrow> plan_gate_block_for_triggers w a db1 ts | Some r \<Rightarrow> Inr (db1, Some r)) = Inr (db', block)"
    by auto
  from gate_block [OF step] have db1: "db1 = db" by simp
  show ?case
  proof (cases b)
    case None
    with rest db1 have "plan_gate_block_for_triggers w a db ts = Inr (db', block)" by simp
    from Cons.IH [OF this] gate_block [OF step] None show ?thesis by auto
  next
    case (Some r)
    with rest gate_block [OF step] show ?thesis by auto
  qed
qed simp

lemma first_skip_None: "first_some xs = None \<longleftrightarrow> (\<forall>x \<in> set xs. x = None)"
  by (induction xs rule: first_some.induct) auto

lemma first_skip_in: "first_some xs = Some r \<Longrightarrow> Some r \<in> set xs"
  by (induction xs rule: first_some.induct) auto

lemma trigger_skip_bad: "trigger_skip w t = Some r \<Longrightarrow> \<not> pr_ok r"
  by (auto simp: trigger_skip_def split: option.splits if_splits)

lemma model_skip_bad: "model_skip w a model ts = Some r \<Longrightarrow> \<not> pr_ok r"
  by (auto simp: model_skip_def Let_def split: option.splits if_splits)

lemma preflight_cases:
  assumes "evaluate_trigger_preflight w a model db ts = Inr (db', r)"
  shows "db' = db \<and> (pr_ok r \<longrightarrow> opt_text (wa_status a) \<notin> set STOPPED_AGENT_STATUSES
    \<and> (\<forall>t \<in> set ts. trigger_skip w t = None \<and> (needs_wake_plan t \<longrightarrow> verified_wake w a db t \<or> exempt_wake t)))"
proof (cases "model_skip w a model ts")
  case (Some s)
  with assms model_skip_bad show ?thesis by (auto simp: evaluate_trigger_preflight_def)
next
  case model: None
  show ?thesis
  proof (cases "opt_text (wa_status a) \<in> set STOPPED_AGENT_STATUSES")
    case True
    with assms model show ?thesis by (auto simp: evaluate_trigger_preflight_def)
  next
    case status: False
    show ?thesis
    proof (cases "first_some (map (trigger_skip w) ts)")
      case (Some s)
      then have "Some s \<in> set (map (trigger_skip w) ts)" by (rule first_skip_in)
      then obtain t where "trigger_skip w t = Some s" by auto
      with Some assms model status trigger_skip_bad show ?thesis by (auto simp: evaluate_trigger_preflight_def)
    next
      case None
      with assms model status obtain block where blocks: "plan_gate_block_for_triggers w a db ts = Inr (db', block)"
        and r: "case block of Some s \<Rightarrow> r = s | None \<Rightarrow> pr_ok r"
        by (auto simp: evaluate_trigger_preflight_def split: option.splits)
      from None have "\<forall>t \<in> set ts. trigger_skip w t = None" by (auto simp: first_skip_None)
      with gate_blocks [OF blocks] r status show ?thesis by (auto split: option.splits)
    qed
  qed
qed

lemma find_member: "find P xs = Some x \<Longrightarrow> x \<in> set xs \<and> P x"
  by (auto simp: find_Some_iff)

text \<open>
  The evidence of a config backs the plan that the config names: it is a well-formed piece of evidence
  whose lease is a plan authorization of this agent and company, approved, consumed and executed; the
  ticket of the lease binds this very plan in its confirmed version and content; and the action, the
  target, the requester, the session, the task and the receipt of the evidence are those of the ticket.
\<close>

definition plan_backs :: "(string \<Rightarrow> string) \<Rightarrow> wake_agent \<Rightarrow> plan_db \<Rightarrow> config \<Rightarrow> bool" where
  "plan_backs sha a db d \<longleftrightarrow> (\<exists>pid plan ev row b.
       uuid_of_text (clean_text (dget d ''plan_id'')) = Some pid \<and> plans db pid = Some plan \<and> p_status plan = ''confirmed''
     \<and> dget d ''plan_authorization'' = PDict ev \<and> dget ev ''schema'' = PStr EVIDENCE_SCHEMA
     \<and> row \<in> set (approvals db) \<and> parse_id (id_of_pyval (dget ev ''lease_id'')) = Some (ar_id row)
     \<and> ar_action_type row = LEASE_ACTION_TYPE \<and> ar_agent row = wa_id a \<and> Some (ar_tenant row) = wa_tenant a
     \<and> ar_status row = ''approved'' \<and> ar_consumed_at row \<noteq> None \<and> ar_execution_status row = ''succeeded''
     \<and> binding_from_ticket sha row = Inr b
     \<and> b_plan b = pid \<and> b_version b = p_version plan \<and> b_hash b = opt_text (p_hash plan)
     \<and> opt_str_of (dget ev ''canonical_args_hash'') = Some (b_args_hash b)
     \<and> opt_str_of (dget ev ''target_ref'') = Some (b_target b)
     \<and> opt_str_of (dget ev ''requester_user_id'') = Some (uuid_str (b_requester b))
     \<and> opt_str_of (dget ev ''session_id'') = b_session b
     \<and> opt_str_of (dget ev ''runtime_task_id'') = map_option uuid_str (b_task b)
     \<and> raw_text (dget ev ''evidence_id'') = raw_text (dget (ar_receipt row) ''evidence_id'')
     \<and> raw_text (dget (ar_receipt row) ''canonical_args_hash'') = b_args_hash b)"

lemma plan_backs_id: "plan_backs sha a db d \<Longrightarrow> \<exists>pid. uuid_of_text (clean_text (dget d ''plan_id'')) = Some pid"
  by (auto simp: plan_backs_def)

lemma eq_str_value: "eq_str v s \<longleftrightarrow> v = PStr s"
  by (cases v) auto

lemma verified_plan:
  assumes "verified_wake w a db t"
  shows "plan_backs (ww_sha w) a db (tg_config t)"
proof -
  let ?ev = "dget (tg_config t) ''plan_authorization''" and ?pid = "clean_text (dget (tg_config t) ''plan_id'')"
  obtain l where l: "verify_consumed_plan_authorization_lease (ww_sha w) db (id_opt (wa_tenant a)) (IdUuid (wa_id a))
      (IdText ?pid) ?ev = Inr l"
    using assms by (auto simp: verified_wake_def)
  then obtain ev where ev: "?ev = PDict ev"
    by (cases ?ev) (simp_all add: verify_consumed_plan_authorization_lease_def)
  from l obtain tenant pid lid where ids: "dget ev ''schema'' = PStr EVIDENCE_SCHEMA"
      "wa_tenant a = Some tenant" "uuid_of_text ?pid = Some pid"
      "parse_id (id_of_pyval (dget ev ''lease_id'')) = Some lid"
    by (cases "wa_tenant a") (auto simp: verify_consumed_plan_authorization_lease_def ev eq_str_value)
  with l obtain row where row: "find (\<lambda>r. ar_id r = lid) (approvals db) = Some row"
    by (cases "find (\<lambda>r. ar_id r = lid) (approvals db)") (auto simp: verify_consumed_plan_authorization_lease_def ev)
  note v = l [unfolded verify_consumed_plan_authorization_lease_def ev as_dict.simps option.case ids]
  from v obtain b where b: "binding_from_ticket (ww_sha w) row = Inr b"
    by (auto simp: ids row)
  from v obtain plan where plan: "plans db pid = Some plan"
    by (auto simp: ids row split: option.splits)
  from find_member [OF row] v show ?thesis
    unfolding plan_backs_def
    by (intro exI [of _ pid] exI [of _ plan] exI [of _ ev] exI [of _ row] exI [of _ b])
      (auto simp: ids ev row b plan)
qed

section \<open>Triggers without a proof\<close>

text \<open>A config that carries neither a plan id nor an exemption.\<close>

definition proofless :: "config \<Rightarrow> bool" where
  "proofless d \<longleftrightarrow> dget d ''plan_id'' = PNone
     \<and> (case as_dict (dget d ''metadata'') of None \<Rightarrow> True | Some m \<Rightarrow> dget m ''plan_exempt_reason'' = PNone)"

lemma proofless_same:
  "proofless d \<Longrightarrow> dget e ''plan_id'' = dget d ''plan_id'' \<Longrightarrow> dget e ''metadata'' = dget d ''metadata'' \<Longrightarrow> proofless e"
  by (simp add: proofless_def)

lemma proofless_no_exemption:
  assumes "proofless d"
  shows "extract_plan_exempt_reason (PDict [(''config'', PDict d)]) = None"
proof -
  have "nonblank (nested (dget d ''metadata'') [''plan_exempt_reason'']) = None"
    using assms by (auto simp: proofless_def split: option.splits)
  then show ?thesis by (simp add: extract_plan_exempt_reason_def dget_def)
qed

lemma proofless_wake_fails:
  assumes "proofless (tg_config t)" and "needs_wake_plan t" and "t \<in> set ts"
    and "evaluate_trigger_preflight w a model db ts = Inr (db', r)"
  shows "\<not> pr_ok r"
proof
  assume "pr_ok r"
  with preflight_cases [OF assms(4)] assms(2,3) have "verified_wake w a db t \<or> exempt_wake t" by blast
  moreover have "\<not> exempt_wake t" using proofless_no_exemption [OF assms(1)] by (simp add: exempt_wake_def)
  moreover have "\<not> verified_wake w a db t"
  proof
    assume "verified_wake w a db t"
    from plan_backs_id [OF verified_plan [OF this]] assms(1) obtain pid where "uuid_of_text [] = Some pid" by (auto simp: proofless_def)
    moreover have "uuid_of_text [] = None" by code_simp
    ultimately show False by simp
  qed
  ultimately show False by blast
qed

lemma stripped_proofless:
  assumes "strip_trigger_untrusted_config v = Inr d"
  shows "proofless d"
proof -
  obtain c where d: "d = strip_metadata (strip_metadata (without_keys ([''plan_id'', ''plan_version'', ''plan_hash'',
      ''plan_authorization'', ''confirmed_plan_session_id''] @ PRIVATE_AUTHORITY_METADATA_KEYS) c) ''metadata'') ''metadata_json''"
    using assms by (auto simp: strip_trigger_untrusted_config_def Let_def)
  have other: "dget (strip_metadata c k) j = dget c j" if "j \<noteq> k" for c k j
    using that by (simp add: strip_metadata_def Let_def split: option.split)
  have meta: "case as_dict (dget (strip_metadata c ''metadata'') ''metadata'') of
      None \<Rightarrow> True | Some m \<Rightarrow> dget m ''plan_exempt_reason'' = PNone" for c
    by (auto simp: strip_metadata_def Let_def dget_without_keys PRIVATE_AUTHORITY_METADATA_KEYS_def split: option.splits)
  show ?thesis unfolding d using meta by (simp add: proofless_def other dget_without_keys)
qed

lemma validated_key:
  assumes "validate_trigger_config w ty (PDict c) = Inr d" and "k \<noteq> ''minutes''"
  shows "dget d k = dget c k"
proof -
  have "validate_interval c = Inr d \<Longrightarrow> dget d k = dget c k"
    using assms(2) by (auto simp: validate_interval_def Let_def split: sum.splits if_splits)
  moreover have "validate_on_message c = Inr d \<Longrightarrow> dget d k = dget c k"
    by (auto simp: validate_on_message_def Let_def split: if_splits)
  ultimately show ?thesis using assms(1)
    by (auto simp: validate_trigger_config_def split: if_splits)
qed

lemma resolved_key: "resolve_trigger_class args c ty = Inr d \<Longrightarrow> k \<noteq> ''trigger_class'' \<Longrightarrow> dget d k = dget c k"
  by (auto simp: resolve_trigger_class_def Let_def split: if_splits)

lemma prepared_proofless:
  assumes "prepare_trigger w args = Inr d" and "as_dict (dget args ''_plan_authorization'') = None" and "\<not> tw_declined w"
  shows "proofless (td_config d)"
proof (rule prepared_stages [OF assms(1)])
  fix c0 c1 c2 c3 c4 c5
  assume st: "strip_trigger_untrusted_config (dget args ''config'') = Inr c0"
    "validate_trigger_config w (td_type d) (PDict c0) = Inr c1" "resolve_trigger_class args c1 (td_type d) = Inr c2"
    "trusted_delivery w args c2 = Inr c3" "apply_trigger_delivery c3 args = Inr c4"
    "stamp_plan args (complete_config w (td_type d) c4) = Inr c5"
    "\<exists>c6. stamp_user_declined w c5 = Inr c6 \<and> td_config d = stamp_trigger_authority c6 (tw_user w) (tw_session w)"
  have c5: "c5 = complete_config w (td_type d) c4"
    using st(6) assms(2) by (simp add: stamp_plan_def plan_evidence_def dget_def Let_def split: if_splits)
  have c6: "td_config d = stamp_trigger_authority c5 (tw_user w) (tw_session w)"
    using st(7) assms(3) by (auto simp: stamp_user_declined_def)
  have "dget (td_config d) k = dget c0 k" if k: "k \<in> {''plan_id'', ''metadata''}" for k
  proof -
    have "dget (td_config d) k = dget c5 k" unfolding c6 by (rule stamp_key) (use k in auto)
    also have "\<dots> = dget c4 k" unfolding c5 by (rule complete_key) (use k in auto)
    also have "\<dots> = dget c3 k" by (rule delivery_key [OF st(5)]) (use k in auto)
    also have "\<dots> = dget c2 k" by (rule trusted_key [OF st(4)]) (use k in auto)
    also have "\<dots> = dget c1 k" by (rule resolved_key [OF st(3)]) (use k in auto)
    also have "\<dots> = dget c0 k" by (rule validated_key [OF st(2)]) (use k in auto)
    finally show ?thesis .
  qed
  then show ?thesis using proofless_same [OF stripped_proofless [OF st(1)]] by blast
qed

lemma with_decision_key: "k \<noteq> ''schedule_decision_entry'' \<Longrightarrow> dget (with_decision args i d) k = dget (td_config d) k"
  by (simp add: with_decision_def)

lemma stored_proofless:
  assumes proof_free: "proofless (td_config d)" and store: "store_trigger w args d rows = Inr (rows', reply)"
    and reply: "case reply of Created j _ \<Rightarrow> j = i | Reenabled j _ \<Rightarrow> j = i | _ \<Rightarrow> False"
    and t: "t \<in> set rows'" "tg_id t = i"
  shows "proofless (tg_config t)"
proof (cases "find_named (tw_agent w) (td_name d) rows")
  case None
  with store obtain t0 where t0: "new_trigger_row w args d = Inr t0" and ins: "insert_trigger t0 rows = Inr rows'"
    and r: "reply = Created (tg_id t0) (td_type d)"
    by (auto simp: store_trigger_def split: if_splits)
  have "t = t0" using insert_trigger_Inr [OF ins] t reply r by (auto simp: image_iff)
  moreover have "tg_config t0 = with_decision args (tw_new_id w) d" using t0 by (auto simp: new_trigger_row_def)
  ultimately show ?thesis using proof_free by (auto intro: proofless_same simp: with_decision_key)
next
  case (Some t0)
  with store have "reenable_trigger w args d rows t0 = Inr (rows', reply)"
    by (auto simp: store_trigger_def split: if_splits)
  then obtain t' where t': "reenabled_row w args d t0 = Inr t'" and rows': "rows' = replace_trigger t' rows"
    and r: "reply = Reenabled (tg_id t0) (tg_fires t0)"
    by (auto simp: reenable_trigger_def split: option.splits if_splits)
  have id': "tg_id t' = tg_id t0" and c: "tg_config t' = preserve_trigger_authority (tg_config t0) (with_decision args (tg_id t0) d)"
    using t' by (auto simp: reenabled_row_def)
  have "t = t'" using t reply r id' unfolding rows' replace_trigger_def by auto
  moreover have run: "\<not> runtime_config_key ''plan_id''" "\<not> runtime_config_key ''metadata''" by code_simp+
  have "dget (tg_config t') ''plan_id'' = dget (td_config d) ''plan_id''"
    "dget (tg_config t') ''metadata'' = dget (td_config d) ''metadata''"
    unfolding c using run by (simp_all add: preserve_other with_decision_key AUTHORITY_KEYS_def)
  ultimately show ?thesis using proof_free proofless_same by blast
qed

section \<open>The backstop is sound\<close>

text \<open>
  Claim C9. A wake that passes the preflight leaves the plans and leases as they were, its agent can
  run, none of its triggers is backing off or is an endless event wait, and each autonomous trigger is
  backed: by evidence in its config of a consumed lease of the agent that authorized the very plan the
  config names, which is confirmed and unchanged since (the lease, the plan and the evidence agree in every
  field), or by a stated exemption of a config that names no plan.
\<close>

theorem woken_triggers_are_backed:
  assumes "evaluate_trigger_preflight w a model db ts = Inr (db', r)" and "pr_ok r"
  shows "db' = db \<and> opt_text (wa_status a) \<notin> set [''expired'', ''stopped'', ''error'', ''archived'']
    \<and> (\<forall>t \<in> set ts. in_backoff w t = None \<and> \<not> lifecycle_missing t
        \<and> (if trigger_is_autonomous (Some (tg_type t)) (Some (trigger_class t))
           then plan_backs (ww_sha w) a db (tg_config t)
              \<or> clean_text (dget (tg_config t) ''plan_id'') = []
                \<and> extract_plan_exempt_reason (PDict [(''config'', PDict (tg_config t))]) \<noteq> None
           else True))"
proof -
  note p = preflight_cases [OF assms(1)]
  have "in_backoff w t = None \<and> \<not> lifecycle_missing t" if "t \<in> set ts" for t
  proof -
    have "trigger_skip w t = None" using p assms(2) that by blast
    then show ?thesis by (auto simp: trigger_skip_def split: option.splits if_splits)
  qed
  moreover have "verified_wake w a db t \<or> exempt_wake t"
    if "t \<in> set ts" "trigger_is_autonomous (Some (tg_type t)) (Some (trigger_class t))" for t
    using p assms(2) that by (auto simp: needs_wake_plan_def)
  ultimately show ?thesis using p assms(2) verified_plan unfolding exempt_wake_def STOPPED_AGENT_STATUSES_def
    by (metis (no_types, lifting))
qed

text \<open>
  Claim C12. A trigger that the agent set without a confirmed plan never wakes it. When a call sets or
  enables a trigger without the evidence of an authorized plan and without the user's refusal of Plan
  Mode, then whatever plan ids, hashes, evidence or exemptions its arguments claim, no wake with this
  trigger passes the preflight as long as its type and class make it autonomous.
\<close>

theorem unproven_triggers_never_wake:
  assumes "handle_set_trigger w args rows = Inr (rows', reply)"
    and "case reply of Created j _ \<Rightarrow> j = i | Reenabled j _ \<Rightarrow> j = i | _ \<Rightarrow> False"
    and "as_dict (dget args ''_plan_authorization'') = None" and "\<not> tw_declined w"
    and "t \<in> set rows'" and "tg_id t = i"
    and "trigger_is_autonomous (Some (tg_type t)) (Some (trigger_class t))"
    and "t \<in> set ts"
  shows "\<not> (\<exists>db' r. evaluate_trigger_preflight ww a model db ts = Inr (db', r) \<and> pr_ok r)"
proof -
  from assms(1) obtain d where d: "prepare_trigger w args = Inr d" "store_trigger w args d rows = Inr (rows', reply)"
    unfolding handle_set_trigger_def by (rule finish_cases) (use assms(2) in auto)
  from stored_proofless [OF prepared_proofless [OF d(1) assms(3,4)] d(2) assms(2,5,6)] assms(7)
  show ?thesis using proofless_wake_fails assms(8) by (auto simp: needs_wake_plan_def)
qed

text \<open>
  A wakeup that the agent schedules for itself never wakes it: the call stamps no plan on
  the trigger, which is autonomous, so for any agent, model, plans and leases the preflight of a wake with
  it does not pass.
\<close>

theorem scheduled_wakeups_never_wake:
  assumes "handle_schedule_wakeup w args rows = Inr (rows', Scheduled i clamped delay cancelled)"
    and "t \<in> set rows'" and "tg_id t = i"
    and "t \<in> set ts"
  shows "\<not> (\<exists>db' r. evaluate_trigger_preflight ww a model db ts = Inr (db', r) \<and> pr_ok r)"
  using assms(1)
proof (cases rule: wakeup_result)
  case (replaced u)
  from replaced(3) show ?thesis
  proof (cases rule: replaced_wakeup)
    case (scheduled delay')
    let ?t = "wakeup_row w u (wakeup_session w) (clean_text (dget args ''prompt'')) (clamped_delay delay')"
    have i: "i = tg_id ?t" using scheduled(4) by (simp add: wakeup_row_def)
    then have t: "t = ?t" using insert_trigger_Inr [OF scheduled(3)] assms(2,3) by (auto simp: image_iff)
    have "dget (tg_config ?t) k = PNone" if "k \<in> {''plan_id'', ''metadata''}" for k
      using that by (auto simp: wakeup_row_def stamp_key) (simp_all add: dget_def)
    then have "proofless (tg_config t)" unfolding t by (simp add: proofless_def)
    moreover have "dget (tg_config ?t) ''trigger_class'' = PStr ''scheduled_job''"
      by (simp add: wakeup_row_def stamp_key) (simp add: dget_def)
    moreover have "py_strip ''scheduled_job'' = ''scheduled_job''"
      "trigger_is_autonomous (Some ''once'') (Some ''scheduled_job'')" by code_simp+
    ultimately have "proofless (tg_config t)" "needs_wake_plan t"
      unfolding t by (simp_all add: needs_wake_plan_def trigger_class_def) (simp add: wakeup_row_def)
    then show ?thesis using proofless_wake_fails assms(4) by blast
  qed simp
qed simp

text \<open>
  The class \<open>system_maintenance\<close>, which the tools offer to the agent, needs no plan: a call that
  sets any trigger under this class is not governed by the plan gate, and the backstop clears every
  trigger stored with it, whatever its type and evidence, without reading a plan.
\<close>

theorem maintenance_class_needs_no_plan:
  assumes "as_dict arguments = Some d" and "trigger_class_from_arguments arguments = Some ''system_maintenance''"
    and "trigger_class t = ''system_maintenance''"
  shows "set_trigger_action_kind declined arguments = Inr None \<and> plan_gate_block w a db t = Inr (db, None)"
proof -
  have "\<not> trigger_is_autonomous ty (Some ''system_maintenance'')" for ty
  proof -
    have "py_strip (opt_text (Some ''system_maintenance'')) \<in> set PLATFORM_INTERNAL_TRIGGER_CLASSES" by code_simp
    then show ?thesis by (simp add: trigger_is_autonomous_def)
  qed
  then show ?thesis using assms
    by (auto simp: set_trigger_action_kind_def plan_gate_block_def needs_wake_plan_def Let_def)
qed

section \<open>The statements at concrete inputs\<close>

definition desk_wake :: wake_world where
  "desk_wake = \<lparr>ww_now = 100, ww_iso = (\<lambda>_. None), ww_sha = id, ww_model = (\<lambda>_ _. True), ww_local = (\<lambda>_. Inr []),
     ww_remote = Inl PNone\<rparr>"

definition desk_wake_agent :: wake_agent where
  "desk_wake_agent = \<lparr>wa_id = 1, wa_tenant = Some 5, wa_status = Some ''active'', wa_type = None,
     wa_primary_model = Some 4\<rparr>"

definition no_plans :: plan_db where
  "no_plans = \<lparr>plans = (\<lambda>_. None), approvals = []\<rparr>"

definition exempt_trigger :: trigger_row where
  "exempt_trigger = nightly_trigger\<lparr>tg_config := [(''metadata'', PDict [(''plan_exempt_reason'', PStr ''blueprint'')])]\<rparr>"

theorem woken_triggers_are_backed_witness:
  "\<exists>r. evaluate_trigger_preflight desk_wake desk_wake_agent True no_plans [exempt_trigger] = Inr (no_plans, r)
     \<and> extract_plan_exempt_reason (PDict [(''config'', PDict (tg_config exempt_trigger))]) \<noteq> None"
proof -
  let ?e = "evaluate_trigger_preflight desk_wake desk_wake_agent True no_plans [exempt_trigger]"
  have "case ?e of Inl _ \<Rightarrow> False | Inr (_, r) \<Rightarrow> pr_ok r" by code_simp
  then obtain db' r where r: "?e = Inr (db', r)" "pr_ok r" by (cases ?e) auto
  have "trigger_is_autonomous (Some (tg_type exempt_trigger)) (Some (trigger_class exempt_trigger))" by code_simp
  moreover have "uuid_of_text (clean_text (dget (tg_config exempt_trigger) ''plan_id'')) = None" by code_simp
  ultimately show ?thesis using woken_triggers_are_backed [OF r] r(1) by (auto dest: plan_backs_id)
qed

theorem unproven_triggers_never_wake_witness:
  "\<exists>rows' i ty. handle_set_trigger (desk_trigger_world (Some 9)) forging_args [] = Inr (rows', Created i ty)
     \<and> \<not> (\<exists>db' r. evaluate_trigger_preflight desk_wake desk_wake_agent True no_plans rows' = Inr (db', r) \<and> pr_ok r)"
proof -
  let ?r = "handle_set_trigger (desk_trigger_world (Some 9)) forging_args []"
  let ?auto = "\<lambda>t. trigger_is_autonomous (Some (tg_type t)) (Some (trigger_class t))"
  have "case ?r of Inl _ \<Rightarrow> False
      | Inr (rows', reply) \<Rightarrow> created_reply reply \<and> length rows' = 1 \<and> list_all ?auto rows' \<and> list_all (\<lambda>t. tg_id t = 8) rows'"
    by code_simp
  then obtain rows' reply where r': "?r = Inr (rows', reply)" "created_reply reply"
    and rows': "length rows' = 1" "list_all ?auto rows'" "list_all (\<lambda>t. tg_id t = 8) rows'" by (cases ?r) auto
  then obtain t where t: "rows' = [t]" "?auto t" by (auto simp: length_Suc_conv)
  obtain i ty where reply: "reply = Created i ty" using r'(2) by (cases reply) simp_all
  note r = r'(1) [unfolded reply]
  from set_trigger_stays_bounded [OF r, unfolded Let_def trigger_reply.case] have i: "tg_id t = i" by (auto simp: t)
  have "as_dict (dget forging_args ''_plan_authorization'') = None" "\<not> tw_declined (desk_trigger_world (Some 9))"
    by code_simp+
  from unproven_triggers_never_wake [OF r _ this _ i t(2), where ts = "[t]"]
  have "\<not> (\<exists>db' r. evaluate_trigger_preflight desk_wake desk_wake_agent True no_plans [t] = Inr (db', r) \<and> pr_ok r)"
    by (simp add: t)
  with r show ?thesis unfolding t(1) by blast
qed

theorem scheduled_wakeups_never_wake_witness:
  "\<not> (\<exists>db' r. evaluate_trigger_preflight desk_wake desk_wake_agent True no_plans
      [wakeup_row (desk_trigger_world (Some 9)) 9 ''s1'' ''go on'' 60] = Inr (db', r) \<and> pr_ok r)"
  by (rule scheduled_wakeups_never_wake [OF desk_wakeup])
    (simp_all add: wakeup_row_def desk_trigger_world_def)

theorem maintenance_class_needs_no_plan_witness:
  "set_trigger_action_kind False (PDict [(''type'', PStr ''cron''), (''trigger_class'', PStr ''system_maintenance'')]) = Inr None
     \<and> plan_gate_block desk_wake desk_wake_agent no_plans
         (nightly_trigger\<lparr>tg_config := [(''trigger_class'', PStr ''system_maintenance'')]\<rparr>) = Inr (no_plans, None)"
  by (rule maintenance_class_needs_no_plan) code_simp+

end
