(* ===== verification/Trigger_Fire.thy ===== *)
theory Trigger_Fire
  imports Trigger_Authority
begin

text \<open>
  When a trigger fires: the evaluation, the fire key and its lease, the batches of a tick and the mark
  of a started fire, from \<open>backend/app/services/trigger_daemon.py\<close>. Times are microseconds since the
  epoch. An exception is named by its class; the tick skips a trigger whose evaluation raises.
\<close>

section \<open>Rows and the world\<close>

record fire_row = trigger_row +
  fr_created :: int
  fr_last :: "int option"

abbreviation plain_row :: "fire_row \<Rightarrow> trigger_row" where
  "plain_row t \<equiv> trigger_row.truncate t"

text \<open>
  What an evaluation reads besides the row: the clock, \<open>datetime.fromisoformat\<close> (a missing zone is
  UTC), the time zone of an agent, the local minute of the day, \<open>timedelta(minutes=...)\<close> of a float,
  the croniter package (false where it raises), the filter for private addresses, the HTTP request
  (none where it fails), the search for messages, and the hash of a text.
\<close>

record fire_world =
  fw_now :: int
  fw_iso :: "string \<Rightarrow> int option"
  fw_zone :: "uuid \<Rightarrow> string"
  fw_local :: "string \<Rightarrow> int \<Rightarrow> int"
  fw_float_span :: "string \<Rightarrow> (string, int) res"
  fw_cron :: "pyval \<Rightarrow> pyval \<Rightarrow> int \<Rightarrow> int \<Rightarrow> bool"
  fw_private :: "pyval \<Rightarrow> bool"
  fw_fetch :: "pyval \<Rightarrow> pyval \<Rightarrow> pyval \<Rightarrow> pyval option"
  fw_messages :: "fire_row \<Rightarrow> bool \<times> config"
  fw_sha :: "string \<Rightarrow> string"

definition MIN_POLL_INTERVAL_MINUTES :: int where "MIN_POLL_INTERVAL_MINUTES = 5"
definition TRIGGER_FIRE_LEASE_TTL_SECONDS :: int where "TRIGGER_FIRE_LEASE_TTL_SECONDS = 600"
definition TRIGGER_FIRE_INFLIGHT_STALE_SECONDS :: int where
  "TRIGGER_FIRE_INFLIGHT_STALE_SECONDS = 6 * 60 * 60"

abbreviation seconds :: "int \<Rightarrow> int" where
  "seconds n \<equiv> n * 1000000"

text \<open>\<open>datetime.fromisoformat(s.replace("Z", "+00:00"))\<close>.\<close>

definition stored_time :: "fire_world \<Rightarrow> pyval \<Rightarrow> int option" where
  "stored_time w v = fw_iso w (concat (map (\<lambda>c. if c = CHR ''Z'' then ''+00:00'' else [c]) (py_str v)))"

section \<open>Is the trigger due\<close>

text \<open>A window that cannot be read is always active.\<close>

definition window_minutes :: "string \<Rightarrow> int option" where
  "window_minutes s = (case map (py_int_of_text 10) (py_split_on (CHR '':'') (py_strip s)) of
      [Some h, Some m] \<Rightarrow> Some (h * 60 + m) | _ \<Rightarrow> None)"

definition is_trigger_in_active_hours :: "fire_world \<Rightarrow> string \<Rightarrow> string \<Rightarrow> bool" where
  "is_trigger_in_active_hours w active_hours tz_name =
     (case map window_minutes (py_split_on (CHR ''-'') active_hours) of
        [Some start, Some finish] \<Rightarrow>
          (let current = fw_local w (if tz_name = [] then ''UTC'' else tz_name) (fw_now w) in
           if start \<le> finish then start \<le> current \<and> current < finish
           else start \<le> current \<or> current < finish)
      | _ \<Rightarrow> True)"

definition inflight_fire_is_active :: "fire_world \<Rightarrow> config \<Rightarrow> bool" where
  "inflight_fire_is_active w d =
     (case as_dict (dget d ''_fire_inflight'') of
        None \<Rightarrow> False
      | Some inflight \<Rightarrow>
          if dget inflight ''hold'' = PBool True then True
          else if \<not> truthy (dget inflight ''started_at'') then True
          else case stored_time w (dget inflight ''started_at'') of
              None \<Rightarrow> True
            | Some t \<Rightarrow> fw_now w - t < seconds TRIGGER_FIRE_INFLIGHT_STALE_SECONDS)"

definition waits_in_backoff :: "fire_world \<Rightarrow> config \<Rightarrow> bool" where
  "waits_in_backoff w d =
     (truthy (dget d ''backoff_until'')
      \<and> (case stored_time w (dget d ''backoff_until'') of None \<Rightarrow> False | Some t \<Rightarrow> fw_now w < t))"

definition fires_used_up :: "fire_row \<Rightarrow> bool" where
  "fires_used_up t = (case tg_max_fires t of None \<Rightarrow> False | Some m \<Rightarrow> m \<le> tg_fires t)"

definition cooling_down :: "fire_world \<Rightarrow> fire_row \<Rightarrow> bool" where
  "cooling_down w t = (case fr_last t of None \<Rightarrow> False | Some l \<Rightarrow> fw_now w - l < seconds (tg_cooldown t))"

definition outside_hours :: "fire_world \<Rightarrow> fire_row \<Rightarrow> bool" where
  "outside_hours w t =
     (let hours = clean_text (dget (tg_config t) ''active_hours'');
          zone = clean_text (dget (tg_config t) ''timezone'') in
      hours \<noteq> []
      \<and> \<not> is_trigger_in_active_hours w hours (if zone = [] then fw_zone w (tg_agent t) else zone))"

text \<open>The checks before the kind of the trigger matters.\<close>

definition held_back :: "fire_world \<Rightarrow> fire_row \<Rightarrow> bool" where
  "held_back w t =
     (\<not> tg_enabled t \<or> stated_authority (tg_config t) = ''quarantined''
      \<or> inflight_fire_is_active w (tg_config t) \<or> waits_in_backoff w (tg_config t)
      \<or> (case tg_expires t of None \<Rightarrow> False | Some e \<Rightarrow> e \<le> fw_now w)
      \<or> fires_used_up t \<or> cooling_down w t \<or> outside_hours w t)"

text \<open>\<open>timedelta(minutes=v)\<close> of a value of the config.\<close>

definition minutes_span :: "fire_world \<Rightarrow> pyval \<Rightarrow> (string, int) res" where
  "minutes_span w v =
     (let span = (\<lambda>i. if - seconds (999999999 * 86400) \<le> seconds (i * 60) \<and> seconds (i * 60) < seconds (1000000000 * 86400)
                   then Inr (seconds (i * 60)) else Inl ''OverflowError'') in
      case v of PInt i \<Rightarrow> span i | PBool b \<Rightarrow> span (if b then 1 else 0) | PFloat f \<Rightarrow> fw_float_span w f
        | _ \<Rightarrow> Inl ''TypeError'')"

definition base_time :: "fire_row \<Rightarrow> int" where
  "base_time t = (case fr_last t of None \<Rightarrow> fr_created t | Some l \<Rightarrow> l)"

section \<open>Polling\<close>

fun follow_path :: "pyval \<Rightarrow> string list \<Rightarrow> pyval option" where
  "follow_path v [] = Some v"
| "follow_path (PDict d) (p # ps) = follow_path (dget d p) ps"
| "follow_path (PList vs) (p # ps) =
     (if \<not> py_isdigit p then Some PNone
      else case py_int_of_text 10 p of
          None \<Rightarrow> None
        | Some i \<Rightarrow> if nat i < length vs then follow_path (vs ! nat i) ps else None)"
| "follow_path v (p # ps) = Some PNone"

text \<open>The value at a path; none where the lookup raises.\<close>

definition extract_json_path :: "pyval \<Rightarrow> pyval \<Rightarrow> pyval option" where
  "extract_json_path data path =
     (if eq_str path ''$'' \<or> \<not> truthy path then Some data
      else case path of
          PStr s \<Rightarrow> follow_path data (py_split_on (CHR ''.'') (dropWhile (\<lambda>c. c = CHR ''$'' \<or> c = CHR ''.'') s))
        | _ \<Rightarrow> None)"

definition get_default :: "config \<Rightarrow> string \<Rightarrow> pyval \<Rightarrow> pyval" where
  "get_default d k other = (if has_key d k then dget d k else other)"

text \<open>The event a poll records (its arrow is written \<open>->\<close> here).\<close>

definition matched_event :: "pyval \<Rightarrow> string \<Rightarrow> pyval" where
  "matched_event url current = PStr (''Polled '' @ py_str url @ '' -> value matched: '' @ current)"

definition changed_event :: "pyval \<Rightarrow> pyval \<Rightarrow> string \<Rightarrow> pyval" where
  "changed_event url earlier current = PStr (''Polled '' @ py_str url @ '' -> value changed from '' @ [CHR 0x27]
     @ py_str earlier @ [CHR 0x27] @ '' to '' @ [CHR 0x27] @ current @ [CHR 0x27])"

record evaluation =
  ev_due :: bool
  ev_config :: config
  ev_stored :: "config option"

definition verdict_only :: "bool \<Rightarrow> fire_row \<Rightarrow> evaluation" where
  "verdict_only b t = \<lparr>ev_due = b, ev_config = tg_config t, ev_stored = None\<rparr>"

text \<open>A poll stores the whole config it worked on.\<close>

definition poll_check :: "fire_world \<Rightarrow> fire_row \<Rightarrow> evaluation" where
  "poll_check w t =
     (let d = tg_config t; url = dget d ''url'' in
      if \<not> truthy url \<or> fw_private w url then verdict_only False t
      else case fw_fetch w (get_default d ''method'' (PStr ''GET'')) url (get_default d ''headers'' (PDict [])) of
          None \<Rightarrow> verdict_only False t
        | Some data \<Rightarrow>
            (case extract_json_path data (get_default d ''json_path'' (PStr ''$'')) of
               None \<Rightarrow> verdict_only False t
             | Some v \<Rightarrow>
                 (let current = py_str v; earlier = dget d ''_last_value'';
                      matches = eq_str (get_default d ''fire_on'' (PStr ''change'')) ''match'';
                      due = (if matches then current = py_str (get_default d ''match_value'' (PStr []))
                             else earlier \<noteq> PNone \<and> \<not> eq_str earlier current);
                      event = (if matches then matched_event url current else changed_event url earlier current);
                      d' = AList.update ''_last_value'' (PStr current)
                             (if due then AList.update ''_last_event'' event d else d) in
                  \<lparr>ev_due = due, ev_config = d', ev_stored = Some d'\<rparr>)))"

definition poll_interval :: "fire_world \<Rightarrow> pyval \<Rightarrow> (string, int) res" where
  "poll_interval w v = (case v of
      PInt i \<Rightarrow> minutes_span w (PInt (max i MIN_POLL_INTERVAL_MINUTES))
    | PBool b \<Rightarrow> minutes_span w (PInt MIN_POLL_INTERVAL_MINUTES)
    | PFloat f \<Rightarrow> if num_less (float_value f) (Finite (of_int MIN_POLL_INTERVAL_MINUTES))
                  then minutes_span w (PInt MIN_POLL_INTERVAL_MINUTES) else minutes_span w (PFloat f)
    | _ \<Rightarrow> Inl ''TypeError'')"

section \<open>The evaluation\<close>

definition cron_due :: "fire_world \<Rightarrow> fire_row \<Rightarrow> bool" where
  "cron_due w t =
     (let expr = dget (tg_config t) ''expr''; zone = dget (tg_config t) ''timezone'' in
      truthy expr
      \<and> fw_cron w expr (if truthy zone then zone else PStr (fw_zone w (tg_agent t))) (base_time t) (fw_now w))"

definition once_due :: "fire_world \<Rightarrow> fire_row \<Rightarrow> bool" where
  "once_due w t = (case dget (tg_config t) ''at'' of
      PStr s \<Rightarrow> s \<noteq> [] \<and> (case fw_iso w s of None \<Rightarrow> False | Some due_at \<Rightarrow> due_at \<le> fw_now w \<and> tg_fires t = 0)
    | _ \<Rightarrow> False)"

definition evaluate_trigger :: "fire_world \<Rightarrow> fire_row \<Rightarrow> (string, evaluation) res" where
  "evaluate_trigger w t =
     (if held_back w t then Inr (verdict_only False t)
      else if tg_type t = ''cron'' then Inr (verdict_only (cron_due w t) t)
      else if tg_type t = ''once'' then Inr (verdict_only (once_due w t) t)
      else if tg_type t = ''interval''
      then bind_res (minutes_span w (get_default (tg_config t) ''minutes'' (PInt 30))) (\<lambda>span.
             Inr (verdict_only (span \<le> fw_now w - base_time t) t))
      else if tg_type t = ''poll''
      then bind_res (poll_interval w (get_default (tg_config t) ''interval_min'' (PInt 5))) (\<lambda>span.
             if fw_now w - base_time t < span then Inr (verdict_only False t) else Inr (poll_check w t))
      else if tg_type t = ''on_message''
      then (case fw_messages w t of (due, d) \<Rightarrow> Inr \<lparr>ev_due = due, ev_config = d, ev_stored = None\<rparr>)
      else if tg_type t = ''webhook'' then Inr (verdict_only (truthy (dget (tg_config t) ''_webhook_pending'')) t)
      else Inr (verdict_only False t))"

section \<open>Fire keys and leases\<close>

text \<open>\<open>strftime\<close> down to the minute or the second.\<close>

definition minute_stamp :: "int \<Rightarrow> string" where
  "minute_stamp t = (let (y, m, d) = civil_date (t div 86400000000); secs = t mod 86400000000 div 1000000 in
     pad_left 4 y @ pad_left 2 m @ pad_left 2 d @ pad_left 2 (secs div 3600) @ pad_left 2 (secs div 60 mod 60))"

definition second_stamp :: "int \<Rightarrow> string" where
  "second_stamp t = minute_stamp t @ pad_left 2 (t mod 86400000000 div 1000000 mod 60)"

definition keyed :: "string \<Rightarrow> fire_row \<Rightarrow> string \<Rightarrow> string" where
  "keyed kind t tail = kind @ '':'' @ uuid_str (tg_id t) @ '':'' @ tail"

definition default_trigger_event_key :: "fire_world \<Rightarrow> fire_row \<Rightarrow> (string, string) res" where
  "default_trigger_event_key w t =
     (let d = tg_config t in
      if truthy (dget d ''_matched_event_key'') then Inr (py_str (dget d ''_matched_event_key''))
      else if tg_type t = ''once''
      then Inr (keyed ''once'' t (py_str (py_or (dget d ''at'') (PStr (isoformat (fr_created t))))))
      else if tg_type t = ''cron'' then Inr (keyed ''cron'' t (minute_stamp (fw_now w)))
      else if tg_type t = ''interval''
      then bind_res (py_int (py_or (get_default d ''minutes'' (PInt 30)) (PInt 30))) (\<lambda>i.
             Inr (keyed ''interval'' t (str_of_int (fw_now w div 1000000 div (max i 1 * 60)))))
      else if tg_type t = ''poll''
      then Inr (keyed ''poll'' t (take 16 (fw_sha w (py_str (py_or (dget d ''_last_value'') (PStr []))))))
      else if tg_type t = ''webhook''
      then (let payload = py_str (py_or (dget d ''_webhook_payload'') (PStr []));
                hash = (if payload \<noteq> [] then take 16 (fw_sha w payload) else second_stamp (fw_now w)) in
            Inr (keyed ''webhook'' t (py_str (py_or (dget d ''_webhook_event_key'') (PStr hash)))))
      else Inr (keyed (tg_type t) t (second_stamp (fw_now w))))"

text \<open>The leases of Redis: keys with the time they expire; \<open>SET ... NX EX\<close> takes a free one.\<close>

type_synonym leases = "(string \<times> int) list"

definition lease_key :: "fire_world \<Rightarrow> uuid \<Rightarrow> string \<Rightarrow> string" where
  "lease_key w trigger event_key =
     ''trigger_fire:'' @ uuid_str trigger @ '':'' @ take 24 (fw_sha w event_key)"

definition acquire_trigger_fire_lease :: "fire_world \<Rightarrow> uuid \<Rightarrow> string \<Rightarrow> leases \<Rightarrow> bool \<times> leases" where
  "acquire_trigger_fire_lease w trigger event_key ls =
     (let k = lease_key w trigger event_key in
      case map_of ls k of
        Some e \<Rightarrow> if fw_now w < e then (False, ls)
                  else (True, AList.update k (fw_now w + seconds TRIGGER_FIRE_LEASE_TTL_SECONDS) ls)
      | None \<Rightarrow> (True, AList.update k (fw_now w + seconds TRIGGER_FIRE_LEASE_TTL_SECONDS) ls))"


section \<open>One tick\<close>

text \<open>
  A tick evaluates a snapshot of the enabled triggers of living agents: it switches expired ones off,
  asks for a lease for each one that is due and collects the batches by agent and owner. What it keeps:
  the leases, the ids switched off, the configs stored by polls, the keys and the batches.
\<close>

record tick =
  tk_leases :: leases
  tk_expired :: "uuid list"
  tk_stored :: "(uuid \<times> config) list"
  tk_keys :: "(uuid \<times> string) list"
  tk_batches :: "((uuid \<times> uuid option) \<times> fire_row list) list"

definition add_to_batch :: "fire_row \<Rightarrow> ((uuid \<times> uuid option) \<times> fire_row list) list
    \<Rightarrow> ((uuid \<times> uuid option) \<times> fire_row list) list" where
  "add_to_batch t bs =
     (let k = (tg_agent t, trigger_owner_user_id (plain_row t)) in
      AList.update k ((case map_of bs k of None \<Rightarrow> [] | Some ts \<Rightarrow> ts) @ [t]) bs)"

definition fire_one :: "fire_world \<Rightarrow> fire_row \<Rightarrow> tick \<Rightarrow> tick" where
  "fire_one w t k =
     (case default_trigger_event_key w t of
        Inl e \<Rightarrow> k
      | Inr key \<Rightarrow>
          (case acquire_trigger_fire_lease w (tg_id t) key (tk_leases k) of
             (False, ls) \<Rightarrow> k\<lparr>tk_leases := ls\<rparr>
           | (True, ls) \<Rightarrow> k\<lparr>tk_leases := ls, tk_keys := AList.update (tg_id t) key (tk_keys k),
                             tk_batches := add_to_batch t (tk_batches k)\<rparr>))"

definition tick_one :: "fire_world \<Rightarrow> fire_row \<Rightarrow> tick \<Rightarrow> tick" where
  "tick_one w t k =
     (if (case tg_expires t of None \<Rightarrow> False | Some e \<Rightarrow> e \<le> fw_now w)
      then k\<lparr>tk_expired := tk_expired k @ [tg_id t]\<rparr>
      else case evaluate_trigger w t of
          Inl e \<Rightarrow> k
        | Inr ev \<Rightarrow>
            (let k' = (case ev_stored ev of None \<Rightarrow> k | Some d \<Rightarrow> k\<lparr>tk_stored := tk_stored k @ [(tg_id t, d)]\<rparr>) in
             if ev_due ev then fire_one w (t\<lparr>tg_config := ev_config ev\<rparr>) k' else k'))"

definition tick_triggers :: "fire_world \<Rightarrow> leases \<Rightarrow> fire_row list \<Rightarrow> tick" where
  "tick_triggers w ls rows =
     fold (tick_one w) rows \<lparr>tk_leases = ls, tk_expired = [], tk_stored = [], tk_keys = [], tk_batches = []\<rparr>"

section \<open>Marking a fire\<close>

definition inflight_mark :: "fire_world \<Rightarrow> string \<Rightarrow> uuid option \<Rightarrow> pyval" where
  "inflight_mark w key task = PDict
     [(''event_key'', PStr key),
      (''runtime_task_id'', case task of None \<Rightarrow> PNone | Some u \<Rightarrow> PStr (uuid_str u)),
      (''started_at'', PStr (isoformat (fw_now w)))]"

definition mark_one :: "fire_world \<Rightarrow> config \<Rightarrow> uuid option \<Rightarrow> (uuid \<times> string) list \<Rightarrow> fire_row
    \<Rightarrow> (string, fire_row) res" where
  "mark_one w metadata task keys t =
     (if trigger_fire_authority_block_reason (plain_row t) metadata \<noteq> None then Inr t
      else bind_res (case map_of keys (tg_id t) of
          Some (c # key) \<Rightarrow> Inr (c # key) | _ \<Rightarrow> default_trigger_event_key w t) (\<lambda>key.
        Inr (t\<lparr>tg_config := AList.update ''_fire_inflight'' (inflight_mark w key task) (tg_config t)\<rparr>)))"

text \<open>
  The rows of the batch are locked and all of them have to be there; a fire of an older authority
  generation leaves its row alone.
\<close>

definition in_batch :: "uuid \<Rightarrow> uuid list \<Rightarrow> bool \<Rightarrow> fire_row \<Rightarrow> bool" where
  "in_batch agent ids require_enabled t =
     (tg_id t \<in> set ids \<and> tg_agent t = agent \<and> (require_enabled \<longrightarrow> tg_enabled t))"

fun map_rows :: "(fire_row \<Rightarrow> bool) \<Rightarrow> (fire_row \<Rightarrow> (string, fire_row) res) \<Rightarrow> fire_row list
    \<Rightarrow> (string, fire_row list) res" where
  "map_rows P f [] = Inr []"
| "map_rows P f (t # ts) =
     bind_res (if P t then f t else Inr t) (\<lambda>t'. bind_res (map_rows P f ts) (\<lambda>ts'. Inr (t' # ts')))"

definition mark_trigger_fire_started ::
  "fire_world \<Rightarrow> uuid \<Rightarrow> uuid list \<Rightarrow> config \<Rightarrow> uuid option \<Rightarrow> (uuid \<times> string) list \<Rightarrow> bool
   \<Rightarrow> fire_row list \<Rightarrow> (string, fire_row list \<times> bool) res" where
  "mark_trigger_fire_started w agent ids metadata task keys require_enabled rows =
     (if ids = [] \<or> \<not> distinct ids then Inr (rows, False)
      else if set (map tg_id (filter (in_batch agent ids require_enabled) rows)) \<noteq> set ids
      then Inr (rows, False)
      else bind_res (map_rows (in_batch agent ids require_enabled) (mark_one w metadata task keys) rows)
        (\<lambda>rows'. Inr (rows', True)))"

section \<open>Whose batch it is\<close>

definition batch_trigger_authority :: "fire_row list \<Rightarrow> uuid option \<times> uuid option" where
  "batch_trigger_authority ts =
     (let common = (\<lambda>f. case map f ts of [] \<Rightarrow> None
        | x # xs \<Rightarrow> if x \<noteq> None \<and> list_all (\<lambda>y. y = x) xs then x else None) in
      (common (\<lambda>t. trigger_owner_user_id (plain_row t)), common (\<lambda>t. trigger_root_session_id (plain_row t))))"

definition shared_trigger_requester_id :: "fire_row list \<Rightarrow> uuid option" where
  "shared_trigger_requester_id ts =
     (if list_ex (\<lambda>t. trigger_execution_block_reason (plain_row t) \<noteq> None
           \<or> trigger_owner_user_id (plain_row t) = None) ts then None
      else case map (\<lambda>t. trigger_owner_user_id (plain_row t)) ts of [] \<Rightarrow> None
        | x # xs \<Rightarrow> if list_all (\<lambda>y. y = x) xs then x else None)"

definition trigger_delivery_mode :: "fire_row \<Rightarrow> string" where
  "trigger_delivery_mode t =
     (let mode = py_strip (py_str (py_or (dget (tg_config t) ''delivery'') (PStr ''new_invocation''))) in
      if mode \<in> {''new_invocation'', ''same_session''} then mode else ''new_invocation'')"

definition resolve_batch_same_session_target :: "fire_row list \<Rightarrow> string option" where
  "resolve_batch_same_session_target ts =
     (let source = (\<lambda>t. clean_text (dget (tg_config t) ''source_session_id'')) in
      if list_ex (\<lambda>t. trigger_delivery_mode t \<noteq> ''same_session'' \<or> source t = []) ts then None
      else case map source ts of [] \<Rightarrow> None | x # xs \<Rightarrow> if list_all (\<lambda>y. y = x) xs then Some x else None)"


section \<open>One requester per batch\<close>

definition due_source :: "fire_world \<Rightarrow> fire_row list \<Rightarrow> fire_row \<Rightarrow> bool" where
  "due_source w rows t = (\<exists>r \<in> set rows. \<exists>ev. evaluate_trigger w r = Inr ev \<and> ev_due ev
     \<and> t = r\<lparr>tg_config := ev_config ev\<rparr> \<and> \<not> (case tg_expires r of None \<Rightarrow> False | Some e \<Rightarrow> e \<le> fw_now w))"

definition batch_sound :: "(fire_row \<Rightarrow> bool) \<Rightarrow> (uuid \<times> uuid option) \<times> fire_row list \<Rightarrow> bool" where
  "batch_sound P b = (\<forall>t \<in> set (snd b). fst b = (tg_agent t, trigger_owner_user_id (plain_row t)) \<and> P t)"

lemma set_update_in: "b \<in> set (AList.update k v d) \<Longrightarrow> b \<in> set d \<or> b = (k, v)"
  by (induction d) (auto split: if_splits)

lemma add_to_batch_sound:
  assumes "\<forall>b \<in> set bs. batch_sound P b" "P t"
  shows "\<forall>b \<in> set (add_to_batch t bs). batch_sound P b"
proof
  fix b assume "b \<in> set (add_to_batch t bs)"
  then consider "b \<in> set bs"
    | "b = ((tg_agent t, trigger_owner_user_id (plain_row t)),
         (case map_of bs (tg_agent t, trigger_owner_user_id (plain_row t)) of None \<Rightarrow> [] | Some ts \<Rightarrow> ts) @ [t])"
    unfolding add_to_batch_def Let_def by (blast dest: set_update_in)
  then show "batch_sound P b"
  proof cases
    case 1
    with assms(1) show ?thesis by blast
  next
    case 2
    show ?thesis
    proof (cases "map_of bs (tg_agent t, trigger_owner_user_id (plain_row t))")
      case None
      with 2 assms(2) show ?thesis by (simp add: batch_sound_def)
    next
      case (Some ts)
      with assms(1) have "batch_sound P ((tg_agent t, trigger_owner_user_id (plain_row t)), ts)"
        by (blast dest: map_of_SomeD)
      with 2 Some assms(2) show ?thesis by (auto simp: batch_sound_def)
    qed
  qed
qed

lemma fire_one_sound:
  assumes "\<forall>b \<in> set (tk_batches k). batch_sound P b" "P t"
  shows "\<forall>b \<in> set (tk_batches (fire_one w t k)). batch_sound P b"
  using assms add_to_batch_sound [OF assms]
  by (auto simp: fire_one_def split: sum.split prod.split bool.split)

lemma tick_one_sound:
  assumes "\<forall>b \<in> set (tk_batches k). batch_sound (due_source w rows) b" "t \<in> set rows"
  shows "\<forall>b \<in> set (tk_batches (tick_one w t k)). batch_sound (due_source w rows) b"
proof (cases "evaluate_trigger w t")
  case (Inl e)
  with assms(1) show ?thesis by (simp add: tick_one_def)
next
  case (Inr ev)
  let ?k = "case ev_stored ev of None \<Rightarrow> k | Some d \<Rightarrow> k\<lparr>tk_stored := tk_stored k @ [(tg_id t, d)]\<rparr>"
  have k: "\<forall>b \<in> set (tk_batches ?k). batch_sound (due_source w rows) b"
    using assms(1) by (simp split: option.split)
  show ?thesis
  proof (cases "(case tg_expires t of None \<Rightarrow> False | Some e \<Rightarrow> e \<le> fw_now w) \<or> \<not> ev_due ev")
    case True
    with assms(1) k Inr show ?thesis by (auto simp: tick_one_def Let_def)
  next
    case False
    with Inr assms(2) have "due_source w rows (t\<lparr>tg_config := ev_config ev\<rparr>)" unfolding due_source_def by blast
    from fire_one_sound [OF k this] False Inr show ?thesis by (simp add: tick_one_def Let_def)
  qed
qed

text \<open>
  Claim C33. A tick never mixes requesters: every trigger of a batch belongs to the agent and to the owner
  the batch is named after, and each is a row of the snapshot that was due and not expired.
\<close>

theorem batches_have_one_requester:
  assumes "((agent, owner), ts) \<in> set (tk_batches (tick_triggers w ls rows))" "t \<in> set ts"
  shows "tg_agent t = agent \<and> trigger_owner_user_id (plain_row t) = owner \<and> due_source w rows t"
proof -
  have sound: "\<forall>b \<in> set (tk_batches (fold (tick_one w) rs k)). batch_sound (due_source w rows) b"
    if "set rs \<subseteq> set rows" "\<forall>b \<in> set (tk_batches k). batch_sound (due_source w rows) b" for rs k
    using that
  proof (induction rs arbitrary: k)
    case (Cons r rs)
    then have "r \<in> set rows" "set rs \<subseteq> set rows" by simp_all
    from Cons.IH [OF this(2) tick_one_sound [OF Cons.prems(2) this(1)]] show ?case by simp
  qed simp
  have "batch_sound (due_source w rows) ((agent, owner), ts)"
    by (rule bspec [OF sound assms(1) [unfolded tick_triggers_def]]) simp_all
  with assms(2) show ?thesis by (auto simp: batch_sound_def)
qed

section \<open>A fire in flight\<close>

lemma digits_have_no_letter: "CHR ''Z'' \<notin> set (pad_left k i)"
proof -
  have "CHR ''Z'' \<notin> set (digits_of_nat n)" for n
    using digits_of_nat_digits [of n] by (auto simp: list_all_iff ascii_digit_def)
  then show ?thesis by (simp add: pad_left_def str_of_int_def Let_def)
qed

lemma isoformat_has_no_Z: "CHR ''Z'' \<notin> set (isoformat t)"
  by (auto simp: isoformat_def Let_def digits_have_no_letter split: prod.split)

lemma isoformat_is_text: "isoformat t \<noteq> []"
  unfolding isoformat_def Let_def case_prod_beta by (simp only: append_is_Nil_conv list.distinct simp_thms)

lemma stored_isoformat: "stored_time w (PStr (isoformat t)) = fw_iso w (isoformat t)"
proof -
  have "concat (map (\<lambda>c. if c = CHR ''Z'' then ''+00:00'' else [c]) s) = s" if "CHR ''Z'' \<notin> set s" for s
    using that by (induction s) auto
  with isoformat_has_no_Z show ?thesis by (simp add: stored_time_def)
qed

definition held_fire :: "fire_row \<Rightarrow> bool" where
  "held_fire t = (case as_dict (dget (tg_config t) ''_fire_inflight'') of None \<Rightarrow> False
     | Some d \<Rightarrow> dget d ''hold'' = PBool True)"


lemma active_is_not_due:
  "inflight_fire_is_active w (tg_config t) \<Longrightarrow> evaluate_trigger w t = Inr (verdict_only False t)"
  by (simp add: evaluate_trigger_def held_back_def)

lemma held_is_active: "held_fire t \<Longrightarrow> inflight_fire_is_active w (tg_config t)"
  by (simp add: held_fire_def inflight_fire_is_active_def split: option.splits)

lemma marked_is_active:
  assumes "mark_one w0 metadata task keys u = Inr t" "trigger_fire_authority_block_reason (plain_row u) metadata = None"
    and "fw_iso w (isoformat (fw_now w0)) = Some (fw_now w0)" "fw_now w < fw_now w0 + seconds (6 * 60 * 60)"
  shows "inflight_fire_is_active w (tg_config t)"
proof -
  obtain key where "tg_config t = AList.update ''_fire_inflight'' (inflight_mark w0 key task) (tg_config u)"
    using assms(1,2) by (auto simp: mark_one_def)
  moreover have "dget [(''event_key'', PStr key), (''runtime_task_id'', v), (''started_at'', PStr s)] ''started_at'' = PStr s" for v s
    by (simp add: dget_def)
  ultimately show ?thesis
    using assms(3,4)
    by (simp add: inflight_fire_is_active_def inflight_mark_def stored_isoformat isoformat_is_text
        TRIGGER_FIRE_INFLIGHT_STALE_SECONDS_def)
qed

text \<open>
  Claim C0. Fires of a trigger do not overlap: from the mark of a fire until six hours later the trigger is
  not due, where the time of the mark is read back, and while a fire is held for reconciliation it is not
  due at any time.
\<close>

theorem fires_do_not_overlap:
  assumes "held_fire t \<or> (\<exists>w0 metadata task keys u. mark_one w0 metadata task keys u = Inr t
    \<and> trigger_fire_authority_block_reason (plain_row u) metadata = None
    \<and> fw_iso w (isoformat (fw_now w0)) = Some (fw_now w0) \<and> fw_now w < fw_now w0 + seconds (6 * 60 * 60))"
  shows "evaluate_trigger w t = Inr (verdict_only False t)"
  using assms held_is_active marked_is_active by (intro active_is_not_due) blast


section \<open>Witnesses\<close>

definition hook_row :: fire_row where
  "hook_row = \<lparr>tg_id = 8, tg_agent = 2, tg_name = ''hook'', tg_type = ''webhook'',
     tg_config = [(''created_by'', PStr (uuid_str 3)), (''_webhook_pending'', PBool True),
       (''_webhook_event_key'', PStr ''e1'')],
     tg_reason = ''r'', tg_enabled = True, tg_fires = 0, tg_max_fires = Some 2, tg_cooldown = 60,
     tg_expires = None, tg_reply = None, fr_created = 0, fr_last = None\<rparr>"

definition desk_fire_world :: fire_world where
  "desk_fire_world = \<lparr>fw_now = 5000000, fw_iso = (\<lambda>s. None), fw_zone = (\<lambda>a. ''UTC''), fw_local = (\<lambda>z t. 0),
     fw_float_span = (\<lambda>s. Inl ''OverflowError''), fw_cron = (\<lambda>e z b n. False), fw_private = (\<lambda>u. False),
     fw_fetch = (\<lambda>m u h. Some (PDict [(''v'', PInt 4)])), fw_messages = (\<lambda>t. (False, [])), fw_sha = (\<lambda>s. s)\<rparr>"

lemma hook_due: "evaluate_trigger desk_fire_world hook_row = Inr (verdict_only True hook_row)"
proof -
  have "held_back desk_fire_world hook_row = False" by code_simp
  moreover have "tg_type hook_row = ''webhook''" "truthy (dget (tg_config hook_row) ''_webhook_pending'')" by code_simp+
  ultimately show ?thesis by (simp add: evaluate_trigger_def)
qed

lemma hook_batch:
  "((2, Some 3), [hook_row]) \<in> set (tk_batches (tick_triggers desk_fire_world [] [hook_row]))"
  by code_simp

theorem batches_have_one_requester_witness:
  "((2, Some 3), [hook_row]) \<in> set (tk_batches (tick_triggers desk_fire_world [] [hook_row]))
   \<and> trigger_owner_user_id (plain_row hook_row) = Some 3"
  using batches_have_one_requester [OF hook_batch] hook_batch by simp

definition held_hook :: fire_row where
  "held_hook = hook_row\<lparr>tg_config := (''_fire_inflight'', PDict [(''hold'', PBool True)]) # tg_config hook_row\<rparr>"

theorem fires_do_not_overlap_witness:
  "held_fire held_hook \<and> evaluate_trigger desk_fire_world held_hook = Inr (verdict_only False held_hook)"
proof -
  have "held_fire held_hook" by code_simp
  with fires_do_not_overlap [OF disjI1 [OF this]] show ?thesis by simp
qed

end
