(* ===== verification/Trigger_Settle.thy ===== *)
theory Trigger_Settle
  imports Trigger_Fire
begin

text \<open>
  How a started fire ends: the failure policies of \<open>backend/app/runtime/failure_policy.py\<close> and
  \<open>backend/app/services/trigger_failure_policy.py\<close>, and the settlement of the triggers of a task with
  its reconciliation by an operator from \<open>backend/app/services/runtime_task_service.py\<close>.
\<close>

section \<open>Failure policies\<close>

record failure_default =
  fd_retryable :: bool
  fd_risk :: string
  fd_user :: bool
  fd_reconcile :: bool
  fd_continue :: bool

definition FAILURE_DEFAULTS :: "(string \<times> failure_default) list" where
  "FAILURE_DEFAULTS =
     [(''provider_error'', \<lparr>fd_retryable = False, fd_risk = ''none'', fd_user = True, fd_reconcile = False, fd_continue = False\<rparr>),
      (''tool_failure'', \<lparr>fd_retryable = True, fd_risk = ''unknown'', fd_user = False, fd_reconcile = False, fd_continue = True\<rparr>),
      (''hook_block'', \<lparr>fd_retryable = False, fd_risk = ''external_action_blocked'', fd_user = True, fd_reconcile = False, fd_continue = False\<rparr>),
      (''preflight_denied'', \<lparr>fd_retryable = False, fd_risk = ''external_action_blocked'', fd_user = True, fd_reconcile = False, fd_continue = False\<rparr>),
      (''workflow_leaf_failure'', \<lparr>fd_retryable = False, fd_risk = ''external_effect_unknown'', fd_user = True, fd_reconcile = True, fd_continue = False\<rparr>),
      (''subagent_replay_blocker'', \<lparr>fd_retryable = False, fd_risk = ''unknown'', fd_user = True, fd_reconcile = True, fd_continue = False\<rparr>),
      (''trigger_preflight_skip'', \<lparr>fd_retryable = True, fd_risk = ''none'', fd_user = False, fd_reconcile = False, fd_continue = True\<rparr>),
      (''cancelled'', \<lparr>fd_retryable = False, fd_risk = ''unknown'', fd_user = False, fd_reconcile = False, fd_continue = False\<rparr>)]"

definition or_text :: "string option \<Rightarrow> string \<Rightarrow> string" where
  "or_text x other = (case x of Some (c # s) \<Rightarrow> c # s | _ \<Rightarrow> other)"

definition or_flag :: "bool option \<Rightarrow> bool option \<Rightarrow> pyval" where
  "or_flag given other = PBool (case given of Some b \<Rightarrow> b | None \<Rightarrow> (case other of Some b \<Rightarrow> b | None \<Rightarrow> False))"

definition build_runtime_failure_policy ::
  "string \<Rightarrow> string \<Rightarrow> bool option \<Rightarrow> string option \<Rightarrow> bool option \<Rightarrow> bool option \<Rightarrow> bool option
   \<Rightarrow> string option \<Rightarrow> config" where
  "build_runtime_failure_policy failure_kind message retryable risk user reconcile continue summary =
     (let kind = (if failure_kind = [] then ''unknown'' else failure_kind);
          defaults = map_of FAILURE_DEFAULTS kind;
          text = or_text summary (if py_strip message = [] then kind else py_strip message) in
      [(''schema'', PStr ''hive.ccplus.runtime_failure_policy.v1''), (''failure_kind'', PStr kind),
       (''retryable'', or_flag retryable (map_option fd_retryable defaults)),
       (''side_effect_risk'', PStr (or_text risk (or_text (map_option fd_risk defaults) ''unknown''))),
       (''requires_user'', or_flag user (map_option fd_user defaults)),
       (''requires_reconciliation'', or_flag reconcile (map_option fd_reconcile defaults)),
       (''safe_to_continue'', or_flag continue (map_option fd_continue defaults)),
       (''model_visible_summary'', PStr text)])"

definition DEFAULT_FAILURE_BACKOFF_SECONDS :: int where "DEFAULT_FAILURE_BACKOFF_SECONDS = 60"
definition MAX_FAILURE_BACKOFF_SECONDS :: int where "MAX_FAILURE_BACKOFF_SECONDS = 60 * 60"

definition failure_backoff :: "int \<Rightarrow> int" where
  "failure_backoff n =
     min (DEFAULT_FAILURE_BACKOFF_SECONDS * 2 ^ nat (max (n - 1) 0)) MAX_FAILURE_BACKOFF_SECONDS"

definition put_all_entries :: "config \<Rightarrow> config \<Rightarrow> config" where
  "put_all_entries kvs d = fold (\<lambda>kv. AList.update (fst kv) (snd kv)) kvs d"

definition apply_trigger_failure_policy ::
  "int \<Rightarrow> string \<Rightarrow> fire_row \<Rightarrow> (string, fire_row \<times> config) res" where
  "apply_trigger_failure_policy now err t =
     bind_res (py_int (py_or (dget (tg_config t) ''failure_count'') (PInt 0))) (\<lambda>before.
       let count = before + 1;
           until = now + seconds (failure_backoff count);
           policy = PDict (build_runtime_failure_policy ''trigger_preflight_skip'' err (Some True) None None None
             (Some True) None) in
       Inr (t\<lparr>tg_config := put_all_entries
              [(''failure_count'', PInt count), (''last_failure_at'', PStr (isoformat now)),
               (''last_failure'', PStr err), (''backoff_until'', PStr (isoformat until)),
               (''last_runtime_failure_policy'', policy)] (tg_config t)\<rparr>,
            [(''failure_count'', PInt count), (''backoff_seconds'', PInt (failure_backoff count)),
             (''backoff_until'', PStr (isoformat until)), (''runtime_failure_policy'', policy)]))"

definition reset_trigger_failure_policy :: "fire_row \<Rightarrow> fire_row" where
  "reset_trigger_failure_policy t = t\<lparr>tg_config := fold AList.delete
     [''failure_count'', ''last_failure_at'', ''last_failure'', ''backoff_until''] (tg_config t)\<rparr>"

section \<open>Settling one trigger\<close>

record settle_task =
  sk_id :: uuid
  sk_agent :: "uuid option"
  sk_meta :: config
  sk_summary :: "string option"

definition coerce_task_id :: "pyval \<Rightarrow> uuid option" where
  "coerce_task_id v = uuid_of_text (py_str v)"

definition trigger_inflight_matches :: "config \<Rightarrow> uuid \<Rightarrow> bool" where
  "trigger_inflight_matches d task = (case as_dict (dget d ''_fire_inflight'') of None \<Rightarrow> False
     | Some inflight \<Rightarrow> coerce_task_id (dget inflight ''runtime_task_id'') = Some task)"

definition SETTLEMENT_OUTCOMES :: "string list" where
  "SETTLEMENT_OUTCOMES = [''success'', ''failure'', ''hold'', ''release'']"

definition hold_reason :: "config \<Rightarrow> string \<Rightarrow> string" where
  "hold_reason m status = py_str (py_or (py_or (dget m ''reconciliation_reason'')
     (dget m ''restart_resume_blocker'')) (PStr status))"

definition hold_fire :: "string \<Rightarrow> fire_row \<Rightarrow> fire_row" where
  "hold_fire reason t =
     (let inflight = (case as_dict (dget (tg_config t) ''_fire_inflight'') of None \<Rightarrow> [] | Some d \<Rightarrow> d) in
      t\<lparr>tg_config := AList.update ''_fire_inflight''
          (PDict (AList.update ''hold_reason'' (PStr reason) (AList.update ''hold'' (PBool True) inflight)))
          (tg_config t)\<rparr>)"

definition end_fire :: "fire_row \<Rightarrow> fire_row" where
  "end_fire t = t\<lparr>tg_config := AList.delete ''_fire_inflight'' (tg_config t)\<rparr>"

definition count_fire :: "int \<Rightarrow> fire_row \<Rightarrow> fire_row" where
  "count_fire now t =
     (let t1 = end_fire (reset_trigger_failure_policy t);
          t2 = (if tg_type t1 = ''webhook''
                then t1\<lparr>tg_config := AList.update ''_webhook_payload'' PNone
                       (AList.update ''_webhook_pending'' (PBool False) (tg_config t1))\<rparr>
                else t1);
          n = tg_fires t2 + 1;
          spent = (tg_type t2 = ''once'' \<or> (case tg_max_fires t2 of None \<Rightarrow> False | Some m \<Rightarrow> m \<le> n)) in
      t2\<lparr>fr_last := Some now, tg_fires := n, tg_enabled := (tg_enabled t2 \<and> \<not> spent)\<rparr>)"

definition failure_text :: "config \<Rightarrow> string option \<Rightarrow> string \<Rightarrow> string" where
  "failure_text m summary status = py_str (py_or (py_or (py_or (dget m ''terminal_reason'') (dget m ''error''))
     (case summary of None \<Rightarrow> PNone | Some s \<Rightarrow> PStr s)) (PStr status))"

text \<open>A row after its settlement, its outcome, and the failure it records.\<close>

definition settle_one ::
  "int \<Rightarrow> string \<Rightarrow> string \<Rightarrow> config \<Rightarrow> settle_task \<Rightarrow> fire_row
   \<Rightarrow> (string, fire_row \<times> string \<times> config option) res" where
  "settle_one now status outcome overrides task t =
     (let m = sk_meta task;
          own = py_str (py_or (dget overrides (uuid_str (tg_id t))) (PStr outcome)) in
      if own \<notin> set SETTLEMENT_OUTCOMES then Inl ''ValueError''
      else if own = ''hold'' then Inr (hold_fire (hold_reason m status) t, own, None)
      else if own = ''success'' then Inr (count_fire now t, own, None)
      else if own = ''failure''
      then bind_res (apply_trigger_failure_policy now (failure_text m (sk_summary task) status) t) (\<lambda>(t', f).
             Inr (end_fire t', own, Some ([(''trigger_id'', PStr (uuid_str (tg_id t))),
               (''trigger_name'', PStr (tg_name t))] @ f)))
      else Inr (end_fire t, own, None))"

fun settle_each ::
  "int \<Rightarrow> string \<Rightarrow> string \<Rightarrow> config \<Rightarrow> settle_task \<Rightarrow> fire_row list
   \<Rightarrow> (string, (fire_row \<times> string \<times> config option) list) res" where
  "settle_each now status outcome overrides task [] = Inr []"
| "settle_each now status outcome overrides task (t # ts) =
     (if \<not> trigger_inflight_matches (tg_config t) (sk_id task)
      then settle_each now status outcome overrides task ts
      else bind_res (settle_one now status outcome overrides task t) (\<lambda>r.
        bind_res (settle_each now status outcome overrides task ts) (\<lambda>rs. Inr (r # rs))))"

section \<open>Settling the triggers of a task\<close>

definition prior_settlement :: "settle_task \<Rightarrow> config option" where
  "prior_settlement task = (case as_dict (dget (sk_meta task) ''trigger_settlement'') of
      None \<Rightarrow> None
    | Some d \<Rightarrow> Some d)"

definition settles_task :: "config \<Rightarrow> uuid \<Rightarrow> bool" where
  "settles_task d task = (py_str (py_or (dget d ''runtime_task_id'') (PStr [])) = uuid_str task)"

definition value_items :: "pyval \<Rightarrow> (string, pyval list) res" where
  "value_items v = (case v of PList vs \<Rightarrow> Inr vs | PStr s \<Rightarrow> Inr (map (\<lambda>c. PStr [c]) s)
     | PDict d \<Rightarrow> Inr (map (\<lambda>kv. PStr (fst kv)) d) | _ \<Rightarrow> Inl ''TypeError'')"

definition task_trigger_ids :: "config \<Rightarrow> (string, uuid list) res" where
  "task_trigger_ids m = bind_res (value_items (py_or (dget m ''trigger_ids'') (PList [])))
     (\<lambda>vs. Inr (List.map_filter coerce_task_id vs))"

definition held_outcomes :: "settle_task \<Rightarrow> (string, (string \<times> string) list \<times> uuid list) res" where
  "held_outcomes task =
     (case prior_settlement task of
        None \<Rightarrow> Inl ''ValueError''
      | Some d \<Rightarrow>
          if \<not> settles_task d (sk_id task) then Inl ''ValueError''
          else case as_dict (dget d ''trigger_outcomes'') of
              None \<Rightarrow> Inl ''ValueError''
            | Some raw \<Rightarrow>
                (let prior = map (\<lambda>(k, v). (k, py_str v)) raw;
                     held = filter (\<lambda>kv. snd kv = ''hold'') prior;
                     ids = List.map_filter (\<lambda>kv. uuid_of_text (fst kv)) held in
                 if prior = [] \<or> \<not> list_all (\<lambda>kv. snd kv \<in> set SETTLEMENT_OUTCOMES) prior then Inl ''ValueError''
                 else if ids = [] \<or> length ids \<noteq> length held then Inl ''ValueError''
                 else Inr (prior, ids)))"

definition task_outcome :: "config \<Rightarrow> string \<Rightarrow> string" where
  "task_outcome m status =
     (if status = ''completed'' \<or> status = ''skipped'' \<and> clean_text (dget m ''skip_reason'') = ''workflow_ref_handled''
      then ''success''
      else if status \<in> {''failed'', ''killed''} then ''failure''
      else if status = ''needs_reconciliation'' then ''hold'' else ''release'')"

definition fire_rows :: "uuid list \<Rightarrow> uuid option \<Rightarrow> fire_row list \<Rightarrow> fire_row list" where
  "fire_rows ids agent rows = sort_key tg_id (filter (\<lambda>t. tg_id t \<in> set ids \<and> Some (tg_agent t) = agent) rows)"

definition store_rows :: "fire_row list \<Rightarrow> fire_row list \<Rightarrow> fire_row list" where
  "store_rows new rows = map (\<lambda>t. case find (\<lambda>u. tg_id u = tg_id t) new of None \<Rightarrow> t | Some u \<Rightarrow> u) rows"

record settlement =
  sl_rows :: "fire_row list"
  sl_receipt :: "config option"
  sl_audit :: "(uuid \<times> config) option"

definition settlement_receipt ::
  "settle_task \<Rightarrow> string \<Rightarrow> string \<Rightarrow> (string \<times> string) list \<Rightarrow> config list
   \<Rightarrow> (fire_row \<times> string \<times> config option) list \<Rightarrow> config" where
  "settlement_receipt task status outcome prior failures rs =
     (let news = map (\<lambda>(t, own, f). (uuid_str (tg_id t), own)) rs;
          outcomes = fold (\<lambda>kv. AList.update (fst kv) (snd kv)) news prior;
          failures' = failures @ List.map_filter (\<lambda>(t, own, f). f) rs in
      [(''schema'', PStr ''trigger_runtime_settlement.v1''), (''runtime_task_id'', PStr (uuid_str (sk_id task))),
       (''status'', PStr status), (''outcome'', PStr outcome),
       (''trigger_ids'', PList (map (\<lambda>kv. PStr (fst kv)) outcomes)),
       (''trigger_outcomes'', PDict (map (\<lambda>kv. (fst kv, PStr (snd kv))) outcomes))]
      @ (if failures' = [] then [] else [(''failure_backoff'', PList (map PDict failures'))]))"

definition audit_details :: "settle_task \<Rightarrow> string \<Rightarrow> config \<Rightarrow> (string, config) res" where
  "audit_details task status receipt =
     bind_res (value_items (py_or (dget (sk_meta task) ''trigger_names'') (PList []))) (\<lambda>names.
     bind_res (value_items (py_or (dget (sk_meta task) ''trigger_types'') (PList []))) (\<lambda>types.
       Inr [(''runtime_task_id'', PStr (uuid_str (sk_id task))), (''terminal_status'', PStr status),
            (''trigger_ids'', dget receipt ''trigger_ids''), (''trigger_names'', PList names),
            (''trigger_types'', PList types), (''trigger_outcomes'', dget receipt ''trigger_outcomes'')]))"

definition finish_receipt ::
  "(uuid \<Rightarrow> uuid) \<Rightarrow> settle_task \<Rightarrow> string \<Rightarrow> config \<Rightarrow> bool
   \<Rightarrow> (string, config \<times> (uuid \<times> config) option) res" where
  "finish_receipt audit_id task status receipt succeeded =
     (let audited = (case prior_settlement task of None \<Rightarrow> []
        | Some d \<Rightarrow> py_str (py_or (dget d ''audit_log_id'') (PStr []))) in
      if audited \<noteq> [] then Inr (AList.update ''audit_log_id'' (PStr audited) receipt, None)
      else if succeeded
      then bind_res (audit_details task status receipt) (\<lambda>details.
        Inr (AList.update ''audit_log_id'' (PStr (uuid_str (audit_id (sk_id task)))) receipt,
             Some (audit_id (sk_id task), details)))
      else Inr (receipt, None))"

definition nothing_settled :: "fire_row list \<Rightarrow> config option \<Rightarrow> settlement" where
  "nothing_settled rows receipt = \<lparr>sl_rows = rows, sl_receipt = receipt, sl_audit = None\<rparr>"

definition settle_rows ::
  "(uuid \<Rightarrow> uuid) \<Rightarrow> int \<Rightarrow> settle_task \<Rightarrow> string \<Rightarrow> string \<Rightarrow> config \<Rightarrow> (string \<times> string) list
   \<Rightarrow> config list \<Rightarrow> fire_row list \<Rightarrow> fire_row list \<Rightarrow> (string, settlement) res" where
  "settle_rows audit_id now task status outcome overrides prior failures locked rows =
     bind_res (settle_each now status outcome overrides task locked) (\<lambda>rs.
     bind_res (finish_receipt audit_id task status (settlement_receipt task status outcome prior failures rs)
         (list_ex (\<lambda>(t, own, f). own = ''success'') rs)) (\<lambda>(receipt, audit).
       Inr \<lparr>sl_rows = store_rows (map fst rs) rows, sl_receipt = Some receipt, sl_audit = audit\<rparr>))"

text \<open>The settlement when a task reaches a terminal status: a receipt of the same task is final.\<close>

definition settled_before :: "settle_task \<Rightarrow> config option" where
  "settled_before task = (case prior_settlement task of None \<Rightarrow> None
     | Some d \<Rightarrow> if settles_task d (sk_id task) then Some d else None)"

definition settlement_overrides :: "config \<Rightarrow> config" where
  "settlement_overrides m = (case as_dict (dget m ''trigger_settlement_overrides'') of None \<Rightarrow> [] | Some d \<Rightarrow> d)"

definition settle_trigger_runtime_task ::
  "(uuid \<Rightarrow> uuid) \<Rightarrow> int \<Rightarrow> settle_task \<Rightarrow> string \<Rightarrow> fire_row list \<Rightarrow> (string, settlement) res" where
  "settle_trigger_runtime_task audit_id now task status rows =
     (case settled_before task of
        Some d \<Rightarrow> Inr (nothing_settled rows (Some d))
      | None \<Rightarrow> bind_res (task_trigger_ids (sk_meta task)) (\<lambda>ids.
          if ids = [] \<or> sk_agent task = None then Inr (nothing_settled rows None)
          else settle_rows audit_id now task status (task_outcome (sk_meta task) status)
            (settlement_overrides (sk_meta task)) [] [] (fire_rows ids (sk_agent task) rows) rows))"

text \<open>What the writer of the status stores of a settlement in the metadata of the task.\<close>

definition store_settlement :: "config option \<Rightarrow> settle_task \<Rightarrow> settle_task" where
  "store_settlement receipt task = (case receipt of None \<Rightarrow> task
     | Some d \<Rightarrow>
         let m = AList.update ''trigger_settlement'' (PDict d) (sk_meta task) in
         task\<lparr>sk_meta := (if truthy (dget d ''failure_backoff'')
                then AList.update ''failure_backoff'' (dget d ''failure_backoff'') m else m)\<rparr>)"

text \<open>
  The settlement of held fires by an operator: the held triggers must still be held by this very task,
  and the outcomes settled before are kept.
\<close>

definition earlier_failures :: "settle_task \<Rightarrow> (string, config list) res" where
  "earlier_failures task = (case prior_settlement task of None \<Rightarrow> Inr []
     | Some d \<Rightarrow> bind_res (value_items (if has_key d ''failure_backoff'' then dget d ''failure_backoff'' else PList []))
         (\<lambda>vs. Inr (List.map_filter as_dict vs)))"

definition settle_held_triggers ::
  "(uuid \<Rightarrow> uuid) \<Rightarrow> int \<Rightarrow> settle_task \<Rightarrow> string \<Rightarrow> string \<Rightarrow> fire_row list \<Rightarrow> (string, settlement) res" where
  "settle_held_triggers audit_id now task status outcome rows =
     (if outcome \<notin> {''success'', ''failure'', ''release''} then Inl ''ValueError''
      else bind_res (held_outcomes task) (\<lambda>(prior, ids).
        if sk_agent task = None then Inr (nothing_settled rows None)
        else let locked = fire_rows ids (sk_agent task) rows in
          if set (map tg_id locked) \<noteq> set ids
             \<or> \<not> list_all (\<lambda>t. trigger_inflight_matches (tg_config t) (sk_id task)) locked
          then Inl ''ValueError''
          else bind_res (earlier_failures task) (\<lambda>failures.
            settle_rows audit_id now task status outcome [] prior failures locked rows)))"

definition DISPOSITION_OUTCOMES :: "(string \<times> string) list" where
  "DISPOSITION_OUTCOMES = [(''confirmed_success'', ''success''), (''confirmed_failure'', ''failure''), (''release'', ''release'')]"

definition prior_trigger_outcomes :: "settle_task \<Rightarrow> (string, config) res" where
  "prior_trigger_outcomes task = (case prior_settlement task of None \<Rightarrow> Inr []
     | Some d \<Rightarrow> (case as_dict (py_or (dget d ''trigger_outcomes'') (PDict [])) of
         None \<Rightarrow> Inl ''TypeError'' | Some o' \<Rightarrow> Inr o'))"

definition final_outcomes :: "string \<Rightarrow> config \<Rightarrow> config" where
  "final_outcomes outcome prior = map (\<lambda>(k, v). (k, PStr (if py_str v = ''hold'' then outcome else py_str v))) prior"

definition reconciled_status :: "config \<Rightarrow> string" where
  "reconciled_status outcomes =
     (if PStr ''failure'' \<in> snd ` set outcomes then ''failed''
      else if PStr ''success'' \<in> snd ` set outcomes then ''completed'' else ''killed'')"

definition reconciled_outcome :: "string \<Rightarrow> string" where
  "reconciled_outcome status =
     (if status = ''failed'' then ''failure'' else if status = ''completed'' then ''success'' else ''release'')"

definition settle_trigger_runtime_reconciliation ::
  "(uuid \<Rightarrow> uuid) \<Rightarrow> int \<Rightarrow> settle_task \<Rightarrow> string \<Rightarrow> fire_row list \<Rightarrow> (string, string \<times> settlement) res" where
  "settle_trigger_runtime_reconciliation audit_id now task disposition rows =
     (case map_of DISPOSITION_OUTCOMES (py_strip disposition) of
        None \<Rightarrow> Inl ''ValueError''
      | Some outcome \<Rightarrow> bind_res (prior_trigger_outcomes task) (\<lambda>prior.
          let final = final_outcomes outcome prior; status = reconciled_status final in
          if final = [] \<or> final = prior \<or> PStr ''hold'' \<in> snd ` set final then Inl ''ValueError''
          else bind_res (settle_held_triggers audit_id now task status outcome rows) (\<lambda>s.
            case sl_receipt s of
              None \<Rightarrow> Inl ''ValueError''
            | Some d \<Rightarrow>
                if dget d ''trigger_outcomes'' \<noteq> PDict final then Inl ''ValueError''
                else Inr (status, s\<lparr>sl_receipt := Some (AList.update ''reconciliation_disposition'' (PStr disposition)
                       (AList.update ''outcome'' (PStr (reconciled_outcome status))
                         (AList.update ''status'' (PStr status) d)))\<rparr>))))"

section \<open>A settlement is final\<close>

lemma receipt_names_its_task:
  assumes "settle_rows audit_id now task status outcome overrides prior failures locked rows = Inr s"
  shows "\<exists>d. sl_receipt s = Some d \<and> settles_task d (sk_id task)"
proof -
  have base: "dget (settlement_receipt task status outcome prior failures rs) ''runtime_task_id'' = PStr (uuid_str (sk_id task))" for rs
    by (simp add: settlement_receipt_def Let_def dget_def)
  from assms obtain rs receipt where
    "finish_receipt audit_id task status (settlement_receipt task status outcome prior failures rs)
       (list_ex (\<lambda>(t, own, f). own = ''success'') rs) = Inr (receipt, sl_audit s)" "sl_receipt s = Some receipt"
    by (auto simp: settle_rows_def)
  then have "sl_receipt s = Some receipt \<and> dget receipt ''runtime_task_id'' = PStr (uuid_str (sk_id task))"
    using base by (auto simp: finish_receipt_def Let_def split: if_splits)
  then show ?thesis by (auto simp: settles_task_def py_or_def)
qed

text \<open>
  Claim C24. A task settles its triggers once: after a settlement with a receipt is stored, every later
  settlement of the task, at whatever time and with whatever status and rows, returns that receipt,
  changes no row and writes no audit entry.
\<close>

theorem settlement_happens_once:
  assumes "settle_trigger_runtime_task audit_id now task status rows = Inr s" "sl_receipt s = Some receipt"
  shows "settle_trigger_runtime_task audit_id' now' (store_settlement (sl_receipt s) task) status' rows'
    = Inr (nothing_settled rows' (Some receipt))"
proof -
  have "settles_task receipt (sk_id task)"
    using assms
    by (auto simp: settle_trigger_runtime_task_def settled_before_def nothing_settled_def
        dest!: receipt_names_its_task split: option.splits if_splits)
  moreover have "prior_settlement (store_settlement (Some receipt) task) = Some receipt"
    by (simp add: prior_settlement_def store_settlement_def Let_def)
  moreover have "sk_id (store_settlement (Some receipt) task) = sk_id task"
    by (simp add: store_settlement_def Let_def)
  ultimately show ?thesis
    using assms(2) by (simp add: settle_trigger_runtime_task_def settled_before_def)
qed


section \<open>How often a trigger fires\<close>

text \<open>A fire that is marked counts as one that may still be counted.\<close>

definition pending_fires :: "fire_row \<Rightarrow> int" where
  "pending_fires t = (case as_dict (dget (tg_config t) ''_fire_inflight'') of None \<Rightarrow> 0 | Some _ \<Rightarrow> 1)"

definition fires_bounded :: "int \<Rightarrow> fire_row \<Rightarrow> bool" where
  "fires_bounded n t = ((case tg_max_fires t of None \<Rightarrow> True | Some m \<Rightarrow> n \<le> m) \<and> (tg_type t = ''once'' \<longrightarrow> n \<le> 1))"

text \<open>
  With \<open>k\<close> marks of a trigger that was not due when it was marked, its counted and its pending fires
  stay within its maximum and \<open>k\<close> more.
\<close>

definition fires_planned :: "(uuid \<Rightarrow> nat) \<Rightarrow> fire_row \<Rightarrow> bool" where
  "fires_planned early t = fires_bounded (tg_fires t + pending_fires t - int (early (tg_id t))) t"

definition same_definition :: "fire_row \<Rightarrow> fire_row \<Rightarrow> bool" where
  "same_definition t t' = (tg_id t' = tg_id t \<and> tg_agent t' = tg_agent t \<and> tg_type t' = tg_type t
     \<and> tg_max_fires t' = tg_max_fires t)"

lemma planned_mono:
  "fires_planned k t \<Longrightarrow> same_definition t t' \<Longrightarrow> tg_fires t' + pending_fires t' \<le> tg_fires t + pending_fires t
   \<Longrightarrow> fires_planned k t'"
  by (auto simp: fires_planned_def fires_bounded_def same_definition_def split: option.splits)

lemma planned_bounded: "fires_planned k t \<Longrightarrow> fires_bounded (tg_fires t - int (k (tg_id t))) t"
  by (auto simp: fires_planned_def fires_bounded_def pending_fires_def split: option.splits)

lemma pending_end [simp]: "pending_fires (end_fire t) = 0"
  by (simp add: pending_fires_def end_fire_def)

lemma pending_held [simp]: "pending_fires (hold_fire reason t) = 1"
  by (simp add: pending_fires_def hold_fire_def Let_def)

lemma matching_pending: "trigger_inflight_matches (tg_config t) task \<Longrightarrow> pending_fires t = 1"
  by (auto simp: trigger_inflight_matches_def pending_fires_def split: option.splits)

lemma definition_kept:
  "same_definition t (end_fire t)" "same_definition t (hold_fire reason t)" "same_definition t (count_fire now t)"
  by (simp_all add: same_definition_def end_fire_def hold_fire_def count_fire_def reset_trigger_failure_policy_def Let_def)

lemma counted: "tg_fires (count_fire now t) = tg_fires t + 1" "pending_fires (count_fire now t) = 0"
  by (simp_all add: count_fire_def end_fire_def reset_trigger_failure_policy_def pending_fires_def Let_def)

lemma failure_policy_row:
  assumes "apply_trigger_failure_policy now err t = Inr (t', f)"
  shows "same_definition t t' \<and> tg_fires t' = tg_fires t \<and> tg_enabled t' = tg_enabled t"
  using assms by (auto simp: apply_trigger_failure_policy_def same_definition_def Let_def)

lemma settle_one_row:
  assumes "settle_one now status outcome overrides task t = Inr (t', own, f)"
    and "trigger_inflight_matches (tg_config t) (sk_id task)"
  shows "same_definition t t' \<and> tg_fires t' + pending_fires t' \<le> tg_fires t + pending_fires t"
proof -
  have p: "pending_fires t = 1" using assms(2) by (rule matching_pending)
  have kept: "same_definition t (end_fire u)" "tg_fires (end_fire u) = tg_fires t"
    if "same_definition t u" "tg_fires u = tg_fires t" for u
    using that by (simp_all add: same_definition_def end_fire_def)
  have "tg_fires (hold_fire reason t) = tg_fires t" "tg_fires (end_fire t) = tg_fires t" for reason
    by (simp_all add: hold_fire_def end_fire_def Let_def)
  then show ?thesis
    using assms(1) p definition_kept counted kept
    by (auto simp: settle_one_def Let_def split: if_splits dest!: failure_policy_row)
qed

lemma settle_each_rows:
  assumes "settle_each now status outcome overrides task ts = Inr rs" "r \<in> set rs"
  shows "\<exists>t \<in> set ts. trigger_inflight_matches (tg_config t) (sk_id task)
    \<and> settle_one now status outcome overrides task t = Inr r"
  using assms
proof (induction ts arbitrary: rs)
  case (Cons t ts)
  then show ?case by (cases "trigger_inflight_matches (tg_config t) (sk_id task)") auto
qed simp


definition one_row_each :: "fire_row list \<Rightarrow> bool" where
  "one_row_each rows = distinct (map tg_id rows)"

lemma store_rows_ids: "map tg_id (store_rows new rows) = map tg_id rows"
  by (auto simp: store_rows_def find_Some_iff split: option.split)

lemma fire_rows_in: "t \<in> set (fire_rows ids agent rows) \<Longrightarrow> t \<in> set rows \<and> tg_id t \<in> set ids"
  by (simp add: fire_rows_def)

lemma settle_rows_planned:
  assumes "settle_rows audit_id now task status outcome overrides prior failures (fire_rows ids agent rows) rows = Inr s"
    and "one_row_each rows" "list_all (fires_planned k) rows"
  shows "one_row_each (sl_rows s) \<and> list_all (fires_planned k) (sl_rows s)"
proof -
  from assms(1) obtain rs where
    rs: "settle_each now status outcome overrides task (fire_rows ids agent rows) = Inr rs"
      "sl_rows s = store_rows (map fst rs) rows"
    by (auto simp: settle_rows_def)
  have "fires_planned k u" if u: "u \<in> set (sl_rows s)" for u
  proof (cases "u \<in> set rows")
    case True
    with assms(3) show ?thesis by (simp add: list_all_iff)
  next
    case False
    with u rs(2) obtain x where x: "x \<in> set rows" "find (\<lambda>v. tg_id v = tg_id x) (map fst rs) = Some u"
      by (auto simp: store_rows_def split: option.splits)
    have "u \<in> set (map fst rs)" using x(2) by (metis find_Some_iff nth_mem)
    then obtain r where r: "r \<in> set rs" "u = fst r" by auto
    obtain t where t: "t \<in> set (fire_rows ids agent rows)" "trigger_inflight_matches (tg_config t) (sk_id task)"
        "settle_one now status outcome overrides task t = Inr r"
      using settle_each_rows [OF rs(1) r(1)] by blast
    with settle_one_row [of now status outcome overrides task t u "fst (snd r)" "snd (snd r)"] r(2)
    have "same_definition t u" "tg_fires u + pending_fires u \<le> tg_fires t + pending_fires t" by simp_all
    moreover have "fires_planned k t" using t(1) assms(3) by (auto simp: list_all_iff dest: fire_rows_in)
    ultimately show ?thesis by (rule planned_mono [rotated])
  qed
  then show ?thesis
    using assms(2) by (simp add: list_all_iff one_row_each_def rs(2) store_rows_ids)
qed

lemma settlement_planned:
  assumes "settle_trigger_runtime_task audit_id now task status rows = Inr s"
    and "one_row_each rows" "list_all (fires_planned k) rows"
  shows "one_row_each (sl_rows s) \<and> list_all (fires_planned k) (sl_rows s)"
proof -
  from assms(1) have "sl_rows s = rows \<or> (\<exists>st oc ov pr fs ids ag. settle_rows audit_id now task st oc ov pr fs
      (fire_rows ids ag rows) rows = Inr s)"
    unfolding settle_trigger_runtime_task_def nothing_settled_def by (auto split: option.splits if_splits)
  with settle_rows_planned assms(2,3) show ?thesis by auto
qed

lemma reconciliation_settles_held:
  assumes "settle_trigger_runtime_reconciliation audit_id now task disposition rows = Inr (st, s)"
  shows "\<exists>outcome s0 d. settle_held_triggers audit_id now task st outcome rows = Inr s0 \<and> sl_receipt s0 = Some d
    \<and> sl_rows s = sl_rows s0 \<and> st \<in> {''completed'', ''failed'', ''killed''}"
proof -
  from assms obtain outcome where o: "map_of DISPOSITION_OUTCOMES (py_strip disposition) = Some outcome"
    unfolding settle_trigger_runtime_reconciliation_def by (cases "map_of DISPOSITION_OUTCOMES (py_strip disposition)") simp_all
  with assms obtain prior where p: "prior_trigger_outcomes task = Inr prior"
    unfolding settle_trigger_runtime_reconciliation_def by auto
  let ?final = "final_outcomes outcome prior"
  have "\<not> (?final = [] \<or> ?final = prior \<or> PStr ''hold'' \<in> snd ` set ?final)"
    using assms unfolding settle_trigger_runtime_reconciliation_def o p Let_def by (simp split: if_splits)
  with assms obtain s0 where
    s0: "settle_held_triggers audit_id now task (reconciled_status ?final) outcome rows = Inr s0"
    and rest: "(case sl_receipt s0 of None \<Rightarrow> Inl ''ValueError''
      | Some d \<Rightarrow> if dget d ''trigger_outcomes'' \<noteq> PDict ?final then Inl ''ValueError''
          else Inr (reconciled_status ?final, s0\<lparr>sl_receipt := Some (AList.update ''reconciliation_disposition'' (PStr disposition)
            (AList.update ''outcome'' (PStr (reconciled_outcome (reconciled_status ?final)))
              (AList.update ''status'' (PStr (reconciled_status ?final)) d)))\<rparr>)) = Inr (st, s)"
    unfolding settle_trigger_runtime_reconciliation_def o p Let_def by auto
  have "reconciled_status ?final \<in> {''completed'', ''failed'', ''killed''}" by (simp add: reconciled_status_def)
  moreover obtain d where "sl_receipt s0 = Some d" using rest by (cases "sl_receipt s0") auto
  moreover from this rest have "st = reconciled_status ?final" "sl_rows s = sl_rows s0"
    by (auto split: if_splits)
  ultimately show ?thesis using s0 by blast
qed

lemma reconciliation_planned:
  assumes "settle_trigger_runtime_reconciliation audit_id now task disposition rows = Inr (st, s)"
    and "one_row_each rows" "list_all (fires_planned k) rows"
  shows "one_row_each (sl_rows s) \<and> list_all (fires_planned k) (sl_rows s)"
proof -
  from reconciliation_settles_held [OF assms(1)] obtain status outcome s0 where
    s0: "settle_held_triggers audit_id now task status outcome rows = Inr s0" "sl_rows s = sl_rows s0"
    by blast
  from s0(1) have "sl_rows s0 = rows \<or> (\<exists>st oc ov pr fs ids ag. settle_rows audit_id now task st oc ov pr fs
      (fire_rows ids ag rows) rows = Inr s0)"
    unfolding settle_held_triggers_def nothing_settled_def Let_def by (auto split: if_splits)
  with settle_rows_planned assms(2,3) s0(2) show ?thesis by auto
qed

lemma due_not_held_back:
  assumes "evaluate_trigger w t = Inr ev" "ev_due ev"
  shows "\<not> held_back w t \<and> (tg_type t = ''once'' \<longrightarrow> tg_fires t = 0)"
proof -
  have "\<not> held_back w t" using assms by (auto simp: evaluate_trigger_def verdict_only_def)
  moreover have "tg_fires t = 0" if "tg_type t = ''once''"
    using assms that \<open>\<not> held_back w t\<close>
    by (auto simp: evaluate_trigger_def verdict_only_def once_due_def split: pyval.splits option.splits)
  ultimately show ?thesis by blast
qed

text \<open>A trigger is due on its row; a mark that finds it otherwise is early.\<close>

definition due_row :: "fire_world \<Rightarrow> fire_row \<Rightarrow> bool" where
  "due_row w t = (case evaluate_trigger w t of Inl e \<Rightarrow> False | Inr ev \<Rightarrow> ev_due ev)"

definition mark_early :: "fire_world \<Rightarrow> fire_row \<Rightarrow> (uuid \<Rightarrow> nat) \<Rightarrow> uuid \<Rightarrow> nat" where
  "mark_early w t k i = (k i + (if i = tg_id t \<and> \<not> due_row w t then 1 else 0))"

lemma marked_planned:
  assumes "mark_one w metadata task keys t = Inr t'" "fires_planned k t"
  shows "fires_planned (mark_early w t k) t' \<and> tg_id t' = tg_id t"
proof -
  from assms(1) consider "t' = t" | v where "t' = t\<lparr>tg_config := AList.update ''_fire_inflight'' (PDict v) (tg_config t)\<rparr>"
    by (auto simp: mark_one_def inflight_mark_def split: if_splits)
  then show ?thesis
  proof cases
    case 1
    with assms(2) show ?thesis
      by (auto simp: fires_planned_def fires_bounded_def mark_early_def split: option.splits)
  next
    case 2
    have p: "0 \<le> pending_fires t" by (simp add: pending_fires_def split: option.split)
    show ?thesis
    proof (cases "due_row w t")
      case False
      then show ?thesis using assms(2) p
        by (auto simp: 2 fires_planned_def fires_bounded_def mark_early_def pending_fires_def split: option.splits)
    next
      case True
      then obtain ev where "evaluate_trigger w t = Inr ev" "ev_due ev" by (auto simp: due_row_def split: sum.splits)
      from due_not_held_back [OF this] have "\<not> fires_used_up t" "tg_type t = ''once'' \<longrightarrow> tg_fires t = 0"
        by (simp_all add: held_back_def)
      then show ?thesis
        by (auto simp: 2 fires_planned_def fires_bounded_def mark_early_def pending_fires_def fires_used_up_def
          split: option.splits)
    qed
  qed
qed

lemma map_rows_each:
  assumes "map_rows P f rows = Inr rows'"
  shows "list_all2 (\<lambda>t t'. if P t then f t = Inr t' else t' = t) rows rows'"
  using assms
proof (induction rows arbitrary: rows')
  case (Cons t rows)
  then obtain t' ts where "(if P t then f t else Inr t) = Inr t'" "map_rows P f rows = Inr ts" "rows' = t' # ts" by auto
  with Cons.IH [of ts] show ?case by (cases "P t") simp_all
qed simp

lemma list_all2_right:
  assumes "list_all2 (\<lambda>t t'. Q t' \<and> g t' = g t) xs ys"
  shows "list_all Q ys \<and> map g ys = map g xs"
  using assms by (induction rule: list_all2_induct) simp_all

text \<open>
  The life of the triggers: marks, settlements and reconciliations of tasks. A mark asks for no
  evaluation: a batch marks the triggers that a tick found due on its snapshot, and an immediate fire marks
  a trigger that may not be due at all. Each step tells the triggers that it marked early.
\<close>

definition early_marks :: "fire_world \<Rightarrow> uuid \<Rightarrow> uuid list \<Rightarrow> bool \<Rightarrow> fire_row list \<Rightarrow> uuid set" where
  "early_marks w agent ids enabled rows = tg_id ` set (filter (\<lambda>t. in_batch agent ids enabled t \<and> \<not> due_row w t) rows)"

inductive fire_step :: "uuid set \<Rightarrow> fire_row list \<Rightarrow> fire_row list \<Rightarrow> bool" where
  marked: "mark_trigger_fire_started w agent ids metadata task keys enabled rows = Inr (rows', ok) \<Longrightarrow>
    fire_step (early_marks w agent ids enabled rows) rows rows'"
| settled: "settle_trigger_runtime_task audit_id now t status rows = Inr s \<Longrightarrow> fire_step {} rows (sl_rows s)"
| reconciled: "settle_trigger_runtime_reconciliation audit_id now t disposition rows = Inr (status, s) \<Longrightarrow>
    fire_step {} rows (sl_rows s)"

text \<open>A sequence of steps, with how often each trigger was marked early.\<close>

inductive fire_run :: "(uuid \<Rightarrow> nat) \<Rightarrow> fire_row list \<Rightarrow> fire_row list \<Rightarrow> bool" where
  start: "fire_run (\<lambda>i. 0) rows rows"
| step: "fire_run k rows rows' \<Longrightarrow> fire_step early rows' rows'' \<Longrightarrow>
    fire_run (\<lambda>i. k i + (if i \<in> early then 1 else 0)) rows rows''"

lemma fire_step_planned:
  "fire_step early rows rows' \<Longrightarrow> one_row_each rows \<Longrightarrow> list_all (fires_planned k) rows
   \<Longrightarrow> one_row_each rows' \<and> list_all (fires_planned (\<lambda>i. k i + (if i \<in> early then 1 else 0))) rows'"
proof (induction rule: fire_step.induct)
  case (marked w agent ids metadata task keys enabled rows rows' ok)
  let ?early = "early_marks w agent ids enabled rows"
  let ?k = "\<lambda>i. k i + (if i \<in> ?early then 1 else 0)"
  have more: "fires_planned ?k t" if "fires_planned h t" "h (tg_id t) \<le> ?k (tg_id t)" for h t
    using that by (auto simp: fires_planned_def fires_bounded_def split: option.splits)
  from marked.hyps consider "rows' = rows"
    | "map_rows (in_batch agent ids enabled) (mark_one w metadata task keys) rows = Inr rows'"
    by (auto simp: mark_trigger_fire_started_def split: if_splits)
  then show ?case
  proof cases
    case 1
    with marked.prems show ?thesis by (auto simp: list_all_iff intro: more)
  next
    case 2
    have "list_all2 (\<lambda>t t'. fires_planned ?k t' \<and> tg_id t' = tg_id t) rows rows'"
    proof (rule list_all2_all_nthI)
      from map_rows_each [OF 2] show len: "length rows = length rows'" by (rule list_all2_lengthD)
      fix n assume n: "n < length rows"
      let ?t = "rows ! n" and ?t' = "rows' ! n"
      have t: "?t \<in> set rows" "fires_planned k ?t" using n marked.prems(2) by (simp_all add: list_all_iff)
      have each: "if in_batch agent ids enabled ?t then mark_one w metadata task keys ?t = Inr ?t' else ?t' = ?t"
        using list_all2_nthD [OF map_rows_each [OF 2] n] .
      show "fires_planned ?k ?t' \<and> tg_id ?t' = tg_id ?t"
      proof (cases "in_batch agent ids enabled ?t")
        case False
        with each t show ?thesis by (auto intro: more)
      next
        case True
        with each have "mark_one w metadata task keys ?t = Inr ?t'" by simp
        from marked_planned [OF this t(2)] have m: "fires_planned (mark_early w ?t k) ?t'" "tg_id ?t' = tg_id ?t" by simp_all
        have "mark_early w ?t k (tg_id ?t) \<le> ?k (tg_id ?t)"
          using True t(1) by (auto simp: mark_early_def early_marks_def)
        with more [OF m(1)] m(2) show ?thesis by simp
      qed
    qed
    from list_all2_right [OF this] marked.prems(1) show ?thesis by (simp add: one_row_each_def)
  qed
next
  case (settled audit_id now t status rows s)
  then show ?case using settlement_planned by fastforce
next
  case (reconciled audit_id now t disposition rows status s)
  then show ?case using reconciliation_planned by fastforce
qed

text \<open>
  Claim C19. The daemon fires a trigger at most as often as its \<open>max_fires\<close>, and a trigger of the type \<open>once\<close>
  at most once: through every sequence of marks, settlements and reconciliations, the counted fires exceed
  the maximum by no more than the number of marks that found the trigger not due on its row, which only an
  immediate fire or a batch that a tick evaluated on an older row makes.
\<close>

theorem fires_stay_within_the_maximum:
  assumes "fire_run early rows rows'" and "one_row_each rows" and "list_all (fires_planned (\<lambda>i. 0)) rows"
  shows "list_all (\<lambda>t. fires_bounded (tg_fires t - int (early (tg_id t))) t) rows'"
proof -
  have "one_row_each rows' \<and> list_all (fires_planned early) rows'"
    using assms
  proof (induction rule: fire_run.induct)
    case (step k rows rows' early rows'')
    from step.IH [OF step.prems] fire_step_planned [OF step.hyps(2)] show ?case by blast
  qed simp
  then show ?thesis by (auto simp: list_all_iff planned_bounded)
qed

section \<open>Failures back off\<close>

lemma failure_policy_entries:
  assumes "apply_trigger_failure_policy now err t = Inr (t', f)"
  shows "\<exists>n. py_int (py_or (dget (tg_config t) ''failure_count'') (PInt 0)) = Inr n
    \<and> dget (tg_config t') ''failure_count'' = PInt (n + 1)
    \<and> dget (tg_config t') ''backoff_until'' = PStr (isoformat (now + seconds (failure_backoff (n + 1))))"
  using assms by (auto simp: apply_trigger_failure_policy_def put_all_entries_def Let_def)

lemma settled_failure:
  assumes "settle_one now status outcome overrides task t = Inr (t', ''failure'', f)"
  shows "\<exists>n. py_int (py_or (dget (tg_config t) ''failure_count'') (PInt 0)) = Inr n
    \<and> dget (tg_config t') ''failure_count'' = PInt (n + 1)
    \<and> dget (tg_config t') ''backoff_until'' = PStr (isoformat (now + seconds (failure_backoff (n + 1))))"
  using assms
  by (auto simp: settle_one_def Let_def end_fire_def split: if_splits dest!: failure_policy_entries)

text \<open>
  Claim C30. A fire that failed makes its trigger wait. The failure is counted on top of the count \<open>n\<close> that
  the config stored before (none is zero), and the wait is \<open>60 * 2 ^ n\<close> seconds, but never more than an hour:
  a minute after the first failure, twice as long after each further one. Where the stored time is read
  back, the trigger does not fire before that time, and from then on the failure no longer holds it back.
\<close>

theorem failures_back_off:
  assumes "settle_one now status outcome overrides task t = Inr (t', ''failure'', f)"
  shows "\<exists>n until. py_int (py_or (dget (tg_config t) ''failure_count'') (PInt 0)) = Inr n
    \<and> dget (tg_config t') ''failure_count'' = PInt (n + 1)
    \<and> until = now + 1000000 * min (60 * 2 ^ nat n) 3600
    \<and> dget (tg_config t') ''backoff_until'' = PStr (isoformat until)
    \<and> (\<forall>w. fw_iso w (isoformat until) = Some until \<longrightarrow>
        waits_in_backoff w (tg_config t') = (fw_now w < until)
        \<and> (fw_now w < until \<longrightarrow> evaluate_trigger w t' = Inr (verdict_only False t')))"
proof -
  obtain n where n: "py_int (py_or (dget (tg_config t) ''failure_count'') (PInt 0)) = Inr n"
      "dget (tg_config t') ''failure_count'' = PInt (n + 1)"
      "dget (tg_config t') ''backoff_until'' = PStr (isoformat (now + seconds (failure_backoff (n + 1))))"
    using settled_failure [OF assms] by blast
  have "nat (max n 0) = nat n" by simp
  then have until: "seconds (failure_backoff (n + 1)) = 1000000 * min (60 * 2 ^ nat n) 3600"
    by (simp add: failure_backoff_def DEFAULT_FAILURE_BACKOFF_SECONDS_def MAX_FAILURE_BACKOFF_SECONDS_def)
  let ?until = "now + 1000000 * min (60 * 2 ^ nat n) 3600"
  have stored: "dget (tg_config t') ''backoff_until'' = PStr (isoformat ?until)" using n(3) until by simp
  have waits: "waits_in_backoff w (tg_config t') = (fw_now w < ?until)"
    if "fw_iso w (isoformat ?until) = Some ?until" for w
    using that by (simp add: waits_in_backoff_def stored stored_isoformat isoformat_is_text)
  have "evaluate_trigger w t' = Inr (verdict_only False t')" if "waits_in_backoff w (tg_config t')" for w
    using that by (simp add: evaluate_trigger_def held_back_def)
  with waits n(1,2) stored show ?thesis by blast
qed

section \<open>Operators settle what is held\<close>

lemma no_overrides: "outcome \<noteq> [] \<Longrightarrow> py_str (py_or (dget [] k) (PStr outcome)) = outcome"
  by (simp add: dget_def py_or_def)

lemma same_definition_end: "same_definition t u \<Longrightarrow> tg_id (end_fire u) = tg_id t"
  by (simp add: same_definition_def end_fire_def)

lemma final_settlement_ends:
  assumes "settle_one now status outcome [] task t = Inr (t', own, f)" "outcome \<in> {''success'', ''failure'', ''release''}"
  shows "pending_fires t' = 0 \<and> tg_id t' = tg_id t"
  using assms(2)
proof (elim insertE emptyE)
  assume o: "outcome = ''success''"
  with assms(1) have "t' = count_fire now t"
    by (simp add: settle_one_def no_overrides SETTLEMENT_OUTCOMES_def)
  with definition_kept(3) counted(2) show ?thesis by (simp add: same_definition_def)
next
  assume o: "outcome = ''failure''"
  with assms(1) obtain u g where
    "apply_trigger_failure_policy now (failure_text (sk_meta task) (sk_summary task) status) t = Inr (u, g)"
    "t' = end_fire u"
    by (auto simp: settle_one_def no_overrides SETTLEMENT_OUTCOMES_def)
  with failure_policy_row [OF this(1)] show ?thesis by (simp add: same_definition_end)
next
  assume o: "outcome = ''release''"
  with assms(1) have "t' = end_fire t"
    by (simp add: settle_one_def no_overrides SETTLEMENT_OUTCOMES_def)
  then show ?thesis by (simp add: end_fire_def pending_fires_def)
qed

lemma settle_each_all:
  assumes "settle_each now status outcome overrides task ts = Inr rs"
    and "list_all (\<lambda>t. trigger_inflight_matches (tg_config t) (sk_id task)) ts"
  shows "list_all2 (\<lambda>t r. settle_one now status outcome overrides task t = Inr r) ts rs"
  using assms by (induction ts arbitrary: rs) auto

lemma held_settled:
  assumes "settle_held_triggers audit_id now task status outcome rows = Inr s" "sl_receipt s = Some d"
  shows "\<exists>prior ids rs. held_outcomes task = Inr (prior, ids) \<and> outcome \<in> {''success'', ''failure'', ''release''}
    \<and> set (map tg_id (fire_rows ids (sk_agent task) rows)) = set ids
    \<and> list_all (\<lambda>t. trigger_inflight_matches (tg_config t) (sk_id task)) (fire_rows ids (sk_agent task) rows)
    \<and> settle_each now status outcome [] task (fire_rows ids (sk_agent task) rows) = Inr rs
    \<and> sl_rows s = store_rows (map fst rs) rows"
proof -
  from assms obtain prior ids failures where h: "held_outcomes task = Inr (prior, ids)"
      "outcome \<in> {''success'', ''failure'', ''release''}"
      "set (map tg_id (fire_rows ids (sk_agent task) rows)) = set ids"
      "list_all (\<lambda>t. trigger_inflight_matches (tg_config t) (sk_id task)) (fire_rows ids (sk_agent task) rows)"
      "settle_rows audit_id now task status outcome [] prior failures (fire_rows ids (sk_agent task) rows) rows = Inr s"
    unfolding settle_held_triggers_def Let_def nothing_settled_def by (auto split: if_splits)
  from h(5) obtain rs where "settle_each now status outcome [] task (fire_rows ids (sk_agent task) rows) = Inr rs"
      "sl_rows s = store_rows (map fst rs) rows"
    by (auto simp: settle_rows_def)
  with h(1-4) show ?thesis by blast
qed


lemma stored_row_cases:
  assumes "u \<in> set (store_rows new rows)"
  shows "u \<in> set rows \<and> tg_id u \<notin> tg_id ` set new \<or> u \<in> set new"
proof -
  from assms obtain t where t: "t \<in> set rows"
      "u = (case find (\<lambda>v. tg_id v = tg_id t) new of None \<Rightarrow> t | Some v \<Rightarrow> v)"
    by (auto simp: store_rows_def)
  show ?thesis
  proof (cases "find (\<lambda>v. tg_id v = tg_id t) new")
    case None
    then have "tg_id v \<noteq> tg_id t" if "v \<in> set new" for v using that by (simp add: find_None_iff)
    with None t show ?thesis by (metis (no_types, lifting) imageE option.case(1))
  next
    case (Some v)
    with t(2) show ?thesis by (metis find_Some_iff nth_mem option.case(2))
  qed
qed

lemma stored_row_kept:
  assumes "t \<in> set rows" "tg_id t \<notin> tg_id ` set new"
  shows "t \<in> set (store_rows new rows)"
proof -
  have "find (\<lambda>v. tg_id v = tg_id t) new = None"
    unfolding find_None_iff using assms(2) by (metis image_eqI)
  with assms(1) show ?thesis unfolding store_rows_def by (force intro: image_eqI [of _ _ t])
qed

text \<open>
  Claim C28. An operator's decision settles exactly the fires that are held by its task: each of them was
  held by this very task, none of them is in flight afterwards, every other trigger stays as it is, and
  the task ends completed, failed or killed.
\<close>

theorem operators_settle_only_held_fires:
  assumes "settle_trigger_runtime_reconciliation audit_id now task disposition rows = Inr (st, s)"
  shows "\<exists>prior ids. held_outcomes task = Inr (prior, ids)
    \<and> (\<forall>t \<in> set rows. tg_id t \<notin> set ids \<longrightarrow> t \<in> set (sl_rows s))
    \<and> (\<forall>i \<in> set ids. \<exists>t \<in> set rows. tg_id t = i \<and> trigger_inflight_matches (tg_config t) (sk_id task))
    \<and> (\<forall>t \<in> set (sl_rows s). tg_id t \<in> set ids \<longrightarrow> pending_fires t = 0)
    \<and> st \<in> {''completed'', ''failed'', ''killed''}"
proof -
  obtain outcome s0 d where s0: "settle_held_triggers audit_id now task st outcome rows = Inr s0"
      "sl_receipt s0 = Some d" "sl_rows s = sl_rows s0" "st \<in> {''completed'', ''failed'', ''killed''}"
    using reconciliation_settles_held [OF assms] by blast
  obtain prior ids rs where h: "held_outcomes task = Inr (prior, ids)"
      "outcome \<in> {''success'', ''failure'', ''release''}"
      "set (map tg_id (fire_rows ids (sk_agent task) rows)) = set ids"
      "list_all (\<lambda>t. trigger_inflight_matches (tg_config t) (sk_id task)) (fire_rows ids (sk_agent task) rows)"
      "settle_each now st outcome [] task (fire_rows ids (sk_agent task) rows) = Inr rs"
      "sl_rows s0 = store_rows (map fst rs) rows"
    using held_settled [OF s0(1,2)] by blast
  let ?locked = "fire_rows ids (sk_agent task) rows"
  have all: "list_all2 (\<lambda>t r. settle_one now st outcome [] task t = Inr r) ?locked rs"
    by (rule settle_each_all [OF h(5,4)])
  have each: "list_all2 (\<lambda>t r. pending_fires (fst r) = 0 \<and> tg_id (fst r) = tg_id t) ?locked rs"
    using all
  proof (rule list_all2_mono)
    fix t r assume "settle_one now st outcome [] task t = Inr r"
    then have "settle_one now st outcome [] task t = Inr (fst r, fst (snd r), snd (snd r))" by simp
    from final_settlement_ends [OF this h(2)] show "pending_fires (fst r) = 0 \<and> tg_id (fst r) = tg_id t" .
  qed
  then have "map tg_id (map fst rs) = map tg_id ?locked"
    by (induction rule: list_all2_induct) auto
  then have ids: "tg_id ` set (map fst rs) = set ids"
    using h(3) by (metis list.set_map)
  have ended: "pending_fires t = 0" if "t \<in> set (map fst rs)" for t
  proof -
    from that obtain i where "i < length rs" "t = fst (rs ! i)" by (auto simp: in_set_conv_nth)
    with list_all2_nthD2 [OF each this(1)] show ?thesis by simp
  qed
  have "t \<in> set (sl_rows s)" if "t \<in> set rows" "tg_id t \<notin> set ids" for t
    using stored_row_kept [OF that(1)] that(2) ids s0(3) h(6) by simp
  moreover have "\<exists>t \<in> set rows. tg_id t = i \<and> trigger_inflight_matches (tg_config t) (sk_id task)" if i: "i \<in> set ids" for i
  proof -
    from i h(3) obtain t where "t \<in> set ?locked" "tg_id t = i" by (metis (no_types, lifting) imageE list.set_map)
    with h(4) show ?thesis by (metis fire_rows_in list_all_iff)
  qed
  moreover have "pending_fires t = 0" if "t \<in> set (sl_rows s)" "tg_id t \<in> set ids" for t
    using stored_row_cases [of t "map fst rs" rows] that ids s0(3) h(6) ended by auto
  ultimately show ?thesis using h(1) s0(4) by blast
qed

section \<open>A poll writes what it read\<close>

lemma plain_row_fields: "tg_id (plain_row t) = tg_id t" "tg_config (plain_row t) = tg_config t"
  by (simp_all add: trigger_row.defs)

lemma poll_stores:
  assumes "evaluate_trigger w t = Inr ev" "ev_stored ev = Some d"
  shows "(\<exists>v. d = AList.update ''_last_value'' v (tg_config t))
    \<or> (\<exists>v e. d = AList.update ''_last_value'' v (AList.update ''_last_event'' e (tg_config t)))"
proof -
  have "ev = poll_check w t"
    using assms by (auto simp: evaluate_trigger_def verdict_only_def split: if_splits prod.splits)
  with assms(2) show ?thesis
    by (auto simp: poll_check_def verdict_only_def Let_def split: if_splits option.splits)
qed

text \<open>
  Claim C31. The config a poll stores carries the authority it read, not the authority of the row it
  writes to: whatever revoked the trigger in between, after the write a fire is blocked exactly when the
  snapshot of the tick would have blocked it, and authority state and in-flight fire are those of the
  snapshot.
\<close>

theorem polls_write_back_stale_authority:
  assumes "evaluate_trigger w t = Inr ev" "ev_stored ev = Some d" "tg_id u = tg_id t"
  shows "trigger_fire_authority_block_reason (plain_row (u\<lparr>tg_config := d\<rparr>)) metadata
      = trigger_fire_authority_block_reason (plain_row t) metadata
    \<and> stated_authority d = stated_authority (tg_config t)
    \<and> dget d ''_fire_inflight'' = dget (tg_config t) ''_fire_inflight''"
proof -
  have other: "dget d k = dget (tg_config t) k \<and> has_key d k = has_key (tg_config t) k"
    if "k \<notin> {''_last_value'', ''_last_event''}" for k
    using poll_stores [OF assms(1,2)] that by auto
  have gen: "trigger_authority_generation d = trigger_authority_generation (tg_config t)"
    using other [of "''_authority_generation''"] by (simp add: trigger_authority_generation_def get_or_def)
  have new: "tg_config (u\<lparr>tg_config := d\<rparr>) = d" "tg_id (u\<lparr>tg_config := d\<rparr>) = tg_id t"
    using assms(3) by simp_all
  have "trigger_fire_authority_block_reason (plain_row (u\<lparr>tg_config := d\<rparr>)) metadata
      = trigger_fire_authority_block_reason (plain_row t) metadata"
    unfolding trigger_fire_authority_block_reason_def plain_row_fields new gen by (rule refl)
  with other [of "''authority_state''"] other [of "''_fire_inflight''"] show ?thesis
    by (simp add: stated_authority_def)
qed


section \<open>Witnesses\<close>

definition running_hook :: fire_row where
  "running_hook = hook_row\<lparr>tg_config := (''_fire_inflight'', PDict [(''runtime_task_id'', PStr (uuid_str 9))])
     # tg_config hook_row\<rparr>"

definition hook_task :: settle_task where
  "hook_task = \<lparr>sk_id = 9, sk_agent = Some 2, sk_meta = [(''trigger_ids'', PList [PStr (uuid_str 8)])], sk_summary = None\<rparr>"

lemma hook_facts:
  "settled_before hook_task = None" "prior_settlement hook_task = None" "task_trigger_ids (sk_meta hook_task) = Inr [8]"
  "fire_rows [8] (Some 2) [running_hook] = [running_hook]" "sk_agent hook_task = Some 2"
  "trigger_inflight_matches (tg_config running_hook) (sk_id hook_task)"
  "settlement_overrides (sk_meta hook_task) = []" "tg_fires running_hook = 0"
  by code_simp+

lemma hook_success:
  "settle_each 7 ''completed'' ''success'' [] hook_task [running_hook] = Inr [(count_fire 7 running_hook, ''success'', None)]"
  using hook_facts(6) by (simp add: settle_one_def no_overrides SETTLEMENT_OUTCOMES_def)

lemma hook_settled:
  "\<exists>s receipt. settle_trigger_runtime_task (\<lambda>u. u) 7 hook_task ''completed'' [running_hook] = Inr s
     \<and> sl_receipt s = Some receipt \<and> map tg_fires (sl_rows s) = [1]"
proof -
  have "dget (sk_meta hook_task) ''trigger_names'' = PNone" "dget (sk_meta hook_task) ''trigger_types'' = PNone"
    by (simp_all add: hook_task_def dget_def)
  then have "\<exists>x. audit_details hook_task ''completed'' r = Inr x" for r
    by (simp add: audit_details_def value_items_def py_or_def)
  then have "\<exists>receipt audit. finish_receipt (\<lambda>u. u) hook_task ''completed'' r True = Inr (receipt, audit)" for r
    by (simp add: finish_receipt_def hook_facts(2))
  then obtain receipt audit where f: "finish_receipt (\<lambda>u. u) hook_task ''completed''
      (settlement_receipt hook_task ''completed'' ''success'' [] [] [(count_fire 7 running_hook, ''success'', None)]) True
      = Inr (receipt, audit)" by blast
  have "tg_id (count_fire 7 running_hook) = tg_id running_hook"
    using definition_kept(3) [of running_hook 7] by (simp add: same_definition_def)
  with f hook_success show ?thesis
    by (simp add: settle_trigger_runtime_task_def settle_rows_def task_outcome_def hook_facts store_rows_def counted)
qed

theorem settlement_happens_once_witness:
  "\<exists>s receipt. settle_trigger_runtime_task (\<lambda>u. u) 7 hook_task ''completed'' [running_hook] = Inr s
     \<and> settle_trigger_runtime_task (\<lambda>u. u) 8 (store_settlement (sl_receipt s) hook_task) ''failed'' (sl_rows s)
       = Inr (nothing_settled (sl_rows s) (Some receipt))"
  using hook_settled settlement_happens_once by blast

theorem fires_stay_within_the_maximum_witness:
  "\<exists>s :: settlement. fire_run (\<lambda>i. 0) [running_hook] (sl_rows s) \<and> map tg_fires (sl_rows s) = [1]
     \<and> list_all (\<lambda>t. fires_bounded (tg_fires t) t) (sl_rows s)"
proof -
  from hook_settled obtain s receipt where
    s: "settle_trigger_runtime_task (\<lambda>u. u) 7 hook_task ''completed'' [running_hook] = Inr s
      \<and> sl_receipt s = Some receipt \<and> map tg_fires (sl_rows s) = [1]" by (elim exE)
  from fire_run.step [OF fire_run.start fire_step.settled [OF s [THEN conjunct1]]]
  have run: "fire_run (\<lambda>i. 0) [running_hook] (sl_rows s)" by simp
  have "one_row_each [running_hook]" "list_all (fires_planned (\<lambda>i. 0)) [running_hook]" by code_simp+
  from fires_stay_within_the_maximum [OF run this]
  show ?thesis using run s by (intro exI [of _ s] conjI) simp_all
qed

lemma hook_fails: "\<exists>t' f. settle_one 7 ''failed'' ''failure'' [] hook_task running_hook = Inr (t', ''failure'', f)"
proof -
  have "py_int (py_or (dget (tg_config running_hook) ''failure_count'') (PInt 0)) = Inr 0" by code_simp
  then show ?thesis
    by (simp add: settle_one_def no_overrides SETTLEMENT_OUTCOMES_def apply_trigger_failure_policy_def Let_def)
qed

theorem failures_back_off_witness:
  "\<exists>t' f n. settle_one 7 ''failed'' ''failure'' [] hook_task running_hook = Inr (t', ''failure'', f)
     \<and> dget (tg_config t') ''failure_count'' = PInt (n + 1)
     \<and> dget (tg_config t') ''backoff_until'' = PStr (isoformat (7 + 1000000 * min (60 * 2 ^ nat n) 3600))"
  using hook_fails failures_back_off by blast

definition held_task :: settle_task where
  "held_task = hook_task\<lparr>sk_meta := [(''trigger_settlement'', PDict [(''runtime_task_id'', PStr (uuid_str 9)),
     (''trigger_outcomes'', PDict [(uuid_str 8, PStr ''hold'')])])]\<rparr>"

lemma held_facts:
  "prior_settlement held_task = Some [(''runtime_task_id'', PStr (uuid_str 9)),
     (''trigger_outcomes'', PDict [(uuid_str 8, PStr ''hold'')])]"
  "sk_id held_task = 9" "sk_agent held_task = Some 2"
  by (simp_all add: prior_settlement_def held_task_def hook_task_def dget_def)

lemma held_task_outcomes: "held_outcomes held_task = Inr ([(uuid_str 8, ''hold'')], [8])"
  by (simp add: held_outcomes_def held_facts settles_task_def dget_def py_or_def uuid_text_some SETTLEMENT_OUTCOMES_def
      List.map_filter_simps Let_def)

lemma held_release:
  "settle_each 7 ''killed'' ''release'' [] held_task [running_hook] = Inr [(end_fire running_hook, ''release'', None)]"
  using hook_facts(6) by (simp add: settle_one_def no_overrides SETTLEMENT_OUTCOMES_def held_task_def)

lemma strip_release: "py_strip ''release'' = ''release''"
  by code_simp

theorem operators_settle_only_held_fires_witness:
  "\<exists>s. settle_trigger_runtime_reconciliation (\<lambda>u. u) 7 held_task ''release'' [running_hook] = Inr (''killed'', s)
     \<and> (\<exists>prior ids. held_outcomes held_task = Inr (prior, ids))"
proof -
  let ?r = "settlement_receipt held_task ''killed'' ''release'' [(uuid_str 8, ''hold'')] []
    [(end_fire running_hook, ''release'', None)]"
  have same: "tg_id (end_fire running_hook) = 8" by code_simp
  have out: "dget ?r ''trigger_outcomes'' = PDict [(uuid_str 8, PStr ''release'')]"
    by (simp add: settlement_receipt_def Let_def dget_def same)
  have "finish_receipt (\<lambda>u. u) held_task ''killed'' ?r False = Inr (?r, None)"
    by (simp add: finish_receipt_def held_facts dget_def py_or_def)
  moreover have "earlier_failures held_task = Inr []"
    by (simp add: earlier_failures_def held_facts has_key_def value_items_def List.map_filter_simps)
  ultimately obtain s0 where s0: "settle_held_triggers (\<lambda>u. u) 7 held_task ''killed'' ''release'' [running_hook] = Inr s0"
      "sl_receipt s0 = Some ?r"
    using held_release hook_facts(4,6)
    by (simp add: settle_held_triggers_def held_task_outcomes held_facts settle_rows_def Let_def hook_task_def
        running_hook_def hook_row_def)
  have "\<exists>s. settle_trigger_runtime_reconciliation (\<lambda>u. u) 7 held_task ''release'' [running_hook] = Inr (''killed'', s)"
    using s0 out
    by (simp add: settle_trigger_runtime_reconciliation_def DISPOSITION_OUTCOMES_def prior_trigger_outcomes_def held_facts
        final_outcomes_def reconciled_status_def dget_def py_or_def Let_def strip_release)
  then obtain s where s: "settle_trigger_runtime_reconciliation (\<lambda>u. u) 7 held_task ''release'' [running_hook] = Inr (''killed'', s)"
    by blast
  with operators_settle_only_held_fires [OF s] show ?thesis by blast
qed

definition poll_row :: fire_row where
  "poll_row = hook_row\<lparr>tg_type := ''poll'', tg_config := [(''created_by'', PStr (uuid_str 3)), (''url'', PStr ''u''),
     (''json_path'', PStr ''$.v'')], fr_created := - 400000000\<rparr>"

lemma poll_row_stores:
  "case evaluate_trigger desk_fire_world poll_row of Inl _ \<Rightarrow> False
   | Inr ev \<Rightarrow> ev_stored ev = Some [(''created_by'', PStr (uuid_str 3)), (''url'', PStr ''u''), (''json_path'', PStr ''$.v''),
       (''_last_value'', PStr ''4'')]"
  by code_simp

definition revoked_poll :: fire_row where
  "revoked_poll = poll_row\<lparr>tg_enabled := False, tg_config := [(''_authority_generation'', PInt 1),
     (''authority_state'', PStr ''quarantined'')]\<rparr>"

theorem polls_write_back_stale_authority_witness:
  "\<exists>ev d. evaluate_trigger desk_fire_world poll_row = Inr ev \<and> ev_stored ev = Some d
     \<and> trigger_fire_authority_block_reason (plain_row revoked_poll) [] = Some ''trigger_authority_revoked''
     \<and> trigger_fire_authority_block_reason (plain_row (revoked_poll\<lparr>tg_config := d\<rparr>)) [] = None"
proof -
  obtain ev d where ev: "evaluate_trigger desk_fire_world poll_row = Inr ev" "ev_stored ev = Some d"
    using poll_row_stores by (auto split: sum.splits)
  have "tg_id revoked_poll = tg_id poll_row" by (simp add: revoked_poll_def)
  note same = polls_write_back_stale_authority [OF ev this, of "[]"]
  have "trigger_fire_authority_block_reason (plain_row poll_row) [] = None" by code_simp
  moreover have "trigger_fire_authority_block_reason (plain_row revoked_poll) [] = Some ''trigger_authority_revoked''"
    by code_simp
  ultimately show ?thesis using ev same by metis
qed

end
