(* ===== verification/Task_Claims.thy ===== *)
theory Task_Claims
  imports Hive_Prelude Py_Std
begin

text \<open>
  How workers take runtime tasks from the shared queue and how a worker that lost its task is kept
  from writing: \<open>backend/app/services/runtime_task_claim_service.py\<close> and the fence of
  \<open>backend/app/services/runtime_task_fence.py\<close>. A claim reads its candidates from one state of the
  database and takes them from a later one; rows that other transactions hold locked are skipped.
  Times are microseconds since the epoch.
\<close>

section \<open>The queue\<close>

record queued_task =
  qt_id :: uuid
  qt_type :: string
  qt_tenant :: "uuid option"
  qt_agent :: "uuid option"
  qt_status :: string
  qt_summary :: "string option"
  qt_created :: int
  qt_scheduled :: "int option"
  qt_started :: "int option"
  qt_completed :: "int option"
  qt_priority :: int
  qt_worker :: "string option"
  qt_expires :: "int option"
  qt_attempts :: int
  qt_version :: int
  qt_budget :: "uuid option"
  qt_meta :: "(string \<times> pyval) list option"

record business_row =
  bt_id :: uuid
  bt_tenant :: uuid
  bt_agent :: uuid
  bt_active :: "uuid option"
  bt_status :: string
  bt_last :: "string option"
  bt_completed :: "int option"

text \<open>
  The tables a claim reads: the tasks in the order the database returns ties, the statuses of the
  budget runs, the tenants with their \<open>is_active\<close> flag, and the business tasks.
\<close>

record task_db =
  td_tasks :: "queued_task list"
  td_runs :: "(uuid \<times> string) list"
  td_tenants :: "(uuid \<times> bool) list"
  td_business :: "business_row list"

section \<open>What may be claimed\<close>

definition CLAIMABLE_RUNTIME_TASK_STATUSES :: "string list" where
  "CLAIMABLE_RUNTIME_TASK_STATUSES = [''pending'', ''resumable'']"

definition LEASE_RECLAIMABLE_RUNTIME_TASK_TYPES :: "string list" where
  "LEASE_RECLAIMABLE_RUNTIME_TASK_TYPES =
     [''remote_a2a'', ''readiness_probe'', ''web_chat_turn'', ''goal_continuation'', ''team_member'',
      ''advanced_plan'', ''a2a_continuation'', ''approval_execution'', ''hr_provisioning'', ''dream'',
      ''delegation'', ''trigger'']"

definition EXECUTABLE_CHAT_TASK_TYPES :: "string list" where
  "EXECUTABLE_CHAT_TASK_TYPES =
     [''web_chat_turn'', ''goal_continuation'', ''team_member'', ''advanced_plan'', ''a2a_continuation'']"

text \<open>
  The JSON paths of the query: a path through a value of another kind is NULL, and NULL equals
  nothing. \<open>automatic_observation\<close> is a JSON boolean where it is stored.
\<close>

fun json_at :: "pyval \<Rightarrow> string \<Rightarrow> pyval" where
  "json_at (PDict d) k = dget d k"
| "json_at _ k = PNone"

fun json_final :: "pyval \<Rightarrow> pyval" where
  "json_final (PList vs) = (if vs = [] then PNone else last vs)"
| "json_final _ = PNone"

definition meta_value :: "queued_task \<Rightarrow> pyval" where
  "meta_value t = (case qt_meta t of None \<Rightarrow> PNone | Some m \<Rightarrow> PDict m)"

definition remote_recovery_control :: "queued_task \<Rightarrow> bool" where
  "remote_recovery_control t =
     (let remote = json_at (meta_value t) ''remote_a2a'';
          operation = json_final (json_at remote ''operations'') in
      eq_str (json_at (meta_value t) ''schema'') ''hive.remote_a2a_task.v1''
      \<and> (qt_type t = ''remote_a2a''
         \<or> qt_type t \<in> set EXECUTABLE_CHAT_TASK_TYPES \<and> eq_str (json_at remote ''dispatch_kind'') ''session'')
      \<and> (eq_str (json_at operation ''method'') ''CancelTask''
         \<or> eq_str (json_at operation ''method'') ''GetTask''
           \<and> json_at operation ''automatic_observation'' \<noteq> PBool True))"

definition not_after :: "int option \<Rightarrow> int \<Rightarrow> bool" where
  "not_after t now = (case t of None \<Rightarrow> True | Some e \<Rightarrow> e \<le> now)"

definition claim_due :: "int \<Rightarrow> queued_task \<Rightarrow> bool" where
  "claim_due now t =
     ((qt_status t \<in> set CLAIMABLE_RUNTIME_TASK_STATUSES
       \<or> qt_status t = ''running'' \<and> qt_type t \<in> set LEASE_RECLAIMABLE_RUNTIME_TASK_TYPES
         \<and> not_after (qt_expires t) now)
      \<and> not_after (qt_scheduled t) now)"

definition tenant_live :: "task_db \<Rightarrow> queued_task \<Rightarrow> bool" where
  "tenant_live db t = (case qt_tenant t of None \<Rightarrow> False | Some n \<Rightarrow> (n, True) \<in> set (td_tenants db))"

definition budget_admits :: "task_db \<Rightarrow> queued_task \<Rightarrow> bool" where
  "budget_admits db t = (case qt_budget t of None \<Rightarrow> True
     | Some b \<Rightarrow> remote_recovery_control t \<or> (b, ''active'') \<in> set (td_runs db))"

definition runtime_task_claim_conditions :: "task_db \<Rightarrow> int \<Rightarrow> queued_task \<Rightarrow> bool" where
  "runtime_task_claim_conditions db now t = (claim_due now t \<and> tenant_live db t \<and> budget_admits db t)"

definition wanted_type :: "string list \<Rightarrow> queued_task \<Rightarrow> bool" where
  "wanted_type types t = (types = [] \<or> qt_type t \<in> set types)"

text \<open>\<open>ORDER BY priority DESC, created_at ASC\<close>: two stable sorts.\<close>

definition claim_order :: "queued_task list \<Rightarrow> queued_task list" where
  "claim_order ts = sort_key (\<lambda>t. - qt_priority t) (sort_key qt_created ts)"

definition runtime_task_claim_candidates ::
  "task_db \<Rightarrow> string list \<Rightarrow> int \<Rightarrow> nat \<Rightarrow> (uuid \<times> uuid option) list" where
  "runtime_task_claim_candidates db types now batch =
     map (\<lambda>t. (qt_id t, if remote_recovery_control t then None else qt_budget t))
       (take batch (claim_order (filter (\<lambda>t. runtime_task_claim_conditions db now t \<and> wanted_type types t)
          (td_tasks db))))"

text \<open>\<open>FOR UPDATE SKIP LOCKED\<close>: the limit counts the rows that could be locked.\<close>

definition runtime_task_claim_rows ::
  "task_db \<Rightarrow> string list \<Rightarrow> int \<Rightarrow> nat \<Rightarrow> uuid list \<Rightarrow> uuid list \<Rightarrow> queued_task list" where
  "runtime_task_claim_rows db types now batch ids locked =
     take batch (claim_order (filter (\<lambda>t. runtime_task_claim_conditions db now t \<and> wanted_type types t
        \<and> qt_id t \<in> set ids \<and> qt_id t \<notin> set locked) (td_tasks db)))"

section \<open>Claiming one row\<close>

definition put_entries :: "(string \<times> pyval) list \<Rightarrow> (string \<times> pyval) list \<Rightarrow> (string \<times> pyval) list" where
  "put_entries kvs d = fold (\<lambda>kv. AList.update (fst kv) (snd kv)) kvs d"

definition meta_entries :: "queued_task \<Rightarrow> (string \<times> pyval) list" where
  "meta_entries t = (case qt_meta t of None \<Rightarrow> [] | Some m \<Rightarrow> m)"

definition quarantine_business_task_claim :: "int \<Rightarrow> string \<Rightarrow> queued_task \<Rightarrow> queued_task" where
  "quarantine_business_task_claim now reason t =
     t\<lparr>qt_status := ''needs_reconciliation'', qt_summary := Some reason, qt_completed := Some now,
       qt_meta := Some (put_entries
         [(''phase'', PStr ''terminal''), (''terminal_at'', PStr (isoformat now)),
          (''outcome'', PDict [(''status'', PStr ''needs_reconciliation''), (''summary'', PStr reason)])]
         (meta_entries t))\<rparr>"

definition NO_BUSINESS_ID :: string where
  "NO_BUSINESS_ID = ''business task projection link has no valid business_task_id''"

definition NO_BUSINESS_LINK :: string where
  "NO_BUSINESS_LINK = ''business task projection link is missing or no longer active''"

definition started_business :: "business_row \<Rightarrow> business_row" where
  "started_business r = r\<lparr>bt_status := ''doing'', bt_last := Some ''running'', bt_completed := None\<rparr>"

text \<open>The business rows after the binding, and why the claim is quarantined if it is.\<close>

definition bind_business_task_claim ::
  "queued_task \<Rightarrow> business_row list \<Rightarrow> (string, business_row list \<times> string option) res" where
  "bind_business_task_claim t rows =
     (case map_of (meta_entries t) ''business_task_id'' of
        None \<Rightarrow> Inr (rows, Some NO_BUSINESS_ID)
      | Some v \<Rightarrow> (case uuid_of_text (py_str v) of
          None \<Rightarrow> Inr (rows, Some NO_BUSINESS_ID)
        | Some b \<Rightarrow> (case (qt_tenant t, qt_agent t) of
            (Some tenant, Some agent) \<Rightarrow>
              (case find (\<lambda>r. bt_id r = b \<and> bt_tenant r = tenant \<and> bt_agent r = agent) rows of
                 None \<Rightarrow> Inr (rows, Some NO_BUSINESS_LINK)
               | Some r \<Rightarrow>
                   if bt_active r \<noteq> Some (qt_id t) then Inr (rows, Some NO_BUSINESS_LINK)
                   else Inr (map (\<lambda>x. if bt_id x = b then started_business x else x) rows, None))
          | _ \<Rightarrow> Inl ''RuntimeError'')))"

definition previous_claim :: "queued_task \<Rightarrow> pyval" where
  "previous_claim t = PDict
     [(''worker_id'', PStr (case qt_worker t of None \<Rightarrow> [] | Some w \<Rightarrow> w)),
      (''claim_version'', PInt (qt_version t)),
      (''claim_expires_at'', case qt_expires t of None \<Rightarrow> PNone | Some e \<Rightarrow> PStr (isoformat e))]"

definition RECLAIM_ENTRIES :: "string list" where
  "RECLAIM_ENTRIES = [''reclaimed_expired_claim'', ''reclaimed_at'', ''previous_claim'',
     ''legacy_claim_backfilled'', ''recovery_state'']"

definition reclaim_entries :: "int \<Rightarrow> queued_task \<Rightarrow> (string, (string \<times> pyval) list) res" where
  "reclaim_entries now t =
     (if qt_status t = ''running''
      then bind_res (py_int (py_or (dget (meta_entries t) ''lease_reclaim_count'') (PInt 0))) (\<lambda>n.
        Inr (put_entries
          ([(''reclaimed_expired_claim'', PBool True), (''lease_reclaim_count'', PInt (n + 1)),
            (''reclaimed_at'', PStr (isoformat now)), (''recovery_state'', PStr ''recovering''),
            (''previous_claim'', previous_claim t)]
           @ (if qt_version t = 0 then [(''legacy_claim_backfilled'', PBool True)] else []))
          (meta_entries t)))
      else Inr (fold AList.delete RECLAIM_ENTRIES (meta_entries t)))"

definition claim_fence :: "uuid \<Rightarrow> int \<Rightarrow> string" where
  "claim_fence task version = hex_digits 32 (unat task) @ '':'' @ str_of_int version"

definition claim_entries :: "int \<Rightarrow> string \<Rightarrow> int \<Rightarrow> queued_task \<Rightarrow> (string \<times> pyval) list" where
  "claim_entries now worker expires t =
     [(''claimed_by'', PStr worker), (''claimed_at'', PStr (isoformat now)),
      (''claim_expires_at'', PStr (isoformat expires)), (''claim_version'', PInt (qt_version t + 1)),
      (''claim_fence'', PStr (claim_fence (qt_id t) (qt_version t + 1)))]"

definition claimed_row :: "int \<Rightarrow> string \<Rightarrow> int \<Rightarrow> queued_task \<Rightarrow> (string, queued_task) res" where
  "claimed_row now worker lease t =
     bind_res (reclaim_entries now t) (\<lambda>m.
       Inr (t\<lparr>qt_status := ''running'',
              qt_started := (case qt_started t of None \<Rightarrow> Some now | Some s \<Rightarrow> Some s),
              qt_worker := Some worker, qt_expires := Some (now + lease),
              qt_attempts := qt_attempts t + 1, qt_version := qt_version t + 1,
              qt_meta := Some (put_entries (claim_entries now worker (now + lease) t) m)\<rparr>))"

section \<open>The claim transaction\<close>

datatype claimed = Taken queued_task | Quarantined queued_task

fun outcome_row :: "claimed \<Rightarrow> queued_task" where
  "outcome_row (Taken t) = t"
| "outcome_row (Quarantined t) = t"

fun is_taken :: "claimed \<Rightarrow> bool" where
  "is_taken (Taken t) = True"
| "is_taken (Quarantined t) = False"

definition claim_one :: "int \<Rightarrow> string \<Rightarrow> int \<Rightarrow> business_row list \<Rightarrow> queued_task
    \<Rightarrow> (string, business_row list \<times> claimed) res" where
  "claim_one now worker lease rows t =
     bind_res (if qt_type t = ''business_task'' then bind_business_task_claim t rows else Inr (rows, None))
       (\<lambda>(rows', reason). case reason of
          Some r \<Rightarrow> Inr (rows', Quarantined (quarantine_business_task_claim now r t))
        | None \<Rightarrow> bind_res (claimed_row now worker lease t) (\<lambda>t'. Inr (rows', Taken t')))"

fun claim_each :: "int \<Rightarrow> string \<Rightarrow> int \<Rightarrow> business_row list \<Rightarrow> queued_task list
    \<Rightarrow> (string, business_row list \<times> claimed list) res" where
  "claim_each now worker lease rows [] = Inr (rows, [])"
| "claim_each now worker lease rows (t # ts) =
     bind_res (claim_one now worker lease rows t) (\<lambda>(rows', c).
       bind_res (claim_each now worker lease rows' ts) (\<lambda>(rows'', cs). Inr (rows'', c # cs)))"

text \<open>The columns are 32-bit integers and a text of 200 characters: a flush past them fails.\<close>

definition storable :: "queued_task \<Rightarrow> bool" where
  "storable t = (qt_version t < 2 ^ 31 \<and> qt_attempts t < 2 ^ 31
     \<and> (case qt_worker t of None \<Rightarrow> True | Some w \<Rightarrow> length w \<le> 200))"

definition store_task :: "queued_task \<Rightarrow> queued_task list \<Rightarrow> queued_task list" where
  "store_task t ts = map (\<lambda>x. if qt_id x = qt_id t then t else x) ts"

definition eligible_candidates :: "task_db \<Rightarrow> (uuid \<times> uuid option) list \<Rightarrow> uuid list" where
  "eligible_candidates db cands = map fst (filter
     (\<lambda>(task, run). case run of None \<Rightarrow> True | Some b \<Rightarrow> (b, ''active'') \<in> set (td_runs db)) cands)"

record claim_result =
  cr_db :: task_db
  cr_claimed :: "queued_task list"
  cr_quarantined :: "uuid list"

definition nothing_claimed :: "task_db \<Rightarrow> claim_result" where
  "nothing_claimed db = \<lparr>cr_db = db, cr_claimed = [], cr_quarantined = []\<rparr>"

definition stored_claims :: "task_db \<Rightarrow> business_row list \<Rightarrow> claimed list \<Rightarrow> task_db" where
  "stored_claims db rows cs =
     db\<lparr>td_tasks := fold store_task (map outcome_row cs) (td_tasks db), td_business := rows\<rparr>"

record claim_service =
  cs_worker :: string
  cs_types :: "string list"
  cs_lease :: int
  cs_batch :: nat

definition claim_available ::
  "claim_service \<Rightarrow> int \<Rightarrow> task_db \<Rightarrow> uuid list \<Rightarrow> task_db \<Rightarrow> (string, claim_result) res" where
  "claim_available svc now seen locked db =
     (let ids = eligible_candidates db (runtime_task_claim_candidates seen (cs_types svc) now (cs_batch svc));
          tasks = runtime_task_claim_rows db (cs_types svc) now (cs_batch svc) ids locked in
      if ids = [] \<or> tasks = [] then Inr (nothing_claimed db)
      else bind_res (claim_each now (cs_worker svc) (cs_lease svc) (td_business db) tasks) (\<lambda>(rows, cs).
        if \<not> list_all (\<lambda>c. storable (outcome_row c)) cs then Inl ''DBAPIError''
        else Inr \<lparr>cr_db = stored_claims db rows cs,
                  cr_claimed = map outcome_row (filter is_taken cs),
                  cr_quarantined = map (\<lambda>c. qt_id (outcome_row c)) (filter (\<lambda>c. \<not> is_taken c) cs)\<rparr>))"

section \<open>The fence\<close>

record runtime_task_fence =
  rf_task :: uuid
  rf_version :: int
  rf_worker :: string

definition set_runtime_task_fence :: "uuid \<Rightarrow> int \<Rightarrow> string \<Rightarrow> runtime_task_fence" where
  "set_runtime_task_fence task version worker =
     \<lparr>rf_task = task, rf_version = max 0 version, rf_worker = (if worker = [] then ''unknown'' else worker)\<rparr>"

definition assert_runtime_task_fence ::
  "runtime_task_fence option \<Rightarrow> int \<Rightarrow> queued_task \<Rightarrow> (string, unit) res" where
  "assert_runtime_task_fence fence now t =
     (case fence of None \<Rightarrow> Inr ()
      | Some f \<Rightarrow>
          if qt_id t \<noteq> rf_task f then Inr ()
          else if qt_version t \<noteq> rf_version f then Inl ''StaleRuntimeTaskFenceError''
          else
            let worker = (case qt_worker t of None \<Rightarrow> [] | Some w \<Rightarrow> w);
                active = (case qt_expires t of None \<Rightarrow> False | Some e \<Rightarrow> now < e) in
            if worker \<noteq> rf_worker f \<or> qt_status t \<noteq> ''running'' \<or> \<not> active
            then Inl ''StaleRuntimeTaskFenceError'' else Inr ())"

definition find_task :: "uuid \<Rightarrow> queued_task list \<Rightarrow> queued_task option" where
  "find_task k ts = find (\<lambda>t. qt_id t = k) ts"

definition renewal_matches :: "runtime_task_fence \<Rightarrow> int \<Rightarrow> queued_task \<Rightarrow> bool" where
  "renewal_matches f now t = (qt_id t = rf_task f \<and> qt_version t = rf_version f
     \<and> qt_worker t = Some (rf_worker f) \<and> qt_status t = ''running''
     \<and> (case qt_expires t of None \<Rightarrow> False | Some e \<Rightarrow> now < e))"

text \<open>The lease is at least 30 milliseconds; the update must hit exactly one row of the tenant.\<close>

definition renew_current_runtime_task_lease ::
  "runtime_task_fence option \<Rightarrow> int \<Rightarrow> int \<Rightarrow> task_db \<Rightarrow> (string, task_db \<times> int option) res" where
  "renew_current_runtime_task_lease fence lease now db =
     (case fence of None \<Rightarrow> Inr (db, None)
      | Some f \<Rightarrow>
          let expires = now + max 30000 lease in
          (case find_task (rf_task f) (td_tasks db) of
             None \<Rightarrow> Inl ''StaleRuntimeTaskFenceError''
           | Some t \<Rightarrow>
               if qt_tenant t = None \<or> length (filter (renewal_matches f now) (td_tasks db)) \<noteq> 1
               then Inl ''StaleRuntimeTaskFenceError''
               else Inr (db\<lparr>td_tasks := map (\<lambda>x. if renewal_matches f now x then x\<lparr>qt_expires := Some expires\<rparr> else x)
                        (td_tasks db)\<rparr>, Some expires)))"

text \<open>\<open>finish_current_runtime_task_claim\<close>: whether the renewer of this worker is told to stop.\<close>

definition finish_current_runtime_task_claim :: "runtime_task_fence option \<Rightarrow> uuid option \<Rightarrow> bool" where
  "finish_current_runtime_task_claim fence task = (case fence of None \<Rightarrow> False
     | Some f \<Rightarrow> (case task of None \<Rightarrow> True | Some k \<Rightarrow> k = rf_task f))"


section \<open>What a claim does to the rows\<close>

definition untouched_parts :: "queued_task \<Rightarrow> queued_task \<Rightarrow> bool" where
  "untouched_parts t t' = (qt_id t' = qt_id t \<and> qt_type t' = qt_type t \<and> qt_tenant t' = qt_tenant t
     \<and> qt_agent t' = qt_agent t \<and> qt_created t' = qt_created t \<and> qt_priority t' = qt_priority t
     \<and> qt_budget t' = qt_budget t)"

definition claim_change :: "int \<Rightarrow> string \<Rightarrow> int \<Rightarrow> queued_task \<Rightarrow> claimed \<Rightarrow> bool" where
  "claim_change now worker lease t c = (untouched_parts t (outcome_row c)
     \<and> (if is_taken c
        then qt_status (outcome_row c) = ''running'' \<and> qt_worker (outcome_row c) = Some worker
          \<and> qt_expires (outcome_row c) = Some (now + lease)
          \<and> qt_version (outcome_row c) = qt_version t + 1 \<and> qt_attempts (outcome_row c) = qt_attempts t + 1
        else qt_status (outcome_row c) = ''needs_reconciliation'' \<and> qt_version (outcome_row c) = qt_version t
          \<and> qt_type t = ''business_task''))"

lemma claimed_row_change:
  "claimed_row now worker lease t = Inr t' \<Longrightarrow> claim_change now worker lease t (Taken t')"
  by (auto simp: claimed_row_def bind_res_Inr claim_change_def untouched_parts_def)

lemma claim_one_change:
  assumes "claim_one now worker lease rows t = Inr (rows', c)"
  shows "claim_change now worker lease t c"
proof -
  from assms obtain r reason where
    b: "(if qt_type t = ''business_task'' then bind_business_task_claim t rows else Inr (rows, None)) = Inr (r, reason)"
    and c: "(case reason of Some x \<Rightarrow> Inr (r, Quarantined (quarantine_business_task_claim now x t))
        | None \<Rightarrow> bind_res (claimed_row now worker lease t) (\<lambda>t'. Inr (r, Taken t'))) = Inr (rows', c)"
    by (auto simp: claim_one_def bind_res_Inr)
  show ?thesis
  proof (cases reason)
    case None
    with c show ?thesis by (auto simp: bind_res_Inr dest: claimed_row_change)
  next
    case (Some x)
    with b have "qt_type t = ''business_task''" by (auto split: if_splits)
    with c Some show ?thesis
      by (auto simp: claim_change_def untouched_parts_def quarantine_business_task_claim_def)
  qed
qed

lemma claim_each_change:
  "claim_each now worker lease rows ts = Inr (rows', cs) \<Longrightarrow> list_all2 (claim_change now worker lease) ts cs"
proof (induction ts arbitrary: rows cs)
  case (Cons t ts)
  then show ?case by (auto simp: bind_res_Inr dest: claim_one_change)
qed simp

lemma claim_each_ids:
  assumes "claim_each now worker lease rows ts = Inr (rows', cs)"
  shows "map (\<lambda>c. qt_id (outcome_row c)) cs = map qt_id ts"
  using claim_each_change [OF assms]
  by (induction rule: list_all2_induct) (auto simp: claim_change_def untouched_parts_def)

lemma find_task_None: "find_task k ts = None \<longleftrightarrow> k \<notin> qt_id ` set ts"
  by (induction ts) (auto simp: find_task_def)

lemma store_tasks_map:
  "distinct (map qt_id ts) \<Longrightarrow>
   fold store_task ts xs = map (\<lambda>x. case find_task (qt_id x) ts of None \<Rightarrow> x | Some t \<Rightarrow> t) xs"
proof (induction ts arbitrary: xs)
  case Nil
  then show ?case by (simp add: find_task_def)
next
  case (Cons t ts)
  then have t: "find_task (qt_id t) ts = None" by (simp add: find_task_None)
  from Cons have "fold store_task (t # ts) xs
      = map (\<lambda>x. case find_task (qt_id x) ts of None \<Rightarrow> x | Some t \<Rightarrow> t) (store_task t xs)" by simp
  also have "\<dots> = map (\<lambda>x. case find_task (qt_id x) (t # ts) of None \<Rightarrow> x | Some t \<Rightarrow> t) xs"
    using t by (simp add: store_task_def find_task_def)
  finally show ?case .
qed


text \<open>The rows a successful claim took, with what became of each.\<close>

definition claim_targets :: "claim_service \<Rightarrow> int \<Rightarrow> task_db \<Rightarrow> uuid list \<Rightarrow> task_db \<Rightarrow> queued_task list" where
  "claim_targets svc now seen locked db =
     runtime_task_claim_rows db (cs_types svc) now (cs_batch svc)
       (eligible_candidates db (runtime_task_claim_candidates seen (cs_types svc) now (cs_batch svc))) locked"

lemma claim_order_set [simp]: "set (claim_order ts) = set ts"
  by (simp add: claim_order_def)

lemma claim_order_ids: "distinct (map qt_id (claim_order ts)) = distinct (map qt_id ts)"
  by (simp add: claim_order_def distinct_map)

lemma claim_target_in:
  assumes "t \<in> set (claim_targets svc now seen locked db)"
  shows "t \<in> set (td_tasks db)" "runtime_task_claim_conditions db now t" "wanted_type (cs_types svc) t"
    "qt_id t \<notin> set locked"
    "qt_id t \<in> set (eligible_candidates db (runtime_task_claim_candidates seen (cs_types svc) now (cs_batch svc)))"
  using assms by (auto simp: claim_targets_def runtime_task_claim_rows_def dest!: in_set_takeD)

lemma claim_targets_length: "length (claim_targets svc now seen locked db) \<le> cs_batch svc"
  by (simp add: claim_targets_def runtime_task_claim_rows_def)

lemma claim_targets_distinct:
  assumes "distinct (map qt_id (td_tasks db))"
  shows "distinct (map qt_id (claim_targets svc now seen locked db))"
  unfolding claim_targets_def runtime_task_claim_rows_def take_map [symmetric]
  by (intro distinct_take) (simp add: claim_order_ids distinct_map_filter assms)

text \<open>A claim either takes nothing or commits one outcome for every target.\<close>

lemma claim_available_cases:
  assumes "claim_available svc now seen locked db = Inr r"
  obtains (nothing) "r = nothing_claimed db"
  | (taken) rows cs where
      "claim_each now (cs_worker svc) (cs_lease svc) (td_business db) (claim_targets svc now seen locked db) = Inr (rows, cs)"
      "list_all (\<lambda>c. storable (outcome_row c)) cs"
      "r = \<lparr>cr_db = stored_claims db rows cs, cr_claimed = map outcome_row (filter is_taken cs),
            cr_quarantined = map (\<lambda>c. qt_id (outcome_row c)) (filter (\<lambda>c. \<not> is_taken c) cs)\<rparr>"
  using assms unfolding claim_available_def claim_targets_def [symmetric] Let_def
  by (auto split: if_splits)

lemma list_all2_find:
  assumes "list_all2 P ts cs" "\<And>t c. P t c \<Longrightarrow> qt_id (outcome_row c) = qt_id t"
  shows "(case find_task k (map outcome_row cs) of
      None \<Rightarrow> find_task k ts = None
    | Some u \<Rightarrow> \<exists>t c. find_task k ts = Some t \<and> P t c \<and> c \<in> set cs \<and> u = outcome_row c)"
  using assms(1) by (induction rule: list_all2_induct) (auto simp: find_task_def assms(2) split: option.splits)

lemma find_task_in: "find_task k ts = Some t \<Longrightarrow> t \<in> set ts \<and> qt_id t = k"
  by (auto simp: find_task_def find_Some_iff)

lemma find_task_unique: "distinct (map qt_id ts) \<Longrightarrow> t \<in> set ts \<Longrightarrow> find_task (qt_id t) ts = Some t"
  by (induction ts) (auto simp: find_task_def)

lemma find_task_map:
  "(\<And>x. qt_id (f x) = qt_id x) \<Longrightarrow> find_task k (map f ts) = map_option f (find_task k ts)"
  by (induction ts) (auto simp: find_task_def)

text \<open>
  A row after a claim: a target has the outcome the claim gave it, every other row is as it was.
\<close>

lemma claim_row:
  assumes r: "claim_available svc now seen locked db = Inr r"
    and d: "distinct (map qt_id (td_tasks db))" and k: "find_task k (td_tasks db) = Some t"
  shows "find_task k (td_tasks (cr_db r)) = Some t
    \<or> (\<exists>c. t \<in> set (claim_targets svc now seen locked db) \<and> claim_change now (cs_worker svc) (cs_lease svc) t c
        \<and> find_task k (td_tasks (cr_db r)) = Some (outcome_row c)
        \<and> (is_taken c \<longrightarrow> outcome_row c \<in> set (cr_claimed r)))"
  using r
proof (cases rule: claim_available_cases)
  case nothing
  with k show ?thesis by (simp add: nothing_claimed_def)
next
  case (taken rows cs)
  let ?ts = "claim_targets svc now seen locked db" and ?os = "map outcome_row cs"
  let ?f = "\<lambda>x. case find_task (qt_id x) ?os of None \<Rightarrow> x | Some u \<Rightarrow> u"
  have all: "list_all2 (claim_change now (cs_worker svc) (cs_lease svc)) ?ts cs"
    by (rule claim_each_change [OF taken(1)])
  have "distinct (map qt_id ?os)"
    using claim_each_ids [OF taken(1)] claim_targets_distinct [OF d] by (simp add: comp_def)
  then have "td_tasks (cr_db r) = map ?f (td_tasks db)"
    by (simp add: taken(3) stored_claims_def store_tasks_map)
  moreover have "qt_id (?f x) = qt_id x" for x
    by (auto split: option.split dest: find_task_in)
  ultimately have new: "find_task k (td_tasks (cr_db r)) = Some (?f t)"
    by (simp add: find_task_map k)
  have id: "qt_id t = k" using k by (auto dest: find_task_in)
  show ?thesis
  proof (cases "find_task k ?os")
    case None
    with new id show ?thesis by simp
  next
    case (Some u)
    have "\<exists>t0 c. find_task k ?ts = Some t0 \<and> claim_change now (cs_worker svc) (cs_lease svc) t0 c
        \<and> c \<in> set cs \<and> u = outcome_row c"
      using list_all2_find [OF all, where k = k] Some by (simp add: claim_change_def untouched_parts_def)
    then obtain t0 c where c: "find_task k ?ts = Some t0"
        "claim_change now (cs_worker svc) (cs_lease svc) t0 c" "c \<in> set cs" "u = outcome_row c"
      by blast
    from c(1) have "t0 \<in> set ?ts" "qt_id t0 = k" by (auto dest: find_task_in)
    moreover from this have "t0 = t"
      using find_task_unique [OF d claim_target_in(1)] k by fastforce
    ultimately show ?thesis using c new id Some by (auto simp: taken(3))
  qed
qed

lemma claim_taken:
  assumes r: "claim_available svc now seen locked db = Inr r"
    and d: "distinct (map qt_id (td_tasks db))" and u: "u \<in> set (cr_claimed r)"
  shows "\<exists>t \<in> set (claim_targets svc now seen locked db).
    find_task (qt_id u) (td_tasks db) = Some t \<and> find_task (qt_id u) (td_tasks (cr_db r)) = Some u
    \<and> claim_change now (cs_worker svc) (cs_lease svc) t (Taken u)"
  using r
proof (cases rule: claim_available_cases)
  case nothing
  with u show ?thesis by (simp add: nothing_claimed_def)
next
  case (taken rows cs)
  let ?ts = "claim_targets svc now seen locked db"
  from u taken(3) obtain c where c: "c \<in> set cs" "is_taken c" "u = outcome_row c" by auto
  from c(2,3) have cu: "c = Taken u" by (cases c) auto
  obtain t where t: "t \<in> set ?ts" "claim_change now (cs_worker svc) (cs_lease svc) t c"
    using claim_each_change [OF taken(1)] c(1) by (auto simp: list_all2_conv_all_nth in_set_conv_nth) metis
  then have id: "qt_id u = qt_id t" by (simp add: cu claim_change_def untouched_parts_def)
  have ids: "distinct (map qt_id (map outcome_row cs))"
    using claim_each_ids [OF taken(1)] claim_targets_distinct [OF d] by (simp add: comp_def)
  have old: "find_task (qt_id u) (td_tasks db) = Some t"
    using find_task_unique [OF d claim_target_in(1) [OF t(1)]] id by simp
  have "find_task (qt_id u) (map outcome_row cs) = Some u"
    by (rule find_task_unique [OF ids]) (auto simp: c(1) c(3) [symmetric] image_iff intro: bexI [of _ c])
  moreover have "td_tasks (cr_db r) = map (\<lambda>x. case find_task (qt_id x) (map outcome_row cs) of
      None \<Rightarrow> x | Some u \<Rightarrow> u) (td_tasks db)"
    using ids by (simp add: taken(3) stored_claims_def store_tasks_map)
  ultimately have "find_task (qt_id u) (td_tasks (cr_db r)) = Some u"
    using old id by (subst \<open>td_tasks (cr_db r) = _\<close>, subst find_task_map)
      (auto split: option.split dest: find_task_in)
  with t old cu show ?thesis by auto
qed


section \<open>Fencing tokens\<close>

text \<open>
  The contract of a fencing token: a step may replace the token of a key, and never by a smaller one.
  A token that was once passed never comes back.
\<close>

locale fencing =
  fixes sound :: "'s \<Rightarrow> bool"
    and token :: "'s \<Rightarrow> 'k \<Rightarrow> int option"
    and step :: "'s \<Rightarrow> 's \<Rightarrow> bool"
  assumes step_sound: "sound s \<Longrightarrow> step s s' \<Longrightarrow> sound s'"
    and step_token: "sound s \<Longrightarrow> step s s' \<Longrightarrow> token s k = Some v \<Longrightarrow> \<exists>v'. token s' k = Some v' \<and> v \<le> v'"
begin

lemma steps_sound: "rtranclp step s s' \<Longrightarrow> sound s \<Longrightarrow> sound s'"
  by (induction rule: rtranclp_induct) (auto intro: step_sound)

lemma steps_token:
  assumes "rtranclp step s s'" "sound s" "token s k = Some v"
  shows "\<exists>v'. token s' k = Some v' \<and> v \<le> v'"
  using assms(1)
proof (induction rule: rtranclp_induct)
  case base
  with assms(3) show ?case by auto
next
  case (step s1 s2)
  then obtain v1 where v1: "token s1 k = Some v1" "v \<le> v1" by blast
  have "sound s1" using steps_sound [OF step(1) assms(2)] .
  from step_token [OF this step(2) v1(1)] v1(2) show ?case by force
qed

lemma passed_token_is_gone:
  assumes "rtranclp step s s'" "sound s" "token s k = Some v" "w < v"
  shows "\<exists>v'. token s' k = Some v' \<and> v' \<noteq> w"
  using steps_token [OF assms(1-3)] assms(4) by force

end

definition distinct_tasks :: "task_db \<Rightarrow> bool" where
  "distinct_tasks db = distinct (map qt_id (td_tasks db))"

definition task_version :: "task_db \<Rightarrow> uuid \<Rightarrow> int option" where
  "task_version db k = map_option qt_version (find_task k (td_tasks db))"

text \<open>
  What happens to the queue: claims of any worker, with whatever state it read its candidates from,
  renewals, and writes of other transactions, which keep the rows and never lower a version.
\<close>

definition versions_kept :: "task_db \<Rightarrow> task_db \<Rightarrow> bool" where
  "versions_kept db db' = (distinct_tasks db' \<and> (\<forall>t \<in> set (td_tasks db).
     \<exists>t' \<in> set (td_tasks db'). qt_id t' = qt_id t \<and> qt_version t \<le> qt_version t'))"

inductive queue_step :: "task_db \<Rightarrow> task_db \<Rightarrow> bool" where
  claim: "claim_available svc now seen locked db = Inr r \<Longrightarrow> queue_step db (cr_db r)"
| renewal: "renew_current_runtime_task_lease fence lease now db = Inr (db', expires) \<Longrightarrow> queue_step db db'"
| other: "versions_kept db db' \<Longrightarrow> queue_step db db'"

lemma claim_ids:
  assumes "claim_available svc now seen locked db = Inr r" "distinct_tasks db"
  shows "map qt_id (td_tasks (cr_db r)) = map qt_id (td_tasks db)"
  using assms(1)
proof (cases rule: claim_available_cases)
  case nothing
  then show ?thesis by (simp add: nothing_claimed_def)
next
  case (taken rows cs)
  have "distinct (map qt_id (map outcome_row cs))"
    using claim_each_ids [OF taken(1)] claim_targets_distinct assms(2)
    by (simp add: comp_def distinct_tasks_def)
  then show ?thesis
    by (auto simp: taken(3) stored_claims_def store_tasks_map split: option.split dest: find_task_in)
qed

lemma claim_version:
  assumes "claim_available svc now seen locked db = Inr r" "distinct_tasks db" "task_version db k = Some v"
  shows "\<exists>v'. task_version (cr_db r) k = Some v' \<and> v \<le> v'"
proof -
  from assms(3) obtain t where t: "find_task k (td_tasks db) = Some t" "v = qt_version t"
    by (auto simp: task_version_def)
  from claim_row [OF assms(1) assms(2) [unfolded distinct_tasks_def] t(1)] show ?thesis
    by (auto simp: task_version_def t(2) claim_change_def split: if_splits)
qed

lemma renewal_result:
  assumes "renew_current_runtime_task_lease fence lease now db = Inr (db', expires)"
  shows "\<exists>f. (\<forall>x. qt_id (f x) = qt_id x \<and> qt_version (f x) = qt_version x) \<and> td_tasks db' = map f (td_tasks db)"
proof (cases fence)
  case None
  with assms show ?thesis
    by (intro exI [of _ "\<lambda>x. x"]) (auto simp: renew_current_runtime_task_lease_def)
next
  case (Some f)
  with assms show ?thesis
    by (intro exI [of _ "\<lambda>x. if renewal_matches f now x then x\<lparr>qt_expires := expires\<rparr> else x"])
      (auto simp: renew_current_runtime_task_lease_def Let_def split: option.splits if_splits)
qed

lemma queue_step_distinct: "queue_step db db' \<Longrightarrow> distinct_tasks db \<Longrightarrow> distinct_tasks db'"
proof (induction rule: queue_step.induct)
  case (claim svc now seen locked db r)
  then show ?case using claim_ids by (fastforce simp: distinct_tasks_def)
next
  case (renewal fence lease now db db' expires)
  then show ?case by (auto simp: distinct_tasks_def comp_def dest!: renewal_result)
next
  case (other db db')
  then show ?case by (simp add: versions_kept_def)
qed

lemma queue_step_version:
  "queue_step db db' \<Longrightarrow> distinct_tasks db \<Longrightarrow> task_version db k = Some v
   \<Longrightarrow> \<exists>v'. task_version db' k = Some v' \<and> v \<le> v'"
proof (induction rule: queue_step.induct)
  case (claim svc now seen locked db r)
  then show ?case by (rule claim_version)
next
  case (renewal fence lease now db db' expires)
  then show ?case by (auto simp: task_version_def find_task_map dest!: renewal_result)
next
  case (other db db')
  from other(3) obtain t where t: "find_task k (td_tasks db) = Some t" "v = qt_version t"
    by (auto simp: task_version_def)
  with other(1) obtain t' where t': "t' \<in> set (td_tasks db')" "qt_id t' = k" "v \<le> qt_version t'"
    by (auto simp: versions_kept_def dest!: find_task_in)
  moreover have "find_task k (td_tasks db') = Some t'"
    using find_task_unique [of "td_tasks db'" t'] other(1) t' by (simp add: versions_kept_def distinct_tasks_def)
  ultimately show ?case by (simp add: task_version_def)
qed

interpretation task_fence: fencing distinct_tasks task_version queue_step
  by unfold_locales (auto intro: queue_step_distinct queue_step_version)


section \<open>A worker that lost its task\<close>

lemma fence_passes:
  "assert_runtime_task_fence (Some f) now t = Inr () \<longleftrightarrow> qt_id t \<noteq> rf_task f
    \<or> qt_version t = rf_version f \<and> (case qt_worker t of None \<Rightarrow> [] | Some w \<Rightarrow> w) = rf_worker f
      \<and> qt_status t = ''running'' \<and> (\<exists>e. qt_expires t = Some e \<and> now < e)"
  by (auto simp: assert_runtime_task_fence_def Let_def split: option.splits)

lemma fence_refuses_version:
  "qt_id t = rf_task f \<Longrightarrow> qt_version t \<noteq> rf_version f \<Longrightarrow>
   assert_runtime_task_fence (Some f) now t = Inl ''StaleRuntimeTaskFenceError''"
  by (simp add: assert_runtime_task_fence_def)

lemma renewal_refuses_version:
  assumes "find_task (rf_task f) (td_tasks db) = Some t" "qt_version t \<noteq> rf_version f" "distinct_tasks db"
  shows "renew_current_runtime_task_lease (Some f) lease now db = Inl ''StaleRuntimeTaskFenceError''"
proof -
  have "\<not> renewal_matches f now x" if x: "x \<in> set (td_tasks db)" for x
  proof (cases "qt_id x = rf_task f")
    case True
    with find_task_unique [of "td_tasks db" x] x assms have "x = t" by (simp add: distinct_tasks_def)
    with assms(2) show ?thesis by (simp add: renewal_matches_def)
  qed (simp add: renewal_matches_def)
  then have "filter (renewal_matches f now) (td_tasks db) = []" by (simp add: filter_empty_conv)
  with assms(1) show ?thesis by (simp add: renew_current_runtime_task_lease_def Let_def)
qed

text \<open>
  Claim C8. Once another worker has taken a task, the worker that held it is refused for good:
  whatever claims, renewals and other writes follow, its fence raises at every time and it can no
  longer renew its lease.
\<close>

theorem stale_workers_stay_fenced:
  assumes "distinct_tasks db" "find_task (rf_task f) (td_tasks db) = Some old"
    and "assert_runtime_task_fence (Some f) t0 old = Inr ()"
    and "claim_available svc now seen locked db = Inr r" "rf_task f \<in> qt_id ` set (cr_claimed r)"
    and "rtranclp queue_step (cr_db r) db'"
  shows "\<exists>t'. find_task (rf_task f) (td_tasks db') = Some t'
    \<and> (\<forall>t1. assert_runtime_task_fence (Some f) t1 t' = Inl ''StaleRuntimeTaskFenceError'')
    \<and> (\<forall>t1 lease. renew_current_runtime_task_lease (Some f) lease t1 db' = Inl ''StaleRuntimeTaskFenceError'')"
proof -
  have d: "distinct (map qt_id (td_tasks db))" using assms(1) by (simp add: distinct_tasks_def)
  from assms(5) obtain u where u: "u \<in> set (cr_claimed r)" "qt_id u = rf_task f" by auto
  from claim_taken [OF assms(4) d u(1)] u(2) assms(2)
  have new: "task_version (cr_db r) (rf_task f) = Some (qt_version old + 1)"
    by (auto simp: task_version_def claim_change_def)
  have "qt_id old = rf_task f" using assms(2) by (auto dest: find_task_in)
  with assms(3) have "rf_version f < qt_version old + 1" by (auto simp: fence_passes)
  moreover have sound: "distinct_tasks (cr_db r)"
    using assms(4) assms(1) by (rule queue_step_distinct [OF queue_step.claim])
  ultimately obtain v where v: "task_version db' (rf_task f) = Some v" "v \<noteq> rf_version f"
    using task_fence.passed_token_is_gone [OF assms(6) _ new] by blast
  then obtain t' where t': "find_task (rf_task f) (td_tasks db') = Some t'" "qt_version t' \<noteq> rf_version f"
    by (auto simp: task_version_def)
  have "distinct_tasks db'" by (rule task_fence.steps_sound [OF assms(6) sound])
  with t' show ?thesis
    by (auto intro!: fence_refuses_version renewal_refuses_version dest: find_task_in)
qed

text \<open>
  Claim C16. A lease that still runs is not taken away: while the fence of the holder passes, no
  claim at that time or earlier touches the task.
\<close>

theorem live_leases_are_not_stolen:
  assumes "distinct_tasks db" "find_task (rf_task f) (td_tasks db) = Some old"
    and "assert_runtime_task_fence (Some f) t0 old = Inr ()" "now \<le> t0"
    and "claim_available svc now seen locked db = Inr r"
  shows "find_task (rf_task f) (td_tasks (cr_db r)) = Some old \<and> rf_task f \<notin> qt_id ` set (cr_claimed r)"
proof -
  have d: "distinct (map qt_id (td_tasks db))" using assms(1) by (simp add: distinct_tasks_def)
  have "qt_id old = rf_task f" using assms(2) by (auto dest: find_task_in)
  with assms(3,4) have free: "\<not> claim_due now old"
    by (auto simp: fence_passes claim_due_def not_after_def CLAIMABLE_RUNTIME_TASK_STATUSES_def)
  then have "old \<notin> set (claim_targets svc now seen locked db)"
    by (auto dest: claim_target_in(2) simp: runtime_task_claim_conditions_def)
  with claim_row [OF assms(5) d assms(2)]
  have kept: "find_task (rf_task f) (td_tasks (cr_db r)) = Some old" by auto
  have "qt_id u \<noteq> rf_task f" if "u \<in> set (cr_claimed r)" for u
    using claim_taken [OF assms(5) d that] assms(2) \<open>old \<notin> set _\<close> by auto
  with kept show ?thesis by (metis imageE)
qed

lemma one_of_distinct:
  "distinct (map qt_id ts) \<Longrightarrow> u \<in> set ts \<Longrightarrow> P u \<Longrightarrow> (\<And>x. P x \<Longrightarrow> qt_id x = qt_id u) \<Longrightarrow> filter P ts = [u]"
proof (induction ts)
  case (Cons x ts)
  show ?case
  proof (cases "x = u")
    case True
    with Cons.prems(1) have "qt_id u \<notin> qt_id ` set ts" by simp
    with Cons.prems(4) have "\<not> P y" if "y \<in> set ts" for y using that by (metis image_eqI)
    with True Cons.prems(3) show ?thesis by (simp add: filter_empty_conv)
  next
    case False
    with Cons.prems(2) have u: "u \<in> set ts" by simp
    have "qt_id x \<notin> qt_id ` set ts" using Cons.prems(1) by simp
    with u Cons.prems(4) have "\<not> P x" by (metis image_eqI)
    with Cons.IH [OF _ u Cons.prems(3,4)] Cons.prems(1) show ?thesis by simp
  qed
qed simp

text \<open>
  Claim C0. The worker that claims a task holds it: its own fence passes until the lease runs out,
  and until then it can renew.
\<close>

theorem claimant_holds_the_fence:
  assumes "distinct_tasks db" "claim_available svc now seen locked db = Inr r" "u \<in> set (cr_claimed r)"
    and "cs_worker svc \<noteq> []" "0 \<le> qt_version u" "t1 < now + cs_lease svc"
  shows "assert_runtime_task_fence (Some (set_runtime_task_fence (qt_id u) (qt_version u) (cs_worker svc))) t1 u = Inr ()
    \<and> (\<exists>db'. renew_current_runtime_task_lease
          (Some (set_runtime_task_fence (qt_id u) (qt_version u) (cs_worker svc))) lease t1 (cr_db r)
          = Inr (db', Some (t1 + max 30000 lease)))"
proof -
  let ?f = "set_runtime_task_fence (qt_id u) (qt_version u) (cs_worker svc)"
  have d: "distinct (map qt_id (td_tasks db))" using assms(1) by (simp add: distinct_tasks_def)
  from claim_taken [OF assms(2) d assms(3)] obtain t where
    t: "t \<in> set (claim_targets svc now seen locked db)"
      "find_task (qt_id u) (td_tasks (cr_db r)) = Some u"
      "claim_change now (cs_worker svc) (cs_lease svc) t (Taken u)" by blast
  have tenant: "qt_tenant u \<noteq> None"
    using claim_target_in(2) [OF t(1)] t(3)
    by (auto simp: runtime_task_claim_conditions_def tenant_live_def claim_change_def untouched_parts_def
        split: option.splits)
  have m: "renewal_matches ?f t1 u"
    using t(3) assms(4-6) by (simp add: renewal_matches_def set_runtime_task_fence_def claim_change_def)
  have "distinct_tasks (cr_db r)" using assms(1,2) by (blast intro: queue_step_distinct queue_step.claim)
  then have new_ids: "distinct (map qt_id (td_tasks (cr_db r)))" by (simp add: distinct_tasks_def)
  have row: "u \<in> set (td_tasks (cr_db r))" using t(2) by (auto dest: find_task_in)
  have "qt_id x = qt_id u" if "renewal_matches ?f t1 x" for x
    using that by (simp add: renewal_matches_def set_runtime_task_fence_def)
  with one_of_distinct [OF new_ids row, where P = "renewal_matches ?f t1"] m
  have "filter (renewal_matches ?f t1) (td_tasks (cr_db r)) = [u]" by blast
  moreover have "rf_task ?f = qt_id u" by (simp add: set_runtime_task_fence_def)
  ultimately have "\<exists>db'. renew_current_runtime_task_lease (Some ?f) lease t1 (cr_db r)
      = Inr (db', Some (t1 + max 30000 lease))"
    using t(2) tenant by (simp add: renew_current_runtime_task_lease_def Let_def)
  moreover have "assert_runtime_task_fence (Some ?f) t1 u = Inr ()"
    using m unfolding fence_passes renewal_matches_def by (auto split: option.splits)
  ultimately show ?thesis by blast
qed


section \<open>What is claimed, and in which order\<close>

text \<open>Two stable sorts order lexicographically.\<close>

lemma insort_lexicographic:
  fixes g h :: "'a \<Rightarrow> int"
  assumes "sorted_wrt (\<lambda>a b. g a < g b \<or> g a = g b \<and> h a \<le> h b) zs" "\<forall>z \<in> set zs. h y \<le> h z"
  shows "sorted_wrt (\<lambda>a b. g a < g b \<or> g a = g b \<and> h a \<le> h b) (insort_key g y zs)"
  using assms by (induction zs) (auto simp: set_insort_key)

lemma sort_lexicographic:
  fixes g h :: "'a \<Rightarrow> int"
  shows "sorted_wrt (\<lambda>a b. g a < g b \<or> g a = g b \<and> h a \<le> h b) (sort_key g (sort_key h xs))"
proof -
  have "sorted_wrt (\<lambda>a b. g a < g b \<or> g a = g b \<and> h a \<le> h b) (sort_key g ys)" if "sorted (map h ys)" for ys
    using that by (induction ys) (auto intro!: insort_lexicographic)
  then show ?thesis by simp
qed

definition before_in_queue :: "queued_task \<Rightarrow> queued_task \<Rightarrow> bool" where
  "before_in_queue a b = (qt_priority b < qt_priority a
     \<or> qt_priority a = qt_priority b \<and> qt_created a \<le> qt_created b)"

lemma claim_order_sorted: "sorted_wrt before_in_queue (claim_order ts)"
  using sort_lexicographic [of "\<lambda>t. - qt_priority t" qt_created ts]
  by (simp add: claim_order_def before_in_queue_def [abs_def])

lemma claim_targets_sorted: "sorted_wrt before_in_queue (claim_targets svc now seen locked db)"
  unfolding claim_targets_def runtime_task_claim_rows_def by (intro sorted_wrt_take claim_order_sorted)

lemma outcomes_sorted:
  assumes "list_all2 (claim_change now worker lease) ts cs" "sorted_wrt before_in_queue ts"
  shows "sorted_wrt before_in_queue (map outcome_row (filter is_taken cs))"
proof -
  have "sorted_wrt (\<lambda>a b. before_in_queue (outcome_row a) (outcome_row b)) cs"
    using assms unfolding sorted_wrt_iff_nth_less list_all2_conv_all_nth
    by (simp add: before_in_queue_def claim_change_def untouched_parts_def)
  then show ?thesis by (simp add: sorted_wrt_map sorted_wrt_filter)
qed

lemma candidate_in:
  assumes "k \<in> set (eligible_candidates db (runtime_task_claim_candidates seen types now batch))"
  shows "\<exists>t \<in> set (td_tasks seen). qt_id t = k \<and> runtime_task_claim_conditions seen now t \<and> wanted_type types t"
  using assms by (auto simp: eligible_candidates_def runtime_task_claim_candidates_def dest!: in_set_takeD)

text \<open>
  Claim C26. Every task a worker gets was free for it when its row was locked: waiting, or running
  with an expired lease and of a type that may be reclaimed, due, of an active tenant, with a budget
  run that is active unless the task is a recovery control, of a wanted type, and not locked by
  another transaction. It was a candidate before, the tasks come by priority and age, and there are
  at most a batch of them.
\<close>

theorem claims_are_admitted:
  assumes "distinct_tasks db" "claim_available svc now seen locked db = Inr r"
  shows "length (cr_claimed r) + length (cr_quarantined r) \<le> cs_batch svc
    \<and> sorted_wrt before_in_queue (cr_claimed r)
    \<and> (\<forall>u \<in> set (cr_claimed r). qt_id u \<notin> set locked
        \<and> (\<exists>t \<in> set (td_tasks db). qt_id t = qt_id u \<and> claim_due now t \<and> tenant_live db t
            \<and> budget_admits db t \<and> wanted_type (cs_types svc) t
            \<and> qt_version u = qt_version t + 1 \<and> qt_attempts u = qt_attempts t + 1)
        \<and> (\<exists>t \<in> set (td_tasks seen). qt_id t = qt_id u \<and> runtime_task_claim_conditions seen now t))"
proof -
  have d: "distinct (map qt_id (td_tasks db))" using assms(1) by (simp add: distinct_tasks_def)
  have size: "length (cr_claimed r) + length (cr_quarantined r) \<le> cs_batch svc
      \<and> sorted_wrt before_in_queue (cr_claimed r)"
    using assms(2)
  proof (cases rule: claim_available_cases)
    case nothing
    then show ?thesis by (simp add: nothing_claimed_def)
  next
    case (taken rows cs)
    note all = claim_each_change [OF taken(1)]
    have "length cs \<le> cs_batch svc"
      using claim_targets_length [of svc now seen locked db] all by (simp add: list_all2_lengthD)
    with outcomes_sorted [OF all claim_targets_sorted] sum_length_filter_compl [of is_taken cs]
    show ?thesis by (simp add: taken(3))
  qed
  have "qt_id u \<notin> set locked
      \<and> (\<exists>t \<in> set (td_tasks db). qt_id t = qt_id u \<and> claim_due now t \<and> tenant_live db t
          \<and> budget_admits db t \<and> wanted_type (cs_types svc) t
          \<and> qt_version u = qt_version t + 1 \<and> qt_attempts u = qt_attempts t + 1)
      \<and> (\<exists>t \<in> set (td_tasks seen). qt_id t = qt_id u \<and> runtime_task_claim_conditions seen now t)"
    if u: "u \<in> set (cr_claimed r)" for u
  proof -
    from claim_taken [OF assms(2) d u] obtain t where
      t: "t \<in> set (claim_targets svc now seen locked db)"
        "claim_change now (cs_worker svc) (cs_lease svc) t (Taken u)" by blast
    from t(2) have id: "qt_id t = qt_id u" and n: "qt_version u = qt_version t + 1" "qt_attempts u = qt_attempts t + 1"
      by (simp_all add: claim_change_def untouched_parts_def)
    note row = claim_target_in [OF t(1)]
    from row(2) have "claim_due now t \<and> tenant_live db t \<and> budget_admits db t"
      by (simp add: runtime_task_claim_conditions_def)
    with row(1,3,4) candidate_in [OF row(5)] id n show ?thesis by auto
  qed
  with size show ?thesis by blast
qed

section \<open>Abandoned work\<close>

text \<open>
  Rows a claim can process: a business task names its tenant and agent, the count of earlier
  reclaims is a number, and the counters have room in their columns.
\<close>

definition sound_row :: "queued_task \<Rightarrow> bool" where
  "sound_row t = ((qt_type t = ''business_task'' \<longrightarrow> qt_tenant t \<noteq> None \<and> qt_agent t \<noteq> None)
     \<and> (case py_int (py_or (dget (meta_entries t) ''lease_reclaim_count'') (PInt 0)) of Inl _ \<Rightarrow> False | Inr _ \<Rightarrow> True)
     \<and> qt_version t + 1 < 2 ^ 31 \<and> qt_attempts t + 1 < 2 ^ 31
     \<and> (case qt_worker t of None \<Rightarrow> True | Some w \<Rightarrow> length w \<le> 200))"

lemma bind_business_returns:
  "qt_tenant t \<noteq> None \<Longrightarrow> qt_agent t \<noteq> None \<Longrightarrow> \<exists>rows' reason. bind_business_task_claim t rows = Inr (rows', reason)"
  by (auto simp: bind_business_task_claim_def split: option.splits)

lemma claimed_row_returns:
  assumes "sound_row t" "length worker \<le> 200"
  shows "\<exists>t'. claimed_row now worker lease t = Inr t' \<and> storable t'"
proof -
  obtain n where "py_int (py_or (dget (meta_entries t) ''lease_reclaim_count'') (PInt 0)) = Inr n"
    using assms(1) by (auto simp: sound_row_def split: sum.splits)
  then obtain m where "reclaim_entries now t = Inr m" by (cases "qt_status t = ''running''") (simp_all add: reclaim_entries_def)
  with assms show ?thesis by (simp add: claimed_row_def storable_def sound_row_def)
qed

lemma claim_one_returns:
  assumes "sound_row t" "length worker \<le> 200"
  shows "\<exists>rows' c. claim_one now worker lease rows t = Inr (rows', c) \<and> storable (outcome_row c)
    \<and> (qt_type t \<noteq> ''business_task'' \<longrightarrow> is_taken c)"
proof -
  obtain t' where t': "claimed_row now worker lease t = Inr t'" "storable t'"
    using claimed_row_returns [OF assms] by blast
  have q: "storable (quarantine_business_task_claim now x t)" for x
    using assms(1) by (simp add: sound_row_def storable_def quarantine_business_task_claim_def)
  show ?thesis
  proof (cases "qt_type t = ''business_task''")
    case False
    with t' show ?thesis by (simp add: claim_one_def)
  next
    case True
    then obtain rows' reason where "bind_business_task_claim t rows = Inr (rows', reason)"
      using assms(1) bind_business_returns by (metis sound_row_def)
    with True t' q show ?thesis by (cases reason) (simp_all add: claim_one_def)
  qed
qed

lemma claim_each_returns:
  assumes "list_all sound_row ts" "length worker \<le> 200"
  shows "\<exists>rows' cs. claim_each now worker lease rows ts = Inr (rows', cs)
    \<and> list_all (\<lambda>c. storable (outcome_row c)) cs
    \<and> list_all2 (\<lambda>t c. qt_type t \<noteq> ''business_task'' \<longrightarrow> is_taken c) ts cs"
  using assms(1)
proof (induction ts arbitrary: rows)
  case (Cons t ts)
  then have sound: "sound_row t" "list_all sound_row ts" by simp_all
  obtain rows1 c where one: "claim_one now worker lease rows t = Inr (rows1, c)" "storable (outcome_row c)"
      "qt_type t \<noteq> ''business_task'' \<longrightarrow> is_taken c"
    using claim_one_returns [OF sound(1) assms(2)] by blast
  obtain rows2 cs where "claim_each now worker lease rows1 ts = Inr (rows2, cs)"
      "list_all (\<lambda>c. storable (outcome_row c)) cs"
      "list_all2 (\<lambda>t c. qt_type t \<noteq> ''business_task'' \<longrightarrow> is_taken c) ts cs"
    using Cons.IH [OF sound(2)] by blast
  with one show ?case by simp
qed simp


definition claimable_rows :: "task_db \<Rightarrow> string list \<Rightarrow> int \<Rightarrow> queued_task list" where
  "claimable_rows db types now =
     filter (\<lambda>t. runtime_task_claim_conditions db now t \<and> wanted_type types t) (td_tasks db)"

lemma claim_order_length [simp]: "length (claim_order ts) = length ts"
  by (simp add: claim_order_def)

lemma claimable_is_eligible:
  assumes "t \<in> set (claimable_rows seen types now)" "length (claimable_rows seen types now) \<le> batch"
    and "budget_admits db t"
  shows "qt_id t \<in> set (eligible_candidates db (runtime_task_claim_candidates seen types now batch))"
proof -
  have "(qt_id t, if remote_recovery_control t then None else qt_budget t)
      \<in> set (runtime_task_claim_candidates seen types now batch)"
    using assms(1,2) unfolding runtime_task_claim_candidates_def claimable_rows_def [symmetric] by auto
  moreover have "case (if remote_recovery_control t then None else qt_budget t) of
      None \<Rightarrow> True | Some b \<Rightarrow> (b, ''active'') \<in> set (td_runs db)"
    using assms(3) by (auto simp: budget_admits_def split: option.splits)
  ultimately show ?thesis unfolding eligible_candidates_def by force
qed

lemma claimable_is_target:
  assumes "t \<in> set (claimable_rows db (cs_types svc) now)"
    and "length (claimable_rows db (cs_types svc) now) \<le> cs_batch svc" "qt_id t \<notin> set locked"
    and "qt_id t \<in> set (eligible_candidates db (runtime_task_claim_candidates seen (cs_types svc) now (cs_batch svc)))"
  shows "t \<in> set (claim_targets svc now seen locked db)"
proof -
  let ?ids = "eligible_candidates db (runtime_task_claim_candidates seen (cs_types svc) now (cs_batch svc))"
  let ?rows = "filter (\<lambda>t. qt_id t \<in> set ?ids \<and> qt_id t \<notin> set locked) (claimable_rows db (cs_types svc) now)"
  have "claim_targets svc now seen locked db = take (cs_batch svc) (claim_order ?rows)"
    by (simp add: claim_targets_def runtime_task_claim_rows_def claimable_rows_def conj_ac)
  moreover have "length ?rows \<le> cs_batch svc" using assms(2) length_filter_le le_trans by blast
  ultimately show ?thesis using assms(1,3,4) by simp
qed

lemma target_is_claimed:
  assumes "t \<in> set (claim_targets svc now seen locked db)" "qt_type t \<noteq> ''business_task''"
    and "list_all sound_row (td_tasks db)" "length (cs_worker svc) \<le> 200"
  shows "\<exists>r u. claim_available svc now seen locked db = Inr r \<and> u \<in> set (cr_claimed r)
    \<and> claim_change now (cs_worker svc) (cs_lease svc) t (Taken u)"
proof -
  let ?ts = "claim_targets svc now seen locked db"
  have "list_all sound_row ?ts"
    using assms(3) by (auto simp: list_all_iff dest: claim_target_in(1))
  from claim_each_returns [OF this assms(4)] obtain rows cs where
    cs: "claim_each now (cs_worker svc) (cs_lease svc) (td_business db) ?ts = Inr (rows, cs)"
      "list_all (\<lambda>c. storable (outcome_row c)) cs"
      "list_all2 (\<lambda>t c. qt_type t \<noteq> ''business_task'' \<longrightarrow> is_taken c) ?ts cs" by metis
  have "eligible_candidates db (runtime_task_claim_candidates seen (cs_types svc) now (cs_batch svc)) \<noteq> []"
    using claim_target_in(5) [OF assms(1)] by auto
  moreover have "?ts \<noteq> []" using assms(1) by auto
  ultimately have run: "claim_available svc now seen locked db = Inr
      \<lparr>cr_db = stored_claims db rows cs, cr_claimed = map outcome_row (filter is_taken cs),
       cr_quarantined = map (\<lambda>c. qt_id (outcome_row c)) (filter (\<lambda>c. \<not> is_taken c) cs)\<rparr>"
    using cs(1,2) unfolding claim_available_def claim_targets_def [symmetric] Let_def by simp
  obtain i where i: "i < length ?ts" "t = ?ts ! i" using assms(1) by (auto simp: in_set_conv_nth)
  have taken: "is_taken (cs ! i)" using list_all2_nthD [OF cs(3) i(1)] assms(2) i(2) by simp
  then have c: "cs ! i = Taken (outcome_row (cs ! i))" by (cases "cs ! i") auto
  have "claim_change now (cs_worker svc) (cs_lease svc) t (cs ! i)"
    using list_all2_nthD [OF claim_each_change [OF cs(1)] i(1)] i(2) by simp
  with c have "claim_change now (cs_worker svc) (cs_lease svc) t (Taken (outcome_row (cs ! i)))" by simp
  moreover have "cs ! i \<in> set cs" using i(1) list_all2_lengthD [OF cs(3)] by simp
  ultimately show ?thesis using run taken by auto
qed

text \<open>
  Claim C21. Work that its worker abandoned comes back: a running task of a reclaimable type whose
  lease ran out or was never set is claimed again by the next worker that asks for its type, when it
  is due, its tenant is active, its budget admits it, no transaction holds its row and what is
  claimable fits the batch. The new claim has the next version.
\<close>

theorem abandoned_tasks_are_recovered:
  assumes "t \<in> set (td_tasks seen)" "t \<in> set (td_tasks db)" "qt_status t = ''running''"
    and "qt_type t \<in> set LEASE_RECLAIMABLE_RUNTIME_TASK_TYPES" "wanted_type (cs_types svc) t"
    and "not_after (qt_expires t) now" "not_after (qt_scheduled t) now" "qt_id t \<notin> set locked"
    and "tenant_live seen t" "tenant_live db t" "budget_admits seen t" "budget_admits db t"
    and "length (claimable_rows seen (cs_types svc) now) \<le> cs_batch svc"
    and "length (claimable_rows db (cs_types svc) now) \<le> cs_batch svc"
    and "list_all sound_row (td_tasks db)" "length (cs_worker svc) \<le> 200"
  shows "\<exists>r u. claim_available svc now seen locked db = Inr r \<and> u \<in> set (cr_claimed r) \<and> qt_id u = qt_id t
    \<and> qt_worker u = Some (cs_worker svc) \<and> qt_version u = qt_version t + 1"
proof -
  have due: "claim_due now t" using assms(3,4,6,7) by (simp add: claim_due_def)
  have "t \<in> set (claimable_rows seen (cs_types svc) now)"
    using assms(1,5,9,11) due by (simp add: claimable_rows_def runtime_task_claim_conditions_def)
  note eligible = claimable_is_eligible [OF this assms(13) assms(12)]
  have "t \<in> set (claimable_rows db (cs_types svc) now)"
    using assms(2,5,10,12) due by (simp add: claimable_rows_def runtime_task_claim_conditions_def)
  from claimable_is_target [OF this assms(14) assms(8) eligible]
  have target: "t \<in> set (claim_targets svc now seen locked db)" .
  have "qt_type t \<noteq> ''business_task''"
    using assms(4) by (auto simp: LEASE_RECLAIMABLE_RUNTIME_TASK_TYPES_def)
  from target_is_claimed [OF target this assms(15,16)] show ?thesis
    by (auto simp: claim_change_def untouched_parts_def)
qed

text \<open>
  A row that cannot be processed stops every other claim of the batch: the whole transaction fails,
  and the next claim meets the same row.
\<close>

lemma claim_each_fails:
  assumes "t \<in> set ts" "\<And>rows. \<exists>e. claim_one now worker lease rows t = Inl e"
  shows "\<exists>e. claim_each now worker lease rows ts = Inl e"
  using assms(1)
proof (induction ts arbitrary: rows)
  case (Cons x xs)
  show ?case
  proof (cases "claim_one now worker lease rows x")
    case (Inl e)
    then show ?thesis by simp
  next
    case (Inr p)
    with assms(2) [of rows] Cons.prems have "t \<in> set xs" by (cases p) auto
    from Cons.IH [OF this, of "fst p"] obtain e where "claim_each now worker lease (fst p) xs = Inl e" by blast
    with Inr show ?thesis by (cases p) simp
  qed
qed simp

lemma unprocessable_row_stops_the_batch:
  assumes "t \<in> set (claim_targets svc now seen locked db)"
    and "\<And>rows. \<exists>e. claim_one now (cs_worker svc) (cs_lease svc) rows t = Inl e"
  shows "\<exists>e. claim_available svc now seen locked db = Inl e"
proof -
  have "eligible_candidates db (runtime_task_claim_candidates seen (cs_types svc) now (cs_batch svc)) \<noteq> []"
    using claim_target_in(5) [OF assms(1)] by auto
  moreover have "claim_targets svc now seen locked db \<noteq> []" using assms(1) by auto
  moreover obtain e where "claim_each now (cs_worker svc) (cs_lease svc) (td_business db)
      (claim_targets svc now seen locked db) = Inl e"
    using claim_each_fails [OF assms] by blast
  ultimately show ?thesis
    unfolding claim_available_def claim_targets_def [symmetric] Let_def by simp
qed


section \<open>Witnesses\<close>

definition abandoned_turn :: queued_task where
  "abandoned_turn = \<lparr>qt_id = 5, qt_type = ''web_chat_turn'', qt_tenant = Some 1, qt_agent = Some 2,
     qt_status = ''running'', qt_summary = None, qt_created = 0, qt_scheduled = None, qt_started = Some 0,
     qt_completed = None, qt_priority = 0, qt_worker = Some ''worker-a'', qt_expires = Some 1000,
     qt_attempts = 3, qt_version = 3, qt_budget = None, qt_meta = None\<rparr>"

definition desk_queue :: task_db where
  "desk_queue = \<lparr>td_tasks = [abandoned_turn], td_runs = [], td_tenants = [(1, True)], td_business = []\<rparr>"

definition desk_claimer :: claim_service where
  "desk_claimer = \<lparr>cs_worker = ''worker-b'', cs_types = [], cs_lease = 120000000, cs_batch = 10\<rparr>"

definition old_fence :: runtime_task_fence where
  "old_fence = set_runtime_task_fence 5 3 ''worker-a''"

lemma desk_sound: "distinct_tasks desk_queue" "list_all sound_row (td_tasks desk_queue)"
  by code_simp+

lemma desk_row: "find_task (rf_task old_fence) (td_tasks desk_queue) = Some abandoned_turn"
  by code_simp

lemma desk_claim:
  "\<exists>r u. claim_available desk_claimer 2000 desk_queue [] desk_queue = Inr r \<and> u \<in> set (cr_claimed r)
     \<and> qt_id u = 5 \<and> qt_version u = 4"
proof -
  have "claim_targets desk_claimer 2000 desk_queue [] desk_queue = [abandoned_turn]" by code_simp
  then have "abandoned_turn \<in> set (claim_targets desk_claimer 2000 desk_queue [] desk_queue)" by simp
  from target_is_claimed [OF this _ desk_sound(2)] show ?thesis
    by (auto simp: claim_change_def untouched_parts_def abandoned_turn_def desk_claimer_def)
qed

theorem stale_workers_stay_fenced_witness:
  "\<exists>(db :: task_db) t'. find_task (rf_task old_fence) (td_tasks db) = Some t'
     \<and> assert_runtime_task_fence (Some old_fence) 900 abandoned_turn = Inr ()
     \<and> assert_runtime_task_fence (Some old_fence) 900 t' = Inl ''StaleRuntimeTaskFenceError''"
proof -
  have passes: "assert_runtime_task_fence (Some old_fence) 900 abandoned_turn = Inr ()" by code_simp
  obtain r u where r: "claim_available desk_claimer 2000 desk_queue [] desk_queue = Inr r"
      "u \<in> set (cr_claimed r)" "qt_id u = 5" using desk_claim by blast
  have "rf_task old_fence = 5" by code_simp
  with r(2,3) have "rf_task old_fence \<in> qt_id ` set (cr_claimed r)" by (metis image_eqI)
  from stale_workers_stay_fenced [OF desk_sound(1) desk_row passes r(1) this rtranclp.rtrancl_refl]
  obtain t' where "find_task (rf_task old_fence) (td_tasks (cr_db r)) = Some t'"
      "assert_runtime_task_fence (Some old_fence) 900 t' = Inl ''StaleRuntimeTaskFenceError''" by blast
  with passes show ?thesis by blast
qed

theorem live_leases_are_not_stolen_witness:
  "find_task 5 (td_tasks (cr_db (nothing_claimed desk_queue))) = Some abandoned_turn
   \<and> claim_available desk_claimer 500 desk_queue [] desk_queue = Inr (nothing_claimed desk_queue)"
proof -
  have "claim_targets desk_claimer 500 desk_queue [] desk_queue = []" by code_simp
  then have r: "claim_available desk_claimer 500 desk_queue [] desk_queue = Inr (nothing_claimed desk_queue)"
    unfolding claim_available_def claim_targets_def [symmetric] Let_def by simp
  have passes: "assert_runtime_task_fence (Some old_fence) 600 abandoned_turn = Inr ()" by code_simp
  have "rf_task old_fence = 5" by code_simp
  with live_leases_are_not_stolen [OF desk_sound(1) desk_row passes _ r] r show ?thesis by simp
qed

theorem claimant_holds_the_fence_witness:
  "\<exists>r u. claim_available desk_claimer 2000 desk_queue [] desk_queue = Inr r \<and> u \<in> set (cr_claimed r)
     \<and> assert_runtime_task_fence (Some (set_runtime_task_fence 5 4 ''worker-b'')) 3000 u = Inr ()"
proof -
  obtain r u where r: "claim_available desk_claimer 2000 desk_queue [] desk_queue = Inr r"
      "u \<in> set (cr_claimed r)" "qt_id u = 5" "qt_version u = 4" using desk_claim by blast
  have "cs_worker desk_claimer = ''worker-b''" "cs_lease desk_claimer = 120000000"
    by (simp_all add: desk_claimer_def)
  with claimant_holds_the_fence [OF desk_sound(1) r(1,2), of 3000] r show ?thesis by auto
qed

theorem claims_are_admitted_witness:
  "\<exists>r. claim_available desk_claimer 2000 desk_queue [] desk_queue = Inr r
     \<and> length (cr_claimed r) + length (cr_quarantined r) \<le> 10 \<and> sorted_wrt before_in_queue (cr_claimed r)"
proof -
  obtain r u where r: "claim_available desk_claimer 2000 desk_queue [] desk_queue = Inr r"
    using desk_claim by blast
  with claims_are_admitted [OF desk_sound(1) r] show ?thesis by (auto simp: desk_claimer_def)
qed

theorem abandoned_tasks_are_recovered_witness:
  "\<exists>r u. claim_available desk_claimer 2000 desk_queue [] desk_queue = Inr r \<and> u \<in> set (cr_claimed r)
     \<and> qt_worker u = Some ''worker-b''"
proof -
  have "abandoned_turn \<in> set (td_tasks desk_queue)" by (simp add: desk_queue_def)
  moreover have "tenant_live desk_queue abandoned_turn" "budget_admits desk_queue abandoned_turn"
    "length (claimable_rows desk_queue (cs_types desk_claimer) 2000) \<le> cs_batch desk_claimer"
    "wanted_type (cs_types desk_claimer) abandoned_turn"
    "qt_type abandoned_turn \<in> set LEASE_RECLAIMABLE_RUNTIME_TASK_TYPES"
    by code_simp+
  moreover have "qt_status abandoned_turn = ''running''" "not_after (qt_expires abandoned_turn) 2000"
    "not_after (qt_scheduled abandoned_turn) 2000" "length (cs_worker desk_claimer) \<le> 200"
    "cs_worker desk_claimer = ''worker-b''"
    by (simp_all add: abandoned_turn_def not_after_def desk_claimer_def)
  ultimately show ?thesis
    using abandoned_tasks_are_recovered [of abandoned_turn desk_queue desk_queue desk_claimer 2000 "[]"]
      desk_sound(2) by auto
qed

end
