(* ===== verification/Task_Authority.thy ===== *)
theory Task_Authority
  imports Hive_Prelude Py_Std
begin

text \<open>
  Who may read or control a runtime task: the principal that a run carries
  (\<open>backend/app/core/execution_context.py\<close>, class \<open>ExecutionPrincipal\<close>) and the authority over a
  task record (\<open>backend/app/services/runtime_task_authority.py\<close>). A record is the dict of
  \<open>_task_to_dict\<close>; an identifier in it is its text. Exceptions are named by their class.
\<close>

section \<open>Principals\<close>

record principal =
  ep_tenant :: idval
  ep_agent :: uuid
  ep_requester :: "uuid option"
  ep_session :: "string option"
  ep_task :: "string option"
  ep_origin :: string
  ep_chain :: "string list"

definition PRINCIPAL_SCHEMA :: string where
  "PRINCIPAL_SCHEMA = ''hive.execution_principal.v1''"

text \<open>\<open>str(value or "").strip() or None\<close>.\<close>

definition text_or_none :: "pyval \<Rightarrow> string option" where
  "text_or_none v = (if clean_text v = [] then None else Some (clean_text v))"

definition opt_value :: "string option \<Rightarrow> pyval" where
  "opt_value x = (case x of None \<Rightarrow> PNone | Some s \<Rightarrow> PStr s)"

text \<open>The constructor: \<open>__post_init__\<close> cleans the fields.\<close>

definition new_principal ::
  "idval \<Rightarrow> uuid \<Rightarrow> uuid option \<Rightarrow> pyval \<Rightarrow> pyval \<Rightarrow> string \<Rightarrow> string list \<Rightarrow> (string, principal) res" where
  "new_principal tenant agent requester session task origin chain =
     (if py_strip origin = [] then Inl ''ValueError''
      else Inr \<lparr>ep_tenant = tenant, ep_agent = agent, ep_requester = requester,
                ep_session = text_or_none session, ep_task = text_or_none task, ep_origin = origin,
                ep_chain = filter (\<lambda>s. s \<noteq> []) (map py_strip chain)\<rparr>)"

definition requester_value :: "principal \<Rightarrow> pyval" where
  "requester_value p = (case ep_requester p of None \<Rightarrow> PNone | Some u \<Rightarrow> PStr (uuid_str u))"

definition to_evidence :: "principal \<Rightarrow> (string \<times> pyval) list" where
  "to_evidence p =
     [(''schema'', PStr PRINCIPAL_SCHEMA), (''tenant_id'', PStr (id_str (ep_tenant p))),
      (''source_agent_id'', PStr (uuid_str (ep_agent p))), (''requester_user_id'', requester_value p),
      (''root_session_id'', opt_value (ep_session p)), (''root_runtime_task_id'', opt_value (ep_task p)),
      (''origin'', PStr (ep_origin p)), (''delegation_chain'', PList (map PStr (ep_chain p)))]"

definition evidence_chain :: "pyval \<Rightarrow> (string, string list) res" where
  "evidence_chain v = (case v of PNone \<Rightarrow> Inr [] | PList vs \<Rightarrow> Inr (map py_str vs) | _ \<Rightarrow> Inl ''ValueError'')"

definition required_entry :: "(string \<times> pyval) list \<Rightarrow> string \<Rightarrow> (string, pyval) res" where
  "required_entry d k = (if has_key d k then Inr (dget d k) else Inl ''KeyError'')"

definition uuid_or_error :: "string \<Rightarrow> (string, uuid) res" where
  "uuid_or_error s = (case uuid_of_text s of None \<Rightarrow> Inl ''ValueError'' | Some u \<Rightarrow> Inr u)"

definition tenant_of_text :: "string \<Rightarrow> idval" where
  "tenant_of_text s = (case uuid_of_text s of None \<Rightarrow> IdText s | Some u \<Rightarrow> IdUuid u)"

definition from_evidence :: "(string \<times> pyval) list \<Rightarrow> (string, principal option) res" where
  "from_evidence d =
     (if d = [] then Inr None
      else if dget d ''schema'' \<noteq> PNone \<and> \<not> eq_str (dget d ''schema'') PRINCIPAL_SCHEMA then Inl ''ValueError''
      else bind_res (evidence_chain (dget d ''delegation_chain'')) (\<lambda>chain.
        bind_res (required_entry d ''tenant_id'') (\<lambda>tenant.
        if clean_text tenant = [] then Inl ''ValueError''
        else bind_res (required_entry d ''source_agent_id'') (\<lambda>source.
        bind_res (uuid_or_error (py_str source)) (\<lambda>agent.
        bind_res (if truthy (dget d ''requester_user_id'')
                  then bind_res (uuid_or_error (py_str (dget d ''requester_user_id''))) (\<lambda>u. Inr (Some u))
                  else Inr None) (\<lambda>requester.
        bind_res (new_principal (tenant_of_text (clean_text tenant)) agent requester
            (dget d ''root_session_id'') (dget d ''root_runtime_task_id'')
            (py_str (py_or (dget d ''origin'') (PStr ''agent_tool''))) chain) (\<lambda>p. Inr (Some p))))))))"

definition assert_scope :: "principal \<Rightarrow> pyval \<Rightarrow> string \<Rightarrow> (string, unit) res" where
  "assert_scope p tenant agent =
     (if uuid_str (ep_agent p) \<noteq> agent then Inl ''ValueError''
      else if tenant = PNone \<or> id_str (ep_tenant p) \<noteq> py_str tenant then Inl ''ValueError''
      else Inr ())"

text \<open>
  The runtime context of a tool call: the principal it carries is missing, evidence still to be
  read, a principal, or something else.
\<close>

datatype carried = NotCarried | CarriedEvidence "(string \<times> pyval) list" | CarriedPrincipal principal | CarriedOther

record call_context =
  tc_tenant :: pyval
  tc_agent :: string
  tc_user :: pyval
  tc_session :: pyval
  tc_task :: pyval
  tc_carried :: carried
  tc_frame_required :: bool

definition carried_principal :: "carried \<Rightarrow> (string, principal option) res" where
  "carried_principal c = (case c of
      NotCarried \<Rightarrow> Inr None
    | CarriedPrincipal p \<Rightarrow> Inr (Some p)
    | CarriedOther \<Rightarrow> Inl ''ValueError''
    | CarriedEvidence d \<Rightarrow> bind_res (from_evidence d) (\<lambda>p. case p of None \<Rightarrow> Inl ''ValueError'' | Some p \<Rightarrow> Inr (Some p)))"

definition requester_text :: "principal \<Rightarrow> string" where
  "requester_text p = (case ep_requester p of None \<Rightarrow> [] | Some u \<Rightarrow> uuid_str u)"

definition execution_principal_from_tool_context :: "call_context \<Rightarrow> (string, principal) res" where
  "execution_principal_from_tool_context c =
     (let tenant = clean_text (tc_tenant c) in
      if tenant = [] then Inl ''ValueError''
      else bind_res (carried_principal (tc_carried c)) (\<lambda>carried. case carried of
          Some p \<Rightarrow>
            if id_str (ep_tenant p) \<noteq> tenant then Inl ''ValueError''
            else if uuid_str (ep_agent p) \<noteq> tc_agent c then Inl ''ValueError''
            else if requester_text p \<noteq> py_str (py_or (tc_user c) (PStr [])) then Inl ''ValueError''
            else Inr p
        | None \<Rightarrow>
            if tc_frame_required c then Inl ''ValueError''
            else bind_res (uuid_or_error (tc_agent c)) (\<lambda>agent.
              bind_res (if truthy (tc_user c) then bind_res (uuid_or_error (py_str (tc_user c))) (\<lambda>u. Inr (Some u))
                        else Inr None) (\<lambda>requester.
              new_principal (IdText tenant) agent requester (tc_session c) (tc_task c) ''runtime_control_tool'' []))))"

section \<open>Authority over a task record\<close>

type_synonym task_record = "(string \<times> pyval) list"

definition record_metadata :: "task_record \<Rightarrow> task_record" where
  "record_metadata r = (case as_dict (py_or (dget r ''metadata'') (dget r ''metadata_json'')) of
      None \<Rightarrow> [] | Some d \<Rightarrow> d)"

definition metadata_principal :: "task_record \<Rightarrow> task_record" where
  "metadata_principal r = (case as_dict (dget (record_metadata r) ''execution_principal'') of None \<Rightarrow> [] | Some d \<Rightarrow> d)"

text \<open>
  The requester of a run: the column \<open>root_user_id\<close>, which the metadata may only confirm. The error
  carries a reason code.
\<close>

definition agrees :: "string option \<Rightarrow> uuid \<Rightarrow> bool" where
  "agrees candidate user = (case candidate of None \<Rightarrow> True | Some s \<Rightarrow> uuid_of_text s = Some user)"

definition runtime_task_requester_user_id :: "task_record \<Rightarrow> (string, uuid) res" where
  "runtime_task_requester_user_id r =
     (let canonical = clean_text (dget r ''root_user_id'') in
      if canonical = [] then Inl ''root_user_id_missing''
      else case uuid_of_text canonical of
          None \<Rightarrow> Inl ''root_user_id_invalid''
        | Some user \<Rightarrow>
            if agrees (text_or_none (dget (record_metadata r) ''root_user_id'')) user
               \<and> agrees (text_or_none (dget (metadata_principal r) ''requester_user_id'')) user
            then Inr user else Inl ''root_user_id_mismatch'')"

record root_authority =
  ra_tenant :: "string option"
  ra_agent :: "string option"
  ra_user :: "string option"
  ra_session :: "string option"
  ra_task :: "string option"
  ra_chain :: "string list"

definition record_chain :: "task_record \<Rightarrow> string list" where
  "record_chain r = (case as_list (dget r ''delegation_chain'') of
      Some vs \<Rightarrow> map py_str vs
    | None \<Rightarrow> (case as_list (dget (record_metadata r) ''delegation_chain'') of
        Some vs \<Rightarrow> map py_str vs | None \<Rightarrow> []))"

definition runtime_task_root_authority :: "task_record \<Rightarrow> root_authority" where
  "runtime_task_root_authority r =
     (let m = record_metadata r; p = metadata_principal r in
      \<lparr>ra_tenant = text_or_none (py_or (dget r ''tenant_id'') (dget p ''tenant_id'')),
       ra_agent = text_or_none (dget r ''parent_agent_id''),
       ra_user = text_or_none (py_or (dget r ''root_user_id'') (dget p ''requester_user_id'')),
       ra_session = text_or_none (py_or (py_or (dget r ''root_session_id'') (dget p ''root_session_id''))
         (dget m ''root_session_id'')),
       ra_task = text_or_none (py_or (py_or (dget r ''root_runtime_task_id'') (dget p ''root_runtime_task_id''))
         (dget m ''root_runtime_task_id'')),
       ra_chain = record_chain r\<rparr>)"

record task_decision =
  at_allowed :: bool
  at_action :: string
  at_reason :: string
  at_source :: "string option"
  at_root :: root_authority
  at_operator :: "(string \<times> string) option"

definition deny :: "string \<Rightarrow> root_authority \<Rightarrow> string \<Rightarrow> task_decision" where
  "deny action auth reason = \<lparr>at_allowed = False, at_action = action, at_reason = reason, at_source = None,
     at_root = auth, at_operator = None\<rparr>"

record operator_request =
  op_override :: bool
  op_user :: pyval
  op_reason :: pyval
  op_session_required :: bool

definition action_name :: "string \<Rightarrow> string" where
  "action_name action = (let a = py_strip (if action = [] then ''runtime_task_action'' else action) in
     if a = [] then ''runtime_task_action'' else a)"

definition root_complete :: "root_authority \<Rightarrow> bool" where
  "root_complete auth = (ra_user auth \<noteq> None \<and> ra_session auth \<noteq> None \<and> ra_chain auth \<noteq> [])"

definition ordinary_match :: "root_authority \<Rightarrow> principal \<Rightarrow> bool \<Rightarrow> bool" where
  "ordinary_match auth p session_required =
     ((case ep_requester p of None \<Rightarrow> False | Some u \<Rightarrow> ra_user auth = Some (uuid_str u))
      \<and> (session_required \<longrightarrow> ra_session auth = ep_session p))"

definition operator_decision :: "string \<Rightarrow> root_authority \<Rightarrow> operator_request \<Rightarrow> task_decision" where
  "operator_decision action auth op =
     (let reason = clean_text (op_reason op); operator = clean_text (op_user op) in
      if reason = [] then deny action auth ''operator_reason_required''
      else if operator = [] then deny action auth ''operator_identity_required''
      else \<lparr>at_allowed = True, at_action = action, at_reason = ''operator_override'',
             at_source = Some ''operator_override'', at_root = auth, at_operator = Some (operator, reason)\<rparr>)"

definition authorize_runtime_task_record ::
  "task_record \<Rightarrow> principal \<Rightarrow> string \<Rightarrow> operator_request \<Rightarrow> task_decision" where
  "authorize_runtime_task_record r p action op =
     (let act = action_name action; auth = runtime_task_root_authority r in
      if ra_tenant auth \<noteq> Some (id_str (ep_tenant p)) then deny act auth ''tenant_mismatch''
      else if ra_agent auth \<noteq> Some (uuid_str (ep_agent p)) then deny act auth ''parent_agent_mismatch''
      else if \<not> root_complete auth \<and> \<not> op_override op then deny act auth ''root_authority_missing''
      else if ordinary_match auth p (op_session_required op)
      then \<lparr>at_allowed = True, at_action = act, at_reason = ''root_owner_match'',
             at_source = Some ''root_owner'', at_root = auth, at_operator = None\<rparr>
      else if \<not> op_override op
      then deny act auth (if ra_user auth \<noteq> map_option uuid_str (ep_requester p)
             then ''root_user_mismatch'' else ''root_session_mismatch'')
      else operator_decision act auth op)"


section \<open>A principal survives its evidence\<close>

lemma text_or_none_opt: "text_or_none (opt_value (text_or_none v)) = text_or_none v"
  by (simp add: text_or_none_def opt_value_def)

lemma strip_kept: "map py_strip (filter (\<lambda>s. s \<noteq> []) (map py_strip chain)) = filter (\<lambda>s. s \<noteq> []) (map py_strip chain)"
  by (induction chain) auto

definition readable_tenant :: "idval \<Rightarrow> bool" where
  "readable_tenant t = (case t of IdNone \<Rightarrow> False | IdUuid u \<Rightarrow> True
     | IdText s \<Rightarrow> s \<noteq> [] \<and> py_strip s = s \<and> uuid_of_text s = None)"

lemma uuid_read [simp]: "uuid_or_error (uuid_str u) = Inr u"
  by (simp add: uuid_or_error_def)

lemma tenant_kept: "readable_tenant t \<Longrightarrow> py_strip (id_str t) \<noteq> [] \<and> tenant_of_text (py_strip (id_str t)) = t"
  by (cases t) (auto simp: readable_tenant_def tenant_of_text_def uuid_text_strip uuid_text_some)

lemma evidence_entries:
  "dget (to_evidence p) ''schema'' = PStr PRINCIPAL_SCHEMA"
  "dget (to_evidence p) ''tenant_id'' = PStr (id_str (ep_tenant p))"
  "dget (to_evidence p) ''source_agent_id'' = PStr (uuid_str (ep_agent p))"
  "dget (to_evidence p) ''requester_user_id'' = requester_value p"
  "dget (to_evidence p) ''root_session_id'' = opt_value (ep_session p)"
  "dget (to_evidence p) ''root_runtime_task_id'' = opt_value (ep_task p)"
  "dget (to_evidence p) ''origin'' = PStr (ep_origin p)"
  "dget (to_evidence p) ''delegation_chain'' = PList (map PStr (ep_chain p))"
  "has_key (to_evidence p) ''tenant_id''" "has_key (to_evidence p) ''source_agent_id''"
  by (simp_all add: to_evidence_def dget_def has_key_def)

lemma read_requester:
  "(if truthy (requester_value p) then bind_res (uuid_or_error (py_str (requester_value p))) (\<lambda>u. Inr (Some u))
    else Inr None) = Inr (ep_requester p)"
  by (cases "ep_requester p") (simp_all add: requester_value_def uuid_text_some)

text \<open>
  Claim C32. A principal is read back from the evidence it writes: for every principal that the
  constructor accepts, with a tenant that is a UUID or a clean text that is none, nothing of the
  authority is lost or changed on the way into a child run.
\<close>

theorem principal_survives_its_evidence:
  assumes "new_principal tenant agent requester session task origin chain = Inr p" "readable_tenant tenant"
  shows "from_evidence (to_evidence p) = Inr (Some p)"
proof -
  have o: "py_strip origin \<noteq> []" and f: "ep_tenant p = tenant" "ep_agent p = agent" "ep_requester p = requester"
      "ep_session p = text_or_none session" "ep_task p = text_or_none task" "ep_origin p = origin"
      "ep_chain p = filter (\<lambda>s. s \<noteq> []) (map py_strip chain)"
    using assms(1) by (auto simp: new_principal_def split: if_splits)
  then have "origin \<noteq> []" by auto
  have again: "new_principal tenant agent requester (opt_value (ep_session p)) (opt_value (ep_task p)) origin (ep_chain p)
      = Inr p"
    using o by (simp add: new_principal_def f text_or_none_opt strip_kept)
  have ne: "to_evidence p \<noteq> []" by (simp add: to_evidence_def)
  have t: "py_strip (id_str (ep_tenant p)) \<noteq> []" "tenant_of_text (py_strip (id_str (ep_tenant p))) = tenant"
    using tenant_kept [OF assms(2)] by (simp_all add: f(1))
  have "from_evidence (to_evidence p) = bind_res (new_principal tenant agent requester
      (opt_value (ep_session p)) (opt_value (ep_task p)) origin (ep_chain p)) (\<lambda>p. Inr (Some p))"
    unfolding from_evidence_def evidence_entries read_requester
    using ne t \<open>origin \<noteq> []\<close>
    by (simp add: evidence_entries required_entry_def evidence_chain_def py_or_def comp_def f(2,3,6))
  with again show ?thesis by simp
qed

section \<open>The principal of a tool call\<close>

lemma carried_is_some: "carried_principal k = Inr x \<Longrightarrow> k \<noteq> NotCarried \<Longrightarrow> \<exists>q. x = Some q"
  by (cases k) (auto simp: carried_principal_def split: option.splits)

lemma carried_meets_context:
  assumes "execution_principal_from_tool_context c = Inr p" "tc_carried c \<noteq> NotCarried"
  shows "id_str (ep_tenant p) = clean_text (tc_tenant c) \<and> uuid_str (ep_agent p) = tc_agent c
    \<and> requester_text p = py_str (py_or (tc_user c) (PStr []))"
proof -
  have tenant: "clean_text (tc_tenant c) \<noteq> []"
    using assms(1) unfolding execution_principal_from_tool_context_def Let_def by (simp split: if_splits)
  with assms(1) obtain x where "carried_principal (tc_carried c) = Inr x"
    unfolding execution_principal_from_tool_context_def Let_def by auto
  with carried_is_some [OF this assms(2)] obtain q where "carried_principal (tc_carried c) = Inr (Some q)" by auto
  with assms(1) tenant show ?thesis
    unfolding execution_principal_from_tool_context_def Let_def by (simp split: if_splits)
qed

lemma built_from_context:
  assumes "execution_principal_from_tool_context c = Inr p" "tc_carried c = NotCarried"
  shows "\<not> tc_frame_required c \<and> id_str (ep_tenant p) = clean_text (tc_tenant c)
    \<and> uuid_of_text (tc_agent c) = Some (ep_agent p)
    \<and> ep_requester p = (if truthy (tc_user c) then uuid_of_text (py_str (tc_user c)) else None)"
  using assms
  by (auto simp: execution_principal_from_tool_context_def carried_principal_def Let_def new_principal_def
      uuid_or_error_def split: if_splits option.splits)

lemma no_uuid_in_nothing: "uuid_of_text [] = None"
  by code_simp

lemma requester_of_text:
  assumes "requester_text p = py_str (py_or v (PStr []))"
  shows "ep_requester p = (if truthy v then uuid_of_text (py_str v) else None)"
proof (cases "truthy v")
  case True
  with assms have t: "py_str v = requester_text p" by (simp add: py_or_def)
  from True show ?thesis
    unfolding t by (cases "ep_requester p") (simp_all add: requester_text_def no_uuid_in_nothing)
next
  case False
  with assms show ?thesis
    by (cases "ep_requester p") (simp_all add: requester_text_def py_or_def uuid_text_some)
qed

text \<open>
  The principal of a tool call speaks for the call's own context, carried or built: its
  tenant, its agent and its requester are those of the context, and a call that requires an
  authority frame gets only a principal that was carried.
\<close>

theorem principal_speaks_for_its_context:
  assumes "execution_principal_from_tool_context c = Inr p"
  shows "id_str (ep_tenant p) = clean_text (tc_tenant c)
    \<and> uuid_of_text (tc_agent c) = Some (ep_agent p)
    \<and> ep_requester p = (if truthy (tc_user c) then uuid_of_text (py_str (tc_user c)) else None)
    \<and> (tc_frame_required c \<longrightarrow> tc_carried c \<noteq> NotCarried)"
proof (cases "tc_carried c = NotCarried")
  case True
  from built_from_context [OF assms True] show ?thesis by simp
next
  case False
  from carried_meets_context [OF assms False]
  have m: "id_str (ep_tenant p) = clean_text (tc_tenant c)" "uuid_str (ep_agent p) = tc_agent c"
    "requester_text p = py_str (py_or (tc_user c) (PStr []))" by simp_all
  have "uuid_of_text (tc_agent c) = Some (ep_agent p)" by (simp flip: m(2))
  with m(1) requester_of_text [OF m(3)] False show ?thesis by simp
qed

section \<open>Authority is exactly its specification\<close>

lemma authority_allowed:
  "at_allowed (authorize_runtime_task_record r p action op) =
     (ra_tenant (runtime_task_root_authority r) = Some (id_str (ep_tenant p))
     \<and> ra_agent (runtime_task_root_authority r) = Some (uuid_str (ep_agent p))
     \<and> (if ordinary_match (runtime_task_root_authority r) p (op_session_required op)
        then root_complete (runtime_task_root_authority r) \<or> op_override op
        else op_override op \<and> clean_text (op_reason op) \<noteq> [] \<and> clean_text (op_user op) \<noteq> []))"
  unfolding authorize_runtime_task_record_def operator_decision_def deny_def Let_def by simp

lemma authority_operator:
  "at_operator (authorize_runtime_task_record r p action op) =
     (if at_allowed (authorize_runtime_task_record r p action op)
         \<and> \<not> ordinary_match (runtime_task_root_authority r) p (op_session_required op)
      then Some (clean_text (op_user op), clean_text (op_reason op)) else None)"
  unfolding authorize_runtime_task_record_def operator_decision_def deny_def Let_def by simp

lemma owner_match:
  "ordinary_match auth p b \<longleftrightarrow> ra_user auth \<noteq> None \<and> ra_user auth = map_option uuid_str (ep_requester p)
     \<and> (ra_session auth = ep_session p \<or> \<not> b)"
  by (cases "ep_requester p") (auto simp: ordinary_match_def)

text \<open>
  A task may be read or controlled exactly when its tenant and its parent agent are those of
  the caller and either the caller is its root user, in its root session where that is asked for, or an
  operator with a reason overrides; without the override the root user, the root session and a
  delegation chain must be known. A decision by override names the operator and the reason.
\<close>

theorem task_authority_is_its_specification:
  "let auth = runtime_task_root_authority r; d = authorize_runtime_task_record r p action op;
       owner = (ra_user auth \<noteq> None \<and> ra_user auth = map_option uuid_str (ep_requester p)
         \<and> (ra_session auth = ep_session p \<or> \<not> op_session_required op));
       known = (ra_session auth \<noteq> None \<and> ra_chain auth \<noteq> []);
       operator = (op_override op \<and> clean_text (op_reason op) \<noteq> [] \<and> clean_text (op_user op) \<noteq> []) in
   (at_allowed d = (ra_tenant auth = Some (id_str (ep_tenant p)) \<and> ra_agent auth = Some (uuid_str (ep_agent p))
      \<and> (owner \<and> (known \<or> op_override op) \<or> operator)))
   \<and> at_operator d = (if at_allowed d \<and> \<not> owner then Some (clean_text (op_user op), clean_text (op_reason op)) else None)"
  unfolding Let_def authority_operator authority_allowed owner_match root_complete_def by argo

section \<open>Replayed runs\<close>

text \<open>
  Claim C0. The requester of a replayed run comes from its column alone: the metadata of a record can
  stop a replay, but no metadata makes it run for another user.
\<close>

theorem metadata_never_names_the_requester:
  assumes "runtime_task_requester_user_id r = Inr u" "runtime_task_requester_user_id r' = Inr u'"
    and "dget r ''root_user_id'' = dget r' ''root_user_id''"
  shows "u = u' \<and> uuid_of_text (clean_text (dget r ''root_user_id'')) = Some u
    \<and> agrees (text_or_none (dget (metadata_principal r) ''requester_user_id'')) u
    \<and> ra_user (runtime_task_root_authority r) = Some (clean_text (dget r ''root_user_id''))"
proof -
  have "uuid_of_text (clean_text (dget r ''root_user_id'')) = Some u"
    "agrees (text_or_none (dget (metadata_principal r) ''requester_user_id'')) u"
    and ne: "clean_text (dget r ''root_user_id'') \<noteq> []"
    using assms(1) by (auto simp: runtime_task_requester_user_id_def Let_def split: if_splits option.splits)
  moreover have "uuid_of_text (clean_text (dget r' ''root_user_id'')) = Some u'"
    using assms(2) by (auto simp: runtime_task_requester_user_id_def Let_def split: if_splits option.splits)
  moreover have "truthy (dget r ''root_user_id'')"
    using ne by (cases "truthy (dget r ''root_user_id'')") (simp_all add: clean_text_def py_or_def)
  ultimately show ?thesis using assms(3)
    by (simp add: runtime_task_root_authority_def Let_def text_or_none_def py_or_def)
qed


section \<open>Witnesses\<close>

definition desk_principal :: principal where
  "desk_principal = \<lparr>ep_tenant = IdUuid 1, ep_agent = 2, ep_requester = Some 3, ep_session = Some ''s1'',
     ep_task = None, ep_origin = ''agent_tool'', ep_chain = [''root'']\<rparr>"

lemma desk_principal_made:
  "new_principal (IdUuid 1) 2 (Some 3) (PStr '' s1 '') PNone ''agent_tool'' ['' root'', '' ''] = Inr desk_principal"
  by code_simp

definition desk_context :: call_context where
  "desk_context = \<lparr>tc_tenant = PStr (uuid_str 1), tc_agent = uuid_str 2, tc_user = PStr (uuid_str 3),
     tc_session = PStr ''s1'', tc_task = PNone, tc_carried = CarriedPrincipal desk_principal,
     tc_frame_required = True\<rparr>"

definition desk_task :: task_record where
  "desk_task = [(''tenant_id'', PStr (uuid_str 1)), (''parent_agent_id'', PStr (uuid_str 2)),
     (''root_user_id'', PStr (uuid_str 3)), (''root_session_id'', PStr ''s1''),
     (''delegation_chain'', PList [PStr ''root''])]"

definition no_override :: operator_request where
  "no_override = \<lparr>op_override = False, op_user = PNone, op_reason = PNone, op_session_required = True\<rparr>"

theorem principal_survives_its_evidence_witness:
  "from_evidence (to_evidence desk_principal) = Inr (Some desk_principal)"
  by (rule principal_survives_its_evidence [OF desk_principal_made]) (simp add: readable_tenant_def)

lemma desk_context_principal: "execution_principal_from_tool_context desk_context = Inr desk_principal"
  by (simp add: execution_principal_from_tool_context_def desk_context_def carried_principal_def desk_principal_def
      requester_text_def py_or_def Let_def uuid_text_strip uuid_text_some)

theorem principal_speaks_for_its_context_witness:
  "execution_principal_from_tool_context desk_context = Inr desk_principal
   \<and> uuid_of_text (tc_agent desk_context) = Some (ep_agent desk_principal)"
  using principal_speaks_for_its_context [OF desk_context_principal] desk_context_principal by simp

lemma desk_entries:
  "dget desk_task ''tenant_id'' = PStr (uuid_str 1)" "dget desk_task ''parent_agent_id'' = PStr (uuid_str 2)"
  "dget desk_task ''root_user_id'' = PStr (uuid_str 3)" "dget desk_task ''root_session_id'' = PStr ''s1''"
  "dget desk_task ''delegation_chain'' = PList [PStr ''root'']" "dget desk_task ''root_runtime_task_id'' = PNone"
  "dget desk_task ''metadata'' = PNone" "dget desk_task ''metadata_json'' = PNone"
  by (simp_all add: desk_task_def dget_def)

lemma no_entry: "dget [] k = PNone"
  by (simp add: dget_def)

lemma desk_metadata: "record_metadata desk_task = []" "metadata_principal desk_task = []"
  by (simp_all add: record_metadata_def metadata_principal_def desk_entries py_or_def no_entry)

lemma strip_s1: "py_strip ''s1'' = ''s1''"
  by code_simp

theorem task_authority_is_its_specification_witness:
  "at_allowed (authorize_runtime_task_record desk_task desk_principal ''read'' no_override)
   \<and> at_operator (authorize_runtime_task_record desk_task desk_principal ''read'' no_override) = None"
proof -
  have a: "runtime_task_root_authority desk_task = \<lparr>ra_tenant = Some (uuid_str 1), ra_agent = Some (uuid_str 2),
      ra_user = Some (uuid_str 3), ra_session = Some ''s1'', ra_task = None, ra_chain = [''root'']\<rparr>"
    by (simp add: runtime_task_root_authority_def desk_entries desk_metadata no_entry record_chain_def py_or_def
        text_or_none_def uuid_text_strip uuid_text_some strip_s1 Let_def)
  have p: "ep_tenant desk_principal = IdUuid 1" "ep_agent desk_principal = 2" "ep_requester desk_principal = Some 3"
      "ep_session desk_principal = Some ''s1''" "op_override no_override = False"
    by (simp_all add: desk_principal_def no_override_def)
  show ?thesis
    using task_authority_is_its_specification [of desk_task desk_principal "''read''" no_override]
    unfolding Let_def a p by simp
qed

theorem metadata_never_names_the_requester_witness:
  "runtime_task_requester_user_id desk_task = Inr 3
   \<and> ra_user (runtime_task_root_authority desk_task) = Some (clean_text (dget desk_task ''root_user_id''))"
proof -
  have "runtime_task_requester_user_id desk_task = Inr 3"
    by (simp add: runtime_task_requester_user_id_def desk_entries desk_metadata no_entry uuid_text_strip uuid_text_some
        agrees_def text_or_none_def)
  with metadata_never_names_the_requester [OF this this] show ?thesis by simp
qed

end
