(* ===== verification/Spec2Isabelle.thy ===== *)
theory Spec2Isabelle
  imports Hive_Prelude Py_Value Py_Std Agent_Lifecycle Plan_Mode Plan_Lease Plan_Gate
    Budget_Decisions Workflow_Quota Workflow_Limits Workflow_Cutoff
    Loop_Guard Reminder_Run
    Plan_Tools Tool_Boundary Trigger_Wake Trigger_Settle Task_Claims Task_Authority
begin

text \<open>
  A verification development for HiveClaw, a Python platform that runs autonomous agents for
  tenants. It models the parts of the backend that decide what an agent may do: the status
  machine of an agent, Plan Mode (plans that a user confirms before autonomous work starts,
  and the single-use leases that carry a confirmation to the action), the runtime budget
  (caps on tokens, turns, children and other amounts), the workflow engine (definitions
  that an agent writes as data, compiled, admitted and interpreted against a journal), the
  policies in front of a tool call, the authority of a resource, a trigger or a task, the
  fires of a trigger, the claims of a worker on a task, and the audit trail.

  The parts and how they interact. An autonomous action asks the Plan Mode gate; the gate
  allows it by an exemption or by consuming a lease, which the plan service issued when a user
  confirmed the plan and handed it off. Work that runs reserves its amounts in the budget run
  of its root task and settles them with the actual usage; a circuit breaker, a stop or an
  expiry ends the run, a human decision on an overrun raises its caps. A workflow run is
  compiled and admitted once and then passed over its journal again and again, after gates,
  waits, signals and failures, until it completes. Inside one run of an agent the loop guard
  ends repeated work and the reminder scheduler places hints between the rounds. A tool call
  passes the tool boundary: the Plan Mode tool policy, the preflight of the action and the
  owner policy, whose versions come from the configuration revisions. A tool that writes a
  trigger stamps it with the authority of the session; the daemon checks that authority again
  when the trigger is due, asks its preflight, and records a fire with a lease; the task of
  the fire is claimed by a worker under a version that fences off older workers, and its
  end settles the fire and, by the failure policy, the trigger. Decisions on access write rows
  of the audit trail, whose hashes form a chain.

  Theories and sources, under \<open>backend/app/\<close>.

  \<^item> \<open>Hive_Prelude\<close>: results with exceptions, ordered dictionaries, and the interfaces
    of status tables and append-only logs.
  \<^item> \<open>Py_Value\<close>, \<open>Py_Std\<close>, \<open>Py_Compare\<close>, \<open>Json_Text\<close>: the Python values and the parts of its
    standard library that the code uses: string methods, \<open>repr\<close>, \<open>int()\<close>, \<open>uuid.UUID\<close>,
    canonical JSON, \<open>json.dumps\<close>, double arithmetic where a text or a comparison depends on it,
    \<open>isoformat\<close>, comparisons with their TypeErrors.
  \<^item> \<open>Agent_Lifecycle\<close>: \<open>domain/agent_lifecycle.py\<close>, the statuses, the table of transitions, the
    guards, and a step relation that \<open>transition\<close> decides.
  \<^item> \<open>Plan_Mode\<close>: \<open>services/plan_mode_core.py\<close>, the pure core: statuses of a plan, the
    confirmation check, exemptions, envelopes.
  \<^item> \<open>Plan_Lease\<close>: \<open>services/plan_authorization_lease.py\<close> over a table of approval rows: issue,
    consume, verify; the canonical form of an action and its hash.
  \<^item> \<open>Plan_Gate\<close>: \<open>services/plan_mode_gate.py\<close> and the confirm, reject and handoff operations of
    \<open>services/plan_mode_service.py\<close>.
  \<^item> \<open>Budget_Ledger\<close>, \<open>Budget_Service\<close>, \<open>Budget_Control\<close>: \<open>services/runtime_budget_service.py\<close>:
    rows and pure decisions; reserve and settle; the breaker, stops, expiry and the
    decisions on an overrun. A \<open>ledger\<close> holds the run, its events and its waiting tasks; every
    operation returns the ledger of the committed or rolled back transaction with a result
    or an exception. \<open>Budget_Books\<close>, \<open>Budget_Run\<close>, \<open>Budget_Caps\<close> and \<open>Budget_Decisions\<close> hold
    the lemmas and properties over histories of calls.
  \<^item> \<open>Workflow_Def\<close>, \<open>Workflow_Compile\<close>, \<open>Workflow_Admission\<close>, \<open>Workflow_Engine\<close>:
    \<open>runtime/workflow_definition.py\<close>, \<open>workflow_compiler.py\<close>, \<open>workflow_admission.py\<close> and
    \<open>workflow_engine.py\<close>. \<open>Workflow_Run\<close>, \<open>Workflow_Resume\<close>, \<open>Workflow_Safety\<close>,
    \<open>Workflow_Waits\<close>, \<open>Workflow_Quota\<close> and \<open>Workflow_Limits\<close> hold the lemmas and properties of
    passes that return, \<open>Workflow_Cutoff\<close> those of passes that an exception of a seam ends.
  \<^item> \<open>Loop_Guard\<close>, \<open>Reminder_Scheduler\<close>, \<open>Reminder_Run\<close>: \<open>kernel/loop_guard.py\<close> and
    \<open>kernel/reminder_scheduler.py\<close>, their state as a record, one function per method, and the
    lemmas over a run of rounds.
  \<^item> \<open>Plan_Tools\<close>, \<open>Action_Preflight\<close>, \<open>Owner_Policy\<close>, \<open>Tool_Boundary\<close>:
    \<open>tools/plan_mode_policy.py\<close>, \<open>tools/plan_gate_registry.py\<close>, \<open>services/action_preflight.py\<close>,
    \<open>services/owner_action_policy.py\<close> and the checks of \<open>tools/service.py\<close> that compose them.
  \<^item> \<open>Config_Revisions\<close>: \<open>services/config_versioning.py\<close>, the numbered revisions of a
    configuration, their diff, activation and rollback.
  \<^item> \<open>Access_Policy\<close>: \<open>core/policy.py\<close> and the access rules of \<open>core/permissions.py\<close>.
  \<^item> \<open>Audit_Chain\<close>: the audit trail of a tenant, its hash chain and the check of the chain.
  \<^item> \<open>Resource_Authority\<close>: \<open>core/resource_authority.py\<close>, which sessions and resources a caller
    reaches, chat artifacts published to a group among them; the list filter and the exact check.
  \<^item> \<open>Trigger_Authority\<close>, \<open>Trigger_Store\<close>, \<open>Trigger_Wake\<close>:
    \<open>services/trigger_resource_authority.py\<close> with the identity of \<open>models/trigger.py\<close>, the tools of
    \<open>services/agent_tool_domains/triggers.py\<close> over a table of rows, and
    \<open>services/trigger_preflight.py\<close>.
  \<^item> \<open>Trigger_Fire\<close>: the pure and transactional core of \<open>services/trigger_daemon.py\<close>: evaluation
    of each type of trigger, polls, fire keys, leases, batches and the mark of a fire.
  \<^item> \<open>Trigger_Settle\<close>: \<open>services/trigger_failure_policy.py\<close>, \<open>runtime/failure_policy.py\<close>, and the
    settlement and reconciliation of fires in \<open>services/runtime_task_service.py\<close> as
    functions and as a step relation.
  \<^item> \<open>Task_Claims\<close>, \<open>Task_Authority\<close>: \<open>services/runtime_task_claim_service.py\<close> with
    \<open>runtime_task_fence.py\<close>, and \<open>services/runtime_task_authority.py\<close> with the principal of
    \<open>core/execution_context.py\<close>.

  What the groups of lemmas show. Agent lifecycle: the function decides the step relation, no
  unprivileged run halts, archived is final. Plan Mode: the confirmation check accepts
  exactly what its rules say, a lease is consumed at most once and only under its binding,
  the gate allows nothing but an exemption or a consumed lease, a confirmed plan reaches the
  handler of its target with evidence of a lease, whatever that handler then answers. Budget: the books balance in every reachable ledger, the caps hold, the status of
  a run follows its machine, replays change nothing, refusals move no money. Workflow: the
  references of a compiled definition are bound, an admitted run stays inside its limits, a
  later pass repeats nothing, an external effect waits for its gates, waits end, the quota is
  not overdrawn, the journal stays typed, also over passes that were cut off. Loop guard and reminders: the guard
  aborts only on proof, reminders keep their limits per round and per group. Tool policies: what
  Plan Mode lets through writes only the plan file, a tool runs exactly under the stated
  conditions, revisions form a chain with consecutive versions and a rollback restores the
  policy. Access and audit: access across owners leaves its event, a published artifact stays in its
  group, list filters agree with the exact check, the trail is one chain and a changed row is detected. Triggers: no tool call forges an
  authority, a wake is backed by plan evidence, a held trigger does not fire again, a batch has one
  requester, a trigger exceeds its maximum of fires only by early marks, a settlement is final,
  failures back off exponentially up to an hour. Tasks: a claim is admitted, an older claim is fenced off for good, a live one is not
  stolen, an abandoned one is recovered, a principal survives its evidence. Where the code keeps less than it or its documents promise, a property or
  a note shows it; these are the findings of the manifest.

  Interfaces. \<open>status_table\<close> (a status machine with final statuses: agents, plans, budget runs),
  \<open>append_log\<close> (the event stream of a budget run, the revisions of a configuration, the audit
  trail), \<open>world_invariant\<close> (what every seam of a workflow environment keeps, a pass keeps),
  \<open>quota_port\<close> (the laws of a quota envelope) and \<open>fencing\<close> (versions that shut out older
  workers), each interpreted on the model's own operations.

  Bounds and fuel. No definition runs on fuel: loops of the code are structural recursions or
  functions with a termination proof. Numbers are unbounded as in Python, doubles are rationals
  rounded to the nearest representable value where the code uses them.

  Not modelled. Characters beyond U+00FF (the literals that use them are written in ASCII);
  SQL, row locks and isolation: an operation of a service over its tables is one atomic
  step, and the order of operations is the order of calls; pydantic's parsing; SHA-256,
  ISO parsing, time zones, cron schedules and the HTTP request of a poll, which are arguments;
  network, model calls, prompts, HTTP, channels and storage; the interleavings of a fan-out other than the item order. The running of a
  fired batch and the delivery of its result, the reconciliation of orphaned
  reservations and the session event contract are left out: they are sequences of database
  and model calls whose decisions are those of the parts above. The manifest lists
  the components that are left out with the reason for each.
\<close>

end
